(* ===== verification/Prelude.thy ===== *)
theory Prelude
  imports Main "HOL-Library.Char_ord" "HOL-Library.List_Lexorder"
begin

text \<open>
  Shared ground of the Gemini System development.  The C++ exceptions the modelled code throws are the
  values of one datatype, and a fallible function returns \<open>error + 'a\<close>.  The C++ strings are lists of
  8-bit characters; the character classes and the small string routines of the standard library
  that several source files use (\<open>isspace\<close>, \<open>toupper\<close>, \<open>find_first_not_of\<close>, \<open>getline\<close>,
  \<open>to_string\<close>, \<open>stoi\<close>, \<open>stoll\<close>, \<open>stoull\<close>) are defined here once, in the C locale.
  A machine \<open>int\<close> is an \<open>int\<close> together with the range predicate \<open>int32\<close>: signed overflow is
  undefined behaviour in C++, so the arithmetic helpers return the error \<open>UndefinedBehaviour\<close>
  instead of wrapping around.
\<close>

named_theorems err_simps \<open>computation rules of the error monad\<close>
named_theorems wf_intros \<open>well-formedness is preserved by an operation\<close>
named_theorems range_simps \<open>unfolding of the machine ranges\<close>

section \<open>Errors\<close>

datatype error =
    RuntimeError string
  | FileSystemError string
  | OutOfRange string
  | InvalidArgument string
  | ChainRequest string
  | UserInterrupt
  | UndefinedBehaviour

type_synonym 'a result = "error + 'a"

text \<open>What \<open>catch (const std::exception &)\<close> catches.\<close>

fun is_std_exception :: "error \<Rightarrow> bool" where
  "is_std_exception (RuntimeError _) = True"
| "is_std_exception (FileSystemError _) = True"
| "is_std_exception (OutOfRange _) = True"
| "is_std_exception (InvalidArgument _) = True"
| "is_std_exception (ChainRequest _) = False"
| "is_std_exception UserInterrupt = False"
| "is_std_exception UndefinedBehaviour = False"

fun error_what :: "error \<Rightarrow> string" where
  "error_what (RuntimeError t) = t"
| "error_what (FileSystemError t) = t"
| "error_what (OutOfRange t) = t"
| "error_what (InvalidArgument t) = t"
| "error_what e = []"

definition bindE :: "'e + 'a \<Rightarrow> ('a \<Rightarrow> 'e + 'b) \<Rightarrow> 'e + 'b" where
  "bindE r k = (case r of Inl e \<Rightarrow> Inl e | Inr x \<Rightarrow> k x)"

lemma bindE_Inl [simp, err_simps]: "bindE (Inl e) k = Inl e"
  by (simp add: bindE_def)

lemma bindE_Inr [simp, err_simps]: "bindE (Inr x) k = k x"
  by (simp add: bindE_def)

lemma bindE_eq_Inr_iff [err_simps]: "bindE r k = Inr y \<longleftrightarrow> (\<exists>x. r = Inr x \<and> k x = Inr y)"
  by (cases r) auto

lemma bindE_eq_Inl_iff: "bindE r k = Inl e \<longleftrightarrow> r = Inl e \<or> (\<exists>x. r = Inr x \<and> k x = Inl e)"
  by (cases r) auto

lemma bindE_assoc: "bindE (bindE r f) g = bindE r (\<lambda>x. bindE (f x) g)"
  by (cases r) simp_all

fun mapE :: "('a \<Rightarrow> 'e + 'b) \<Rightarrow> 'a list \<Rightarrow> 'e + 'b list" where
  "mapE f [] = Inr []"
| "mapE f (x # xs) = bindE (f x) (\<lambda>y. bindE (mapE f xs) (\<lambda>ys. Inr (y # ys)))"

lemma mapE_eq_Inr_iff:
  "mapE f xs = Inr ys \<longleftrightarrow> list_all2 (\<lambda>x y. f x = Inr y) xs ys"
  by (induction xs arbitrary: ys) (auto simp: bindE_eq_Inr_iff list_all2_Cons1)

lemma mapE_length: "mapE f xs = Inr ys \<Longrightarrow> length ys = length xs"
  by (auto simp: mapE_eq_Inr_iff dest: list_all2_lengthD)

section \<open>State and errors\<close>

text \<open>
  Stateful code that may throw: the result together with the state in which it was reached, so that what a
  computation did before it threw is kept.
\<close>

type_synonym ('s, 'a) action = "'s \<Rightarrow> 'a result \<times> 's"

definition retS :: "'a \<Rightarrow> ('s, 'a) action" where
  "retS x s = (Inr x, s)"

definition throwS :: "error \<Rightarrow> ('s, 'a) action" where
  "throwS e s = (Inl e, s)"

definition liftS :: "'a result \<Rightarrow> ('s, 'a) action" where
  "liftS r s = (r, s)"

definition getS :: "('s \<Rightarrow> 'a) \<Rightarrow> ('s, 'a) action" where
  "getS f s = (Inr (f s), s)"

definition updS :: "('s \<Rightarrow> 's) \<Rightarrow> ('s, unit) action" where
  "updS f s = (Inr (), f s)"

definition bindS :: "('s, 'a) action \<Rightarrow> ('a \<Rightarrow> ('s, 'b) action) \<Rightarrow> ('s, 'b) action" where
  "bindS m k s = (case m s of (Inl e, t) \<Rightarrow> (Inl e, t) | (Inr x, t) \<Rightarrow> k x t)"

lemma action_simps [simp]:
  "retS x s = (Inr x, s)" "throwS e s = (Inl e, s)" "liftS r s = (r, s)" "getS f s = (Inr (f s), s)" "updS g s = (Inr (), g s)"
  by (simp_all add: retS_def throwS_def liftS_def getS_def updS_def)

text \<open>
  Triples: from a state in \<open>P\<close>, a result and its state satisfy \<open>Q\<close>, an error and its state \<open>E\<close>.
\<close>

definition triple :: "('s \<Rightarrow> bool) \<Rightarrow> ('s, 'a) action \<Rightarrow> ('a \<Rightarrow> 's \<Rightarrow> bool) \<Rightarrow> (error \<Rightarrow> 's \<Rightarrow> bool) \<Rightarrow> bool" where
  "triple P m Q E \<longleftrightarrow> (\<forall>s. P s \<longrightarrow> (case m s of (Inr x, t) \<Rightarrow> Q x t | (Inl e, t) \<Rightarrow> E e t))"

lemma triple_bind:
  assumes "triple P m R E" "\<And>x. triple (R x) (k x) Q E"
  shows "triple P (bindS m k) Q E"
  unfolding triple_def
proof (intro allI impI)
  fix s assume "P s"
  then have m: "case m s of (Inr x, t) \<Rightarrow> R x t | (Inl e, t) \<Rightarrow> E e t" using assms(1) by (simp add: triple_def)
  obtain r t where rt: "m s = (r, t)" by (cases "m s")
  show "case bindS m k s of (Inr x, t) \<Rightarrow> Q x t | (Inl e, t) \<Rightarrow> E e t"
  proof (cases r)
    case (Inr x)
    then have "R x t" using m rt by simp
    then show ?thesis using assms(2) [of x] Inr rt by (simp add: bindS_def triple_def)
  qed (use m rt in \<open>simp add: bindS_def\<close>)
qed

lemma triple_ret: "(\<And>s. P s \<Longrightarrow> Q x s) \<Longrightarrow> triple P (retS x) Q E"
  by (simp add: triple_def)

lemma triple_throw: "(\<And>s. P s \<Longrightarrow> E e s) \<Longrightarrow> triple P (throwS e) Q E"
  by (simp add: triple_def)

lemma triple_lift: "(\<And>s x. P s \<Longrightarrow> r = Inr x \<Longrightarrow> Q x s) \<Longrightarrow> (\<And>s e. P s \<Longrightarrow> r = Inl e \<Longrightarrow> E e s) \<Longrightarrow> triple P (liftS r) Q E"
  by (auto simp: triple_def split: sum.splits)

lemma triple_get: "(\<And>s. P s \<Longrightarrow> Q (f s) s) \<Longrightarrow> triple P (getS f) Q E"
  by (simp add: triple_def)

lemma triple_upd: "(\<And>s. P s \<Longrightarrow> Q () (g s)) \<Longrightarrow> triple P (updS g) Q E"
  by (simp add: triple_def)

lemma triple_weaken:
  "triple P m Q E \<Longrightarrow> (\<And>s. P' s \<Longrightarrow> P s) \<Longrightarrow> (\<And>x s. Q x s \<Longrightarrow> Q' x s) \<Longrightarrow> (\<And>e s. E e s \<Longrightarrow> E' e s) \<Longrightarrow> triple P' m Q' E'"
  by (fastforce simp: triple_def split: prod.splits sum.splits)

section \<open>Machine integers\<close>

definition int_min :: int where "int_min = - 2147483648"
definition int_max :: int where "int_max = 2147483647"

lemmas int_bounds [range_simps] = int_min_def int_max_def

definition int32 :: "int \<Rightarrow> bool" where
  "int32 i \<longleftrightarrow> int_min \<le> i \<and> i \<le> int_max"

definition int64 :: "int \<Rightarrow> bool" where
  "int64 i \<longleftrightarrow> - 9223372036854775808 \<le> i \<and> i \<le> 9223372036854775807"

lemmas int32_unfold [range_simps] = int32_def int_min_def int_max_def

text \<open>The result of a signed \<open>int\<close> operation whose mathematical value is \<open>i\<close>.\<close>

definition checked_int :: "int \<Rightarrow> int result" where
  "checked_int i = (if int32 i then Inr i else Inl UndefinedBehaviour)"

text \<open>The conversion of an unsigned or wider integer to \<open>int\<close>.\<close>

definition wrap32 :: "int \<Rightarrow> int" where
  "wrap32 i = (i + 2147483648) mod 4294967296 - 2147483648"

lemma wrap32_int32 [simp]: "int32 (wrap32 i)"
  using pos_mod_bound [of 4294967296 "i + 2147483648"] pos_mod_sign [of 4294967296 "i + 2147483648"]
  by (simp add: wrap32_def int32_def int_min_def int_max_def)

lemma wrap32_id: "int32 i \<Longrightarrow> wrap32 i = i"
  by (simp add: wrap32_def int32_def int_min_def int_max_def)

lemma checked_int_Inr [simp]: "checked_int i = Inr j \<longleftrightarrow> int32 i \<and> j = i"
  by (auto simp: checked_int_def)

lemma checked_int_in_range [simp]: "int32 i \<Longrightarrow> checked_int i = Inr i"
  by (simp add: checked_int_def)

lemma int32_small [simp]: "int32 0" "int32 1" "int32 (- 1)"
  by (simp_all add: range_simps)

text \<open>C++ division and remainder truncate toward zero.\<close>

definition trunc_div :: "int \<Rightarrow> int \<Rightarrow> int" where
  "trunc_div a b = sgn a * sgn b * (\<bar>a\<bar> div \<bar>b\<bar>)"

definition trunc_mod :: "int \<Rightarrow> int \<Rightarrow> int" where
  "trunc_mod a b = a - trunc_div a b * b"

lemma trunc_div_mod: "trunc_div a b * b + trunc_mod a b = a"
  by (simp add: trunc_mod_def)

lemma trunc_mod_eq: "trunc_mod a b = sgn a * (\<bar>a\<bar> mod \<bar>b\<bar>)"
proof -
  have "sgn b * b = \<bar>b\<bar>" by (simp add: abs_sgn mult.commute)
  then have "trunc_div a b * b = sgn a * (\<bar>a\<bar> div \<bar>b\<bar> * \<bar>b\<bar>)"
    by (simp add: trunc_div_def ac_simps)
  moreover have "sgn a * (\<bar>a\<bar> div \<bar>b\<bar> * \<bar>b\<bar>) + sgn a * (\<bar>a\<bar> mod \<bar>b\<bar>) = a"
    by (metis distrib_left div_mult_mod_eq mult_sgn_abs)
  ultimately show ?thesis by (simp add: trunc_mod_def)
qed

lemma abs_trunc_mod_less: "b \<noteq> 0 \<Longrightarrow> \<bar>trunc_mod a b\<bar> < \<bar>b\<bar>"
  by (simp add: trunc_mod_eq abs_mult abs_sgn_eq)


section \<open>Characters and strings\<close>

abbreviation NUL :: char where "NUL \<equiv> CHR 0x00"
abbreviation TAB :: char where "TAB \<equiv> CHR 0x09"
abbreviation LF :: char where "LF \<equiv> CHR 0x0A"
abbreviation CR :: char where "CR \<equiv> CHR 0x0D"
abbreviation SP :: char where "SP \<equiv> CHR 0x20"
abbreviation DQ :: char where "DQ \<equiv> CHR 0x22"
abbreviation BSL :: char where "BSL \<equiv> CHR 0x5C"

definition code_of :: "char \<Rightarrow> nat" where
  "code_of c = of_char c"

definition isspace :: "char \<Rightarrow> bool" where
  "isspace c \<longleftrightarrow> c = SP \<or> (9 \<le> code_of c \<and> code_of c \<le> 13)"

definition isdigit :: "char \<Rightarrow> bool" where
  "isdigit c \<longleftrightarrow> 48 \<le> code_of c \<and> code_of c \<le> 57"

definition toupper :: "char \<Rightarrow> char" where
  "toupper c = (if 97 \<le> code_of c \<and> code_of c \<le> 122 then char_of (code_of c - 32) else c)"

definition tolower :: "char \<Rightarrow> char" where
  "tolower c = (if 65 \<le> code_of c \<and> code_of c \<le> 90 then char_of (code_of c + 32) else c)"

definition upperCopy :: "string \<Rightarrow> string" where
  "upperCopy s = map toupper s"

definition lowerCopy :: "string \<Rightarrow> string" where
  "lowerCopy s = map tolower s"

lemma code_of_less [simp]: "code_of c < 256"
  by (metis code_of_def char_of_mod_256 of_char_mod_256 mod_less_divisor zero_less_numeral)

lemma char_of_code_of [simp]: "char_of (code_of c) = c"
  by (simp add: code_of_def)

lemma code_of_char_of [simp]: "n < 256 \<Longrightarrow> code_of (char_of n) = n"
  by (simp add: code_of_def)

lemma code_of_inj [simp]: "code_of c = code_of d \<longleftrightarrow> c = d"
  by (metis char_of_code_of)

lemma code_of_toupper: "code_of (toupper c) = (if 97 \<le> code_of c \<and> code_of c \<le> 122 then code_of c - 32 else code_of c)"
  using code_of_less [of c] by (auto simp: toupper_def)

lemma toupper_idem [simp]: "toupper (toupper c) = toupper c"
  by (auto simp: code_of_toupper simp flip: code_of_inj)

lemma upperCopy_idem [simp]: "upperCopy (upperCopy s) = upperCopy s"
  by (simp add: upperCopy_def)

text \<open>The set \<open>" \t\r\n"\<close> the sources pass to \<open>find_first_not_of\<close> and \<open>find_last_not_of\<close>.\<close>

definition blank :: "char \<Rightarrow> bool" where
  "blank c \<longleftrightarrow> c = SP \<or> c = TAB \<or> c = CR \<or> c = LF"

definition strip :: "(char \<Rightarrow> bool) \<Rightarrow> string \<Rightarrow> string" where
  "strip p s = rev (dropWhile p (rev (dropWhile p s)))"

definition trim :: "string \<Rightarrow> string" where
  "trim s = strip blank s"

lemma strip_Nil [simp]: "strip p [] = []"
  by (simp add: strip_def)

lemma strip_ends:
  assumes "s \<noteq> []" "\<not> p (hd s)" "\<not> p (last s)"
  shows "strip p s = s"
proof -
  have "dropWhile p s = s" using assms by (cases s) auto
  moreover have "dropWhile p (rev s) = rev s" using assms by (cases s rule: rev_cases) auto
  ultimately show ?thesis by (simp add: strip_def)
qed

lemma dropWhile_rev_hd: "xs \<noteq> [] \<Longrightarrow> \<not> p (hd xs) \<Longrightarrow> hd (rev (dropWhile p (rev xs))) = hd xs"
proof (cases xs)
  case (Cons x ys)
  assume "\<not> p (hd xs)"
  with Cons have "\<exists>y \<in> set (rev ys). \<not> p y \<Longrightarrow> dropWhile p (rev ys @ [x]) = dropWhile p (rev ys) @ [x]"
    by (simp add: dropWhile_append)
  with Cons \<open>\<not> p (hd xs)\<close> show ?thesis
    by (cases "\<exists>y \<in> set (rev ys). \<not> p y") (auto simp: dropWhile_append)
qed simp

lemma strip_idem [simp]: "strip p (strip p s) = strip p s"
proof (cases "strip p s = []")
  case False
  let ?d = "dropWhile p s"
  have d: "?d \<noteq> []" using False by (intro notI) (simp add: strip_def)
  then have h: "\<not> p (hd ?d)" by (rule hd_dropWhile)
  have "\<not> p (last (strip p s))"
    using False by (simp add: strip_def last_rev hd_dropWhile)
  moreover have "hd (strip p s) = hd ?d"
    unfolding strip_def using d h by (rule dropWhile_rev_hd)
  ultimately show ?thesis using False h by (simp add: strip_ends)
qed simp

lemma strip_set: "set (strip p s) \<subseteq> set s"
  unfolding strip_def by (auto dest!: set_dropWhileD)

lemma trim_idem [simp]: "trim (trim s) = trim s"
  by (simp add: trim_def)

lemma trim_set: "set (trim s) \<subseteq> set s"
  by (simp add: trim_def strip_set)

section \<open>Splitting and joining on a delimiter\<close>

fun split_on :: "char \<Rightarrow> string \<Rightarrow> string list" where
  "split_on d [] = [[]]"
| "split_on d (c # cs) =
     (if c = d then [] # split_on d cs
      else (case split_on d cs of [] \<Rightarrow> [[c]] | p # ps \<Rightarrow> (c # p) # ps))"

fun join_with :: "char \<Rightarrow> string list \<Rightarrow> string" where
  "join_with d [] = []"
| "join_with d [p] = p"
| "join_with d (p # q # ps) = p @ d # join_with d (q # ps)"

lemma split_on_not_Nil [simp]: "split_on d s \<noteq> []"
  by (induction s) (auto split: list.splits)

lemma join_split [simp]: "join_with d (split_on d s) = s"
proof (induction s)
  case (Cons c cs)
  obtain p ps where ps: "split_on d cs = p # ps" by (cases "split_on d cs") auto
  with Cons show ?case by (cases ps) auto
qed simp

lemma split_on_eq_single_Nil: "split_on d s = [[]] \<longleftrightarrow> s = []"
  by (metis join_split join_with.simps(2) split_on.simps(1))

lemma split_on_pieces: "p \<in> set (split_on d s) \<Longrightarrow> d \<notin> set p"
  by (induction s arbitrary: p) (auto split: list.splits if_splits)

lemma split_on_append_delim:
  "d \<notin> set p \<Longrightarrow> split_on d (p @ d # s) = p # split_on d s"
  by (induction p) auto

lemma split_on_no_delim: "d \<notin> set p \<Longrightarrow> split_on d p = [p]"
  by (induction p) auto

lemma split_join:
  assumes "ps \<noteq> []" "\<forall>p \<in> set ps. d \<notin> set p"
  shows "split_on d (join_with d ps) = ps"
  using assms
  by (induction d ps rule: join_with.induct) (auto simp: split_on_append_delim split_on_no_delim)

lemma join_with_append:
  "ps \<noteq> [] \<Longrightarrow> qs \<noteq> [] \<Longrightarrow> join_with d (ps @ qs) = join_with d ps @ d # join_with d qs"
proof (induction d ps rule: join_with.induct)
  case (2 d p)
  then show ?case by (cases qs) auto
qed auto

lemma join_with_eq_Nil: "join_with d ps = [] \<longleftrightarrow> ps = [] \<or> ps = [[]]"
  by (induction d ps rule: join_with.induct) auto

text \<open>
  The lines a loop \<open>while (std::getline(in, line, d))\<close> delivers: the pieces between the delimiters,
  without a final empty piece.
\<close>

definition getlines :: "char \<Rightarrow> string \<Rightarrow> string list" where
  "getlines d s = (let ps = split_on d s in if last ps = [] then butlast ps else ps)"

lemma getlines_Nil [simp]: "getlines d [] = []"
  by (simp add: getlines_def)

lemma getlines_cons:
  assumes "d \<notin> set p"
  shows "getlines d (p @ d # s) = p # getlines d s"
  using assms by (simp add: getlines_def split_on_append_delim Let_def)

lemma getlines_no_delim: "d \<notin> set p \<Longrightarrow> getlines d p = (if p = [] then [] else [p])"
  by (simp add: getlines_def split_on_no_delim)

lemma getlines_concat:
  assumes "\<forall>p \<in> set ps. d \<notin> set p"
  shows "getlines d (concat (map (\<lambda>p. p @ [d]) ps)) = ps"
  using assms by (induction ps) (simp_all add: getlines_cons)

lemma getlines_join:
  assumes "ps \<noteq> []" "\<forall>p \<in> set ps. d \<notin> set p" "last ps \<noteq> []"
  shows "getlines d (join_with d ps) = ps"
  using assms by (simp add: getlines_def split_join)

lemma getlines_pieces: "p \<in> set (getlines d s) \<Longrightarrow> d \<notin> set p"
  by (auto simp: getlines_def Let_def split: if_splits dest: split_on_pieces in_set_butlastD)

section \<open>Decimal numbers\<close>

definition digit_char :: "nat \<Rightarrow> char" where
  "digit_char n = char_of (48 + n)"

definition digit_value :: "char \<Rightarrow> nat" where
  "digit_value c = code_of c - 48"

fun show_nat :: "nat \<Rightarrow> string" where
  "show_nat n = (if n < 10 then [digit_char n] else show_nat (n div 10) @ [digit_char (n mod 10)])"

declare show_nat.simps [simp del]

text \<open>\<open>std::to_string\<close> and \<open>operator <<\<close> on integers.\<close>

definition show_int :: "int \<Rightarrow> string" where
  "show_int i = (if i < 0 then CHR ''-'' # show_nat (nat (- i)) else show_nat (nat i))"

definition nat_of_digits :: "string \<Rightarrow> nat" where
  "nat_of_digits ds = foldl (\<lambda>n c. 10 * n + digit_value c) 0 ds"

lemma digit_char_props [simp]:
  assumes "n < 10"
  shows "isdigit (digit_char n)" "digit_value (digit_char n) = n" "\<not> isspace (digit_char n)"
    "\<not> blank (digit_char n)"
proof -
  have c: "code_of (digit_char n) = 48 + n" using assms by (simp add: digit_char_def)
  then show "isdigit (digit_char n)" "digit_value (digit_char n) = n"
    using assms by (simp_all add: isdigit_def digit_value_def)
  have ne: "digit_char n \<noteq> d" if "code_of d < 48" for d
    using c that by auto
  have "digit_char n \<noteq> SP" "digit_char n \<noteq> TAB" "digit_char n \<noteq> CR" "digit_char n \<noteq> LF"
    by (rule ne, simp add: code_of_def)+
  then show "\<not> isspace (digit_char n)" "\<not> blank (digit_char n)"
    using c by (auto simp: isspace_def blank_def)
qed

lemma nat_of_digits_snoc [simp]: "nat_of_digits (ds @ [c]) = 10 * nat_of_digits ds + digit_value c"
  by (simp add: nat_of_digits_def)

lemma show_nat_not_Nil [simp]: "show_nat n \<noteq> []"
  by (subst show_nat.simps) simp

lemma show_nat_digits: "list_all isdigit (show_nat n)"
proof (induction n rule: show_nat.induct)
  case (1 n)
  then show ?case by (subst show_nat.simps) simp
qed

lemma nat_of_digits_show_nat [simp]: "nat_of_digits (show_nat n) = n"
proof (induction n rule: show_nat.induct)
  case (1 n)
  show ?case
  proof (cases "n < 10")
    case True
    then show ?thesis by (subst show_nat.simps) (simp add: nat_of_digits_def)
  next
    case False
    with 1 show ?thesis by (subst show_nat.simps) simp
  qed
qed

text \<open>
  The common scanner of \<open>strtol\<close>, \<open>strtoll\<close> and \<open>strtoull\<close> in base 10: leading white space, an
  optional sign, at least one digit.  The result is the sign, the digits and the unread rest.
\<close>

definition take_sign :: "string \<Rightarrow> bool \<times> string" where
  "take_sign s = (case s of [] \<Rightarrow> (False, [])
     | c # cs \<Rightarrow> if c = CHR ''-'' then (True, cs) else if c = CHR ''+'' then (False, cs) else (False, s))"

definition strtol_scan :: "string \<Rightarrow> (bool \<times> nat \<times> string) option" where
  "strtol_scan s =
     (let (neg, t) = take_sign (dropWhile isspace s);
          ds = takeWhile isdigit t
      in if ds = [] then None else Some (neg, nat_of_digits ds, dropWhile isdigit t))"

definition signed_of :: "bool \<Rightarrow> nat \<Rightarrow> int" where
  "signed_of neg n = (if neg then - int n else int n)"

text \<open>\<open>std::stoi\<close>, \<open>std::stoll\<close> and \<open>std::stoull\<close> with the unread rest in place of the position.\<close>

definition stoi :: "string \<Rightarrow> (int \<times> string) result" where
  "stoi s = (case strtol_scan s of None \<Rightarrow> Inl (InvalidArgument ''stoi'')
     | Some (neg, n, rest) \<Rightarrow>
         if int32 (signed_of neg n) then Inr (signed_of neg n, rest) else Inl (OutOfRange ''stoi''))"

definition stoll :: "string \<Rightarrow> (int \<times> string) result" where
  "stoll s = (case strtol_scan s of None \<Rightarrow> Inl (InvalidArgument ''stoll'')
     | Some (neg, n, rest) \<Rightarrow>
         if int64 (signed_of neg n) then Inr (signed_of neg n, rest) else Inl (OutOfRange ''stoll''))"

definition stoull :: "string \<Rightarrow> (nat \<times> string) result" where
  "stoull s = (case strtol_scan s of None \<Rightarrow> Inl (InvalidArgument ''stoull'')
     | Some (neg, n, rest) \<Rightarrow>
         if n < 2 ^ 64 then Inr (if neg then (2 ^ 64 - n) mod 2 ^ 64 else n, rest)
         else Inl (OutOfRange ''stoull''))"

text \<open>A rest that does not extend the number in front of it.\<close>

definition no_digit_first :: "string \<Rightarrow> bool" where
  "no_digit_first s \<longleftrightarrow> (case s of [] \<Rightarrow> True | c # _ \<Rightarrow> \<not> isdigit c)"

lemma no_digit_first_Nil [simp]: "no_digit_first []"
  by (simp add: no_digit_first_def)

lemma span_digits:
  assumes "list_all isdigit ds" "no_digit_first r"
  shows "takeWhile isdigit (ds @ r) = ds" "dropWhile isdigit (ds @ r) = r"
  using assms by (induction ds) (auto simp: no_digit_first_def split: list.splits)

lemma digit_not_sign: "isdigit c \<Longrightarrow> c \<noteq> CHR ''-'' \<and> c \<noteq> CHR ''+''"
  by (auto simp: isdigit_def code_of_def)

lemma digit_not_space: "isdigit c \<Longrightarrow> \<not> isspace c"
  by (auto simp: isdigit_def isspace_def code_of_def)

lemma digit_not_blank: "isdigit c \<Longrightarrow> \<not> blank c"
  by (auto simp: isdigit_def blank_def code_of_def)

lemma show_nat_Cons: "\<exists>c cs. show_nat n = c # cs \<and> isdigit c"
  using show_nat_digits [of n] by (cases "show_nat n") auto

lemma strtol_scan_show_nat:
  assumes "no_digit_first r"
  shows "strtol_scan (show_nat n @ r) = Some (False, n, r)"
proof -
  obtain c cs where c: "show_nat n = c # cs" "isdigit c" using show_nat_Cons by blast
  have "take_sign (dropWhile isspace (show_nat n @ r)) = (False, show_nat n @ r)"
    using c by (simp add: take_sign_def digit_not_sign digit_not_space)
  then show ?thesis
    using span_digits [OF show_nat_digits assms, of n] by (simp add: strtol_scan_def)
qed

lemma strtol_scan_show_int:
  assumes "no_digit_first r"
  shows "strtol_scan (show_int i @ r) = Some (i < 0, nat \<bar>i\<bar>, r)"
proof (cases "i < 0")
  case True
  have "\<not> isspace CHR ''-''" by (simp add: isspace_def code_of_def)
  then have "take_sign (dropWhile isspace (show_int i @ r)) = (True, show_nat (nat (- i)) @ r)"
    using True by (simp add: show_int_def take_sign_def)
  then show ?thesis
    using True span_digits [OF show_nat_digits assms, of "nat (- i)"]
    by (simp add: strtol_scan_def)
next
  case False
  then show ?thesis using strtol_scan_show_nat [OF assms] by (simp add: show_int_def)
qed

lemma signed_of_abs [simp]: "signed_of (i < 0) (nat \<bar>i\<bar>) = i"
  by (simp add: signed_of_def)

lemma stoi_show_int: "int32 i \<Longrightarrow> no_digit_first r \<Longrightarrow> stoi (show_int i @ r) = Inr (i, r)"
  by (simp add: stoi_def strtol_scan_show_int)

lemma int32_int64: "int32 i \<Longrightarrow> int64 i"
  by (simp add: range_simps int64_def)

lemma stoll_show_int: "int64 i \<Longrightarrow> no_digit_first r \<Longrightarrow> stoll (show_int i @ r) = Inr (i, r)"
  by (simp add: stoll_def strtol_scan_show_int)

lemma stoull_show_nat: "n < 2 ^ 64 \<Longrightarrow> no_digit_first r \<Longrightarrow> stoull (show_nat n @ r) = Inr (n, r)"
  by (simp add: stoull_def strtol_scan_show_nat)

lemma stoi_int32: "stoi s = Inr (i, r) \<Longrightarrow> int32 i"
  by (auto simp: stoi_def split: option.splits if_splits)

lemma show_int_not_Nil [simp]: "show_int i \<noteq> []"
  by (simp add: show_int_def)

lemma show_nat_set: "c \<in> set (show_nat n) \<Longrightarrow> isdigit c"
  using show_nat_digits by (auto simp: list_all_iff)

lemma show_int_set: "c \<in> set (show_int i) \<Longrightarrow> isdigit c \<or> c = CHR ''-''"
  by (auto simp: show_int_def split: if_splits dest: show_nat_set)

section \<open>Machines with an invariant\<close>

text \<open>
  The common shape of the stateful components: an operation of type \<open>'o\<close> turns a state into the next
  one, and an invariant that every operation keeps holds along every sequence of operations.
\<close>

locale invariant_machine =
  fixes step :: "'s \<Rightarrow> 'o \<Rightarrow> 's"
    and inv :: "'s \<Rightarrow> bool"
  assumes step_inv: "inv s \<Longrightarrow> inv (step s x)"
begin

lemma run_inv: "inv s \<Longrightarrow> inv (foldl step s xs)"
  by (induction xs arbitrary: s) (auto intro: step_inv)

lemma run_keeps:
  assumes "inv s" "P s"
    and keep: "\<And>t x. inv t \<Longrightarrow> P t \<Longrightarrow> x \<in> set xs \<Longrightarrow> P (step t x)"
  shows "P (foldl step s xs)"
  using assms
proof (induction xs arbitrary: s)
  case (Cons x xs)
  have "P (step s x)" using Cons.prems(3) [OF Cons.prems(1,2)] by simp
  moreover have "inv (step s x)" using Cons.prems(1) by (rule step_inv)
  ultimately have "P (foldl step (step s x) xs)" using Cons.prems(3) by (intro Cons.IH) auto
  then show ?case by simp
qed simp

end

section \<open>Association lists as C++ maps\<close>

text \<open>
  A \<open>std::map\<close> or \<open>std::unordered_map\<close> is an association list with distinct keys; \<open>map_put\<close> is the
  assignment \<open>m[k] = v\<close>, \<open>map_erase\<close> is \<open>m.erase(k)\<close> and \<open>map_of\<close> is \<open>m.find(k)\<close>.
\<close>

fun map_put :: "'k \<Rightarrow> 'v \<Rightarrow> ('k \<times> 'v) list \<Rightarrow> ('k \<times> 'v) list" where
  "map_put k v [] = [(k, v)]"
| "map_put k v ((k', v') # m) = (if k = k' then (k, v) # m else (k', v') # map_put k v m)"

definition map_erase :: "'k \<Rightarrow> ('k \<times> 'v) list \<Rightarrow> ('k \<times> 'v) list" where
  "map_erase k m = filter (\<lambda>(k', _). k' \<noteq> k) m"

definition map_wf :: "('k \<times> 'v) list \<Rightarrow> bool" where
  "map_wf m \<longleftrightarrow> distinct (map fst m)"

lemma map_of_map_put [simp]: "map_of (map_put k v m) = (map_of m)(k \<mapsto> v)"
  by (induction m) auto

lemma map_put_keys: "fst ` set (map_put k v m) = insert k (fst ` set m)"
  by (simp flip: dom_map_of_conv_image_fst)

lemma map_put_wf [simp]: "map_wf m \<Longrightarrow> map_wf (map_put k v m)"
  unfolding map_wf_def
  by (induction m) (auto simp: map_put_keys)

lemma map_put_values: "(k', v') \<in> set (map_put k v m) \<Longrightarrow> (k', v') = (k, v) \<or> (k', v') \<in> set m"
  by (induction m) (auto split: if_splits)

lemma map_put_not_Nil [simp]: "map_put k v m \<noteq> []"
  by (cases m) (auto split: if_splits)

lemma map_of_map_erase [simp]: "map_of (map_erase k m) = (map_of m)(k := None)"
  by (induction m) (auto simp: map_erase_def fun_eq_iff)

lemma map_of_map_erase_apply: "map_of (map_erase k m) k' = (if k' = k then None else map_of m k')"
  by simp

lemma map_erase_set: "set (map_erase k m) \<subseteq> set m"
  by (auto simp: map_erase_def)

lemma map_wf_filter: "map_wf m \<Longrightarrow> map_wf (filter p m)"
  by (auto simp: map_wf_def distinct_map_filter)

lemma map_erase_wf [simp]: "map_wf m \<Longrightarrow> map_wf (map_erase k m)"
  by (simp add: map_erase_def map_wf_filter)

lemma map_wf_Nil [simp]: "map_wf []"
  by (simp add: map_wf_def)

lemma map_wf_Cons [simp]: "map_wf ((k, v) # m) \<longleftrightarrow> map_of m k = None \<and> map_wf m"
  by (auto simp: map_wf_def map_of_eq_None_iff)

lemma map_of_filter:
  "map_wf m \<Longrightarrow> map_of (filter (\<lambda>(k, v). p k v) m) k =
    (case map_of m k of Some v \<Rightarrow> if p k v then Some v else None | None \<Rightarrow> None)"
  by (induction m) (auto split: option.splits)

section \<open>Ordered maps\<close>

text \<open>A \<open>std::map\<close> whose order is observed: an association list with ascending keys.\<close>

fun omap_put :: "'k::linorder \<Rightarrow> 'v \<Rightarrow> ('k \<times> 'v) list \<Rightarrow> ('k \<times> 'v) list" where
  "omap_put k v [] = [(k, v)]"
| "omap_put k v ((k', v') # m) =
     (if k < k' then (k, v) # (k', v') # m else if k = k' then (k, v) # m else (k', v') # omap_put k v m)"

definition omap_wf :: "('k::linorder \<times> 'v) list \<Rightarrow> bool" where
  "omap_wf m \<longleftrightarrow> sorted_wrt (<) (map fst m)"

lemma map_of_omap_put [simp]: "omap_wf m \<Longrightarrow> map_of (omap_put k v m) = (map_of m)(k \<mapsto> v)"
proof (induction k v m rule: omap_put.induct)
  case (2 k v k' v' m)
  have "k'' \<noteq> k" if "k < k'" "(k'', w) \<in> set m" for k'' w
    using 2(2) that by (fastforce simp: omap_wf_def)
  then show ?case using 2 by (auto simp: omap_wf_def fun_eq_iff)
qed simp

lemma omap_put_keys: "fst ` set (omap_put k v m) = insert k (fst ` set m)"
  by (induction k v m rule: omap_put.induct) auto

lemma omap_put_wf [simp]: "omap_wf m \<Longrightarrow> omap_wf (omap_put k v m)"
proof (induction k v m rule: omap_put.induct)
  case (2 k v k' v' m)
  then show ?case using omap_put_keys [of k v m] by (fastforce simp: omap_wf_def)
qed (simp add: omap_wf_def)

lemma omap_wf_Nil [simp]: "omap_wf []"
  by (simp add: omap_wf_def)

lemma omap_put_last: "\<forall>k' \<in> fst ` set m. k' < k \<Longrightarrow> omap_put k v m = m @ [(k, v)]"
  by (induction k v m rule: omap_put.induct) auto

lemma distinct_remdups_adj_sorted: "sorted xs \<Longrightarrow> distinct (remdups_adj xs)"
  for xs :: "'a::linorder list"
  by (induction xs rule: remdups_adj.induct) auto

section \<open>Encodings\<close>

text \<open>A decoder that recovers every admissible value from its encoding.\<close>

locale codec =
  fixes enc :: "'a \<Rightarrow> 'b"
    and dec :: "'b \<Rightarrow> 'a option"
    and ok :: "'a \<Rightarrow> bool"
  assumes dec_enc: "ok x \<Longrightarrow> dec (enc x) = Some x"
begin

lemma enc_inj_on: "inj_on enc {x. ok x}"
  by (rule inj_onI) (metis dec_enc mem_Collect_eq option.inject)

lemma enc_eq_iff: "ok x \<Longrightarrow> ok y \<Longrightarrow> enc x = enc y \<longleftrightarrow> x = y"
  by (metis dec_enc option.inject)

end

end
