(* ===== verification/Locking.thy ===== *)
theory Locking
  imports Prelude
begin

text \<open>
  The record lock table of \<open>src/core/locking\<close> (\<open>LockTable\<close>, \<open>LockTypes\<close>, \<open>LockRegistry\<close>): a map from file names to
  maps from record ids to lock entries.  The operations are the member functions of
  \<open>LockTable\<close>; the time of \<open>steady_clock::now()\<close> is an argument.  The theorems state the contract
  of the table: its representation invariant, a refinement to one flat map of owners, and
  that no sequence of operations of other sessions takes a lock away from its owner.
\<close>

section \<open>Data\<close>

datatype LockType = ReadU | WriteU

record LockEntry =
  ownerSessionId :: string
  lockType :: LockType
  acquiredAt :: nat

record LockConflict =
  conflictFileName :: string
  conflictRecordId :: string
  conflictOwner :: string
  conflictLockType :: LockType

type_synonym LockTable = "(string \<times> (string \<times> LockEntry) list) list"

definition empty_conflict :: LockConflict where
  "empty_conflict = \<lparr>conflictFileName = [], conflictRecordId = [], conflictOwner = [], conflictLockType = ReadU\<rparr>"

definition isValidKey :: "string \<Rightarrow> bool" where
  "isValidKey v \<longleftrightarrow> v \<noteq> []"

fun lockTypeLabel :: "LockType \<Rightarrow> string" where
  "lockTypeLabel ReadU = ''READU''"
| "lockTypeLabel WriteU = ''WRITEU''"

definition fillConflict :: "string \<Rightarrow> string \<Rightarrow> LockEntry \<Rightarrow> LockConflict" where
  "fillConflict fileName recordId entry =
     \<lparr>conflictFileName = fileName, conflictRecordId = recordId,
      conflictOwner = ownerSessionId entry, conflictLockType = lockType entry\<rparr>"

definition describeLockConflict :: "LockConflict \<Rightarrow> string" where
  "describeLockConflict c =
     ''RECORD LOCKED: '' @ conflictFileName c @ '' '' @ conflictRecordId c @ '' (owner '' @
     conflictOwner c @ '', '' @ lockTypeLabel (conflictLockType c) @ '')''"

section \<open>Operations\<close>

text \<open>The result, the conflict record as the call leaves it, and the table.\<close>

definition tryAcquire ::
  "LockTable \<Rightarrow> string \<Rightarrow> string \<Rightarrow> string \<Rightarrow> LockType \<Rightarrow> nat \<Rightarrow> bool \<times> LockConflict \<times> LockTable" where
  "tryAcquire locks sessionId fileName recordId ty now =
     (if \<not> isValidKey sessionId \<or> \<not> isValidKey fileName \<or> \<not> isValidKey recordId
      then (False, empty_conflict, locks)
      else let fileLocks = (case map_of locks fileName of Some m \<Rightarrow> m | None \<Rightarrow> [])
           in case map_of fileLocks recordId of
                Some entry \<Rightarrow>
                  if ownerSessionId entry \<noteq> sessionId
                  then (False, fillConflict fileName recordId entry, locks)
                  else (True, empty_conflict,
                        map_put fileName (map_put recordId (entry\<lparr>lockType := ty, acquiredAt := now\<rparr>) fileLocks) locks)
              | None \<Rightarrow>
                  (True, empty_conflict,
                   map_put fileName
                     (map_put recordId \<lparr>ownerSessionId = sessionId, lockType = ty, acquiredAt = now\<rparr> fileLocks) locks))"

definition release :: "LockTable \<Rightarrow> string \<Rightarrow> string \<Rightarrow> string \<Rightarrow> bool \<times> LockTable" where
  "release locks sessionId fileName recordId =
     (if \<not> isValidKey sessionId \<or> \<not> isValidKey fileName \<or> \<not> isValidKey recordId then (False, locks)
      else case map_of locks fileName of
             None \<Rightarrow> (False, locks)
           | Some m \<Rightarrow>
               (case map_of m recordId of
                  None \<Rightarrow> (False, locks)
                | Some entry \<Rightarrow>
                    if ownerSessionId entry \<noteq> sessionId then (False, locks)
                    else (let m' = map_erase recordId m
                          in (True, if m' = [] then map_erase fileName locks else map_put fileName m' locks))))"

text \<open>The two nested loops of \<open>releaseAllForSession\<close>.\<close>

fun releaseSession_records ::
  "string \<Rightarrow> (string \<times> LockEntry) list \<Rightarrow> nat \<times> (string \<times> LockEntry) list" where
  "releaseSession_records sessionId [] = (0, [])"
| "releaseSession_records sessionId ((r, e) # m) =
     (let (n, m') = releaseSession_records sessionId m
      in if ownerSessionId e = sessionId then (Suc n, m') else (n, (r, e) # m'))"

fun releaseSession_files :: "string \<Rightarrow> LockTable \<Rightarrow> nat \<times> LockTable" where
  "releaseSession_files sessionId [] = (0, [])"
| "releaseSession_files sessionId ((f, m) # t) =
     (let (n, m') = releaseSession_records sessionId m;
          (k, t') = releaseSession_files sessionId t
      in (n + k, if m' = [] then t' else (f, m') # t'))"

definition releaseAllForSession :: "LockTable \<Rightarrow> string \<Rightarrow> nat \<times> LockTable" where
  "releaseAllForSession locks sessionId =
     (if \<not> isValidKey sessionId then (0, locks) else releaseSession_files sessionId locks)"

definition releaseAllForFile :: "LockTable \<Rightarrow> string \<Rightarrow> nat \<times> LockTable" where
  "releaseAllForFile locks fileName =
     (if \<not> isValidKey fileName then (0, locks)
      else case map_of locks fileName of
             None \<Rightarrow> (0, locks)
           | Some m \<Rightarrow> (length m, map_erase fileName locks))"

definition lookup :: "LockTable \<Rightarrow> string \<Rightarrow> string \<Rightarrow> LockEntry option" where
  "lookup locks fileName recordId =
     (if \<not> isValidKey fileName \<or> \<not> isValidKey recordId then None
      else case map_of locks fileName of None \<Rightarrow> None | Some m \<Rightarrow> map_of m recordId)"

definition clearAll :: "LockTable \<Rightarrow> LockTable" where
  "clearAll locks = []"

section \<open>Operations as steps\<close>

datatype lock_op =
    TryAcquire string string string LockType nat
  | Release string string string
  | ReleaseAllForSession string
  | ReleaseAllForFile string
  | ClearAll

fun lock_step :: "LockTable \<Rightarrow> lock_op \<Rightarrow> LockTable" where
  "lock_step t (TryAcquire s f r ty now) = snd (snd (tryAcquire t s f r ty now))"
| "lock_step t (Release s f r) = snd (release t s f r)"
| "lock_step t (ReleaseAllForSession s) = snd (releaseAllForSession t s)"
| "lock_step t (ReleaseAllForFile f) = snd (releaseAllForFile t f)"
| "lock_step t ClearAll = clearAll t"

text \<open>The session on whose behalf a step runs, and the steps that drop locks of any session.\<close>

fun lock_actor :: "lock_op \<Rightarrow> string option" where
  "lock_actor (TryAcquire s _ _ _ _) = Some s"
| "lock_actor (Release s _ _) = Some s"
| "lock_actor (ReleaseAllForSession s) = Some s"
| "lock_actor (ReleaseAllForFile _) = None"
| "lock_actor ClearAll = None"

definition foreign_op :: "string \<Rightarrow> string \<Rightarrow> lock_op \<Rightarrow> bool" where
  "foreign_op s f x \<longleftrightarrow> lock_actor x \<noteq> Some s \<and> x \<noteq> ReleaseAllForFile f \<and> x \<noteq> ClearAll"

text \<open>The representation invariant and the flat map the table stands for.\<close>

definition bucket_wf :: "(string \<times> LockEntry) list \<Rightarrow> bool" where
  "bucket_wf m \<longleftrightarrow> m \<noteq> [] \<and> map_wf m \<and> (\<forall>re \<in> set m. fst re \<noteq> [] \<and> ownerSessionId (snd re) \<noteq> [])"

definition locks_wf :: "LockTable \<Rightarrow> bool" where
  "locks_wf t \<longleftrightarrow> map_wf t \<and> (\<forall>fm \<in> set t. fst fm \<noteq> [] \<and> bucket_wf (snd fm))"

definition locks_abs :: "LockTable \<Rightarrow> string \<times> string \<rightharpoonup> LockEntry" where
  "locks_abs t = (\<lambda>(f, r). case map_of t f of None \<Rightarrow> None | Some m \<Rightarrow> map_of m r)"

section \<open>The table refines one flat map\<close>

lemma locks_wf_bucket: "locks_wf t \<Longrightarrow> map_of t f = Some m \<Longrightarrow> f \<noteq> [] \<and> bucket_wf m"
  by (fastforce simp: locks_wf_def dest!: map_of_SomeD)

lemma bucket_wf_entry: "bucket_wf m \<Longrightarrow> map_of m r = Some e \<Longrightarrow> r \<noteq> [] \<and> ownerSessionId e \<noteq> []"
  by (fastforce simp: bucket_wf_def dest!: map_of_SomeD)

lemma locks_wf_entry: "locks_wf t \<Longrightarrow> locks_abs t (f, r) = Some e \<Longrightarrow> f \<noteq> [] \<and> r \<noteq> [] \<and> ownerSessionId e \<noteq> []"
  by (auto simp: locks_abs_def split: option.splits dest: locks_wf_bucket bucket_wf_entry)

lemma locks_wf_Nil [simp]: "locks_wf []"
  by (simp add: locks_wf_def)

lemma locks_wf_put: "locks_wf t \<Longrightarrow> f \<noteq> [] \<Longrightarrow> bucket_wf m \<Longrightarrow> locks_wf (map_put f m t)"
  by (auto simp: locks_wf_def dest!: map_put_values)

lemma locks_wf_erase: "locks_wf t \<Longrightarrow> locks_wf (map_erase f t)"
  using map_erase_set [of f t] by (auto simp: locks_wf_def simp del: split_paired_All)

lemma bucket_wf_put:
  "bucket_wf m \<or> m = [] \<Longrightarrow> r \<noteq> [] \<Longrightarrow> ownerSessionId e \<noteq> [] \<Longrightarrow> bucket_wf (map_put r e m)"
  by (auto simp: bucket_wf_def dest!: map_put_values)

lemma bucket_wf_single [simp]: "bucket_wf [(r, e)] \<longleftrightarrow> r \<noteq> [] \<and> ownerSessionId e \<noteq> []"
  by (simp add: bucket_wf_def)

lemma bucket_wf_filter: "bucket_wf m \<Longrightarrow> filter p m \<noteq> [] \<Longrightarrow> bucket_wf (filter p m)"
  by (auto simp: bucket_wf_def map_wf_filter)

lemma bucket_wf_erase: "bucket_wf m \<Longrightarrow> map_erase r m \<noteq> [] \<Longrightarrow> bucket_wf (map_erase r m)"
  by (simp add: map_erase_def bucket_wf_filter)

lemma lookup_abs: "locks_wf t \<Longrightarrow> lookup t f r = locks_abs t (f, r)"
proof (cases "f = [] \<or> r = []")
  case True
  assume "locks_wf t"
  with True have "locks_abs t (f, r) = None"
    using locks_wf_entry [of t f r] by (cases "locks_abs t (f, r)") auto
  with True show ?thesis by (auto simp: lookup_def isValidKey_def)
qed (simp add: lookup_def isValidKey_def locks_abs_def)

definition may_acquire :: "LockTable \<Rightarrow> string \<Rightarrow> string \<Rightarrow> string \<Rightarrow> bool" where
  "may_acquire t s f r \<longleftrightarrow>
     s \<noteq> [] \<and> f \<noteq> [] \<and> r \<noteq> [] \<and> (\<forall>e. locks_abs t (f, r) = Some e \<longrightarrow> ownerSessionId e = s)"

lemma tryAcquire_result: "fst (tryAcquire t s f r ty now) \<longleftrightarrow> may_acquire t s f r"
  by (auto simp: tryAcquire_def may_acquire_def isValidKey_def locks_abs_def Let_def split: option.splits)

lemma tryAcquire_abs:
  "locks_abs (snd (snd (tryAcquire t s f r ty now))) =
     (if may_acquire t s f r
      then (locks_abs t)((f, r) \<mapsto> \<lparr>ownerSessionId = s, lockType = ty, acquiredAt = now\<rparr>)
      else locks_abs t)"
  by (auto simp: tryAcquire_def may_acquire_def isValidKey_def locks_abs_def Let_def fun_eq_iff
        split: option.splits)

lemma tryAcquire_wf: "locks_wf t \<Longrightarrow> locks_wf (snd (snd (tryAcquire t s f r ty now)))"
  by (auto simp: tryAcquire_def isValidKey_def Let_def split: option.splits
        intro!: locks_wf_put bucket_wf_put dest: locks_wf_bucket)

lemma release_abs:
  assumes "locks_wf t"
  shows "locks_abs (snd (release t s f r)) =
     (if fst (release t s f r) then (locks_abs t)((f, r) := None) else locks_abs t)"
  by (auto simp: release_def locks_abs_def Let_def fun_eq_iff map_of_map_erase_apply
        split: option.splits) (metis fun_upd_apply map_of.simps(1) map_of_map_erase option.distinct(1))+

lemma release_result:
  "locks_wf t \<Longrightarrow> fst (release t s f r) \<longleftrightarrow> (\<exists>e. locks_abs t (f, r) = Some e \<and> ownerSessionId e = s)"
  using locks_wf_entry [of t f r]
  by (auto simp: release_def locks_abs_def isValidKey_def Let_def split: option.splits)

lemma release_wf: "locks_wf t \<Longrightarrow> locks_wf (snd (release t s f r))"
  by (auto simp: release_def Let_def split: option.splits
        intro!: locks_wf_erase locks_wf_put bucket_wf_erase dest: locks_wf_bucket)

lemma releaseSession_records_eq:
  "releaseSession_records s m =
     (length (filter (\<lambda>(r, e). ownerSessionId e = s) m), filter (\<lambda>(r, e). ownerSessionId e \<noteq> s) m)"
  by (induction s m rule: releaseSession_records.induct) auto

lemma releaseSession_files_Cons:
  "releaseSession_files s ((f, m) # t) =
     (let m' = filter (\<lambda>(r, e). ownerSessionId e \<noteq> s) m; rest = releaseSession_files s t
      in (length (filter (\<lambda>(r, e). ownerSessionId e = s) m) + fst rest,
          if m' = [] then snd rest else (f, m') # snd rest))"
  by (simp add: releaseSession_records_eq Let_def case_prod_unfold)

lemma releaseSession_files_map_of:
  "map_wf t \<Longrightarrow> map_of (snd (releaseSession_files s t)) f =
     (case map_of t f of None \<Rightarrow> None
      | Some m \<Rightarrow> (let m' = filter (\<lambda>(r, e). ownerSessionId e \<noteq> s) m in if m' = [] then None else Some m'))"
proof (induction t)
  case (Cons a t)
  then show ?case
    by (cases a) (auto simp: releaseSession_files_Cons Let_def simp del: releaseSession_files.simps split: option.splits)
qed simp

lemma releaseSession_files_set:
  "(f, m') \<in> set (snd (releaseSession_files s t)) \<Longrightarrow>
     \<exists>m. (f, m) \<in> set t \<and> m' = filter (\<lambda>(r, e). ownerSessionId e \<noteq> s) m \<and> m' \<noteq> []"
proof (induction t)
  case (Cons a t)
  then show ?case
    by (cases a) (auto simp: releaseSession_files_Cons Let_def simp del: releaseSession_files.simps split: if_splits)
qed simp

lemma releaseSession_files_map_wf: "map_wf t \<Longrightarrow> map_wf (snd (releaseSession_files s t))"
proof (induction t)
  case (Cons a t)
  then show ?case
    by (cases a) (auto simp: releaseSession_files_Cons releaseSession_files_map_of Let_def simp del: releaseSession_files.simps)
qed simp

lemma releaseSession_files_wf: "locks_wf t \<Longrightarrow> locks_wf (snd (releaseSession_files s t))"
  by (fastforce simp: locks_wf_def releaseSession_files_map_wf dest!: releaseSession_files_set intro!: bucket_wf_filter)

lemma releaseAllForSession_abs:
  assumes "locks_wf t" "s \<noteq> []"
  shows "locks_abs (snd (releaseAllForSession t s)) (f, r) =
     (case locks_abs t (f, r) of Some e \<Rightarrow> if ownerSessionId e = s then None else Some e | None \<Rightarrow> None)"
proof (cases "map_of t f")
  case None
  then show ?thesis
    using assms by (simp add: releaseAllForSession_def isValidKey_def locks_abs_def releaseSession_files_map_of locks_wf_def)
next
  case (Some m)
  let ?m = "filter (\<lambda>(r, e). ownerSessionId e \<noteq> s) m"
  have "map_wf m" using locks_wf_bucket [OF assms(1) Some] by (simp add: bucket_wf_def)
  then have m: "map_of ?m r = (case map_of m r of Some e \<Rightarrow> if ownerSessionId e = s then None else Some e | None \<Rightarrow> None)"
    using map_of_filter [of m "\<lambda>_ e. ownerSessionId e \<noteq> s" r] by (auto split: option.splits)
  have "locks_abs (snd (releaseAllForSession t s)) (f, r) = map_of ?m r"
    using assms Some
    by (auto simp: releaseAllForSession_def isValidKey_def locks_abs_def releaseSession_files_map_of locks_wf_def Let_def)
  with m Some show ?thesis by (simp add: locks_abs_def)
qed

lemma releaseAllForFile_abs:
  "locks_wf t \<Longrightarrow> locks_abs (snd (releaseAllForFile t f)) (f', r) = (if f' = f then None else locks_abs t (f', r))"
  by (auto simp: releaseAllForFile_def isValidKey_def locks_abs_def split: option.splits dest: locks_wf_bucket)

lemma releaseAllForFile_wf: "locks_wf t \<Longrightarrow> locks_wf (snd (releaseAllForFile t f))"
  by (auto simp: releaseAllForFile_def split: option.splits intro: locks_wf_erase)

lemma lock_step_wf: "locks_wf t \<Longrightarrow> locks_wf (lock_step t x)"
  by (cases x)
     (auto simp: tryAcquire_wf release_wf releaseAllForSession_def releaseSession_files_wf releaseAllForFile_wf clearAll_def)

interpretation lock_machine: invariant_machine lock_step locks_wf
  by unfold_locales (rule lock_step_wf)

section \<open>The contract of a lock service\<close>

text \<open>
  What the file system relies on: a granted lock is visible, a foreign lock is refused and left
  alone, only the owner releases, and other records are not touched.
\<close>

locale lock_service =
  fixes inv :: "'t \<Rightarrow> bool"
    and owner :: "'t \<Rightarrow> string \<Rightarrow> string \<Rightarrow> string option"
    and acquire :: "'t \<Rightarrow> string \<Rightarrow> string \<Rightarrow> string \<Rightarrow> bool \<times> 't"
    and unlock :: "'t \<Rightarrow> string \<Rightarrow> string \<Rightarrow> string \<Rightarrow> bool \<times> 't"
  assumes acquire_inv: "inv t \<Longrightarrow> inv (snd (acquire t s f r))"
    and unlock_inv: "inv t \<Longrightarrow> inv (snd (unlock t s f r))"
    and acquire_granted: "inv t \<Longrightarrow> fst (acquire t s f r) \<Longrightarrow> owner (snd (acquire t s f r)) f r = Some s"
    and acquire_free: "inv t \<Longrightarrow> s \<noteq> [] \<Longrightarrow> f \<noteq> [] \<Longrightarrow> r \<noteq> [] \<Longrightarrow> owner t f r \<in> {None, Some s} \<Longrightarrow>
      fst (acquire t s f r)"
    and acquire_refused: "inv t \<Longrightarrow> owner t f r = Some s' \<Longrightarrow> s' \<noteq> s \<Longrightarrow> acquire t s f r = (False, t)"
    and acquire_frame: "inv t \<Longrightarrow> (f', r') \<noteq> (f, r) \<Longrightarrow> owner (snd (acquire t s f r)) f' r' = owner t f' r'"
    and unlock_own: "inv t \<Longrightarrow> owner t f r = Some s \<Longrightarrow>
      fst (unlock t s f r) \<and> owner (snd (unlock t s f r)) f r = None"
    and unlock_other: "inv t \<Longrightarrow> owner t f r \<noteq> Some s \<Longrightarrow> unlock t s f r = (False, t)"
begin

lemma acquired_excludes:
  assumes "inv t" "fst (acquire t s f r)" "s' \<noteq> s"
  shows "acquire (snd (acquire t s f r)) s' f r = (False, snd (acquire t s f r))"
  using assms acquire_granted acquire_inv acquire_refused by metis

lemma handover:
  assumes "inv t" "fst (acquire t s f r)" "s' \<noteq> []" "f \<noteq> []" "r \<noteq> []"
  shows "fst (acquire (snd (unlock (snd (acquire t s f r)) s f r)) s' f r)"
proof -
  let ?t = "snd (acquire t s f r)"
  have "inv ?t" "owner ?t f r = Some s" using assms by (simp_all add: acquire_inv acquire_granted)
  then have "inv (snd (unlock ?t s f r))" "owner (snd (unlock ?t s f r)) f r = None"
    by (simp_all add: unlock_inv unlock_own)
  then show ?thesis using assms by (simp add: acquire_free)
qed

end

definition table_owner :: "LockTable \<Rightarrow> string \<Rightarrow> string \<Rightarrow> string option" where
  "table_owner t f r = map_option ownerSessionId (lookup t f r)"

definition table_acquire :: "LockType \<Rightarrow> nat \<Rightarrow> LockTable \<Rightarrow> string \<Rightarrow> string \<Rightarrow> string \<Rightarrow> bool \<times> LockTable" where
  "table_acquire ty now t s f r = (fst (tryAcquire t s f r ty now), snd (snd (tryAcquire t s f r ty now)))"

lemma tryAcquire_refused:
  assumes "locks_wf t" "locks_abs t (f, r) = Some e" "ownerSessionId e \<noteq> s" "s \<noteq> []"
  shows "tryAcquire t s f r ty now = (False, fillConflict f r e, t)"
proof -
  have "f \<noteq> []" "r \<noteq> []" using locks_wf_entry [OF assms(1,2)] by auto
  with assms show ?thesis
    by (auto simp: tryAcquire_def isValidKey_def locks_abs_def Let_def split: option.splits)
qed

lemma tryAcquire_denied_same: "\<not> fst (tryAcquire t s f r ty now) \<Longrightarrow> snd (snd (tryAcquire t s f r ty now)) = t"
  by (auto simp: tryAcquire_def Let_def split: option.splits)

lemma release_denied_same: "\<not> fst (release t s f r) \<Longrightarrow> snd (release t s f r) = t"
  by (auto simp: release_def Let_def split: option.splits)

interpretation table: lock_service locks_wf table_owner "table_acquire ty now" release for ty now
proof unfold_locales
  fix t s f r s' f' r'
  assume wf: "locks_wf t"
  note wf' = tryAcquire_wf [OF wf] release_wf [OF wf]
  show "locks_wf (snd (table_acquire ty now t s f r))" "locks_wf (snd (release t s f r))"
    using wf' by (simp_all add: table_acquire_def)
  show "fst (table_acquire ty now t s f r) \<Longrightarrow> table_owner (snd (table_acquire ty now t s f r)) f r = Some s"
    using wf' by (simp add: table_acquire_def table_owner_def lookup_abs tryAcquire_result tryAcquire_abs)
  show "s \<noteq> [] \<Longrightarrow> f \<noteq> [] \<Longrightarrow> r \<noteq> [] \<Longrightarrow> table_owner t f r \<in> {None, Some s} \<Longrightarrow> fst (table_acquire ty now t s f r)"
    using wf by (auto simp: table_acquire_def table_owner_def lookup_abs tryAcquire_result may_acquire_def)
  show "table_owner t f r = Some s' \<Longrightarrow> s' \<noteq> s \<Longrightarrow> table_acquire ty now t s f r = (False, t)"
    using wf tryAcquire_denied_same [of t s f r ty now]
    by (auto simp: table_acquire_def table_owner_def lookup_abs tryAcquire_result may_acquire_def)
  show "(f', r') \<noteq> (f, r) \<Longrightarrow> table_owner (snd (table_acquire ty now t s f r)) f' r' = table_owner t f' r'"
    using wf wf' by (auto simp: table_acquire_def table_owner_def lookup_abs tryAcquire_abs)
  show "table_owner t f r = Some s \<Longrightarrow> fst (release t s f r) \<and> table_owner (snd (release t s f r)) f r = None"
    using wf wf' by (auto simp: table_owner_def lookup_abs release_result release_abs)
  show "table_owner t f r \<noteq> Some s \<Longrightarrow> release t s f r = (False, t)"
    using wf release_denied_same [of t s f r]
    by (auto simp: table_owner_def lookup_abs release_result prod_eq_iff)
qed

section \<open>Properties\<close>

lemma lock_step_foreign:
  assumes "locks_wf t" "locks_abs t (f, r) = Some e" "foreign_op (ownerSessionId e) f x"
  shows "locks_abs (lock_step t x) (f, r) = Some e"
proof (cases x)
  case (TryAcquire s f' r' ty now)
  then show ?thesis using assms by (auto simp: tryAcquire_abs may_acquire_def foreign_op_def)
next
  case (Release s f' r')
  then show ?thesis using assms by (auto simp: release_abs release_result foreign_op_def)
next
  case (ReleaseAllForSession s)
  then show ?thesis
    using assms releaseAllForSession_abs [OF assms(1), of s f r]
    by (cases "s = []") (auto simp: foreign_op_def releaseAllForSession_def [of t "[]"] isValidKey_def)
next
  case (ReleaseAllForFile f')
  then show ?thesis using assms by (auto simp: releaseAllForFile_abs foreign_op_def)
next
  case ClearAll
  then show ?thesis using assms by (simp add: foreign_op_def)
qed

lemma reached_locks_wf: "locks_wf (foldl lock_step [] xs)"
  by (rule lock_machine.run_inv) simp

text \<open>
  C1. Mutual exclusion over histories.  In a lock table reached from the empty one by any sequence of
  operations, once a record is locked, no later sequence of acquisitions and releases by other
  sessions (nor bulk releases of other sessions or other files) changes its lock entry, and every
  acquisition by another session is refused with a conflict that names the owner and leaves the table as it is.
\<close>

theorem lock_mutual_exclusion:
  assumes "lookup (foldl lock_step [] xs) f r = Some e"
    and "\<forall>y \<in> set ys. foreign_op (ownerSessionId e) f y"
    and "s \<noteq> ownerSessionId e" "s \<noteq> []"
  shows "lookup (foldl lock_step [] (xs @ ys)) f r = Some e \<and>
    tryAcquire (foldl lock_step [] (xs @ ys)) s f r ty now =
      (False, fillConflict f r e, foldl lock_step [] (xs @ ys))"
proof -
  let ?t = "foldl lock_step [] xs" and ?u = "foldl lock_step [] (xs @ ys)"
  have wf: "locks_wf ?t" "locks_wf ?u" by (rule reached_locks_wf)+
  have "locks_abs ?t (f, r) = Some e" using assms(1) wf(1) by (simp add: lookup_abs)
  then have "locks_abs (foldl lock_step ?t ys) (f, r) = Some e"
    using assms(2) lock_step_foreign
    by (intro lock_machine.run_keeps [OF wf(1), where P = "\<lambda>t. locks_abs t (f, r) = Some e"]) blast+
  then have u: "locks_abs ?u (f, r) = Some e" by simp
  then show ?thesis using wf(2) assms(3,4) tryAcquire_refused [OF wf(2) u] by (auto simp: lookup_abs)
qed

theorem lock_mutual_exclusion_witness:
  "lookup (foldl lock_step [] ([TryAcquire ''A'' ''F'' ''1'' ReadU 5] @ [TryAcquire ''B'' ''F'' ''1'' WriteU 6, Release ''B'' ''F'' ''1'']))
     ''F'' ''1'' = Some \<lparr>ownerSessionId = ''A'', lockType = ReadU, acquiredAt = 5\<rparr>"
proof -
  have "lookup (foldl lock_step [] [TryAcquire ''A'' ''F'' ''1'' ReadU 5]) ''F'' ''1'' =
      Some \<lparr>ownerSessionId = ''A'', lockType = ReadU, acquiredAt = 5\<rparr>"
    by (simp add: lookup_def tryAcquire_def isValidKey_def)
  then show ?thesis
    by (rule lock_mutual_exclusion [where s = "''B''", THEN conjunct1]) (simp_all add: foreign_op_def)
qed

text \<open>The specification: one map from (file, record) to the lock entry.\<close>

fun lock_spec :: "(string \<times> string \<rightharpoonup> LockEntry) \<Rightarrow> lock_op \<Rightarrow> (string \<times> string \<rightharpoonup> LockEntry)" where
  "lock_spec a (TryAcquire s f r ty now) =
     (if s \<noteq> [] \<and> f \<noteq> [] \<and> r \<noteq> [] \<and> (\<forall>e. a (f, r) = Some e \<longrightarrow> ownerSessionId e = s)
      then a((f, r) \<mapsto> \<lparr>ownerSessionId = s, lockType = ty, acquiredAt = now\<rparr>) else a)"
| "lock_spec a (Release s f r) =
     (if \<exists>e. a (f, r) = Some e \<and> ownerSessionId e = s then a((f, r) := None) else a)"
| "lock_spec a (ReleaseAllForSession s) = (\<lambda>k. case a k of Some e \<Rightarrow> if ownerSessionId e = s then None else Some e | None \<Rightarrow> None)"
| "lock_spec a (ReleaseAllForFile f) = (\<lambda>(f', r). if f' = f then None else a (f', r))"
| "lock_spec a ClearAll = (\<lambda>_. None)"

lemma lock_step_refines: "locks_wf t \<Longrightarrow> locks_abs (lock_step t x) = lock_spec (locks_abs t) x"
proof (cases x)
  case (ReleaseAllForSession s)
  assume wf: "locks_wf t"
  show ?thesis
  proof (cases "s = []")
    case True
    have "ownerSessionId e \<noteq> []" if "locks_abs t k = Some e" for k e
      using locks_wf_entry [OF wf, of "fst k" "snd k"] that by simp
    with True ReleaseAllForSession show ?thesis
      by (auto simp: releaseAllForSession_def isValidKey_def fun_eq_iff split: option.splits)
  qed (use wf ReleaseAllForSession in \<open>auto simp: fun_eq_iff releaseAllForSession_abs\<close>)
qed (auto simp: tryAcquire_abs may_acquire_def release_abs release_result releaseAllForFile_abs
       clearAll_def fun_eq_iff locks_abs_def [of "[]"])

text \<open>
  C2. Refinement.  Along every sequence of operations from the empty table, the nested tables stand for
  the flat map of the specification, and \<open>lookup\<close> reads that map.
\<close>

theorem lock_table_refines_map:
  "locks_abs (foldl lock_step [] xs) = foldl lock_spec Map.empty xs \<and>
   lookup (foldl lock_step [] xs) f r = foldl lock_spec Map.empty xs (f, r)"
proof -
  have "locks_abs (foldl lock_step [] xs) = foldl lock_spec Map.empty xs"
  proof (induction xs rule: rev_induct)
    case Nil
    show ?case by (simp add: locks_abs_def fun_eq_iff)
  next
    case (snoc x xs)
    then show ?case by (simp add: lock_step_refines reached_locks_wf)
  qed
  then show ?thesis by (simp add: lookup_abs reached_locks_wf)
qed

text \<open>The locks a session holds.\<close>

definition held_by :: "LockTable \<Rightarrow> string \<Rightarrow> (string \<times> string) set" where
  "held_by t s = {(f, r). \<exists>e. lookup t f r = Some e \<and> ownerSessionId e = s}"

lemma card_bucket:
  assumes "map_wf m"
  shows "card {r. \<exists>e. map_of m r = Some e \<and> ownerSessionId e = s} = length (filter (\<lambda>(r, e). ownerSessionId e = s) m)"
proof -
  let ?m = "filter (\<lambda>(r, e). ownerSessionId e = s) m"
  have "(\<exists>e. map_of m r = Some e \<and> ownerSessionId e = s) \<longleftrightarrow> r \<in> dom (map_of ?m)" for r
    by (cases "map_of m r") (simp_all add: domIff map_of_filter [OF assms, of "\<lambda>_ e. ownerSessionId e = s"])
  then have "{r. \<exists>e. map_of m r = Some e \<and> ownerSessionId e = s} = dom (map_of ?m)" by blast
  then have "{r. \<exists>e. map_of m r = Some e \<and> ownerSessionId e = s} = set (map fst ?m)"
    by (simp add: dom_map_of_conv_image_fst)
  moreover have "distinct (map fst ?m)" using map_wf_filter [OF assms] by (simp add: map_wf_def)
  ultimately show ?thesis using distinct_card [of "map fst ?m"] by simp
qed

lemma held_abs_Cons:
  "map_of t f = None \<Longrightarrow>
   {k. \<exists>e. locks_abs ((f, m) # t) k = Some e \<and> ownerSessionId e = s} =
   Pair f ` {r. \<exists>e. map_of m r = Some e \<and> ownerSessionId e = s} \<union>
   {k. \<exists>e. locks_abs t k = Some e \<and> ownerSessionId e = s}"
  by (auto simp: locks_abs_def split: if_splits option.splits)

lemma finite_bucket: "finite {r. \<exists>e. map_of m r = Some e \<and> P e}"
  by (rule finite_subset [OF _ finite_dom_map_of [of m]]) (auto simp: dom_def)

lemma released_count:
  assumes "map_wf t" "\<forall>fm \<in> set t. map_wf (snd fm)"
  shows "finite {k. \<exists>e. locks_abs t k = Some e \<and> ownerSessionId e = s} \<and>
    fst (releaseSession_files s t) = card {k. \<exists>e. locks_abs t k = Some e \<and> ownerSessionId e = s}"
  using assms
proof (induction t)
  case Nil
  show ?case by (simp add: locks_abs_def)
next
  case (Cons fm t)
  obtain f m where fm: "fm = (f, m)" by (cases fm) auto
  let ?H = "\<lambda>t. {k. \<exists>e. locks_abs t k = Some e \<and> ownerSessionId e = s}"
  let ?B = "{r. \<exists>e. map_of m r = Some e \<and> ownerSessionId e = s}"
  have t: "map_of t f = None" "map_wf m" using Cons.prems fm by auto
  have IH: "finite (?H t)" "fst (releaseSession_files s t) = card (?H t)" using Cons fm by auto
  have disj: "Pair f ` ?B \<inter> ?H t = {}" using t(1) by (auto simp: locks_abs_def)
  have "card (?H ((f, m) # t)) = card (Pair f ` ?B) + card (?H t)"
    unfolding held_abs_Cons [OF t(1)] using IH(1) disj by (intro card_Un_disjoint finite_imageI finite_bucket) auto
  also have "card (Pair f ` ?B) = length (filter (\<lambda>(r, e). ownerSessionId e = s) m)"
    using card_bucket [OF t(2)] by (simp add: card_image inj_on_def)
  finally have "card (?H ((f, m) # t)) = fst (releaseSession_files s ((f, m) # t))"
    using IH(2) by (simp add: releaseSession_files_Cons Let_def del: releaseSession_files.simps)
  moreover have "finite (?H ((f, m) # t))"
    unfolding held_abs_Cons [OF t(1)] using IH(1) by (intro finite_UnI finite_imageI finite_bucket)
  ultimately show ?case using fm by simp
qed

text \<open>
  Ending a session.  \<open>releaseAllForSession\<close> removes exactly the locks the session holds, leaves
  every other entry as it is, and returns the number of removed locks.
\<close>

theorem release_session_exact:
  assumes "s \<noteq> []"
  shows "fst (releaseAllForSession (foldl lock_step [] xs) s) = card (held_by (foldl lock_step [] xs) s) \<and>
    lookup (snd (releaseAllForSession (foldl lock_step [] xs) s)) f r =
      (if (f, r) \<in> held_by (foldl lock_step [] xs) s then None else lookup (foldl lock_step [] xs) f r)"
proof -
  let ?t = "foldl lock_step [] xs"
  have wf: "locks_wf ?t" by (rule reached_locks_wf)
  have wf': "locks_wf (snd (releaseAllForSession ?t s))"
    using lock_step_wf [OF wf, of "ReleaseAllForSession s"] by simp
  have h: "held_by ?t s = {k. \<exists>e. locks_abs ?t k = Some e \<and> ownerSessionId e = s}"
    using wf by (auto simp: held_by_def lookup_abs)
  have "fst (releaseAllForSession ?t s) = card (held_by ?t s)"
    using released_count [of ?t s] wf assms h
    by (simp add: releaseAllForSession_def isValidKey_def locks_wf_def bucket_wf_def)
  then show ?thesis
    using wf wf' assms h by (auto simp: lookup_abs releaseAllForSession_abs split: option.splits)
qed

theorem release_session_exact_witness:
  "fst (releaseAllForSession (foldl lock_step [] [TryAcquire ''A'' ''F'' ''1'' ReadU 5]) ''A'') =
     card (held_by (foldl lock_step [] [TryAcquire ''A'' ''F'' ''1'' ReadU 5]) ''A'')"
  by (rule release_session_exact [THEN conjunct1]) simp

end
