(* ===== verification/Records.thy ===== *)
theory Records
  imports Prelude
begin

text \<open>
  The record model of \<open>src/core/filesystem\<close>: \<open>RecordAttribute\<close> (multi-values separated by the value mark 0xFD),
  \<open>StructuredRecord\<close> (attributes numbered from 1, held in an ordered map and separated by
  newlines in the raw form) and \<open>Record\<close> (a name with its canonical raw value).  The theorems are
  the round trips between the raw and the structured forms, the exact meaning of writing an
  attribute back, and what happens to a record with a gap in its attribute numbers.
\<close>

section \<open>\<open>RecordAttribute\<close>\<close>

datatype RecordAttribute = RecordAttribute (raw: string)

definition kValueMark :: char where
  "kValueMark = CHR 0xFD"

text \<open>The loop of \<open>joinValues\<close>: the mark goes before every value but the first.\<close>

fun joinValues_loop :: "string \<Rightarrow> nat \<Rightarrow> string list \<Rightarrow> string" where
  "joinValues_loop out i [] = out"
| "joinValues_loop out i (v # vs) =
     joinValues_loop ((if 0 < i then out @ [kValueMark] else out) @ v) (Suc i) vs"

definition joinValues :: "string list \<Rightarrow> string" where
  "joinValues values = joinValues_loop [] 0 values"

fun splitValues_loop :: "string list \<Rightarrow> string \<Rightarrow> string \<Rightarrow> string list" where
  "splitValues_loop out current [] = out @ [current]"
| "splitValues_loop out current (c # cs) =
     (if c = kValueMark then splitValues_loop (out @ [current]) [] cs
      else splitValues_loop out (current @ [c]) cs)"

definition splitValues :: "RecordAttribute \<Rightarrow> string list" where
  "splitValues a = splitValues_loop [] [] (raw a)"

definition valueAt :: "RecordAttribute \<Rightarrow> int \<Rightarrow> string" where
  "valueAt a valueNo =
     (if valueNo \<le> 0 then []
      else let values = splitValues a; idx = nat (valueNo - 1)
           in if length values \<le> idx then [] else values ! idx)"

definition hasValueAt :: "RecordAttribute \<Rightarrow> int \<Rightarrow> bool" where
  "hasValueAt a valueNo =
     (if valueNo \<le> 0 then False else nat (valueNo - 1) < length (splitValues a))"

section \<open>\<open>StructuredRecord\<close>\<close>

type_synonym StructuredRecord = "(int \<times> RecordAttribute) list"

definition hasAttribute :: "StructuredRecord \<Rightarrow> int \<Rightarrow> bool" where
  "hasAttribute sr attributeNo \<longleftrightarrow> 0 < attributeNo \<and> map_of sr attributeNo \<noteq> None"

definition attribute :: "StructuredRecord \<Rightarrow> int \<Rightarrow> RecordAttribute" where
  "attribute sr attributeNo =
     (if attributeNo \<le> 0 then RecordAttribute []
      else case map_of sr attributeNo of None \<Rightarrow> RecordAttribute [] | Some a \<Rightarrow> a)"

definition setAttribute :: "int \<Rightarrow> RecordAttribute \<Rightarrow> StructuredRecord \<Rightarrow> StructuredRecord" where
  "setAttribute attributeNo a sr = (if attributeNo \<le> 0 then sr else omap_put attributeNo a sr)"

text \<open>The loop of \<open>toRaw\<close>, with its flag \<open>first\<close>.\<close>

fun toRaw_loop :: "bool \<Rightarrow> string \<Rightarrow> StructuredRecord \<Rightarrow> string" where
  "toRaw_loop first out [] = out"
| "toRaw_loop first out ((n, a) # sr) = toRaw_loop False ((if first then out else out @ [LF]) @ raw a) sr"

definition toRaw :: "StructuredRecord \<Rightarrow> string" where
  "toRaw sr = toRaw_loop True [] sr"

text \<open>The \<open>getline\<close> loop of \<open>fromRaw\<close> returns the map and the next attribute number.\<close>

fun fromRaw_loop :: "int \<Rightarrow> StructuredRecord \<Rightarrow> string list \<Rightarrow> int \<times> StructuredRecord" where
  "fromRaw_loop attrNo attrs [] = (attrNo, attrs)"
| "fromRaw_loop attrNo attrs (line # ls) =
     fromRaw_loop (attrNo + 1) (omap_put attrNo (RecordAttribute line) attrs) ls"

definition fromRaw :: "string \<Rightarrow> StructuredRecord" where
  "fromRaw s =
     (let (attrNo, attrs) = fromRaw_loop 1 [] (getlines LF s)
      in if s \<noteq> [] \<and> last s = LF then omap_put attrNo (RecordAttribute []) attrs else attrs)"

section \<open>\<open>Record\<close>\<close>

record Record =
  recName :: string
  recValue :: string
  recStructured :: StructuredRecord

definition mkRecord :: "string \<Rightarrow> string \<Rightarrow> Record" where
  "mkRecord nm v =
     (let st = fromRaw v in \<lparr>recName = nm, recValue = toRaw st, recStructured = st\<rparr>)"

definition mkRecordStructured :: "string \<Rightarrow> StructuredRecord \<Rightarrow> Record" where
  "mkRecordStructured nm sr = \<lparr>recName = nm, recValue = toRaw sr, recStructured = sr\<rparr>"

section \<open>The loops compute the reference functions\<close>

lemma joinValues_loop_eq:
  "0 < i \<Longrightarrow> joinValues_loop out i vs = out @ concat (map (\<lambda>v. kValueMark # v) vs)"
  by (induction out i vs rule: joinValues_loop.induct) auto

lemma join_with_Cons: "join_with d (v # vs) = v @ concat (map (\<lambda>v. d # v) vs)"
  by (induction vs arbitrary: v) auto

lemma joinValues_eq: "joinValues vs = join_with kValueMark vs"
  by (cases vs) (simp_all add: joinValues_def joinValues_loop_eq join_with_Cons)

lemma splitValues_loop_eq:
  "splitValues_loop out cur s =
     out @ (case split_on kValueMark s of [] \<Rightarrow> [] | p # ps \<Rightarrow> (cur @ p) # ps)"
  by (induction out cur s rule: splitValues_loop.induct) (auto split: list.splits)

lemma splitValues_eq: "splitValues a = split_on kValueMark (raw a)"
  by (auto simp: splitValues_def splitValues_loop_eq split: list.splits)

lemma toRaw_loop_eq: "toRaw_loop False out sr = out @ concat (map (\<lambda>(n, a). LF # raw a) sr)"
  by (induction sr arbitrary: out) auto

lemma toRaw_eq: "toRaw sr = join_with LF (map (raw \<circ> snd) sr)"
proof (cases sr)
  case (Cons x sr')
  then show ?thesis
    by (cases x) (simp add: toRaw_def toRaw_loop_eq join_with_Cons comp_def case_prod_unfold)
qed (simp add: toRaw_def)

definition numbered :: "int \<Rightarrow> string list \<Rightarrow> StructuredRecord" where
  "numbered k ls = map (\<lambda>(i, l). (k + int i, RecordAttribute l)) (enumerate 0 ls)"

lemma numbered_Nil [simp]: "numbered k [] = []"
  by (simp add: numbered_def)

lemma numbered_snoc: "numbered k (ls @ [l]) = numbered k ls @ [(k + int (length ls), RecordAttribute l)]"
  by (simp add: numbered_def enumerate_append_eq)

lemma numbered_keys: "fst ` set (numbered k ls) = {k..<k + int (length ls)}"
  by (induction ls rule: rev_induct) (auto simp: numbered_snoc)

lemma numbered_raws: "map (raw \<circ> snd) (numbered k ls) = ls"
  by (induction ls rule: rev_induct) (auto simp: numbered_snoc)

lemma map_of_numbered:
  "map_of (numbered k ls) i =
     (if k \<le> i \<and> i < k + int (length ls) then Some (RecordAttribute (ls ! nat (i - k))) else None)"
proof (induction ls rule: rev_induct)
  case (snoc l ls)
  then show ?case by (auto simp: numbered_snoc map_add_def nth_append split: option.splits)
qed simp

lemma fromRaw_loop_eq:
  "fromRaw_loop (1 + int (length ps)) (numbered 1 ps) ls =
     (1 + int (length (ps @ ls)), numbered 1 (ps @ ls))"
proof (induction ls arbitrary: ps)
  case (Cons l ls)
  have "omap_put (1 + int (length ps)) (RecordAttribute l) (numbered 1 ps) = numbered 1 (ps @ [l])"
    by (subst omap_put_last) (auto simp: numbered_keys numbered_snoc)
  then show ?case using Cons.IH [of "ps @ [l]"] by (simp add: ac_simps)
qed simp

text \<open>The attributes of a raw record: the lines between the newlines, none for the empty record.\<close>

definition raw_attributes :: "string \<Rightarrow> string list" where
  "raw_attributes s = (if s = [] then [] else split_on LF s)"

lemma fromRaw_eq: "fromRaw s = numbered 1 (raw_attributes s)"
proof -
  let ?ls = "getlines LF s"
  have l: "fromRaw_loop 1 [] ?ls = (1 + int (length ?ls), numbered 1 ?ls)"
    using fromRaw_loop_eq [of "[]" ?ls] by simp
  have last: "last (split_on LF s) = [] \<longleftrightarrow> s = [] \<or> last s = LF"
    by (induction s) (auto simp: split_on_eq_single_Nil split: list.splits if_splits)
  show ?thesis
  proof (cases "s \<noteq> [] \<and> last s = LF")
    case True
    then have "split_on LF s = ?ls @ [[]]"
      using last append_butlast_last_id [of "split_on LF s"] by (simp add: getlines_def)
    moreover have "omap_put (1 + int (length ?ls)) (RecordAttribute []) (numbered 1 ?ls) = numbered 1 (?ls @ [[]])"
      by (subst omap_put_last) (auto simp: numbered_keys numbered_snoc)
    ultimately show ?thesis using True l by (simp add: fromRaw_def raw_attributes_def)
  next
    case False
    then have "?ls = raw_attributes s" using last by (auto simp: getlines_def raw_attributes_def)
    then show ?thesis using False l by (auto simp: fromRaw_def)
  qed
qed

section \<open>Round trips\<close>

lemma raw_attributes_join:
  "\<forall>l \<in> set ls. LF \<notin> set l \<Longrightarrow> ls \<noteq> [[]] \<Longrightarrow> raw_attributes (join_with LF ls) = ls"
  by (cases "ls = []") (auto simp: raw_attributes_def join_with_eq_Nil split_join)

lemma raw_attributes_no_LF: "l \<in> set (raw_attributes s) \<Longrightarrow> LF \<notin> set l"
  by (auto simp: raw_attributes_def split: if_splits dest: split_on_pieces)

lemma raw_attributes_not_single_Nil: "raw_attributes s \<noteq> [[]]"
  by (simp add: raw_attributes_def split_on_eq_single_Nil)

lemma toRaw_numbered: "toRaw (numbered k ls) = join_with LF ls"
  by (simp add: toRaw_eq numbered_raws)

lemma toRaw_fromRaw [simp]: "toRaw (fromRaw s) = s"
  by (simp add: fromRaw_eq toRaw_numbered raw_attributes_def)

lemma recValue_mkRecord [simp]: "recValue (mkRecord n v) = v" "recName (mkRecord n v) = n"
  by (simp_all add: mkRecord_def Let_def)

text \<open>A structured record the raw form can carry: attributes 1 to \<open>n\<close>, no newline inside one.\<close>

definition dense_record :: "StructuredRecord \<Rightarrow> bool" where
  "dense_record sr \<longleftrightarrow>
     sr = numbered 1 (map (raw \<circ> snd) sr) \<and> (\<forall>(n, a) \<in> set sr. LF \<notin> set (raw a)) \<and>
     map (raw \<circ> snd) sr \<noteq> [[]]"

lemma dense_fromRaw [simp]: "dense_record (fromRaw s)"
proof -
  have "LF \<notin> set (raw a)" if "(n, a) \<in> set (fromRaw s)" for n a
  proof -
    have "raw a \<in> set (map (raw \<circ> snd) (fromRaw s))" using that by force
    then show ?thesis by (auto simp: fromRaw_eq numbered_raws dest: raw_attributes_no_LF simp del: set_map)
  qed
  then show ?thesis
    by (auto simp: dense_record_def fromRaw_eq numbered_raws raw_attributes_not_single_Nil)
qed

lemma fromRaw_toRaw: "dense_record sr \<Longrightarrow> fromRaw (toRaw sr) = sr"
proof -
  assume d: "dense_record sr"
  let ?ls = "map (raw \<circ> snd) sr"
  have "\<forall>l \<in> set ?ls. LF \<notin> set l" "?ls \<noteq> [[]]" "sr = numbered 1 ?ls"
    using d by (auto simp: dense_record_def)
  then show ?thesis by (metis fromRaw_eq raw_attributes_join toRaw_eq)
qed

interpretation raw_record: codec toRaw "\<lambda>s. Some (fromRaw s)" dense_record
  by unfold_locales (simp add: fromRaw_toRaw)

definition mark_free :: "string list \<Rightarrow> bool" where
  "mark_free vs \<longleftrightarrow> vs \<noteq> [] \<and> (\<forall>v \<in> set vs. kValueMark \<notin> set v)"

interpretation multivalue: codec joinValues "\<lambda>s. Some (splitValues (RecordAttribute s))" mark_free
  by unfold_locales (simp add: mark_free_def joinValues_eq splitValues_eq split_join)

lemma joinValues_splitValues [simp]: "joinValues (splitValues a) = raw a"
  by (simp add: joinValues_eq splitValues_eq)

lemma splitValues_mark_free [simp]: "mark_free (splitValues a)"
  by (auto simp: mark_free_def splitValues_eq dest: split_on_pieces)

lemma valueAt_joinValues:
  "mark_free vs \<Longrightarrow> valueAt (RecordAttribute (joinValues vs)) i =
     (if 1 \<le> i \<and> i \<le> int (length vs) then vs ! nat (i - 1) else [])"
  using multivalue.dec_enc [of vs] by (auto simp: valueAt_def Let_def)



section \<open>Writing an attribute back\<close>

lemma attribute_fromRaw:
  "attribute (fromRaw s) k =
     RecordAttribute (if 1 \<le> k \<and> k \<le> int (length (raw_attributes s)) then raw_attributes s ! nat (k - 1) else [])"
  by (simp add: attribute_def fromRaw_eq map_of_numbered)

lemma setAttribute_numbered:
  assumes "1 \<le> k" "k \<le> int (length ls)"
  shows "setAttribute k (RecordAttribute v) (numbered 1 ls) = numbered 1 (ls[nat (k - 1) := v])"
proof -
  have put: "omap_put j a m = map (\<lambda>(i, b). if i = j then (j, a) else (i, b)) m"
    if "omap_wf m" "j \<in> fst ` set m" for j :: int and a :: RecordAttribute and m
    using that
  proof (induction j a m rule: omap_put.induct)
    case (2 j a i b m)
    have "\<forall>x \<in> set m. fst x \<noteq> j" if "j = i" using 2(2) that by (auto simp: omap_wf_def)
    then have "j = i \<Longrightarrow> map (\<lambda>(i, b). if i = j then (j, a) else (i, b)) m = m" by (auto intro!: map_idI)
    moreover have "j < i \<Longrightarrow> False" using 2(2,3) by (fastforce simp: omap_wf_def)
    ultimately show ?case using 2 by (auto simp: omap_wf_def)
  qed simp
  have wf: "omap_wf (numbered 1 ls)"
    by (auto simp: omap_wf_def numbered_def sorted_wrt_map enumerate_eq_zip sorted_wrt_iff_nth_less)
  have "k \<in> fst ` set (numbered 1 ls)" using assms by (simp add: numbered_keys)
  then have "setAttribute k (RecordAttribute v) (numbered 1 ls) =
      map (\<lambda>(i, b). if i = k then (k, RecordAttribute v) else (i, b)) (numbered 1 ls)"
    using assms put [OF wf] by (simp add: setAttribute_def)
  also have "\<dots> = numbered 1 (ls[nat (k - 1) := v])"
    using assms by (intro nth_equalityI) (auto simp: numbered_def enumerate_eq_zip nth_list_update)
  finally show ?thesis .
qed

lemma setAttribute_beyond:
  assumes "int (length ls) < k"
  shows "toRaw (setAttribute k (RecordAttribute v) (numbered 1 ls)) = join_with LF (ls @ [v])"
proof -
  have "omap_put k (RecordAttribute v) (numbered 1 ls) = numbered 1 ls @ [(k, RecordAttribute v)]"
    using assms by (intro omap_put_last) (auto simp: numbered_keys)
  then show ?thesis using assms by (simp add: setAttribute_def toRaw_eq numbered_raws)
qed

text \<open>The raw record after writing attribute \<open>k\<close> of it, as \<open>FileSystem::writeAttributeValue\<close> computes it.\<close>

definition put_raw_attribute :: "int \<Rightarrow> string \<Rightarrow> string \<Rightarrow> string" where
  "put_raw_attribute k v s = toRaw (setAttribute k (RecordAttribute v) (fromRaw s))"

text \<open>Attribute \<open>k\<close> of a list of attributes, empty outside the list.\<close>

definition attr_of :: "string list \<Rightarrow> int \<Rightarrow> string" where
  "attr_of ls k = (if 1 \<le> k \<and> k \<le> int (length ls) then ls ! nat (k - 1) else [])"

lemma attribute_attr_of: "attribute (fromRaw s) k = RecordAttribute (attr_of (raw_attributes s) k)"
  by (simp add: attribute_fromRaw attr_of_def)

lemma attr_of_raw_join:
  assumes "\<forall>l \<in> set ls. LF \<notin> set l"
  shows "attr_of (raw_attributes (join_with LF ls)) j = attr_of ls j"
proof (cases "ls = [[]]")
  case True
  then show ?thesis by (simp add: raw_attributes_def attr_of_def)
qed (use assms in \<open>simp add: raw_attributes_join\<close>)

lemma attr_of_no_LF: "LF \<notin> set (attr_of (raw_attributes s) k)"
proof (cases "1 \<le> k \<and> k \<le> int (length (raw_attributes s))")
  case True
  then have "raw_attributes s ! nat (k - 1) \<in> set (raw_attributes s)" by (intro nth_mem) auto
  with True show ?thesis by (simp add: attr_of_def raw_attributes_no_LF)
qed (auto simp: attr_of_def)

lemma put_raw_attribute_eq:
  assumes "1 \<le> k"
  shows "put_raw_attribute k v s =
    (let ls = raw_attributes s
     in join_with LF (if k \<le> int (length ls) then ls[nat (k - 1) := v] else ls @ [v]))"
  using assms by (simp add: put_raw_attribute_def fromRaw_eq setAttribute_numbered toRaw_numbered setAttribute_beyond Let_def)

lemma attribute_put:
  assumes "1 \<le> k" "LF \<notin> set v"
  shows "attribute (fromRaw (put_raw_attribute k v s)) j =
    (if j = min k (int (length (raw_attributes s)) + 1) then RecordAttribute v else attribute (fromRaw s) j)"
proof -
  let ?ls = "raw_attributes s"
  let ?ls' = "if k \<le> int (length ?ls) then ?ls[nat (k - 1) := v] else ?ls @ [v]"
  have nl: "\<forall>l \<in> set ?ls'. LF \<notin> set l"
    using assms(2) raw_attributes_no_LF by (auto dest!: set_update_subset_insert [THEN subsetD])
  have "attribute (fromRaw (put_raw_attribute k v s)) j = RecordAttribute (attr_of ?ls' j)"
    using attr_of_raw_join [OF nl] assms(1) by (simp add: attribute_attr_of put_raw_attribute_eq Let_def)
  also have "attr_of ?ls' j = (if j = min k (int (length ?ls) + 1) then v else attr_of ?ls j)"
    using assms(1) by (auto simp: attr_of_def nth_list_update nth_append)
  finally show ?thesis by (simp add: attribute_attr_of)
qed

text \<open>
  Writing attribute \<open>k\<close> of a record with \<open>n\<close> attributes and reading the written record back: an
  attribute up to \<open>n + 1\<close> gets exactly the value and no other attribute changes; an attribute beyond
  \<open>n + 1\<close> does not stay where it was put, it becomes attribute \<open>n + 1\<close>, because the raw form has no
  place for the gap.
\<close>

theorem attribute_write_read:
  assumes "1 \<le> k" "LF \<notin> set v"
  shows "attribute (fromRaw (toRaw (setAttribute k (RecordAttribute v) (fromRaw s)))) j =
    (if j = min k (int (length (fromRaw s)) + 1) then RecordAttribute v else attribute (fromRaw s) j)"
proof -
  have "length (fromRaw s) = length (raw_attributes s)"
    by (simp add: fromRaw_eq numbered_def)
  then show ?thesis using attribute_put [OF assms] by (simp add: put_raw_attribute_def)
qed

theorem attribute_write_read_witness:
  "attribute (fromRaw (toRaw (setAttribute 5 (RecordAttribute ''X'') (fromRaw ''A'')))) 2 = RecordAttribute ''X''"
proof -
  have "length (fromRaw ''A'') = 1" by (simp add: fromRaw_eq raw_attributes_def numbered_def)
  then show ?thesis using attribute_write_read [of 5 "''X''" "''A''" 2] by simp
qed

end
