(* ===== verification/File_System.thy ===== *)
theory File_System
  imports Locking Records
begin

text \<open>
  The record file system of \<open>src/core/filesystem\<close> (\<open>Catalog\<close>, \<open>FileSystem\<close>).  A Pick file is a host
  directory under the root, a record is a host file \<open>NAME.item\<close>, \<open>NAME.bas\<close> or \<open>NAME.proc\<close> in it.  The
  host disk is an association list from paths to nodes; a \<open>FileSystem\<close> object is its root and its lock
  context, and the disk and the lock table that the sessions share are the \<open>world\<close>.  The answers of the
  host's \<open>error_code\<close>s are a parameter of type \<open>host\<close>, so that every error branch of the code is
  a branch of the model.  The theorems show that the store behaves like a map from record names to
  contents, that a lock keeps every other session away from a record, and that a \<open>READNEXT\<close>
  cursor delivers every record once and in order.
\<close>

section \<open>The host disk\<close>

type_synonym path = "string list"

datatype node = Dir | File string

type_synonym disk = "(path \<times> node) list"

definition path_string :: "path \<Rightarrow> string" where
  "path_string p = join_with CHR ''/'' p"

text \<open>The host calls that report through an \<open>error_code\<close> or a stream state.\<close>

datatype host_op =
  Exists | IsDirectory | CreateDirectories | CreateDirectory | RemoveAll | OpenDirectory
  | OpenRead | OpenWrite | StreamWrite | StreamClose | Rename | Remove

text \<open>
  \<open>host_fails op p\<close>: the call \<open>op\<close> on \<open>p\<close> reports an error.  \<open>host_written p\<close>: how many bytes reach
  the file when writing or closing fails.  \<open>host_read_dir p\<close>: what reading a directory through
  an \<open>ifstream\<close> gives, which differs between C++ libraries.
\<close>

record host =
  host_fails :: "host_op \<Rightarrow> path \<Rightarrow> bool"
  host_written :: "path \<Rightarrow> nat"
  host_read_dir :: "path \<Rightarrow> string result"

record world =
  disk :: disk
  lock_table :: LockTable
  now :: nat

text \<open>\<open>std::filesystem::exists(p, ec)\<close> and \<open>is_directory(p, ec)\<close> return false when they fail.\<close>

definition fs_exists :: "host \<Rightarrow> disk \<Rightarrow> path \<Rightarrow> bool" where
  "fs_exists h d p \<longleftrightarrow> \<not> host_fails h Exists p \<and> map_of d p \<noteq> None"

definition fs_is_directory :: "host \<Rightarrow> disk \<Rightarrow> path \<Rightarrow> bool" where
  "fs_is_directory h d p \<longleftrightarrow> \<not> host_fails h IsDirectory p \<and> map_of d p = Some Dir"

text \<open>\<open>create_directories\<close>: every missing prefix, failing at a prefix that is a regular file.\<close>

fun make_directories :: "disk \<Rightarrow> path \<Rightarrow> path \<Rightarrow> disk option" where
  "make_directories d pre [] = Some d"
| "make_directories d pre (c # cs) =
     (case map_of d (pre @ [c]) of
        None \<Rightarrow> make_directories (map_put (pre @ [c]) Dir d) (pre @ [c]) cs
      | Some Dir \<Rightarrow> make_directories d (pre @ [c]) cs
      | Some (File _) \<Rightarrow> None)"

definition is_below :: "path \<Rightarrow> path \<Rightarrow> bool" where
  "is_below p q \<longleftrightarrow> take (length p) q = p"

definition remove_all :: "path \<Rightarrow> disk \<Rightarrow> disk" where
  "remove_all p d = filter (\<lambda>(q, _). \<not> is_below p q) d"

definition children :: "path \<Rightarrow> disk \<Rightarrow> (string \<times> node) list" where
  "children p d = map (\<lambda>(q, nd). (last q, nd)) (filter (\<lambda>(q, _). q \<noteq> [] \<and> butlast q = p) d)"

text \<open>\<open>path::extension()\<close> and \<open>path::stem()\<close> of a file name: from the last dot on, unless it leads the name.\<close>

definition extension_of :: "string \<Rightarrow> string" where
  "extension_of nm =
     (let ext = rev (takeWhile (\<lambda>c. c \<noteq> CHR ''.'') (rev nm))
      in if length nm \<le> length ext + 1 then [] else CHR ''.'' # ext)"

definition stem_of :: "string \<Rightarrow> string" where
  "stem_of nm = take (length nm - length (extension_of nm)) nm"

section \<open>\<open>Catalog\<close>\<close>

definition isValidNameChar :: "char \<Rightarrow> bool" where
  "isValidNameChar c \<longleftrightarrow>
     (97 \<le> code_of c \<and> code_of c \<le> 122) \<or> (65 \<le> code_of c \<and> code_of c \<le> 90) \<or> isdigit c \<or>
     c = CHR ''_'' \<or> c = CHR ''-''"

definition isValidName :: "string \<Rightarrow> bool" where
  "isValidName nm \<longleftrightarrow> nm \<noteq> [] \<and> list_all isValidNameChar nm"

section \<open>\<open>FileSystem\<close>\<close>

record FileSystem =
  root :: path
  hasLockTable :: bool
  lockSessionId :: string

record FileHandle =
  fhName :: string
  directoryPath :: path
  recordIds :: "string list"
  cursorIndex :: nat
  cursorPrimed :: bool

definition setRoot :: "path \<Rightarrow> FileSystem \<Rightarrow> FileSystem" where
  "setRoot r fs = fs\<lparr>root := r\<rparr>"

definition setLockContext :: "string \<Rightarrow> FileSystem \<Rightarrow> FileSystem" where
  "setLockContext sessionId fs = fs\<lparr>hasLockTable := True, lockSessionId := sessionId\<rparr>"

definition clearLockContext :: "FileSystem \<Rightarrow> FileSystem" where
  "clearLockContext fs = fs\<lparr>hasLockTable := False, lockSessionId := []\<rparr>"

definition lockingEnabled :: "FileSystem \<Rightarrow> bool" where
  "lockingEnabled fs \<longleftrightarrow> hasLockTable fs \<and> lockSessionId fs \<noteq> []"

definition filePath :: "FileSystem \<Rightarrow> string \<Rightarrow> path result" where
  "filePath fs fileName =
     (if \<not> isValidName fileName then Inl (RuntimeError ''Invalid file name'') else Inr (root fs @ [fileName]))"

definition ensureRootExists :: "host \<Rightarrow> FileSystem \<Rightarrow> world \<Rightarrow> unit result \<times> world" where
  "ensureRootExists h fs w =
     (if host_fails h CreateDirectories (root fs) then (Inl (RuntimeError (''Cannot create filesystem directory: '' @ path_string (root fs))), w)
      else case make_directories (disk w) [] (root fs) of
             None \<Rightarrow> (Inl (RuntimeError (''Cannot create filesystem directory: '' @ path_string (root fs))), w)
           | Some d \<Rightarrow> (Inr (), w\<lparr>disk := d\<rparr>))"

definition preferredExtensionForFile :: "string \<Rightarrow> string" where
  "preferredExtensionForFile fileName =
     (if fileName = ''BP'' then ''.bas''
      else if fileName = ''PROC'' \<or> fileName = ''PROCS'' then ''.proc'' else ''.item'')"

definition isKnownRecordExtension :: "string \<Rightarrow> bool" where
  "isKnownRecordExtension e \<longleftrightarrow> e = ''.item'' \<or> e = ''.bas'' \<or> e = ''.proc''"

definition assertRecordAccessible :: "FileSystem \<Rightarrow> world \<Rightarrow> string \<Rightarrow> string \<Rightarrow> unit result" where
  "assertRecordAccessible fs w fileName recordName =
     (if \<not> lockingEnabled fs then Inr ()
      else case lookup (lock_table w) fileName recordName of
             None \<Rightarrow> Inr ()
           | Some entry \<Rightarrow>
               if ownerSessionId entry = lockSessionId fs then Inr ()
               else Inl (FileSystemError (describeLockConflict
                 \<lparr>conflictFileName = fileName, conflictRecordId = recordName,
                  conflictOwner = ownerSessionId entry, conflictLockType = lockType entry\<rparr>)))"

definition acquireRecordLock ::
  "FileSystem \<Rightarrow> string \<Rightarrow> string \<Rightarrow> LockType \<Rightarrow> world \<Rightarrow> unit result \<times> world" where
  "acquireRecordLock fs fileName recordName ty w =
     (if \<not> lockingEnabled fs then (Inr (), w)
      else let (ok, conflict, t) = tryAcquire (lock_table w) (lockSessionId fs) fileName recordName ty (now w)
           in (if ok then Inr () else Inl (FileSystemError (describeLockConflict conflict)),
               w\<lparr>lock_table := t\<rparr>))"

definition createFile :: "host \<Rightarrow> FileSystem \<Rightarrow> string \<Rightarrow> world \<Rightarrow> unit result \<times> world" where
  "createFile h fs nm w =
     (if \<not> isValidName nm then (Inl (FileSystemError ''Invalid file name''), w)
      else let p = root fs @ [nm]
           in case ensureRootExists h fs w of
                (Inl e, w') \<Rightarrow> (Inl e, w')
              | (Inr _, w') \<Rightarrow>
                  if host_fails h Exists p then (Inl (FileSystemError (''Cannot inspect file: '' @ path_string p)), w')
                  else if fs_exists h (disk w') p then (Inl (FileSystemError (''File already exists: '' @ nm)), w')
                  else if host_fails h CreateDirectory p then (Inl (FileSystemError (''Cannot create file: '' @ nm)), w')
                  else (Inr (), w'\<lparr>disk := map_put p Dir (disk w')\<rparr>))"

definition openDirectory :: "host \<Rightarrow> world \<Rightarrow> string \<Rightarrow> path \<Rightarrow> unit result" where
  "openDirectory h w nm p =
     (if \<not> fs_exists h (disk w) p then
        (if host_fails h Exists p then Inl (FileSystemError (''Cannot inspect file: '' @ nm))
         else Inl (FileSystemError (''File not found: '' @ nm)))
      else if \<not> fs_is_directory h (disk w) p then
        (if host_fails h IsDirectory p then Inl (FileSystemError (''Cannot inspect file: '' @ nm))
         else Inl (FileSystemError (''Invalid file storage for: '' @ nm)))
      else Inr ())"

definition deleteFile :: "host \<Rightarrow> FileSystem \<Rightarrow> string \<Rightarrow> world \<Rightarrow> unit result \<times> world" where
  "deleteFile h fs nm w =
     (if \<not> isValidName nm then (Inl (FileSystemError ''Invalid file name''), w)
      else let w' = (if hasLockTable fs then w\<lparr>lock_table := snd (releaseAllForFile (lock_table w) nm)\<rparr> else w);
               p = root fs @ [nm]
           in case openDirectory h w' nm p of
                Inl e \<Rightarrow> (Inl e, w')
              | Inr _ \<Rightarrow>
                  if host_fails h RemoveAll p then (Inl (FileSystemError (''Cannot delete file: '' @ nm)), w')
                  else (Inr (), w'\<lparr>disk := remove_all p (disk w')\<rparr>))"

definition openFile :: "host \<Rightarrow> FileSystem \<Rightarrow> world \<Rightarrow> string \<Rightarrow> FileHandle result" where
  "openFile h fs w nm =
     (if \<not> isValidName nm then Inl (FileSystemError ''Invalid file name'')
      else let p = root fs @ [nm]
           in bindE (openDirectory h w nm p) (\<lambda>_.
                Inr \<lparr>fhName = nm, directoryPath = p, recordIds = [], cursorIndex = 0, cursorPrimed = False\<rparr>))"

text \<open>The iterator constructed with a failing \<open>error_code\<close> is the end iterator: the listing is empty.\<close>

definition record_entry :: "string \<times> node \<Rightarrow> bool" where
  "record_entry e \<longleftrightarrow>
     snd e \<noteq> Dir \<and> isKnownRecordExtension (extension_of (fst e)) \<and> isValidName (stem_of (fst e))"

definition listRecords :: "host \<Rightarrow> world \<Rightarrow> FileHandle \<Rightarrow> string list" where
  "listRecords h w fh =
     (if host_fails h OpenDirectory (directoryPath fh) then []
      else remdups_adj (sort (map (stem_of \<circ> fst)
             (filter record_entry (children (directoryPath fh) (disk w))))))"

definition record_path :: "FileHandle \<Rightarrow> string \<Rightarrow> string \<Rightarrow> path" where
  "record_path fh recordName ext = directoryPath fh @ [recordName @ ext]"

definition selectRecordPath :: "host \<Rightarrow> world \<Rightarrow> FileHandle \<Rightarrow> string \<Rightarrow> path option" where
  "selectRecordPath h w fh recordName =
     find (fs_exists h (disk w))
       (map (record_path fh recordName) [preferredExtensionForFile (fhName fh), ''.item'', ''.bas'', ''.proc''])"

definition resolveRecordPath :: "host \<Rightarrow> world \<Rightarrow> FileHandle \<Rightarrow> string \<Rightarrow> path" where
  "resolveRecordPath h w fh recordName =
     (let preferredPath = record_path fh recordName (preferredExtensionForFile (fhName fh))
      in if fs_exists h (disk w) preferredPath then preferredPath
         else case find (fs_exists h (disk w)) (map (record_path fh recordName) [''.item'', ''.bas'', ''.proc'']) of
                Some candidate \<Rightarrow> candidate
              | None \<Rightarrow> preferredPath)"

definition read_stream :: "host \<Rightarrow> disk \<Rightarrow> path \<Rightarrow> string \<Rightarrow> string result" where
  "read_stream h d p recordName =
     (if host_fails h OpenRead p then Inl (FileSystemError (''Cannot open record: '' @ recordName))
      else case map_of d p of
             Some (File content) \<Rightarrow> Inr content
           | Some Dir \<Rightarrow> host_read_dir h p
           | None \<Rightarrow> Inl (FileSystemError (''Cannot open record: '' @ recordName)))"

definition readRecord :: "host \<Rightarrow> FileSystem \<Rightarrow> world \<Rightarrow> FileHandle \<Rightarrow> string \<Rightarrow> Record option result" where
  "readRecord h fs w fh recordName =
     (if \<not> isValidName recordName then Inl (FileSystemError ''Invalid record name'')
      else bindE (assertRecordAccessible fs w (fhName fh) recordName) (\<lambda>_.
        case selectRecordPath h w fh recordName of
          None \<Rightarrow> Inr None
        | Some p \<Rightarrow> bindE (read_stream h (disk w) p recordName) (\<lambda>content. Inr (Some (mkRecord recordName content)))))"

text \<open>
  The temporary file of \<open>writeRecord\<close>.  The write itself only fills the stream buffer when the
  record is small; what the host refuses at the flush in the destructor is not reported.
\<close>

definition temp_path :: "path \<Rightarrow> path" where
  "temp_path p = butlast p @ [last p @ ''.tmp'']"

definition can_open_write :: "host \<Rightarrow> disk \<Rightarrow> path \<Rightarrow> bool" where
  "can_open_write h d p \<longleftrightarrow>
     \<not> host_fails h OpenWrite p \<and> map_of d p \<noteq> Some Dir \<and> map_of d (butlast p) = Some Dir"

definition writeTemp :: "host \<Rightarrow> path \<Rightarrow> string \<Rightarrow> string \<Rightarrow> disk \<Rightarrow> unit result \<times> disk" where
  "writeTemp h tp recordName canonicalRaw d =
     (if \<not> can_open_write h d tp then (Inl (FileSystemError (''Cannot write record: '' @ recordName)), d)
      else if host_fails h StreamWrite tp then
        (Inl (FileSystemError (''Cannot write record: '' @ recordName)),
         map_put tp (File (take (host_written h tp) canonicalRaw)) d)
      else (Inr (), map_put tp (File (if host_fails h StreamClose tp then take (host_written h tp) canonicalRaw
                                      else canonicalRaw)) d))"

definition finalizeRecord :: "host \<Rightarrow> path \<Rightarrow> path \<Rightarrow> string \<Rightarrow> disk \<Rightarrow> unit result \<times> disk" where
  "finalizeRecord h tp p recordName d =
     (case map_of d tp of
        Some (File c) \<Rightarrow>
          if host_fails h Rename tp \<or> map_of d p = Some Dir then
            (if host_fails h Remove tp then (Inl (RuntimeError ''filesystem error: cannot remove''), d)
             else (Inl (FileSystemError (''Cannot finalize record: '' @ recordName)), map_erase tp d))
          else (Inr (), map_put p (File c) (map_erase tp d))
      | _ \<Rightarrow> (Inl (FileSystemError (''Cannot finalize record: '' @ recordName)), d))"

definition writeRecord :: "host \<Rightarrow> FileSystem \<Rightarrow> FileHandle \<Rightarrow> Record \<Rightarrow> world \<Rightarrow> unit result \<times> world" where
  "writeRecord h fs fh rec w =
     (if \<not> isValidName (recName rec) then (Inl (FileSystemError ''Invalid record name''), w)
      else case assertRecordAccessible fs w (fhName fh) (recName rec) of
             Inl e \<Rightarrow> (Inl e, w)
           | Inr _ \<Rightarrow>
               let p = resolveRecordPath h w fh (recName rec);
                   tp = temp_path p;
                   canonicalRaw = toRaw (fromRaw (recValue rec))
               in case writeTemp h tp (recName rec) canonicalRaw (disk w) of
                    (Inl e, d) \<Rightarrow> (Inl e, w\<lparr>disk := d\<rparr>)
                  | (Inr _, d) \<Rightarrow>
                      let (r, d') = finalizeRecord h tp p (recName rec) d in (r, w\<lparr>disk := d'\<rparr>))"

text \<open>\<open>std::filesystem::remove\<close> deletes a file or an empty directory.\<close>

definition remove_fails :: "host \<Rightarrow> disk \<Rightarrow> path \<Rightarrow> bool" where
  "remove_fails h d p \<longleftrightarrow> host_fails h Remove p \<or> (map_of d p = Some Dir \<and> children p d \<noteq> [])"

definition deleteRecord :: "host \<Rightarrow> FileSystem \<Rightarrow> FileHandle \<Rightarrow> string \<Rightarrow> world \<Rightarrow> unit result \<times> world" where
  "deleteRecord h fs fh recordName w =
     (if \<not> isValidName recordName then (Inl (FileSystemError ''Invalid record name''), w)
      else case assertRecordAccessible fs w (fhName fh) recordName of
             Inl e \<Rightarrow> (Inl e, w)
           | Inr _ \<Rightarrow>
               let p = resolveRecordPath h w fh recordName
               in if remove_fails h (disk w) p then (Inl (FileSystemError (''Cannot delete record: '' @ recordName)), w)
                  else if map_of (disk w) p = None then (Inl (FileSystemError (''Record not found: '' @ recordName)), w)
                  else let w' = w\<lparr>disk := map_erase p (disk w)\<rparr>
                       in (Inr (), if lockingEnabled fs
                                   then w'\<lparr>lock_table := snd (release (lock_table w') (lockSessionId fs) (fhName fh) recordName)\<rparr>
                                   else w'))"

definition readFS :: "host \<Rightarrow> FileSystem \<Rightarrow> world \<Rightarrow> string \<Rightarrow> string \<Rightarrow> Record option result" where
  "readFS h fs w fileName recordName =
     bindE (openFile h fs w fileName) (\<lambda>fh. readRecord h fs w fh recordName)"

definition writeFS :: "host \<Rightarrow> FileSystem \<Rightarrow> string \<Rightarrow> Record \<Rightarrow> world \<Rightarrow> unit result \<times> world" where
  "writeFS h fs fileName rec w =
     (case openFile h fs w fileName of Inl e \<Rightarrow> (Inl e, w) | Inr fh \<Rightarrow> writeRecord h fs fh rec w)"

definition readU :: "host \<Rightarrow> FileSystem \<Rightarrow> string \<Rightarrow> string \<Rightarrow> world \<Rightarrow> Record option result \<times> world" where
  "readU h fs fileName recordName w =
     (case acquireRecordLock fs fileName recordName ReadU w of
        (Inl e, w') \<Rightarrow> (Inl e, w')
      | (Inr _, w') \<Rightarrow> (readFS h fs w' fileName recordName, w'))"

definition writeU :: "host \<Rightarrow> FileSystem \<Rightarrow> string \<Rightarrow> Record \<Rightarrow> world \<Rightarrow> unit result \<times> world" where
  "writeU h fs fileName rec w =
     (case acquireRecordLock fs fileName (recName rec) WriteU w of
        (Inl e, w') \<Rightarrow> (Inl e, w')
      | (Inr _, w') \<Rightarrow> writeFS h fs fileName rec w')"

definition releaseRecord :: "FileSystem \<Rightarrow> string \<Rightarrow> string \<Rightarrow> world \<Rightarrow> bool \<times> world" where
  "releaseRecord fs fileName recordName w =
     (if \<not> lockingEnabled fs then (False, w)
      else let (b, t) = release (lock_table w) (lockSessionId fs) fileName recordName
           in (b, w\<lparr>lock_table := t\<rparr>))"

definition listFiles :: "host \<Rightarrow> FileSystem \<Rightarrow> world \<Rightarrow> string list" where
  "listFiles h fs w =
     (if \<not> fs_exists h (disk w) (root fs) \<or> host_fails h OpenDirectory (root fs) then []
      else sort (filter isValidName (map fst (filter (\<lambda>(_, nd). nd = Dir) (children (root fs) (disk w))))))"

definition listRecordNames :: "host \<Rightarrow> FileSystem \<Rightarrow> world \<Rightarrow> string \<Rightarrow> string list result" where
  "listRecordNames h fs w fileName = bindE (openFile h fs w fileName) (\<lambda>fh. Inr (listRecords h w fh))"

definition readNextRecord :: "host \<Rightarrow> world \<Rightarrow> FileHandle \<Rightarrow> string result \<times> FileHandle" where
  "readNextRecord h w fh =
     (let fh' = (if \<not> cursorPrimed fh
                 then fh\<lparr>recordIds := listRecords h w fh, cursorIndex := 0, cursorPrimed := True\<rparr> else fh)
      in if length (recordIds fh') \<le> cursorIndex fh' then (Inl (FileSystemError ''cursor exhausted''), fh')
         else (Inr (recordIds fh' ! cursorIndex fh'), fh'\<lparr>cursorIndex := cursorIndex fh' + 1\<rparr>))"

definition resetReadNextCursor :: "FileHandle \<Rightarrow> FileHandle" where
  "resetReadNextCursor fh = fh\<lparr>cursorPrimed := False, cursorIndex := 0, recordIds := []\<rparr>"

definition readAttributeValue ::
  "host \<Rightarrow> FileSystem \<Rightarrow> world \<Rightarrow> string \<Rightarrow> string \<Rightarrow> int \<Rightarrow> string option result" where
  "readAttributeValue h fs w fileName recordName attributeNo =
     bindE (readFS h fs w fileName recordName) (\<lambda>r.
       case r of None \<Rightarrow> Inr None
       | Some rec \<Rightarrow> Inr (Some (raw (attribute (fromRaw (recValue rec)) attributeNo))))"

definition readSubvalue ::
  "host \<Rightarrow> FileSystem \<Rightarrow> world \<Rightarrow> string \<Rightarrow> string \<Rightarrow> int \<Rightarrow> int \<Rightarrow> string option result" where
  "readSubvalue h fs w fileName recordName attributeNo valueIndex =
     bindE (readFS h fs w fileName recordName) (\<lambda>r.
       case r of None \<Rightarrow> Inr None
       | Some rec \<Rightarrow> Inr (Some (valueAt (attribute (fromRaw (recValue rec)) attributeNo) valueIndex)))"

definition existing_structured :: "Record option \<Rightarrow> StructuredRecord" where
  "existing_structured r = (case r of None \<Rightarrow> [] | Some rec \<Rightarrow> fromRaw (recValue rec))"

definition writeAttributeValue ::
  "host \<Rightarrow> FileSystem \<Rightarrow> string \<Rightarrow> string \<Rightarrow> int \<Rightarrow> string \<Rightarrow> world \<Rightarrow> unit result \<times> world" where
  "writeAttributeValue h fs fileName recordName attributeNo v w =
     (case readFS h fs w fileName recordName of
        Inl e \<Rightarrow> (Inl e, w)
      | Inr r \<Rightarrow>
          writeFS h fs fileName
            (mkRecord recordName (toRaw (setAttribute attributeNo (RecordAttribute v) (existing_structured r)))) w)"

text \<open>\<open>values.resize(valueIndex, "")\<close> when it is longer, then the assignment to \<open>values[valueIndex - 1]\<close>.\<close>

definition putValueAt :: "int \<Rightarrow> string \<Rightarrow> string list \<Rightarrow> string list" where
  "putValueAt valueIndex v vs =
     (let vs1 = (if vs = [] then [[]] else vs);
          n = nat valueIndex;
          vs2 = (if length vs1 < n then vs1 @ replicate (n - length vs1) [] else vs1)
      in vs2[n - 1 := v])"

definition writeSubvalue ::
  "host \<Rightarrow> FileSystem \<Rightarrow> string \<Rightarrow> string \<Rightarrow> int \<Rightarrow> int \<Rightarrow> string \<Rightarrow> world \<Rightarrow> unit result \<times> world" where
  "writeSubvalue h fs fileName recordName attributeNo valueIndex v w =
     (if valueIndex \<le> 0 then (Inl (FileSystemError ''Invalid subvalue index''), w)
      else case readFS h fs w fileName recordName of
        Inl e \<Rightarrow> (Inl e, w)
      | Inr r \<Rightarrow>
          let sr = existing_structured r;
              vs = putValueAt valueIndex v (splitValues (attribute sr attributeNo))
          in writeFS h fs fileName
               (mkRecord recordName (toRaw (setAttribute attributeNo (RecordAttribute (joinValues vs)) sr))) w)"

section \<open>Paths of records\<close>

lemma no_dot_valid: "isValidName r \<Longrightarrow> CHR ''.'' \<notin> set r"
proof
  assume "isValidName r" "CHR ''.'' \<in> set r"
  then have "isValidNameChar CHR ''.''" by (auto simp: isValidName_def list_all_iff)
  then show False by (simp add: isValidNameChar_def code_of_def isdigit_def)
qed

lemma dot_split_inj:
  assumes "CHR ''.'' \<notin> set a" "CHR ''.'' \<notin> set b" "a @ CHR ''.'' # x = b @ CHR ''.'' # y"
  shows "a = b \<and> x = y"
  using assms by (induction a arbitrary: b) (auto simp: append_eq_Cons_conv Cons_eq_append_conv)

definition record_ext :: "string \<Rightarrow> bool" where
  "record_ext e \<longleftrightarrow> e \<in> {''.item'', ''.bas'', ''.proc''}"

lemma record_ext_simps [simp]:
  "record_ext ''.item''" "record_ext ''.bas''" "record_ext ''.proc''" "record_ext (preferredExtensionForFile f)"
  by (simp_all add: record_ext_def preferredExtensionForFile_def)

lemma record_name_inj:
  assumes "isValidName r" "isValidName r'" "record_ext e" "record_ext e'"
  shows "r @ e = r' @ e' \<longleftrightarrow> r = r' \<and> e = e'" "r @ e \<noteq> r' @ e' @ ''.tmp''"
proof -
  obtain x y where e: "e = CHR ''.'' # x" "e' = CHR ''.'' # y" "CHR ''.'' \<notin> set x"
    using assms(3,4) by (auto simp: record_ext_def)
  note inj = dot_split_inj [OF no_dot_valid [OF assms(1)] no_dot_valid [OF assms(2)]]
  show "r @ e = r' @ e' \<longleftrightarrow> r = r' \<and> e = e'" using inj [of x y] e by auto
  show "r @ e \<noteq> r' @ e' @ ''.tmp''" using inj [of x "y @ ''.tmp''"] e by auto
qed

lemma record_path_eq_iff:
  assumes "isValidName r" "isValidName r'" "record_ext e" "record_ext e'"
  shows "record_path fh r e = record_path fh' r' e' \<longleftrightarrow> directoryPath fh = directoryPath fh' \<and> r = r' \<and> e = e'"
  using record_name_inj(1) [OF assms] by (auto simp: record_path_def)

lemma record_path_not_temp:
  assumes "isValidName r" "isValidName r'" "record_ext e" "record_ext e'"
  shows "record_path fh r e \<noteq> temp_path (record_path fh' r' e')"
  using record_name_inj(2) [OF assms] by (auto simp: record_path_def temp_path_def)

lemma resolveRecordPath_select:
  "resolveRecordPath h w fh r =
     (case selectRecordPath h w fh r of Some p \<Rightarrow> p
      | None \<Rightarrow> record_path fh r (preferredExtensionForFile (fhName fh)))"
  by (simp add: resolveRecordPath_def selectRecordPath_def Let_def)

lemma selectRecordPath_Some:
  "selectRecordPath h w fh r = Some p \<Longrightarrow> \<exists>e. record_ext e \<and> p = record_path fh r e \<and> fs_exists h (disk w) p"
  by (auto simp: selectRecordPath_def find_Some_iff split: if_splits)
     (metis record_ext_simps)+

lemma resolveRecordPath_shape: "\<exists>e. record_ext e \<and> resolveRecordPath h w fh r = record_path fh r e"
  unfolding resolveRecordPath_select
  using selectRecordPath_Some record_ext_simps(4) by (cases "selectRecordPath h w fh r") fastforce+

section \<open>What a read depends on\<close>

definition same_files :: "disk \<Rightarrow> disk \<Rightarrow> FileHandle \<Rightarrow> string \<Rightarrow> bool" where
  "same_files d d' fh r \<longleftrightarrow>
     (\<forall>e. record_ext e \<longrightarrow> map_of d (record_path fh r e) = map_of d' (record_path fh r e))"

lemma assertRecordAccessible_locks:
  "lock_table w = lock_table w' \<Longrightarrow> assertRecordAccessible fs w f r = assertRecordAccessible fs w' f r"
  by (simp add: assertRecordAccessible_def)

lemma same_files_select: "same_files (disk w) (disk w') fh r \<Longrightarrow> selectRecordPath h w fh r = selectRecordPath h w' fh r"
  by (simp add: selectRecordPath_def same_files_def fs_exists_def)

lemma readRecord_cong:
  assumes same: "same_files (disk w) (disk w') fh r"
    and "assertRecordAccessible fs w (fhName fh) r = assertRecordAccessible fs w' (fhName fh) r"
  shows "readRecord h fs w fh r = readRecord h fs w' fh r"
proof -
  have "read_stream h (disk w) p r = read_stream h (disk w') p r" if "selectRecordPath h w' fh r = Some p" for p
    using selectRecordPath_Some [OF that] same by (auto simp: read_stream_def same_files_def)
  then show ?thesis
    using assms(2) same_files_select [OF same] by (auto simp: readRecord_def split: option.splits)
qed

lemma openFile_same:
  "map_of (disk w) (root fs @ [f]) = map_of (disk w') (root fs @ [f]) \<Longrightarrow> openFile h fs w f = openFile h fs w' f"
  by (simp add: openFile_def openDirectory_def fs_exists_def fs_is_directory_def Let_def)

definition file_handle :: "FileSystem \<Rightarrow> string \<Rightarrow> FileHandle" where
  "file_handle fs f =
     \<lparr>fhName = f, directoryPath = root fs @ [f], recordIds = [], cursorIndex = 0, cursorPrimed = False\<rparr>"

lemma openFile_Inr: "openFile h fs w f = Inr fh \<Longrightarrow> fh = file_handle fs f \<and> isValidName f \<and> map_of (disk w) (root fs @ [f]) = Some Dir"
  by (auto simp: openFile_def openDirectory_def file_handle_def fs_is_directory_def bindE_eq_Inr_iff Let_def split: if_splits)

lemma file_handle_simps [simp]: "directoryPath (file_handle fs f) = root fs @ [f]" "fhName (file_handle fs f) = f"
  by (simp_all add: file_handle_def)

lemma readFS_same:
  assumes "map_of (disk w) (root fs @ [f]) = map_of (disk w') (root fs @ [f])"
    and "same_files (disk w) (disk w') (file_handle fs f) r"
    and "assertRecordAccessible fs w f r = assertRecordAccessible fs w' f r"
  shows "readFS h fs w f r = readFS h fs w' f r"
proof (cases "openFile h fs w' f")
  case (Inr fh)
  then show ?thesis
    using openFile_same [OF assms(1)] openFile_Inr [OF Inr] readRecord_cong [OF assms(2)] assms(3)
    by (simp add: readFS_def)
qed (simp add: readFS_def openFile_same [OF assms(1)])

lemma readRecord_invalid: "\<not> isValidName r \<Longrightarrow> readRecord h fs w fh r = Inl (FileSystemError ''Invalid record name'')"
  by (simp add: readRecord_def)

lemma writeTemp_frame: "writeTemp h tp r c d = (x, d') \<Longrightarrow> q \<noteq> tp \<Longrightarrow> map_of d' q = map_of d q"
  by (auto simp: writeTemp_def split: if_splits)

lemma writeTemp_ok:
  "writeTemp h tp r c d = (Inr u, d') \<Longrightarrow>
     map_of d' tp = Some (File (if host_fails h StreamClose tp then take (host_written h tp) c else c))"
  by (auto simp: writeTemp_def split: if_splits)

lemma finalizeRecord_failed: "finalizeRecord h tp p r d = (Inl e, d') \<Longrightarrow> q \<noteq> tp \<Longrightarrow> map_of d' q = map_of d q"
  by (auto simp: finalizeRecord_def split: if_splits option.splits node.splits)

lemma finalizeRecord_ok:
  "finalizeRecord h tp p r d = (Inr u, d') \<Longrightarrow> map_of d tp = Some (File c) \<Longrightarrow>
     map_of d' = (map_of d)(tp := None, p \<mapsto> File c)"
  by (auto simp: finalizeRecord_def split: if_splits)

definition written_content :: "host \<Rightarrow> path \<Rightarrow> string \<Rightarrow> string" where
  "written_content h p c =
     (if host_fails h StreamClose (temp_path p) then take (host_written h (temp_path p)) c else c)"

lemma writeRecord_failed:
  assumes "writeRecord h fs fh rec w = (Inl e, w')" "\<And>e. record_ext e \<Longrightarrow> q \<noteq> temp_path (record_path fh (recName rec) e)"
  shows "lock_table w' = lock_table w \<and> map_of (disk w') q = map_of (disk w) q"
proof -
  obtain x where x: "record_ext x" "resolveRecordPath h w fh (recName rec) = record_path fh (recName rec) x"
    using resolveRecordPath_shape by blast
  then have q: "q \<noteq> temp_path (resolveRecordPath h w fh (recName rec))" using assms(2) by simp
  show ?thesis
    using assms(1) writeTemp_frame [OF _ q] finalizeRecord_failed [OF _ q]
    by (auto simp: writeRecord_def Let_def split: if_splits sum.splits prod.splits)
qed

lemma writeRecord_ok:
  assumes "writeRecord h fs fh rec w = (Inr u, w')"
  shows "isValidName (recName rec) \<and> assertRecordAccessible fs w (fhName fh) (recName rec) = Inr () \<and>
    (let p = resolveRecordPath h w fh (recName rec)
     in lock_table w' = lock_table w \<and>
        map_of (disk w') = (map_of (disk w))(temp_path p := None, p \<mapsto> File (written_content h p (recValue rec))))"
proof -
  let ?p = "resolveRecordPath h w fh (recName rec)"
  obtain d d' where d: "isValidName (recName rec)" "assertRecordAccessible fs w (fhName fh) (recName rec) = Inr ()"
      "writeTemp h (temp_path ?p) (recName rec) (recValue rec) (disk w) = (Inr (), d)"
      "finalizeRecord h (temp_path ?p) ?p (recName rec) d = (Inr (), d')" "w' = w\<lparr>disk := d'\<rparr>"
    using assms by (auto simp: writeRecord_def Let_def split: if_splits sum.splits prod.splits)
  have "map_of d = (map_of (disk w))(temp_path ?p \<mapsto> File (written_content h ?p (recValue rec)))"
    using writeTemp_ok [OF d(3)] writeTemp_frame [OF d(3)] by (auto simp: written_content_def)
  then show ?thesis using d finalizeRecord_ok [OF d(4)] by (simp add: Let_def)
qed

lemma temp_path_Cons_dir: "p \<noteq> [] \<Longrightarrow> length (temp_path p) = length p"
  by (simp add: temp_path_def)

lemma writeFS_cases:
  "writeFS h fs f rec w = (case openFile h fs w f of Inl e \<Rightarrow> (Inl e, w)
     | Inr _ \<Rightarrow> writeRecord h fs (file_handle fs f) rec w)"
  by (auto simp: writeFS_def split: sum.splits dest!: openFile_Inr)

lemma read_after_failed_write:
  assumes "writeFS h fs f rec w = (Inl e, w')" "root fs' = root fs"
  shows "readFS h' fs' w' f' r' = readFS h' fs' w f' r'"
proof (cases "openFile h fs w f")
  case (Inl e')
  then show ?thesis using assms by (simp add: writeFS_def)
next
  case (Inr fh)
  then have fail: "writeRecord h fs (file_handle fs f) rec w = (Inl e, w')"
    using assms(1) by (simp add: writeFS_cases)
  note frame = writeRecord_failed [OF fail]
  have dir: "map_of (disk w') (root fs @ [f']) = map_of (disk w) (root fs @ [f'])"
    using frame [of "root fs @ [f']"] by (auto simp: temp_path_def record_path_def butlast_append)
  show ?thesis
  proof (cases "isValidName r' \<and> isValidName (recName rec)")
    case True
    then have "record_path (file_handle fs' f') r' x \<noteq> temp_path (record_path (file_handle fs f) (recName rec) y)"
      if "record_ext x" "record_ext y" for x y
      using that record_path_not_temp by blast
    then have eq: "lock_table w' = lock_table w \<and>
        map_of (disk w') (record_path (file_handle fs' f') r' x) = map_of (disk w) (record_path (file_handle fs' f') r' x)"
      if "record_ext x" for x
      using that by (intro frame) simp
    then have "same_files (disk w') (disk w) (file_handle fs' f') r'" "lock_table w' = lock_table w"
      using eq [OF record_ext_simps(1)] by (simp_all add: same_files_def)
    then show ?thesis
      using dir assms(2) assertRecordAccessible_locks [of w' w] by (intro readFS_same) simp_all
  next
    case False
    then show ?thesis
    proof (cases "isValidName r'")
      case True
      then have "w' = w" using False fail by (simp add: writeRecord_def)
      then show ?thesis by simp
    next
      case False
      then show ?thesis
        using openFile_same [of w' fs' f' w h'] dir assms(2) by (simp add: readFS_def readRecord_invalid)
    qed
  qed
qed

lemma selectRecordPath_put:
  assumes "\<And>p. \<not> host_fails h Exists p"
    and disk_eq: "map_of (disk w') = (map_of (disk w))(tp := None, p \<mapsto> nd)"
    and p: "p = resolveRecordPath h w fh r"
    and tp: "\<And>e. record_ext e \<Longrightarrow> record_path fh r e \<noteq> tp"
  shows "selectRecordPath h w' fh r = Some p"
proof -
  have ex: "fs_exists h (disk w') (record_path fh r e) \<longleftrightarrow>
      fs_exists h (disk w) (record_path fh r e) \<or> record_path fh r e = p" if "record_ext e" for e
    using tp [OF that] assms(1) by (simp add: fs_exists_def disk_eq)
  show ?thesis
    using p by (simp add: selectRecordPath_def resolveRecordPath_def ex Let_def split: if_splits)
qed

lemma readRecord_selected:
  assumes "isValidName r" "assertRecordAccessible fs w (fhName fh) r = Inr ()"
    and "selectRecordPath h w fh r = Some p" "map_of (disk w) p = Some (File c)" "\<not> host_fails h OpenRead p"
  shows "readRecord h fs w fh r = Inr (Some (mkRecord r c))"
  using assms by (simp add: readRecord_def read_stream_def)

lemma writeFS_ok_world:
  assumes "writeFS h fs f rec w = (Inr u, w')"
  shows "lock_table w' = lock_table w \<and> isValidName f \<and> isValidName (recName rec) \<and>
    assertRecordAccessible fs w f (recName rec) = Inr () \<and> openFile h fs w f = Inr (file_handle fs f) \<and>
    (let p = resolveRecordPath h w (file_handle fs f) (recName rec)
     in map_of (disk w') = (map_of (disk w))(temp_path p := None, p \<mapsto> File (written_content h p (recValue rec))))"
proof -
  obtain fh where fh: "openFile h fs w f = Inr fh"
    using assms by (auto simp: writeFS_def split: sum.splits)
  then have "writeRecord h fs (file_handle fs f) rec w = (Inr u, w')" using assms by (simp add: writeFS_cases)
  from writeRecord_ok [OF this] openFile_Inr [OF fh] fh show ?thesis by (simp add: Let_def)
qed

lemma resolved_not_dir:
  "resolveRecordPath h w (file_handle fs f) r \<noteq> root fs @ [f']"
  "temp_path (resolveRecordPath h w (file_handle fs f) r) \<noteq> root fs @ [f']"
proof -
  obtain e where "resolveRecordPath h w (file_handle fs f) r = root fs @ [f, r @ e]"
    using resolveRecordPath_shape [of h w "file_handle fs f" r] by (auto simp: record_path_def)
  then show "resolveRecordPath h w (file_handle fs f) r \<noteq> root fs @ [f']"
    "temp_path (resolveRecordPath h w (file_handle fs f) r) \<noteq> root fs @ [f']"
    by (auto simp: temp_path_def butlast_append)
qed

lemma openFile_after_write:
  assumes "writeFS h fs f rec w = (Inr u, w')" "root fs' = root fs"
  shows "map_of (disk w') (root fs' @ [f']) = map_of (disk w) (root fs' @ [f'])"
  using writeFS_ok_world [OF assms(1)] assms(2)
    resolved_not_dir [of h w fs f "recName rec" f', THEN not_sym] by (simp add: Let_def)

lemma read_written:
  assumes w: "writeFS h fs f rec w = (Inr u, w')"
    and ok: "\<And>p. \<not> host_fails h Exists p" "\<And>p. \<not> host_fails h OpenRead p"
  shows "readFS h fs w' f (recName rec) =
    Inr (Some (mkRecord (recName rec)
      (written_content h (resolveRecordPath h w (file_handle fs f) (recName rec)) (recValue rec))))"
proof -
  let ?fh = "file_handle fs f" and ?r = "recName rec"
  let ?p = "resolveRecordPath h w ?fh ?r"
  note ww = writeFS_ok_world [OF w]
  have d: "map_of (disk w') = (map_of (disk w))(temp_path ?p := None, ?p \<mapsto> File (written_content h ?p (recValue rec)))"
    using ww by (simp add: Let_def)
  obtain e where e: "record_ext e" "?p = record_path ?fh ?r e" using resolveRecordPath_shape by blast
  have "selectRecordPath h w' ?fh ?r = Some ?p"
    using d refl by (rule selectRecordPath_put [OF ok(1)]) (use e ww record_path_not_temp in auto)
  moreover have "openFile h fs w' f = Inr ?fh"
    using ww openFile_same [OF openFile_after_write [OF w refl]] by simp
  moreover have "assertRecordAccessible fs w' f ?r = Inr ()" using ww assertRecordAccessible_locks [of w' w] by simp
  ultimately show ?thesis
    using ww d ok(2) by (simp add: readFS_def readRecord_selected)
qed

lemma read_other:
  assumes w: "writeFS h fs f rec w = (Inr u, w')" and "root fs' = root fs" "(f', r') \<noteq> (f, recName rec)"
  shows "readFS h' fs' w' f' r' = readFS h' fs' w f' r'"
proof (cases "isValidName r'")
  case True
  let ?p = "resolveRecordPath h w (file_handle fs f) (recName rec)"
  note ww = writeFS_ok_world [OF w]
  obtain e where e: "record_ext e" "?p = record_path (file_handle fs f) (recName rec) e"
    using resolveRecordPath_shape by blast
  have "record_path (file_handle fs' f') r' x \<noteq> ?p" "record_path (file_handle fs' f') r' x \<noteq> temp_path ?p"
    if "record_ext x" for x
    using True that e ww assms(2,3) record_path_not_temp [of r' "recName rec" x e]
    by (auto simp: record_path_eq_iff)
  then have "same_files (disk w') (disk w) (file_handle fs' f') r'" using ww by (simp add: same_files_def Let_def)
  then show ?thesis
    using openFile_after_write [OF w assms(2)] assms(2) ww assertRecordAccessible_locks [of w' w]
    by (intro readFS_same) simp_all
next
  case False
  then show ?thesis
    using openFile_same [OF openFile_after_write [OF w assms(2)]] by (simp add: readFS_def readRecord_invalid)
qed

section \<open>Properties of the store\<close>

text \<open>
  C4. A record write is all or nothing, whatever the host does.  When \<open>write\<close> fails, for any reason (the
  directory, a lock, opening, writing or renaming the temporary file), every record of every
  file still reads as before, in every session; when it succeeds, every other record still reads
  as before, and the record itself reads as the written value, provided that the host can inspect and open
  it and the flush at the end of the write did not fail.
\<close>

theorem write_all_or_nothing:
  assumes "writeFS h fs f rec w = (res, w')" "root fs' = root fs"
  shows "(\<forall>f' r'. (isl res \<or> (f', r') \<noteq> (f, recName rec)) \<longrightarrow> readFS h' fs' w' f' r' = readFS h' fs' w f' r') \<and>
    (\<not> isl res \<and> (\<forall>p. \<not> host_fails h Exists p \<and> \<not> host_fails h OpenRead p \<and> \<not> host_fails h StreamClose p) \<longrightarrow>
      readFS h fs w' f (recName rec) = Inr (Some (mkRecord (recName rec) (recValue rec))))"
proof (cases res)
  case (Inl e)
  then show ?thesis using read_after_failed_write assms by auto
next
  case (Inr u)
  then have w: "writeFS h fs f rec w = (Inr u, w')" using assms(1) by simp
  show ?thesis
    using Inr read_other [OF w assms(2)] read_written [OF w] by (auto simp: written_content_def)
qed

definition good_host :: host where
  "good_host = \<lparr>host_fails = (\<lambda>_ _. False), host_written = (\<lambda>_. 0), host_read_dir = (\<lambda>_. Inr [])\<rparr>"

lemma good_host_simps [simp]: "host_fails good_host x p = False" "host_read_dir good_host p = Inr []"
  by (simp_all add: good_host_def)

definition sample_fs :: "string \<Rightarrow> FileSystem" where
  "sample_fs s = \<lparr>root = [''db''], hasLockTable = True, lockSessionId = s\<rparr>"

definition sample_world :: world where
  "sample_world =
     \<lparr>disk = [([''db''], Dir), ([''db'', ''BP''], Dir), ([''db'', ''BP'', ''HELLO.bas''], File ''PRINT 1'')],
      lock_table = [], now = 0\<rparr>"

theorem write_all_or_nothing_witness:
  "let w' = snd (writeFS good_host (sample_fs ''S1'') ''BP'' (mkRecord ''BYE'' ''STOP'') sample_world)
   in readFS good_host (sample_fs ''S1'') w' ''BP'' ''BYE'' = Inr (Some (mkRecord ''BYE'' ''STOP'')) \<and>
      readFS good_host (sample_fs ''S2'') w' ''BP'' ''HELLO'' =
      readFS good_host (sample_fs ''S2'') sample_world ''BP'' ''HELLO''"
proof -
  let ?rec = "mkRecord ''BYE'' ''STOP''"
  have "\<not> isl (fst (writeFS good_host (sample_fs ''S1'') ''BP'' ?rec sample_world))"
    by code_simp
  moreover have "(''BP'', ''HELLO'') \<noteq> (''BP'', recName ?rec)" by simp
  ultimately show ?thesis
    using write_all_or_nothing [OF prod.collapse [symmetric], of "sample_fs ''S1''" "sample_fs ''S1''" good_host "''BP''" ?rec sample_world good_host]
      write_all_or_nothing [OF prod.collapse [symmetric], of "sample_fs ''S2''" "sample_fs ''S1''" good_host "''BP''" ?rec sample_world good_host]
    by (simp add: Let_def sample_fs_def)
qed

section \<open>The store as a map\<close>

text \<open>
  What a client of a record store relies on: a write of an admissible record is seen by the next read, a
  deleted record is gone, and no other record is touched.
\<close>

datatype ('f, 'k, 'v) store_op = Put 'f 'k 'v | Del 'f 'k

fun run_op :: "('w \<Rightarrow> 'f \<Rightarrow> 'k \<Rightarrow> 'v \<Rightarrow> 'w) \<Rightarrow> ('w \<Rightarrow> 'f \<Rightarrow> 'k \<Rightarrow> 'w) \<Rightarrow> 'w \<Rightarrow> ('f, 'k, 'v) store_op \<Rightarrow> 'w" where
  "run_op put del w (Put f k v) = put w f k v"
| "run_op put del w (Del f k) = del w f k"

fun map_op :: "('f \<times> 'k \<rightharpoonup> 'v) \<Rightarrow> ('f, 'k, 'v) store_op \<Rightarrow> ('f \<times> 'k \<rightharpoonup> 'v)" where
  "map_op m (Put f k v) = m((f, k) \<mapsto> v)"
| "map_op m (Del f k) = m((f, k) := None)"

fun op_target :: "('f, 'k, 'v) store_op \<Rightarrow> 'f \<times> 'k" where
  "op_target (Put f k v) = (f, k)"
| "op_target (Del f k) = (f, k)"

locale record_store =
  fixes inv :: "'w \<Rightarrow> bool"
    and adm :: "'w \<Rightarrow> 'f \<Rightarrow> 'k \<Rightarrow> bool"
    and get :: "'w \<Rightarrow> 'f \<Rightarrow> 'k \<Rightarrow> 'v option"
    and put :: "'w \<Rightarrow> 'f \<Rightarrow> 'k \<Rightarrow> 'v \<Rightarrow> 'w"
    and del :: "'w \<Rightarrow> 'f \<Rightarrow> 'k \<Rightarrow> 'w"
  assumes put_inv: "inv w \<Longrightarrow> adm w f k \<Longrightarrow> inv (put w f k v)"
    and del_inv: "inv w \<Longrightarrow> adm w f k \<Longrightarrow> inv (del w f k)"
    and put_adm: "inv w \<Longrightarrow> adm w f k \<Longrightarrow> adm (put w f k v) f' k' = adm w f' k'"
    and del_adm: "inv w \<Longrightarrow> adm w f k \<Longrightarrow> adm (del w f k) f' k' = adm w f' k'"
    and get_put: "inv w \<Longrightarrow> adm w f k \<Longrightarrow>
      get (put w f k v) f' k' = (if (f', k') = (f, k) then Some v else get w f' k')"
    and get_del: "inv w \<Longrightarrow> adm w f k \<Longrightarrow>
      get (del w f k) f' k' = (if (f', k') = (f, k) then None else get w f' k')"
begin

definition op_adm :: "'w \<Rightarrow> ('f, 'k, 'v) store_op \<Rightarrow> bool" where
  "op_adm w x = (case op_target x of (f, k) \<Rightarrow> adm w f k)"

definition content :: "'w \<Rightarrow> ('f \<times> 'k \<rightharpoonup> 'v)" where
  "content w = (\<lambda>(f, k). get w f k)"

lemma run_op_step:
  assumes "inv w" "op_adm w x"
  shows "inv (run_op put del w x) \<and> op_adm (run_op put del w x) y = op_adm w y \<and>
    content (run_op put del w x) = map_op (content w) x"
  using assms
  by (cases x) (auto simp: op_adm_def put_inv del_inv put_adm del_adm content_def fun_eq_iff get_put get_del split: prod.splits)

lemma history:
  assumes "inv w" "\<forall>x \<in> set xs. op_adm w x"
  shows "inv (foldl (run_op put del) w xs) \<and> content (foldl (run_op put del) w xs) = foldl map_op (content w) xs"
  using assms
proof (induction xs arbitrary: w)
  case (Cons x xs)
  then show ?case
    using run_op_step [of w x] Cons.IH [of "run_op put del w x"] by simp
qed simp

end

text \<open>The shape of a store on disk that \<open>writeRecord\<close> and \<open>deleteRecord\<close> keep: no directory stands where a record belongs, and no record has two files.\<close>

definition record_shape :: "FileSystem \<Rightarrow> disk \<Rightarrow> string \<Rightarrow> string \<Rightarrow> bool" where
  "record_shape fs d f r \<longleftrightarrow>
     (\<forall>e. record_ext e \<longrightarrow> map_of d (root fs @ [f, r @ e]) \<noteq> Some Dir \<and> map_of d (root fs @ [f, r @ e @ ''.tmp'']) \<noteq> Some Dir) \<and>
     (\<forall>e e'. record_ext e \<longrightarrow> record_ext e' \<longrightarrow> map_of d (root fs @ [f, r @ e]) \<noteq> None \<longrightarrow>
        map_of d (root fs @ [f, r @ e']) \<noteq> None \<longrightarrow> e = e')"

definition store_inv :: "host \<Rightarrow> FileSystem \<Rightarrow> world \<Rightarrow> bool" where
  "store_inv h fs w \<longleftrightarrow>
     (\<forall>x p. \<not> host_fails h x p) \<and> locks_wf (lock_table w) \<and>
     (\<forall>f r. isValidName f \<longrightarrow> isValidName r \<longrightarrow> record_shape fs (disk w) f r)"

definition store_adm :: "FileSystem \<Rightarrow> world \<Rightarrow> string \<Rightarrow> string \<Rightarrow> bool" where
  "store_adm fs w f r \<longleftrightarrow>
     isValidName f \<and> isValidName r \<and> map_of (disk w) (root fs @ [f]) = Some Dir \<and>
     assertRecordAccessible fs w f r = Inr ()"

definition store_get :: "host \<Rightarrow> FileSystem \<Rightarrow> world \<Rightarrow> string \<Rightarrow> string \<Rightarrow> string option" where
  "store_get h fs w f r = (case readFS h fs w f r of Inr (Some rec) \<Rightarrow> Some (recValue rec) | _ \<Rightarrow> None)"

definition store_put :: "host \<Rightarrow> FileSystem \<Rightarrow> world \<Rightarrow> string \<Rightarrow> string \<Rightarrow> string \<Rightarrow> world" where
  "store_put h fs w f r v = snd (writeFS h fs f (mkRecord r v) w)"

definition store_del :: "host \<Rightarrow> FileSystem \<Rightarrow> world \<Rightarrow> string \<Rightarrow> string \<Rightarrow> world" where
  "store_del h fs w f r = (case openFile h fs w f of Inl _ \<Rightarrow> w | Inr fh \<Rightarrow> snd (deleteRecord h fs fh r w))"

lemma store_adm_open: "store_inv h fs w \<Longrightarrow> store_adm fs w f r \<Longrightarrow> openFile h fs w f = Inr (file_handle fs f)"
  by (simp add: store_inv_def store_adm_def openFile_def openDirectory_def fs_exists_def fs_is_directory_def
      file_handle_def Let_def)

lemma temp_path_record: "temp_path (record_path (file_handle fs f) r e) = root fs @ [f, r @ e @ ''.tmp'']"
  by (simp add: temp_path_def record_path_def butlast_append)

lemma write_succeeds:
  assumes inv: "store_inv h fs w" and adm: "store_adm fs w f (recName rec)"
  shows "\<exists>w'. writeFS h fs f rec w = (Inr (), w')"
proof -
  let ?fh = "file_handle fs f" and ?r = "recName rec"
  let ?p = "resolveRecordPath h w ?fh ?r"
  obtain e where e: "record_ext e" "?p = record_path ?fh ?r e" using resolveRecordPath_shape by blast
  have ok: "\<And>x p. \<not> host_fails h x p" and val: "isValidName f" "isValidName ?r"
    and dir: "map_of (disk w) (root fs @ [f]) = Some Dir" and acc: "assertRecordAccessible fs w f ?r = Inr ()"
    using inv adm by (auto simp: store_inv_def store_adm_def)
  have "record_shape fs (disk w) f ?r" using inv val by (simp add: store_inv_def)
  then have nd: "map_of (disk w) (temp_path ?p) \<noteq> Some Dir" "map_of (disk w) ?p \<noteq> Some Dir"
    unfolding e(2) temp_path_record using e(1) by (auto simp: record_shape_def record_path_def)
  have ne: "?p \<noteq> temp_path ?p" using record_path_not_temp [OF val(2,2) e(1,1), of ?fh ?fh] e(2) by simp
  have "butlast (temp_path ?p) = root fs @ [f]" using e by (simp add: temp_path_record butlast_append)
  then have "writeTemp h (temp_path ?p) ?r c (disk w) = (Inr (), map_put (temp_path ?p) (File c) (disk w))" for c
    using ok nd dir by (simp add: writeTemp_def can_open_write_def)
  then show ?thesis
    using val acc ok nd ne store_adm_open [OF inv adm]
    by (simp add: writeFS_def writeRecord_def finalizeRecord_def Let_def)
qed

lemma resolve_existing:
  assumes "store_inv h fs w" "isValidName f" "isValidName r" "record_ext e"
    and "map_of (disk w) (root fs @ [f, r @ e]) \<noteq> None"
  shows "resolveRecordPath h w (file_handle fs f) r = root fs @ [f, r @ e] \<and>
    selectRecordPath h w (file_handle fs f) r = Some (root fs @ [f, r @ e])"
proof -
  let ?fh = "file_handle fs f"
  have "record_path ?fh r e \<in> set (map (record_path ?fh r) [preferredExtensionForFile f, ''.item'', ''.bas'', ''.proc''])"
    using assms(4) by (auto simp: record_ext_def)
  moreover have "fs_exists h (disk w) (record_path ?fh r e)"
    using assms(1,5) by (simp add: fs_exists_def store_inv_def record_path_def)
  ultimately obtain p where p: "selectRecordPath h w ?fh r = Some p"
    unfolding selectRecordPath_def file_handle_simps by (metis find_None_iff option.exhaust)
  then obtain x where x: "record_ext x" "p = record_path ?fh r x" "map_of (disk w) p \<noteq> None"
    using selectRecordPath_Some by (fastforce simp: fs_exists_def)
  have "record_shape fs (disk w) f r" using assms(1-3) by (simp add: store_inv_def)
  then have "x = e" using x assms(4,5) unfolding record_shape_def record_path_def file_handle_simps by fastforce
  then show ?thesis using p x by (simp add: resolveRecordPath_select record_path_def)
qed

text \<open>The disk after one operation on record \<open>r\<close> of file \<open>f\<close>: the file of the record is \<open>nd\<close>, everything else stands.\<close>

lemma record_shape_upd:
  assumes inv: "store_inv h fs w" and val: "isValidName f" "isValidName r" "record_ext e" "isValidName f'" "isValidName r'"
    and p: "resolveRecordPath h w (file_handle fs f) r = root fs @ [f, r @ e]"
    and d: "map_of d' = (map_of (disk w))(root fs @ [f, r @ e @ ''.tmp''] := t, root fs @ [f, r @ e] := nd)"
    and nd: "nd \<noteq> Some Dir" "t \<noteq> Some Dir"
  shows "record_shape fs d' f' r'"
proof -
  have sh: "record_shape fs (disk w) f' r'" using inv val by (simp add: store_inv_def)
  have ne: "r' @ x \<noteq> r @ e @ ''.tmp''" "r' @ x = r @ e \<longleftrightarrow> r' = r \<and> x = e" if "record_ext x" for x
    using that val record_name_inj by blast+
  have old: "map_of d' (root fs @ [f', r' @ x]) = (if (f', r', x) = (f, r, e) then nd else map_of (disk w) (root fs @ [f', r' @ x]))"
    if "record_ext x" for x using ne [OF that] d by auto
  have one: "x = e" if "record_ext x" "f' = f" "r' = r" "map_of (disk w) (root fs @ [f', r' @ x]) \<noteq> None" for x
    using resolve_existing [OF inv val(1,2) that(1)] that(2-4) p by simp
  show ?thesis
    unfolding record_shape_def
  proof (intro conjI allI impI)
    fix x assume x: "record_ext x"
    show "map_of d' (root fs @ [f', r' @ x]) \<noteq> Some Dir"
      using old [OF x] nd sh x by (auto simp: record_shape_def)
    show "map_of d' (root fs @ [f', r' @ x @ ''.tmp'']) \<noteq> Some Dir"
      using d nd sh x by (auto simp: record_shape_def)
    fix y assume y: "record_ext y" and ex: "map_of d' (root fs @ [f', r' @ x]) \<noteq> None" "map_of d' (root fs @ [f', r' @ y]) \<noteq> None"
    show "x = y"
    proof (cases "f' = f \<and> r' = r")
      case True
      then show ?thesis using old [OF x] old [OF y] one [OF x] one [OF y] ex by (metis prod.inject)
    next
      case False
      then have "map_of (disk w) (root fs @ [f', r' @ x]) \<noteq> None" "map_of (disk w) (root fs @ [f', r' @ y]) \<noteq> None"
        using old [OF x] old [OF y] ex by auto
      then show ?thesis using sh x y unfolding record_shape_def by blast
    qed
  qed
qed

lemma release_accessible:
  assumes "locks_wf (lock_table w)" "lock_table w' = snd (release (lock_table w) (lockSessionId fs) f r)"
  shows "assertRecordAccessible fs w' f' r' = assertRecordAccessible fs w f' r'"
proof -
  have "lookup (lock_table w') f' r' = lookup (lock_table w) f' r' \<or>
      lookup (lock_table w') f' r' = None \<and> (\<exists>e. lookup (lock_table w) f' r' = Some e \<and> ownerSessionId e = lockSessionId fs)"
    using assms release_result [OF assms(1), of "lockSessionId fs" f r] release_abs [OF assms(1), of "lockSessionId fs" f r]
    by (auto simp: lookup_abs release_wf)
  then show ?thesis by (auto simp: assertRecordAccessible_def)
qed

lemma store_del_effect:
  assumes inv: "store_inv h fs w" and adm: "store_adm fs w f r"
  shows "\<exists>e. record_ext e \<and> resolveRecordPath h w (file_handle fs f) r = root fs @ [f, r @ e] \<and>
    map_of (disk (store_del h fs w f r)) = (map_of (disk w))(root fs @ [f, r @ e] := None) \<and>
    locks_wf (lock_table (store_del h fs w f r)) \<and>
    (\<forall>f' r'. assertRecordAccessible fs (store_del h fs w f r) f' r' = assertRecordAccessible fs w f' r')"
proof -
  let ?fh = "file_handle fs f"
  obtain e where e: "record_ext e" "resolveRecordPath h w ?fh r = record_path ?fh r e" using resolveRecordPath_shape by blast
  have ok: "\<And>x p. \<not> host_fails h x p" and wf: "locks_wf (lock_table w)" and val: "isValidName f" "isValidName r"
    and acc: "assertRecordAccessible fs w f r = Inr ()" and sh: "record_shape fs (disk w) f r"
    using inv adm by (auto simp: store_inv_def store_adm_def)
  have nd: "map_of (disk w) (root fs @ [f, r @ e]) \<noteq> Some Dir" using sh e by (simp add: record_shape_def)
  let ?w = "w\<lparr>disk := map_erase (root fs @ [f, r @ e]) (disk w)\<rparr>"
  have "store_del h fs w f r =
     (if map_of (disk w) (root fs @ [f, r @ e]) = None then w
      else if lockingEnabled fs then ?w\<lparr>lock_table := snd (release (lock_table w) (lockSessionId fs) f r)\<rparr> else ?w)"
    using store_adm_open [OF inv adm] val acc ok nd e
    by (simp add: store_del_def deleteRecord_def remove_fails_def record_path_def Let_def)
  moreover have "assertRecordAccessible fs (?w\<lparr>lock_table := snd (release (lock_table w) (lockSessionId fs) f r)\<rparr>) f' r' =
      assertRecordAccessible fs w f' r'" for f' r'
    using wf by (rule release_accessible) simp
  moreover have "assertRecordAccessible fs ?w f' r' = assertRecordAccessible fs w f' r'" for f' r'
    by (rule assertRecordAccessible_locks) simp
  ultimately show ?thesis
    using e wf by (intro exI [of _ e]) (auto simp: record_path_def release_wf)
qed

lemma store_put_effect:
  assumes inv: "store_inv h fs w" and adm: "store_adm fs w f r"
  shows "writeFS h fs f (mkRecord r v) w = (Inr (), store_put h fs w f r v)"
  using write_succeeds [OF inv, of f "mkRecord r v"] adm by (auto simp: store_put_def)

lemma store_put_keeps:
  assumes inv: "store_inv h fs w" and adm: "store_adm fs w f r"
  shows "store_inv h fs (store_put h fs w f r v)" "store_adm fs (store_put h fs w f r v) f' r' = store_adm fs w f' r'"
proof -
  note w = store_put_effect [OF assms, of v]
  note ww = writeFS_ok_world [OF w]
  obtain e where e: "record_ext e" "resolveRecordPath h w (file_handle fs f) r = root fs @ [f, r @ e]"
    using resolveRecordPath_shape [of h w "file_handle fs f" r] by (auto simp: record_path_def)
  have d: "map_of (disk (store_put h fs w f r v)) =
      (map_of (disk w))(root fs @ [f, r @ e @ ''.tmp''] := None,
        root fs @ [f, r @ e] := Some (File (written_content h (root fs @ [f, r @ e]) v)))"
    using ww e by (simp add: Let_def temp_path_def butlast_append)
  have "record_shape fs (disk (store_put h fs w f r v)) f' r'" if "isValidName f'" "isValidName r'" for f' r'
    using ww that e(1) by (intro record_shape_upd [OF inv _ _ _ _ _ e(2) d]) simp_all
  then show "store_inv h fs (store_put h fs w f r v)" using inv ww by (simp add: store_inv_def)
  show "store_adm fs (store_put h fs w f r v) f' r' = store_adm fs w f' r'"
    using openFile_after_write [OF w refl] assertRecordAccessible_locks [of "store_put h fs w f r v" w] ww
    by (simp add: store_adm_def)
qed

lemma store_get_put:
  assumes inv: "store_inv h fs w" and adm: "store_adm fs w f r"
  shows "store_get h fs (store_put h fs w f r v) f' r' = (if (f', r') = (f, r) then Some v else store_get h fs w f' r')"
  using store_put_effect [OF assms, of v] read_written [of h fs f "mkRecord r v" w "()"] read_other [of h fs f "mkRecord r v" w "()"]
    inv by (auto simp: store_get_def store_inv_def written_content_def)

lemma store_del_keeps:
  assumes inv: "store_inv h fs w" and adm: "store_adm fs w f r"
  shows "store_inv h fs (store_del h fs w f r)" "store_adm fs (store_del h fs w f r) f' r' = store_adm fs w f' r'"
proof -
  let ?w = "store_del h fs w f r"
  obtain e where e: "record_ext e" "resolveRecordPath h w (file_handle fs f) r = root fs @ [f, r @ e]"
      "map_of (disk ?w) = (map_of (disk w))(root fs @ [f, r @ e] := None)" "locks_wf (lock_table ?w)"
      "\<forall>f' r'. assertRecordAccessible fs ?w f' r' = assertRecordAccessible fs w f' r'"
    using store_del_effect [OF assms] by blast
  have val: "isValidName f" "isValidName r" using adm by (simp_all add: store_adm_def)
  have d: "map_of (disk ?w) = (map_of (disk w))(root fs @ [f, r @ e @ ''.tmp''] := map_of (disk w) (root fs @ [f, r @ e @ ''.tmp'']),
      root fs @ [f, r @ e] := None)" using e(3) by simp
  have t: "map_of (disk w) (root fs @ [f, r @ e @ ''.tmp'']) \<noteq> Some Dir"
    using inv val e(1) by (simp add: store_inv_def record_shape_def)
  have "record_shape fs (disk ?w) f' r'" if "isValidName f'" "isValidName r'" for f' r'
    by (rule record_shape_upd [OF inv val e(1) that e(2) d _ t]) simp
  then show "store_inv h fs ?w" using inv e(4) by (simp add: store_inv_def)
  show "store_adm fs ?w f' r' = store_adm fs w f' r'" using e(3,5) by (simp add: store_adm_def)
qed

lemma store_get_del:
  assumes inv: "store_inv h fs w" and adm: "store_adm fs w f r"
  shows "store_get h fs (store_del h fs w f r) f' r' = (if (f', r') = (f, r) then None else store_get h fs w f' r')"
proof -
  let ?w = "store_del h fs w f r"
  obtain e where e: "record_ext e" "resolveRecordPath h w (file_handle fs f) r = root fs @ [f, r @ e]"
      "map_of (disk ?w) = (map_of (disk w))(root fs @ [f, r @ e] := None)"
      "\<forall>f' r'. assertRecordAccessible fs ?w f' r' = assertRecordAccessible fs w f' r'"
    using store_del_effect [OF assms] by blast
  have val: "isValidName f" "isValidName r" using adm by (simp_all add: store_adm_def)
  show ?thesis
  proof (cases "(f', r') = (f, r)")
    case True
    have "map_of (disk ?w) (root fs @ [f, r @ x]) = None" if "record_ext x" for x
      using resolve_existing [OF inv val that] e(2,3) by (cases "map_of (disk w) (root fs @ [f, r @ x])") auto
    then have "\<not> fs_exists h (disk ?w) (record_path (file_handle fs f) r x)" if "record_ext x" for x
      using that by (simp add: fs_exists_def record_path_def)
    then have "selectRecordPath h ?w (file_handle fs f) r = None"
      using selectRecordPath_Some [of h ?w "file_handle fs f" r] by (metis option.exhaust)
    then have "readRecord h fs ?w (file_handle fs f) r = Inr None"
      using val e(4) adm by (simp add: readRecord_def store_adm_def)
    then show ?thesis
      using True store_adm_open [of h fs ?w f r] store_del_keeps [OF assms] adm by (simp add: store_get_def readFS_def)
  next
    case False
    have "readFS h fs ?w f' r' = readFS h fs w f' r'"
    proof (cases "isValidName r'")
      case True
      then have "same_files (disk ?w) (disk w) (file_handle fs f') r'"
        using False val e(1,3) record_name_inj(1) [of r' r] by (auto simp: same_files_def record_path_def)
      then show ?thesis using e(3,4) by (intro readFS_same) simp_all
    next
      case False
      then show ?thesis using openFile_same [of ?w fs f' w h] e(3) by (simp add: readFS_def readRecord_invalid)
    qed
    then show ?thesis using False by (auto simp: store_get_def)
  qed
qed

interpretation fs_store: record_store "store_inv h fs" "store_adm fs" "store_get h fs" "store_put h fs" "store_del h fs" for h fs
  by unfold_locales (simp_all only: store_put_keeps store_del_keeps store_get_put store_get_del)

text \<open>
  C5. The record store refines a map.  On a host without faults, any sequence of record writes and
  deletions by a session, on valid record names of existing files that no other session has locked,
  changes what the session reads exactly as the same sequence of updates changes a map from
  (file, record) to content, and keeps the shape of the store on disk.
\<close>

theorem store_refines_map:
  assumes "store_inv h fs w" "\<forall>x \<in> set xs. case op_target x of (f, r) \<Rightarrow> store_adm fs w f r"
  shows "let w' = foldl (run_op (store_put h fs) (store_del h fs)) w xs
    in store_inv h fs w' \<and>
      (\<lambda>(f, r). store_get h fs w' f r) = foldl map_op (\<lambda>(f, r). store_get h fs w f r) xs"
  using fs_store.history [of h fs w xs] assms by (simp add: fs_store.content_def fs_store.op_adm_def Let_def)

lemma sample_store_inv: "store_inv good_host (sample_fs s) sample_world"
  unfolding store_inv_def record_shape_def
proof (intro conjI allI impI)
  fix f r e e' assume "isValidName r" "record_ext e" "record_ext e'"
  then have n: "CHR ''.'' \<notin> set r" "e = CHR ''.'' # tl e" "e' = CHR ''.'' # tl e'" by (auto simp: no_dot_valid record_ext_def)
  have "r @ x = ''HELLO.bas'' \<Longrightarrow> x = CHR ''.'' # y \<Longrightarrow> x = ''.bas''" for x y
    using dot_split_inj [OF n(1), of "''HELLO''" y "''bas''"] by simp
  then have h: "r @ e = ''HELLO.bas'' \<Longrightarrow> e = ''.bas''" "r @ e' = ''HELLO.bas'' \<Longrightarrow> e' = ''.bas''" using n by metis+
  show "map_of (disk sample_world) (root (sample_fs s) @ [f, r @ e]) \<noteq> None \<Longrightarrow>
      map_of (disk sample_world) (root (sample_fs s) @ [f, r @ e']) \<noteq> None \<Longrightarrow> e = e'"
    using h by (auto simp: sample_world_def sample_fs_def split: if_splits)
qed (auto simp: sample_world_def sample_fs_def)

theorem store_refines_map_witness:
  "let w' = foldl (run_op (store_put good_host (sample_fs ''S1'')) (store_del good_host (sample_fs ''S1''))) sample_world
       [Put ''BP'' ''A'' ''x'', Del ''BP'' ''HELLO'', Put ''BP'' ''A'' ''y'']
   in store_get good_host (sample_fs ''S1'') w' ''BP'' ''A'' = Some ''y'' \<and>
      store_get good_host (sample_fs ''S1'') w' ''BP'' ''HELLO'' = None"
proof -
  let ?xs = "[Put ''BP'' ''A'' ''x'', Del ''BP'' ''HELLO'', Put ''BP'' ''A'' ''y'']"
  have "store_adm (sample_fs ''S1'') sample_world ''BP'' ''A''" "store_adm (sample_fs ''S1'') sample_world ''BP'' ''HELLO''"
    by code_simp+
  then have "\<forall>x \<in> set ?xs. case op_target x of (f, r) \<Rightarrow> store_adm (sample_fs ''S1'') sample_world f r" by simp
  from store_refines_map [OF sample_store_inv this] show ?thesis by (auto simp: Let_def fun_eq_iff)
qed

section \<open>Locked records\<close>

lemma acquire_refused_world:
  assumes "locks_wf (lock_table w)" "lookup (lock_table w) f r = Some e"
    and "ownerSessionId e \<noteq> lockSessionId fs" "lockingEnabled fs"
  shows "acquireRecordLock fs f r ty w = (Inl (FileSystemError (describeLockConflict (fillConflict f r e))), w)"
  using assms tryAcquire_refused [of "lock_table w" f r e "lockSessionId fs" ty "now w"]
  by (simp add: acquireRecordLock_def lockingEnabled_def lookup_abs)

lemma access_refused:
  assumes "lookup (lock_table w) f r = Some e" "ownerSessionId e \<noteq> lockSessionId fs" "lockingEnabled fs"
  shows "assertRecordAccessible fs w f r = Inl (FileSystemError (describeLockConflict (fillConflict f r e)))"
  using assms by (simp add: assertRecordAccessible_def fillConflict_def)

lemma readFS_refused: "assertRecordAccessible fs w f r = Inl e \<Longrightarrow> isl (readFS h fs w f r)"
  by (cases "openFile h fs w f") (auto simp: readFS_def readRecord_def dest!: openFile_Inr)

lemma writeFS_refused:
  "assertRecordAccessible fs w f (recName rec) = Inl e \<Longrightarrow> isl (fst (writeFS h fs f rec w)) \<and> snd (writeFS h fs f rec w) = w"
  by (cases "openFile h fs w f") (auto simp: writeFS_def writeRecord_def dest!: openFile_Inr)

lemma deleteRecord_refused:
  "assertRecordAccessible fs w (fhName fh) r = Inl e \<Longrightarrow> isl (fst (deleteRecord h fs fh r w)) \<and> snd (deleteRecord h fs fh r w) = w"
  by (simp add: deleteRecord_def)

text \<open>
  A lock protects its record.  While a session holds the lock of a record, every read, write,
  update read, update write and deletion of that record by another session raises an error and
  leaves the disk and the lock table exactly as they were.
\<close>

theorem lock_protects_record:
  assumes "locks_wf (lock_table w)" "lookup (lock_table w) f r = Some e"
    and "ownerSessionId e \<noteq> lockSessionId fs" "lockingEnabled fs" "recName rec = r" "fhName fh = f"
  shows "isl (readFS h fs w f r) \<and>
    (isl (fst (writeFS h fs f rec w)) \<and> snd (writeFS h fs f rec w) = w) \<and>
    (isl (fst (deleteRecord h fs fh r w)) \<and> snd (deleteRecord h fs fh r w) = w) \<and>
    readU h fs f r w = (Inl (FileSystemError (describeLockConflict (fillConflict f r e))), w) \<and>
    writeU h fs f rec w = (Inl (FileSystemError (describeLockConflict (fillConflict f r e))), w)"
  using access_refused [OF assms(2-4)] acquire_refused_world [OF assms(1-4)] assms(5,6)
    readFS_refused writeFS_refused [of fs w f rec] deleteRecord_refused [of fs w fh]
  by (simp add: readU_def writeU_def)

theorem lock_protects_record_witness:
  "let w = snd (readU good_host (sample_fs ''S1'') ''BP'' ''HELLO'' sample_world)
   in isl (fst (writeFS good_host (sample_fs ''S2'') ''BP'' (mkRecord ''HELLO'' ''X'') w)) \<and>
      snd (writeFS good_host (sample_fs ''S2'') ''BP'' (mkRecord ''HELLO'' ''X'') w) = w"
proof -
  let ?w = "snd (readU good_host (sample_fs ''S1'') ''BP'' ''HELLO'' sample_world)"
  let ?e = "\<lparr>ownerSessionId = ''S1'', lockType = ReadU, acquiredAt = 0\<rparr>"
  have l: "lock_table ?w = [(''BP'', [(''HELLO'', ?e)])]" by code_simp
  have "locks_wf (lock_table ?w)" "lookup (lock_table ?w) ''BP'' ''HELLO'' = Some ?e"
    unfolding l by (simp_all add: locks_wf_def lookup_def isValidKey_def)
  then show ?thesis
    using lock_protects_record [of ?w "''BP''" "''HELLO''" ?e "sample_fs ''S2''" "mkRecord ''HELLO'' ''X''" "file_handle (sample_fs ''S2'') ''BP''" good_host]
    by (simp add: sample_fs_def lockingEnabled_def Let_def)
qed

lemma readU_Inr:
  assumes "readU h fs f r w = (Inr x, w')" "lockingEnabled fs"
  shows "fst (tryAcquire (lock_table w) (lockSessionId fs) f r ReadU (now w)) \<and>
    w' = w\<lparr>lock_table := snd (snd (tryAcquire (lock_table w) (lockSessionId fs) f r ReadU (now w)))\<rparr> \<and>
    f \<noteq> [] \<and> r \<noteq> []"
  using assms tryAcquire_result [of "lock_table w" "lockSessionId fs" f r ReadU "now w"]
  by (auto simp: readU_def acquireRecordLock_def may_acquire_def split: prod.splits sum.splits if_splits)



section \<open>Listing and the \<open>READNEXT\<close> cursor\<close>

lemma children_iff: "(x, nd) \<in> set (children p d) \<longleftrightarrow> (p @ [x], nd) \<in> set d"
proof
  assume "(x, nd) \<in> set (children p d)"
  then obtain q where "(q, nd) \<in> set d" "q \<noteq> []" "butlast q = p" "last q = x" by (auto simp: children_def)
  then show "(p @ [x], nd) \<in> set d" using append_butlast_last_id [of q] by simp
next
  assume "(p @ [x], nd) \<in> set d"
  then show "(x, nd) \<in> set (children p d)" by (force simp: children_def)
qed

lemma extension_stem:
  assumes "isValidName r" "record_ext e"
  shows "extension_of (r @ e) = e" "stem_of (r @ e) = r"
proof -
  have "r \<noteq> []" using assms(1) by (simp add: isValidName_def)
  then have ext: "extension_of (r @ e) = e" using assms(2) by (cases r) (auto simp: record_ext_def extension_of_def)
  then show "extension_of (r @ e) = e" "stem_of (r @ e) = r" by (simp_all add: stem_of_def)
qed

lemma stem_extension: "stem_of nm @ extension_of nm = nm"
proof (cases "extension_of nm = []")
  case False
  let ?t = "takeWhile (\<lambda>c. c \<noteq> CHR ''.'') (rev nm)"
  have len: "length ?t + 1 < length nm" "extension_of nm = CHR ''.'' # rev ?t"
    using False by (auto simp: extension_of_def Let_def split: if_splits)
  let ?d = "dropWhile (\<lambda>c. c \<noteq> CHR ''.'') (rev nm)"
  have "?d \<noteq> []" using len(1) by (metis add_lessD1 append_Nil2 length_rev less_irrefl takeWhile_dropWhile_id)
  then have "?d = CHR ''.'' # tl ?d" using hd_dropWhile [of "\<lambda>c. c \<noteq> CHR ''.''" "rev nm"] by (cases ?d) auto
  then have "rev nm = ?t @ CHR ''.'' # tl ?d" by (metis takeWhile_dropWhile_id)
  then have "rev (rev nm) = rev (tl ?d) @ CHR ''.'' # rev ?t"
    by (metis append.assoc append_Cons append_Nil rev.simps(2) rev_append)
  then have nm: "nm = rev (tl ?d) @ extension_of nm" using len(2) by simp
  then have "stem_of nm = rev (tl ?d)" unfolding stem_of_def by (metis append_eq_conv_conj diff_add_inverse2 length_append)
  then show ?thesis using nm by simp
qed (simp add: stem_of_def)

lemma listRecords_set:
  assumes "\<not> host_fails h OpenDirectory (directoryPath fh)" "map_wf (disk w)"
  shows "set (listRecords h w fh) =
    {r. isValidName r \<and> (\<exists>e c. record_ext e \<and> map_of (disk w) (record_path fh r e) = Some (File c))}"
proof -
  have m: "(q, nd) \<in> set (disk w) \<longleftrightarrow> map_of (disk w) q = Some nd" for q nd
    using assms(2) by (simp add: map_wf_def)
  have known: "isKnownRecordExtension e \<longleftrightarrow> record_ext e" for e by (auto simp: isKnownRecordExtension_def record_ext_def)
  have "r \<in> set (listRecords h w fh) \<longleftrightarrow>
     (\<exists>nm nd. map_of (disk w) (directoryPath fh @ [nm]) = Some nd \<and> nd \<noteq> Dir \<and> record_ext (extension_of nm) \<and>
        isValidName (stem_of nm) \<and> r = stem_of nm)" for r
    using assms(1) by (auto simp: listRecords_def record_entry_def known children_iff m image_iff)
  moreover have "(\<exists>nm nd. map_of (disk w) (directoryPath fh @ [nm]) = Some nd \<and> nd \<noteq> Dir \<and> record_ext (extension_of nm) \<and>
        isValidName (stem_of nm) \<and> r = stem_of nm) \<longleftrightarrow> isValidName r \<and> (\<exists>e c. record_ext e \<and> map_of (disk w) (record_path fh r e) = Some (File c))" for r
    by (metis extension_stem stem_extension node.exhaust node.distinct(1) record_path_def)
  ultimately show ?thesis by auto
qed

text \<open>\<open>n\<close> calls of \<open>readNextRecord\<close> in a row.\<close>

fun readnext_calls :: "host \<Rightarrow> world \<Rightarrow> nat \<Rightarrow> FileHandle \<Rightarrow> string result list" where
  "readnext_calls h w 0 fh = []"
| "readnext_calls h w (Suc n) fh = (let (r, fh') = readNextRecord h w fh in r # readnext_calls h w n fh')"

lemma readnext_calls_primed:
  assumes "cursorPrimed fh"
  shows "readnext_calls h w n fh =
    map Inr (take n (drop (cursorIndex fh) (recordIds fh))) @
    replicate (n - (length (recordIds fh) - cursorIndex fh)) (Inl (FileSystemError ''cursor exhausted''))"
  using assms
proof (induction n arbitrary: fh)
  case (Suc n)
  show ?case
  proof (cases "cursorIndex fh < length (recordIds fh)")
    case True
    let ?fh = "fh\<lparr>cursorIndex := cursorIndex fh + 1\<rparr>"
    have "readNextRecord h w fh = (Inr (recordIds fh ! cursorIndex fh), ?fh)"
      using True Suc.prems by (simp add: readNextRecord_def)
    moreover have "drop (cursorIndex fh) (recordIds fh) = recordIds fh ! cursorIndex fh # drop (Suc (cursorIndex fh)) (recordIds fh)"
      using True by (simp add: Cons_nth_drop_Suc)
    moreover have "Suc n - (length (recordIds fh) - cursorIndex fh) = n - (length (recordIds fh) - Suc (cursorIndex fh))"
      using True by simp
    ultimately show ?thesis using Suc.IH [of ?fh] Suc.prems by simp
  next
    case False
    then show ?thesis using Suc by (simp add: readNextRecord_def)
  qed
qed simp

lemma readnext_calls_unprimed:
  "\<not> cursorPrimed fh \<Longrightarrow> readnext_calls h w n fh =
    readnext_calls h w n (fh\<lparr>recordIds := listRecords h w fh, cursorIndex := 0, cursorPrimed := True\<rparr>)"
  by (cases n) (simp_all add: readNextRecord_def)

text \<open>
  The \<open>READNEXT\<close> cursor enumerates the file.  From a freshly opened or reset handle, successive calls
  deliver every record of the file exactly once in ascending order and then report
  \<open>cursor exhausted\<close> for ever; the delivered ids are exactly the valid names with a record file in the
  directory.
\<close>

theorem readnext_enumerates:
  assumes "\<not> host_fails h OpenDirectory (directoryPath fh)" "map_wf (disk w)"
  shows "\<exists>ids. sorted_wrt (<) ids \<and>
    set ids = {r. isValidName r \<and> (\<exists>e c. record_ext e \<and> map_of (disk w) (record_path fh r e) = Some (File c))} \<and>
    (\<forall>n. readnext_calls h w n (resetReadNextCursor fh) =
       map Inr (take n ids) @ replicate (n - length ids) (Inl (FileSystemError ''cursor exhausted'')))"
proof (intro exI conjI allI)
  let ?ids = "listRecords h w fh"
  show "sorted_wrt (<) ?ids"
    by (simp add: listRecords_def strict_sorted_iff distinct_remdups_adj_sorted)
  show "set ?ids = {r. isValidName r \<and> (\<exists>e c. record_ext e \<and> map_of (disk w) (record_path fh r e) = Some (File c))}"
    by (rule listRecords_set [OF assms])
  have "listRecords h w (resetReadNextCursor fh) = ?ids" by (simp add: listRecords_def resetReadNextCursor_def)
  then show "readnext_calls h w n (resetReadNextCursor fh) =
       map Inr (take n ?ids) @ replicate (n - length ?ids) (Inl (FileSystemError ''cursor exhausted''))" for n
    by (subst readnext_calls_unprimed, simp add: resetReadNextCursor_def, subst readnext_calls_primed) simp_all
qed

theorem readnext_enumerates_witness:
  "\<exists>ids. set ids = {r. isValidName r \<and> (\<exists>e c. record_ext e \<and>
       map_of (disk sample_world) (record_path (file_handle (sample_fs ''S1'') ''BP'') r e) = Some (File c))} \<and>
     readnext_calls good_host sample_world 0 (resetReadNextCursor (file_handle (sample_fs ''S1'') ''BP'')) = []"
proof -
  have "map_wf (disk sample_world)" by (simp add: sample_world_def)
  then show ?thesis using readnext_enumerates [of good_host "file_handle (sample_fs ''S1'') ''BP''" sample_world] by auto
qed

section \<open>Sub-values and lost writes\<close>

lemma putValueAt_props:
  assumes "1 \<le> i" "vs \<noteq> []"
  shows "length (putValueAt i v vs) = max (length vs) (nat i)"
    "1 \<le> j \<Longrightarrow> j \<le> int (length (putValueAt i v vs)) \<Longrightarrow> putValueAt i v vs ! nat (j - 1) =
       (if j = i then v else if j \<le> int (length vs) then vs ! nat (j - 1) else [])"
    "set (putValueAt i v vs) \<subseteq> insert v (insert [] (set vs))"
proof -
  show len: "length (putValueAt i v vs) = max (length vs) (nat i)" using assms by (simp add: putValueAt_def Let_def)
  show "1 \<le> j \<Longrightarrow> j \<le> int (length (putValueAt i v vs)) \<Longrightarrow> putValueAt i v vs ! nat (j - 1) =
       (if j = i then v else if j \<le> int (length vs) then vs ! nat (j - 1) else [])"
    using assms unfolding len by (auto simp: putValueAt_def Let_def nth_list_update nth_append)
  show "set (putValueAt i v vs) \<subseteq> insert v (insert [] (set vs))"
    using assms by (auto simp: putValueAt_def Let_def dest!: set_update_subset_insert [THEN subsetD])
qed

lemma valueAt_putValueAt:
  assumes "1 \<le> i" "kValueMark \<notin> set v"
  shows "valueAt (RecordAttribute (joinValues (putValueAt i v (splitValues a)))) j = (if j = i then v else valueAt a j)"
proof -
  let ?vs = "splitValues a"
  have vs: "?vs \<noteq> []" "mark_free ?vs" using splitValues_mark_free [of a] by (auto simp: mark_free_def)
  note pv = putValueAt_props [OF assms(1) vs(1), where v = v]
  have "mark_free (putValueAt i v ?vs)"
    using pv(1,3) vs assms unfolding mark_free_def by (auto simp: subset_iff)
  from valueAt_joinValues [OF this, of j] pv(1) pv(2) [where j = j] assms(1) show ?thesis
    by (auto simp: valueAt_def Let_def)
qed

text \<open>
  Writing one value of one attribute.  On a store in shape, for an attribute number up to one beyond the
  last and a positive value index, \<open>writeSubvalue\<close> of a value without marks succeeds, and afterwards
  \<open>readSubvalue\<close> delivers the new value at that index and every other value of the attribute, and every
  value of every other attribute, as before.
\<close>

theorem subvalue_write_read:
  assumes "store_inv h fs w" "store_adm fs w f r" "readFS h fs w f r = Inr old"
    and "1 \<le> k" "k \<le> int (length (existing_structured old)) + 1" "1 \<le> i"
    and "LF \<notin> set v" "kValueMark \<notin> set v"
  shows "\<exists>w'. writeSubvalue h fs f r k i v w = (Inr (), w') \<and>
    (\<forall>k' j. readSubvalue h fs w' f r k' j =
       Inr (Some (if k' = k \<and> j = i then v else valueAt (attribute (existing_structured old) k') j)))"
proof -
  let ?s = "case old of None \<Rightarrow> [] | Some rec \<Rightarrow> recValue rec"
  let ?a = "attribute (fromRaw ?s) k"
  let ?vs = "joinValues (putValueAt i v (splitValues ?a))"
  let ?new = "put_raw_attribute k ?vs ?s"
  have ex: "existing_structured old = fromRaw ?s"
    by (cases old) (simp_all add: existing_structured_def fromRaw_def)
  have len: "length (fromRaw ?s) = length (raw_attributes ?s)" by (simp add: fromRaw_eq numbered_def)
  have "set ?vs \<subseteq> set v \<union> set (raw ?a) \<union> {kValueMark}"
  proof -
    have "set (join_with d vs) \<subseteq> insert d (\<Union>p \<in> set vs. set p)" for d vs
      by (induction d vs rule: join_with.induct) auto
    from this [of kValueMark "splitValues ?a"] this [of kValueMark "putValueAt i v (splitValues ?a)"]
    have j: "set ?vs \<subseteq> insert kValueMark (\<Union>p \<in> set (putValueAt i v (splitValues ?a)). set p)" by (simp add: joinValues_eq)
    have p: "set p \<subseteq> set (raw ?a)" if "p \<in> set (splitValues ?a)" for p
    proof -
      have "p \<in> set vs \<Longrightarrow> set p \<subseteq> set (join_with d vs)" for d vs
        by (induction d vs rule: join_with.induct) auto
      from this [OF that, of kValueMark] show ?thesis by (simp add: splitValues_eq)
    qed
    have "splitValues ?a \<noteq> []" using splitValues_mark_free [of ?a] by (simp add: mark_free_def)
    from putValueAt_props(3) [OF assms(6) this, of v] j p show ?thesis by fastforce
  qed
  moreover have "LF \<notin> set (raw ?a)" by (simp add: attribute_attr_of attr_of_no_LF)
  ultimately have lf: "LF \<notin> set ?vs" using assms(7) by (auto simp: kValueMark_def)
  obtain w' where w': "writeFS h fs f (mkRecord r ?new) w = (Inr (), w')"
    using write_succeeds [OF assms(1), of f "mkRecord r ?new"] assms(2) by auto
  have "readFS h fs w' f r = Inr (Some (mkRecord r ?new))"
    using read_written [OF w'] assms(1) by (simp add: store_inv_def written_content_def)
  then have "readSubvalue h fs w' f r k' j =
      Inr (Some (if k' = k \<and> j = i then v else valueAt (attribute (fromRaw ?s) k') j))" for k' j
    using attribute_put [OF assms(4) lf, of ?s k'] assms(5) len valueAt_putValueAt [OF assms(6,8), of ?a j]
    by (auto simp: readSubvalue_def ex)
  moreover have "writeSubvalue h fs f r k i v w = (Inr (), w')"
    using assms(3,6) w' by (simp add: writeSubvalue_def ex put_raw_attribute_def Let_def)
  ultimately show ?thesis using ex by auto
qed

theorem subvalue_write_read_witness:
  "\<exists>w'. writeSubvalue good_host (sample_fs ''S1'') ''BP'' ''HELLO'' 2 3 ''X'' sample_world = (Inr (), w') \<and>
     readSubvalue good_host (sample_fs ''S1'') w' ''BP'' ''HELLO'' 2 3 = Inr (Some ''X'')"
proof -
  have "store_adm (sample_fs ''S1'') sample_world ''BP'' ''HELLO''"
    "readFS good_host (sample_fs ''S1'') sample_world ''BP'' ''HELLO'' = Inr (Some (mkRecord ''HELLO'' ''PRINT 1''))"
    "2 \<le> int (length (existing_structured (Some (mkRecord ''HELLO'' ''PRINT 1'')))) + 1"
    "LF \<notin> set ''X''" "kValueMark \<notin> set ''X''"
    by code_simp+
  then show ?thesis using subvalue_write_read [OF sample_store_inv, where k = 2 and i = 3] by fastforce
qed

text \<open>
  A write error at the end of the stream is lost.  \<open>writeRecord\<close> tests the stream before its destructor
  flushes it: when the host refuses bytes at that point, the write still reports success, the
  truncated temporary file replaces the record, and the next read returns only the bytes that
  reached the disk.
\<close>

theorem close_failure_truncates:
  assumes "writeFS h fs f rec w = (Inr (), w')"
    and "\<forall>p. host_fails h StreamClose p \<and> host_written h p = n"
    and "\<forall>p. \<not> host_fails h Exists p \<and> \<not> host_fails h OpenRead p"
  shows "readFS h fs w' f (recName rec) = Inr (Some (mkRecord (recName rec) (take n (recValue rec))))"
  using read_written [OF assms(1)] assms(2,3) by (simp add: written_content_def)

definition full_disk_host :: host where
  "full_disk_host = good_host\<lparr>host_fails := (\<lambda>x p. x = StreamClose)\<rparr>"

theorem close_failure_truncates_witness:
  "\<exists>w'. writeFS full_disk_host (sample_fs ''S1'') ''BP'' (mkRecord ''HELLO'' ''PRINT 2'') sample_world = (Inr (), w') \<and>
     readFS full_disk_host (sample_fs ''S1'') w' ''BP'' ''HELLO'' = Inr (Some (mkRecord ''HELLO'' []))"
proof -
  let ?rec = "mkRecord ''HELLO'' ''PRINT 2''"
  let ?w = "writeFS full_disk_host (sample_fs ''S1'') ''BP'' ?rec sample_world"
  have "fst ?w = Inr ()" by code_simp
  then have w: "?w = (Inr (), snd ?w)" by (metis prod.collapse)
  then have "readFS full_disk_host (sample_fs ''S1'') (snd ?w) ''BP'' (recName ?rec) = Inr (Some (mkRecord (recName ?rec) (take 0 (recValue ?rec))))"
    by (rule close_failure_truncates) (simp_all add: full_disk_host_def good_host_def)
  then show ?thesis using w by (intro exI [of _ "snd ?w"]) simp
qed

end
