(* ===== verification/Doubles.thy ===== *)
theory Doubles
  imports Prelude Complex_Main
begin

text \<open>
  The C++ type \<open>double\<close> as IEEE 754 binary64 with rounding to nearest, ties to even.  A finite value is a
  sign, a mantissa below \<open>2 ^ 53\<close> and the exponent of its unit in the last place, in the normal form
  that makes the representation unique; the exact result of an operation is a fraction \<open>n / d * 2 ^ e\<close>
  that \<open>dbl_round\<close> rounds.  On top of it stand the routines of the C++ library the sources call on
  doubles: \<open>strtod\<close> and \<open>stod\<close> (decimal, hexadecimal, infinity and NaN syntax, and the range error that
  \<open>errno\<close> reports), the stream output with a given precision (the \<open>%g\<close> format), \<open>floor\<close> on the
  question the sources ask, the conversion to \<open>int\<close>, and \<open>fmod\<close>.  The sign and the payload of a
  NaN, which the language leaves open, are not modelled.
\<close>

datatype double = DFinite bool nat int | DInf bool | DNaN

section \<open>Rounding\<close>

fun bit_length :: "nat \<Rightarrow> nat" where
  "bit_length n = (if n = 0 then 0 else Suc (bit_length (n div 2)))"

declare bit_length.simps [simp del]

definition round_half_even :: "nat \<Rightarrow> nat \<Rightarrow> nat" where
  "round_half_even n d =
     (let q = n div d; r = n mod d
      in if 2 * r < d then q else if d < 2 * r then Suc q else if even q then q else Suc q)"

text \<open>The fraction \<open>n / d * 2 ^ k\<close> as a numerator and a denominator.\<close>

definition scale2 :: "nat \<Rightarrow> nat \<Rightarrow> int \<Rightarrow> nat \<times> nat" where
  "scale2 n d k = (if 0 \<le> k then (n * 2 ^ nat k, d) else (n, d * 2 ^ nat (- k)))"

text \<open>The exponent \<open>l\<close> with \<open>2 ^ l \<le> n / d < 2 ^ (l + 1)\<close>.\<close>

definition flog2 :: "nat \<Rightarrow> nat \<Rightarrow> int" where
  "flog2 n d =
     (let k = int (bit_length n) - int (bit_length d);
          (n', d') = scale2 n d (- k)
      in if d' \<le> n' then k else k - 1)"

definition round_at :: "nat \<Rightarrow> nat \<Rightarrow> int \<Rightarrow> int \<Rightarrow> nat" where
  "round_at n d e x = (let (n', d') = scale2 n d (e - x) in round_half_even n' d')"

definition dbl_zero :: "bool \<Rightarrow> double" where
  "dbl_zero s = DFinite s 0 (- 1074)"

definition dbl_round :: "bool \<Rightarrow> nat \<Rightarrow> nat \<Rightarrow> int \<Rightarrow> double" where
  "dbl_round s n d e =
     (if n = 0 then dbl_zero s
      else let x = max (flog2 n d + e - 52) (- 1074);
               m = round_at n d e x;
               m' = (if m = 2 ^ 53 then 2 ^ 52 else m);
               x' = (if m = 2 ^ 53 then x + 1 else x)
           in if 971 < x' then DInf s else DFinite s m' x')"

text \<open>Does rounding lose anything, and is the value below the smallest normal number?\<close>

definition dbl_inexact :: "nat \<Rightarrow> nat \<Rightarrow> int \<Rightarrow> bool" where
  "dbl_inexact n d e =
     (let x = max (flog2 n d + e - 52) (- 1074); (n', d') = scale2 n d (e - x) in n' mod d' \<noteq> 0)"

definition dbl_tiny :: "nat \<Rightarrow> nat \<Rightarrow> int \<Rightarrow> bool" where
  "dbl_tiny n d e =
     (let l = flog2 n d + e
      in l < - 1023 \<or> (l = - 1023 \<and> round_at n d e (l - 52) \<noteq> 2 ^ 53))"

definition dbl_wf :: "double \<Rightarrow> bool" where
  "dbl_wf d = (case d of
       DFinite s m x \<Rightarrow> m < 2 ^ 53 \<and> - 1074 \<le> x \<and> x \<le> 971 \<and> (2 ^ 52 \<le> m \<or> x = - 1074)
     | DInf _ \<Rightarrow> True | DNaN \<Rightarrow> True)"

section \<open>Arithmetic and comparison\<close>

definition dbl_of_int :: "int \<Rightarrow> double" where
  "dbl_of_int i = dbl_round (i < 0) (nat \<bar>i\<bar>) 1 0"

text \<open>The signed integer \<open>v / 2 ^ e\<close> of a finite value \<open>v = \<plusminus> m * 2 ^ x\<close>, for \<open>e \<le> x\<close>.\<close>

definition dbl_align :: "bool \<Rightarrow> nat \<Rightarrow> int \<Rightarrow> int \<Rightarrow> int" where
  "dbl_align s m x e = signed_of s (m * 2 ^ nat (x - e))"

fun dbl_neg :: "double \<Rightarrow> double" where
  "dbl_neg (DFinite s m x) = DFinite (\<not> s) m x"
| "dbl_neg (DInf s) = DInf (\<not> s)"
| "dbl_neg DNaN = DNaN"

fun dbl_add :: "double \<Rightarrow> double \<Rightarrow> double" where
  "dbl_add DNaN _ = DNaN"
| "dbl_add _ DNaN = DNaN"
| "dbl_add (DInf s) (DInf t) = (if s = t then DInf s else DNaN)"
| "dbl_add (DInf s) (DFinite _ _ _) = DInf s"
| "dbl_add (DFinite _ _ _) (DInf t) = DInf t"
| "dbl_add (DFinite s m x) (DFinite t n y) =
     (let e = min x y; v = dbl_align s m x e + dbl_align t n y e
      in if v = 0 then dbl_zero (s \<and> t) else dbl_round (v < 0) (nat \<bar>v\<bar>) 1 e)"

definition dbl_sub :: "double \<Rightarrow> double \<Rightarrow> double" where
  "dbl_sub a b = dbl_add a (dbl_neg b)"

fun dbl_mul :: "double \<Rightarrow> double \<Rightarrow> double" where
  "dbl_mul DNaN _ = DNaN"
| "dbl_mul _ DNaN = DNaN"
| "dbl_mul (DInf s) (DInf t) = DInf (s \<noteq> t)"
| "dbl_mul (DInf s) (DFinite t n y) = (if n = 0 then DNaN else DInf (s \<noteq> t))"
| "dbl_mul (DFinite s m x) (DInf t) = (if m = 0 then DNaN else DInf (s \<noteq> t))"
| "dbl_mul (DFinite s m x) (DFinite t n y) = dbl_round (s \<noteq> t) (m * n) 1 (x + y)"

fun dbl_div :: "double \<Rightarrow> double \<Rightarrow> double" where
  "dbl_div DNaN _ = DNaN"
| "dbl_div _ DNaN = DNaN"
| "dbl_div (DInf s) (DInf t) = DNaN"
| "dbl_div (DInf s) (DFinite t n y) = DInf (s \<noteq> t)"
| "dbl_div (DFinite s m x) (DInf t) = dbl_zero (s \<noteq> t)"
| "dbl_div (DFinite s m x) (DFinite t n y) =
     (if n = 0 then (if m = 0 then DNaN else DInf (s \<noteq> t)) else dbl_round (s \<noteq> t) m n (x - y))"

fun dbl_less :: "double \<Rightarrow> double \<Rightarrow> bool" where
  "dbl_less DNaN _ = False"
| "dbl_less _ DNaN = False"
| "dbl_less (DInf s) (DInf t) = (s \<and> \<not> t)"
| "dbl_less (DInf s) (DFinite _ _ _) = s"
| "dbl_less (DFinite _ _ _) (DInf t) = (\<not> t)"
| "dbl_less (DFinite s m x) (DFinite t n y) =
     (let e = min x y in dbl_align s m x e < dbl_align t n y e)"

fun dbl_eq :: "double \<Rightarrow> double \<Rightarrow> bool" where
  "dbl_eq DNaN _ = False"
| "dbl_eq _ DNaN = False"
| "dbl_eq (DInf s) (DInf t) = (s = t)"
| "dbl_eq (DInf s) (DFinite _ _ _) = False"
| "dbl_eq (DFinite _ _ _) (DInf t) = False"
| "dbl_eq (DFinite s m x) (DFinite t n y) =
     (let e = min x y in dbl_align s m x e = dbl_align t n y e)"

definition dbl_le :: "double \<Rightarrow> double \<Rightarrow> bool" where
  "dbl_le a b \<longleftrightarrow> dbl_less a b \<or> dbl_eq a b"

text \<open>\<open>d == std::floor(d)\<close>.\<close>

fun dbl_is_integer :: "double \<Rightarrow> bool" where
  "dbl_is_integer (DFinite s m x) = (0 \<le> x \<or> m mod 2 ^ nat (- x) = 0)"
| "dbl_is_integer (DInf s) = True"
| "dbl_is_integer DNaN = False"

text \<open>The integer part, toward zero.\<close>

definition dbl_trunc :: "bool \<Rightarrow> nat \<Rightarrow> int \<Rightarrow> int" where
  "dbl_trunc s m x = signed_of s (if 0 \<le> x then m * 2 ^ nat x else m div 2 ^ nat (- x))"

text \<open>\<open>static_cast<int>(d)\<close>: undefined unless the integer part is an \<open>int\<close>.\<close>

fun dbl_to_int :: "double \<Rightarrow> int result" where
  "dbl_to_int (DFinite s m x) = checked_int (dbl_trunc s m x)"
| "dbl_to_int (DInf s) = Inl UndefinedBehaviour"
| "dbl_to_int DNaN = Inl UndefinedBehaviour"

fun dbl_fmod :: "double \<Rightarrow> double \<Rightarrow> double" where
  "dbl_fmod (DFinite s m x) (DFinite t n y) =
     (if n = 0 then DNaN
      else let e = min x y in dbl_round s (m * 2 ^ nat (x - e) mod (n * 2 ^ nat (y - e))) 1 e)"
| "dbl_fmod (DFinite s m x) (DInf t) = DFinite s m x"
| "dbl_fmod _ _ = DNaN"

section \<open>Reading: \<open>strtod\<close> and \<open>stod\<close>\<close>

text \<open>A correctly rounded conversion with the range error of \<open>errno\<close>.\<close>

definition dbl_convert :: "bool \<Rightarrow> nat \<Rightarrow> nat \<Rightarrow> int \<Rightarrow> double \<times> bool" where
  "dbl_convert s n d e =
     (let v = dbl_round s n d e
      in (v, n \<noteq> 0 \<and> ((case v of DInf _ \<Rightarrow> True | _ \<Rightarrow> False) \<or> dbl_tiny n d e \<and> dbl_inexact n d e)))"

definition hex_value :: "char \<Rightarrow> nat option" where
  "hex_value c =
     (if isdigit c then Some (code_of c - 48)
      else if 97 \<le> code_of c \<and> code_of c \<le> 102 then Some (code_of c - 87)
      else if 65 \<le> code_of c \<and> code_of c \<le> 70 then Some (code_of c - 55)
      else None)"

definition ishex :: "char \<Rightarrow> bool" where
  "ishex c \<longleftrightarrow> hex_value c \<noteq> None"

definition nat_of_hex :: "string \<Rightarrow> nat" where
  "nat_of_hex ds = foldl (\<lambda>n c. 16 * n + (case hex_value c of Some v \<Rightarrow> v | None \<Rightarrow> 0)) 0 ds"

text \<open>
  Digits, an optional point and more digits: the integer digits, the fraction digits and the rest,
  or \<open>None\<close> when there is no digit at all.
\<close>

definition scan_mantissa :: "(char \<Rightarrow> bool) \<Rightarrow> string \<Rightarrow> (string \<times> string \<times> string) option" where
  "scan_mantissa dig s =
     (let ip = takeWhile dig s; r = dropWhile dig s
      in case r of
           c # r' \<Rightarrow>
             if c = CHR ''.''
             then (let fp = takeWhile dig r'
                   in if ip = [] \<and> fp = [] then None else Some (ip, fp, dropWhile dig r'))
             else if ip = [] then None else Some (ip, [], r)
         | [] \<Rightarrow> if ip = [] then None else Some (ip, [], r))"

text \<open>An exponent part, which is read only when it has digits.\<close>

definition scan_exponent :: "char \<Rightarrow> string \<Rightarrow> int \<times> string" where
  "scan_exponent mark s =
     (case s of
        c # r \<Rightarrow>
          if tolower c = mark
          then (let (neg, t) = take_sign r; ds = takeWhile isdigit t
                in if ds = [] then (0, s) else (signed_of neg (nat_of_digits ds), dropWhile isdigit t))
          else (0, s)
      | [] \<Rightarrow> (0, s))"

definition strtod_decimal :: "bool \<Rightarrow> string \<Rightarrow> (double \<times> string \<times> bool) option" where
  "strtod_decimal neg s =
     (case scan_mantissa isdigit s of None \<Rightarrow> None
      | Some (ip, fp, r) \<Rightarrow>
          let (ex, r') = scan_exponent CHR ''e'' r;
              n = nat_of_digits (ip @ fp);
              k = ex - int (length fp);
              (v, erange) = (if 0 \<le> k then dbl_convert neg (n * 10 ^ nat k) 1 0
                             else dbl_convert neg n (10 ^ nat (- k)) 0)
          in Some (v, r', erange))"

definition strtod_hex :: "bool \<Rightarrow> string \<Rightarrow> (double \<times> string \<times> bool) option" where
  "strtod_hex neg s =
     (case scan_mantissa ishex s of None \<Rightarrow> None
      | Some (ip, fp, r) \<Rightarrow>
          let (ex, r') = scan_exponent CHR ''p'' r;
              (v, erange) = dbl_convert neg (nat_of_hex (ip @ fp)) 1 (ex - 4 * int (length fp))
          in Some (v, r', erange))"

definition starts_with_ci :: "string \<Rightarrow> string \<Rightarrow> bool" where
  "starts_with_ci w s \<longleftrightarrow> lowerCopy (take (length w) s) = w"

definition nan_tail :: "string \<Rightarrow> string" where
  "nan_tail s =
     (case s of
        c # r \<Rightarrow>
          (let r' = dropWhile (\<lambda>c. isdigit c \<or> c = CHR ''_'' \<or> (97 \<le> code_of (tolower c) \<and> code_of (tolower c) \<le> 122)) r
           in if c = CHR ''('' \<and> r' \<noteq> [] \<and> hd r' = CHR '')'' then tl r' else s)
      | [] \<Rightarrow> s)"

text \<open>
  \<open>strtod\<close> in the C locale: the value, the unread rest and whether \<open>errno\<close> is set to \<open>ERANGE\<close>, or
  \<open>None\<close> when no conversion can be performed.
\<close>

definition strtod :: "string \<Rightarrow> (double \<times> string \<times> bool) option" where
  "strtod s =
     (let (neg, t) = take_sign (dropWhile isspace s)
      in if starts_with_ci ''infinity'' t then Some (DInf neg, drop 8 t, False)
         else if starts_with_ci ''inf'' t then Some (DInf neg, drop 3 t, False)
         else if starts_with_ci ''nan'' t then Some (DNaN, nan_tail (drop 3 t), False)
         else if starts_with_ci ''0x'' t
         then (case strtod_hex neg (drop 2 t) of
                 Some r \<Rightarrow> Some r
               | None \<Rightarrow> strtod_decimal neg t)
         else strtod_decimal neg t)"

definition stod :: "string \<Rightarrow> (double \<times> string) result" where
  "stod s = (case strtod s of None \<Rightarrow> Inl (InvalidArgument ''stod'')
     | Some (v, r, erange) \<Rightarrow> if erange then Inl (OutOfRange ''stod'') else Inr (v, r))"

section \<open>Writing: stream output with a precision\<close>

text \<open>The decimal exponent \<open>l\<close> with \<open>10 ^ l \<le> n / d < 10 ^ (l + 1)\<close>.\<close>

definition scale10 :: "nat \<Rightarrow> nat \<Rightarrow> int \<Rightarrow> nat \<times> nat" where
  "scale10 n d k = (if 0 \<le> k then (n * 10 ^ nat k, d) else (n, d * 10 ^ nat (- k)))"

definition flog10 :: "nat \<Rightarrow> nat \<Rightarrow> int" where
  "flog10 n d =
     (let k = int (length (show_nat n)) - int (length (show_nat d));
          (n', d') = scale10 n d (- k)
      in if d' \<le> n' then k else k - 1)"

definition strip_zeros :: "string \<Rightarrow> string" where
  "strip_zeros ds = rev (dropWhile (\<lambda>c. c = CHR ''0'') (rev ds))"

definition with_point :: "string \<Rightarrow> string \<Rightarrow> string" where
  "with_point ip fp = (if fp = [] then ip else ip @ CHR ''.'' # fp)"

definition show_exponent :: "int \<Rightarrow> string" where
  "show_exponent x =
     (let ds = show_nat (nat \<bar>x\<bar>)
      in (if x < 0 then ''e-'' else ''e+'') @ (if length ds < 2 then CHR ''0'' # ds else ds))"

text \<open>The \<open>%g\<close> format with precision \<open>p\<close> of the positive value \<open>n / d\<close>.\<close>

definition format_g :: "nat \<Rightarrow> nat \<Rightarrow> nat \<Rightarrow> string" where
  "format_g p n d =
     (let x = flog10 n d;
          (n', d') = scale10 n d (int p - 1 - x);
          v = round_half_even n' d';
          x' = (if v = 10 ^ p then x + 1 else x);
          ds = show_nat (if v = 10 ^ p then 10 ^ (p - 1) else v)
      in if x' < - 4 \<or> int p \<le> x'
         then with_point (take 1 ds) (strip_zeros (drop 1 ds)) @ show_exponent x'
         else if 0 \<le> x'
         then with_point (take (nat x' + 1) ds) (strip_zeros (drop (nat x' + 1) ds))
         else with_point ''0'' (strip_zeros (replicate (nat (- x') - 1) CHR ''0'' @ ds)))"

text \<open>\<open>out << std::setprecision(p) << v\<close>.\<close>

fun show_double :: "nat \<Rightarrow> double \<Rightarrow> string" where
  "show_double p (DFinite s m x) =
     (if s then ''-'' else []) @ (if m = 0 then ''0'' else let (n, d) = scale2 m 1 x in format_g p n d)"
| "show_double p (DInf s) = (if s then ''-inf'' else ''inf'')"
| "show_double p DNaN = ''nan''"

section \<open>Correctness of rounding\<close>

lemma bit_length_0 [simp]: "bit_length 0 = 0"
  by (simp add: bit_length.simps)

lemma bit_length_1 [simp]: "bit_length (Suc 0) = 1"
  by (simp add: bit_length.simps [of "Suc 0"])

lemma bit_length_bounds: "0 < n \<Longrightarrow> 2 ^ (bit_length n - 1) \<le> n \<and> n < 2 ^ bit_length n"
proof (induction n rule: bit_length.induct)
  case (1 n)
  show ?case
  proof (cases "n = 1")
    case True
    then show ?thesis by simp
  next
    case False
    with 1 have IH: "2 ^ (bit_length (n div 2) - 1) \<le> n div 2 \<and> n div 2 < 2 ^ bit_length (n div 2)"
      by simp
    obtain j where j: "bit_length (n div 2) = Suc j"
      using False "1.prems" by (cases "bit_length (n div 2)") (auto simp: bit_length.simps [of "n div 2"] split: if_splits)
    have "bit_length n = Suc (bit_length (n div 2))" using "1.prems" by (simp add: bit_length.simps [of n])
    with IH j show ?thesis by auto
  qed
qed

lemma bit_length_pos: "0 < n \<Longrightarrow> 0 < bit_length n"
  by (simp add: bit_length.simps)

lemma bit_length_unique:
  assumes "2 ^ k \<le> n" "n < 2 ^ Suc k"
  shows "bit_length n = Suc k"
proof -
  have n: "0 < n" using assms(1) by (metis gr0I not_less zero_less_numeral zero_less_power)
  have b: "2 ^ (bit_length n - 1) \<le> n" "n < 2 ^ bit_length n" using bit_length_bounds [OF n] by auto
  have "k < bit_length n" using assms(1) b(2) by (metis le_less_trans nat_power_less_imp_less pos2)
  moreover have "bit_length n - 1 < Suc k"
    using assms(2) b(1) by (metis le_less_trans nat_power_less_imp_less pos2)
  ultimately show ?thesis by linarith
qed

lemma bit_length_le: "n < 2 ^ k \<Longrightarrow> bit_length n \<le> k"
proof (cases "n = 0")
  case False
  assume "n < 2 ^ k"
  moreover have "2 ^ (bit_length n - 1) \<le> n" using False bit_length_bounds [of n] by simp
  ultimately have "(2::nat) ^ (bit_length n - 1) < 2 ^ k" by linarith
  then have "bit_length n - 1 < k" by (rule power_less_imp_less_exp [rotated]) simp
  then show ?thesis by simp
qed simp

lemma bit_length_mult_power: "0 < n \<Longrightarrow> bit_length (n * 2 ^ k) = bit_length n + k"
proof -
  assume n: "0 < n"
  then obtain j where j: "bit_length n = Suc j" using bit_length_pos by (metis Suc_pred)
  then have "2 ^ j \<le> n" "n < 2 ^ Suc j" using bit_length_bounds [OF n] by simp_all
  then have "2 ^ (j + k) \<le> n * 2 ^ k" "n * 2 ^ k < 2 ^ Suc (j + k)" by (simp_all add: power_add)
  then show ?thesis using bit_length_unique j by fastforce
qed

lemma bit_length_real:
  assumes "0 < n"
  shows "2 powi (int (bit_length n) - 1) \<le> real n" "real n < 2 powi int (bit_length n)"
proof -
  obtain j where j: "bit_length n = Suc j" using bit_length_pos [OF assms] by (metis Suc_pred)
  then have "2 ^ j \<le> n" "n < 2 ^ Suc j" using bit_length_bounds [OF assms] by simp_all
  then have "real (2 ^ j) \<le> real n" "real n < real (2 ^ Suc j)" by (simp_all only: of_nat_le_iff of_nat_less_iff)
  moreover have "(2::real) powi (int (bit_length n) - 1) = 2 ^ j" "(2::real) powi int (bit_length n) = 2 ^ Suc j"
    using j by (simp_all add: power_int_def nat_add_distrib)
  ultimately show "2 powi (int (bit_length n) - 1) \<le> real n" "real n < 2 powi int (bit_length n)"
    by simp_all
qed

lemma scale2_value:
  assumes "scale2 n d k = (n', d')" "0 < d"
  shows "0 < d'" "real n' / real d' = real n / real d * 2 powi k"
  using assms
  by (auto simp: scale2_def power_int_def field_simps split: if_splits)

lemma round_half_even_bounds:
  assumes "0 < d"
  shows "real k \<le> real n / real d \<Longrightarrow> k \<le> round_half_even n d"
    and "real n / real d \<le> real k \<Longrightarrow> round_half_even n d \<le> k"
proof -
  assume "real k \<le> real n / real d"
  then have "k * d \<le> n" using assms by (simp add: pos_le_divide_eq flip: of_nat_mult)
  then have "k \<le> n div d" using assms by (simp add: less_eq_div_iff_mult_less_eq)
  then show "k \<le> round_half_even n d" by (simp add: round_half_even_def Let_def)
next
  assume "real n / real d \<le> real k"
  then have k: "n \<le> k * d" using assms by (simp add: pos_divide_le_eq flip: of_nat_mult)
  have "n = n div d * d + n mod d" by simp
  show "round_half_even n d \<le> k"
  proof (cases "n mod d = 0")
    case True
    then have "n div d \<le> k" using k assms by (metis div_le_mono div_mult_self_is_m mult.commute)
    with True assms show ?thesis by (simp add: round_half_even_def Let_def)
  next
    case False
    have "n div d < k"
    proof (rule ccontr)
      assume "\<not> n div d < k"
      then have "k * d \<le> n div d * d" by (simp add: not_less)
      with k False show False using \<open>n = n div d * d + n mod d\<close> by linarith
    qed
    then show ?thesis by (simp add: round_half_even_def Let_def)
  qed
qed

lemma round_half_even_exact: "0 < d \<Longrightarrow> round_half_even (k * d) d = k"
  by (simp add: round_half_even_def)

lemma le_pow2_shift: "(1::real) \<le> y * 2 powi (- k) \<longleftrightarrow> 2 powi k \<le> y"
  by (simp add: power_int_minus field_simps)

lemma round_half_even_1 [simp]: "round_half_even n (Suc 0) = n"
  by (simp add: round_half_even_def)

lemma flog2_bounds:
  assumes "0 < n" "0 < d"
  shows "2 powi flog2 n d \<le> real n / real d \<and> real n / real d < 2 powi (flog2 n d + 1)"
proof -
  let ?k = "int (bit_length n) - int (bit_length d)"
  obtain n' d' where nd: "scale2 n d (- ?k) = (n', d')" by (cases "scale2 n d (- ?k)") auto
  note v = scale2_value [OF nd assms(2)]
  note n = bit_length_real [OF assms(1)] and d = bit_length_real [OF assms(2)]
  have "real n / real d < 2 powi (?k + 1)"
  proof -
    have "2 powi (?k + 1) * 2 powi (int (bit_length d) - 1) = (2::real) powi int (bit_length n)"
      by (subst power_int_add [symmetric]) (auto)
    then have "real n < 2 powi (?k + 1) * 2 powi (int (bit_length d) - 1)" using n by simp
    also have "\<dots> \<le> 2 powi (?k + 1) * real d" using d by (intro mult_left_mono) auto
    finally show ?thesis using assms(2) by (simp add: pos_divide_less_eq)
  qed
  moreover have "2 powi (?k - 1) < real n / real d"
  proof -
    have "2 powi (?k - 1) * real d < 2 powi (?k - 1) * 2 powi int (bit_length d)"
      using d by (intro mult_strict_left_mono) auto
    also have "\<dots> = (2::real) powi (int (bit_length n) - 1)"
      by (subst power_int_add [symmetric]) (auto)
    finally show ?thesis using n(1) assms(2) by (simp add: pos_less_divide_eq)
  qed
  moreover have "d' \<le> n' \<longleftrightarrow> 2 powi ?k \<le> real n / real d"
  proof -
    have "d' \<le> n' \<longleftrightarrow> 1 \<le> real n' / real d'" using v(1) by simp
    also have "\<dots> \<longleftrightarrow> 1 \<le> real n / real d * 2 powi (- ?k)" using v(2) by simp
    also have "\<dots> \<longleftrightarrow> 2 powi ?k \<le> real n / real d"
      by (rule le_pow2_shift)
    finally show ?thesis .
  qed
  ultimately show ?thesis using nd by (auto simp: flog2_def)
qed

lemma round_at_bounds:
  assumes "0 < d"
  shows "real k \<le> real n / real d * 2 powi (e - x) \<Longrightarrow> k \<le> round_at n d e x"
    and "real n / real d * 2 powi (e - x) \<le> real k \<Longrightarrow> round_at n d e x \<le> k"
proof -
  obtain n' d' where nd: "scale2 n d (e - x) = (n', d')" by (cases "scale2 n d (e - x)") auto
  note v = scale2_value [OF nd assms]
  show "real k \<le> real n / real d * 2 powi (e - x) \<Longrightarrow> k \<le> round_at n d e x"
    and "real n / real d * 2 powi (e - x) \<le> real k \<Longrightarrow> round_at n d e x \<le> k"
    using round_half_even_bounds [OF v(1)] v(2) nd by (auto simp: round_at_def)
qed

lemma dbl_round_wf:
  assumes "0 < d"
  shows "dbl_wf (dbl_round s n d e)"
proof (cases "n = 0")
  case True
  then show ?thesis by (simp add: dbl_round_def dbl_zero_def dbl_wf_def)
next
  case False
  define l where "l = flog2 n d"
  define x where "x = max (l + e - 52) (- 1074)"
  have n: "0 < n" using False by simp
  have lo: "2 powi l \<le> real n / real d" and hi: "real n / real d < 2 powi (l + 1)"
    using flog2_bounds [OF n assms] by (auto simp: l_def)
  have "real n / real d * 2 powi (e - x) \<le> 2 powi (l + 1) * 2 powi (e - x)"
    using hi by (intro mult_right_mono) auto
  also have "\<dots> = (2::real) powi (l + 1 + (e - x))" by (subst power_int_add) auto
  also have "\<dots> \<le> 2 powi 53" by (rule power_int_increasing) (auto simp: x_def)
  finally have up: "round_at n d e x \<le> 2 ^ 53"
    using round_at_bounds(2) [OF assms, of n e x "2 ^ 53"] by (simp add: power_int_def)
  have low: "2 ^ 52 \<le> round_at n d e x" if "x = l + e - 52"
  proof -
    have "(2::real) powi 52 = 2 powi (l + (e - x))" using that by simp
    also have "\<dots> = 2 powi l * 2 powi (e - x)" by (subst power_int_add) auto
    also have "\<dots> \<le> real n / real d * 2 powi (e - x)" using lo by (intro mult_right_mono) auto
    finally show ?thesis
      using round_at_bounds(1) [OF assms, of "2 ^ 52" n e x] by (simp add: power_int_def)
  qed
  have "x = l + e - 52 \<or> x = - 1074" "- 1074 \<le> x" by (auto simp: x_def)
  then show ?thesis
    using False up low
    by (auto simp: dbl_round_def dbl_wf_def Let_def simp flip: l_def x_def)
qed

lemma dbl_zero_wf [simp]: "dbl_wf (dbl_zero s)"
  by (simp add: dbl_zero_def dbl_wf_def)

lemma dbl_wf_simps [simp]: "dbl_wf (DInf s)" "dbl_wf DNaN"
  by (simp_all add: dbl_wf_def)

lemma dbl_of_int_wf [simp, wf_intros]: "dbl_wf (dbl_of_int i)"
  by (simp add: dbl_of_int_def dbl_round_wf)

lemma dbl_add_wf [simp, wf_intros]: "dbl_wf (dbl_add a b)"
  by (cases "(a, b)" rule: dbl_add.cases) (auto simp: Let_def dbl_round_wf)

lemma dbl_sub_wf [simp, wf_intros]: "dbl_wf (dbl_sub a b)"
  by (simp add: dbl_sub_def)

lemma dbl_mul_wf [simp, wf_intros]: "dbl_wf (dbl_mul a b)"
  by (cases "(a, b)" rule: dbl_mul.cases) (auto simp: dbl_round_wf)

lemma dbl_div_wf [simp, wf_intros]: "dbl_wf (dbl_div a b)"
  by (cases "(a, b)" rule: dbl_div.cases) (auto simp: dbl_round_wf)

lemma dbl_fmod_wf [simp, wf_intros]: "dbl_wf a \<Longrightarrow> dbl_wf (dbl_fmod a b)"
  by (cases "(a, b)" rule: dbl_fmod.cases) (auto simp: Let_def dbl_round_wf)

lemma dbl_convert_wf: "0 < d \<Longrightarrow> dbl_wf (fst (dbl_convert s n d e))"
  by (simp add: dbl_convert_def Let_def dbl_round_wf)

lemma strtod_decimal_wf: "strtod_decimal neg s = Some (v, r, e) \<Longrightarrow> dbl_wf v"
  using dbl_convert_wf
  by (fastforce simp: strtod_decimal_def Let_def split: option.splits prod.splits if_splits dest: arg_cong [where f = fst])

lemma strtod_hex_wf: "strtod_hex neg s = Some (v, r, e) \<Longrightarrow> dbl_wf v"
  using dbl_convert_wf
  by (fastforce simp: strtod_hex_def Let_def split: option.splits prod.splits dest: arg_cong [where f = fst])

lemma strtod_wf: "strtod s = Some (v, r, e) \<Longrightarrow> dbl_wf v"
  by (auto simp: strtod_def split: if_splits option.splits prod.splits
        intro: strtod_decimal_wf strtod_hex_wf)

section \<open>Integers are represented exactly\<close>

lemma flog2_one: "0 < n \<Longrightarrow> flog2 n (Suc 0) = int (bit_length n) - 1"
proof -
  assume n: "0 < n"
  then obtain j where j: "bit_length n = Suc j" using bit_length_pos by (metis Suc_pred)
  then have "2 ^ j \<le> n" using bit_length_bounds [OF n] by simp
  then show ?thesis using j n by (auto simp: flog2_def scale2_def Let_def)
qed

lemma dbl_round_shift: "dbl_round s (n * 2 ^ k) 1 e = dbl_round s n 1 (e + int k)"
proof (cases "n = 0")
  case False
  then have l: "flog2 (n * 2 ^ k) (Suc 0) = flog2 n (Suc 0) + int k"
    by (simp add: flog2_one bit_length_mult_power)
  have r: "round_at (n * 2 ^ k) (Suc 0) e x = round_at n (Suc 0) (e + int k) x" for x
  proof -
    consider "x \<le> e" | "e < x" "x \<le> e + int k" | "e + int k < x" by linarith
    then show ?thesis
    proof cases
      case 1
      then show ?thesis
        by (simp add: round_at_def scale2_def nat_add_distrib power_add mult.assoc
              diff_add_eq [symmetric] add.commute)
    next
      case 2
      define j where "j = nat (x - e)"
      have j: "j \<le> k" "x = e + int j" using 2 by (simp_all add: j_def)
      then have "n * 2 ^ k = (n * 2 ^ (k - j)) * 2 ^ j" by (simp add: power_add [symmetric])
      then have "round_half_even (n * 2 ^ k) (2 ^ j) = n * 2 ^ (k - j)"
        using round_half_even_exact [of "2 ^ j" "n * 2 ^ (k - j)"] by (simp only:) simp
      moreover have "nat (int k - int j) = k - j" by (simp add: nat_diff_distrib)
      ultimately show ?thesis
        using j 2 by (simp add: round_at_def scale2_def)
    next
      case 3
      define j where "j = nat (x - e - int k)"
      have j: "x = e + int k + int j" "0 < j" using 3 by (simp_all add: j_def)
      have "round_half_even (n * 2 ^ k) (2 ^ j * 2 ^ k) = round_half_even n (2 ^ j)"
        by (simp add: round_half_even_def Let_def mod_mult_mult2)
      moreover have "nat (int j + int k) = j + k" by simp
      ultimately show ?thesis using j
        by (simp add: round_at_def scale2_def power_add)
    qed
  qed
  have "flog2 n (Suc 0) + int k + e - 52 = flog2 n (Suc 0) + (e + int k) - 52" by simp
  then show ?thesis using False by (simp only: dbl_round_def l r One_nat_def mult_eq_0_iff power_eq_0_iff) simp
qed (simp add: dbl_round_def)

text \<open>A mantissa below \<open>2 ^ 53\<close> at an exponent in range is rounded to itself.\<close>

lemma dbl_round_exact:
  assumes "0 < n" "n < 2 ^ 53" "- 1074 \<le> e" "int (bit_length n) + e \<le> 1024"
  shows "\<exists>x m. dbl_round s n 1 e = DFinite s m x \<and> x \<le> e \<and> - 1074 \<le> x \<and> m = n * 2 ^ nat (e - x)"
proof -
  define x where "x = max (flog2 n (Suc 0) + e - 52) (- 1074)"
  have bl: "bit_length n \<le> 53"
    using assms(2) by (rule bit_length_le)
  then have x: "x \<le> e" "- 1074 \<le> x" "x \<le> 971"
    using assms(1,3,4) by (auto simp: x_def flog2_one)
  have m: "round_at n (Suc 0) e x = n * 2 ^ nat (e - x)"
    using x by (simp add: round_at_def scale2_def)
  have lt: "n * 2 ^ nat (e - x) < 2 ^ 53"
  proof -
    have "n * 2 ^ nat (e - x) < 2 ^ bit_length n * 2 ^ nat (e - x)"
      using bit_length_bounds [OF assms(1)] by simp
    also have "\<dots> = 2 ^ (bit_length n + nat (e - x))" by (simp add: power_add)
    also have "\<dots> \<le> 2 ^ 53"
    proof (rule power_increasing)
      have "e - x \<le> 53 - int (bit_length n)"
        using assms(1) by (simp add: x_def flog2_one)
      then show "bit_length n + nat (e - x) \<le> 53" using bl by linarith
    qed simp
    finally show ?thesis .
  qed
  have "dbl_round s n 1 e = DFinite s (n * 2 ^ nat (e - x)) x"
    using assms(1) m lt x by (simp add: dbl_round_def Let_def flip: x_def)
  then show ?thesis using x by blast
qed

definition exact_int :: "int \<Rightarrow> bool" where
  "exact_int i \<longleftrightarrow> \<bar>i\<bar> < 2 ^ 53"

lemma int32_exact: "int32 i \<Longrightarrow> exact_int i"
  by (auto simp: range_simps exact_int_def)

lemma dbl_of_int_finite:
  assumes "exact_int i"
  shows "\<exists>m x. dbl_of_int i = DFinite (i < 0) m x \<and> x \<le> 0 \<and> - 1074 \<le> x \<and> m = nat \<bar>i\<bar> * 2 ^ nat (- x)"
proof (cases "i = 0")
  case True
  then show ?thesis by (simp add: dbl_of_int_def dbl_round_def dbl_zero_def)
next
  case False
  have n: "0 < nat \<bar>i\<bar>" "nat \<bar>i\<bar> < 2 ^ 53" using False assms by (auto simp: exact_int_def nat_less_iff)
  have "bit_length (nat \<bar>i\<bar>) \<le> 1024"
    using bit_length_le [OF n(2)] by simp
  then show ?thesis
    using dbl_round_exact [OF n, of 0 "i < 0"] by (fastforce simp: dbl_of_int_def)
qed

text \<open>The value of an exactly represented integer, aligned at an exponent \<open>e \<le> 0\<close>.\<close>

lemma dbl_align_of_int:
  assumes "e \<le> x" "x \<le> 0"
  shows "dbl_align (i < 0) (nat \<bar>i\<bar> * 2 ^ nat (- x)) x e = i * 2 ^ nat (- e)"
proof -
  have "nat (- x) + nat (x - e) = nat (- e)" using assms by simp
  then have "(2::int) ^ nat (- x) * 2 ^ nat (x - e) = 2 ^ nat (- e)"
    by (simp flip: power_add)
  then show ?thesis by (simp add: dbl_align_def signed_of_def mult.assoc)
qed

lemma dbl_to_int_of_int [simp]: "exact_int i \<Longrightarrow> dbl_to_int (dbl_of_int i) = checked_int i"
proof -
  assume "exact_int i"
  then obtain m x where d: "dbl_of_int i = DFinite (i < 0) m x" "x \<le> 0" "m = nat \<bar>i\<bar> * 2 ^ nat (- x)"
    using dbl_of_int_finite by blast
  then have "dbl_trunc (i < 0) m x = i" by (auto simp: dbl_trunc_def signed_of_def)
  with d show ?thesis by simp
qed

lemma dbl_less_of_int [simp]:
  assumes "exact_int i" "exact_int j"
  shows "dbl_less (dbl_of_int i) (dbl_of_int j) \<longleftrightarrow> i < j"
    and "dbl_eq (dbl_of_int i) (dbl_of_int j) \<longleftrightarrow> i = j"
proof -
  obtain m x where i: "dbl_of_int i = DFinite (i < 0) m x" "x \<le> 0" "m = nat \<bar>i\<bar> * 2 ^ nat (- x)"
    using dbl_of_int_finite [OF assms(1)] by blast
  obtain n y where j: "dbl_of_int j = DFinite (j < 0) n y" "y \<le> 0" "n = nat \<bar>j\<bar> * 2 ^ nat (- y)"
    using dbl_of_int_finite [OF assms(2)] by blast
  have "dbl_align (i < 0) m x (min x y) = i * 2 ^ nat (- min x y)"
    "dbl_align (j < 0) n y (min x y) = j * 2 ^ nat (- min x y)"
    using i j by (simp_all add: dbl_align_of_int)
  then show "dbl_less (dbl_of_int i) (dbl_of_int j) \<longleftrightarrow> i < j"
    "dbl_eq (dbl_of_int i) (dbl_of_int j) \<longleftrightarrow> i = j"
    using i(1) j(1) by (simp_all add: Let_def)
qed

lemma dbl_le_of_int [simp]:
  "exact_int i \<Longrightarrow> exact_int j \<Longrightarrow> dbl_le (dbl_of_int i) (dbl_of_int j) \<longleftrightarrow> i \<le> j"
  by (auto simp: dbl_le_def)

lemma dbl_is_integer_of_int [simp]: "exact_int i \<Longrightarrow> dbl_is_integer (dbl_of_int i)"
  using dbl_of_int_finite [of i] by auto

lemma dbl_of_int_shift:
  "v = i * 2 ^ nat (- e) \<Longrightarrow> e \<le> 0 \<Longrightarrow> dbl_round (v < 0) (nat \<bar>v\<bar>) 1 e = dbl_of_int i"
  using dbl_round_shift [of "i < 0" "nat \<bar>i\<bar>" "nat (- e)" e]
  by (simp add: dbl_of_int_def abs_mult nat_mult_distrib mult_less_0_iff nat_power_eq)

lemma dbl_add_of_int [simp]:
  assumes "exact_int i" "exact_int j"
  shows "dbl_add (dbl_of_int i) (dbl_of_int j) = dbl_of_int (i + j)"
proof -
  obtain m x where i: "dbl_of_int i = DFinite (i < 0) m x" "x \<le> 0" "m = nat \<bar>i\<bar> * 2 ^ nat (- x)"
    using dbl_of_int_finite [OF assms(1)] by blast
  obtain n y where j: "dbl_of_int j = DFinite (j < 0) n y" "y \<le> 0" "n = nat \<bar>j\<bar> * 2 ^ nat (- y)"
    using dbl_of_int_finite [OF assms(2)] by blast
  let ?e = "min x y"
  have v: "dbl_align (i < 0) m x ?e + dbl_align (j < 0) n y ?e = (i + j) * 2 ^ nat (- ?e)"
    using i j by (simp add: dbl_align_of_int algebra_simps)
  have "dbl_of_int (i + j) = dbl_zero (i < 0 \<and> j < 0)" if "i + j = 0"
  proof -
    have "(i < 0 \<and> j < 0) = False" using that by auto
    then show ?thesis using that by (simp only:) (simp add: dbl_of_int_def dbl_round_def)
  qed
  then show ?thesis
    using i(1,2) j(1) v dbl_of_int_shift [OF v]
    by (auto simp: Let_def simp del: dbl_round_def)
qed

lemma dbl_neg_of_int: "exact_int j \<Longrightarrow> j \<noteq> 0 \<Longrightarrow> dbl_neg (dbl_of_int j) = dbl_of_int (- j)"
  by (auto simp: dbl_of_int_def dbl_round_def Let_def)

lemma dbl_sub_of_int [simp]:
  assumes "exact_int i" "exact_int j"
  shows "dbl_sub (dbl_of_int i) (dbl_of_int j) = dbl_of_int (i - j)"
proof (cases "j = 0")
  case True
  obtain m x where i: "dbl_of_int i = DFinite (i < 0) m x" "x \<le> 0" "- 1074 \<le> x" "m = nat \<bar>i\<bar> * 2 ^ nat (- x)"
    using dbl_of_int_finite [OF assms(1)] by blast
  have z: "dbl_of_int 0 = dbl_zero False" by (simp add: dbl_of_int_def dbl_round_def)
  have v: "dbl_align (i < 0) m x (- 1074) = i * 2 ^ nat (- (- 1074))"
    using i dbl_align_of_int [of "- 1074" x i] by simp
  have "min x (- 1074) = - 1074" using i by simp
  then show ?thesis
    using True i(1) v dbl_of_int_shift [OF v] z
    by (auto simp: dbl_sub_def dbl_zero_def Let_def dbl_align_def [of True] signed_of_def simp del: dbl_round_def)
next
  case False
  then show ?thesis using assms by (simp add: dbl_sub_def dbl_neg_of_int exact_int_def)
qed

lemma dbl_mul_of_int [simp]:
  assumes "exact_int i" "exact_int j" "i * j \<noteq> 0"
  shows "dbl_mul (dbl_of_int i) (dbl_of_int j) = dbl_of_int (i * j)"
proof -
  obtain m x where i: "dbl_of_int i = DFinite (i < 0) m x" "x \<le> 0" "m = nat \<bar>i\<bar> * 2 ^ nat (- x)"
    using dbl_of_int_finite [OF assms(1)] by blast
  obtain n y where j: "dbl_of_int j = DFinite (j < 0) n y" "y \<le> 0" "n = nat \<bar>j\<bar> * 2 ^ nat (- y)"
    using dbl_of_int_finite [OF assms(2)] by blast
  have "nat (- (x + y)) = nat (- x) + nat (- y)" using i(2) j(2) by simp
  then have "m * n = nat \<bar>i * j\<bar> * 2 ^ nat (- (x + y))"
    using i(3) j(3) by (simp only: abs_mult nat_mult_distrib abs_ge_zero power_add) simp
  moreover have "((i < 0) \<noteq> (j < 0)) = (i * j < 0)" using assms(3) by (auto simp: mult_less_0_iff)
  moreover have "int (nat (- (x + y))) = - (x + y)" using i j by simp
  ultimately show ?thesis
    using i(1) j(1) dbl_round_shift [of "i * j < 0" "nat \<bar>i * j\<bar>" "nat (- (x + y))" "x + y"]
    by (simp add: dbl_of_int_def)
qed

section \<open>Reading back a printed integer\<close>

lemma scan_mantissa_digits:
  assumes "list_all isdigit ds" "ds \<noteq> []"
  shows "scan_mantissa isdigit ds = Some (ds, [], [])"
proof -
  have "takeWhile isdigit ds = ds" "dropWhile isdigit ds = []"
    using span_digits [of ds "[]"] assms by simp_all
  then show ?thesis using assms by (simp only: scan_mantissa_def Let_def) simp
qed

lemma strtod_decimal_digits:
  assumes "list_all isdigit ds" "ds \<noteq> []"
  shows "strtod_decimal neg ds = Some (fst (dbl_convert neg (nat_of_digits ds) 1 0), [], snd (dbl_convert neg (nat_of_digits ds) 1 0))"
  using scan_mantissa_digits [OF assms]
  by (simp add: strtod_decimal_def scan_exponent_def Let_def case_prod_unfold)

lemma dbl_convert_int:
  assumes "n < 2 ^ 53"
  shows "dbl_convert neg n (Suc 0) 0 = (dbl_round neg n (Suc 0) 0, False)"
proof (cases "n = 0")
  case False
  then have n: "0 < n" by simp
  have "bit_length n \<le> 53" using assms by (rule bit_length_le)
  then obtain x m where "dbl_round neg n 1 0 = DFinite neg m x"
    using dbl_round_exact [OF n assms, of 0 neg] by auto
  moreover have "\<not> dbl_tiny n (Suc 0) 0"
    using n bit_length_pos [OF n] by (simp add: dbl_tiny_def flog2_one)
  ultimately show ?thesis by (simp add: dbl_convert_def)
qed (simp add: dbl_convert_def)

lemma digit_lower: "isdigit c \<Longrightarrow> tolower c = c"
  by (auto simp: isdigit_def tolower_def)

lemma starts_with_ci_digit:
  assumes "isdigit c" "\<not> isdigit w"
  shows "\<not> starts_with_ci (w # ws) (c # cs)"
  using assms by (auto simp: starts_with_ci_def lowerCopy_def digit_lower)

lemma starts_with_0x_digits:
  assumes "list_all isdigit ds"
  shows "\<not> starts_with_ci ''0x'' ds"
proof -
  have "\<not> isdigit (CHR ''x'')" by (simp add: isdigit_def code_of_def)
  then show ?thesis
    using assms by (cases ds; cases "tl ds") (auto simp: starts_with_ci_def lowerCopy_def digit_lower)
qed

lemma strtod_digits:
  assumes "list_all isdigit ds" "ds \<noteq> []" "take_sign (dropWhile isspace s) = (neg, ds)"
  shows "strtod s = strtod_decimal neg ds"
proof -
  obtain c cs where ds: "ds = c # cs" "isdigit c" using assms by (cases ds) auto
  have "\<not> isdigit (CHR ''i'')" "\<not> isdigit (CHR ''n'')" by (simp_all add: isdigit_def code_of_def)
  then show ?thesis
    using assms ds starts_with_0x_digits [OF assms(1)]
    by (simp add: strtod_def starts_with_ci_digit)
qed

lemma strtod_show_int: "exact_int i \<Longrightarrow> strtod (show_int i) = Some (dbl_of_int i, [], False)"
proof -
  assume i: "exact_int i"
  let ?ds = "show_nat (nat \<bar>i\<bar>)"
  obtain c cs where c: "?ds = c # cs" "isdigit c" using show_nat_Cons by blast
  have "\<not> isspace CHR ''-''" by (simp add: isspace_def code_of_def)
  then have t: "take_sign (dropWhile isspace (show_int i)) = (i < 0, ?ds)"
    using c by (auto simp: show_int_def take_sign_def digit_not_sign digit_not_space)
  have "nat \<bar>i\<bar> < 2 ^ 53" using i by (auto simp: exact_int_def nat_less_iff)
  then show ?thesis
    using strtod_digits [OF show_nat_digits _ t] strtod_decimal_digits [OF show_nat_digits, of "nat \<bar>i\<bar>" "i < 0"]
    by (simp add: dbl_convert_int dbl_of_int_def)
qed

end
