(* ===== verification/Values.thy ===== *)
theory Values
  imports Doubles
begin

text \<open>
  The values of the virtual machine (\<open>PickVM::Value\<close>, a variant of \<open>int\<close>, \<open>double\<close> and
  \<open>std::string\<close>) and the coercions of \<open>src/core/vm/Runtime.cpp\<close> that the opcodes and the builtin functions
  share: display (\<open>valueToString\<close>), numeric reading (\<open>coerceToDouble\<close>, \<open>coerceToInt\<close>), the choice
  of the result type of an arithmetic opcode and the comparison of two values.  A machine
  integer in a value stays in the range of \<open>int\<close> and a double in normal form (\<open>value_wf\<close>).
\<close>

datatype Value = IntV int | DblV double | StrV string

definition value_wf :: "Value \<Rightarrow> bool" where
  "value_wf v = (case v of IntV i \<Rightarrow> int32 i | DblV d \<Rightarrow> dbl_wf d | StrV _ \<Rightarrow> True)"

lemma value_wf_simps [simp]:
  "value_wf (IntV i) = int32 i" "value_wf (DblV d) = dbl_wf d" "value_wf (StrV s)"
  by (simp_all add: value_wf_def)

section \<open>Names\<close>

definition canonicalVariableName :: "string \<Rightarrow> string" where
  "canonicalVariableName raw = upperCopy raw"

definition isReadOnlySystemVariableName :: "string \<Rightarrow> bool" where
  "isReadOnlySystemVariableName canonical \<longleftrightarrow>
     canonical = ''@USERNO'' \<or> canonical = ''@ACCOUNT'' \<or> canonical = ''@LOGNAME'' \<or> canonical = ''@DEFDATA''"

section \<open>Display\<close>

text \<open>The trimming loop of \<open>valueToString\<close> on the text of a double.\<close>

definition trim_float :: "string \<Rightarrow> string" where
  "trim_float out =
     (if CHR ''.'' \<in> set out
      then (let r = rev (dropWhile (\<lambda>c. c = CHR ''0'') (rev out))
            in if r \<noteq> [] \<and> last r = CHR ''.'' then r @ ''0'' else r)
      else out)"

fun valueToString :: "Value \<Rightarrow> string" where
  "valueToString (StrV s) = s"
| "valueToString (DblV d) = trim_float (show_double 15 d)"
| "valueToString (IntV i) = show_int i"

section \<open>Numeric coercion\<close>

fun coerceToDouble :: "Value \<Rightarrow> double" where
  "coerceToDouble (IntV i) = dbl_of_int i"
| "coerceToDouble (DblV d) = d"
| "coerceToDouble (StrV s) =
     (if s = [] then dbl_zero False
      else case strtod s of None \<Rightarrow> dbl_zero False
           | Some (n, endp, erange) \<Rightarrow> if erange then dbl_zero False else n)"

definition stringHasTrailingNonNumericJunk :: "string \<Rightarrow> bool" where
  "stringHasTrailingNonNumericJunk s =
     (if s = [] then False
      else case strtod s of None \<Rightarrow> False
           | Some (n, endp, erange) \<Rightarrow>
               if erange then False
               else (let r = dropWhile isspace endp in r \<noteq> [] \<and> hd r \<noteq> NUL))"

fun arithmeticOperandForcesDoubleResult :: "Value \<Rightarrow> bool" where
  "arithmeticOperandForcesDoubleResult (DblV d) = True"
| "arithmeticOperandForcesDoubleResult (IntV i) = False"
| "arithmeticOperandForcesDoubleResult (StrV s) = stringHasTrailingNonNumericJunk s"

definition arithmeticResultValue :: "Value \<Rightarrow> Value \<Rightarrow> double \<Rightarrow> Value result" where
  "arithmeticResultValue a b r =
     (let forceDouble = (arithmeticOperandForcesDoubleResult a \<or> arithmeticOperandForcesDoubleResult b)
      in if \<not> forceDouble \<and> dbl_le (dbl_of_int int_min) r \<and> dbl_le r (dbl_of_int int_max) \<and> dbl_is_integer r
         then bindE (dbl_to_int r) (\<lambda>i. Inr (IntV i))
         else Inr (DblV r))"

definition coerceToInt :: "Value \<Rightarrow> int result" where
  "coerceToInt v =
     (let n = coerceToDouble v
      in if dbl_less n (dbl_of_int int_min) \<or> dbl_less (dbl_of_int int_max) n then Inr 0 else dbl_to_int n)"

section \<open>Comparison\<close>

fun isNumericValue :: "Value \<Rightarrow> bool" where
  "isNumericValue (IntV _) = True"
| "isNumericValue (DblV _) = True"
| "isNumericValue (StrV _) = False"

definition compareValues :: "Value \<Rightarrow> Value \<Rightarrow> string \<Rightarrow> int result" where
  "compareValues a b ctx =
     (if isNumericValue a \<and> isNumericValue b
      then (let ia = coerceToDouble a; ib = coerceToDouble b
            in if dbl_less ia ib then Inr (- 1) else if dbl_less ib ia then Inr 1 else Inr 0)
      else case (a, b) of
             (StrV sa, StrV sb) \<Rightarrow> if sa < sb then Inr (- 1) else if sb < sa then Inr 1 else Inr 0
           | _ \<Rightarrow> Inl (RuntimeError (ctx @ '': type mismatch'')))"

section \<open>Input lines\<close>

definition parseIntLine :: "string \<Rightarrow> int option" where
  "parseIntLine line =
     (let trimmed = trim line
      in if trimmed = [] then None
         else case stoi trimmed of Inl _ \<Rightarrow> None
              | Inr (i, r) \<Rightarrow> if r = [] then Some i else None)"

definition parseFltLine :: "string \<Rightarrow> double option" where
  "parseFltLine line =
     (let trimmed = trim line
      in if trimmed = [] then None
         else case stod trimmed of Inl _ \<Rightarrow> None
              | Inr (d, r) \<Rightarrow> if r = [] then Some d else None)"

section \<open>Properties of the coercions\<close>

lemma coerceToDouble_wf [wf_intros]: "value_wf v \<Longrightarrow> dbl_wf (coerceToDouble v)"
  by (cases v) (auto split: option.splits dest: strtod_wf)

lemma int_bounds_exact [simp]: "exact_int int_min" "exact_int int_max"
  by (simp_all add: exact_int_def range_simps)

text \<open>A finite value between two integers has its integer part between them.\<close>

lemma dbl_trunc_between:
  assumes "\<not> dbl_less (DFinite s m x) (dbl_of_int lo)" "\<not> dbl_less (dbl_of_int hi) (DFinite s m x)"
    and "exact_int lo" "exact_int hi" "lo \<le> 0" "0 \<le> hi"
  shows "lo \<le> dbl_trunc s m x" "dbl_trunc s m x \<le> hi"
proof -
  obtain n y where l: "dbl_of_int lo = DFinite (lo < 0) n y" "y \<le> 0" "n = nat \<bar>lo\<bar> * 2 ^ nat (- y)"
    using dbl_of_int_finite [OF assms(3)] by blast
  obtain k z where h: "dbl_of_int hi = DFinite (hi < 0) k z" "z \<le> 0" "k = nat \<bar>hi\<bar> * 2 ^ nat (- z)"
    using dbl_of_int_finite [OF assms(4)] by blast
  have lo: "lo * 2 ^ nat (- min x y) \<le> dbl_align s m x (min x y)"
    using assms(1) l dbl_align_of_int [of "min x y" y lo] by (simp add: Let_def not_less)
  have hi: "dbl_align s m x (min x z) \<le> hi * 2 ^ nat (- min x z)"
    using assms(2) h dbl_align_of_int [of "min x z" z hi] by (simp add: Let_def not_less min.commute)
  have sc: "dbl_trunc s m x * 2 ^ nat (- e) \<le> dbl_align s m x e \<and> \<not> s \<or>
            dbl_align s m x e \<le> dbl_trunc s m x * 2 ^ nat (- e) \<and> s" if "e \<le> x" "e \<le> 0" for e
  proof (cases "0 \<le> x")
    case True
    then have "nat (x - e) = nat x + nat (- e)" using that by simp
    then show ?thesis using True by (auto simp: dbl_trunc_def dbl_align_def signed_of_def power_add)
  next
    case False
    then have "nat (- e) = nat (- x) + nat (x - e)" using that by simp
    then have "int (m div 2 ^ nat (- x)) * 2 ^ nat (- e) = int (m div 2 ^ nat (- x) * 2 ^ nat (- x) * 2 ^ nat (x - e))"
      by (simp add: power_add)
    also have "\<dots> \<le> int (m * 2 ^ nat (x - e))"
      by (simp only: of_nat_le_iff) (simp add: div_times_less_eq_dividend)
    finally show ?thesis using False by (auto simp: dbl_trunc_def dbl_align_def signed_of_def)
  qed
  show "lo \<le> dbl_trunc s m x"
  proof (cases s)
    case True
    have "min x y \<le> 0" using l(2) by simp
    then have "lo * 2 ^ nat (- min x y) \<le> dbl_trunc s m x * 2 ^ nat (- min x y)"
      using lo sc [OF min.cobounded1 \<open>min x y \<le> 0\<close>] True by linarith
    then show ?thesis by simp
  qed (use assms(5) in \<open>simp add: dbl_trunc_def signed_of_def\<close>)
  show "dbl_trunc s m x \<le> hi"
  proof (cases s)
    case False
    have "min x z \<le> 0" using h(2) by simp
    then have "dbl_trunc s m x * 2 ^ nat (- min x z) \<le> hi * 2 ^ nat (- min x z)"
      using hi sc [OF min.cobounded1 \<open>min x z \<le> 0\<close>] False by linarith
    then show ?thesis by simp
  qed (use assms(6) in \<open>simp add: dbl_trunc_def signed_of_def\<close>)
qed

lemma not_less_finite:
  "\<not> dbl_less (DInf s) (dbl_of_int int_min) \<Longrightarrow> dbl_less (dbl_of_int int_max) (DInf s)"
  using dbl_of_int_finite [OF int_bounds_exact(1)] dbl_of_int_finite [OF int_bounds_exact(2)] by auto

lemma coerceToInt_cases:
  "coerceToInt v = (if coerceToDouble v = DNaN then Inl UndefinedBehaviour
                    else Inr (case coerceToInt v of Inr i \<Rightarrow> i | Inl _ \<Rightarrow> 0))"
proof (cases "coerceToDouble v")
  case (DFinite s m x)
  have "int_min \<le> 0" "0 \<le> int_max" by (simp_all add: range_simps)
  then show ?thesis
    using DFinite dbl_trunc_between [of s m x int_min int_max]
    by (auto simp: coerceToInt_def int32_def Let_def split: if_splits)
next
  case (DInf s)
  then show ?thesis using not_less_finite [of s] by (auto simp: coerceToInt_def Let_def)
next
  case DNaN
  moreover have "\<not> dbl_less (dbl_of_int int_max) DNaN"
    using dbl_of_int_finite [OF int_bounds_exact(2)] by auto
  ultimately show ?thesis by (simp add: coerceToInt_def)
qed

lemma coerceToInt_error_iff: "coerceToInt v = Inl e \<longleftrightarrow> e = UndefinedBehaviour \<and> coerceToDouble v = DNaN"
  by (subst coerceToInt_cases) auto

lemma dbl_to_int_int32: "dbl_to_int d = Inr i \<Longrightarrow> int32 i"
  by (cases d) auto

lemma coerceToInt_int32 [wf_intros]: "coerceToInt v = Inr i \<Longrightarrow> int32 i"
  by (auto simp: coerceToInt_def Let_def split: if_splits dest: dbl_to_int_int32)

lemma coerceToInt_IntV [simp]: "int32 i \<Longrightarrow> coerceToInt (IntV i) = Inr i"
  by (auto simp: coerceToInt_def Let_def int32_exact dbl_less_of_int int32_def)

lemma coerceToDouble_show_int [simp]: "exact_int i \<Longrightarrow> coerceToDouble (StrV (show_int i)) = dbl_of_int i"
  by (simp add: strtod_show_int)

lemma junk_show_int [simp]: "exact_int i \<Longrightarrow> \<not> stringHasTrailingNonNumericJunk (show_int i)"
  by (simp add: stringHasTrailingNonNumericJunk_def strtod_show_int)

lemma arithmeticResultValue_wf [wf_intros]:
  "dbl_wf r \<Longrightarrow> arithmeticResultValue a b r = Inr v \<Longrightarrow> value_wf v"
  by (auto simp: arithmeticResultValue_def Let_def bindE_eq_Inr_iff split: if_splits dest: dbl_to_int_int32)

lemma arithmeticResultValue_of_int:
  assumes "\<not> arithmeticOperandForcesDoubleResult a" "\<not> arithmeticOperandForcesDoubleResult b" "exact_int i"
  shows "arithmeticResultValue a b (dbl_of_int i) = Inr (if int32 i then IntV i else DblV (dbl_of_int i))"
  using assms by (auto simp: arithmeticResultValue_def int32_def)

text \<open>
  The result of \<open>arithmeticResultValue\<close> is always defined: its guard admits only values whose
  conversion to \<open>int\<close> is defined.
\<close>

lemma arithmeticResultValue_total: "\<exists>v. arithmeticResultValue a b r = Inr v"
proof -
  have "\<exists>i. dbl_to_int r = Inr i" if le: "dbl_le (dbl_of_int int_min) r" "dbl_le r (dbl_of_int int_max)"
  proof (cases r)
    case (DFinite s m x)
    have "\<not> dbl_less r (dbl_of_int int_min)" "\<not> dbl_less (dbl_of_int int_max) r"
      using le dbl_of_int_finite [OF int_bounds_exact(1)] dbl_of_int_finite [OF int_bounds_exact(2)] DFinite
      by (auto simp: dbl_le_def Let_def min.commute)
    moreover have "int_min \<le> 0" "0 \<le> int_max" by (simp_all add: range_simps)
    ultimately show ?thesis
      using DFinite dbl_trunc_between [of s m x int_min int_max] by (simp add: int32_def)
  next
    case (DInf s)
    then show ?thesis
      using le dbl_of_int_finite [OF int_bounds_exact(1)] dbl_of_int_finite [OF int_bounds_exact(2)]
      by (auto simp: dbl_le_def)
  next
    case DNaN
    then show ?thesis using le dbl_of_int_finite [OF int_bounds_exact(1)] by (auto simp: dbl_le_def)
  qed
  then show ?thesis by (auto simp: arithmeticResultValue_def Let_def)
qed

lemma compareValues_range: "compareValues a b ctx = Inr c \<Longrightarrow> c = - 1 \<or> c = 0 \<or> c = 1"
  by (auto simp: compareValues_def Let_def split: if_splits Value.splits)

lemma compareValues_ints [simp]:
  "int32 i \<Longrightarrow> int32 j \<Longrightarrow>
   compareValues (IntV i) (IntV j) ctx = Inr (if i < j then - 1 else if j < i then 1 else 0)"
  by (simp add: compareValues_def int32_exact)

lemma compareValues_strings [simp]:
  "compareValues (StrV s) (StrV t) ctx = Inr (if s < t then - 1 else if t < s then 1 else 0)"
  by (simp add: compareValues_def)

lemma parseIntLine_int32: "parseIntLine line = Some i \<Longrightarrow> int32 i"
  by (auto simp: parseIntLine_def Let_def split: if_splits sum.splits dest: stoi_int32)

lemma parseFltLine_wf: "parseFltLine line = Some d \<Longrightarrow> dbl_wf d"
  by (auto simp: parseFltLine_def stod_def Let_def split: if_splits sum.splits option.splits dest: strtod_wf)

end
