(* ===== verification/Bytecode.thy ===== *)
theory Bytecode
  imports Values
begin

text \<open>
  Instructions of the virtual machine (\<open>src/core/vm/Runtime.h\<close>), their one-line listing
  (\<open>InstructionPrint.cpp\<close>) and the text bytecode that the compiler writes to disk (\<open>BytecodeText.cpp\<close>).  An
  instruction carries an operand of type \<open>Value\<close> whatever its opcode, as in the code; \<open>std::get\<close> on the
  wrong alternative throws \<open>bad_variant_access\<close>, which is an \<open>InvalidArgument\<close> here.  The lemmas show that
  the escaping of quoted strings loses nothing.
\<close>

section \<open>Instructions\<close>

datatype (plugins only: code) OpCode =
    Halt | PushInt | PushFlt | PushStr | Add | Sub | Mul | Div | Eq | Ne | Lt | Le | Gt | Ge
  | Concat | Dup | Drop | PrintInt | PrintStr | PrintVal | PrintEol | InputInt | InputStr
  | CoerceInt | Jump | JumpIfZero | Call | Return | ForSetup | ForNext | DimArray | LoadArr
  | StoreArr | MatInit | MatCopy | MatLoadFromRec | MatStoreToRec | ClearVars | AbsInt | SgnInt
  | SeqStr | InvokeBuiltin | CallFunc | OpenFile | OpenFileTry | ReadRec | ReadRecTry
  | ReadRecU | ReadRecUTry | WriteRec | WriteRecTry | WriteRecU | WriteRecUTry | ReleaseRec
  | ReadNext | ReadNextTry | ReadV | ReadVTry | WriteV | WriteVTry | ExtractAttr
  | ResolveDictAttr | Chain | CloseFile | SetOnErrorHandler | LoadVar | StoreVar | PrintChar
  | InputFlt | CoerceFlt | Mod

record CallFuncOperand =
  namespaceId :: nat
  functionId :: nat
  argCount :: int

record Instruction =
  instr_op :: OpCode
  operand :: Value
  callFunc :: CallFuncOperand

definition no_call :: CallFuncOperand where
  "no_call = \<lparr>namespaceId = 0, functionId = 0, argCount = 0\<rparr>"

definition mkInstr :: "OpCode \<Rightarrow> Value \<Rightarrow> Instruction" where
  "mkInstr c v = \<lparr>instr_op = c, operand = v, callFunc = no_call\<rparr>"

fun opCodeName :: "OpCode \<Rightarrow> string" where
  "opCodeName Halt = ''HALT''"
| "opCodeName PushInt = ''PUSH_INT''"
| "opCodeName PushFlt = ''PUSH_FLT''"
| "opCodeName PushStr = ''PUSH_STR''"
| "opCodeName Add = ''ADD''"
| "opCodeName Sub = ''SUB''"
| "opCodeName Mul = ''MUL''"
| "opCodeName Div = ''DIV''"
| "opCodeName Mod = ''MOD''"
| "opCodeName Eq = ''EQ''"
| "opCodeName Ne = ''NE''"
| "opCodeName Lt = ''LT''"
| "opCodeName Le = ''LE''"
| "opCodeName Gt = ''GT''"
| "opCodeName Ge = ''GE''"
| "opCodeName Concat = ''CONCAT''"
| "opCodeName Dup = ''DUP''"
| "opCodeName Drop = ''DROP''"
| "opCodeName PrintInt = ''PRINT_INT''"
| "opCodeName PrintStr = ''PRINT_STR''"
| "opCodeName PrintVal = ''PRINT_VAL''"
| "opCodeName PrintEol = ''PRINT_EOL''"
| "opCodeName PrintChar = ''PRINT_CHAR''"
| "opCodeName InputInt = ''INPUT_INT''"
| "opCodeName InputStr = ''INPUT_STR''"
| "opCodeName InputFlt = ''INPUT_FLT''"
| "opCodeName CoerceInt = ''COERCE_INT''"
| "opCodeName CoerceFlt = ''COERCE_FLT''"
| "opCodeName Jump = ''JUMP''"
| "opCodeName JumpIfZero = ''JZ''"
| "opCodeName Call = ''CALL''"
| "opCodeName Return = ''RETURN''"
| "opCodeName ForSetup = ''FOR_SETUP''"
| "opCodeName ForNext = ''FOR_NEXT''"
| "opCodeName DimArray = ''DIM_ARRAY''"
| "opCodeName LoadArr = ''LOAD_ARR''"
| "opCodeName StoreArr = ''STORE_ARR''"
| "opCodeName MatInit = ''MAT_INIT''"
| "opCodeName MatCopy = ''MAT_COPY''"
| "opCodeName MatLoadFromRec = ''MAT_LOAD_FROM_REC''"
| "opCodeName MatStoreToRec = ''MAT_STORE_TO_REC''"
| "opCodeName ClearVars = ''CLEAR_VARS''"
| "opCodeName AbsInt = ''ABS_INT''"
| "opCodeName SgnInt = ''SGN_INT''"
| "opCodeName SeqStr = ''SEQ_STR''"
| "opCodeName InvokeBuiltin = ''INVOKE_BUILTIN''"
| "opCodeName CallFunc = ''CALL_FUNC''"
| "opCodeName OpenFile = ''OPEN_FILE''"
| "opCodeName OpenFileTry = ''OPEN_FILE_TRY''"
| "opCodeName ReadRec = ''READ_REC''"
| "opCodeName ReadRecTry = ''READ_REC_TRY''"
| "opCodeName ReadRecU = ''READ_REC_U''"
| "opCodeName ReadRecUTry = ''READ_REC_U_TRY''"
| "opCodeName WriteRec = ''WRITE_REC''"
| "opCodeName WriteRecTry = ''WRITE_REC_TRY''"
| "opCodeName WriteRecU = ''WRITE_REC_U''"
| "opCodeName WriteRecUTry = ''WRITE_REC_U_TRY''"
| "opCodeName ReleaseRec = ''RELEASE_REC''"
| "opCodeName ReadNext = ''READ_NEXT''"
| "opCodeName ReadNextTry = ''READ_NEXT_TRY''"
| "opCodeName ReadV = ''READ_V''"
| "opCodeName ReadVTry = ''READ_V_TRY''"
| "opCodeName WriteV = ''WRITE_V''"
| "opCodeName WriteVTry = ''WRITE_V_TRY''"
| "opCodeName ExtractAttr = ''EXTRACT_ATTR''"
| "opCodeName ResolveDictAttr = ''RESOLVE_DICT_ATTR''"
| "opCodeName Chain = ''CHAIN''"
| "opCodeName CloseFile = ''CLOSE_FILE''"
| "opCodeName SetOnErrorHandler = ''SET_ON_ERROR_HANDLER''"
| "opCodeName LoadVar = ''LOAD_VAR''"
| "opCodeName StoreVar = ''STORE_VAR''"

section \<open>Listing\<close>

definition operand_error :: "nat \<Rightarrow> OpCode \<Rightarrow> string \<Rightarrow> error" where
  "operand_error ip c kind =
     RuntimeError (''Instruction '' @ show_nat ip @ '' ('' @ opCodeName c @ ''): expected '' @ kind @ '' operand'')"

definition intOperandAtIp :: "Instruction \<Rightarrow> nat \<Rightarrow> int result" where
  "intOperandAtIp instr ip =
     (case operand instr of IntV i \<Rightarrow> Inr i | _ \<Rightarrow> Inl (operand_error ip (instr_op instr) ''int''))"

definition stringOperandAtIp :: "Instruction \<Rightarrow> nat \<Rightarrow> string result" where
  "stringOperandAtIp instr ip =
     (case operand instr of StrV s \<Rightarrow> Inr s | _ \<Rightarrow> Inl (operand_error ip (instr_op instr) ''string''))"

definition floatOperandAtIp :: "Instruction \<Rightarrow> nat \<Rightarrow> double result" where
  "floatOperandAtIp instr ip =
     (case operand instr of DblV d \<Rightarrow> Inr d | _ \<Rightarrow> Inl (operand_error ip (instr_op instr) ''float''))"

text \<open>The groups of opcodes that the switches of the listing and of the serializer share.\<close>

definition int_ops :: "OpCode list" where
  "int_ops = [PushInt, Jump, JumpIfZero, Call, SetOnErrorHandler]"

definition name_ops :: "OpCode list" where
  "name_ops =
     [LoadVar, StoreVar, ForSetup, ForNext, DimArray, LoadArr, StoreArr, MatInit, MatCopy,
      MatLoadFromRec, MatStoreToRec, OpenFile, OpenFileTry, ReadRec, ReadRecTry, ReadRecU,
      ReadRecUTry, WriteRec, WriteRecTry, WriteRecU, WriteRecUTry, ReleaseRec, ReadNext,
      ReadNextTry, ReadV, ReadVTry, WriteV, WriteVTry, ResolveDictAttr, CloseFile]"

definition show_callFunc :: "CallFuncOperand \<Rightarrow> string" where
  "show_callFunc cf =
     show_nat (namespaceId cf) @ '', '' @ show_nat (functionId cf) @ '', '' @ show_int (argCount cf)"

definition formatOperand :: "nat \<Rightarrow> Instruction \<Rightarrow> string result" where
  "formatOperand ip instr =
     (if instr_op instr \<in> set int_ops then bindE (intOperandAtIp instr ip) (\<lambda>i. Inr (SP # show_int i))
      else if instr_op instr = PushFlt then bindE (floatOperandAtIp instr ip) (\<lambda>d. Inr (SP # show_double 6 d))
      else if instr_op instr = PushStr \<or> instr_op instr = InvokeBuiltin
        then bindE (stringOperandAtIp instr ip) (\<lambda>s. Inr (SP # DQ # s @ [DQ]))
      else if instr_op instr \<in> set name_ops then bindE (stringOperandAtIp instr ip) (\<lambda>s. Inr (SP # s))
      else if instr_op instr = CallFunc then Inr (SP # show_callFunc (callFunc instr))
      else Inr [])"

text \<open>The optional argument is the line table of the loaded bytecode.\<close>

definition formatInstructionLine :: "nat \<Rightarrow> Instruction \<Rightarrow> int list option \<Rightarrow> string result" where
  "formatInstructionLine ip instr sourceLines =
     bindE (formatOperand ip instr) (\<lambda>opnd.
       Inr (show_nat ip @ '': '' @ opCodeName (instr_op instr) @ opnd @
         (case sourceLines of
            Some ls \<Rightarrow> if ip < length ls \<and> 0 < ls ! ip then '' (line '' @ show_int (ls ! ip) @ '')'' else []
          | None \<Rightarrow> [])))"

section \<open>Text bytecode\<close>

definition escape_char :: "char \<Rightarrow> string" where
  "escape_char c =
     (if c = BSL then [BSL, BSL] else if c = DQ then [BSL, DQ] else if c = LF then [BSL, CHR ''n'']
      else if c = CR then [BSL, CHR ''r''] else if c = TAB then [BSL, CHR ''t''] else [c])"

definition escapeQuoted :: "string \<Rightarrow> string" where
  "escapeQuoted s = concat (map escape_char s)"

definition bad_variant :: error where
  "bad_variant = InvalidArgument ''bad_variant_access''"

definition serializeOperand :: "Instruction \<Rightarrow> string result" where
  "serializeOperand instr =
     (if instr_op instr \<in> set int_ops
        then (case operand instr of IntV i \<Rightarrow> Inr (SP # show_int i) | _ \<Rightarrow> Inl bad_variant)
      else if instr_op instr = PushFlt
        then (case operand instr of DblV d \<Rightarrow> Inr (SP # show_double 6 d) | _ \<Rightarrow> Inl bad_variant)
      else if instr_op instr = PushStr \<or> instr_op instr = InvokeBuiltin
        then (case operand instr of StrV s \<Rightarrow> Inr (SP # DQ # escapeQuoted s @ [DQ]) | _ \<Rightarrow> Inl bad_variant)
      else if instr_op instr \<in> set name_ops
        then (case operand instr of StrV s \<Rightarrow> Inr (SP # s) | _ \<Rightarrow> Inl bad_variant)
      else if instr_op instr = CallFunc then Inr (SP # show_callFunc (callFunc instr))
      else Inr [])"

definition serializeInstr :: "Instruction \<Rightarrow> string result" where
  "serializeInstr instr = bindE (serializeOperand instr) (\<lambda>x. Inr (opCodeName (instr_op instr) @ x))"

definition basicLinesHeader :: "nat \<Rightarrow> int list \<Rightarrow> string" where
  "basicLinesHeader n lines =
     (if lines = [] then []
      else ''#BASICLINES:'' @ join_with CHR '','' (map show_int (take (min n (length lines)) lines)) @ [LF])"

definition serializeBytecodeText :: "Instruction list \<Rightarrow> int list \<Rightarrow> string result" where
  "serializeBytecodeText program sourceLinePerInstr =
     bindE (mapE serializeInstr program) (\<lambda>ls.
       Inr (basicLinesHeader (length program) sourceLinePerInstr @ concat (map (\<lambda>l. l @ [LF]) ls)))"

end
