(* ===== verification/Bytecode_Parser.thy ===== *)
theory Bytecode_Parser
  imports Bytecode "HOL-Library.Code_Target_Nat"
begin

text \<open>
  The loader of text bytecode, \<open>src/core/vm/Parser.cpp\<close>: the line parser, the two passes of
  \<open>Parser::parse\<close> (labels, then instructions) and the validation of jump targets.  The chain of opcode
  comparisons of the second pass is the table \<open>opcode_table\<close>, one row per branch, in the order of the
  code.  The theorems: the loader inverts the serializer, a loaded program has all its jump targets inside
  the program, and every line of the text accounts for one instruction.
\<close>

section \<open>Operands\<close>

definition parseNonNegativeInt :: "string \<Rightarrow> int option" where
  "parseNonNegativeInt t =
     (case stoll t of Inl _ \<Rightarrow> None
      | Inr (v, r) \<Rightarrow> if r \<noteq> [] \<or> v < 0 \<or> int_max < v then None else Some v)"

definition parseUint32 :: "string \<Rightarrow> nat option" where
  "parseUint32 t =
     (case stoull t of Inl _ \<Rightarrow> None
      | Inr (v, r) \<Rightarrow> if r \<noteq> [] \<or> 2 ^ 32 - 1 < v then None else Some v)"

definition quoted_at :: "nat \<Rightarrow> string \<Rightarrow> string" where
  "quoted_at line t = '' at line '' @ show_nat line @ '': '' @ CHR 0x27 # t @ [CHR 0x27]"

definition parseCallFuncOperands :: "string \<Rightarrow> nat \<Rightarrow> CallFuncOperand result" where
  "parseCallFuncOperands opnd line =
     (let missing = RuntimeError (''CALL_FUNC requires namespace-id, function-id, arg-count at line '' @ show_nat line)
      in if opnd = [] then Inl missing
         else case filter (\<lambda>item. item \<noteq> []) (map trim (getlines CHR '','' opnd)) of
                [a, b, c] \<Rightarrow>
                  (case parseUint32 a of None \<Rightarrow> Inl (RuntimeError (''Invalid CALL_FUNC namespace-id'' @ quoted_at line a))
                   | Some ns \<Rightarrow>
                       (case parseUint32 b of None \<Rightarrow> Inl (RuntimeError (''Invalid CALL_FUNC function-id'' @ quoted_at line b))
                        | Some fn \<Rightarrow>
                            (case parseNonNegativeInt c of
                               None \<Rightarrow> Inl (RuntimeError (''Invalid CALL_FUNC arg-count'' @ quoted_at line c))
                             | Some n \<Rightarrow> Inr \<lparr>namespaceId = ns, functionId = fn, argCount = n\<rparr>)))
              | _ \<Rightarrow> Inl missing)"

definition unescape_char :: "char \<Rightarrow> char option" where
  "unescape_char e =
     (if e = BSL then Some BSL else if e = DQ then Some DQ else if e = CHR ''n'' then Some LF
      else if e = CHR ''r'' then Some CR else if e = CHR ''t'' then Some TAB else None)"

text \<open>The loop of \<open>parseQuotedString\<close> over the characters between the quotes.\<close>

fun unescape_loop :: "string \<Rightarrow> string \<Rightarrow> string option" where
  "unescape_loop out [] = Some out"
| "unescape_loop out (c # cs) =
     (if c \<noteq> BSL then unescape_loop (out @ [c]) cs
      else case cs of [] \<Rightarrow> None
           | e # es \<Rightarrow> (case unescape_char e of None \<Rightarrow> None | Some d \<Rightarrow> unescape_loop (out @ [d]) es))"

definition parseQuotedString :: "string \<Rightarrow> nat \<Rightarrow> string result" where
  "parseQuotedString token line =
     (if length token < 2 \<or> hd token \<noteq> DQ \<or> last token \<noteq> DQ then Inr token
      else case unescape_loop [] (butlast (tl token)) of
             None \<Rightarrow> Inl (RuntimeError (''Invalid string escape at line '' @ show_nat line))
           | Some s \<Rightarrow> Inr s)"

definition parseBasicLinesItem :: "string \<Rightarrow> int result" where
  "parseBasicLinesItem item =
     (let t = trim item
      in if t = [] then Inl (RuntimeError ''Invalid #BASICLINES metadata'')
         else case parseNonNegativeInt t of
                None \<Rightarrow> Inl (RuntimeError ''Invalid #BASICLINES metadata'') | Some v \<Rightarrow> Inr v)"

definition parseBasicLinesMetadata :: "string \<Rightarrow> int list result" where
  "parseBasicLinesMetadata line =
     (let t = trim line
      in if take 12 t \<noteq> ''#BASICLINES:'' then Inr []
         else mapE parseBasicLinesItem (getlines CHR '','' (drop 12 t)))"

section \<open>Lines\<close>

record ParsedLine =
  plLabel :: string
  plOpcode :: string
  plOperand :: string
  plSourceLine :: nat

text \<open>The search for the label colon: the text before it and after it, quotes respected.\<close>

fun find_colon :: "bool \<Rightarrow> string \<Rightarrow> string \<Rightarrow> (string \<times> string) option" where
  "find_colon inQuotes seen [] = None"
| "find_colon inQuotes seen (c # cs) =
     (if inQuotes then
        (if c = BSL \<and> cs \<noteq> [] then find_colon True (seen @ [c, hd cs]) (tl cs)
         else find_colon (c \<noteq> DQ) (seen @ [c]) cs)
      else if c = DQ then find_colon True (seen @ [c]) cs
      else if c = CHR '':'' then Some (seen, cs)
      else find_colon False (seen @ [c]) cs)"

definition split_opcode :: "string \<Rightarrow> string \<times> string" where
  "split_opcode line =
     (let s = dropWhile isspace line
      in (takeWhile (\<lambda>c. \<not> isspace c) s, trim (takeWhile (\<lambda>c. c \<noteq> LF) (dropWhile (\<lambda>c. \<not> isspace c) s))))"

definition parseLine :: "string \<Rightarrow> ParsedLine" where
  "parseLine raw_line =
     (let line = trim raw_line
      in if line = [] \<or> hd line = CHR ''#''
         then \<lparr>plLabel = [], plOpcode = [], plOperand = [], plSourceLine = 0\<rparr>
         else case find_colon False [] line of
                None \<Rightarrow>
                  (let (opc, opnd) = split_opcode line
                   in \<lparr>plLabel = [], plOpcode = opc, plOperand = opnd, plSourceLine = 0\<rparr>)
              | Some (lbl, rest) \<Rightarrow>
                  if trim rest = [] then \<lparr>plLabel = trim lbl, plOpcode = [], plOperand = [], plSourceLine = 0\<rparr>
                  else (let (opc, opnd) = split_opcode (trim rest)
                        in \<lparr>plLabel = trim lbl, plOpcode = opc, plOperand = opnd, plSourceLine = 0\<rparr>))"

section \<open>Instructions\<close>

text \<open>What the branch of an opcode does with the operand text.\<close>

datatype operand_syntax =
    NoOperand | IntOperand | FloatOperand | StringOperand | NameOperand string | LabelOperand
  | CallFuncOperands | HandlerOperand

definition opcode_table :: "(string \<times> OpCode \<times> operand_syntax) list" where
  "opcode_table =
     [(''HALT'', Halt, NoOperand),
      (''PUSH_INT'', PushInt, IntOperand),
      (''PUSH_FLT'', PushFlt, FloatOperand),
      (''PUSH_STR'', PushStr, StringOperand),
      (''ADD'', Add, NoOperand),
      (''SUB'', Sub, NoOperand),
      (''MUL'', Mul, NoOperand),
      (''DIV'', Div, NoOperand),
      (''MOD'', Mod, NoOperand),
      (''EQ'', Eq, NoOperand),
      (''NE'', Ne, NoOperand),
      (''LT'', Lt, NoOperand),
      (''LE'', Le, NoOperand),
      (''GT'', Gt, NoOperand),
      (''GE'', Ge, NoOperand),
      (''DUP'', Dup, NoOperand),
      (''DROP'', Drop, NoOperand),
      (''CONCAT'', Concat, NoOperand),
      (''PRINT_INT'', PrintInt, NoOperand),
      (''PRINT_STR'', PrintStr, NoOperand),
      (''PRINT_VAL'', PrintVal, NoOperand),
      (''PRINT_EOL'', PrintEol, NoOperand),
      (''PRINT_CHAR'', PrintChar, NoOperand),
      (''INPUT_INT'', InputInt, NoOperand),
      (''INPUT_STR'', InputStr, NoOperand),
      (''INPUT_FLT'', InputFlt, NoOperand),
      (''COERCE_INT'', CoerceInt, NoOperand),
      (''COERCE_FLT'', CoerceFlt, NoOperand),
      (''JUMP'', Jump, LabelOperand),
      (''JZ'', JumpIfZero, LabelOperand),
      (''CALL'', Call, LabelOperand),
      (''RETURN'', Return, NoOperand),
      (''FOR_SETUP'', ForSetup, NameOperand ''a variable name''),
      (''FOR_NEXT'', ForNext, NameOperand ''a variable name''),
      (''DIM_ARRAY'', DimArray, NameOperand ''a variable name''),
      (''LOAD_ARR'', LoadArr, NameOperand ''a variable name''),
      (''STORE_ARR'', StoreArr, NameOperand ''a variable name''),
      (''MAT_INIT'', MatInit, NameOperand ''an array name''),
      (''MAT_COPY'', MatCopy, NameOperand ''a DST|SRC operand''),
      (''MAT_LOAD_FROM_REC'', MatLoadFromRec, NameOperand ''an array name''),
      (''MAT_STORE_TO_REC'', MatStoreToRec, NameOperand ''an array name''),
      (''CLEAR_VARS'', ClearVars, NoOperand),
      (''ABS_INT'', AbsInt, NoOperand),
      (''SGN_INT'', SgnInt, NoOperand),
      (''SEQ_STR'', SeqStr, NoOperand),
      (''INVOKE_BUILTIN'', InvokeBuiltin, NameOperand ''a quoted builtin name''),
      (''CALL_FUNC'', CallFunc, CallFuncOperands),
      (''OPEN_FILE'', OpenFile, NameOperand ''a file variable''),
      (''OPEN_FILE_TRY'', OpenFileTry, NameOperand ''a file variable''),
      (''READ_REC'', ReadRec, NameOperand ''a file variable''),
      (''READ_REC_TRY'', ReadRecTry, NameOperand ''a file variable''),
      (''READ_REC_U'', ReadRecU, NameOperand ''a file variable''),
      (''READ_REC_U_TRY'', ReadRecUTry, NameOperand ''a file variable''),
      (''WRITE_REC'', WriteRec, NameOperand ''a file variable''),
      (''WRITE_REC_TRY'', WriteRecTry, NameOperand ''a file variable''),
      (''WRITE_REC_U'', WriteRecU, NameOperand ''a file variable''),
      (''WRITE_REC_U_TRY'', WriteRecUTry, NameOperand ''a file variable''),
      (''RELEASE_REC'', ReleaseRec, NameOperand ''a file variable''),
      (''SET_ON_ERROR_HANDLER'', SetOnErrorHandler, HandlerOperand),
      (''READ_NEXT'', ReadNext, NameOperand ''a file variable''),
      (''READ_NEXT_TRY'', ReadNextTry, NameOperand ''a file variable''),
      (''READ_V'', ReadV, NameOperand ''a file variable''),
      (''READ_V_TRY'', ReadVTry, NameOperand ''a file variable''),
      (''RESOLVE_DICT_ATTR'', ResolveDictAttr, NameOperand ''a file variable''),
      (''WRITE_V'', WriteV, NameOperand ''a file variable''),
      (''WRITE_V_TRY'', WriteVTry, NameOperand ''a file variable''),
      (''EXTRACT_ATTR'', ExtractAttr, NoOperand),
      (''CHAIN'', Chain, NoOperand),
      (''CLOSE_FILE'', CloseFile, NameOperand ''a file variable''),
      (''LOAD_VAR'', LoadVar, NameOperand ''a variable name''),
      (''STORE_VAR'', StoreVar, NameOperand ''a variable name'')]"

definition parseInstruction :: "(string \<times> int) list \<Rightarrow> ParsedLine \<Rightarrow> Instruction result" where
  "parseInstruction labels pl =
     (let line = plSourceLine pl; opnd = plOperand pl; opc = plOpcode pl
      in case map_of opcode_table opc of
           None \<Rightarrow> Inl (RuntimeError (''Unknown opcode at line '' @ show_nat line @ '': '' @ opc))
         | Some (c, syn) \<Rightarrow>
             (case syn of
                NoOperand \<Rightarrow>
                  if opnd \<noteq> [] then Inl (RuntimeError (opc @ '' takes no operand at line '' @ show_nat line))
                  else Inr (mkInstr c (IntV 0))
              | IntOperand \<Rightarrow>
                  (case stoi opnd of Inl _ \<Rightarrow> Inl (RuntimeError (''Invalid PUSH_INT operand'' @ quoted_at line opnd))
                   | Inr (i, _) \<Rightarrow> Inr (mkInstr c (IntV i)))
              | FloatOperand \<Rightarrow>
                  (case stod opnd of Inl _ \<Rightarrow> Inl (RuntimeError (''Invalid PUSH_FLT operand'' @ quoted_at line opnd))
                   | Inr (d, r) \<Rightarrow>
                       if r \<noteq> [] then Inl (RuntimeError (''Invalid PUSH_FLT operand'' @ quoted_at line opnd))
                       else Inr (mkInstr c (DblV d)))
              | StringOperand \<Rightarrow> bindE (parseQuotedString opnd line) (\<lambda>s. Inr (mkInstr c (StrV s)))
              | NameOperand what \<Rightarrow>
                  if opnd = [] then Inl (RuntimeError (opc @ '' requires '' @ what @ '' at line '' @ show_nat line))
                  else bindE (parseQuotedString opnd line) (\<lambda>s. Inr (mkInstr c (StrV s)))
              | LabelOperand \<Rightarrow>
                  (case parseNonNegativeInt opnd of
                     Some t \<Rightarrow> Inr (mkInstr c (IntV t))
                   | None \<Rightarrow>
                       (case map_of labels opnd of
                          Some t \<Rightarrow> Inr (mkInstr c (IntV t))
                        | None \<Rightarrow> Inl (RuntimeError (''Unknown label for '' @ opc @ '' at line '' @ show_nat line @ '': '' @ opnd))))
              | CallFuncOperands \<Rightarrow>
                  bindE (parseCallFuncOperands opnd line) (\<lambda>cf. Inr \<lparr>instr_op = c, operand = IntV 0, callFunc = cf\<rparr>)
              | HandlerOperand \<Rightarrow>
                  if opnd = [] then Inl (RuntimeError (opc @ '' requires a target IP at line '' @ show_nat line))
                  else (case stoi opnd of
                          Inl _ \<Rightarrow> Inl (RuntimeError (''Invalid SET_ON_ERROR_HANDLER operand'' @ quoted_at line opnd))
                        | Inr (i, _) \<Rightarrow> Inr (mkInstr c (IntV i)))))"

section \<open>\<open>Parser::parse\<close>\<close>

record LoadedBytecode =
  program :: "Instruction list"
  labels :: "(string \<times> int) list"
  sourceLinePerInstr :: "int list"

text \<open>Pass 1: the line counter, the label map, the kept lines (in order) and the metadata.\<close>

fun pass1 ::
  "nat \<Rightarrow> (string \<times> int) list \<Rightarrow> ParsedLine list \<Rightarrow> int list \<Rightarrow> string list \<Rightarrow>
     ((string \<times> int) list \<times> ParsedLine list \<times> int list) result" where
  "pass1 physLine lm kept meta [] = Inr (lm, kept, meta)"
| "pass1 physLine lm kept meta (line # ls) =
     (if take 12 (trim line) = ''#BASICLINES:''
      then bindE (parseBasicLinesMetadata (trim line)) (\<lambda>m. pass1 (Suc physLine) lm kept m ls)
      else let pl = parseLine line;
               lm' = (if plLabel pl \<noteq> [] then map_put (plLabel pl) (int (length kept)) lm else lm);
               kept' = (if plOpcode pl \<noteq> [] then kept @ [pl\<lparr>plSourceLine := Suc physLine\<rparr>] else kept)
           in pass1 (Suc physLine) lm' kept' meta ls)"

definition is_control :: "OpCode \<Rightarrow> bool" where
  "is_control c \<longleftrightarrow> c = Jump \<or> c = JumpIfZero \<or> c = Call"

fun validateJumpTargets_from :: "nat \<Rightarrow> nat \<Rightarrow> Instruction list \<Rightarrow> unit result" where
  "validateJumpTargets_from n i [] = Inr ()"
| "validateJumpTargets_from n i (ins # p) =
     (if \<not> is_control (instr_op ins) then validateJumpTargets_from n (Suc i) p
      else case operand ins of
             IntV t \<Rightarrow>
               if t < 0 \<or> int n \<le> t
               then Inl (RuntimeError (''Control-flow target out of range at instruction '' @ show_nat i @ '': '' @ show_int t))
               else validateJumpTargets_from n (Suc i) p
           | _ \<Rightarrow> Inl (RuntimeError (''Control-flow instruction at index '' @ show_nat i @ '' has no int target'')))"

definition validateJumpTargets :: "Instruction list \<Rightarrow> unit result" where
  "validateJumpTargets p = validateJumpTargets_from (length p) 0 p"

definition chooseSourceLines :: "int list \<Rightarrow> ParsedLine list \<Rightarrow> Instruction list \<Rightarrow> int list result" where
  "chooseSourceLines meta kept prog =
     (if meta \<noteq> []
      then (if length meta \<noteq> length prog then Inl (RuntimeError ''#BASICLINES metadata size mismatch'') else Inr meta)
      else Inr (map (\<lambda>pl. int (plSourceLine pl)) kept))"

definition parse :: "string \<Rightarrow> LoadedBytecode result" where
  "parse input =
     bindE (pass1 0 [] [] [] (getlines LF input)) (\<lambda>(lm, kept, meta).
     bindE (mapE (parseInstruction lm) kept) (\<lambda>prog.
     bindE (chooseSourceLines meta kept prog) (\<lambda>lines.
     bindE (validateJumpTargets prog) (\<lambda>_.
       Inr \<lparr>program = prog, labels = lm, sourceLinePerInstr = lines\<rparr>))))"

section \<open>Quoted strings\<close>

lemma unescape_escape: "unescape_loop out (escapeQuoted s @ t) = unescape_loop (out @ s) t"
proof (induction s arbitrary: out)
  case (Cons c s)
  have "unescape_loop out (escape_char c @ u) = unescape_loop (out @ [c]) u" for u
    by (simp add: escape_char_def unescape_char_def)
  then show ?case using Cons [of "out @ [c]"] by (simp add: escapeQuoted_def)
qed (simp add: escapeQuoted_def)

lemma parseQuotedString_escape: "parseQuotedString (DQ # escapeQuoted s @ [DQ]) line = Inr s"
  using unescape_escape [of "[]" s "[]"] by (simp add: parseQuotedString_def butlast_append)

interpretation quoted: codec "\<lambda>s. DQ # escapeQuoted s @ [DQ]" "\<lambda>t. case parseQuotedString t n of Inr s \<Rightarrow> Some s | Inl _ \<Rightarrow> None" "\<lambda>_. True" for n
  by unfold_locales (simp add: parseQuotedString_escape)

lemma escapeQuoted_no_control: "c \<in> set (escapeQuoted s) \<Longrightarrow> c \<noteq> LF \<and> c \<noteq> CR \<and> c \<noteq> TAB"
  by (auto simp: escapeQuoted_def escape_char_def split: if_splits)

lemma find_colon_quoted:
  "find_colon True seen (escapeQuoted s @ DQ # rest) = find_colon False (seen @ escapeQuoted s @ [DQ]) rest"
proof (induction s arbitrary: seen)
  case (Cons c s)
  have "find_colon True seen (escape_char c @ u) = find_colon True (seen @ escape_char c) u" if "u \<noteq> []" for u
    by (simp add: escape_char_def)
  then show ?case using Cons [of "seen @ escape_char c"] by (simp add: escapeQuoted_def)
qed (simp add: escapeQuoted_def)

lemma find_colon_plain:
  "\<forall>c \<in> set t. c \<noteq> DQ \<and> c \<noteq> CHR '':'' \<Longrightarrow> find_colon False seen (t @ u) = find_colon False (seen @ t) u"
  by (induction t arbitrary: seen) auto

section \<open>Serialized lines\<close>

definition name_char :: "char \<Rightarrow> bool" where
  "name_char c \<longleftrightarrow> c \<in> set ''ABCDEFGHIJKLMNOPQRSTUVWXYZ_''"

lemma opCodeName_chars: "list_all name_char (opCodeName c)" "opCodeName c \<noteq> []"
  by (cases c; simp add: name_char_def)+

lemma name_char_props:
  "name_char c \<Longrightarrow> \<not> isspace c \<and> \<not> blank c \<and> c \<noteq> DQ \<and> c \<noteq> CHR '':'' \<and> c \<noteq> CHR ''#'' \<and> c \<noteq> LF"
  by (auto simp: name_char_def isspace_def blank_def code_of_def)

lemma opCodeName_clean:
  "x \<in> set (opCodeName c) \<Longrightarrow> \<not> isspace x \<and> \<not> blank x \<and> x \<noteq> DQ \<and> x \<noteq> CHR '':'' \<and> x \<noteq> CHR ''#'' \<and> x \<noteq> LF"
  using opCodeName_chars [of c] name_char_props by (auto simp: list_all_iff)

text \<open>Operand text that survives the line parser: no newline, no blank at either end, no stray colon.\<close>

definition clean_operand :: "string \<Rightarrow> bool" where
  "clean_operand x \<longleftrightarrow>
     x \<noteq> [] \<and> \<not> blank (hd x) \<and> \<not> blank (last x) \<and> LF \<notin> set x \<and> (\<forall>seen. find_colon False seen x = None)"

lemma takeWhile_all_append: "\<forall>c \<in> set a. p c \<Longrightarrow> takeWhile p (a @ b) = a @ takeWhile p b"
  by (induction a) auto

lemma dropWhile_all_append: "\<forall>c \<in> set a. p c \<Longrightarrow> dropWhile p (a @ b) = dropWhile p b"
  by (induction a) auto

lemma parseLine_opcode:
  assumes "t = [] \<or> (\<exists>x. t = SP # x \<and> clean_operand x)"
  defines "x \<equiv> tl t"
  shows "parseLine (opCodeName c @ t) = \<lparr>plLabel = [], plOpcode = opCodeName c, plOperand = x, plSourceLine = 0\<rparr>"
    "take 12 (trim (opCodeName c @ t)) \<noteq> ''#BASICLINES:''"
    "LF \<notin> set (opCodeName c @ t)"
proof -
  let ?n = "opCodeName c"
  have ne: "?n \<noteq> []" by (rule opCodeName_chars)
  note cl = opCodeName_clean [of _ c]
  have hd: "\<not> blank (hd ?n)" "hd ?n \<noteq> CHR ''#''" "\<not> isspace (hd ?n)" using cl [of "hd ?n"] ne by simp_all
  have last: "\<not> blank (last (?n @ t))" using assms ne cl [of "last ?n"] by (auto simp: clean_operand_def)
  have tr: "trim (?n @ t) = ?n @ t" unfolding trim_def using ne hd last by (intro strip_ends) auto
  have fc: "find_colon False [] (?n @ t) = None"
    using assms find_colon_plain [of ?n "[]" t] cl by (auto simp: clean_operand_def)
  have sp: "isspace SP" by (simp add: isspace_def)
  have "dropWhile isspace (?n @ t) = ?n @ t" using ne hd by (cases ?n) auto
  moreover have "takeWhile (\<lambda>c. \<not> isspace c) (?n @ t) = ?n" "dropWhile (\<lambda>c. \<not> isspace c) (?n @ t) = t"
    using assms(1) cl sp by (auto simp: takeWhile_all_append dropWhile_all_append)
  moreover have "trim (takeWhile (\<lambda>c. c \<noteq> LF) t) = x"
  proof (cases "t = []")
    case False
    then have x: "t = SP # x" "clean_operand x" using assms by auto
    then have lf: "takeWhile (\<lambda>c. c \<noteq> LF) t = t" by (auto simp: clean_operand_def intro!: takeWhile_eq_all_conv [THEN iffD2])
    have "trim (SP # x) = trim x" by (simp add: trim_def strip_def blank_def)
    also have "\<dots> = x" unfolding trim_def using x(2) by (intro strip_ends) (auto simp: clean_operand_def)
    finally have e: "trim (SP # x) = x" .
    show ?thesis by (subst lf, subst x(1), rule e)
  qed (simp add: x_def trim_def)
  ultimately have "split_opcode (?n @ t) = (?n, x)" by (simp add: split_opcode_def)
  then show "parseLine (?n @ t) = \<lparr>plLabel = [], plOpcode = ?n, plOperand = x, plSourceLine = 0\<rparr>"
    using tr fc ne hd by (simp add: parseLine_def)
  show "take 12 (trim (?n @ t)) \<noteq> ''#BASICLINES:''" using hd(2) ne unfolding tr by (cases ?n) auto
  show "LF \<notin> set (?n @ t)" using assms(1) cl by (auto simp: clean_operand_def)
qed

section \<open>The opcode table\<close>

lemma opcode_table_names: "map fst opcode_table = map (opCodeName \<circ> fst \<circ> snd) opcode_table"
  by (simp add: opcode_table_def)

lemma opcode_table_distinct: "distinct (map fst opcode_table)"
  by code_simp

lemma table_row:
  assumes "(n, c, syn) \<in> set opcode_table"
  shows "n = opCodeName c \<and> map_of opcode_table n = Some (c, syn)"
proof -
  have "n = opCodeName c"
    using assms opcode_table_names by (auto simp: list_eq_iff_nth_eq in_set_conv_nth)
  then show ?thesis using assms opcode_table_distinct by (simp add: map_of_eq_Some_iff)
qed

text \<open>What the operand of a well-formed instruction of each opcode is.\<close>

definition syntax_class :: "OpCode \<Rightarrow> operand_syntax \<Rightarrow> bool" where
  "syntax_class c syn =
     (case syn of
        NameOperand _ \<Rightarrow> c \<in> set name_ops \<or> c = InvokeBuiltin
      | LabelOperand \<Rightarrow> is_control c
      | IntOperand \<Rightarrow> c = PushInt
      | HandlerOperand \<Rightarrow> c = SetOnErrorHandler
      | FloatOperand \<Rightarrow> c = PushFlt
      | StringOperand \<Rightarrow> c = PushStr
      | CallFuncOperands \<Rightarrow> c = CallFunc
      | NoOperand \<Rightarrow> c \<notin> set int_ops \<and> c \<notin> set name_ops \<and> c \<notin> {PushFlt, PushStr, InvokeBuiltin, CallFunc})"

lemma table_classes: "\<forall>(n, c, syn) \<in> set opcode_table. syntax_class c syn"
  by code_simp

lemma table_complete: "c \<in> set (map (fst \<circ> snd) opcode_table)"
  by (cases c) (simp_all add: opcode_table_def)

lemma table_lookup: "\<exists>syn. map_of opcode_table (opCodeName c) = Some (c, syn) \<and> syntax_class c syn"
proof -
  obtain n syn where r: "(n, c, syn) \<in> set opcode_table" using table_complete [of c] by auto
  then show ?thesis using table_row [OF r] table_classes by auto
qed

lemma table_lookup_inv:
  assumes "map_of opcode_table n = Some (c, syn)"
  shows "n = opCodeName c \<and> syntax_class c syn"
  using table_row [OF map_of_SomeD [OF assms]] table_classes map_of_SomeD [OF assms] by auto

section \<open>The loader inverts the serializer\<close>

text \<open>
  Instructions that the text carries without loss: the operand the opcode asks for, in range; names
  without quotes, colons, newlines or blanks at the ends; no floating-point operand (it is
  printed with six digits).
\<close>

definition name_ok :: "string \<Rightarrow> bool" where
  "name_ok x \<longleftrightarrow>
     x \<noteq> [] \<and> \<not> blank (hd x) \<and> \<not> blank (last x) \<and> LF \<notin> set x \<and> DQ \<notin> set x \<and> CHR '':'' \<notin> set x"

definition instr_ok :: "Instruction \<Rightarrow> bool" where
  "instr_ok ins =
     (let c = instr_op ins
      in if c = CallFunc then
           operand ins = IntV 0 \<and> namespaceId (callFunc ins) < 2 ^ 32 \<and> functionId (callFunc ins) < 2 ^ 32 \<and>
           0 \<le> argCount (callFunc ins) \<and> argCount (callFunc ins) \<le> int_max
         else callFunc ins = no_call \<and>
           (case operand ins of
              IntV i \<Rightarrow> if c \<in> set int_ops then int32 i \<and> (is_control c \<longrightarrow> 0 \<le> i)
                        else c \<noteq> PushFlt \<and> c \<noteq> PushStr \<and> c \<noteq> InvokeBuiltin \<and> c \<notin> set name_ops \<and> i = 0
            | DblV d \<Rightarrow> False
            | StrV x \<Rightarrow> c = PushStr \<or> c = InvokeBuiltin \<or> (c \<in> set name_ops \<and> name_ok x)))"

lemma find_colon_none: "\<forall>c \<in> set t. c \<noteq> DQ \<and> c \<noteq> CHR '':'' \<Longrightarrow> find_colon False seen t = None"
  using find_colon_plain [of t seen "[]"] by simp

lemma show_int_chars: "c \<in> set (show_int i) \<Longrightarrow> \<not> blank c \<and> c \<noteq> LF \<and> c \<noteq> DQ \<and> c \<noteq> CHR '':'' \<and> c \<noteq> CHR '',''"
  by (drule show_int_set) (auto simp: isdigit_def blank_def code_of_def)

lemma show_nat_chars: "c \<in> set (show_nat n) \<Longrightarrow> \<not> blank c \<and> c \<noteq> LF \<and> c \<noteq> DQ \<and> c \<noteq> CHR '':'' \<and> c \<noteq> CHR '',''"
  by (drule show_nat_set) (auto simp: isdigit_def blank_def code_of_def)

lemma clean_show_int: "clean_operand (show_int i)"
  using show_int_chars [of _ i] by (auto simp: clean_operand_def find_colon_none)

lemma clean_name: "name_ok x \<Longrightarrow> clean_operand x"
  unfolding name_ok_def clean_operand_def by (auto intro!: find_colon_none)

lemma clean_quoted: "clean_operand (DQ # escapeQuoted s @ [DQ])"
  using find_colon_quoted [of "_ @ [DQ]" s "[]"] escapeQuoted_no_control [of LF s]
  by (auto simp: clean_operand_def blank_def)

lemma show_notin [simp]:
  "DQ \<notin> set (show_nat n)" "CHR '':'' \<notin> set (show_nat n)" "LF \<notin> set (show_nat n)"
  "DQ \<notin> set (show_int i)" "CHR '':'' \<notin> set (show_int i)" "LF \<notin> set (show_int i)"
  "\<not> blank (hd (show_nat n))" "\<not> blank (last (show_int i))"
  using show_nat_chars show_int_chars hd_in_set [OF show_nat_not_Nil] last_in_set [OF show_int_not_Nil] by blast+

lemma clean_callFunc: "clean_operand (show_callFunc cf)"
proof -
  have "find_colon False seen (show_callFunc cf) = None" for seen
    by (rule find_colon_none) (auto simp: show_callFunc_def)
  then show ?thesis by (simp add: clean_operand_def show_callFunc_def)
qed

lemma parseQuotedString_name: "name_ok x \<Longrightarrow> parseQuotedString x line = Inr x"
  by (cases x) (auto simp: parseQuotedString_def name_ok_def)

lemma parseNonNegativeInt_show: "0 \<le> i \<Longrightarrow> i \<le> int_max \<Longrightarrow> parseNonNegativeInt (show_int i) = Some i"
  using stoll_show_int [of i "[]"] by (simp add: parseNonNegativeInt_def int64_def range_simps)

lemma parseUint32_show: "n < 2 ^ 32 \<Longrightarrow> parseUint32 (show_nat n) = Some n"
  using stoull_show_nat [of n "[]"] by (simp add: parseUint32_def)

lemma trim_digits: "\<forall>c \<in> set x. \<not> blank c \<Longrightarrow> trim x = x \<and> trim (SP # x) = x"
proof -
  assume a: "\<forall>c \<in> set x. \<not> blank c"
  have "strip blank x = x" using a by (cases "x = []") (auto intro!: strip_ends)
  then show ?thesis by (simp add: trim_def strip_def blank_def)
qed

lemma parseCallFuncOperands_show:
  assumes "namespaceId cf < 2 ^ 32" "functionId cf < 2 ^ 32" "0 \<le> argCount cf" "argCount cf \<le> int_max"
  shows "parseCallFuncOperands (show_callFunc cf) line = Inr cf"
proof -
  let ?a = "show_nat (namespaceId cf)" and ?b = "show_nat (functionId cf)" and ?c = "show_int (argCount cf)"
  have "show_callFunc cf = join_with CHR '','' [?a, SP # ?b, SP # ?c]" by (simp add: show_callFunc_def)
  then have "getlines CHR '','' (show_callFunc cf) = [?a, SP # ?b, SP # ?c]"
    using getlines_join [of "[?a, SP # ?b, SP # ?c]" "CHR '',''"] show_nat_chars show_int_chars by auto
  moreover have "trim ?a = ?a" "trim (SP # ?b) = ?b" "trim (SP # ?c) = ?c"
    using trim_digits show_nat_chars show_int_chars by blast+
  ultimately have "filter (\<lambda>item. item \<noteq> []) (map trim (getlines CHR '','' (show_callFunc cf))) = [?a, ?b, ?c]"
    by simp
  moreover have "show_callFunc cf \<noteq> []" by (simp add: show_callFunc_def)
  ultimately show ?thesis
    using assms by (simp add: parseCallFuncOperands_def parseUint32_show parseNonNegativeInt_show Let_def)
qed

lemma name_ops_disjoint:
  "c \<in> set name_ops \<Longrightarrow> c \<notin> set int_ops \<and> c \<noteq> PushFlt \<and> c \<noteq> PushStr \<and> c \<noteq> InvokeBuiltin \<and> c \<noteq> CallFunc"
  unfolding name_ops_def int_ops_def by auto

lemma serialize_int_operand:
  assumes "instr_ok ins" "instr_op ins \<in> set int_ops"
  shows "\<exists>i. operand ins = IntV i \<and> callFunc ins = no_call \<and> int32 i \<and> (is_control (instr_op ins) \<longrightarrow> 0 \<le> i) \<and>
    serializeOperand ins = Inr (SP # show_int i)"
proof -
  have "instr_op ins \<noteq> CallFunc" "instr_op ins \<noteq> PushStr" "instr_op ins \<noteq> InvokeBuiltin" "instr_op ins \<notin> set name_ops"
    using assms(2) name_ops_disjoint by (auto simp: int_ops_def)
  then show ?thesis using assms by (auto simp: instr_ok_def Let_def serializeOperand_def split: Value.splits if_splits)
qed

lemma serialize_operand_ok:
  assumes "instr_ok ins"
  shows "\<exists>t. serializeOperand ins = Inr t \<and> (t = [] \<or> (\<exists>x. t = SP # x \<and> clean_operand x)) \<and>
    parseInstruction lm \<lparr>plLabel = l, plOpcode = opCodeName (instr_op ins), plOperand = tl t, plSourceLine = n\<rparr> = Inr ins"
proof -
  let ?c = "instr_op ins"
  obtain syn where syn: "map_of opcode_table (opCodeName ?c) = Some (?c, syn)" "syntax_class ?c syn"
    using table_lookup by blast
  have ins: "ins = \<lparr>instr_op = ?c, operand = operand ins, callFunc = callFunc ins\<rparr>" by simp
  have stoi: "stoi (show_int i) = Inr (i, [])" if "int32 i" for i using stoi_show_int [OF that, of "[]"] by simp
  show ?thesis
  proof (cases syn)
    case NoOperand
    then have c: "?c \<notin> set int_ops" "?c \<notin> set name_ops" "?c \<notin> {PushFlt, PushStr, InvokeBuiltin, CallFunc}"
      using syn by (simp_all add: syntax_class_def)
    then have v: "operand ins = IntV 0" "callFunc ins = no_call"
      using assms by (auto simp: instr_ok_def Let_def split: Value.splits if_splits)
    have "serializeOperand ins = Inr []" using c by (simp add: serializeOperand_def)
    then show ?thesis using syn NoOperand v ins by (simp add: parseInstruction_def mkInstr_def)
  next
    case (NameOperand w)
    then have "?c \<in> set name_ops \<or> ?c = InvokeBuiltin" using syn by (simp add: syntax_class_def)
    then show ?thesis
    proof
      assume c: "?c \<in> set name_ops"
      note d = name_ops_disjoint [OF c]
      obtain x where x: "operand ins = StrV x" "name_ok x" "callFunc ins = no_call"
        using assms c d by (auto simp: instr_ok_def Let_def split: Value.splits if_splits)
      have "serializeOperand ins = Inr (SP # x)" using c d x by (simp add: serializeOperand_def)
      moreover have "x \<noteq> []" using x(2) by (simp add: name_ok_def)
      ultimately show ?thesis
        using syn NameOperand x ins clean_name [OF x(2)] by (simp add: parseInstruction_def mkInstr_def parseQuotedString_name)
    next
      assume c: "?c = InvokeBuiltin"
      then obtain x where x: "operand ins = StrV x" "callFunc ins = no_call"
        using assms by (auto simp: instr_ok_def Let_def int_ops_def split: Value.splits if_splits)
      have "serializeOperand ins = Inr (SP # DQ # escapeQuoted x @ [DQ])" using c x by (simp add: serializeOperand_def int_ops_def)
      then show ?thesis
        using syn NameOperand x ins clean_quoted by (simp add: parseInstruction_def mkInstr_def parseQuotedString_escape)
    qed
  next
    case StringOperand
    then have c: "?c = PushStr" using syn by (simp add: syntax_class_def)
    then obtain x where x: "operand ins = StrV x" "callFunc ins = no_call"
      using assms by (auto simp: instr_ok_def Let_def int_ops_def split: Value.splits if_splits)
    have "serializeOperand ins = Inr (SP # DQ # escapeQuoted x @ [DQ])" using c x by (simp add: serializeOperand_def int_ops_def)
    then show ?thesis
      using syn StringOperand x ins clean_quoted by (simp add: parseInstruction_def mkInstr_def parseQuotedString_escape)
  next
    case FloatOperand
    then show ?thesis using syn assms by (auto simp: syntax_class_def instr_ok_def Let_def int_ops_def name_ops_def split: Value.splits)
  next
    case CallFuncOperands
    then have c: "?c = CallFunc" using syn by (simp add: syntax_class_def)
    have "?c \<notin> set name_ops" using name_ops_disjoint c by blast
    then have "serializeOperand ins = Inr (SP # show_callFunc (callFunc ins))" using c by (simp add: serializeOperand_def int_ops_def)
    then show ?thesis
      using syn c CallFuncOperands assms ins clean_callFunc
      by (simp add: parseInstruction_def parseCallFuncOperands_show instr_ok_def)
  next
    case LabelOperand
    then have "?c \<in> set int_ops" "is_control ?c" using syn by (auto simp: syntax_class_def is_control_def int_ops_def)
    with serialize_int_operand [OF assms] show ?thesis
      using syn LabelOperand ins by (auto simp: parseInstruction_def mkInstr_def parseNonNegativeInt_show range_simps clean_show_int)
  next
    case IntOperand
    then have "?c \<in> set int_ops" using syn by (auto simp: syntax_class_def int_ops_def)
    with serialize_int_operand [OF assms] show ?thesis
      using syn IntOperand ins by (auto simp: parseInstruction_def mkInstr_def stoi clean_show_int)
  next
    case HandlerOperand
    then have "?c \<in> set int_ops" using syn by (auto simp: syntax_class_def int_ops_def)
    with serialize_int_operand [OF assms] show ?thesis
      using syn HandlerOperand ins by (auto simp: parseInstruction_def mkInstr_def stoi clean_show_int)
  qed
qed

lemma serialize_program_ok:
  assumes "list_all instr_ok prog"
  shows "\<exists>ls kept. mapE serializeInstr prog = Inr ls \<and> (\<forall>l \<in> set ls. LF \<notin> set l) \<and>
    map (\<lambda>pl. int (plSourceLine pl)) kept = map int [Suc k..<Suc k + length prog] \<and>
    (\<forall>lm kept0 meta. pass1 k lm kept0 meta ls = Inr (lm, kept0 @ kept, meta)) \<and>
    (\<forall>lm. mapE (parseInstruction lm) kept = Inr prog)"
  using assms
proof (induction prog arbitrary: k)
  case (Cons ins prog)
  have "list_all instr_ok prog" using Cons.prems by simp
  then obtain ls kept where ih: "mapE serializeInstr prog = Inr ls" "\<forall>l \<in> set ls. LF \<notin> set l"
      "map (\<lambda>pl. int (plSourceLine pl)) kept = map int [Suc (Suc k)..<Suc (Suc k) + length prog]"
      "\<And>lm kept0 meta. pass1 (Suc k) lm kept0 meta ls = Inr (lm, kept0 @ kept, meta)"
      "\<And>lm. mapE (parseInstruction lm) kept = Inr prog"
    using Cons.IH [of "Suc k"] by blast
  let ?c = "instr_op ins"
  have ok: "instr_ok ins" using Cons.prems by simp
  obtain t where t: "serializeOperand ins = Inr t" "t = [] \<or> (\<exists>x. t = SP # x \<and> clean_operand x)"
    using serialize_operand_ok [OF ok, of "[]" "[]" 0] by blast
  let ?pl = "\<lparr>plLabel = [], plOpcode = opCodeName ?c, plOperand = tl t, plSourceLine = Suc k\<rparr>"
  have "parseInstruction lm ?pl = Inr ins" for lm
    using serialize_operand_ok [OF ok, of lm "[]" "Suc k"] t(1) by auto
  moreover note line = parseLine_opcode [OF t(2), of ?c]
  moreover have "pass1 k lm kept0 meta ((opCodeName ?c @ t) # ls) = Inr (lm, kept0 @ ?pl # kept, meta)" for lm kept0 meta
    using ih(4) [of lm "kept0 @ [?pl]" meta] line opCodeName_chars(2) [of ?c] by (simp add: Let_def)
  moreover have "serializeInstr ins = Inr (opCodeName ?c @ t)" using t(1) by (simp add: serializeInstr_def)
  ultimately show ?case
    using ih by (intro exI [of _ "(opCodeName ?c @ t) # ls"] exI [of _ "?pl # kept"])
      (simp add: upt_conv_Cons del: upt_Suc pass1.simps)
qed simp

definition targets_ok :: "Instruction list \<Rightarrow> bool" where
  "targets_ok p \<longleftrightarrow>
     (\<forall>ins \<in> set p. is_control (instr_op ins) \<longrightarrow>
        (case operand ins of IntV t \<Rightarrow> 0 \<le> t \<and> t < int (length p) | _ \<Rightarrow> False))"

lemma validate_from_iff:
  "validateJumpTargets_from n i p = Inr () \<longleftrightarrow>
     (\<forall>ins \<in> set p. is_control (instr_op ins) \<longrightarrow> (case operand ins of IntV t \<Rightarrow> 0 \<le> t \<and> t < int n | _ \<Rightarrow> False))"
  by (induction n i p rule: validateJumpTargets_from.induct) (auto split: Value.splits)

lemma validate_iff: "validateJumpTargets p = Inr () \<longleftrightarrow> targets_ok p"
  by (simp add: validateJumpTargets_def validate_from_iff targets_ok_def)

lemma basic_lines_header:
  assumes "lines \<noteq> []" "\<forall>i \<in> set lines. 0 \<le> i \<and> i \<le> int_max"
  defines "l \<equiv> ''#BASICLINES:'' @ join_with CHR '','' (map show_int lines)"
  shows "trim l = l" "parseBasicLinesMetadata l = Inr lines" "LF \<notin> set l"
proof -
  let ?j = "join_with CHR '','' (map show_int lines)"
  have set_j: "set (join_with d ps) \<subseteq> insert d (\<Union>p \<in> set ps. set p)" for d ps
    by (induction d ps rule: join_with.induct) auto
  show "LF \<notin> set l" using set_j [of "CHR '',''" "map show_int lines"] by (auto simp: l_def)
  have last_j: "last (join_with d ps) = last (last ps)" if "ps \<noteq> []" "last ps \<noteq> []" for d ps
    using that by (induction d ps rule: join_with.induct) (auto simp: last_append join_with_eq_Nil)
  have "last (map show_int lines) = show_int (last lines)" using assms(1) by (simp add: last_map)
  then have "last l = last (show_int (last lines))"
    using last_j [of "map show_int lines"] assms(1) by (auto simp: l_def join_with_eq_Nil)
  then show tr: "trim l = l" unfolding trim_def
    by (intro strip_ends) (auto simp: l_def blank_def [of "CHR ''#''"])
  have "getlines CHR '','' ?j = map show_int lines"
    using assms(1) show_int_chars by (intro getlines_join) (auto simp: last_map)
  moreover have "mapE parseBasicLinesItem (map show_int lines) = Inr lines"
  proof -
    have "parseBasicLinesItem (show_int i) = Inr i" if "i \<in> set lines" for i
    proof -
      have "trim (show_int i) = show_int i" using trim_digits show_int_chars by blast
      then show ?thesis using that assms(2) by (simp add: parseBasicLinesItem_def parseNonNegativeInt_show)
    qed
    then show ?thesis by (auto simp: mapE_eq_Inr_iff list_all2_map1 list_all2_same)
  qed
  ultimately show "parseBasicLinesMetadata l = Inr lines"
    using tr by (simp add: parseBasicLinesMetadata_def) (simp add: l_def)
qed

lemma parse_serialized:
  assumes prog: "list_all instr_ok prog" "targets_ok prog"
    and lines: "lines = [] \<or> length lines = length prog" "\<forall>i \<in> set lines. 0 \<le> i \<and> i \<le> int_max"
  shows "\<exists>t. serializeBytecodeText prog lines = Inr t \<and>
    parse t = Inr \<lparr>program = prog, labels = [],
      sourceLinePerInstr = (if lines = [] then map int [1..<length prog + 1] else lines)\<rparr>"
proof (cases "lines = []")
  case True
  have val: "validateJumpTargets prog = Inr ()" using prog(2) by (simp add: validate_iff)
  obtain ls kept where ih: "mapE serializeInstr prog = Inr ls" "\<forall>l \<in> set ls. LF \<notin> set l"
      "map (\<lambda>pl. int (plSourceLine pl)) kept = map int [Suc 0..<Suc 0 + length prog]"
      "\<And>lm kept0 meta. pass1 0 lm kept0 meta ls = Inr (lm, kept0 @ kept, meta)"
      "\<And>lm. mapE (parseInstruction lm) kept = Inr prog"
    using serialize_program_ok [OF prog(1), of 0] by blast
  have "getlines LF (concat (map (\<lambda>l. l @ [LF]) ls)) = ls" using ih(2) by (rule getlines_concat)
  then show ?thesis
    using True ih(1,3-5) val by (simp add: serializeBytecodeText_def basicLinesHeader_def parse_def chooseSourceLines_def)
next
  case False
  then have len: "length lines = length prog" using lines(1) by simp
  have val: "validateJumpTargets prog = Inr ()" using prog(2) by (simp add: validate_iff)
  obtain ls kept where ih: "mapE serializeInstr prog = Inr ls" "\<forall>l \<in> set ls. LF \<notin> set l"
      "\<And>lm kept0 meta. pass1 (Suc 0) lm kept0 meta ls = Inr (lm, kept0 @ kept, meta)"
      "\<And>lm. mapE (parseInstruction lm) kept = Inr prog"
    using serialize_program_ok [OF prog(1), of "Suc 0"] by blast
  let ?l = "''#BASICLINES:'' @ join_with CHR '','' (map show_int lines)"
  note hd = basic_lines_header [OF False lines(2)]
  have "getlines LF (concat (map (\<lambda>l. l @ [LF]) (?l # ls))) = ?l # ls"
    using ih(2) hd(3) by (intro getlines_concat) simp
  moreover have "basicLinesHeader (length prog) lines = ?l @ [LF]" using False len by (simp add: basicLinesHeader_def)
  moreover have "take 12 (trim ?l) = ''#BASICLINES:''" unfolding hd(1) by simp
  then have "pass1 0 [] [] [] (?l # ls) = Inr ([], kept, lines)"
    using hd(2) ih(3) [of "[]" "[]" lines] unfolding pass1.simps hd(1) by simp
  ultimately show ?thesis
    using False len ih(1,4) val
    by (simp add: serializeBytecodeText_def parse_def chooseSourceLines_def del: pass1.simps)
qed


definition sample_program :: "Instruction list" where
  "sample_program =
     [mkInstr PushStr (StrV (''a:'' @ [DQ, LF, BSL])), mkInstr LoadVar (StrV ''COUNT''), mkInstr JumpIfZero (IntV 0),
      \<lparr>instr_op = CallFunc, operand = IntV 0, callFunc = \<lparr>namespaceId = 1, functionId = 7, argCount = 2\<rparr>\<rparr>,
      mkInstr Halt (IntV 0)]"

lemma sample_program_ok: "list_all instr_ok sample_program" "targets_ok sample_program" "length sample_program = 5"
  by (simp_all add: sample_program_def mkInstr_def instr_ok_def int_ops_def name_ops_def is_control_def name_ok_def
      blank_def range_simps targets_ok_def)


section \<open>Loaded programs are well formed\<close>

text \<open>The operand has the type the opcode reads, and it is in range.\<close>

definition instr_typed :: "Instruction \<Rightarrow> bool" where
  "instr_typed ins =
     (let c = instr_op ins
      in value_wf (operand ins) \<and>
         (c \<in> set int_ops \<longrightarrow> (case operand ins of IntV _ \<Rightarrow> True | _ \<Rightarrow> False)) \<and>
         (c = PushFlt \<longrightarrow> (case operand ins of DblV _ \<Rightarrow> True | _ \<Rightarrow> False)) \<and>
         (c \<in> set name_ops \<or> c = PushStr \<or> c = InvokeBuiltin \<longrightarrow> (case operand ins of StrV _ \<Rightarrow> True | _ \<Rightarrow> False)) \<and>
         (c = CallFunc \<longrightarrow> 0 \<le> argCount (callFunc ins) \<and> argCount (callFunc ins) \<le> int_max))"

lemma parseNonNegativeInt_range: "parseNonNegativeInt t = Some i \<Longrightarrow> 0 \<le> i \<and> i \<le> int_max"
  by (auto simp: parseNonNegativeInt_def split: sum.splits if_splits)

lemma parseCallFuncOperands_range:
  "parseCallFuncOperands t n = Inr cf \<Longrightarrow> 0 \<le> argCount cf \<and> argCount cf \<le> int_max"
  by (auto simp: parseCallFuncOperands_def Let_def split: if_splits list.splits option.splits dest!: parseNonNegativeInt_range)

lemma stod_dbl_wf: "stod s = Inr (d, r) \<Longrightarrow> dbl_wf d"
  by (auto simp: stod_def split: option.splits if_splits dest: strtod_wf)

lemma int_ops_only:
  "c \<in> set int_ops \<Longrightarrow> c \<notin> set name_ops \<and> c \<noteq> PushFlt \<and> c \<noteq> PushStr \<and> c \<noteq> InvokeBuiltin \<and> c \<noteq> CallFunc"
  using name_ops_disjoint by (auto simp: int_ops_def)

lemma typed_int: "c \<in> set int_ops \<Longrightarrow> int32 i \<Longrightarrow> instr_typed (mkInstr c (IntV i))"
  using int_ops_only [of c] by (simp add: instr_typed_def mkInstr_def Let_def)

lemma typed_str: "c \<in> set name_ops \<or> c = PushStr \<or> c = InvokeBuiltin \<Longrightarrow> instr_typed (mkInstr c (StrV x))"
  using name_ops_disjoint [of c] by (auto simp: instr_typed_def mkInstr_def Let_def int_ops_def)

lemma parseInstruction_typed:
  assumes "parseInstruction lm pl = Inr ins" "\<forall>(l, t) \<in> set lm. int32 t"
  shows "instr_typed ins"
proof -
  obtain c syn where t: "map_of opcode_table (plOpcode pl) = Some (c, syn)"
    using assms(1) by (auto simp: parseInstruction_def Let_def split: option.splits)
  note cls = table_lookup_inv [OF t, THEN conjunct2]
  have ctl: "is_control c \<Longrightarrow> c \<in> set int_ops" by (auto simp: is_control_def int_ops_def)
  have lab: "map_of lm l = Some i \<Longrightarrow> int32 i" for l i using assms(2) by (auto dest!: map_of_SomeD)
  have nn: "parseNonNegativeInt x = Some i \<Longrightarrow> int32 i" for x i
    using parseNonNegativeInt_range [of x i] by (simp add: range_simps)
  show ?thesis
  proof (cases syn)
    case LabelOperand
    then show ?thesis using assms(1) t cls ctl lab nn
      by (auto simp: parseInstruction_def syntax_class_def Let_def split: option.splits intro!: typed_int)
  next
    case IntOperand
    then show ?thesis using assms(1) t cls stoi_int32
      by (auto simp: parseInstruction_def syntax_class_def int_ops_def Let_def split: sum.splits intro!: typed_int)
  next
    case HandlerOperand
    then show ?thesis using assms(1) t cls stoi_int32
      by (auto simp: parseInstruction_def syntax_class_def int_ops_def Let_def split: sum.splits if_splits intro!: typed_int)
  next
    case FloatOperand
    then show ?thesis using assms(1) t cls stod_dbl_wf name_ops_disjoint [of PushFlt]
      by (auto simp: parseInstruction_def syntax_class_def instr_typed_def mkInstr_def int_ops_def Let_def split: sum.splits if_splits)
  next
    case CallFuncOperands
    then show ?thesis using assms(1) t cls parseCallFuncOperands_range name_ops_disjoint [of CallFunc]
      by (auto simp: parseInstruction_def syntax_class_def instr_typed_def int_ops_def bindE_eq_Inr_iff Let_def)
  next
    case NoOperand
    then show ?thesis using assms(1) t cls
      by (auto simp: parseInstruction_def syntax_class_def instr_typed_def mkInstr_def Let_def split: if_splits)
  next
    case StringOperand
    then show ?thesis using assms(1) t cls
      by (auto simp: parseInstruction_def syntax_class_def bindE_eq_Inr_iff Let_def intro!: typed_str)
  next
    case (NameOperand w)
    then show ?thesis using assms(1) t cls
      by (auto simp: parseInstruction_def syntax_class_def bindE_eq_Inr_iff Let_def split: if_splits intro!: typed_str)
  qed
qed

lemma pass1_counts:
  assumes "pass1 k lm kept meta ls = Inr (lm', kept', meta')"
    and "\<forall>(l, t) \<in> set lm. 0 \<le> t \<and> t \<le> int (length kept)"
  shows "(\<forall>(l, t) \<in> set lm'. 0 \<le> t \<and> t \<le> int (length kept')) \<and> length kept \<le> length kept' \<and>
    length kept' \<le> length kept + length ls"
  using assms
proof (induction k lm kept meta ls rule: pass1.induct)
  case (2 k lm kept meta line ls)
  show ?case
  proof (cases "take 12 (trim line) = ''#BASICLINES:''")
    case True
    then obtain m where "pass1 (Suc k) lm kept m ls = Inr (lm', kept', meta')"
      using "2.prems"(1) by (auto simp: bindE_eq_Inr_iff)
    then show ?thesis using "2.IH"(1) [OF True, of m] "2.prems"(2) by simp
  next
    case False
    let ?pl = "parseLine line"
    let ?lm = "if plLabel ?pl \<noteq> [] then map_put (plLabel ?pl) (int (length kept)) lm else lm"
    let ?kept = "if plOpcode ?pl \<noteq> [] then kept @ [?pl\<lparr>plSourceLine := Suc k\<rparr>] else kept"
    have "t = int (length kept) \<or> (l, t) \<in> set lm" if "(l, t) \<in> set ?lm" for l t
      using that by (auto split: if_splits dest: map_put_values)
    then have "\<forall>(l, t) \<in> set ?lm. 0 \<le> t \<and> t \<le> int (length ?kept)"
      using "2.prems"(2) by fastforce
    then have "(\<forall>(l, t) \<in> set lm'. 0 \<le> t \<and> t \<le> int (length kept')) \<and> length ?kept \<le> length kept' \<and>
        length kept' \<le> length ?kept + length ls"
      using 2 False by (intro "2.IH"(2)) (simp_all add: Let_def)
    then show ?thesis by (auto split: if_splits)
  qed
qed auto

text \<open>
  C8. Every program the loader accepts is well formed.  Its jump, conditional jump and call
  targets are instructions of the program, every instruction carries the operand its opcode reads with integers in the range of
  \<open>int\<close>, the line table has one entry per instruction, labels point into the program or just
  behind it, and no line of the text yields more than one instruction.
\<close>

theorem parse_well_formed:
  assumes "parse input = Inr lb" "length (program lb) < 2 ^ 31"
  shows "targets_ok (program lb) \<and> list_all instr_typed (program lb) \<and>
    length (sourceLinePerInstr lb) = length (program lb) \<and>
    (\<forall>(l, t) \<in> set (labels lb). 0 \<le> t \<and> t \<le> int (length (program lb))) \<and>
    length (program lb) \<le> length (getlines LF input)"
proof -
  obtain lm kept meta where p: "pass1 0 [] [] [] (getlines LF input) = Inr (lm, kept, meta)"
      "mapE (parseInstruction lm) kept = Inr (program lb)" "validateJumpTargets (program lb) = Inr ()"
      "labels lb = lm" "chooseSourceLines meta kept (program lb) = Inr (sourceLinePerInstr lb)"
    using assms(1) by (auto simp: parse_def bindE_eq_Inr_iff)
  note cnt = pass1_counts [OF p(1), simplified]
  have len: "length (program lb) = length kept" using mapE_length [OF p(2)] .
  then have lab: "\<forall>(l, t) \<in> set lm. int32 t" using cnt assms(2) by (fastforce simp: range_simps)
  have "list_all2 (\<lambda>pl ins. parseInstruction lm pl = Inr ins) kept (program lb)" using p(2) by (simp add: mapE_eq_Inr_iff)
  then have "list_all instr_typed (program lb)"
    using parseInstruction_typed [OF _ lab] by (fastforce simp: list_all2_conv_all_nth list_all_length)
  moreover have "length (sourceLinePerInstr lb) = length (program lb)"
    using p(5) len by (auto simp: chooseSourceLines_def split: if_splits dest: arg_cong [where f = length])
  ultimately show ?thesis using p(3,4) cnt len by (simp add: validate_iff)
qed

theorem parse_well_formed_witness:
  "\<exists>t lb. serializeBytecodeText sample_program [] = Inr t \<and> parse t = Inr lb \<and> list_all instr_typed (program lb)"
proof -
  obtain t lb where t: "serializeBytecodeText sample_program [] = Inr t" "parse t = Inr lb" "program lb = sample_program"
    using parse_serialized [OF sample_program_ok(1,2), of "[]"] by auto
  then show ?thesis using parse_well_formed [OF t(2)] sample_program_ok(3) by auto
qed

text \<open>
  Floating-point constants do not survive the text form: the serializer prints them with the six
  significant digits of the stream's default precision, so the constant 1234567.0 is written as
  \<open>1.23457e+06\<close> and loaded as 1234570.0.
\<close>

theorem float_constant_changes:
  "bindE (serializeBytecodeText [mkInstr PushFlt (DblV (dbl_of_int 1234567))] []) parse =
     Inr \<lparr>program = [mkInstr PushFlt (DblV (dbl_of_int 1234570))], labels = [], sourceLinePerInstr = [1]\<rparr>"
  by code_simp

end
