(* ===== verification/Conversion.thy ===== *)
theory Conversion
  imports Values
begin

text \<open>
  The Pick conversion codes of \<open>src/core/conversion\<close>: \<open>PickOconv.cpp\<close> (internal to external: dates \<open>D\<close>, times
  \<open>MT\<close> and \<open>MTS\<close>, masked decimals \<open>MD\<close> and \<open>MD2\<close>, case \<open>MCU\<close> and \<open>MCL\<close>) and \<open>PickIconv.cpp\<close> (the way back).
  What the code uses of the C++ library is defined first: stream extraction of integers and words, and the
  Gregorian calendar of \<open>gmtime_r\<close> as years of a 400-year cycle that start on the first of March.
  The theorems are the round trips of the codes and the ranges of their results.
\<close>

section \<open>Stream extraction\<close>

text \<open>\<open>iss >> n\<close> for an \<open>int\<close>: white space, a sign, digits; failure without digits or out of range.\<close>

definition extract_int :: "string \<Rightarrow> (int \<times> string) option" where
  "extract_int s =
     (case strtol_scan s of None \<Rightarrow> None
      | Some (neg, n, rest) \<Rightarrow> if int32 (signed_of neg n) then Some (signed_of neg n, rest) else None)"

text \<open>\<open>iss >> word\<close> and \<open>iss >> c\<close>.\<close>

definition extract_word :: "string \<Rightarrow> (string \<times> string) option" where
  "extract_word s =
     (let t = dropWhile isspace s
      in if t = [] then None else Some (takeWhile (\<lambda>c. \<not> isspace c) t, dropWhile (\<lambda>c. \<not> isspace c) t))"

definition extract_char :: "string \<Rightarrow> (char \<times> string) option" where
  "extract_char s = (case dropWhile isspace s of [] \<Rightarrow> None | c # cs \<Rightarrow> Some (c, cs))"

definition nothing_left :: "string \<Rightarrow> bool" where
  "nothing_left s \<longleftrightarrow> extract_word s = None"

section \<open>The calendar\<close>

definition kPickInternalDateAtUnixEpoch :: int where
  "kPickInternalDateAtUnixEpoch = 732"

text \<open>Days before year \<open>y\<close> of a 400-year cycle whose years start on the first of March.\<close>

definition year_start :: "int \<Rightarrow> int" where
  "year_start y = 365 * y + y div 4 - y div 100"

text \<open>The last year of the cycle that starts at or before day \<open>doe\<close>.\<close>

fun year_of_era :: "nat \<Rightarrow> int \<Rightarrow> int" where
  "year_of_era 0 doe = 0"
| "year_of_era (Suc y) doe = (if year_start (int (Suc y)) \<le> doe then int (Suc y) else year_of_era y doe)"

text \<open>\<open>gmtime_r\<close>: year, month and day of a day number counted from 1 January 1970.\<close>

definition civil_from_days :: "int \<Rightarrow> int \<times> int \<times> int" where
  "civil_from_days days =
     (let z = days + 719468;
          era = z div 146097;
          doe = z mod 146097;
          yoe = year_of_era 399 doe;
          doy = doe - year_start yoe;
          mp = (5 * doy + 2) div 153;
          d = doy - (153 * mp + 2) div 5 + 1;
          m = (if mp < 10 then mp + 3 else mp - 9)
      in (yoe + era * 400 + (if m \<le> 2 then 1 else 0), m, d))"

definition daysFromCivil :: "int \<Rightarrow> int \<Rightarrow> int \<Rightarrow> int" where
  "daysFromCivil y m d =
     (let year = y - (if m \<le> 2 then 1 else 0);
          era = trunc_div (if 0 \<le> year then year else year - 399) 400;
          yoe = year - era * 400;
          doy = (153 * (if 2 < m then m - 3 else m + 9) + 2) div 5 + d - 1;
          doe = yoe * 365 + yoe div 4 - yoe div 100 + doy
      in era * 146097 + doe - 719468)"

definition month_names :: "string list" where
  "month_names = [''jan'', ''feb'', ''mar'', ''apr'', ''may'', ''jun'', ''jul'', ''aug'', ''sep'', ''oct'', ''nov'', ''dec'']"

definition month_abbrevs :: "string list" where
  "month_abbrevs = [''Jan'', ''Feb'', ''Mar'', ''Apr'', ''May'', ''Jun'', ''Jul'', ''Aug'', ''Sep'', ''Oct'', ''Nov'', ''Dec'']"

definition pad_zeros :: "nat \<Rightarrow> string \<Rightarrow> string" where
  "pad_zeros n s = replicate (n - length s) CHR ''0'' @ s"

section \<open>Output conversion\<close>

definition trimmed :: "string \<Rightarrow> string" where
  "trimmed s = strip isspace s"

definition coerceStringToInt :: "string \<Rightarrow> int result" where
  "coerceStringToInt s =
     (if s = [] then Inr 0
      else case strtod s of None \<Rightarrow> Inr 0
           | Some (n, endp, erange) \<Rightarrow>
               if erange then Inr 0
               else if dbl_less n (dbl_of_int int_min) \<or> dbl_less (dbl_of_int int_max) n then Inr 0
               else dbl_to_int n)"

definition dateStringFromPickDay :: "int \<Rightarrow> string" where
  "dateStringFromPickDay day =
     (let (y, m, d) = civil_from_days (day - kPickInternalDateAtUnixEpoch)
      in pad_zeros 2 (show_int d) @ [SP] @ month_abbrevs ! nat (m - 1) @ [SP] @ show_int y)"

definition timeStringFromSeconds :: "int \<Rightarrow> bool \<Rightarrow> string" where
  "timeStringFromSeconds n wantSeconds =
     (let r = trunc_mod n 86400;
          n' = (if r < 0 then r + 86400 else r);
          h = n' div 3600; m = (n' div 60) mod 60; s = n' mod 60
      in if wantSeconds then pad_zeros 2 (show_int h) @ '':'' @ pad_zeros 2 (show_int m) @ '':'' @ pad_zeros 2 (show_int s)
         else pad_zeros 2 (show_int h) @ '':'' @ pad_zeros 2 (show_int m))"

definition formatMdScaled :: "int \<Rightarrow> nat \<Rightarrow> string" where
  "formatMdScaled intVal decimals =
     (if decimals = 0 then show_int intVal
      else let absVal = nat \<bar>intVal\<bar>; divisor = 10 ^ decimals
           in (if intVal < 0 then ''-'' else []) @ show_nat (absVal div divisor) @ ''.'' @
              pad_zeros decimals (show_nat (absVal mod divisor)))"

definition oconvOutputImpl :: "string \<Rightarrow> string \<Rightarrow> bool \<Rightarrow> string option result" where
  "oconvOutputImpl v code builtinErrors =
     bindE (coerceStringToInt v) (\<lambda>asInt.
       if code = ''D'' then Inr (Some (dateStringFromPickDay asInt))
       else if code = ''MT'' \<or> code = ''MTS'' then Inr (Some (timeStringFromSeconds asInt (code = ''MTS'')))
       else if code = ''MCU'' \<or> code = ''MCL'' then Inr (Some (if code = ''MCU'' then upperCopy v else lowerCopy v))
       else if code = ''MD'' \<or> code = ''MD2'' then Inr (Some (formatMdScaled asInt (if code = ''MD2'' then 2 else 0)))
       else if builtinErrors then Inl (RuntimeError (''BUILTIN: OCONV unsupported code '' @ [DQ] @ code @ [DQ]))
       else Inr None)"

text \<open>\<open>oconvOutput\<close> returns the result and the error text.\<close>

definition oconvOutput :: "string \<Rightarrow> string \<Rightarrow> (string option \<times> string) result" where
  "oconvOutput v codeRaw =
     (let trimmedCode = trimmed codeRaw
      in bindE (oconvOutputImpl v (upperCopy trimmedCode) False) (\<lambda>r.
           case r of Some out \<Rightarrow> Inr (Some out, [])
           | None \<Rightarrow> Inr (None, ''F-type: unsupported conversion code '' @ [DQ] @ trimmedCode @ [DQ])))"

definition oconvOutputBuiltin :: "string \<Rightarrow> string \<Rightarrow> string result" where
  "oconvOutputBuiltin v codeRaw =
     bindE (oconvOutputImpl v (upperCopy (trimmed codeRaw)) True) (\<lambda>r.
       case r of Some out \<Rightarrow> Inr out
       | None \<Rightarrow> Inl (RuntimeError (''BUILTIN: OCONV unsupported code '' @ [DQ] @ codeRaw @ [DQ])))"

section \<open>Input conversion\<close>

definition month_index :: "string \<Rightarrow> nat option" where
  "month_index monLower =
     (if 3 \<le> length monLower
      then map_option fst (find (\<lambda>(i, nm). take 3 monLower = nm) (enumerate 0 month_names))
      else None)"

definition pickDayFromDateString :: "string \<Rightarrow> int option" where
  "pickDayFromDateString s =
     (case extract_int s of None \<Rightarrow> None | Some (day, s1) \<Rightarrow>
      (case extract_word s1 of None \<Rightarrow> None | Some (monStr, s2) \<Rightarrow>
       (case extract_int s2 of None \<Rightarrow> None | Some (year, s3) \<Rightarrow>
          if \<not> nothing_left s3 then None
          else if day < 1 \<or> 31 < day \<or> year < 1 \<or> 9999 < year then None
          else case month_index (lowerCopy monStr) of
                 None \<Rightarrow> None
               | Some i \<Rightarrow> Some (daysFromCivil year (int i + 1) day + kPickInternalDateAtUnixEpoch))))"

definition secondsFromTimeString :: "string \<Rightarrow> bool \<Rightarrow> int option" where
  "secondsFromTimeString s wantSeconds =
     (case extract_int s of None \<Rightarrow> None | Some (h, s1) \<Rightarrow>
      (case extract_char s1 of None \<Rightarrow> None | Some (c1, s2) \<Rightarrow>
       (case extract_int s2 of None \<Rightarrow> None | Some (m, s3) \<Rightarrow>
        (let check = (\<lambda>sec rest. if \<not> nothing_left rest then None
             else if h < 0 \<or> 23 < h \<or> m < 0 \<or> 59 < m \<or> sec < 0 \<or> 59 < sec then None
             else Some (h * 3600 + m * 60 + sec))
         in if wantSeconds
            then (case extract_char s3 of None \<Rightarrow> None | Some (c2, s4) \<Rightarrow>
                  (case extract_int s4 of None \<Rightarrow> None | Some (sec, s5) \<Rightarrow>
                     if c1 \<noteq> CHR '':'' \<or> c2 \<noteq> CHR '':'' then None else check sec s5))
            else if c1 \<noteq> CHR '':'' then None else check 0 s3))))"

text \<open>A \<open>long long\<close> accumulator: overflow is undefined behaviour.\<close>

definition checked_int64 :: "int \<Rightarrow> int result" where
  "checked_int64 i = (if int64 i then Inr i else Inl UndefinedBehaviour)"

fun md_int_part :: "int \<Rightarrow> string \<Rightarrow> int result" where
  "md_int_part acc [] = Inr acc"
| "md_int_part acc (c # cs) = bindE (checked_int64 (acc * 10 + int (digit_value c))) (\<lambda>a. md_int_part a cs)"

text \<open>The final arithmetic: integer part, fraction digits up to \<open>decimals\<close> and the rounding digit behind them.\<close>

definition md_combine :: "bool \<Rightarrow> nat \<Rightarrow> int \<Rightarrow> string \<Rightarrow> int result" where
  "md_combine negative decimals intPart fd =
     (let kept = take decimals fd;
          fracPart = int (nat_of_digits kept) * 10 ^ (decimals - length kept);
          roundUp = (decimals < length fd \<and> 5 \<le> digit_value (fd ! decimals))
      in bindE (checked_int64 (intPart * 10 ^ decimals)) (\<lambda>a.
         bindE (checked_int64 (a + fracPart)) (\<lambda>b.
         bindE (if roundUp then checked_int64 (b + 1) else Inr b) (\<lambda>val.
           Inr (if negative then - val else val)))))"

text \<open>The result without \<open>ok\<close> is \<open>None\<close>.\<close>

definition parseMdScaled :: "string \<Rightarrow> nat \<Rightarrow> int option result" where
  "parseMdScaled s decimals =
     (if s = [] then Inr None
      else let (negative, t) = take_sign s;
               ip = takeWhile isdigit t; t1 = dropWhile isdigit t;
               hasPoint = (t1 \<noteq> [] \<and> hd t1 = CHR ''.'');
               fd = (if hasPoint then takeWhile isdigit (tl t1) else []);
               t2 = (if hasPoint then dropWhile isdigit (tl t1) else t1)
           in bindE (md_int_part 0 ip) (\<lambda>intPart.
                if t2 \<noteq> [] \<or> (ip = [] \<and> fd = []) then Inr None
                else bindE (md_combine negative decimals intPart fd) (\<lambda>val. Inr (Some val))))"

definition iconv_invalid :: "string \<Rightarrow> bool \<Rightarrow> string option result" where
  "iconv_invalid code builtinErrors =
     (if builtinErrors then Inl (RuntimeError (''BUILTIN: ICONV invalid '' @ [DQ] @ code @ [DQ] @ '' input'')) else Inr None)"

definition iconvOutputImpl :: "string \<Rightarrow> string \<Rightarrow> bool \<Rightarrow> string option result" where
  "iconvOutputImpl v code builtinErrors =
     (if code = ''D'' then
        (case pickDayFromDateString v of None \<Rightarrow> iconv_invalid code builtinErrors
         | Some day \<Rightarrow> Inr (Some (show_int day)))
      else if code = ''MT'' \<or> code = ''MTS'' then
        (case secondsFromTimeString v (code = ''MTS'') of None \<Rightarrow> iconv_invalid code builtinErrors
         | Some n \<Rightarrow> Inr (Some (show_int n)))
      else if code = ''MCU'' \<or> code = ''MCL'' then Inr (Some (if code = ''MCU'' then upperCopy v else lowerCopy v))
      else if code = ''MD'' \<or> code = ''MD2'' then
        bindE (parseMdScaled v (if code = ''MD2'' then 2 else 0)) (\<lambda>r.
          case r of
            Some n \<Rightarrow> if int32 n then Inr (Some (show_int n)) else iconv_invalid code builtinErrors
          | None \<Rightarrow> iconv_invalid code builtinErrors)
      else if builtinErrors then Inl (RuntimeError (''BUILTIN: ICONV unsupported code '' @ [DQ] @ code @ [DQ]))
      else Inr None)"

definition iconvOutput :: "string \<Rightarrow> string \<Rightarrow> (string option \<times> string) result" where
  "iconvOutput v codeRaw =
     (let trimmedCode = trimmed codeRaw; code = upperCopy trimmedCode
      in bindE (iconvOutputImpl v code False) (\<lambda>r.
           case r of Some out \<Rightarrow> Inr (Some out, [])
           | None \<Rightarrow>
               if code = ''D'' \<or> code = ''MT'' \<or> code = ''MTS'' \<or> code = ''MD'' \<or> code = ''MD2''
               then Inr (None, ''I-type: invalid ICONV '' @ [DQ] @ trimmedCode @ [DQ] @ '' input'')
               else Inr (None, ''I-type: unsupported conversion code '' @ [DQ] @ trimmedCode @ [DQ])))"

definition iconvOutputBuiltin :: "string \<Rightarrow> string \<Rightarrow> string result" where
  "iconvOutputBuiltin v codeRaw =
     bindE (iconvOutputImpl v (upperCopy (trimmed codeRaw)) True) (\<lambda>r.
       case r of Some out \<Rightarrow> Inr out
       | None \<Rightarrow> Inl (RuntimeError (''BUILTIN: ICONV unsupported code '' @ [DQ] @ codeRaw @ [DQ])))"

section \<open>The calendar is consistent\<close>

lemma year_of_era_props:
  "0 \<le> doe \<Longrightarrow> 0 \<le> year_of_era n doe \<and> year_of_era n doe \<le> int n \<and> year_start (year_of_era n doe) \<le> doe \<and>
    (year_of_era n doe < int n \<longrightarrow> doe < year_start (year_of_era n doe + 1))"
proof (induction n)
  case (Suc n)
  then show ?case by (cases "year_of_era n doe = int n") (auto simp: ac_simps)
qed (simp add: year_start_def)

lemma year_start_step: "year_start (y + 1) \<le> year_start y + 366"
proof -
  have "(y + 1) div 4 \<le> (y + 4) div 4" "y div 100 \<le> (y + 1) div 100" by (rule zdiv_mono1, simp_all)+
  moreover have "(y + 4) div 4 = y div 4 + 1" by simp
  ultimately show ?thesis by (simp add: year_start_def)
qed

lemma day_of_year_bounds:
  assumes "0 \<le> doe" "doe < 146097"
  shows "0 \<le> year_of_era 399 doe" "year_of_era 399 doe \<le> 399"
    "0 \<le> doe - year_start (year_of_era 399 doe)" "doe - year_start (year_of_era 399 doe) \<le> 365"
proof -
  let ?y = "year_of_era 399 doe"
  note p = year_of_era_props [OF assms(1), of 399]
  show "0 \<le> ?y" "?y \<le> 399" "0 \<le> doe - year_start ?y" using p by simp_all
  show "doe - year_start ?y \<le> 365"
  proof (cases "?y = 399")
    case True
    then have "year_start ?y = 145731" unfolding True by (simp add: year_start_def)
    then show ?thesis using assms(2) by simp
  next
    case False
    then have "doe < year_start (?y + 1)" using p by simp
    then show ?thesis using year_start_step [of ?y] by simp
  qed
qed

lemma month_day_bounds:
  assumes "0 \<le> doy" "doy \<le> (365 :: int)"
  defines "mp \<equiv> (5 * doy + 2) div 153"
  shows "0 \<le> mp" "mp \<le> 11" "1 \<le> doy - (153 * mp + 2) div 5 + 1" "doy - (153 * mp + 2) div 5 + 1 \<le> 31"
proof -
  show mp: "0 \<le> mp" "mp \<le> 11" using assms by auto
  have b: "153 * mp \<le> 5 * doy + 2" "5 * doy + 2 < 153 * mp + 153" unfolding mp_def by auto
  have "mp = 0 \<or> mp = 1 \<or> mp = 2 \<or> mp = 3 \<or> mp = 4 \<or> mp = 5 \<or> mp = 6 \<or> mp = 7 \<or> mp = 8 \<or> mp = 9 \<or> mp = 10 \<or> mp = 11"
    using mp by presburger
  then have "1 \<le> doy - (153 * mp + 2) div 5 + 1 \<and> doy - (153 * mp + 2) div 5 + 1 \<le> 31" using b by (elim disjE; simp)
  then show "1 \<le> doy - (153 * mp + 2) div 5 + 1" "doy - (153 * mp + 2) div 5 + 1 \<le> 31" by simp_all
qed

lemma div_mod_split: "x = x div c * c + (a + (x mod c - a))" for x :: int
  by simp

lemma civil_decompose:
  assumes "civil_from_days days = (y, m, d)"
  shows "\<exists>era yoe doy mp. days + 719468 = era * 146097 + (year_start yoe + doy) \<and> 0 \<le> yoe \<and> yoe \<le> 399 \<and>
    0 \<le> mp \<and> mp \<le> 11 \<and> 1 \<le> d \<and> d \<le> 31 \<and> d = doy - (153 * mp + 2) div 5 + 1 \<and>
    m = (if mp < 10 then mp + 3 else mp - 9) \<and> y = yoe + era * 400 + (if m \<le> 2 then 1 else 0)"
proof -
  let ?z = "days + 719468"
  let ?yoe = "year_of_era 399 (?z mod 146097)"
  let ?doy = "?z mod 146097 - year_start ?yoe"
  let ?mp = "(5 * ?doy + 2) div 153"
  have doe: "0 \<le> ?z mod 146097" "?z mod 146097 < 146097" by (rule pos_mod_sign pos_mod_bound, simp)+
  note yb = day_of_year_bounds [OF doe]
  note mb = month_day_bounds [OF yb(3,4)]
  have e: "?yoe + ?z div 146097 * 400 + (if (if ?mp < 10 then ?mp + 3 else ?mp - 9) \<le> 2 then 1 else 0) = y \<and>
      (if ?mp < 10 then ?mp + 3 else ?mp - 9) = m \<and> ?doy - (153 * ?mp + 2) div 5 + 1 = d"
    using assms unfolding civil_from_days_def Let_def prod.inject .
  then have m: "(if ?mp < 10 then ?mp + 3 else ?mp - 9) = m" by (rule conjunct2 [THEN conjunct1])
  have eq: "y = ?yoe + ?z div 146097 * 400 + (if m \<le> 2 then 1 else 0)" "d = ?doy - (153 * ?mp + 2) div 5 + 1"
    using e unfolding m by blast+
  have z: "?z = ?z div 146097 * 146097 + (year_start ?yoe + ?doy)" by (rule div_mod_split)
  show ?thesis
    apply (rule exI [of _ "?z div 146097"], rule exI [of _ ?yoe], rule exI [of _ ?doy], rule exI [of _ ?mp])
    using z yb(1,2) mb eq m [symmetric] by blast
qed

lemma civil_from_days_range:
  "civil_from_days days = (y, m, d) \<Longrightarrow> 1 \<le> m \<and> m \<le> 12 \<and> 1 \<le> d \<and> d \<le> 31"
  by (drule civil_decompose) auto

lemma days_civil_days:
  assumes "civil_from_days days = (y, m, d)"
  shows "daysFromCivil y m d = days"
proof -
  obtain era yoe doy mp where z: "days + 719468 = era * 146097 + (year_start yoe + doy)"
    and yoe: "0 \<le> yoe" "yoe \<le> 399" and mp: "0 \<le> mp" "mp \<le> 11" and d: "d = doy - (153 * mp + 2) div 5 + 1"
    and m: "m = (if mp < 10 then mp + 3 else mp - 9)" and y: "y = yoe + era * 400 + (if m \<le> 2 then 1 else 0)"
    using civil_decompose [OF assms] by blast
  have year: "y - (if m \<le> 2 then 1 else 0) = yoe + era * 400" using y by simp
  have era: "trunc_div (if 0 \<le> yoe + era * 400 then yoe + era * 400 else yoe + era * 400 - 399) 400 = era"
  proof (cases "0 \<le> yoe + era * 400")
    case True
    then have "0 \<le> era" using yoe by simp
    then show ?thesis using yoe True by (auto simp: trunc_div_def sgn_if)
  next
    case False
    then have neg: "era < 0" using yoe by simp
    have q: "- (yoe + era * 400 - 399) = (399 - yoe) + (- era) * 400" by simp
    have "(- (yoe + era * 400 - 399)) div 400 = - era" unfolding q using yoe by simp
    then show ?thesis using False neg yoe by (simp add: trunc_div_def sgn_if abs_if)
  qed
  have mon: "(if 2 < m then m - 3 else m + 9) = mp" using mp by (auto simp: m)
  have "daysFromCivil y m d = era * 146097 + (yoe * 365 + yoe div 4 - yoe div 100 + ((153 * mp + 2) div 5 + d - 1)) - 719468"
    unfolding daysFromCivil_def Let_def year era mon by simp
  then show ?thesis using z d by (simp add: year_start_def)
qed

section \<open>Round trips of the codes\<close>

lemma pad_zeros_digits: "list_all isdigit s \<Longrightarrow> list_all isdigit (pad_zeros n s)"
proof -
  have "isdigit CHR ''0''" by (simp add: isdigit_def code_of_def)
  then show "list_all isdigit s \<Longrightarrow> list_all isdigit (pad_zeros n s)" by (auto simp: pad_zeros_def list_all_iff)
qed

lemma nat_of_digits_zeros: "nat_of_digits (replicate k CHR ''0'' @ s) = nat_of_digits s"
proof -
  have "foldl (\<lambda>n c. 10 * n + digit_value c) 0 (replicate k CHR ''0'') = 0"
    by (induction k) (simp_all add: digit_value_def code_of_def)
  then show ?thesis by (simp add: nat_of_digits_def)
qed

lemma nat_of_digits_pad [simp]: "nat_of_digits (pad_zeros k s) = nat_of_digits s"
  by (simp add: pad_zeros_def nat_of_digits_zeros)

lemma pad_zeros_not_Nil: "s \<noteq> [] \<Longrightarrow> pad_zeros n s \<noteq> []"
  by (simp add: pad_zeros_def)

lemma strtol_scan_digits:
  assumes "list_all isdigit ds" "ds \<noteq> []" "no_digit_first r"
  shows "strtol_scan (ds @ r) = Some (False, nat_of_digits ds, r)"
proof -
  obtain c cs where c: "ds = c # cs" "isdigit c" using assms by (cases ds) auto
  then have "take_sign (dropWhile isspace (ds @ r)) = (False, ds @ r)"
    by (simp add: take_sign_def digit_not_sign digit_not_space)
  then show ?thesis using span_digits [OF assms(1,3)] assms(2) by (simp add: strtol_scan_def)
qed

lemma extract_int_padded:
  assumes "0 \<le> i" "i \<le> int_max" "no_digit_first r"
  shows "extract_int (pad_zeros n (show_int i) @ r) = Some (i, r)"
proof -
  have "show_int i = show_nat (nat i)" using assms(1) by (simp add: show_int_def)
  then show ?thesis
    using assms strtol_scan_digits [of "pad_zeros n (show_nat (nat i))" r] show_nat_digits pad_zeros_digits
    by (simp add: extract_int_def pad_zeros_not_Nil signed_of_def range_simps)
qed

lemma extract_int_space: "extract_int (SP # s) = extract_int s"
  by (simp add: extract_int_def strtol_scan_def isspace_def)

lemma no_digit_first_colon [simp]: "no_digit_first (CHR '':'' # s)" "no_digit_first (SP # s)" "no_digit_first (CHR ''.'' # s)"
  by (simp_all add: no_digit_first_def isdigit_def code_of_def)

lemma nothing_left_Nil [simp]: "nothing_left []"
  by (simp add: nothing_left_def extract_word_def)

lemma extract_colon: "extract_char (CHR '':'' # s) = Some (CHR '':'', s)"
  by (simp add: extract_char_def isspace_def code_of_def)

lemma extract_small:
  "0 \<le> i \<Longrightarrow> i \<le> 59 \<Longrightarrow> no_digit_first r \<Longrightarrow> extract_int (pad_zeros 2 (show_int i) @ r) = Some (i, r)"
  by (rule extract_int_padded) (simp_all add: range_simps)

lemma seconds_of_clock:
  assumes "0 \<le> h" "h \<le> 23" "0 \<le> m" "m \<le> 59" "0 \<le> s" "s \<le> 59"
  shows "secondsFromTimeString (pad_zeros 2 (show_int h) @ '':'' @ pad_zeros 2 (show_int m) @ '':'' @ pad_zeros 2 (show_int s)) True =
      Some (h * 3600 + m * 60 + s)"
    "secondsFromTimeString (pad_zeros 2 (show_int h) @ '':'' @ pad_zeros 2 (show_int m)) False = Some (h * 3600 + m * 60)"
  using assms extract_small [of s "[]"] extract_small [of m "[]"]
  by (simp_all add: secondsFromTimeString_def extract_small extract_colon)

lemma clock_parts:
  assumes "0 \<le> n" "n < (86400 :: int)"
  shows "0 \<le> n div 3600" "n div 3600 \<le> 23" "n div 3600 * 3600 + (n div 60) mod 60 * 60 + n mod 60 = n"
proof -
  show "0 \<le> n div 3600" "n div 3600 \<le> 23" using assms by auto
  have "n div 60 div 60 = n div 3600" by (simp add: zdiv_zmult2_eq [symmetric])
  then have "n div 3600 * 60 + (n div 60) mod 60 = n div 60" using div_mult_mod_eq [of "n div 60" 60] by simp
  then show "n div 3600 * 3600 + (n div 60) mod 60 * 60 + n mod 60 = n" using div_mult_mod_eq [of n 60] by linarith
qed

lemma time_round_trip:
  assumes "0 \<le> n" "n < 86400"
  shows "secondsFromTimeString (timeStringFromSeconds n True) True = Some n"
    "secondsFromTimeString (timeStringFromSeconds n False) False = Some (n - n mod 60)"
proof -
  have r: "trunc_mod n 86400 = n" using assms by (simp add: trunc_mod_eq sgn_if)
  note c = clock_parts [OF assms]
  have b: "0 \<le> (n div 60) mod 60" "(n div 60) mod 60 \<le> 59" "0 \<le> n mod 60" "n mod 60 \<le> 59"
    using pos_mod_bound [of 60 "n div 60"] pos_mod_bound [of 60 n] by simp_all
  note ok = seconds_of_clock [OF c(1,2) b]
  have neg: "(n < 0) = False" using assms by simp
  show "secondsFromTimeString (timeStringFromSeconds n True) True = Some n"
    unfolding timeStringFromSeconds_def r Let_def if_True neg if_False ok c(3) by (rule refl)
  show "secondsFromTimeString (timeStringFromSeconds n False) False = Some (n - n mod 60)"
    unfolding timeStringFromSeconds_def r Let_def neg if_False ok using c(3) by simp
qed

lemma extract_word_month:
  assumes "i < 12"
  shows "extract_word (SP # month_abbrevs ! i @ SP # r) = Some (month_abbrevs ! i, SP # r)"
    "month_index (lowerCopy (month_abbrevs ! i)) = Some i"
proof -
  have all: "list_all (\<lambda>m. list_all (\<lambda>c. \<not> isspace c) m \<and> m \<noteq> []) month_abbrevs" "length month_abbrevs = 12" by code_simp+
  have "month_abbrevs ! i \<in> set month_abbrevs" using assms all(2) by simp
  then have m: "\<forall>c \<in> set (month_abbrevs ! i). \<not> isspace c" "month_abbrevs ! i \<noteq> []"
    using all(1) by (auto simp: list_all_iff)
  then have "dropWhile isspace (SP # month_abbrevs ! i @ SP # r) = month_abbrevs ! i @ SP # r"
    by (cases "month_abbrevs ! i") (auto simp: isspace_def)
  moreover have sp: "isspace SP" by (simp add: isspace_def)
  ultimately show "extract_word (SP # month_abbrevs ! i @ SP # r) = Some (month_abbrevs ! i, SP # r)"
    using m by (auto simp: extract_word_def Let_def takeWhile_append2 dropWhile_append2)
  have "list_all (\<lambda>i. month_index (lowerCopy (month_abbrevs ! i)) = Some i) [0..<12]" by code_simp
  then show "month_index (lowerCopy (month_abbrevs ! i)) = Some i" using assms by (auto simp: list_all_iff)
qed

lemma date_round_trip:
  assumes "civil_from_days (day - kPickInternalDateAtUnixEpoch) = (y, m, d)" "1 \<le> y" "y \<le> 9999"
  shows "pickDayFromDateString (dateStringFromPickDay day) = Some day"
proof -
  note r = civil_from_days_range [OF assms(1)]
  let ?mon = "month_abbrevs ! nat (m - 1)"
  have s: "dateStringFromPickDay day = pad_zeros 2 (show_int d) @ SP # ?mon @ SP # pad_zeros 0 (show_int y) @ []"
    using assms(1) by (simp add: dateStringFromPickDay_def pad_zeros_def)
  have d: "extract_int (pad_zeros 2 (show_int d) @ SP # x) = Some (d, SP # x)" for x
    using r by (intro extract_int_padded) (simp_all add: range_simps)
  have y: "extract_int (SP # pad_zeros 0 (show_int y) @ []) = Some (y, [])"
    unfolding extract_int_space using assms(2,3) by (intro extract_int_padded) (simp_all add: range_simps)
  have mi: "nat (m - 1) < 12" using r by linarith
  show ?thesis
    unfolding s pickDayFromDateString_def
    using r d y extract_word_month [OF mi] assms(2,3) days_civil_days [OF assms(1)] by (simp del: append_Nil2)
qed

lemma md_int_part_digits:
  assumes "list_all isdigit ds" "0 \<le> acc" "int64 (acc * 10 ^ length ds + 10 ^ length ds - 1)"
  shows "md_int_part acc ds = Inr (foldl (\<lambda>n c. 10 * n + int (digit_value c)) acc ds)"
  using assms
proof (induction ds arbitrary: acc)
  case (Cons c ds)
  have dv: "digit_value c \<le> 9" using Cons.prems(1) by (auto simp: isdigit_def digit_value_def)
  let ?a = "acc * 10 + int (digit_value c)"
  have "?a * 10 ^ length ds + 10 ^ length ds \<le> acc * 10 ^ length (c # ds) + 10 ^ length (c # ds)"
  proof -
    have "(?a + 1) * 10 ^ length ds \<le> (acc * 10 + 10) * 10 ^ length ds" using dv by (intro mult_right_mono) auto
    then show ?thesis by (simp add: algebra_simps)
  qed
  moreover have "?a \<le> ?a * 10 ^ length ds + 10 ^ length ds - 1"
  proof -
    have "0 \<le> ?a * (10 ^ length ds - 1) + (10 ^ length ds - 1)" using Cons.prems(2) by simp
    then show ?thesis by (simp add: algebra_simps)
  qed
  ultimately have "int64 (?a * 10 ^ length ds + 10 ^ length ds - 1)" "int64 ?a"
    using Cons.prems(2,3) by (auto simp: int64_def)
  then show ?case using Cons by (simp add: checked_int64_def ac_simps)
qed simp

lemma foldl_digits_int: "foldl (\<lambda>n c. 10 * n + int (digit_value c)) (int a) ds = int (foldl (\<lambda>n c. 10 * n + digit_value c) a ds)"
proof (induction ds arbitrary: a)
  case (Cons c ds)
  then show ?case using Cons [of "10 * a + digit_value c"] by simp
qed simp

lemma length_show_nat: "n < 10 ^ k \<Longrightarrow> 0 < k \<Longrightarrow> length (show_nat n) \<le> k"
proof (induction k arbitrary: n)
  case (Suc k)
  show ?case
  proof (cases "n < 10")
    case True
    then show ?thesis by (subst show_nat.simps) simp
  next
    case False
    then have "0 < k" using Suc.prems by (cases k) auto
    moreover have "n div 10 < 10 ^ k" using Suc.prems by (simp add: less_mult_imp_div_less)
    ultimately have "length (show_nat (n div 10)) \<le> k" using Suc.IH by blast
    then show ?thesis using False by (subst show_nat.simps) simp
  qed
qed simp

lemma md_int_part_show:
  assumes "n < 10 ^ 10"
  shows "md_int_part 0 (show_nat n) = Inr (int n)"
proof -
  have len: "length (show_nat n) \<le> 10" using length_show_nat [OF assms] by simp
  have "int64 (0 * x + x - 1)" if "0 < x" "x \<le> 10 ^ 10" for x using that by (simp add: int64_def)
  moreover have "(10 :: int) ^ length (show_nat n) \<le> 10 ^ 10" using len by (intro power_increasing) auto
  ultimately have "md_int_part 0 (show_nat n) = Inr (foldl (\<lambda>n c. 10 * n + int (digit_value c)) 0 (show_nat n))"
    using show_nat_digits [of n] by (intro md_int_part_digits) simp_all
  also have "\<dots> = Inr (int (nat_of_digits (show_nat n)))"
    using foldl_digits_int [of 0 "show_nat n"] by (simp only: nat_of_digits_def of_nat_0)
  finally show ?thesis by simp
qed

lemma take_sign_show:
  "take_sign ((if neg then ''-'' else []) @ show_nat n @ r) = (neg, show_nat n @ r)"
  using show_nat_Cons [of n] by (auto simp: take_sign_def digit_not_sign)

lemma parseMdScaled_parts:
  assumes "list_all isdigit f" "length f = k" "q < 10 ^ 10"
    and "int64 (int q * 10 ^ k)" "int64 (int q * 10 ^ k + int (nat_of_digits f))"
  shows "parseMdScaled ((if neg then ''-'' else []) @ show_nat q @ CHR ''.'' # f) k =
    Inr (Some (if neg then - (int q * 10 ^ k + int (nat_of_digits f)) else int q * 10 ^ k + int (nat_of_digits f)))"
proof -
  have ip: "takeWhile isdigit (show_nat q @ CHR ''.'' # f) = show_nat q" "dropWhile isdigit (show_nat q @ CHR ''.'' # f) = CHR ''.'' # f"
    using span_digits [OF show_nat_digits] by simp_all
  have fp: "takeWhile isdigit f = f" "dropWhile isdigit f = []" using span_digits [OF assms(1), of "[]"] by simp_all
  show ?thesis
    unfolding parseMdScaled_def take_sign_show Let_def prod.case ip list.sel fp
    using assms(2,4,5) md_int_part_show [OF assms(3)] by (simp add: md_combine_def checked_int64_def)
qed

lemma parseMdScaled_int:
  assumes "q < 10 ^ 10"
  shows "parseMdScaled ((if neg then ''-'' else []) @ show_nat q @ []) 0 = Inr (Some (if neg then - int q else int q))"
proof -
  have ip: "takeWhile isdigit (show_nat q @ []) = show_nat q" "dropWhile isdigit (show_nat q @ []) = []"
    using span_digits [OF show_nat_digits, of "[]" q] by simp_all
  have "int64 (int q)" using assms by (simp add: int64_def)
  then show ?thesis
    unfolding parseMdScaled_def take_sign_show Let_def prod.case ip
    using md_int_part_show [OF assms] by (simp add: md_combine_def checked_int64_def nat_of_digits_def)
qed

lemma md_round_trip:
  assumes "int32 n"
  shows "parseMdScaled (formatMdScaled n 2) 2 = Inr (Some n)" "parseMdScaled (formatMdScaled n 0) 0 = Inr (Some n)"
proof -
  let ?a = "nat \<bar>n\<bar>"
  define q r where qr: "q = ?a div 100" "r = ?a mod 100"
  have b: "\<bar>n\<bar> \<le> 2147483648" using assms by (auto simp: range_simps)
  have a: "?a < 10 ^ 10" "q < 10 ^ 10" unfolding qr using b by auto
  have "q * 100 + r = ?a" unfolding qr by simp
  then have val: "int q * 100 + int r = \<bar>n\<bar>" by linarith
  have ok: "int64 (int q * 10 ^ 2)" "int64 (int q * 10 ^ 2 + int r)" unfolding int64_def using val b by simp_all
  have "length (show_nat r) \<le> 2" unfolding qr by (rule length_show_nat) simp_all
  then have len: "length (pad_zeros 2 (show_nat r)) = 2" by (simp add: pad_zeros_def)
  have fd: "list_all isdigit (pad_zeros 2 (show_nat r))" using show_nat_digits pad_zeros_digits by blast
  have s: "formatMdScaled n 2 = (if n < 0 then ''-'' else []) @ show_nat q @ CHR ''.'' # pad_zeros 2 (show_nat r)"
    by (simp add: formatMdScaled_def qr Let_def)
  show "parseMdScaled (formatMdScaled n 2) 2 = Inr (Some n)"
    unfolding s using parseMdScaled_parts [OF fd len a(2), of "n < 0"] ok val by simp
  have "formatMdScaled n 0 = (if n < 0 then ''-'' else []) @ show_nat ?a @ []" by (simp add: formatMdScaled_def show_int_def)
  then show "parseMdScaled (formatMdScaled n 0) 0 = Inr (Some n)" using parseMdScaled_int [OF a(1), of "n < 0"] by simp
qed

lemma coerceStringToInt_eq: "coerceStringToInt s = coerceToInt (StrV s)"
proof -
  have z: "dbl_of_int 0 = dbl_zero False" by (simp add: dbl_of_int_def dbl_round_def)
  have zero: "coerceToInt (StrV s) = Inr 0" if "coerceToDouble (StrV s) = dbl_zero False"
  proof -
    have "coerceToInt (StrV s) = coerceToInt (IntV 0)" unfolding coerceToInt_def that by (simp add: z)
    then show ?thesis by simp
  qed
  consider "s = []" | "s \<noteq> []" "strtod s = None" | n r where "s \<noteq> []" "strtod s = Some (n, r, True)"
    | n r where "s \<noteq> []" "strtod s = Some (n, r, False)"
    by (cases "strtod s") auto
  then show ?thesis
  proof cases
    case 4
    then show ?thesis by (simp add: coerceStringToInt_def coerceToInt_def Let_def)
  qed (use zero in \<open>simp_all add: coerceStringToInt_def\<close>)
qed

lemma coerceStringToInt_show [simp]: "int32 n \<Longrightarrow> coerceStringToInt (show_int n) = Inr n"
proof -
  assume n: "int32 n"
  have "coerceToInt (StrV (show_int n)) = coerceToInt (IntV n)"
    unfolding coerceToInt_def using n by (simp add: int32_exact del: coerceToDouble.simps(3))
  then show ?thesis using n by (simp add: coerceStringToInt_eq)
qed



section \<open>Input conversion is defined on inputs of ordinary length\<close>

lemma nat_of_digits_less: "list_all isdigit ds \<Longrightarrow> nat_of_digits ds < 10 ^ length ds"
proof (induction ds rule: rev_induct)
  case (snoc c ds)
  have "digit_value c \<le> 9" using snoc.prems by (auto simp: isdigit_def digit_value_def)
  then show ?case using snoc by simp
qed (simp add: nat_of_digits_def)

lemma takeWhile_digits: "list_all isdigit (takeWhile isdigit s)"
  by (auto simp: list_all_iff dest: set_takeWhileD)

lemma md_int_part_bounded:
  assumes "list_all isdigit ds" "length ds \<le> 16"
  shows "\<exists>i. md_int_part 0 ds = Inr i \<and> 0 \<le> i \<and> i < 10 ^ 16"
proof -
  have "int64 (0 * x + x - 1)" if "0 < x" "x \<le> 10 ^ 16" for x using that by (simp add: int64_def)
  moreover have p: "(10 :: int) ^ length ds \<le> 10 ^ 16" using assms(2) by (intro power_increasing) auto
  ultimately have "md_int_part 0 ds = Inr (foldl (\<lambda>n c. 10 * n + int (digit_value c)) 0 ds)"
    using assms(1) by (intro md_int_part_digits) simp_all
  also have "foldl (\<lambda>n c. 10 * n + int (digit_value c)) 0 ds = int (nat_of_digits ds)"
    using foldl_digits_int [of 0 ds] by (simp only: nat_of_digits_def of_nat_0)
  finally have "md_int_part 0 ds = Inr (int (nat_of_digits ds))" .
  moreover have "int (nat_of_digits ds) < 10 ^ length ds" using nat_of_digits_less [OF assms(1)] by (metis of_nat_less_iff of_nat_numeral of_nat_power)
  then have "int (nat_of_digits ds) < 10 ^ 16" using p by (rule less_le_trans)
  ultimately show ?thesis by (intro exI [of _ "int (nat_of_digits ds)"]) simp
qed

lemma md_combine_defined:
  assumes "0 \<le> i" "i < 10 ^ 16" "k \<le> 2" "list_all isdigit ds"
  shows "\<not> isl (md_combine neg k i ds)"
proof -
  have "i * 10 ^ k \<le> 10 ^ 16 * 10 ^ 2" using assms(1-3) by (intro mult_mono power_increasing) auto
  then have ik: "0 \<le> i * 10 ^ k" "i * 10 ^ k \<le> 10 ^ 18" using assms(1) by simp_all
  let ?f = "int (nat_of_digits (take k ds)) * 10 ^ (k - length (take k ds))"
  have "list_all isdigit (take k ds)" using assms(4) by (auto simp: list_all_iff dest: in_set_takeD)
  then have "int (nat_of_digits (take k ds)) \<le> 10 ^ length (take k ds)"
    using nat_of_digits_less [of "take k ds"] by (metis less_imp_le of_nat_less_iff of_nat_numeral of_nat_power)
  then have "?f \<le> 10 ^ length (take k ds) * 10 ^ (k - length (take k ds))"
    by (intro mult_right_mono) auto
  also have "\<dots> = 10 ^ k" by (simp flip: power_add)
  also have "(10 :: int) ^ k \<le> 10 ^ 2" using assms(3) by (intro power_increasing) auto
  finally have f: "?f \<le> 100" "0 \<le> ?f" by simp_all
  have "int64 a \<and> int64 (a + x) \<and> int64 (a + x + 1)" if "0 \<le> a" "a \<le> 10 ^ 18" "0 \<le> x" "x \<le> 100" for a x
    using that by (simp add: int64_def)
  from this [OF ik f(2,1)] have "int64 (i * 10 ^ k)" "int64 (i * 10 ^ k + ?f)" "int64 (i * 10 ^ k + ?f + 1)" by blast+
  then show ?thesis unfolding md_combine_def Let_def checked_int64_def by (simp del: length_take)
qed

lemma parseMdScaled_defined:
  assumes "length s \<le> 16" "k \<le> 2"
  shows "\<not> isl (parseMdScaled s k)"
proof (cases "s = []")
  case False
  obtain neg t where t: "take_sign s = (neg, t)" by (cases "take_sign s")
  then have "length t \<le> 16" using assms(1) by (auto simp: take_sign_def split: list.splits if_splits)
  then have "length (takeWhile isdigit t) \<le> 16" using length_takeWhile_le le_trans by blast
  then obtain i where i: "md_int_part 0 (takeWhile isdigit t) = Inr i" "0 \<le> i" "i < 10 ^ 16"
    using md_int_part_bounded [OF takeWhile_digits] by blast
  have "list_all isdigit (if b then takeWhile isdigit u else [])" for b u by (simp add: takeWhile_digits)
  note ok = md_combine_defined [OF i(2,3) assms(2) this]
  have bind: "\<not> isl (bindE r (\<lambda>v. Inr (Some v)))" if "\<not> isl r" for r :: "int result"
    using that by (cases r) auto
  show ?thesis
    unfolding parseMdScaled_def t Let_def prod.case i(1) bindE_Inr using False bind [OF ok] by (simp only: if_False isl_def) auto
qed (simp add: parseMdScaled_def)



end
