(* ===== verification/Languages.thy ===== *)
theory Languages
  imports Conversion "HOL-Library.Word" "HOL-Library.Sublist"
begin

text \<open>
  The function registry of \<open>src/core/languages\<close> (\<open>LanguageRegistry.cpp\<close>) and the BASIC namespace it serves:
  the 28 handlers of \<open>basic/BasicBuiltinHandlers.cpp\<close>, their registration table
  (\<open>BasicLanguageRegistration.cpp\<close>), the name lookup (\<open>BasicBuiltinLookup.h\<close>) and the call by name
  (\<open>BasicBuiltinShim.cpp\<close>).  A handler works on the value stack of the virtual machine; the stack is a list whose
  head is \<open>stack.back()\<close>.  The clock and the transcendental functions of the C library are parameters
  (\<open>Platform\<close>), the generator \<open>std::mt19937\<close> of \<open>RND\<close> is part of the state, and the host context is the
  part of the runtime the handlers reach through their \<open>void *\<close>.  A locale states the stack contract of a
  namespace; it is interpreted on the BASIC table.
\<close>

unbundle bit_operations_syntax

section \<open>The random engine\<close>

record Engine =
  mt_words :: "32 word list"
  mt_index :: nat

fun mt_fill :: "nat \<Rightarrow> nat \<Rightarrow> 32 word \<Rightarrow> 32 word list" where
  "mt_fill 0 i x = []"
| "mt_fill (Suc n) i x = x # mt_fill n (Suc i) (1812433253 * (x XOR drop_bit 30 x) + of_nat (Suc i))"

definition mt_seed :: "32 word \<Rightarrow> Engine" where
  "mt_seed s = \<lparr>mt_words = mt_fill 624 0 s, mt_index = 624\<rparr>"

definition mt_twist :: "32 word list \<Rightarrow> 32 word list" where
  "mt_twist ws = foldl (\<lambda>xs k.
     let y = (xs ! k AND 0x80000000) OR (xs ! ((k + 1) mod 624) AND 0x7fffffff)
     in xs [k := (xs ! ((k + 397) mod 624)) XOR drop_bit 1 y XOR (if odd y then 0x9908b0df else 0)]) ws [0..<624]"

definition mt_temper :: "32 word \<Rightarrow> 32 word" where
  "mt_temper y =
     (let y1 = y XOR drop_bit 11 y;
          y2 = y1 XOR (push_bit 7 y1 AND 0x9d2c5680);
          y3 = y2 XOR (push_bit 15 y2 AND 0xefc60000)
      in y3 XOR drop_bit 18 y3)"

definition mt_next :: "Engine \<Rightarrow> 32 word \<times> Engine" where
  "mt_next g =
     (let g' = (if 624 \<le> mt_index g then \<lparr>mt_words = mt_twist (mt_words g), mt_index = 0\<rparr> else g)
      in (mt_temper (mt_words g' ! mt_index g'), g'\<lparr>mt_index := mt_index g' + 1\<rparr>))"

text \<open>
  \<open>std::uniform_real_distribution<double>(0.0, 1.0)\<close>: two words of the engine, divided by \<open>2 ^ 64\<close> and kept below one.
\<close>

definition uniform_unit :: "Engine \<Rightarrow> double \<times> Engine" where
  "uniform_unit g =
     (let (a, g1) = mt_next g; (b, g2) = mt_next g1;
          total = dbl_add (dbl_of_int (uint a)) (dbl_mul (dbl_of_int (uint b)) (dbl_of_int 4294967296));
          r = dbl_div total (dbl_mul (dbl_of_int 4294967296) (dbl_of_int 4294967296))
      in (if dbl_le (dbl_of_int 1) r then DFinite False 9007199254740991 (- 53) else r, g2))"

lemma uniform_unit_wf: "dbl_wf (fst (uniform_unit g))"
proof -
  have "dbl_wf (DFinite False 9007199254740991 (- 53))" by (simp add: dbl_wf_def)
  then show ?thesis by (simp add: uniform_unit_def Let_def split: prod.splits)
qed

section \<open>Handlers\<close>

record Platform =
  p_time :: int
  p_sin :: "double \<Rightarrow> double"
  p_cos :: "double \<Rightarrow> double"
  p_tan :: "double \<Rightarrow> double"
  p_exp :: "double \<Rightarrow> double"
  p_log :: "double \<Rightarrow> double"

record HostContext =
  hc_system :: "int \<Rightarrow> Value result"
  hc_status :: int

record HandlerState =
  hstack :: "Value list"
  hengine :: Engine

type_synonym LanguageFunctionFn = "Platform \<Rightarrow> HostContext option \<Rightarrow> (HandlerState, unit) action"

text \<open>\<open>stack.back()\<close> followed by \<open>stack.pop_back()\<close>: undefined on an empty vector.\<close>

definition popH :: "(HandlerState, Value) action" where
  "popH s = (case hstack s of [] \<Rightarrow> (Inl UndefinedBehaviour, s) | v # vs \<Rightarrow> (Inr v, s\<lparr>hstack := vs\<rparr>))"

definition pushH :: "Value \<Rightarrow> (HandlerState, unit) action" where
  "pushH v s = (Inr (), s\<lparr>hstack := v # hstack s\<rparr>)"

definition constantH :: "Value result \<Rightarrow> (HandlerState, unit) action" where
  "constantH r = bindS (liftS r) pushH"

definition unaryH :: "(Value \<Rightarrow> Value result) \<Rightarrow> (HandlerState, unit) action" where
  "unaryH f = bindS popH (\<lambda>v. constantH (f v))"

definition binaryH :: "(Value \<Rightarrow> Value \<Rightarrow> Value result) \<Rightarrow> (HandlerState, unit) action" where
  "binaryH f = bindS popH (\<lambda>b. bindS popH (\<lambda>a. constantH (f a b)))"

definition ternaryH :: "(Value \<Rightarrow> Value \<Rightarrow> Value \<Rightarrow> Value result) \<Rightarrow> (HandlerState, unit) action" where
  "ternaryH f = bindS popH (\<lambda>c. bindS popH (\<lambda>b. bindS popH (\<lambda>a. constantH (f a b c))))"

definition handlerAbs :: LanguageFunctionFn where
  "handlerAbs pf hc = unaryH (\<lambda>v. bindE (coerceToInt v) (\<lambda>x. bindE (checked_int \<bar>x\<bar>) (\<lambda>r. Inr (IntV r))))"

definition handlerSgn :: LanguageFunctionFn where
  "handlerSgn pf hc = unaryH (\<lambda>v. bindE (coerceToInt v) (\<lambda>x. Inr (IntV (if 0 < x then 1 else if x < 0 then - 1 else 0))))"

definition handlerSeq :: LanguageFunctionFn where
  "handlerSeq pf hc = unaryH (\<lambda>v. case valueToString v of [] \<Rightarrow> Inr (IntV 0) | c # cs \<Rightarrow> Inr (IntV (int (code_of c))))"

definition handlerLen :: LanguageFunctionFn where
  "handlerLen pf hc = unaryH (\<lambda>v. Inr (IntV (wrap32 (int (length (valueToString v))))))"

definition handlerTrim :: LanguageFunctionFn where
  "handlerTrim pf hc = unaryH (\<lambda>v. Inr (StrV (trim (valueToString v))))"

definition handlerLcase :: LanguageFunctionFn where
  "handlerLcase pf hc = unaryH (\<lambda>v. Inr (StrV (map tolower (valueToString v))))"

definition handlerUcase :: LanguageFunctionFn where
  "handlerUcase pf hc = unaryH (\<lambda>v. Inr (StrV (map toupper (valueToString v))))"

definition kBuiltinSpaceMaxCount :: int where
  "kBuiltinSpaceMaxCount = 65536"

definition handlerSpace :: LanguageFunctionFn where
  "handlerSpace pf hc = unaryH (\<lambda>v. bindE (coerceToInt v) (\<lambda>n0.
     let n = (if n0 < 0 then 0 else n0)
     in if kBuiltinSpaceMaxCount < n then Inl (RuntimeError ''BUILTIN: SPACE count exceeds limit'')
        else Inr (StrV (replicate (nat n) SP))))"

definition handlerInt :: LanguageFunctionFn where
  "handlerInt pf hc = unaryH (\<lambda>v. bindE (dbl_to_int (coerceToDouble v)) (\<lambda>i. Inr (IntV i)))"

definition handlerMod :: LanguageFunctionFn where
  "handlerMod pf hc = binaryH (\<lambda>aVal bVal.
     let b = coerceToDouble bVal; a = coerceToDouble aVal
     in if dbl_eq b (dbl_zero False) then Inl (RuntimeError ''BUILTIN: MOD division by zero'') else Inr (DblV (dbl_fmod a b)))"

definition handlerSin :: LanguageFunctionFn where
  "handlerSin pf hc = unaryH (\<lambda>v. Inr (DblV (p_sin pf (coerceToDouble v))))"

definition handlerCos :: LanguageFunctionFn where
  "handlerCos pf hc = unaryH (\<lambda>v. Inr (DblV (p_cos pf (coerceToDouble v))))"

definition handlerTan :: LanguageFunctionFn where
  "handlerTan pf hc = unaryH (\<lambda>v. Inr (DblV (p_tan pf (coerceToDouble v))))"

definition handlerExp :: LanguageFunctionFn where
  "handlerExp pf hc = unaryH (\<lambda>v. Inr (DblV (p_exp pf (coerceToDouble v))))"

definition handlerLog :: LanguageFunctionFn where
  "handlerLog pf hc = unaryH (\<lambda>v.
     let x = coerceToDouble v
     in if dbl_le x (dbl_zero False) then Inl (RuntimeError ''BUILTIN: LOG domain'') else Inr (DblV (p_log pf x)))"

definition handlerDate :: LanguageFunctionFn where
  "handlerDate pf hc = constantH (
     let dayUnix = wrap32 (trunc_div (p_time pf) 86400)
     in bindE (checked_int (dayUnix + kPickInternalDateAtUnixEpoch)) (\<lambda>d. Inr (IntV d)))"

text \<open>\<open>strftime\<close> with \<open>"%H:%M:%S"\<close> of \<open>gmtime_r\<close>: two digits each, from the seconds of the UTC day.\<close>

definition utc_clock :: "int \<Rightarrow> string" where
  "utc_clock now =
     (let n = nat (now mod 86400); two = (\<lambda>k. pad_zeros 2 (show_nat k))
      in two (n div 3600) @ '':'' @ two (n div 60 mod 60) @ '':'' @ two (n mod 60))"

definition handlerTime :: LanguageFunctionFn where
  "handlerTime pf hc = constantH (Inr (StrV (utc_clock (p_time pf))))"

text \<open>The handler reads the runtime behind the host context without a null check.\<close>

definition handlerSystem :: LanguageFunctionFn where
  "handlerSystem pf hc = unaryH (\<lambda>v. bindE (coerceToInt v) (\<lambda>n.
     case hc of None \<Rightarrow> Inl UndefinedBehaviour | Some rt \<Rightarrow> hc_system rt n))"

text \<open>\<open>hay.find(needle, pos)\<close>; \<open>None\<close> is \<open>npos\<close>.\<close>

definition occurs_at :: "string \<Rightarrow> string \<Rightarrow> nat \<Rightarrow> bool" where
  "occurs_at needle hay k \<longleftrightarrow> take (length needle) (drop k hay) = needle"

definition find_from :: "string \<Rightarrow> string \<Rightarrow> nat \<Rightarrow> nat option" where
  "find_from needle hay pos = find (occurs_at needle hay) [pos..<Suc (length hay)]"

fun index_loop :: "string \<Rightarrow> string \<Rightarrow> nat \<Rightarrow> nat \<Rightarrow> int" where
  "index_loop needle hay 0 pos = 0"
| "index_loop needle hay (Suc n) pos =
     (case find_from needle hay pos of
        None \<Rightarrow> 0
      | Some found \<Rightarrow> if n = 0 then wrap32 (int found + 1) else index_loop needle hay n (found + 1))"

definition handlerIndex :: LanguageFunctionFn where
  "handlerIndex pf hc = ternaryH (\<lambda>hayVal needleVal occVal.
     let hay = valueToString hayVal; needle = valueToString needleVal
     in if needle = [] then Inl (RuntimeError ''BUILTIN: INDEX empty substring'')
        else bindE (coerceToInt occVal) (\<lambda>occ.
          if occ < 1 then Inl (RuntimeError ''BUILTIN: INDEX occurrence'')
          else Inr (IntV (index_loop needle hay (nat occ) 0))))"

lemma find_from_Some:
  assumes "find_from needle hay pos = Some f"
  shows "pos \<le> f" "f \<le> length hay" "occurs_at needle hay f" "f + length needle \<le> length hay" "\<And>k. pos \<le> k \<Longrightarrow> k < f \<Longrightarrow> \<not> occurs_at needle hay k"
proof -
  from assms obtain i where i: "i < length [pos..<Suc (length hay)]" "occurs_at needle hay ([pos..<Suc (length hay)] ! i)"
    "f = [pos..<Suc (length hay)] ! i" "\<And>j. j < i \<Longrightarrow> \<not> occurs_at needle hay ([pos..<Suc (length hay)] ! j)"
    unfolding find_from_def find_Some_iff by blast
  have f: "f = pos + i" using i(1,3) by (simp del: upt_Suc)
  show "pos \<le> f" "f \<le> length hay" "occurs_at needle hay f" using f i(1,2,3) by (simp_all del: upt_Suc)
  then show "f + length needle \<le> length hay"
    unfolding occurs_at_def by (metis add.commute diff_is_0_eq' le_diff_conv2 length_drop length_take min.cobounded1 nat_le_linear)
  fix k assume "pos \<le> k" "k < f"
  then show "\<not> occurs_at needle hay k" using i(4) [of "k - pos"] f \<open>f \<le> length hay\<close> by (simp del: upt_Suc)
qed

text \<open>The loop of \<open>handlerField\<close>; it is entered with a nonempty delimiter only.\<close>

function field_loop :: "string \<Rightarrow> string \<Rightarrow> nat \<Rightarrow> string list" where
  "field_loop delim hay start =
     (case find_from delim hay start of
        None \<Rightarrow> [drop start hay]
      | Some f \<Rightarrow>
          if delim = [] then []
          else take (f - start) (drop start hay) # field_loop delim hay (f + length delim))"
  by pat_completeness auto
termination
proof (relation "measure (\<lambda>(delim, hay, start). Suc (length hay) - start)", simp)
  fix delim hay start f
  assume "find_from delim hay start = Some f" "delim \<noteq> []"
  then show "((delim, hay, f + length delim), delim, hay, start) \<in> measure (\<lambda>(delim, hay, start). Suc (length hay) - start)"
    using find_from_Some [of delim hay start f] by (cases delim) auto
qed

declare field_loop.simps [simp del]

definition handlerField :: LanguageFunctionFn where
  "handlerField pf hc = ternaryH (\<lambda>hayVal delimVal fieldIdxVal.
     let hay = valueToString hayVal; delim = valueToString delimVal
     in if delim = [] then Inl (RuntimeError ''BUILTIN: FIELD empty delimiter'')
        else bindE (coerceToInt fieldIdxVal) (\<lambda>fieldNum.
          if fieldNum < 1 then Inl (RuntimeError ''BUILTIN: FIELD field index'')
          else let fields = field_loop delim hay 0
               in Inr (StrV (if length fields < nat fieldNum then [] else fields ! (nat fieldNum - 1)))))"

definition handlerStr :: LanguageFunctionFn where
  "handlerStr pf hc = unaryH (\<lambda>v. Inr (StrV (valueToString v)))"

datatype ConvertDirection = ConvOutput | ConvInput

definition dispatchConvertCode :: "ConvertDirection \<Rightarrow> Value \<Rightarrow> string \<Rightarrow> Value result" where
  "dispatchConvertCode dir v codeRaw =
     (if dir = ConvOutput then bindE (oconvOutputBuiltin (valueToString v) codeRaw) (\<lambda>s. Inr (StrV s))
      else let code = upperCopy codeRaw
           in bindE (iconvOutputBuiltin (valueToString v) codeRaw) (\<lambda>converted.
                if code = ''MCU'' \<or> code = ''MCL'' then Inr (StrV converted)
                else bindE (coerceToInt (StrV converted)) (\<lambda>i. Inr (IntV i))))"

definition handlerOconv :: LanguageFunctionFn where
  "handlerOconv pf hc = binaryH (\<lambda>val codeVal. dispatchConvertCode ConvOutput val (valueToString codeVal))"

definition handlerIconv :: LanguageFunctionFn where
  "handlerIconv pf hc = binaryH (\<lambda>val codeVal. dispatchConvertCode ConvInput val (valueToString codeVal))"

definition isFullyNumeric :: "string \<Rightarrow> bool" where
  "isFullyNumeric s =
     (if s = [] then False
      else case strtod s of None \<Rightarrow> False
           | Some (n, endp, erange) \<Rightarrow>
               if erange then False else (let r = dropWhile isspace endp in r = [] \<or> hd r = NUL))"

definition handlerNum :: LanguageFunctionFn where
  "handlerNum pf hc = unaryH (\<lambda>v.
     Inr (IntV (if (case v of StrV s \<Rightarrow> isFullyNumeric s | _ \<Rightarrow> True) then 1 else 0)))"

definition convert_char :: "string \<Rightarrow> string \<Rightarrow> char \<Rightarrow> string" where
  "convert_char from to c =
     (let pos = length (takeWhile (\<lambda>d. d \<noteq> c) from)
      in if pos = length from then [c] else if pos < length to then [to ! pos] else [])"

definition handlerConvert :: LanguageFunctionFn where
  "handlerConvert pf hc = ternaryH (\<lambda>srcVal fromVal toVal.
     Inr (StrV (concat (map (convert_char (valueToString fromVal) (valueToString toVal)) (valueToString srcVal)))))"

definition pushRndSample :: "(HandlerState, unit) action" where
  "pushRndSample s = (let (r, g) = uniform_unit (hengine s) in pushH (DblV r) (s\<lparr>hengine := g\<rparr>))"

definition handlerRnd0 :: LanguageFunctionFn where
  "handlerRnd0 pf hc = pushRndSample"

definition handlerRnd1 :: LanguageFunctionFn where
  "handlerRnd1 pf hc = bindS popH (\<lambda>v. bindS (liftS (coerceToInt v)) (\<lambda>n.
     bindS (updS (\<lambda>s. s\<lparr>hengine := mt_seed (word_of_int n)\<rparr>)) (\<lambda>_. pushRndSample)))"

definition handlerStatus :: LanguageFunctionFn where
  "handlerStatus pf hc = constantH (Inr (IntV (case hc of None \<Rightarrow> 0 | Some rt \<Rightarrow> hc_status rt)))"


section \<open>The registry\<close>

record LanguageFunctionEntry =
  arity :: int
  fn :: "LanguageFunctionFn option"

record LanguageNamespaceMetadata =
  ns_name :: string
  ns_version :: string

record LanguageNamespaceDescriptor =
  desc_id :: nat
  desc_metadata :: LanguageNamespaceMetadata
  desc_functions :: "LanguageFunctionEntry list"
  desc_onInit :: "(HostContext option \<Rightarrow> HostContext option) option"

record RegisteredNamespace =
  reg_metadata :: LanguageNamespaceMetadata
  reg_functions :: "LanguageFunctionEntry list"
  reg_onInit :: "(HostContext option \<Rightarrow> HostContext option) option"

record LanguageRegistry =
  namespaces :: "(nat \<times> RegisteredNamespace) list"
  frozen :: bool

definition throwLanguageRegistryError :: "string \<Rightarrow> string \<Rightarrow> error" where
  "throwLanguageRegistryError kind detail =
     RuntimeError (''LANG: '' @ kind @ (if detail = [] then [] else '' ('' @ detail @ '')''))"

definition empty_registry :: LanguageRegistry where
  "empty_registry = \<lparr>namespaces = [], frozen = False\<rparr>"

text \<open>The new registry and the host context after the \<open>onInit\<close> hook.\<close>

definition registerNamespace :: "LanguageNamespaceDescriptor \<Rightarrow> HostContext option \<Rightarrow> LanguageRegistry \<Rightarrow> (LanguageRegistry \<times> HostContext option) result" where
  "registerNamespace descriptor hostContext reg =
     (if frozen reg then Inl (throwLanguageRegistryError ''registry frozen'' [])
      else if map_of (namespaces reg) (desc_id descriptor) \<noteq> None
      then Inl (throwLanguageRegistryError ''duplicate namespace'' (show_nat (desc_id descriptor)))
      else let registered = \<lparr>reg_metadata = desc_metadata descriptor, reg_functions = desc_functions descriptor,
                 reg_onInit = desc_onInit descriptor\<rparr>;
               ctx = (case reg_onInit registered of None \<Rightarrow> hostContext | Some hook \<Rightarrow> hook hostContext)
           in Inr (reg\<lparr>namespaces := namespaces reg @ [(desc_id descriptor, registered)]\<rparr>, ctx))"

definition freeze :: "LanguageRegistry \<Rightarrow> LanguageRegistry" where
  "freeze reg = reg\<lparr>frozen := True\<rparr>"

definition dispatch :: "LanguageRegistry \<Rightarrow> Platform \<Rightarrow> nat \<Rightarrow> nat \<Rightarrow> int \<Rightarrow> HostContext option \<Rightarrow> (HandlerState, unit) action" where
  "dispatch reg pf nsId fnId argCount hostContext =
     (case map_of (namespaces reg) nsId of
        None \<Rightarrow> throwS (throwLanguageRegistryError ''unknown namespace'' (show_nat nsId))
      | Some ns \<Rightarrow>
          if length (reg_functions ns) \<le> fnId then throwS (throwLanguageRegistryError ''unknown function'' (show_nat fnId))
          else let entry = reg_functions ns ! fnId
               in case fn entry of
                    None \<Rightarrow> throwS (throwLanguageRegistryError ''unknown function'' (show_nat fnId))
                  | Some f \<Rightarrow>
                      if argCount \<noteq> arity entry then throwS (throwLanguageRegistryError ''arity mismatch'' [])
                      else bindS (getS (\<lambda>s. wrap32 (int (length (hstack s))))) (\<lambda>n.
                        if n < argCount then throwS (throwLanguageRegistryError ''arity mismatch'' [])
                        else f pf hostContext))"

definition metadata :: "LanguageRegistry \<Rightarrow> nat \<Rightarrow> LanguageNamespaceMetadata option" where
  "metadata reg nsId = map_option reg_metadata (map_of (namespaces reg) nsId)"

record LanguageNamespaceSummary =
  sum_id :: nat
  sum_metadata :: LanguageNamespaceMetadata
  sum_functionCount :: nat

definition listNamespaces :: "LanguageRegistry \<Rightarrow> LanguageNamespaceSummary list" where
  "listNamespaces reg =
     sort_key sum_id (map (\<lambda>(i, ns). \<lparr>sum_id = i, sum_metadata = reg_metadata ns, sum_functionCount = length (reg_functions ns)\<rparr>)
       (namespaces reg))"

record LanguageFunctionSlotSummary =
  slot_id :: nat
  slot_arity :: int
  slot_implemented :: bool

definition functionSlotSummaries :: "LanguageRegistry \<Rightarrow> nat \<Rightarrow> LanguageFunctionSlotSummary list" where
  "functionSlotSummaries reg nsId =
     (case map_of (namespaces reg) nsId of
        None \<Rightarrow> []
      | Some ns \<Rightarrow> map (\<lambda>(i, e). \<lparr>slot_id = i, slot_arity = arity e, slot_implemented = fn e \<noteq> None\<rparr>)
                     (enumerate 0 (reg_functions ns)))"

definition resetForTests :: "LanguageRegistry \<Rightarrow> LanguageRegistry" where
  "resetForTests reg = reg\<lparr>namespaces := [], frozen := False\<rparr>"

section \<open>The BASIC namespace\<close>

definition kNamespaceIdBasic :: nat where
  "kNamespaceIdBasic = 2"

abbreviation entry :: "int \<Rightarrow> LanguageFunctionFn \<Rightarrow> LanguageFunctionEntry" where
  "entry n h \<equiv> \<lparr>arity = n, fn = Some h\<rparr>"

definition basic_functions :: "LanguageFunctionEntry list" where
  "basic_functions =
     [entry 1 handlerAbs, entry 1 handlerSgn, entry 1 handlerSeq, entry 1 handlerLen, entry 1 handlerTrim,
      entry 1 handlerLcase, entry 1 handlerUcase, entry 1 handlerSpace, entry 1 handlerInt, entry 2 handlerMod,
      entry 1 handlerSin, entry 1 handlerCos, entry 1 handlerTan, entry 1 handlerExp, entry 1 handlerLog,
      entry 0 handlerDate, entry 0 handlerTime, entry 1 handlerSystem, entry 3 handlerIndex, entry 3 handlerField,
      entry 1 handlerStr, entry 2 handlerOconv, entry 2 handlerIconv, entry 1 handlerNum, entry 3 handlerConvert,
      entry 0 handlerRnd0, entry 1 handlerRnd1, entry 0 handlerStatus]"

definition registerBasicLanguage :: "LanguageRegistry \<Rightarrow> HostContext option \<Rightarrow> (LanguageRegistry \<times> HostContext option) result" where
  "registerBasicLanguage reg hostContext =
     registerNamespace \<lparr>desc_id = kNamespaceIdBasic, desc_metadata = \<lparr>ns_name = ''basic'', ns_version = ''1''\<rparr>,
       desc_functions = basic_functions, desc_onInit = None\<rparr> hostContext reg"

text \<open>The names with their argument counts, in the order of the comparisons; \<open>RND\<close> takes none or one.\<close>

definition call_table :: "((string \<times> int) \<times> nat) list" where
  "call_table =
     [((''ABS'', 1), 0), ((''SGN'', 1), 1), ((''SEQ'', 1), 2), ((''LEN'', 1), 3), ((''TRIM'', 1), 4),
      ((''LCASE'', 1), 5), ((''UCASE'', 1), 6), ((''SPACE'', 1), 7), ((''INT'', 1), 8), ((''MOD'', 2), 9),
      ((''SIN'', 1), 10), ((''COS'', 1), 11), ((''TAN'', 1), 12), ((''EXP'', 1), 13), ((''LOG'', 1), 14),
      ((''DATE'', 0), 15), ((''TIME'', 0), 16), ((''SYSTEM'', 1), 17), ((''INDEX'', 3), 18), ((''FIELD'', 3), 19),
      ((''STR'', 1), 20), ((''OCONV'', 2), 21), ((''ICONV'', 2), 22), ((''NUM'', 1), 23), ((''CONVERT'', 3), 24),
      ((''RND'', 0), 25), ((''RND'', 1), 26), ((''STATUS'', 0), 27)]"

definition functionIdForCall :: "string \<Rightarrow> int \<Rightarrow> nat option" where
  "functionIdForCall name argCount = map_of call_table (name, argCount)"

definition argCountForBuiltinName :: "string \<Rightarrow> int \<Rightarrow> int" where
  "argCountForBuiltinName name stackSize =
     (if name = ''RND'' then stackSize
      else if name = ''DATE'' \<or> name = ''TIME'' \<or> name = ''STATUS'' then 0
      else if name = ''MOD'' then 2
      else if name = ''INDEX'' \<or> name = ''FIELD'' \<or> name = ''CONVERT'' then 3
      else if name = ''OCONV'' \<or> name = ''ICONV'' then 2
      else 1)"

definition functionIdForBuiltinName :: "string \<Rightarrow> int \<Rightarrow> nat option" where
  "functionIdForBuiltinName name stackSize =
     (if name = ''RND''
      then (if stackSize < 0 \<or> 1 < stackSize then None else Some (if stackSize = 0 then 25 else 26))
      else functionIdForCall name (argCountForBuiltinName name stackSize))"

definition invokeBuiltinShim :: "string \<Rightarrow> Platform \<Rightarrow> HostContext option \<Rightarrow> LanguageRegistry option \<Rightarrow> (HandlerState, unit) action" where
  "invokeBuiltinShim name pf rt registry =
     (case registry of
        None \<Rightarrow> throwS (RuntimeError ''BUILTIN: registry not configured'')
      | Some reg \<Rightarrow> bindS (getS (\<lambda>s. wrap32 (int (length (hstack s))))) (\<lambda>stackSize.
          case functionIdForBuiltinName name stackSize of
            None \<Rightarrow> throwS (RuntimeError (''BUILTIN: unknown '' @ name))
          | Some fnId \<Rightarrow>
              let argCount = argCountForBuiltinName name stackSize
              in if name = ''RND'' \<and> 1 < stackSize then throwS (RuntimeError ''BUILTIN: RND too many arguments'')
                 else if name \<noteq> ''RND'' \<and> stackSize < argCount then throwS (RuntimeError (''BUILTIN: stack underflow for '' @ name))
                 else dispatch reg pf kNamespaceIdBasic fnId argCount rt))"

section \<open>The stack contract of a handler\<close>

definition platform_ok :: "Platform \<Rightarrow> bool" where
  "platform_ok pf \<longleftrightarrow> (\<forall>x. dbl_wf (p_sin pf x) \<and> dbl_wf (p_cos pf x) \<and> dbl_wf (p_tan pf x) \<and> dbl_wf (p_exp pf x) \<and> dbl_wf (p_log pf x))"

definition context_ok :: "HostContext option \<Rightarrow> bool" where
  "context_ok hc = (case hc of None \<Rightarrow> True
     | Some rt \<Rightarrow> int32 (hc_status rt) \<and> (\<forall>n v. hc_system rt n = Inr v \<longrightarrow> value_wf v))"

definition stack_wf :: "Value list \<Rightarrow> bool" where
  "stack_wf vs = list_all value_wf vs"

text \<open>
  A handler of arity \<open>n\<close> replaces the top \<open>n\<close> values by one well-formed value and leaves the rest of the stack
  alone; when it throws, its arguments are gone and nothing else has changed.
\<close>

definition handler_ok :: "nat \<Rightarrow> LanguageFunctionFn \<Rightarrow> bool" where
  "handler_ok n h \<longleftrightarrow> (\<forall>pf hc s. platform_ok pf \<longrightarrow> context_ok hc \<longrightarrow> stack_wf (hstack s) \<longrightarrow> n \<le> length (hstack s) \<longrightarrow>
     (case h pf hc s of
        (Inr u, t) \<Rightarrow> \<exists>v. value_wf v \<and> hstack t = v # drop n (hstack s)
      | (Inl e, t) \<Rightarrow> hstack t = drop n (hstack s)))"


lemma handler_okI:
  assumes "\<And>pf hc s. platform_ok pf \<Longrightarrow> context_ok hc \<Longrightarrow> stack_wf (hstack s) \<Longrightarrow> n \<le> length (hstack s) \<Longrightarrow>
    case h pf hc s of (Inr u, t) \<Rightarrow> \<exists>v. value_wf v \<and> hstack t = v # drop n (hstack s) | (Inl e, t) \<Rightarrow> hstack t = drop n (hstack s)"
  shows "handler_ok n h"
  using assms by (simp add: handler_ok_def)

lemma constantH_run:
  "constantH r s = (case r of Inl e \<Rightarrow> (Inl e, s) | Inr v \<Rightarrow> (Inr (), s\<lparr>hstack := v # hstack s\<rparr>))"
  by (simp add: constantH_def bindS_def pushH_def split: sum.split)

lemma popH_Cons [simp]: "hstack s = v # vs \<Longrightarrow> popH s = (Inr v, s\<lparr>hstack := vs\<rparr>)"
  by (simp add: popH_def)

lemma unaryH_run: "hstack s = a # vs \<Longrightarrow> unaryH f s = constantH (f a) (s\<lparr>hstack := vs\<rparr>)"
  by (simp add: unaryH_def bindS_def)

lemma binaryH_run: "hstack s = b # a # vs \<Longrightarrow> binaryH f s = constantH (f a b) (s\<lparr>hstack := vs\<rparr>)"
  by (simp add: binaryH_def bindS_def)

lemma ternaryH_run: "hstack s = c # b # a # vs \<Longrightarrow> ternaryH f s = constantH (f a b c) (s\<lparr>hstack := vs\<rparr>)"
  by (simp add: ternaryH_def bindS_def)

lemma constant_ok:
  assumes "\<And>pf hc w. platform_ok pf \<Longrightarrow> context_ok hc \<Longrightarrow> f pf hc = Inr w \<Longrightarrow> value_wf w"
  shows "handler_ok 0 (\<lambda>pf hc. constantH (f pf hc))"
  by (rule handler_okI) (auto simp: constantH_run intro: assms split: sum.split)

lemma unary_ok:
  assumes "\<And>pf hc v w. platform_ok pf \<Longrightarrow> context_ok hc \<Longrightarrow> value_wf v \<Longrightarrow> f pf hc v = Inr w \<Longrightarrow> value_wf w"
  shows "handler_ok (Suc 0) (\<lambda>pf hc. unaryH (f pf hc))"
proof (rule handler_okI, goal_cases)
  case (1 pf hc s)
  then obtain a vs where s: "hstack s = a # vs" "value_wf a" by (cases "hstack s") (auto simp: stack_wf_def)
  with assms [OF 1(1,2), of a] show ?case by (auto simp: unaryH_run constantH_run split: sum.split)
qed

lemma binary_ok:
  assumes "\<And>pf hc v v' w. platform_ok pf \<Longrightarrow> context_ok hc \<Longrightarrow> value_wf v \<Longrightarrow> value_wf v' \<Longrightarrow> f pf hc v v' = Inr w \<Longrightarrow> value_wf w"
  shows "handler_ok 2 (\<lambda>pf hc. binaryH (f pf hc))"
proof (rule handler_okI, goal_cases)
  case (1 pf hc s)
  then obtain a b vs where s: "hstack s = b # a # vs" "value_wf a" "value_wf b"
    by (cases "hstack s" rule: remdups_adj.cases) (auto simp: stack_wf_def)
  with assms [OF 1(1,2), of a b] show ?case by (auto simp: binaryH_run constantH_run split: sum.split)
qed

lemma length_3: "3 \<le> length xs \<Longrightarrow> \<exists>a b c ys. xs = a # b # c # ys"
  by (metis One_nat_def Suc_le_length_iff numeral_3_eq_3)

lemma ternary_ok:
  assumes "\<And>pf hc v v' v'' w. platform_ok pf \<Longrightarrow> context_ok hc \<Longrightarrow> value_wf v \<Longrightarrow> value_wf v' \<Longrightarrow> value_wf v'' \<Longrightarrow> f pf hc v v' v'' = Inr w \<Longrightarrow> value_wf w"
  shows "handler_ok 3 (\<lambda>pf hc. ternaryH (f pf hc))"
proof (rule handler_okI, goal_cases)
  case (1 pf hc s)
  obtain c b a vs where e: "hstack s = c # b # a # vs" using length_3 [OF 1(4)] by blast
  then have "value_wf a" "value_wf b" "value_wf c" using 1(3) by (simp_all add: stack_wf_def)
  with e assms [OF 1(1,2), of a b c] show ?case
    by (auto simp: ternaryH_run constantH_run numeral_3_eq_3 split: sum.split)
qed

lemma wf_of_int: "bindE r (\<lambda>i. Inr (IntV (f i))) = Inr w \<Longrightarrow> (\<And>i. r = Inr i \<Longrightarrow> int32 (f i)) \<Longrightarrow> value_wf w"
  by (auto simp: bindE_eq_Inr_iff)

lemma index_loop_int32: "int32 (index_loop needle hay n pos)"
  by (induction n arbitrary: pos) (auto split: option.split)

lemma code_of_int32: "int32 (int (code_of c))"
  unfolding int32_def int_min_def int_max_def using code_of_less [of c] by linarith

lemma dispatchConvertCode_wf: "dispatchConvertCode dir v code = Inr w \<Longrightarrow> value_wf w"
  by (auto simp: dispatchConvertCode_def Let_def bindE_eq_Inr_iff split: if_splits dest: coerceToInt_int32)

lemmas handler_defs =
  handlerAbs_def handlerSgn_def handlerSeq_def handlerLen_def handlerTrim_def handlerLcase_def handlerUcase_def
  handlerSpace_def handlerInt_def handlerMod_def handlerSin_def handlerCos_def handlerTan_def handlerExp_def
  handlerLog_def handlerDate_def handlerTime_def handlerSystem_def handlerIndex_def handlerField_def handlerStr_def
  handlerOconv_def handlerIconv_def handlerNum_def handlerConvert_def handlerStatus_def

lemma nullary_handlers_ok: "handler_ok 0 handlerDate" "handler_ok 0 handlerTime" "handler_ok 0 handlerStatus"
  unfolding handler_defs [abs_def]
  by (rule constant_ok, auto simp: bindE_eq_Inr_iff Let_def context_ok_def split: option.splits)+

lemma unary_handlers_ok:
  "handler_ok (Suc 0) handlerAbs" "handler_ok (Suc 0) handlerSgn" "handler_ok (Suc 0) handlerSeq" "handler_ok (Suc 0) handlerLen"
  "handler_ok (Suc 0) handlerTrim" "handler_ok (Suc 0) handlerLcase" "handler_ok (Suc 0) handlerUcase" "handler_ok (Suc 0) handlerSpace"
  "handler_ok (Suc 0) handlerInt" "handler_ok (Suc 0) handlerSin" "handler_ok (Suc 0) handlerCos" "handler_ok (Suc 0) handlerTan"
  "handler_ok (Suc 0) handlerExp" "handler_ok (Suc 0) handlerLog" "handler_ok (Suc 0) handlerSystem" "handler_ok (Suc 0) handlerStr"
  "handler_ok (Suc 0) handlerNum"
  unfolding handler_defs [abs_def]
  by (rule unary_ok, auto simp: bindE_eq_Inr_iff Let_def context_ok_def platform_ok_def code_of_int32
        split: option.splits if_splits list.splits dest: dbl_to_int_int32)+

lemma binary_handlers_ok: "handler_ok 2 handlerMod" "handler_ok 2 handlerOconv" "handler_ok 2 handlerIconv"
  unfolding handler_defs [abs_def]
  by (rule binary_ok, auto simp: Let_def coerceToDouble_wf split: if_splits dest: dispatchConvertCode_wf)+

lemma ternary_handlers_ok: "handler_ok 3 handlerIndex" "handler_ok 3 handlerField" "handler_ok 3 handlerConvert"
  unfolding handler_defs [abs_def]
  by (rule ternary_ok, auto simp: bindE_eq_Inr_iff Let_def index_loop_int32 split: if_splits)+

lemma pushRndSample_run:
  "pushRndSample s = (Inr (), s\<lparr>hstack := DblV (fst (uniform_unit (hengine s))) # hstack s, hengine := snd (uniform_unit (hengine s))\<rparr>)"
  by (simp add: pushRndSample_def pushH_def Let_def split: prod.split)

lemma rnd_handlers_ok: "handler_ok 0 handlerRnd0" "handler_ok (Suc 0) handlerRnd1"
proof -
  show "handler_ok 0 handlerRnd0"
    by (rule handler_okI) (simp add: handlerRnd0_def pushRndSample_run uniform_unit_wf)
  show "handler_ok (Suc 0) handlerRnd1"
  proof (rule handler_okI, goal_cases)
    case (1 pf hc s)
    then obtain a vs where s: "hstack s = a # vs" by (cases "hstack s") auto
    then show ?case
      by (auto simp: handlerRnd1_def bindS_def pushRndSample_run uniform_unit_wf split: sum.split)
  qed
qed


section \<open>Namespaces\<close>

lemma wrap32_le: "0 \<le> i \<Longrightarrow> wrap32 i \<le> i"
proof -
  assume "0 \<le> i"
  then have "(i + 2147483648) mod 4294967296 \<le> i + 2147483648" by (intro zmod_le_nonneg_dividend) simp
  then show ?thesis by (simp add: wrap32_def)
qed

definition serves :: "LanguageRegistry \<Rightarrow> nat \<Rightarrow> LanguageFunctionEntry list \<Rightarrow> bool" where
  "serves reg nsId fs \<longleftrightarrow> (\<exists>ns. map_of (namespaces reg) nsId = Some ns \<and> reg_functions ns = fs)"

text \<open>
  The contract of a namespace: every function of its table keeps the stack discipline for its arity.
\<close>

locale language_namespace =
  fixes table :: "LanguageFunctionEntry list"
  assumes table_ok: "e \<in> set table \<Longrightarrow> fn e = Some h \<Longrightarrow> 0 \<le> arity e \<and> handler_ok (nat (arity e)) h"
begin

lemma dispatch_calls:
  assumes "serves reg nsId table" "fnId < length table" "fn (table ! fnId) = Some h"
    "arity (table ! fnId) = n" "n \<le> wrap32 (int (length (hstack s)))"
  shows "dispatch reg pf nsId fnId n hc s = h pf hc s"
  using assms by (auto simp: serves_def dispatch_def Let_def bindS_def)

lemma dispatch_refuses:
  assumes "serves reg nsId table"
    "\<not> (\<exists>h. fnId < length table \<and> fn (table ! fnId) = Some h \<and> arity (table ! fnId) = n \<and> n \<le> wrap32 (int (length (hstack s))))"
  shows "\<exists>kind detail. dispatch reg pf nsId fnId n hc s = (Inl (throwLanguageRegistryError kind detail), s)"
  using assms by (auto simp: serves_def dispatch_def Let_def bindS_def split: option.splits)

lemma dispatch_contract:
  assumes "serves reg nsId table" "platform_ok pf" "context_ok hc" "stack_wf (hstack s)"
  shows "case dispatch reg pf nsId fnId n hc s of
     (Inr u, t) \<Rightarrow> 0 \<le> n \<and> nat n \<le> length (hstack s) \<and> (\<exists>v. value_wf v \<and> hstack t = v # drop (nat n) (hstack s))
   | (Inl e, t) \<Rightarrow> hstack t = hstack s \<or> hstack t = drop (nat n) (hstack s)"
proof (cases "\<exists>h. fnId < length table \<and> fn (table ! fnId) = Some h \<and> arity (table ! fnId) = n \<and> n \<le> wrap32 (int (length (hstack s)))")
  case True
  then obtain h where h: "fnId < length table" "fn (table ! fnId) = Some h" "arity (table ! fnId) = n"
    "n \<le> wrap32 (int (length (hstack s)))" by blast
  have ok: "0 \<le> n" "handler_ok (nat n) h" using table_ok [OF nth_mem [OF h(1)] h(2)] h(3) by simp_all
  have "nat n \<le> length (hstack s)" using h(4) wrap32_le [of "int (length (hstack s))"] by linarith
  then have "case h pf hc s of (Inr u, t) \<Rightarrow> \<exists>v. value_wf v \<and> hstack t = v # drop (nat n) (hstack s)
      | (Inl e, t) \<Rightarrow> hstack t = drop (nat n) (hstack s)"
    by (rule ok(2) [unfolded handler_ok_def, rule_format, OF assms(2-4)])
  with \<open>nat n \<le> length (hstack s)\<close> ok(1) show ?thesis
    unfolding dispatch_calls [OF assms(1) h] by (auto split: prod.splits sum.splits)
next
  case False
  obtain kind detail where "dispatch reg pf nsId fnId n hc s = (Inl (throwLanguageRegistryError kind detail), s)"
    using dispatch_refuses [OF assms(1) False] by blast
  then show ?thesis by simp
qed

end

lemma basic_table_ok: "e \<in> set basic_functions \<Longrightarrow> fn e = Some h \<Longrightarrow> 0 \<le> arity e \<and> handler_ok (nat (arity e)) h"
  by (auto simp: basic_functions_def nullary_handlers_ok unary_handlers_ok binary_handlers_ok ternary_handlers_ok rnd_handlers_ok)

interpretation basic_ns: language_namespace basic_functions
  by unfold_locales (rule basic_table_ok)

lemma registered_serves: "registerBasicLanguage reg hc = Inr (reg', hc') \<Longrightarrow> serves reg' kNamespaceIdBasic basic_functions"
  by (auto simp: registerBasicLanguage_def registerNamespace_def serves_def Let_def map_add_def split: if_splits option.splits)

text \<open>
  C11. A call of a BASIC builtin through the registry keeps the stack discipline: once
  \<open>registerBasicLanguage\<close> has succeeded, \<open>dispatch\<close> with any function id and argument count either
  returns, and then exactly the arguments on top of the stack have been replaced by one well-formed value, or
  throws, and then the stack is untouched or has lost exactly the arguments.
\<close>

theorem builtin_call_contract:
  assumes "registerBasicLanguage reg hc0 = Inr (reg', hc1)"
    and "platform_ok pf" "context_ok hc" "stack_wf (hstack s)"
  shows "case dispatch reg' pf kNamespaceIdBasic fnId n hc s of
     (Inr u, t) \<Rightarrow> 0 \<le> n \<and> nat n \<le> length (hstack s) \<and> (\<exists>v. value_wf v \<and> hstack t = v # drop (nat n) (hstack s))
   | (Inl e, t) \<Rightarrow> hstack t = hstack s \<or> hstack t = drop (nat n) (hstack s)"
  using basic_ns.dispatch_contract [OF registered_serves [OF assms(1)] assms(2-4)] .

section \<open>Calls by name\<close>

lemma length_basic_functions: "length basic_functions = 28"
  by (simp add: basic_functions_def)

lemma call_table_arity: "list_all (\<lambda>((name, n), i). i < length basic_functions \<and> arity (basic_functions ! i) = n \<and> fn (basic_functions ! i) \<noteq> None) call_table"
  by (simp add: call_table_def basic_functions_def)

lemma functionIdForCall_arity:
  "functionIdForCall name n = Some i \<Longrightarrow> i < length basic_functions \<and> arity (basic_functions ! i) = n \<and> fn (basic_functions ! i) \<noteq> None"
  using call_table_arity unfolding functionIdForCall_def list_all_iff by (auto dest!: map_of_SomeD)

lemma functionIdForBuiltinName_call:
  "functionIdForBuiltinName name n = Some i \<Longrightarrow> functionIdForCall name (argCountForBuiltinName name n) = Some i"
  by (auto simp: functionIdForBuiltinName_def argCountForBuiltinName_def functionIdForCall_def call_table_def split: if_splits)

text \<open>
  Calling a builtin by name never reaches the arity check of the registry with a wrong count: the tables of
  the lookup, of the shim and of the registration agree.  Whenever the name is known and the stack holds the
  arguments, \<open>invokeBuiltinShim\<close> is the call of the registered handler; every function id of the
  registration table is the id of some name.
\<close>

theorem invokeBuiltinShim_calls:
  assumes "registerBasicLanguage reg hc0 = Inr (reg', hc1)"
    and "int32 (int (length (hstack s)))"
    and "functionIdForBuiltinName name (int (length (hstack s))) = Some i"
    and "argCountForBuiltinName name (int (length (hstack s))) \<le> int (length (hstack s))"
  shows "(\<exists>h. i < length basic_functions \<and> fn (basic_functions ! i) = Some h
            \<and> arity (basic_functions ! i) = argCountForBuiltinName name (int (length (hstack s)))
            \<and> invokeBuiltinShim name pf hc (Some reg') s = h pf hc s)
         \<and> (\<forall>j < length basic_functions. \<exists>nm k. functionIdForCall nm k = Some j)"
proof
  let ?n = "argCountForBuiltinName name (int (length (hstack s)))"
  have a: "i < length basic_functions" "arity (basic_functions ! i) = ?n" "fn (basic_functions ! i) \<noteq> None"
    using functionIdForCall_arity [OF functionIdForBuiltinName_call [OF assms(3)]] by auto
  then obtain h where h: "fn (basic_functions ! i) = Some h" by blast
  have w: "wrap32 (int (length (hstack s))) = int (length (hstack s))" by (rule wrap32_id [OF assms(2)])
  have "dispatch reg' pf kNamespaceIdBasic i ?n hc s = h pf hc s"
    using basic_ns.dispatch_calls [OF registered_serves [OF assms(1)] a(1) h a(2)] w assms(4) by simp
  then have "invokeBuiltinShim name pf hc (Some reg') s = h pf hc s"
    using assms(3,4) by (auto simp: invokeBuiltinShim_def bindS_def w Let_def functionIdForBuiltinName_def split: if_splits)
  with a h show "\<exists>h. i < length basic_functions \<and> fn (basic_functions ! i) = Some h \<and> arity (basic_functions ! i) = ?n
      \<and> invokeBuiltinShim name pf hc (Some reg') s = h pf hc s" by blast
  have "\<forall>j \<in> set [0..<28]. \<exists>e \<in> set call_table. snd e = j \<and> functionIdForCall (fst (fst e)) (snd (fst e)) = Some j"
    by (simp add: call_table_def functionIdForCall_def upt_rec)
  then show "\<forall>j < length basic_functions. \<exists>nm k. functionIdForCall nm k = Some j"
    unfolding length_basic_functions by (metis atLeastLessThan_iff set_upt zero_le)
qed


section \<open>Substrings\<close>

lemma find_from_None: "find_from needle hay pos = None \<longleftrightarrow> (\<forall>k. pos \<le> k \<longrightarrow> k \<le> length hay \<longrightarrow> \<not> occurs_at needle hay k)"
  unfolding find_from_def find_None_iff by (auto simp del: upt_Suc)

definition occurrences :: "string \<Rightarrow> string \<Rightarrow> nat \<Rightarrow> nat list" where
  "occurrences needle hay pos = filter (occurs_at needle hay) [pos..<Suc (length hay)]"

lemma occurrences_step:
  "occurrences needle hay pos = (case find_from needle hay pos of None \<Rightarrow> [] | Some f \<Rightarrow> f # occurrences needle hay (f + 1))"
proof (cases "find_from needle hay pos")
  case None
  then have "occurrences needle hay pos = []" by (auto simp: occurrences_def find_from_None filter_empty_conv simp del: upt_Suc)
  with None show ?thesis by simp
next
  case (Some f)
  note f = find_from_Some [OF Some]
  have "[pos..<Suc (length hay)] = [pos..<f] @ f # [Suc f..<Suc (length hay)]"
    using f(1,2) upt_add_eq_append [of pos f "Suc (length hay) - f"] by (simp add: upt_conv_Cons del: upt_Suc)
  moreover have "filter (occurs_at needle hay) [pos..<f] = []" using f(5) by (auto simp: filter_empty_conv)
  ultimately show ?thesis using Some f(3) by (simp add: occurrences_def del: upt_Suc)
qed

lemma index_loop_occurrences:
  "0 < n \<Longrightarrow> index_loop needle hay n pos =
     (if n \<le> length (occurrences needle hay pos) then wrap32 (int (occurrences needle hay pos ! (n - 1)) + 1) else 0)"
proof (induction n arbitrary: pos)
  case (Suc n)
  show ?case
  proof (cases "find_from needle hay pos")
    case None
    then show ?thesis by (subst occurrences_step) simp
  next
    case (Some f)
    have o: "occurrences needle hay pos = f # occurrences needle hay (f + 1)" using occurrences_step [of needle hay pos] Some by simp
    show ?thesis
    proof (cases n)
      case (Suc m)
      then show ?thesis using Suc.IH [of "f + 1"] Some o by simp
    qed (simp add: Some o)
  qed
qed simp

text \<open>
  \<open>INDEX(hay, needle, k)\<close> is the position, counted from one, of the \<open>k\<close>-th occurrence of the
  needle, where occurrences may overlap, and zero when there are fewer than \<open>k\<close>; an empty needle and an
  occurrence below one are errors.
\<close>

theorem index_kth_occurrence:
  assumes "hstack s = IntV k # StrV needle # StrV hay # vs" "int32 k" "length hay < 2147483647"
  shows "handlerIndex pf hc s =
    (if needle = [] then (Inl (RuntimeError ''BUILTIN: INDEX empty substring''), s\<lparr>hstack := vs\<rparr>)
     else if k < 1 then (Inl (RuntimeError ''BUILTIN: INDEX occurrence''), s\<lparr>hstack := vs\<rparr>)
     else let ps = filter (\<lambda>p. take (length needle) (drop p hay) = needle) [0..<Suc (length hay)]
          in (Inr (), s\<lparr>hstack := IntV (if nat k \<le> length ps then int (ps ! (nat k - 1)) + 1 else 0) # vs\<rparr>))"
proof -
  let ?ps = "occurrences needle hay 0"
  have ps: "?ps = filter (\<lambda>p. take (length needle) (drop p hay) = needle) [0..<Suc (length hay)]"
    by (simp add: occurrences_def occurs_at_def [abs_def] del: upt_Suc)
  have "int32 (int (?ps ! j) + 1)" if "j < length ?ps" for j
  proof -
    have "?ps ! j \<in> set ?ps" using that by simp
    then have "?ps ! j \<le> length hay" by (auto simp: occurrences_def simp del: upt_Suc)
    then show ?thesis using assms(3) unfolding int32_def int_min_def int_max_def by linarith
  qed
  then have "index_loop needle hay (nat k) 0 = (if nat k \<le> length ?ps then int (?ps ! (nat k - 1)) + 1 else 0)" if "1 \<le> k"
    using that by (simp add: index_loop_occurrences wrap32_id)
  then show ?thesis
    using assms(1,2) by (simp add: handlerIndex_def ternaryH_run constantH_run Let_def del: upt_Suc flip: ps)
qed

text \<open>Joining on a delimiter that may be longer than one character.\<close>

fun join_str :: "string \<Rightarrow> string list \<Rightarrow> string" where
  "join_str d [] = []"
| "join_str d [p] = p"
| "join_str d (p # q # ps) = p @ d @ join_str d (q # ps)"

lemma join_str_Cons: "ps \<noteq> [] \<Longrightarrow> join_str d (p # ps) = p @ d @ join_str d ps"
  by (cases ps) auto

lemma field_loop_not_Nil: "delim \<noteq> [] \<Longrightarrow> field_loop delim hay start \<noteq> []"
  by (subst field_loop.simps) (simp split: option.split)

lemma field_loop_join: "delim \<noteq> [] \<Longrightarrow> join_str delim (field_loop delim hay start) = drop start hay"
proof (induction delim hay start rule: field_loop.induct)
  case (1 delim hay start)
  show ?case
  proof (cases "find_from delim hay start")
    case None
    then show ?thesis by (subst field_loop.simps) simp
  next
    case (Some f)
    note f = find_from_Some [OF Some]
    have "field_loop delim hay start = take (f - start) (drop start hay) # field_loop delim hay (f + length delim)"
      using Some 1(2) by (subst field_loop.simps) simp
    then have "join_str delim (field_loop delim hay start) = take (f - start) (drop start hay) @ delim @ drop (f + length delim) hay"
      using 1(1) [OF Some 1(2) 1(2)] field_loop_not_Nil [OF 1(2)] by (simp add: join_str_Cons)
    also have "delim @ drop (f + length delim) hay = drop f hay"
      using f(3) append_take_drop_id [of "length delim" "drop f hay"] by (simp add: occurs_at_def add.commute)
    also have "take (f - start) (drop start hay) @ drop f hay = drop start hay"
      using append_take_drop_id [of "f - start" "drop start hay"] f(1) by simp
    finally show ?thesis .
  qed
qed

lemma occurs_at_sublist:
  assumes "sublist d (take n (drop start hay))" "d \<noteq> []"
  shows "\<exists>k. start \<le> k \<and> k + length d \<le> start + n \<and> k \<le> length hay \<and> occurs_at d hay k"
proof -
  obtain ps ss where e: "take n (drop start hay) = ps @ d @ ss" using assms(1) by (auto simp: sublist_def)
  have len: "length ps + length d \<le> n" using arg_cong [OF e, of length] by auto
  have "take (length d) (drop (length ps) (take n (drop start hay))) = d" by (simp add: e)
  then have "take (length d) (take (n - length ps) (drop (start + length ps) hay)) = d" by (simp add: drop_take add.commute)
  moreover have "min (length d) (n - length ps) = length d" using len by simp
  ultimately have o: "take (length d) (drop (start + length ps) hay) = d" by (simp only: take_take)
  then have "start + length ps \<le> length hay" using assms(2) by (metis drop_all nat_le_linear take_Nil)
  with o len show ?thesis by (intro exI [of _ "start + length ps"]) (simp add: occurs_at_def)
qed

lemma field_loop_pieces: "delim \<noteq> [] \<Longrightarrow> p \<in> set (field_loop delim hay start) \<Longrightarrow> \<not> sublist delim p"
proof (induction delim hay start rule: field_loop.induct)
  case (1 delim hay start)
  show ?case
  proof (cases "find_from delim hay start")
    case None
    then have "p = take (length hay) (drop start hay)" using 1(3) by (subst (asm) field_loop.simps) simp
    with None 1(2) show ?thesis using occurs_at_sublist [of delim "length hay" start hay] by (auto simp: find_from_None)
  next
    case (Some f)
    then have "p = take (f - start) (drop start hay) \<or> p \<in> set (field_loop delim hay (f + length delim))"
      using 1(2,3) by (subst (asm) field_loop.simps) simp
    moreover have "\<not> sublist delim (take (f - start) (drop start hay))"
    proof
      assume "sublist delim (take (f - start) (drop start hay))"
      then obtain k where "start \<le> k" "k + length delim \<le> start + (f - start)" "occurs_at delim hay k"
        using occurs_at_sublist 1(2) by blast
      then show False using find_from_Some(1,5) [OF Some] 1(2) by (cases delim) auto
    qed
    ultimately show ?thesis using 1(1) [OF Some 1(2) 1(2)] by blast
  qed
qed

text \<open>
  \<open>FIELD(hay, delim, n)\<close> is the \<open>n\<close>-th field of the text: the list the loop collects joins back to the
  text with the delimiter between the fields, no field contains the delimiter, and a field number beyond
  the end gives the empty string; an empty delimiter and a number below one are errors.
\<close>

theorem field_splits:
  assumes "hstack s = IntV n # StrV delim # StrV hay # vs" "int32 n"
  shows "if delim = [] then handlerField pf hc s = (Inl (RuntimeError ''BUILTIN: FIELD empty delimiter''), s\<lparr>hstack := vs\<rparr>)
    else if n < 1 then handlerField pf hc s = (Inl (RuntimeError ''BUILTIN: FIELD field index''), s\<lparr>hstack := vs\<rparr>)
    else \<exists>fields. handlerField pf hc s = (Inr (), s\<lparr>hstack := StrV (if nat n \<le> length fields then fields ! (nat n - 1) else []) # vs\<rparr>)
         \<and> join_str delim fields = hay \<and> (\<forall>p. p \<in> set fields \<longrightarrow> \<not> sublist delim p)"
proof -
  have "handlerField pf hc s = (Inr (), s\<lparr>hstack := StrV (if nat n \<le> length (field_loop delim hay 0) then field_loop delim hay 0 ! (nat n - 1) else []) # vs\<rparr>)"
    if "delim \<noteq> []" "\<not> n < 1"
    using that assms by (simp add: handlerField_def ternaryH_run constantH_run Let_def)
  moreover have "join_str delim (field_loop delim hay 0) = hay" if "delim \<noteq> []"
    using field_loop_join [OF that, of hay 0] by simp
  moreover have "\<forall>p. p \<in> set (field_loop delim hay 0) \<longrightarrow> \<not> sublist delim p" if "delim \<noteq> []"
    using field_loop_pieces [OF that] by blast
  ultimately have "\<exists>fields. handlerField pf hc s = (Inr (), s\<lparr>hstack := StrV (if nat n \<le> length fields then fields ! (nat n - 1) else []) # vs\<rparr>)
         \<and> join_str delim fields = hay \<and> (\<forall>p. p \<in> set fields \<longrightarrow> \<not> sublist delim p)" if "delim \<noteq> []" "\<not> n < 1"
    using that by (intro exI [of _ "field_loop delim hay 0"]) blast
  then show ?thesis
    using assms by (simp add: handlerField_def ternaryH_run constantH_run Let_def)
qed

section \<open>The theorems apply\<close>

definition sample_platform :: Platform where
  "sample_platform = (let f = (\<lambda>x. if dbl_wf x then x else DNaN)
     in \<lparr>p_time = 1700000000, p_sin = f, p_cos = f, p_tan = f, p_exp = f, p_log = f\<rparr>)"

definition sample_context :: "HostContext option" where
  "sample_context = Some \<lparr>hc_system = (\<lambda>n. Inr (IntV 7)), hc_status = 0\<rparr>"

definition sample_registry :: LanguageRegistry where
  "sample_registry = (case registerBasicLanguage empty_registry None of Inr (r, _) \<Rightarrow> r | Inl _ \<Rightarrow> empty_registry)"

definition sample_handler_state :: "Value list \<Rightarrow> HandlerState" where
  "sample_handler_state vs = \<lparr>hstack = vs, hengine = \<lparr>mt_words = [], mt_index = 624\<rparr>\<rparr>"

lemma sample_registered: "registerBasicLanguage empty_registry None = Inr (sample_registry, None)"
  by (simp add: sample_registry_def registerBasicLanguage_def registerNamespace_def empty_registry_def Let_def)

lemma sample_ok: "platform_ok sample_platform" "context_ok sample_context" "int32 7" "int32 2" "int32 3"
  by (simp_all add: sample_platform_def platform_ok_def sample_context_def context_ok_def Let_def range_simps)

theorem builtin_call_contract_witness:
  "registerBasicLanguage empty_registry None = Inr (sample_registry, None)
   \<and> (case dispatch sample_registry sample_platform kNamespaceIdBasic 17 1 sample_context (sample_handler_state [IntV 3, StrV ''x'']) of
        (Inr u, t) \<Rightarrow> \<exists>v. value_wf v \<and> hstack t = [v, StrV ''x'']
      | (Inl e, t) \<Rightarrow> hstack t = [IntV 3, StrV ''x''] \<or> hstack t = [StrV ''x''])"
proof -
  have "stack_wf (hstack (sample_handler_state [IntV 3, StrV ''x'']))"
    by (simp add: stack_wf_def sample_handler_state_def sample_ok)
  from builtin_call_contract [OF sample_registered sample_ok(1,2) this, where fnId = 17 and n = 1] show ?thesis
    by (auto simp: sample_registered sample_handler_state_def split: prod.splits sum.splits)
qed

theorem invokeBuiltinShim_calls_witness:
  "invokeBuiltinShim ''MOD'' sample_platform sample_context (Some sample_registry) (sample_handler_state [IntV 3, IntV 7])
   = handlerMod sample_platform sample_context (sample_handler_state [IntV 3, IntV 7])"
  using invokeBuiltinShim_calls [OF sample_registered, of "sample_handler_state [IntV 3, IntV 7]" "''MOD''" 9 sample_platform sample_context]
  by (simp add: sample_handler_state_def functionIdForBuiltinName_def argCountForBuiltinName_def functionIdForCall_def call_table_def
      basic_functions_def sample_ok)

theorem index_kth_occurrence_witness:
  "handlerIndex sample_platform None (sample_handler_state [IntV 2, StrV ''aa'', StrV ''aaab'', IntV 7])
   = (Inr (), sample_handler_state [IntV 2, IntV 7])"
  using index_kth_occurrence [of "sample_handler_state [IntV 2, StrV ''aa'', StrV ''aaab'', IntV 7]" 2 "''aa''" "''aaab''" "[IntV 7]" sample_platform None]
  by (simp add: sample_handler_state_def sample_ok upt_rec)

theorem field_splits_witness:
  "\<exists>fields. handlerField sample_platform None (sample_handler_state [IntV 2, StrV ''--'', StrV ''ab--c''])
     = (Inr (), sample_handler_state [StrV (if 2 \<le> length fields then fields ! 1 else [])]) \<and> join_str ''--'' fields = ''ab--c''"
  using field_splits [of "sample_handler_state [IntV 2, StrV ''--'', StrV ''ab--c'']" 2 "''--''" "''ab--c''" "[]" sample_platform None]
  by (auto simp: sample_handler_state_def sample_ok)

end
