(* ===== verification/Correlatives.thy ===== *)
theory Correlatives
  imports File_System Conversion
begin

text \<open>
  The dictionary of the ENGLISH query language (\<open>src/core/english\<close>): the expressions of I-type dictionary items
  with their lexer, parser and evaluator (\<open>correlatives/IExpression*.cpp\<close>), the F-type and I-type item parsers, the
  evaluation of a field on a data record (\<open>CorrelativeEvaluator.cpp\<close>), the classification of items
  (\<open>DictItemClassifier.cpp\<close>) and the resolution of a field name through the file's dictionary, the global one and
  synonyms (\<open>DictionaryResolver.cpp\<close>).

  The C++ functions report failure as \<open>std::nullopt\<close> with a text in the out-parameter \<open>error\<close>, and may also throw:
  \<open>'a optE\<close> has both (\<open>Inl\<close> an exception, \<open>Inr (Inl text)\<close> no value).  The parser is a recursive descent over the lexer
  with one token of lookahead; its recursion carries fuel, and \<open>parse_total\<close> shows that the fuel of \<open>parse\<close> is enough
  for every text.
\<close>

type_synonym 'a optE = "(string + 'a) result"

definition bindO :: "'a optE \<Rightarrow> ('a \<Rightarrow> 'b optE) \<Rightarrow> 'b optE" where
  "bindO m k = bindE m (\<lambda>r. case r of Inl e \<Rightarrow> Inr (Inl e) | Inr x \<Rightarrow> k x)"

definition noneO :: "string \<Rightarrow> 'a optE" where
  "noneO e = Inr (Inl e)"

definition someO :: "'a \<Rightarrow> 'a optE" where
  "someO x = Inr (Inr x)"

definition optO :: "('a option \<times> string) result \<Rightarrow> 'a optE" where
  "optO m = bindE m (\<lambda>(r, e). case r of Some x \<Rightarrow> Inr (Inr x) | None \<Rightarrow> Inr (Inl e))"

lemma bindO_simps [simp]:
  "bindO (someO x) k = k x" "bindO (noneO e) k = noneO e" "bindO (Inl err) k = Inl err" "bindO (Inr (Inr x)) k = k x"
  "bindO (Inr (Inl e)) k = Inr (Inl e)"
  by (simp_all add: bindO_def someO_def noneO_def)

section \<open>Expressions of I-type items\<close>

datatype ICompareOp = CmpEq | CmpNe | CmpLt | CmpLe | CmpGt | CmpGe

datatype ICallKind = Iconv | Oconv

datatype IExpr =
    INumber double
  | IString string
  | IField int
  | IUnary char IExpr
  | IBinary char IExpr IExpr
  | ICompare ICompareOp IExpr IExpr
  | IIf IExpr IExpr IExpr
  | ICall ICallKind IExpr IExpr

section \<open>The lexer\<close>

datatype TokenKind =
    TkEnd | TkNumber | TkString | TkField | TkIf | TkThen | TkElse | TkIconv | TkOconv | TkPlus | TkMinus | TkStar | TkSlash
  | TkLParen | TkRParen | TkComma | TkEq | TkNe | TkLt | TkLe | TkGt | TkGe | TkInvalid

record Token =
  tok_kind :: TokenKind
  tok_lexeme :: string
  tok_number :: double
  tok_field :: int

definition mkTok :: "TokenKind \<Rightarrow> string \<Rightarrow> Token" where
  "mkTok k t = \<lparr>tok_kind = k, tok_lexeme = t, tok_number = dbl_zero False, tok_field = 0\<rparr>"

definition isalpha :: "char \<Rightarrow> bool" where
  "isalpha c \<longleftrightarrow> (65 \<le> code_of c \<and> code_of c \<le> 90) \<or> (97 \<le> code_of c \<and> code_of c \<le> 122)"

text \<open>The loop of \<open>lexString\<close> behind the opening quote.\<close>

fun lexString :: "string \<Rightarrow> string \<Rightarrow> Token \<times> string" where
  "lexString v [] = (mkTok TkInvalid v, [])"
| "lexString v (c # s) =
     (if c = DQ then (mkTok TkString v, s)
      else if c = BSL then (case s of [] \<Rightarrow> lexString (v @ [c]) [] | d # r \<Rightarrow> lexString (v @ [d]) r)
      else lexString (v @ [c]) s)"

fun lexNumber_scan :: "bool \<Rightarrow> string \<Rightarrow> string \<times> string" where
  "lexNumber_scan sawDot [] = ([], [])"
| "lexNumber_scan sawDot (c # s) =
     (if isdigit c then (let (l, r) = lexNumber_scan sawDot s in (c # l, r))
      else if c = CHR ''.'' \<and> \<not> sawDot then (let (l, r) = lexNumber_scan True s in (c # l, r))
      else ([], c # s))"

definition lexNumber :: "string \<Rightarrow> Token \<times> string" where
  "lexNumber s =
     (let (lexeme, r) = lexNumber_scan False s
      in case strtod lexeme of
           Some (v, [], erange) \<Rightarrow> ((mkTok TkNumber lexeme)\<lparr>tok_number := v\<rparr>, r)
         | _ \<Rightarrow> (mkTok TkInvalid lexeme, r))"

definition lexIdentifier :: "string \<Rightarrow> Token \<times> string" where
  "lexIdentifier s =
     (let lexeme = takeWhile isalpha s; r = dropWhile isalpha s; upper = upperCopy lexeme
      in if upper = ''IF'' then (mkTok TkIf lexeme, r)
         else if upper = ''THEN'' then (mkTok TkThen lexeme, r)
         else if upper = ''ELSE'' then (mkTok TkElse lexeme, r)
         else if upper = ''ICONV'' then (mkTok TkIconv lexeme, r)
         else if upper = ''OCONV'' then (mkTok TkOconv lexeme, r)
         else if length lexeme = 1 \<and> 65 \<le> code_of (toupper (hd lexeme)) \<and> code_of (toupper (hd lexeme)) \<le> 90
         then ((mkTok TkField lexeme)\<lparr>tok_field := int (code_of (toupper (hd lexeme))) - 65 + 1\<rparr>, r)
         else (mkTok TkInvalid lexeme, r))"

definition lex_next :: "string \<Rightarrow> Token \<times> string" where
  "lex_next source =
     (case dropWhile isspace source of
        [] \<Rightarrow> (mkTok TkEnd [], [])
      | c # s \<Rightarrow>
          if c = DQ then lexString [] s
          else if isdigit c \<or> c = CHR ''.'' then lexNumber (c # s)
          else if isalpha c then lexIdentifier (c # s)
          else if c = CHR ''<'' then
            (case s of
               d # r \<Rightarrow> if d = CHR ''>'' then (mkTok TkNe ''<>'', r)
                        else if d = CHR ''='' then (mkTok TkLe ''<='', r) else (mkTok TkLt ''<'', s)
             | [] \<Rightarrow> (mkTok TkLt ''<'', s))
          else if c = CHR ''>'' then
            (case s of
               d # r \<Rightarrow> if d = CHR ''='' then (mkTok TkGe ''>='', r) else (mkTok TkGt ''>'', s)
             | [] \<Rightarrow> (mkTok TkGt ''>'', s))
          else if c = CHR ''='' then (mkTok TkEq ''='', s)
          else if c = CHR ''#'' then (mkTok TkNe ''#'', s)
          else if c = CHR ''+'' then (mkTok TkPlus ''+'', s)
          else if c = CHR ''-'' then (mkTok TkMinus ''-'', s)
          else if c = CHR ''*'' then (mkTok TkStar ''*'', s)
          else if c = CHR ''/'' then (mkTok TkSlash ''/'', s)
          else if c = CHR ''('' then (mkTok TkLParen ''('', s)
          else if c = CHR '')'' then (mkTok TkRParen '')'', s)
          else if c = CHR '','' then (mkTok TkComma '','', s)
          else (mkTok TkInvalid [c], s))"

section \<open>The parser\<close>

text \<open>The state of the parser: the current token and the text behind it.\<close>

type_synonym pstate = "Token \<times> string"

definition advance :: "pstate \<Rightarrow> pstate" where
  "advance p = lex_next (snd p)"

definition cur_kind :: "pstate \<Rightarrow> TokenKind" where
  "cur_kind p = tok_kind (fst p)"

definition i_invalid :: string where
  "i_invalid = ''I-type: invalid expression''"

type_synonym parse_result = "(string + IExpr \<times> pstate) option"

definition bindP :: "parse_result \<Rightarrow> (IExpr \<Rightarrow> pstate \<Rightarrow> parse_result) \<Rightarrow> parse_result" where
  "bindP m k = (case m of None \<Rightarrow> None | Some (Inl e) \<Rightarrow> Some (Inl e) | Some (Inr (x, p)) \<Rightarrow> k x p)"

definition expect :: "TokenKind \<Rightarrow> pstate \<Rightarrow> (pstate \<Rightarrow> parse_result) \<Rightarrow> parse_result" where
  "expect t p k = (if cur_kind p \<noteq> t then Some (Inl i_invalid) else k (advance p))"

definition compareOpFromToken :: "TokenKind \<Rightarrow> ICompareOp option" where
  "compareOpFromToken t = (case t of TkEq \<Rightarrow> Some CmpEq | TkNe \<Rightarrow> Some CmpNe | TkLt \<Rightarrow> Some CmpLt | TkLe \<Rightarrow> Some CmpLe
     | TkGt \<Rightarrow> Some CmpGt | TkGe \<Rightarrow> Some CmpGe | _ \<Rightarrow> None)"

function (sequential) parseExpr :: "nat \<Rightarrow> pstate \<Rightarrow> parse_result"
  and parseComparison :: "nat \<Rightarrow> pstate \<Rightarrow> parse_result"
  and parseAdditive :: "nat \<Rightarrow> pstate \<Rightarrow> parse_result"
  and additive_loop :: "nat \<Rightarrow> IExpr \<Rightarrow> pstate \<Rightarrow> parse_result"
  and parseMultiplicative :: "nat \<Rightarrow> pstate \<Rightarrow> parse_result"
  and multiplicative_loop :: "nat \<Rightarrow> IExpr \<Rightarrow> pstate \<Rightarrow> parse_result"
  and parseUnary :: "nat \<Rightarrow> pstate \<Rightarrow> parse_result"
  and parsePrimary :: "nat \<Rightarrow> pstate \<Rightarrow> parse_result" where
  "parseExpr 0 p = None"
| "parseExpr (Suc n) p =
     (if cur_kind p = TkIf then
        bindP (parseComparison n (advance p)) (\<lambda>c p1. expect TkThen p1 (\<lambda>p2.
        bindP (parseExpr n p2) (\<lambda>t p3. expect TkElse p3 (\<lambda>p4.
        bindP (parseExpr n p4) (\<lambda>e p5. Some (Inr (IIf c t e, p5)))))))
      else parseAdditive n p)"
| "parseComparison 0 p = None"
| "parseComparison (Suc n) p =
     bindP (parseAdditive n p) (\<lambda>l p1. case compareOpFromToken (cur_kind p1) of
        Some op \<Rightarrow> bindP (parseAdditive n (advance p1)) (\<lambda>r p2. Some (Inr (ICompare op l r, p2)))
      | None \<Rightarrow> Some (Inr (l, p1)))"
| "parseAdditive 0 p = None"
| "parseAdditive (Suc n) p = bindP (parseMultiplicative n p) (additive_loop n)"
| "additive_loop 0 l p = None"
| "additive_loop (Suc n) l p =
     (if cur_kind p = TkPlus \<or> cur_kind p = TkMinus
      then bindP (parseMultiplicative n (advance p)) (\<lambda>r. additive_loop n (IBinary (hd (tok_lexeme (fst p))) l r))
      else Some (Inr (l, p)))"
| "parseMultiplicative 0 p = None"
| "parseMultiplicative (Suc n) p = bindP (parseUnary n p) (multiplicative_loop n)"
| "multiplicative_loop 0 l p = None"
| "multiplicative_loop (Suc n) l p =
     (if cur_kind p = TkStar \<or> cur_kind p = TkSlash
      then bindP (parseUnary n (advance p)) (\<lambda>r. multiplicative_loop n (IBinary (hd (tok_lexeme (fst p))) l r))
      else Some (Inr (l, p)))"
| "parseUnary 0 p = None"
| "parseUnary (Suc n) p =
     (if cur_kind p = TkMinus then bindP (parseUnary n (advance p)) (\<lambda>e p1. Some (Inr (IUnary CHR ''-'' e, p1)))
      else if cur_kind p = TkPlus then parseUnary n (advance p)
      else parsePrimary n p)"
| "parsePrimary 0 p = None"
| "parsePrimary (Suc n) p =
     (if cur_kind p = TkNumber then Some (Inr (INumber (tok_number (fst p)), advance p))
      else if cur_kind p = TkString then Some (Inr (IString (tok_lexeme (fst p)), advance p))
      else if cur_kind p = TkField then Some (Inr (IField (tok_field (fst p)), advance p))
      else if cur_kind p = TkIconv \<or> cur_kind p = TkOconv then
        expect TkLParen (advance p) (\<lambda>p1. bindP (parseExpr n p1) (\<lambda>v p2. expect TkComma p2 (\<lambda>p3.
        bindP (parseExpr n p3) (\<lambda>c p4. expect TkRParen p4 (\<lambda>p5.
          Some (Inr (ICall (if cur_kind p = TkIconv then Iconv else Oconv) v c, p5)))))))
      else if cur_kind p = TkLParen then
        bindP (parseExpr n (advance p)) (\<lambda>e p1. expect TkRParen p1 (\<lambda>p2. Some (Inr (e, p2))))
      else Some (Inl i_invalid))"
  by pat_completeness auto

termination
  by (relation "measure (case_sum (case_sum (case_sum fst fst) (case_sum fst fst)) (case_sum (case_sum fst fst) (case_sum fst fst)))")
    simp_all

definition parse_fuel :: "string \<Rightarrow> nat" where
  "parse_fuel source = 10 * length source + 10"

definition parseExpression :: "nat \<Rightarrow> pstate \<Rightarrow> (string + IExpr) option" where
  "parseExpression n p = (case parseExpr n p of
     None \<Rightarrow> None
   | Some (Inl e) \<Rightarrow> Some (Inl e)
   | Some (Inr (e, p1)) \<Rightarrow> if cur_kind p1 \<noteq> TkEnd then Some (Inl i_invalid) else Some (Inr e))"

definition parse_i :: "string \<Rightarrow> (string + IExpr) option" where
  "parse_i source = (if source = [] then Some (Inl i_invalid) else parseExpression (parse_fuel source) (lex_next source))"

section \<open>Evaluation\<close>

datatype EvalValue = Numeric double | Text string

definition despace :: "char \<Rightarrow> char" where
  "despace c = (if c = CHR '','' \<or> c = CHR ''$'' then SP else c)"

definition stod_opt :: "string \<Rightarrow> double option" where
  "stod_opt s = (case stod s of Inr (v, _) \<Rightarrow> Some v | Inl _ \<Rightarrow> None)"

definition tryCoerceNumeric :: "string \<Rightarrow> double option" where
  "tryCoerceNumeric txt =
     (let s = trimmed txt
      in if s = [] then Some (dbl_zero False)
         else let t = trimmed (map despace s) in if t = [] then Some (dbl_zero False) else stod_opt t)"

text \<open>The cast to \<open>long long\<close> of a large value is undefined.\<close>

fun dbl_to_int64 :: "double \<Rightarrow> int result" where
  "dbl_to_int64 (DFinite s m x) = checked_int64 (dbl_trunc s m x)"
| "dbl_to_int64 _ = Inl UndefinedBehaviour"

definition dbl_isfinite :: "double \<Rightarrow> bool" where
  "dbl_isfinite d = (case d of DFinite _ _ _ \<Rightarrow> True | _ \<Rightarrow> False)"

definition trim_fraction :: "string \<Rightarrow> string" where
  "trim_fraction s =
     (if CHR ''.'' \<in> set s
      then (let r = strip_zeros s in if r \<noteq> [] \<and> last r = CHR ''.'' then butlast r else r) else s)"

definition formatNumericResult :: "double \<Rightarrow> string result" where
  "formatNumericResult v =
     (if dbl_isfinite v \<and> dbl_is_integer v then bindE (dbl_to_int64 v) (\<lambda>i. Inr (show_int i))
      else Inr (trim_fraction (show_double 15 v)))"

definition firstValue :: "RecordAttribute \<Rightarrow> string" where
  "firstValue a = valueAt a 1"

definition fieldCellText :: "StructuredRecord \<Rightarrow> int \<Rightarrow> string" where
  "fieldCellText sr attributeNo = (if \<not> hasAttribute sr attributeNo then [] else firstValue (attribute sr attributeNo))"

definition evalValueToString :: "EvalValue \<Rightarrow> string result" where
  "evalValueToString v = (case v of Text t \<Rightarrow> Inr t | Numeric d \<Rightarrow> formatNumericResult d)"

text \<open>\<open>evaluateNumeric\<close> and \<open>evaluateCodeArg\<close> behind the call of \<open>evaluateValue\<close>.\<close>

definition evaluateNumeric :: "EvalValue optE \<Rightarrow> double optE" where
  "evaluateNumeric r = bindO r (\<lambda>v. case v of
     Text t \<Rightarrow> (case tryCoerceNumeric t of Some n \<Rightarrow> someO n | None \<Rightarrow> noneO ''I-type: type mismatch'')
   | Numeric n \<Rightarrow> someO n)"

definition evaluateCodeArg :: "EvalValue optE \<Rightarrow> string optE" where
  "evaluateCodeArg r = bindO r (\<lambda>v. bindE (evalValueToString v) someO)"

definition compare_doubles :: "ICompareOp \<Rightarrow> double \<Rightarrow> double \<Rightarrow> bool" where
  "compare_doubles op l r = (case op of CmpEq \<Rightarrow> dbl_eq l r | CmpNe \<Rightarrow> \<not> dbl_eq l r | CmpLt \<Rightarrow> dbl_less l r
     | CmpLe \<Rightarrow> dbl_le l r | CmpGt \<Rightarrow> dbl_less r l | CmpGe \<Rightarrow> dbl_le r l)"

definition compare_texts :: "ICompareOp \<Rightarrow> string \<Rightarrow> string \<Rightarrow> bool" where
  "compare_texts op l r = (case op of CmpEq \<Rightarrow> l = r | CmpNe \<Rightarrow> l \<noteq> r | CmpLt \<Rightarrow> l < r | CmpLe \<Rightarrow> l \<le> r
     | CmpGt \<Rightarrow> r < l | CmpGe \<Rightarrow> r \<le> l)"

definition compareEvalValues :: "EvalValue \<Rightarrow> EvalValue \<Rightarrow> ICompareOp \<Rightarrow> bool result" where
  "compareEvalValues left right op = (case (left, right) of
     (Numeric l, Numeric r) \<Rightarrow> Inr (compare_doubles op l r)
   | _ \<Rightarrow> bindE (evalValueToString left) (\<lambda>lText. bindE (evalValueToString right) (\<lambda>rText.
       Inr (case (tryCoerceNumeric lText, tryCoerceNumeric rText) of
              (Some x, Some y) \<Rightarrow> compare_doubles op x y
            | _ \<Rightarrow> compare_texts op lText rText))))"

definition evaluate_binary :: "char \<Rightarrow> double \<Rightarrow> double \<Rightarrow> EvalValue optE" where
  "evaluate_binary op l r =
     (if op = CHR ''+'' then someO (Numeric (dbl_add l r))
      else if op = CHR ''-'' then someO (Numeric (dbl_sub l r))
      else if op = CHR ''*'' then someO (Numeric (dbl_mul l r))
      else if op = CHR ''/'' then
        (if dbl_eq r (dbl_zero False) then noneO ''I-type: division by zero'' else someO (Numeric (dbl_div l r)))
      else noneO i_invalid)"

definition evaluate_call :: "ICallKind \<Rightarrow> string \<Rightarrow> string \<Rightarrow> EvalValue optE" where
  "evaluate_call k input code =
     bindO (optO (case k of Oconv \<Rightarrow> oconvOutput input code | Iconv \<Rightarrow> iconvOutput input code)) (\<lambda>t. someO (Text t))"

text \<open>A condition is an expression, too, but a comparison is only evaluated as one there.\<close>

function (sequential) evaluateValue :: "StructuredRecord \<Rightarrow> IExpr \<Rightarrow> EvalValue optE"
  and evaluateCondition :: "StructuredRecord \<Rightarrow> IExpr \<Rightarrow> bool optE" where
  "evaluateValue sr (INumber v) = someO (Numeric v)"
| "evaluateValue sr (IString t) = someO (Text t)"
| "evaluateValue sr (IField n) = someO (Text (fieldCellText sr n))"
| "evaluateValue sr (IUnary op e) =
     bindO (evaluateNumeric (evaluateValue sr e)) (\<lambda>v. someO (Numeric (if op = CHR ''-'' then dbl_neg v else v)))"
| "evaluateValue sr (IBinary op l r) =
     bindO (evaluateNumeric (evaluateValue sr l)) (\<lambda>x.
     bindO (evaluateNumeric (evaluateValue sr r)) (\<lambda>y. evaluate_binary op x y))"
| "evaluateValue sr (IIf c t e) =
     bindO (evaluateCondition sr c) (\<lambda>truth. if truth then evaluateValue sr t else evaluateValue sr e)"
| "evaluateValue sr (ICall k v c) =
     bindO (evaluateValue sr v) (\<lambda>arg. bindE (evalValueToString arg) (\<lambda>input.
     bindO (evaluateCodeArg (evaluateValue sr c)) (\<lambda>code. evaluate_call k input code)))"
| "evaluateValue sr (ICompare op l r) = noneO i_invalid"
| "evaluateCondition sr (ICompare op l r) =
     bindO (evaluateValue sr l) (\<lambda>x. bindO (evaluateValue sr r) (\<lambda>y. bindE (compareEvalValues x y op) someO))"
| "evaluateCondition sr e =
     bindO (evaluateNumeric (evaluateValue sr e)) (\<lambda>n. someO (\<not> dbl_eq n (dbl_zero False)))"
  by pat_completeness auto

termination
  by (relation "measure (case_sum (\<lambda>(sr, e). 2 * size e) (\<lambda>(sr, e). 2 * size e + 1))") simp_all

definition evaluate :: "IExpr \<Rightarrow> StructuredRecord \<Rightarrow> string optE" where
  "evaluate e sr = bindO (evaluateValue sr e) (\<lambda>v. bindE (evalValueToString v) someO)"

section \<open>Dictionary items\<close>

datatype FSelectorKind = ValueIndex | Leftmost | Rightmost | ConversionRaw

record FCorrelativeDef =
  sourceAttributeNo :: int
  tailRaw :: string
  selectorKind :: FSelectorKind
  f_valueIndex :: int

record ICorrelativeDef =
  expressionRaw :: string
  i_expression :: IExpr

text \<open>The four copies of \<open>parsePositiveInt\<close>: digits beyond the range of \<open>int\<close> make \<open>std::stoi\<close> throw.\<close>

definition parsePositiveInt :: "string \<Rightarrow> int option result" where
  "parsePositiveInt text =
     (if text = [] \<or> \<not> list_all isdigit text then Inr None
      else bindE (stoi text) (\<lambda>(v, r). Inr (if v \<le> 0 then None else Some v)))"

definition parse_f_item :: "StructuredRecord \<Rightarrow> FCorrelativeDef optE" where
  "parse_f_item dictAttrs =
     (let type = firstValue (attribute dictAttrs 1); sourceText = trimmed (firstValue (attribute dictAttrs 2));
          tl = trimmed (firstValue (attribute dictAttrs 3))
      in if type \<noteq> ''F'' \<and> type \<noteq> ''f'' then noneO ''Invalid F-type DICT item: not an F-type record''
         else if sourceText = [] then noneO ''Invalid F-type DICT item: missing source attribute''
         else bindE (parsePositiveInt sourceText) (\<lambda>sa. case sa of
           None \<Rightarrow> noneO ''Invalid F-type DICT item: bad source attribute number''
         | Some src \<Rightarrow>
             if tl = [] then noneO ''Invalid F-type DICT item: missing selector''
             else let d = \<lparr>sourceAttributeNo = src, tailRaw = tl, selectorKind = ConversionRaw, f_valueIndex = 0\<rparr>
                  in if upperCopy tl = ''L'' then someO (d\<lparr>selectorKind := Leftmost\<rparr>)
                     else if upperCopy tl = ''R'' then someO (d\<lparr>selectorKind := Rightmost\<rparr>)
                     else bindE (parsePositiveInt tl) (\<lambda>vn. case vn of
                       Some n \<Rightarrow> someO (d\<lparr>selectorKind := ValueIndex, f_valueIndex := n\<rparr>)
                     | None \<Rightarrow> someO d)))"

text \<open>\<open>IExpressionParser::parse\<close> gives an expression or an error text; \<open>parse_total\<close> below: the fuel never runs out.\<close>

definition parse_i_item :: "StructuredRecord \<Rightarrow> ICorrelativeDef optE" where
  "parse_i_item dictAttrs =
     (let type = firstValue (attribute dictAttrs 1); text = trimmed (firstValue (attribute dictAttrs 2))
      in if type \<noteq> ''I'' \<and> type \<noteq> ''i'' then noneO ''Invalid I-type DICT item: not an I-type record''
         else if text = [] then noneO ''Invalid I-type DICT item: missing expression''
         else case parse_i text of
                Some (Inr e) \<Rightarrow> someO \<lparr>expressionRaw = text, i_expression = e\<rparr>
              | Some (Inl err) \<Rightarrow> noneO (if err = [] then i_invalid else err)
              | None \<Rightarrow> noneO i_invalid)"

record DictItemSummary =
  typeLabel :: string
  item_valid :: bool
  summary_error :: string

definition summary_of :: "string \<Rightarrow> 'a optE \<Rightarrow> DictItemSummary result" where
  "summary_of l m = bindE m (\<lambda>r. Inr (case r of
     Inr _ \<Rightarrow> \<lparr>typeLabel = l, item_valid = True, summary_error = []\<rparr>
   | Inl e \<Rightarrow> \<lparr>typeLabel = l, item_valid = False, summary_error = e\<rparr>))"

definition invalidSummary :: "string \<Rightarrow> DictItemSummary" where
  "invalidSummary e = \<lparr>typeLabel = ''INVALID'', item_valid = False, summary_error = e\<rparr>"

definition classify :: "StructuredRecord \<Rightarrow> DictItemSummary result" where
  "classify attrs =
     (let type = trimmed (firstValue (attribute attrs 1)); second = trimmed (firstValue (attribute attrs 2))
      in if type = [] then Inr (invalidSummary ''Invalid DICT item: missing type code'')
         else if type = ''A'' \<or> type = ''a'' then
           summary_of ''A'' (bindE (parsePositiveInt second) (\<lambda>n. if n \<noteq> None then someO ()
             else noneO ''Invalid A-type DICT item: bad attribute number''))
         else if type = ''S'' \<or> type = ''s'' then
           summary_of ''S'' (if second \<noteq> [] then someO () else noneO ''Invalid S-type DICT item: missing synonym target'')
         else if type = ''F'' \<or> type = ''f'' then summary_of ''F'' (parse_f_item attrs)
         else if type = ''I'' \<or> type = ''i'' then summary_of ''I'' (parse_i_item attrs)
         else Inr (invalidSummary (''Invalid DICT item: unknown type code '' @ [DQ] @ type @ [DQ])))"

section \<open>Resolution of a field name\<close>

datatype DictFieldKind = AttributeKind | FCorrelativeKind | ICorrelativeKind

datatype ConversionCode = NoConversion | ConvD | ConvMD | ConvMC

record FieldRef =
  ref_token :: string
  field_kind :: DictFieldKind
  attributeNo :: "int option"
  conversion :: ConversionCode
  fCorrelative :: "FCorrelativeDef option"
  iCorrelative :: "ICorrelativeDef option"

definition fieldRefIsResolved :: "FieldRef \<Rightarrow> bool" where
  "fieldRefIsResolved ref = (case field_kind ref of
     FCorrelativeKind \<Rightarrow> fCorrelative ref \<noteq> None
   | ICorrelativeKind \<Rightarrow> iCorrelative ref \<noteq> None
   | AttributeKind \<Rightarrow> attributeNo ref \<noteq> None)"

definition makeAttributeRef :: "string \<Rightarrow> int option \<Rightarrow> ConversionCode \<Rightarrow> FieldRef" where
  "makeAttributeRef tok attrNum conv = \<lparr>ref_token = tok, field_kind = AttributeKind, attributeNo = attrNum, conversion = conv,
     fCorrelative = None, iCorrelative = None\<rparr>"

definition makeUnresolvedRef :: "string \<Rightarrow> FieldRef" where
  "makeUnresolvedRef tok = makeAttributeRef tok None NoConversion"

definition startsWithIc :: "string \<Rightarrow> string \<Rightarrow> bool" where
  "startsWithIc hay needle \<longleftrightarrow> length needle \<le> length hay \<and> lowerCopy (take (length needle) hay) = lowerCopy needle"

fun classify_cells :: "string list \<Rightarrow> ConversionCode" where
  "classify_cells [] = NoConversion"
| "classify_cells (cell # cells) =
     (if cell = [] then classify_cells cells
      else let u = upperCopy (trimmed cell)
           in if startsWithIc u ''MD'' then ConvMD else if startsWithIc u ''MC'' then ConvMC
              else if startsWithIc u ''D'' then ConvD else classify_cells cells)"

definition classifyFromAttrs :: "StructuredRecord \<Rightarrow> ConversionCode" where
  "classifyFromAttrs attrs = classify_cells (map (\<lambda>n. firstValue (attribute attrs n)) [10, 9, 8, 7])"

definition catch_fs :: "'a \<Rightarrow> 'a result \<Rightarrow> 'a result" where
  "catch_fs d r = (case r of Inl (FileSystemError _) \<Rightarrow> Inr d | _ \<Rightarrow> r)"

definition tryReadDictRecord :: "host \<Rightarrow> FileSystem \<Rightarrow> world \<Rightarrow> string \<Rightarrow> string \<Rightarrow> Record option result" where
  "tryReadDictRecord h fs w dictFile tok = catch_fs None (readFS h fs w dictFile tok)"

definition logicalFileExists :: "host \<Rightarrow> FileSystem \<Rightarrow> world \<Rightarrow> string \<Rightarrow> bool result" where
  "logicalFileExists h fs w nm = catch_fs False (bindE (openFile h fs w nm) (\<lambda>_. Inr True))"

definition scopedDictLogicalName :: "string \<Rightarrow> string" where
  "scopedDictLogicalName dataFileName = ''DICT-'' @ dataFileName"

definition of_item :: "'a optE \<Rightarrow> ('a \<Rightarrow> FieldRef) \<Rightarrow> FieldRef option result" where
  "of_item m f = bindE m (\<lambda>r. Inr (case r of Inr d \<Rightarrow> Some (f d) | Inl _ \<Rightarrow> None))"

definition fieldFromStructuredDict :: "StructuredRecord \<Rightarrow> string \<Rightarrow> FieldRef option result" where
  "fieldFromStructuredDict attrs originalToken =
     (let type = firstValue (attribute attrs 1)
      in if type = ''A'' \<or> type = ''a'' then
           bindE (parsePositiveInt (firstValue (attribute attrs 2))) (\<lambda>n.
             Inr (Some (makeAttributeRef originalToken n (classifyFromAttrs attrs))))
         else if type = ''F'' \<or> type = ''f'' then
           of_item (parse_f_item attrs) (\<lambda>d. (makeUnresolvedRef originalToken)\<lparr>field_kind := FCorrelativeKind, fCorrelative := Some d\<rparr>)
         else if type = ''I'' \<or> type = ''i'' then
           of_item (parse_i_item attrs) (\<lambda>d. (makeUnresolvedRef originalToken)\<lparr>field_kind := ICorrelativeKind, iCorrelative := Some d\<rparr>)
         else if type = ''S'' \<or> type = ''s'' then Inr None
         else Inr (Some (makeUnresolvedRef originalToken)))"

text \<open>The item of a name: the file's own dictionary first, then \<open>DICT\<close>.  Both are read.\<close>

definition dict_item :: "host \<Rightarrow> FileSystem \<Rightarrow> world \<Rightarrow> string \<Rightarrow> string \<Rightarrow> Record option result" where
  "dict_item h fs w lookupToken dataFileName =
     bindE (if dataFileName = [] then Inr None
            else bindE (logicalFileExists h fs w (scopedDictLogicalName dataFileName)) (\<lambda>ex.
              if \<not> ex then Inr None else tryReadDictRecord h fs w (scopedDictLogicalName dataFileName) lookupToken)) (\<lambda>scoped.
     bindE (tryReadDictRecord h fs w ''DICT'' lookupToken) (\<lambda>global.
       Inr (if scoped \<noteq> None then scoped else global)))"

function resolveFieldRec ::
  "host \<Rightarrow> FileSystem \<Rightarrow> world \<Rightarrow> string \<Rightarrow> string \<Rightarrow> nat \<Rightarrow> string \<Rightarrow> FieldRef option result" where
  "resolveFieldRec h fs w originalToken lookupToken depth dataFileName =
     (if 16 < depth then Inr None
      else bindE (parsePositiveInt lookupToken) (\<lambda>numeric. case numeric of
        Some n \<Rightarrow> Inr (Some (makeAttributeRef originalToken (Some n) NoConversion))
      | None \<Rightarrow> bindE (dict_item h fs w lookupToken dataFileName) (\<lambda>chosen. case chosen of
          None \<Rightarrow> Inr None
        | Some rec \<Rightarrow>
            let structured = recStructured rec; type = firstValue (attribute structured 1)
            in if type = ''S'' \<or> type = ''s'' then
                 (let target = firstValue (attribute structured 2)
                  in if target = [] then Inr (Some (makeUnresolvedRef originalToken))
                     else resolveFieldRec h fs w originalToken target (depth + 1) dataFileName)
               else bindE (fieldFromStructuredDict structured originalToken) (\<lambda>f. case f of
                      Some r \<Rightarrow> Inr (Some r) | None \<Rightarrow> Inr (Some (makeUnresolvedRef originalToken))))))"
  by pat_completeness auto

termination
  by (relation "measure (\<lambda>(h, fs, w, ot, lt, depth, f). 17 - depth)") simp_all

declare resolveFieldRec.simps [simp del]

definition resolveField :: "host \<Rightarrow> FileSystem \<Rightarrow> world \<Rightarrow> string \<Rightarrow> string \<Rightarrow> FieldRef result" where
  "resolveField h fs w dataFileName tok =
     bindE (resolveFieldRec h fs w tok tok 0 dataFileName) (\<lambda>r. case r of
       Some f \<Rightarrow> Inr f | None \<Rightarrow> Inr (makeUnresolvedRef tok))"

definition resolveFields :: "host \<Rightarrow> FileSystem \<Rightarrow> world \<Rightarrow> string \<Rightarrow> string list \<Rightarrow> FieldRef list result" where
  "resolveFields h fs w fileName tokens = mapE (resolveField h fs w fileName) tokens"

definition describeConversion :: "FieldRef \<Rightarrow> string" where
  "describeConversion ref = (case conversion ref of ConvD \<Rightarrow> ''D'' | ConvMD \<Rightarrow> ''MD'' | ConvMC \<Rightarrow> ''MC'' | NoConversion \<Rightarrow> ''none'')"

definition describeFieldKind :: "FieldRef \<Rightarrow> string" where
  "describeFieldKind ref = (case field_kind ref of FCorrelativeKind \<Rightarrow> ''F'' | ICorrelativeKind \<Rightarrow> ''I''
     | AttributeKind \<Rightarrow> if attributeNo ref \<noteq> None then ''A'' else ''unknown'')"

definition describeIExpression :: "ICorrelativeDef \<Rightarrow> string" where
  "describeIExpression d = expressionRaw d"

definition describeFSelector :: "FCorrelativeDef \<Rightarrow> string" where
  "describeFSelector d = (case selectorKind d of
     ValueIndex \<Rightarrow> ''value '' @ show_int (f_valueIndex d)
   | Leftmost \<Rightarrow> ''leftmost (L)''
   | Rightmost \<Rightarrow> ''rightmost (R)''
   | ConversionRaw \<Rightarrow> ''conversion OCONV '' @ [DQ] @ tailRaw d @ [DQ])"

section \<open>The cell of a field\<close>

definition evaluateF :: "FCorrelativeDef \<Rightarrow> StructuredRecord \<Rightarrow> string optE" where
  "evaluateF d sr =
     (let attrNo = sourceAttributeNo d; attr = attribute sr attrNo
      in if \<not> hasAttribute sr attrNo then noneO (''F-type: attribute '' @ show_int attrNo @ '' missing'')
         else case selectorKind d of
                ConversionRaw \<Rightarrow> optO (oconvOutput (firstValue attr) (tailRaw d))
              | ValueIndex \<Rightarrow> if f_valueIndex d \<le> 0 then noneO ''F-type: invalid value index'' else someO (valueAt attr (f_valueIndex d))
              | Leftmost \<Rightarrow> someO (firstValue attr)
              | Rightmost \<Rightarrow> someO (let vs = splitValues attr in if vs = [] then [] else last vs))"

definition evaluateI :: "ICorrelativeDef \<Rightarrow> StructuredRecord \<Rightarrow> string optE" where
  "evaluateI d sr = evaluate (i_expression d) sr"

definition or_empty :: "string optE \<Rightarrow> string result" where
  "or_empty m = bindE m (\<lambda>r. Inr (case r of Inr v \<Rightarrow> v | Inl _ \<Rightarrow> []))"

definition evaluateFieldCell :: "FieldRef \<Rightarrow> StructuredRecord \<Rightarrow> string result" where
  "evaluateFieldCell ref sr = (case field_kind ref of
     FCorrelativeKind \<Rightarrow> (case fCorrelative ref of None \<Rightarrow> Inr [] | Some d \<Rightarrow> or_empty (evaluateF d sr))
   | ICorrelativeKind \<Rightarrow> (case iCorrelative ref of None \<Rightarrow> Inr [] | Some d \<Rightarrow> or_empty (evaluateI d sr))
   | AttributeKind \<Rightarrow> (case attributeNo ref of None \<Rightarrow> Inr [] | Some n \<Rightarrow> Inr (firstValue (attribute sr n))))"

section \<open>The parser always answers\<close>

lemma lexString_rest: "length (snd (lexString v s)) \<le> length s"
proof (induction v s rule: lexString.induct)
  case (2 v c s)
  show ?case
  proof (cases s)
    case (Cons d r)
    then show ?thesis using 2(2) [of d r] 2(3) by (cases "c = DQ"; cases "c = BSL") (auto intro: le_SucI)
  qed auto
qed simp

lemma lexNumber_scan_append: "fst (lexNumber_scan b s) @ snd (lexNumber_scan b s) = s"
  by (induction b s rule: lexNumber_scan.induct) (auto simp: split_beta Let_def)

lemma lexNumber_rest: "snd (lexNumber s) = snd (lexNumber_scan False s)"
  by (auto simp: lexNumber_def split_beta Let_def split: option.splits prod.splits list.splits)

lemma lexNumber_shorter: "isdigit c \<or> c = CHR ''.'' \<Longrightarrow> length (snd (lexNumber (c # s))) \<le> length s"
  using arg_cong [OF lexNumber_scan_append [of False s], of length] arg_cong [OF lexNumber_scan_append [of True s], of length]
  by (auto simp: lexNumber_rest split_beta Let_def)

lemma lexIdentifier_shorter: "isalpha c \<Longrightarrow> length (snd (lexIdentifier (c # s))) \<le> length s"
  by (simp add: lexIdentifier_def Let_def length_dropWhile_le)

lemma lex_next_shorter: "tok_kind (fst (lex_next s)) = TkEnd \<or> length (snd (lex_next s)) < length s"
proof (cases "dropWhile isspace s")
  case (Cons c r)
  have "length (dropWhile isspace s) \<le> length s" by (rule length_dropWhile_le)
  then have le: "length r < length s" using Cons by simp
  have "length (snd (lex_next s)) \<le> length r"
    using lexString_rest [of "[]" r] lexNumber_shorter [of c r] lexIdentifier_shorter [of c r]
    by (auto simp: lex_next_def Cons split: list.split)
  then show ?thesis using le by simp
next
  case Nil
  show ?thesis unfolding lex_next_def Nil by (simp add: mkTok_def)
qed

definition psize :: "pstate \<Rightarrow> nat" where
  "psize p = (if cur_kind p = TkEnd then 0 else Suc (length (snd p)))"

lemma psize_lex: "psize (lex_next s) \<le> length s"
  using lex_next_shorter [of s] by (auto simp: psize_def cur_kind_def)

lemma psize_advance: "cur_kind p \<noteq> TkEnd \<Longrightarrow> psize (advance p) < psize p"
  using psize_lex [of "snd p"] by (simp add: advance_def psize_def [of p])

definition answers :: "nat \<Rightarrow> parse_result \<Rightarrow> bool" where
  "answers b m = (case m of None \<Rightarrow> False | Some (Inl _) \<Rightarrow> True | Some (Inr (e, p)) \<Rightarrow> psize p < b)"

lemma answers_simps [simp]:
  "answers b (Some (Inl e))" "answers b (Some (Inr (x, p))) \<longleftrightarrow> psize p < b" "\<not> answers b None"
  by (simp_all add: answers_def)

lemma parse_result_cases:
  obtains (NoFuel) "m = None" | (Failed) e where "m = Some (Inl e)" | (Parsed) x p where "m = Some (Inr (x, p))"
  by (metis option.exhaust sum.exhaust surj_pair)

lemma answers_bind: "answers b m \<Longrightarrow> (\<And>e p. psize p < b \<Longrightarrow> answers b' (k e p)) \<Longrightarrow> answers b' (bindP m k)"
  by (cases m rule: parse_result_cases) (simp_all add: bindP_def)

lemma answers_expect:
  "t \<noteq> TkEnd \<Longrightarrow> (\<And>q. psize q < psize p \<Longrightarrow> answers b (k q)) \<Longrightarrow> answers b (expect t p k)"
  by (simp add: expect_def psize_advance)

definition fueled :: "nat \<Rightarrow> bool" where
  "fueled n \<longleftrightarrow>
     (\<forall>p. 10 * psize p + 7 < n \<longrightarrow> answers (psize p) (parseExpr n p)) \<and>
     (\<forall>p. 10 * psize p + 6 < n \<longrightarrow> answers (psize p) (parseComparison n p)) \<and>
     (\<forall>p. 10 * psize p + 5 < n \<longrightarrow> answers (psize p) (parseAdditive n p)) \<and>
     (\<forall>l p. 10 * psize p + 4 < n \<longrightarrow> answers (Suc (psize p)) (additive_loop n l p)) \<and>
     (\<forall>p. 10 * psize p + 3 < n \<longrightarrow> answers (psize p) (parseMultiplicative n p)) \<and>
     (\<forall>l p. 10 * psize p + 2 < n \<longrightarrow> answers (Suc (psize p)) (multiplicative_loop n l p)) \<and>
     (\<forall>p. 10 * psize p + 1 < n \<longrightarrow> answers (psize p) (parseUnary n p)) \<and>
     (\<forall>p. 10 * psize p < n \<longrightarrow> answers (psize p) (parsePrimary n p))"

lemma answers_mono: "answers b m \<Longrightarrow> b \<le> b' \<Longrightarrow> answers b' m"
  by (auto simp: answers_def split: option.splits sum.splits)

lemma compareOp_not_End: "compareOpFromToken (cur_kind p) = Some op \<Longrightarrow> cur_kind p \<noteq> TkEnd"
  by (auto simp: compareOpFromToken_def)

lemma fueled_Suc:
  assumes "fueled n"
  shows "fueled (Suc n)"
proof -
  note use = assms [unfolded fueled_def]
  have ex: "answers b (parseExpr n p)" if "10 * psize p + 7 < n" "psize p \<le> b" for p b using use that answers_mono by blast
  have co: "answers b (parseComparison n p)" if "10 * psize p + 6 < n" "psize p \<le> b" for p b using use that answers_mono by blast
  have ad: "answers b (parseAdditive n p)" if "10 * psize p + 5 < n" "psize p \<le> b" for p b using use that answers_mono by blast
  have al: "answers b (additive_loop n l p)" if "10 * psize p + 4 < n" "psize p < b" for l p b using use that answers_mono Suc_leI by blast
  have mu: "answers b (parseMultiplicative n p)" if "10 * psize p + 3 < n" "psize p \<le> b" for p b using use that answers_mono by blast
  have ml: "answers b (multiplicative_loop n l p)" if "10 * psize p + 2 < n" "psize p < b" for l p b using use that answers_mono Suc_leI by blast
  have un: "answers b (parseUnary n p)" if "10 * psize p + 1 < n" "psize p \<le> b" for p b using use that answers_mono by blast
  have pr: "answers b (parsePrimary n p)" if "10 * psize p < n" "psize p \<le> b" for p b using use that answers_mono by blast
  show ?thesis unfolding fueled_def
  proof (intro conjI allI impI)
    fix p :: pstate and l
    show "answers (psize p) (parseExpr (Suc n) p)" if h: "10 * psize p + 7 < Suc n"
    proof (cases "cur_kind p = TkIf")
      case True
      then have "psize (advance p) < psize p" by (intro psize_advance) simp
      then show ?thesis using h
        by (simp add: True) (intro answers_bind [OF co [of _ "psize p"]] answers_expect answers_bind [OF ex [of _ "psize p"]]; simp)
    qed (use h in \<open>simp add: ad\<close>)
    show "answers (psize p) (parseComparison (Suc n) p)" if h: "10 * psize p + 6 < Suc n"
      using h by (auto intro!: answers_bind [OF ad [of p "psize p"]] answers_bind [OF ad [of _ "psize p"]] split: option.split
        dest!: compareOp_not_End psize_advance)
    show "answers (psize p) (parseAdditive (Suc n) p)" if h: "10 * psize p + 5 < Suc n"
      using h by (auto intro!: answers_bind [OF mu [of p "psize p"]] al)
    show "answers (Suc (psize p)) (additive_loop (Suc n) l p)" if h: "10 * psize p + 4 < Suc n"
      using h psize_advance [of p] by (auto intro!: answers_bind [OF mu [of _ "psize p"]] al)
    show "answers (psize p) (parseMultiplicative (Suc n) p)" if h: "10 * psize p + 3 < Suc n"
      using h by (auto intro!: answers_bind [OF un [of p "psize p"]] ml)
    show "answers (Suc (psize p)) (multiplicative_loop (Suc n) l p)" if h: "10 * psize p + 2 < Suc n"
      using h psize_advance [of p] by (auto intro!: answers_bind [OF un [of _ "psize p"]] ml)
    show "answers (psize p) (parseUnary (Suc n) p)" if h: "10 * psize p + 1 < Suc n"
      using h psize_advance [of p] by (auto intro!: answers_bind [OF un [of _ "psize p"]] un pr)
    show "answers (psize p) (parsePrimary (Suc n) p)" if h: "10 * psize p < Suc n"
    proof (cases "cur_kind p = TkEnd")
      case False
      have a: "psize (advance p) < psize p" by (rule psize_advance [OF False])
      have e: "answers (psize p) (parseExpr n q)" if "psize q < psize p" for q using that h by (intro ex) auto
      have sub: "answers (psize p) (bindP (parseExpr n q) k)"
        if "psize q < psize p" "\<And>x r. psize r < psize p \<Longrightarrow> answers (psize p) (k x r)" for q k
        by (rule answers_bind [OF e [OF that(1)] that(2)])
      have ex2: "answers (psize p) (expect t q k)"
        if "t \<noteq> TkEnd" "psize q < psize p" "\<And>r. psize r < psize p \<Longrightarrow> answers (psize p) (k r)" for t q k
        by (rule answers_expect [OF that(1)]) (use that(2,3) in auto)
      show ?thesis using a by (auto intro!: sub ex2)
    qed simp
  qed
qed

lemma fueled_all: "fueled n"
  by (induction n) (simp add: fueled_def, rule fueled_Suc)

lemma parse_total: "parse_i source \<noteq> None"
proof -
  have "answers (psize (lex_next source)) (parseExpr (parse_fuel source) (lex_next source))"
    using fueled_all [of "parse_fuel source", unfolded fueled_def, THEN conjunct1, rule_format, of "lex_next source"] psize_lex [of source]
    by (simp add: parse_fuel_def)
  then show ?thesis by (auto simp: parse_i_def parseExpression_def answers_def split: option.splits sum.splits)
qed

section \<open>Resolved references\<close>

definition ref_ok :: "FieldRef \<Rightarrow> bool" where
  "ref_ok r \<longleftrightarrow> (\<forall>n. attributeNo r = Some n \<longrightarrow> 0 < n \<and> int32 n)"

lemma parsePositiveInt_range: "parsePositiveInt t = Inr (Some n) \<Longrightarrow> 0 < n \<and> int32 n"
  by (auto simp: parsePositiveInt_def bindE_eq_Inr_iff split: if_splits prod.splits dest: stoi_int32)

lemma makeAttributeRef_ok: "ref_ok (makeAttributeRef t n c) \<longleftrightarrow> (\<forall>k. n = Some k \<longrightarrow> 0 < k \<and> int32 k)"
  by (simp add: ref_ok_def makeAttributeRef_def)

lemma unresolved_ok: "ref_ok (makeUnresolvedRef t)"
  by (simp add: makeUnresolvedRef_def makeAttributeRef_ok)

lemma of_item_Some: "of_item m f = Inr (Some r) \<longleftrightarrow> (\<exists>d. m = Inr (Inr d) \<and> r = f d)"
  by (cases m; cases "projr m") (auto simp: of_item_def)

lemma fieldFromStructuredDict_ok: "fieldFromStructuredDict attrs t = Inr (Some r) \<Longrightarrow> ref_ok r"
  by (auto simp: fieldFromStructuredDict_def Let_def bindE_eq_Inr_iff of_item_Some makeAttributeRef_ok unresolved_ok
      dest: parsePositiveInt_range split: if_splits)
    (simp_all add: ref_ok_def makeUnresolvedRef_def makeAttributeRef_def)

lemma resolveFieldRec_ok: "resolveFieldRec h fs w ot lt depth f = Inr (Some r) \<Longrightarrow> ref_ok r"
proof (induction h fs w ot lt depth f rule: resolveFieldRec.induct)
  case (1 h fs w ot lt depth f)
  note step = 1(2) [unfolded resolveFieldRec.simps [of h fs w ot lt depth f]]
  then have d: "\<not> 16 < depth" by (auto split: if_splits)
  then obtain n where n: "parsePositiveInt lt = Inr n" using step by (auto simp: bindE_eq_Inr_iff)
  show ?case
  proof (cases n)
    case (Some k)
    then show ?thesis using step d n parsePositiveInt_range [of lt k] by (auto simp: makeAttributeRef_ok)
  next
    case None
    then obtain rc where rc: "dict_item h fs w lt f = Inr (Some rc)" using step d n by (auto simp: bindE_eq_Inr_iff split: option.splits)
    let ?type = "firstValue (attribute (recStructured rc) 1)" and ?target = "firstValue (attribute (recStructured rc) 2)"
    show ?thesis
    proof (cases "(?type = ''S'' \<or> ?type = ''s'') \<and> ?target \<noteq> []")
      case True
      then have "resolveFieldRec h fs w ot ?target (depth + 1) f = Inr (Some r)" using step d n None rc by (auto simp: Let_def)
      then show ?thesis using 1(1) [OF d refl refl _ refl] True by blast
    next
      case False
      then show ?thesis using step d n None rc unresolved_ok fieldFromStructuredDict_ok
        by (auto simp: Let_def bindE_eq_Inr_iff split: if_splits option.splits)
    qed
  qed
qed

lemma resolveField_ok: "resolveField h fs w f t = Inr r \<Longrightarrow> ref_ok r"
  by (auto simp: resolveField_def bindE_eq_Inr_iff unresolved_ok split: option.splits dest: resolveFieldRec_ok)

end
