(* ===== verification/Runtime.thy ===== *)
theory Runtime
  imports Languages Correlatives Bytecode_Parser
begin

text \<open>
  The virtual machine of \<open>src/core/vm/Runtime.cpp\<close>: its state (program, value stack, return addresses, loop
  frames, variables, arrays, open files, the streams and the record lock status), one definition per
  case of the switch in \<open>Runtime::step\<close>, and the loop \<open>run\<close>.  What the machine is configured with is the
  record \<open>Env\<close>: the file system and the host below it, the language registry, the system variable reader and the
  handler of \<open>SYSTEM\<close>.  The record store and the lock table are the world the
  machine shares with other sessions; dictionary fields are those of the ENGLISH dictionary.  The theorems are the machine invariant, the typing of loaded programs,
  the arithmetic of the opcodes, loops, arrays, subroutines and the error paths of the file opcodes.
\<close>

section \<open>State\<close>

record ForFrame =
  varName :: string
  frame_limit :: int
  frame_step :: int
  bodyIP :: nat

record Runtime =
  code :: "Instruction list"
  sourceLines :: "int list"
  stack :: "Value list"
  callStack :: "nat list"
  forStack :: "ForFrame list"
  variables :: "string \<rightharpoonup> Value"
  arrays :: "string \<rightharpoonup> Value list"
  openFiles :: "string \<rightharpoonup> FileHandle"
  ip :: nat
  interrupted :: bool
  inStream :: string
  outStream :: string
  statusCode :: int
  onErrorIp :: "nat option"
  vmWorld :: world
  engine :: Engine

record Env =
  fileSystem :: "FileSystem option"
  vmHost :: host
  languageRegistry :: "LanguageRegistry option"
  systemVarReader :: "(string \<Rightarrow> Value option) option"
  builtinSystemCallHandler :: "(int \<Rightarrow> Value result) option"
  platform :: Platform

text \<open>\<open>break\<close> goes on to \<open>++ip_\<close>; \<open>return ip_ < program_.size()\<close> does not.\<close>

datatype flow = Break | Leave

type_synonym 'a vm = "(Runtime, 'a) action"

definition kStatusRecordLocked :: int where
  "kStatusRecordLocked = 1"

section \<open>Errors of the file opcodes\<close>

datatype IoErrorKind =
  BackendUnavailable | MissingFile | FileVarNotOpen | MissingRecord | CursorExhausted | MissingAttribute
  | MissingSubvalue | RecordLocked

fun ioErrorKindName :: "IoErrorKind \<Rightarrow> string" where
  "ioErrorKindName BackendUnavailable = ''BACKEND.UNAVAILABLE''"
| "ioErrorKindName MissingFile = ''FILE.NOT.FOUND''"
| "ioErrorKindName FileVarNotOpen = ''FILE.VAR.NOT.OPEN''"
| "ioErrorKindName MissingRecord = ''RECORD.NOT.FOUND''"
| "ioErrorKindName CursorExhausted = ''CURSOR.EXHAUSTED''"
| "ioErrorKindName MissingAttribute = ''ATTRIBUTE.NOT.FOUND''"
| "ioErrorKindName MissingSubvalue = ''SUBVALUE.NOT.FOUND''"
| "ioErrorKindName RecordLocked = ''ERR_RECORD_LOCKED''"

definition makeIoError :: "string \<Rightarrow> IoErrorKind \<Rightarrow> string \<Rightarrow> error" where
  "makeIoError op kind detail =
     RuntimeError (op @ '': '' @ ioErrorKindName kind @ (if detail = [] then [] else '' ('' @ detail @ '')''))"

definition isRecordLockConflict :: "string \<Rightarrow> bool" where
  "isRecordLockConflict what \<longleftrightarrow> find_from ''RECORD LOCKED'' what 0 \<noteq> None"

section \<open>Basic actions\<close>

definition pushV :: "Value \<Rightarrow> unit vm" where
  "pushV v = updS (\<lambda>s. s\<lparr>stack := v # stack s\<rparr>)"

definition popV :: "Value vm" where
  "popV s = (case stack s of [] \<Rightarrow> (Inl (RuntimeError ''VM stack underflow''), s) | v # vs \<Rightarrow> (Inr v, s\<lparr>stack := vs\<rparr>))"

definition intFromStackValue :: "Value \<Rightarrow> string \<Rightarrow> int result" where
  "intFromStackValue v ctx = (case v of IntV i \<Rightarrow> Inr i | _ \<Rightarrow> Inl (RuntimeError (ctx @ '': expected int on stack'')))"

definition stringFromStackValue :: "Value \<Rightarrow> string \<Rightarrow> string result" where
  "stringFromStackValue v ctx = (case v of StrV x \<Rightarrow> Inr x | _ \<Rightarrow> Inl (RuntimeError (ctx @ '': expected string on stack'')))"

definition popInt :: "string \<Rightarrow> int vm" where
  "popInt ctx = bindS popV (\<lambda>v. liftS (intFromStackValue v ctx))"

definition popString :: "string \<Rightarrow> string vm" where
  "popString ctx = bindS popV (\<lambda>v. liftS (stringFromStackValue v ctx))"

definition popCoerced :: "int vm" where
  "popCoerced = bindS popV (\<lambda>v. liftS (coerceToInt v))"

definition popText :: "string vm" where
  "popText = bindS popV (\<lambda>v. retS (valueToString v))"

definition print :: "string \<Rightarrow> unit vm" where
  "print t = updS (\<lambda>s. s\<lparr>outStream := outStream s @ t\<rparr>)"

definition break_after :: "unit vm \<Rightarrow> flow vm" where
  "break_after m = bindS m (\<lambda>_. retS Break)"

definition push_break :: "Value \<Rightarrow> flow vm" where
  "push_break v = break_after (pushV v)"

definition push_try :: "Value \<Rightarrow> int \<Rightarrow> flow vm" where
  "push_try v flag = bindS (pushV v) (\<lambda>_. push_break (IntV flag))"

definition intOperand :: "Instruction \<Rightarrow> int vm" where
  "intOperand instr = bindS (getS ip) (\<lambda>i. liftS (intOperandAtIp instr i))"

definition stringOperand :: "Instruction \<Rightarrow> string vm" where
  "stringOperand instr = bindS (getS ip) (\<lambda>i. liftS (stringOperandAtIp instr i))"

definition nameOperand :: "Instruction \<Rightarrow> string vm" where
  "nameOperand instr = bindS (stringOperand instr) (\<lambda>x. retS (canonicalVariableName x))"

text \<open>\<open>static_cast<std::size_t>\<close> of an \<open>int\<close>.\<close>

definition size_t_of_int :: "int \<Rightarrow> nat" where
  "size_t_of_int i = nat (i mod 18446744073709551616)"

definition jump_to :: "nat \<Rightarrow> flow vm" where
  "jump_to n = bindS (updS (\<lambda>s. s\<lparr>ip := n\<rparr>)) (\<lambda>_. retS Leave)"

definition guard_writable :: "string \<Rightarrow> unit vm" where
  "guard_writable nm =
     (if isReadOnlySystemVariableName nm then throwS (RuntimeError (''Read-only system variable: '' @ nm)) else retS ())"

definition catchS :: "'a vm \<Rightarrow> (error \<Rightarrow> 'a vm) \<Rightarrow> 'a vm" where
  "catchS m h s = (case m s of (Inl e, t) \<Rightarrow> h e t | (Inr x, t) \<Rightarrow> (Inr x, t))"

text \<open>A call of the file system: it reads or changes the shared world.\<close>

definition worldS :: "(world \<Rightarrow> 'a result \<times> world) \<Rightarrow> 'a vm" where
  "worldS f s = (let (r, w) = f (vmWorld s) in (r, s\<lparr>vmWorld := w\<rparr>))"

definition queryS :: "(world \<Rightarrow> 'a result) \<Rightarrow> 'a vm" where
  "queryS f s = (f (vmWorld s), s)"

section \<open>Loading\<close>

definition loadProgram :: "Instruction list \<Rightarrow> int list \<Rightarrow> Runtime \<Rightarrow> Runtime" where
  "loadProgram p lines s =
     (let n = min (length p) (length lines)
      in s\<lparr>code := p, sourceLines := take n lines @ replicate (length p - n) 0, ip := 0, stack := [],
           callStack := [], forStack := [], openFiles := Map.empty, arrays := Map.empty, interrupted := False,
           variables := Map.empty, statusCode := 0, onErrorIp := None\<rparr>)"

definition handleRecordLockConflict :: "string \<Rightarrow> unit vm" where
  "handleRecordLockConflict op =
     bindS (updS (\<lambda>s. s\<lparr>statusCode := kStatusRecordLocked\<rparr>)) (\<lambda>_.
     bindS (getS onErrorIp) (\<lambda>h.
       case h of Some target \<Rightarrow> updS (\<lambda>s. s\<lparr>ip := target\<rparr>)
       | None \<Rightarrow> throwS (makeIoError op RecordLocked [])))"

definition sourceLineAtInstruction :: "Runtime \<Rightarrow> nat \<Rightarrow> int" where
  "sourceLineAtInstruction s i = (if length (sourceLines s) \<le> i then 0 else sourceLines s ! i)"

definition currentSourceLine :: "Runtime \<Rightarrow> int" where
  "currentSourceLine s = sourceLineAtInstruction s (ip s)"

definition setInstructionPointer :: "nat \<Rightarrow> unit vm" where
  "setInstructionPointer i =
     bindS (getS (\<lambda>s. length (code s))) (\<lambda>n.
       if n < i then throwS (OutOfRange ''Instruction pointer out of range'') else updS (\<lambda>s. s\<lparr>ip := i\<rparr>))"

definition evalBuiltinSystemCall :: "Env \<Rightarrow> int \<Rightarrow> Value result" where
  "evalBuiltinSystemCall env n =
     (case builtinSystemCallHandler env of
        None \<Rightarrow> Inl (RuntimeError ''BUILTIN: SYSTEM not configured'')
      | Some h \<Rightarrow> h n)"

definition interrupt :: "Runtime \<Rightarrow> Runtime" where
  "interrupt s = s\<lparr>interrupted := True\<rparr>"

definition clearInterrupt :: "Runtime \<Rightarrow> Runtime" where
  "clearInterrupt s = s\<lparr>interrupted := False\<rparr>"

definition dump_value :: "Value \<Rightarrow> string" where
  "dump_value v = (case v of StrV x \<Rightarrow> [DQ] @ x @ [DQ, SP] | _ \<Rightarrow> valueToString v @ [SP])"

definition dumpStack :: "unit vm" where
  "dumpStack = bindS (getS stack) (\<lambda>vs. print (''Stack: [ '' @ concat (map dump_value (rev vs)) @ '']'' @ [LF]))"

section \<open>Arithmetic and comparison\<close>

definition binop :: "(Value \<Rightarrow> Value \<Rightarrow> Value result) \<Rightarrow> flow vm" where
  "binop f = bindS popV (\<lambda>b. bindS popV (\<lambda>a. bindS (liftS (f a b)) push_break))"

definition int_result :: "int \<Rightarrow> Value result" where
  "int_result i = bindE (checked_int i) (\<lambda>r. Inr (IntV r))"

definition vm_add :: "Value \<Rightarrow> Value \<Rightarrow> Value result" where
  "vm_add a b = (case (a, b) of (IntV x, IntV y) \<Rightarrow> int_result (x + y)
     | _ \<Rightarrow> arithmeticResultValue a b (dbl_add (coerceToDouble a) (coerceToDouble b)))"

definition vm_sub :: "Value \<Rightarrow> Value \<Rightarrow> Value result" where
  "vm_sub a b = (case (a, b) of (IntV x, IntV y) \<Rightarrow> int_result (x - y)
     | _ \<Rightarrow> arithmeticResultValue a b (dbl_sub (coerceToDouble a) (coerceToDouble b)))"

definition vm_mul :: "Value \<Rightarrow> Value \<Rightarrow> Value result" where
  "vm_mul a b = (case (a, b) of (IntV x, IntV y) \<Rightarrow> int_result (x * y)
     | _ \<Rightarrow> arithmeticResultValue a b (dbl_mul (coerceToDouble a) (coerceToDouble b)))"

definition vm_div :: "Value \<Rightarrow> Value \<Rightarrow> Value result" where
  "vm_div aVal bVal =
     (let b = coerceToDouble bVal; a = coerceToDouble aVal
      in if dbl_eq b (dbl_zero False) then Inl (RuntimeError ''DIV: divide by zero'')
         else case (aVal, bVal) of
                (IntV _, IntV _) \<Rightarrow> bindE (dbl_to_int (dbl_div a b)) (\<lambda>i. Inr (IntV i))
              | _ \<Rightarrow> Inr (DblV (dbl_div a b)))"

definition op_mod :: "Instruction \<Rightarrow> flow vm" where
  "op_mod instr =
     bindS (popInt (opCodeName (instr_op instr))) (\<lambda>b.
     bindS (popInt (opCodeName (instr_op instr))) (\<lambda>a.
       if b = 0 then throwS (RuntimeError ''MOD: division by zero'')
       else bindS (liftS (checked_int (trunc_div a b))) (\<lambda>_. push_break (IntV (trunc_mod a b)))))"

definition flag :: "bool \<Rightarrow> Value" where
  "flag b = IntV (if b then 1 else 0)"

definition vm_compare :: "string \<Rightarrow> (int \<Rightarrow> bool) \<Rightarrow> Value \<Rightarrow> Value \<Rightarrow> Value result" where
  "vm_compare ctx p a b = bindE (compareValues a b ctx) (\<lambda>c. Inr (flag (p c)))"

definition op_eq :: "flow vm" where
  "op_eq = binop (vm_compare ''EQ'' (\<lambda>c. c = 0))"

definition op_ne :: "flow vm" where
  "op_ne = binop (vm_compare ''NE'' (\<lambda>c. c \<noteq> 0))"

definition op_lt :: "flow vm" where
  "op_lt = binop (vm_compare ''LT'' (\<lambda>c. c < 0))"

definition op_le :: "flow vm" where
  "op_le = binop (vm_compare ''LE'' (\<lambda>c. c \<le> 0))"

definition op_gt :: "flow vm" where
  "op_gt = binop (vm_compare ''GT'' (\<lambda>c. 0 < c))"

definition op_ge :: "flow vm" where
  "op_ge = binop (vm_compare ''GE'' (\<lambda>c. 0 \<le> c))"

section \<open>Stack, output and input\<close>

definition op_concat :: "Instruction \<Rightarrow> flow vm" where
  "op_concat instr =
     bindS (popString (opCodeName (instr_op instr))) (\<lambda>b.
     bindS (popString (opCodeName (instr_op instr))) (\<lambda>a. push_break (StrV (a @ b))))"

definition op_dup :: "flow vm" where
  "op_dup = bindS (getS stack) (\<lambda>vs.
     case vs of [] \<Rightarrow> throwS (RuntimeError ''VM stack underflow'') | v # _ \<Rightarrow> push_break v)"

definition op_drop :: "flow vm" where
  "op_drop = bindS popV (\<lambda>_. retS Break)"

definition op_print_int :: "Instruction \<Rightarrow> flow vm" where
  "op_print_int instr = bindS (popInt (opCodeName (instr_op instr))) (\<lambda>v. break_after (print (show_int v)))"

definition op_print_str :: "Instruction \<Rightarrow> flow vm" where
  "op_print_str instr = bindS (popString (opCodeName (instr_op instr))) (\<lambda>v. break_after (print v))"

definition op_print_val :: "flow vm" where
  "op_print_val = bindS popText (\<lambda>t. break_after (print t))"

definition op_print_char :: "Instruction \<Rightarrow> flow vm" where
  "op_print_char instr = bindS (popInt (opCodeName (instr_op instr))) (\<lambda>v.
     if v < 0 \<or> 255 < v then throwS (RuntimeError ''PRINT_CHAR: code point out of range'')
     else break_after (print [char_of (nat v)]))"

definition op_coerce_int :: "flow vm" where
  "op_coerce_int = bindS popCoerced (\<lambda>i. push_break (IntV i))"

definition op_coerce_flt :: "flow vm" where
  "op_coerce_flt = bindS popV (\<lambda>v. push_break (DblV (coerceToDouble v)))"

text \<open>\<open>std::getline\<close>: nothing is delivered at the end of the stream.\<close>

definition readInputLine :: "string option vm" where
  "readInputLine s =
     (if inStream s = [] then (Inr None, s)
      else (Inr (Some (takeWhile (\<lambda>c. c \<noteq> LF) (inStream s))),
            s\<lparr>inStream := drop 1 (dropWhile (\<lambda>c. c \<noteq> LF) (inStream s))\<rparr>))"

definition op_input_int :: "flow vm" where
  "op_input_int = bindS readInputLine (\<lambda>l. case l of
     None \<Rightarrow> throwS (RuntimeError ''INPUT_INT: end of input'')
   | Some line \<Rightarrow> (case parseIntLine line of
       None \<Rightarrow> throwS (RuntimeError ''INPUT_INT: invalid integer input'')
     | Some i \<Rightarrow> push_break (IntV i)))"

definition op_input_flt :: "flow vm" where
  "op_input_flt = bindS readInputLine (\<lambda>l. case l of
     None \<Rightarrow> throwS (RuntimeError ''INPUT_FLT: end of input'')
   | Some line \<Rightarrow> (case parseFltLine line of
       None \<Rightarrow> throwS (RuntimeError ''INPUT_FLT: invalid float input'')
     | Some d \<Rightarrow> push_break (DblV d)))"

definition op_input_str :: "flow vm" where
  "op_input_str = bindS readInputLine (\<lambda>l. case l of
     None \<Rightarrow> throwS (RuntimeError ''INPUT_STR: end of input'')
   | Some line \<Rightarrow> push_break (StrV (trim line)))"

section \<open>Control\<close>

definition op_halt :: "flow vm" where
  "op_halt = bindS (getS (\<lambda>s. length (code s))) jump_to"

definition op_jump :: "Instruction \<Rightarrow> flow vm" where
  "op_jump instr = bindS (intOperand instr) (\<lambda>target. jump_to (size_t_of_int target))"

definition op_jump_if_zero :: "Instruction \<Rightarrow> flow vm" where
  "op_jump_if_zero instr = bindS (intOperand instr) (\<lambda>target.
     bindS (popInt (opCodeName (instr_op instr))) (\<lambda>v. if v = 0 then jump_to (size_t_of_int target) else retS Break))"

definition op_call :: "Instruction \<Rightarrow> flow vm" where
  "op_call instr = bindS (intOperand instr) (\<lambda>target.
     bindS (updS (\<lambda>s. s\<lparr>callStack := (ip s + 1) # callStack s\<rparr>)) (\<lambda>_. jump_to (size_t_of_int target)))"

definition op_return :: "flow vm" where
  "op_return = bindS (getS callStack) (\<lambda>cs. case cs of
     [] \<Rightarrow> throwS (RuntimeError ''RETURN without GOSUB'')
   | r # rs \<Rightarrow> bindS (updS (\<lambda>s. s\<lparr>callStack := rs\<rparr>)) (\<lambda>_. jump_to r))"

definition op_for_setup :: "Instruction \<Rightarrow> flow vm" where
  "op_for_setup instr = bindS (nameOperand instr) (\<lambda>nm.
     bindS popCoerced (\<lambda>st. bindS popCoerced (\<lambda>lim.
       if st = 0 then throwS (RuntimeError ''FOR: STEP cannot be zero'')
       else break_after (updS (\<lambda>s.
         s\<lparr>forStack := \<lparr>varName = nm, frame_limit = lim, frame_step = st, bodyIP = ip s + 1\<rparr> # forStack s\<rparr>)))))"

definition loop_done :: "ForFrame \<Rightarrow> int \<Rightarrow> bool" where
  "loop_done frame v = (if 0 < frame_step frame then frame_limit frame < v else v < frame_limit frame)"

definition op_for_next :: "Instruction \<Rightarrow> flow vm" where
  "op_for_next instr = bindS (nameOperand instr) (\<lambda>nm. bindS (getS forStack) (\<lambda>fs. case fs of
     [] \<Rightarrow> throwS (RuntimeError ''NEXT without FOR'')
   | frame # rest \<Rightarrow>
       if nm \<noteq> [] \<and> varName frame \<noteq> nm then throwS (RuntimeError ''FOR/NEXT variable mismatch'')
       else bindS (getS (\<lambda>s. variables s (varName frame))) (\<lambda>it.
         bindS (liftS (case it of None \<Rightarrow> Inr 0 | Some v \<Rightarrow> coerceToInt v)) (\<lambda>cur.
         bindS (liftS (checked_int (cur + frame_step frame))) (\<lambda>newVal.
         bindS (guard_writable (varName frame)) (\<lambda>_.
         bindS (updS (\<lambda>s. s\<lparr>variables := (variables s)(varName frame \<mapsto> IntV newVal)\<rparr>)) (\<lambda>_.
           if loop_done frame newVal then break_after (updS (\<lambda>s. s\<lparr>forStack := rest\<rparr>))
           else jump_to (bodyIP frame))))))))"

section \<open>Arrays\<close>

definition get_array :: "(string \<Rightarrow> string) \<Rightarrow> string \<Rightarrow> Value list vm" where
  "get_array msg nm = bindS (getS (\<lambda>s. arrays s nm)) (\<lambda>a. case a of
     None \<Rightarrow> throwS (RuntimeError (msg nm)) | Some vs \<Rightarrow> retS vs)"

definition set_array :: "string \<Rightarrow> Value list \<Rightarrow> flow vm" where
  "set_array nm vs = break_after (updS (\<lambda>s. s\<lparr>arrays := (arrays s)(nm \<mapsto> vs)\<rparr>))"

definition not_dimensioned :: "string \<Rightarrow> string" where
  "not_dimensioned nm = ''Array not dimensioned: '' @ nm"

definition mat_undefined :: "string \<Rightarrow> string" where
  "mat_undefined nm = ''BUILTIN: MAT undefined array '' @ [DQ] @ nm @ [DQ]"

definition check_index :: "string \<Rightarrow> int \<Rightarrow> Value list \<Rightarrow> unit vm" where
  "check_index nm idx vs =
     (if idx < 1 \<or> length vs < nat idx then throwS (RuntimeError (''Array index out of bounds: '' @ nm)) else retS ())"

definition is_int_array :: "string \<Rightarrow> bool" where
  "is_int_array nm \<longleftrightarrow> nm \<noteq> [] \<and> last nm = CHR ''%''"

definition array_value :: "string \<Rightarrow> Value \<Rightarrow> Value result" where
  "array_value nm v = (if is_int_array nm then bindE (coerceToInt v) (\<lambda>i. Inr (IntV i)) else Inr v)"

definition op_dim_array :: "Instruction \<Rightarrow> flow vm" where
  "op_dim_array instr = bindS (nameOperand instr) (\<lambda>nm. bindS (guard_writable nm) (\<lambda>_. bindS popCoerced (\<lambda>size.
     if size < 1 then throwS (RuntimeError ''DIM: size must be >= 1'')
     else set_array nm (replicate (nat size) (StrV [])))))"

definition op_load_arr :: "Instruction \<Rightarrow> flow vm" where
  "op_load_arr instr = bindS (nameOperand instr) (\<lambda>nm. bindS popCoerced (\<lambda>idx.
     bindS (get_array not_dimensioned nm) (\<lambda>vs. bindS (check_index nm idx vs) (\<lambda>_.
       push_break (vs ! (nat idx - 1))))))"

definition op_store_arr :: "Instruction \<Rightarrow> flow vm" where
  "op_store_arr instr = bindS (nameOperand instr) (\<lambda>nm. bindS (guard_writable nm) (\<lambda>_.
     bindS popCoerced (\<lambda>idx. bindS popV (\<lambda>val. bindS (get_array not_dimensioned nm) (\<lambda>vs.
       bindS (check_index nm idx vs) (\<lambda>_. set_array nm (vs[nat idx - 1 := val])))))))"

definition op_mat_init :: "Instruction \<Rightarrow> flow vm" where
  "op_mat_init instr = bindS (nameOperand instr) (\<lambda>nm. bindS (guard_writable nm) (\<lambda>_. bindS popV (\<lambda>scalar.
     bindS (get_array mat_undefined nm) (\<lambda>vs.
     bindS (liftS (mapE (\<lambda>_. array_value nm scalar) vs)) (set_array nm)))))"

definition op_mat_copy :: "Instruction \<Rightarrow> flow vm" where
  "op_mat_copy instr = bindS (stringOperand instr) (\<lambda>opnd.
     if CHR ''|'' \<notin> set opnd then throwS (RuntimeError ''MAT_COPY: operand must be DST|SRC'')
     else let dst = canonicalVariableName (takeWhile (\<lambda>c. c \<noteq> CHR ''|'') opnd);
              src = canonicalVariableName (drop 1 (dropWhile (\<lambda>c. c \<noteq> CHR ''|'') opnd))
          in bindS (guard_writable dst) (\<lambda>_.
             bindS (get_array mat_undefined dst) (\<lambda>ds.
             bindS (get_array mat_undefined src) (\<lambda>ss.
               if length ds \<noteq> length ss then throwS (RuntimeError ''BUILTIN: MAT dimension mismatch'')
               else bindS (liftS (mapE (array_value dst) ss)) (set_array dst)))))"

definition highest_attribute :: "StructuredRecord \<Rightarrow> nat" where
  "highest_attribute sr = (if sr = [] then 0 else nat (fst (last sr)))"

definition op_mat_load_from_rec :: "Instruction \<Rightarrow> flow vm" where
  "op_mat_load_from_rec instr = bindS (nameOperand instr) (\<lambda>nm. bindS (guard_writable nm) (\<lambda>_. bindS popText (\<lambda>rawText.
     bindS (get_array mat_undefined nm) (\<lambda>vs.
       let sr = fromRaw rawText
       in if highest_attribute sr \<noteq> length vs then throwS (RuntimeError ''BUILTIN: MAT READ attribute count mismatch'')
          else bindS (liftS (mapE (\<lambda>i. array_value nm (StrV
                 (if hasAttribute sr (int i + 1) then raw (attribute sr (int i + 1)) else []))) [0..<length vs]))
               (set_array nm)))))"

definition op_mat_store_to_rec :: "Instruction \<Rightarrow> flow vm" where
  "op_mat_store_to_rec instr = bindS (nameOperand instr) (\<lambda>nm. bindS (get_array mat_undefined nm) (\<lambda>vs.
     push_break (StrV (toRaw (foldl (\<lambda>sr (i, v). setAttribute (int i + 1) (RecordAttribute (valueToString v)) sr)
       [] (enumerate 0 vs))))))"

definition op_clear_vars :: "flow vm" where
  "op_clear_vars = break_after (updS (\<lambda>s. s\<lparr>variables := Map.empty, arrays := Map.empty\<rparr>))"

section \<open>Builtins\<close>

definition op_abs_int :: "flow vm" where
  "op_abs_int = bindS popCoerced (\<lambda>i. bindS (liftS (int_result \<bar>i\<bar>)) push_break)"

definition op_sgn_int :: "flow vm" where
  "op_sgn_int = bindS popCoerced (\<lambda>v. push_break (IntV (if 0 < v then 1 else if v < 0 then - 1 else 0)))"

definition op_seq_str :: "flow vm" where
  "op_seq_str = bindS popText (\<lambda>t. push_break (IntV (case t of [] \<Rightarrow> 0 | c # _ \<Rightarrow> int (code_of c))))"

definition host_context :: "Env \<Rightarrow> Runtime \<Rightarrow> HostContext option" where
  "host_context env s = Some \<lparr>hc_system = evalBuiltinSystemCall env, hc_status = statusCode s\<rparr>"

text \<open>A handler runs on the machine's own stack, with the machine as its host context.\<close>

definition on_stack :: "Env \<Rightarrow> (HostContext option \<Rightarrow> (HandlerState, unit) action) \<Rightarrow> unit vm" where
  "on_stack env h s =
     (let (r, t) = h (host_context env s) \<lparr>hstack = stack s, hengine = engine s\<rparr>
      in (r, s\<lparr>stack := hstack t, engine := hengine t\<rparr>))"

definition op_invoke_builtin :: "Env \<Rightarrow> Instruction \<Rightarrow> flow vm" where
  "op_invoke_builtin env instr = bindS (stringOperand instr) (\<lambda>nm.
     break_after (on_stack env (\<lambda>hc. invokeBuiltinShim nm (platform env) hc (languageRegistry env))))"

definition op_call_func :: "Env \<Rightarrow> Instruction \<Rightarrow> flow vm" where
  "op_call_func env instr = (case languageRegistry env of
     None \<Rightarrow> throwS (RuntimeError ''LANG: registry not configured'')
   | Some reg \<Rightarrow> bindS (getS (\<lambda>s. wrap32 (int (length (stack s))))) (\<lambda>n.
       let call = callFunc instr
       in if n < argCount call then throwS (RuntimeError ''LANG: arity mismatch'')
          else break_after (on_stack env (\<lambda>hc.
            dispatch reg (platform env) (namespaceId call) (functionId call) (argCount call) hc))))"


section \<open>File opcodes\<close>

definition not_configured :: string where
  "not_configured = ''filesystem backend not configured''"

text \<open>The checks every file opcode starts with, in its raising and in its \<open>TRY\<close> form.\<close>

definition with_file :: "Env \<Rightarrow> string \<Rightarrow> string \<Rightarrow> (FileHandle \<Rightarrow> FileSystem \<Rightarrow> 'a vm) \<Rightarrow> 'a vm" where
  "with_file env op fileVar k = bindS (getS (\<lambda>s. openFiles s fileVar)) (\<lambda>fit. case fit of
     None \<Rightarrow> throwS (makeIoError op FileVarNotOpen fileVar)
   | Some fh \<Rightarrow> (case fileSystem env of
       None \<Rightarrow> throwS (makeIoError op BackendUnavailable not_configured)
     | Some fs \<Rightarrow> k fh fs))"

definition try_file :: "Env \<Rightarrow> string \<Rightarrow> flow vm \<Rightarrow> (FileHandle \<Rightarrow> FileSystem \<Rightarrow> flow vm) \<Rightarrow> flow vm" where
  "try_file env fileVar other k = bindS (getS (\<lambda>s. openFiles s fileVar)) (\<lambda>fit. case fit of
     None \<Rightarrow> other
   | Some fh \<Rightarrow> (case fileSystem env of None \<Rightarrow> other | Some fs \<Rightarrow> k fh fs))"

definition set_handle :: "string \<Rightarrow> FileHandle \<Rightarrow> unit vm" where
  "set_handle fileVar fh = updS (\<lambda>s. s\<lparr>openFiles := (openFiles s)(fileVar \<mapsto> fh)\<rparr>)"

text \<open>\<open>catch (const FileSystemError &)\<close> with the lock conflict test.\<close>

definition on_lock_conflict :: "flow vm \<Rightarrow> error \<Rightarrow> flow vm" where
  "on_lock_conflict m e = (case e of
     FileSystemError what \<Rightarrow> if isRecordLockConflict what then m else throwS e
   | _ \<Rightarrow> throwS e)"

definition raise_or_jump :: "string \<Rightarrow> flow vm \<Rightarrow> flow vm" where
  "raise_or_jump op m = catchS m (on_lock_conflict (bindS (handleRecordLockConflict op) (\<lambda>_. retS Leave)))"

definition push_missing :: "flow vm" where
  "push_missing = push_try (StrV []) 0"

definition open_and_reset :: "Env \<Rightarrow> FileSystem \<Rightarrow> string \<Rightarrow> string \<Rightarrow> unit vm" where
  "open_and_reset env fs fileVar fileName =
     bindS (queryS (\<lambda>w. openFile (vmHost env) fs w fileName)) (\<lambda>fh. set_handle fileVar (resetReadNextCursor fh))"

definition op_open_file :: "Env \<Rightarrow> Instruction \<Rightarrow> flow vm" where
  "op_open_file env instr = bindS (nameOperand instr) (\<lambda>fileVar. bindS popText (\<lambda>fileName. case fileSystem env of
     None \<Rightarrow> throwS (makeIoError ''OPEN'' BackendUnavailable not_configured)
   | Some fs \<Rightarrow> catchS (break_after (open_and_reset env fs fileVar fileName))
       (\<lambda>e. case e of FileSystemError _ \<Rightarrow> throwS (makeIoError ''OPEN'' MissingFile fileName) | _ \<Rightarrow> throwS e)))"

definition op_open_file_try :: "Env \<Rightarrow> Instruction \<Rightarrow> flow vm" where
  "op_open_file_try env instr = bindS (nameOperand instr) (\<lambda>fileVar. bindS popText (\<lambda>fileName. case fileSystem env of
     None \<Rightarrow> push_break (IntV 0)
   | Some fs \<Rightarrow> bindS (catchS (bindS (open_and_reset env fs fileVar fileName) (\<lambda>_. retS True))
       (\<lambda>e. case e of FileSystemError _ \<Rightarrow> retS False | _ \<Rightarrow> throwS e)) (\<lambda>ok. push_break (flag ok))))"

text \<open>\<open>read\<close> leaves the world alone; \<open>readU\<close> takes the lock first.\<close>

definition fs_read :: "Env \<Rightarrow> bool \<Rightarrow> FileSystem \<Rightarrow> string \<Rightarrow> string \<Rightarrow> Record option vm" where
  "fs_read env locked fs fileName recordId =
     (if locked then worldS (readU (vmHost env) fs fileName recordId)
      else queryS (\<lambda>w. readFS (vmHost env) fs w fileName recordId))"

definition op_read_rec :: "Env \<Rightarrow> bool \<Rightarrow> string \<Rightarrow> Instruction \<Rightarrow> flow vm" where
  "op_read_rec env locked op instr = bindS (nameOperand instr) (\<lambda>fileVar. bindS popText (\<lambda>recordId.
     with_file env op fileVar (\<lambda>fh fs. raise_or_jump op
       (bindS (fs_read env locked fs (fhName fh) recordId) (\<lambda>r. case r of
          None \<Rightarrow> throwS (makeIoError op MissingRecord recordId)
        | Some rec \<Rightarrow> push_break (StrV (recValue rec)))))))"

definition op_read_rec_try :: "Env \<Rightarrow> bool \<Rightarrow> Instruction \<Rightarrow> flow vm" where
  "op_read_rec_try env locked instr = bindS (nameOperand instr) (\<lambda>fileVar. bindS popText (\<lambda>recordId.
     try_file env fileVar push_missing (\<lambda>fh fs. catchS
       (bindS (fs_read env locked fs (fhName fh) recordId) (\<lambda>r. case r of
          None \<Rightarrow> push_missing
        | Some rec \<Rightarrow> push_try (StrV (recValue rec)) 1))
       (on_lock_conflict push_missing))))"

definition fs_write :: "Env \<Rightarrow> bool \<Rightarrow> FileSystem \<Rightarrow> string \<Rightarrow> Record \<Rightarrow> unit vm" where
  "fs_write env locked fs fileName rec =
     worldS (if locked then writeU (vmHost env) fs fileName rec else writeFS (vmHost env) fs fileName rec)"

definition op_write_rec :: "Env \<Rightarrow> bool \<Rightarrow> string \<Rightarrow> Instruction \<Rightarrow> flow vm" where
  "op_write_rec env locked op instr = bindS (nameOperand instr) (\<lambda>fileVar. bindS popText (\<lambda>recordId. bindS popText (\<lambda>v.
     with_file env op fileVar (\<lambda>fh fs. raise_or_jump op
       (bindS (fs_write env locked fs (fhName fh) (mkRecord recordId v)) (\<lambda>_.
        break_after (set_handle fileVar (resetReadNextCursor fh))))))))"

definition op_read_rec_u :: "Env \<Rightarrow> Instruction \<Rightarrow> flow vm" where
  "op_read_rec_u env instr = op_read_rec env True ''READU'' instr"

definition op_read_rec_u_try :: "Env \<Rightarrow> Instruction \<Rightarrow> flow vm" where
  "op_read_rec_u_try env instr = op_read_rec_try env True instr"

definition op_write_rec_try :: "Env \<Rightarrow> bool \<Rightarrow> Instruction \<Rightarrow> flow vm" where
  "op_write_rec_try env locked instr = bindS (nameOperand instr) (\<lambda>fileVar. bindS popText (\<lambda>recordId. bindS popText (\<lambda>v.
     try_file env fileVar (push_break (IntV 0)) (\<lambda>fh fs. catchS
       (bindS (fs_write env locked fs (fhName fh) (mkRecord recordId v)) (\<lambda>_.
        bindS (set_handle fileVar (resetReadNextCursor fh)) (\<lambda>_. push_break (IntV 1))))
       (\<lambda>e. case e of
          FileSystemError what \<Rightarrow> if isRecordLockConflict what then push_break (IntV 0) else throwS e
        | _ \<Rightarrow> if is_std_exception e then push_break (IntV 0) else throwS e)))))"

definition op_write_rec_u :: "Env \<Rightarrow> Instruction \<Rightarrow> flow vm" where
  "op_write_rec_u env instr = op_write_rec env True ''WRITEU'' instr"

definition op_write_rec_u_try :: "Env \<Rightarrow> Instruction \<Rightarrow> flow vm" where
  "op_write_rec_u_try env instr = op_write_rec_try env True instr"

definition op_release_rec :: "Env \<Rightarrow> Instruction \<Rightarrow> flow vm" where
  "op_release_rec env instr = bindS (nameOperand instr) (\<lambda>fileVar. bindS popText (\<lambda>recordId.
     with_file env ''RELEASE'' fileVar (\<lambda>fh fs.
       bindS (worldS (\<lambda>w. let (b, w') = releaseRecord fs (fhName fh) recordId w in (Inr b, w'))) (\<lambda>_. retS Break))))"

definition op_set_on_error_handler :: "Instruction \<Rightarrow> flow vm" where
  "op_set_on_error_handler instr = bindS (intOperand instr) (\<lambda>targetIp.
     break_after (updS (\<lambda>s. s\<lparr>onErrorIp := (if targetIp \<le> 0 then None else Some (size_t_of_int targetIp))\<rparr>)))"

text \<open>The cursor in the handle moves even when no record is left.\<close>

definition next_record :: "Env \<Rightarrow> string \<Rightarrow> FileHandle \<Rightarrow> string vm" where
  "next_record env fileVar fh s =
     (let (r, fh') = readNextRecord (vmHost env) (vmWorld s) fh in (r, s\<lparr>openFiles := (openFiles s)(fileVar \<mapsto> fh')\<rparr>))"

definition op_read_next :: "Env \<Rightarrow> Instruction \<Rightarrow> flow vm" where
  "op_read_next env instr = bindS (nameOperand instr) (\<lambda>fileVar. with_file env ''READNEXT'' fileVar (\<lambda>fh fs.
     catchS (bindS (next_record env fileVar fh) (\<lambda>r. push_break (StrV r)))
       (\<lambda>e. case e of FileSystemError _ \<Rightarrow> throwS (makeIoError ''READNEXT'' CursorExhausted (''file='' @ fhName fh))
            | _ \<Rightarrow> throwS e)))"

definition op_read_next_try :: "Env \<Rightarrow> Instruction \<Rightarrow> flow vm" where
  "op_read_next_try env instr = bindS (nameOperand instr) (\<lambda>fileVar. try_file env fileVar push_missing (\<lambda>fh fs.
     catchS (bindS (next_record env fileVar fh) (\<lambda>r. push_try (StrV r) 1))
       (\<lambda>e. if is_std_exception e then push_missing else throwS e)))"

section \<open>Attributes and values\<close>

definition attr_detail :: "int \<Rightarrow> int \<Rightarrow> string" where
  "attr_detail attrNo valueIndex = ''attr='' @ show_int attrNo @ (if 0 < valueIndex then '',value='' @ show_int valueIndex else [])"

text \<open>The tail of \<open>READV\<close> for a numbered attribute: the text, or the error the raising form throws.\<close>

definition attribute_text :: "StructuredRecord \<Rightarrow> int \<Rightarrow> int \<Rightarrow> string result" where
  "attribute_text sr attrNo valueIndex =
     (if \<not> hasAttribute sr attrNo then Inl (makeIoError ''READV'' MissingAttribute (attr_detail attrNo 0))
      else let attr = attribute sr attrNo
           in if 0 < valueIndex
              then if \<not> hasValueAt attr valueIndex
                   then Inl (makeIoError ''READV'' MissingSubvalue (attr_detail attrNo valueIndex))
                   else Inr (valueAt attr valueIndex)
              else Inr (raw attr))"

definition evaluateDictFieldCell ::
  "host \<Rightarrow> FileSystem \<Rightarrow> world \<Rightarrow> string \<Rightarrow> string \<Rightarrow> StructuredRecord \<Rightarrow> string result" where
  "evaluateDictFieldCell h fs w dataFileName tok dataRecord =
     bindE (resolveField h fs w dataFileName tok) (\<lambda>ref. evaluateFieldCell ref dataRecord)"

definition op_read_v :: "Env \<Rightarrow> Instruction \<Rightarrow> flow vm" where
  "op_read_v env instr = bindS (nameOperand instr) (\<lambda>fileVar. bindS popCoerced (\<lambda>valueIndex. bindS popV (\<lambda>attrSlot.
     bindS popText (\<lambda>recordId. with_file env ''READV'' fileVar (\<lambda>fh fs.
     bindS (queryS (\<lambda>w. readFS (vmHost env) fs w (fhName fh) recordId)) (\<lambda>r. case r of
       None \<Rightarrow> throwS (makeIoError ''READV'' MissingRecord recordId)
     | Some rec \<Rightarrow>
         let sr = fromRaw (recValue rec)
         in case attrSlot of
              StrV token \<Rightarrow>
                if 0 < valueIndex
                then throwS (makeIoError ''READV'' MissingSubvalue ''computed field does not support value index'')
                else bindS (queryS (\<lambda>w. evaluateDictFieldCell (vmHost env) fs w (fhName fh) token sr)) (\<lambda>cell. push_break (StrV cell))
            | _ \<Rightarrow> bindS (liftS (coerceToInt attrSlot)) (\<lambda>attrNo.
                bindS (liftS (attribute_text sr attrNo valueIndex)) (\<lambda>t. push_break (StrV t)))))))))"

definition op_read_v_try :: "Env \<Rightarrow> Instruction \<Rightarrow> flow vm" where
  "op_read_v_try env instr = bindS (nameOperand instr) (\<lambda>fileVar. bindS popCoerced (\<lambda>valueIndex. bindS popV (\<lambda>attrSlot.
     bindS popText (\<lambda>recordId. try_file env fileVar push_missing (\<lambda>fh fs.
     bindS (queryS (\<lambda>w. readFS (vmHost env) fs w (fhName fh) recordId)) (\<lambda>r. case r of
       None \<Rightarrow> push_missing
     | Some rec \<Rightarrow>
         let sr = fromRaw (recValue rec)
         in case attrSlot of
              StrV token \<Rightarrow>
                if 0 < valueIndex then push_missing
                else bindS (queryS (\<lambda>w. resolveField (vmHost env) fs w (fhName fh) token)) (\<lambda>ref.
                  if \<not> fieldRefIsResolved ref then push_missing
                  else bindS (queryS (\<lambda>w. evaluateDictFieldCell (vmHost env) fs w (fhName fh) token sr)) (\<lambda>cell. push_try (StrV cell) 1))
            | _ \<Rightarrow> bindS (liftS (coerceToInt attrSlot)) (\<lambda>attrNo.
                case attribute_text sr attrNo valueIndex of
                  Inl _ \<Rightarrow> push_missing
                | Inr t \<Rightarrow> push_try (StrV t) 1)))))))"

definition op_extract_attr :: "flow vm" where
  "op_extract_attr = bindS popCoerced (\<lambda>valueIndex. bindS popCoerced (\<lambda>attrNo. bindS popText (\<lambda>rawRecord.
     let attr = attribute (fromRaw rawRecord) attrNo
     in push_break (StrV (if 0 < valueIndex then valueAt attr valueIndex else raw attr)))))"

text \<open>The value \<open>RESOLVE_DICT_ATTR\<close> pushes for a token of an open file.\<close>

definition resolved_value :: "string \<Rightarrow> FieldRef \<Rightarrow> Value" where
  "resolved_value tok f =
     (if field_kind f = FCorrelativeKind \<or> field_kind f = ICorrelativeKind
      then (if fieldRefIsResolved f then StrV tok else IntV 0)
      else case attributeNo f of Some n \<Rightarrow> IntV n | None \<Rightarrow> IntV 0)"

definition op_resolve_dict_attr :: "Env \<Rightarrow> Instruction \<Rightarrow> flow vm" where
  "op_resolve_dict_attr env instr = bindS (nameOperand instr) (\<lambda>fileVar. bindS popText (\<lambda>token.
     try_file env fileVar (push_break (IntV 0)) (\<lambda>fh fs.
       bindS (catchS (bindS (queryS (\<lambda>w. resolveField (vmHost env) fs w (fhName fh) token)) (\<lambda>f. retS (resolved_value token f)))
         (\<lambda>e. if is_std_exception e then retS (IntV 0) else throwS e)) push_break)))"

definition op_chain :: "flow vm" where
  "op_chain = bindS popText (\<lambda>programName.
     if programName = [] then throwS (RuntimeError ''CHAIN requires a program name'') else throwS (ChainRequest programName))"

definition fs_write_value :: "Env \<Rightarrow> FileSystem \<Rightarrow> string \<Rightarrow> string \<Rightarrow> int \<Rightarrow> int \<Rightarrow> string \<Rightarrow> unit vm" where
  "fs_write_value env fs fileName recordId attrNo valueIndex v = worldS
     (if 0 < valueIndex then writeSubvalue (vmHost env) fs fileName recordId attrNo valueIndex v
      else writeAttributeValue (vmHost env) fs fileName recordId attrNo v)"

definition op_write_v :: "Env \<Rightarrow> Instruction \<Rightarrow> flow vm" where
  "op_write_v env instr = bindS (nameOperand instr) (\<lambda>fileVar. bindS popCoerced (\<lambda>valueIndex. bindS popCoerced (\<lambda>attrNo.
     bindS popText (\<lambda>recordId. bindS popText (\<lambda>v. with_file env ''WRITEV'' fileVar (\<lambda>fh fs.
       bindS (fs_write_value env fs (fhName fh) recordId attrNo valueIndex v) (\<lambda>_.
         break_after (set_handle fileVar (resetReadNextCursor fh)))))))))"

definition op_write_v_try :: "Env \<Rightarrow> Instruction \<Rightarrow> flow vm" where
  "op_write_v_try env instr = bindS (nameOperand instr) (\<lambda>fileVar. bindS popCoerced (\<lambda>valueIndex. bindS popCoerced (\<lambda>attrNo.
     bindS popText (\<lambda>recordId. bindS popText (\<lambda>v. try_file env fileVar (push_break (IntV 0)) (\<lambda>fh fs. catchS
       (bindS (fs_write_value env fs (fhName fh) recordId attrNo valueIndex v) (\<lambda>_.
        bindS (set_handle fileVar (resetReadNextCursor fh)) (\<lambda>_. push_break (IntV 1))))
       (\<lambda>e. if is_std_exception e then push_break (IntV 0) else throwS e)))))))"

definition op_close_file :: "Instruction \<Rightarrow> flow vm" where
  "op_close_file instr = bindS (nameOperand instr) (\<lambda>fileVar.
     break_after (updS (\<lambda>s. s\<lparr>openFiles := (openFiles s)(fileVar := None)\<rparr>)))"

section \<open>Variables\<close>

definition op_load_var :: "Env \<Rightarrow> Instruction \<Rightarrow> flow vm" where
  "op_load_var env instr = bindS (nameOperand instr) (\<lambda>nm.
     case (case systemVarReader env of
             Some reader \<Rightarrow> if isReadOnlySystemVariableName nm then reader nm else None
           | None \<Rightarrow> None) of
       Some sv \<Rightarrow> push_break sv
     | None \<Rightarrow> bindS (getS (\<lambda>s. variables s nm)) (\<lambda>it. case it of
         None \<Rightarrow> throwS (RuntimeError (''Undefined variable: '' @ nm))
       | Some v \<Rightarrow> push_break v))"

definition op_store_var :: "Instruction \<Rightarrow> flow vm" where
  "op_store_var instr = bindS (nameOperand instr) (\<lambda>nm. bindS (guard_writable nm) (\<lambda>_. bindS popV (\<lambda>v.
     break_after (updS (\<lambda>s. s\<lparr>variables := (variables s)(nm \<mapsto> v)\<rparr>)))))"

section \<open>The machine\<close>

definition exec :: "Env \<Rightarrow> Instruction \<Rightarrow> flow vm" where
  "exec env instr = (case instr_op instr of
     Halt \<Rightarrow> op_halt
   | PushInt \<Rightarrow> bindS (intOperand instr) (\<lambda>i. push_break (IntV i))
   | PushFlt \<Rightarrow> bindS (bindS (getS ip) (\<lambda>i. liftS (floatOperandAtIp instr i))) (\<lambda>d. push_break (DblV d))
   | PushStr \<Rightarrow> bindS (stringOperand instr) (\<lambda>x. push_break (StrV x))
   | Add \<Rightarrow> binop vm_add | Sub \<Rightarrow> binop vm_sub | Mul \<Rightarrow> binop vm_mul | Div \<Rightarrow> binop vm_div | Mod \<Rightarrow> op_mod instr
   | Eq \<Rightarrow> op_eq | Ne \<Rightarrow> op_ne
   | Lt \<Rightarrow> op_lt | Le \<Rightarrow> op_le
   | Gt \<Rightarrow> op_gt | Ge \<Rightarrow> op_ge
   | Concat \<Rightarrow> op_concat instr | Dup \<Rightarrow> op_dup | Drop \<Rightarrow> op_drop
   | PrintInt \<Rightarrow> op_print_int instr | PrintStr \<Rightarrow> op_print_str instr | PrintEol \<Rightarrow> break_after (print [LF])
   | PrintVal \<Rightarrow> op_print_val | PrintChar \<Rightarrow> op_print_char instr
   | CoerceInt \<Rightarrow> op_coerce_int | CoerceFlt \<Rightarrow> op_coerce_flt
   | InputInt \<Rightarrow> op_input_int | InputFlt \<Rightarrow> op_input_flt | InputStr \<Rightarrow> op_input_str
   | Jump \<Rightarrow> op_jump instr | JumpIfZero \<Rightarrow> op_jump_if_zero instr | Call \<Rightarrow> op_call instr | Return \<Rightarrow> op_return
   | ForSetup \<Rightarrow> op_for_setup instr | ForNext \<Rightarrow> op_for_next instr
   | DimArray \<Rightarrow> op_dim_array instr | LoadArr \<Rightarrow> op_load_arr instr | StoreArr \<Rightarrow> op_store_arr instr
   | MatInit \<Rightarrow> op_mat_init instr | MatCopy \<Rightarrow> op_mat_copy instr
   | MatLoadFromRec \<Rightarrow> op_mat_load_from_rec instr | MatStoreToRec \<Rightarrow> op_mat_store_to_rec instr
   | ClearVars \<Rightarrow> op_clear_vars
   | AbsInt \<Rightarrow> op_abs_int | SgnInt \<Rightarrow> op_sgn_int | SeqStr \<Rightarrow> op_seq_str
   | InvokeBuiltin \<Rightarrow> op_invoke_builtin env instr | CallFunc \<Rightarrow> op_call_func env instr
   | OpenFile \<Rightarrow> op_open_file env instr | OpenFileTry \<Rightarrow> op_open_file_try env instr
   | ReadRec \<Rightarrow> op_read_rec env False ''READ'' instr | ReadRecTry \<Rightarrow> op_read_rec_try env False instr
   | ReadRecU \<Rightarrow> op_read_rec_u env instr | ReadRecUTry \<Rightarrow> op_read_rec_u_try env instr
   | WriteRec \<Rightarrow> op_write_rec env False ''WRITE'' instr | WriteRecTry \<Rightarrow> op_write_rec_try env False instr
   | WriteRecU \<Rightarrow> op_write_rec_u env instr | WriteRecUTry \<Rightarrow> op_write_rec_u_try env instr
   | ReleaseRec \<Rightarrow> op_release_rec env instr | SetOnErrorHandler \<Rightarrow> op_set_on_error_handler instr
   | ReadNext \<Rightarrow> op_read_next env instr | ReadNextTry \<Rightarrow> op_read_next_try env instr
   | ReadV \<Rightarrow> op_read_v env instr | ReadVTry \<Rightarrow> op_read_v_try env instr | ExtractAttr \<Rightarrow> op_extract_attr
   | ResolveDictAttr \<Rightarrow> op_resolve_dict_attr env instr | Chain \<Rightarrow> op_chain
   | WriteV \<Rightarrow> op_write_v env instr | WriteVTry \<Rightarrow> op_write_v_try env instr | CloseFile \<Rightarrow> op_close_file instr
   | LoadVar \<Rightarrow> op_load_var env instr | StoreVar \<Rightarrow> op_store_var instr)"

text \<open>Every path of the switch that returns a result returns \<open>ip_ < program_.size()\<close>; \<open>HALT\<close> sets \<open>ip_\<close> to the size first.\<close>

definition step :: "Env \<Rightarrow> bool vm" where
  "step env s =
     (if length (code s) \<le> ip s then (Inr False, s)
      else bindS (exec env (code s ! ip s)) (\<lambda>f.
           bindS (if f = Break then updS (\<lambda>t. t\<lparr>ip := ip t + 1\<rparr>) else retS ()) (\<lambda>_.
             getS (\<lambda>t. ip t < length (code t)))) s)"

text \<open>The loop may run forever: \<open>None\<close>.\<close>

partial_function (option) run :: "Env \<Rightarrow> Runtime \<Rightarrow> (unit result \<times> Runtime) option" where
  "run env s =
     (case step env s of
        (Inl e, t) \<Rightarrow> Some (Inl e, t)
      | (Inr continue, t) \<Rightarrow>
          if continue then (if interrupted t then Some (Inl UserInterrupt, t) else run env t) else Some (Inr (), t))"

end
