(* ===== verification/Machine_Invariant.thy ===== *)
theory Machine_Invariant
  imports Runtime
begin

text \<open>
  The invariant of the virtual machine.  The loaded program never changes, every value on the stack, in the
  variables and in the arrays is well formed, the return addresses, the loop bodies, the error handler and the
  instruction pointer stay inside the program, and no loop frame has step zero.  The rules are triples over the
  actions of the machine: \<open>keeps\<close> for an action in the middle of an instruction, \<open>finishes\<close> for a whole case of
  the switch.  They are collected in \<open>keeps_intros\<close>, so that each opcode is checked by unfolding it.
\<close>

named_theorems keeps_intros \<open>actions that keep the machine invariant\<close>

section \<open>The invariant\<close>

definition frame_ok :: "nat \<Rightarrow> ForFrame \<Rightarrow> bool" where
  "frame_ok n f \<longleftrightarrow> frame_step f \<noteq> 0 \<and> int32 (frame_step f) \<and> int32 (frame_limit f) \<and> bodyIP f \<le> n"

definition vm_inv :: "Instruction list \<Rightarrow> Runtime \<Rightarrow> bool" where
  "vm_inv p s \<longleftrightarrow>
     code s = p \<and> length (sourceLines s) = length p \<and> ip s \<le> length p \<and>
     list_all value_wf (stack s) \<and> list_all (\<lambda>r. r \<le> length p) (callStack s) \<and>
     list_all (frame_ok (length p)) (forStack s) \<and>
     (\<forall>x v. variables s x = Some v \<longrightarrow> value_wf v) \<and>
     (\<forall>x vs. arrays s x = Some vs \<longrightarrow> vs \<noteq> [] \<and> list_all value_wf vs) \<and>
     (\<forall>h. onErrorIp s = Some h \<longrightarrow> h \<le> length p) \<and> (statusCode s = 0 \<or> statusCode s = 1)"

definition vm_mid :: "Instruction list \<Rightarrow> Runtime \<Rightarrow> bool" where
  "vm_mid p s \<longleftrightarrow> vm_inv p s \<and> ip s < length p"

text \<open>What a loaded program satisfies: typed operands and targets inside the program.\<close>

definition handlers_ok :: "Instruction list \<Rightarrow> bool" where
  "handlers_ok p \<longleftrightarrow> (\<forall>ins \<in> set p. instr_op ins = SetOnErrorHandler \<longrightarrow>
     (case operand ins of IntV t \<Rightarrow> t \<le> int (length p) | _ \<Rightarrow> True))"

definition program_ok :: "Instruction list \<Rightarrow> bool" where
  "program_ok p \<longleftrightarrow> list_all instr_typed p \<and> targets_ok p \<and> handlers_ok p"

definition registry_ok :: "LanguageRegistry \<Rightarrow> bool" where
  "registry_ok reg \<longleftrightarrow> (\<forall>(i, ns) \<in> set (namespaces reg). language_namespace (reg_functions ns))"

definition env_ok :: "Env \<Rightarrow> bool" where
  "env_ok env \<longleftrightarrow> platform_ok (platform env) \<and>
     (\<forall>h n v. builtinSystemCallHandler env = Some h \<longrightarrow> h n = Inr v \<longrightarrow> value_wf v) \<and>
     (\<forall>r x v. systemVarReader env = Some r \<longrightarrow> r x = Some v \<longrightarrow> value_wf v) \<and>
     (\<forall>reg. languageRegistry env = Some reg \<longrightarrow> registry_ok reg)"

section \<open>Triples of the machine\<close>

definition keeps :: "Instruction list \<Rightarrow> 'a vm \<Rightarrow> ('a \<Rightarrow> bool) \<Rightarrow> bool" where
  "keeps p m Q \<longleftrightarrow> triple (vm_mid p) m (\<lambda>x s. vm_mid p s \<and> Q x) (\<lambda>e. vm_mid p)"

definition finishes :: "Instruction list \<Rightarrow> flow vm \<Rightarrow> bool" where
  "finishes p m \<longleftrightarrow> triple (vm_mid p) m (\<lambda>f s. vm_inv p s \<and> (f = Break \<longrightarrow> vm_mid p s)) (\<lambda>e. vm_mid p)"

lemma vm_mid_inv [simp]: "vm_mid p s \<Longrightarrow> vm_inv p s"
  by (simp add: vm_mid_def)

lemma keeps_bind:
  assumes "keeps p m R" "\<And>x. R x \<Longrightarrow> keeps p (k x) Q"
  shows "keeps p (bindS m k) Q"
  using assms unfolding keeps_def by (intro triple_bind [of _ _ "\<lambda>x s. vm_mid p s \<and> R x"]) (auto simp: triple_def)

lemma finishes_bind:
  assumes "keeps p m R" "\<And>x. R x \<Longrightarrow> finishes p (k x)"
  shows "finishes p (bindS m k)"
  using assms unfolding keeps_def finishes_def
  by (intro triple_bind [of _ _ "\<lambda>x s. vm_mid p s \<and> R x"]) (auto simp: triple_def)

lemma keeps_ret [keeps_intros]: "Q x \<Longrightarrow> keeps p (retS x) Q"
  unfolding keeps_def by (rule triple_ret) simp

lemma finishes_ret [keeps_intros]: "finishes p (retS Break)"
  unfolding finishes_def by (rule triple_ret) simp

lemma keeps_throw [keeps_intros]: "keeps p (throwS e) Q"
  unfolding keeps_def by (rule triple_throw) simp

lemma finishes_throw [keeps_intros]: "finishes p (throwS e)"
  unfolding finishes_def by (rule triple_throw) simp

lemma keeps_lift: "(\<And>x. r = Inr x \<Longrightarrow> Q x) \<Longrightarrow> keeps p (liftS r) Q"
  unfolding keeps_def by (rule triple_lift) auto

lemma keeps_get: "(\<And>s. vm_mid p s \<Longrightarrow> Q (f s)) \<Longrightarrow> keeps p (getS f) Q"
  unfolding keeps_def by (rule triple_get) simp

lemma keeps_upd: "(\<And>s. vm_mid p s \<Longrightarrow> vm_mid p (g s)) \<Longrightarrow> keeps p (updS g) (\<lambda>_. True)"
  unfolding keeps_def by (rule triple_upd) simp

lemma finishes_break_after [keeps_intros]: "keeps p m (\<lambda>_. True) \<Longrightarrow> finishes p (break_after m)"
  unfolding break_after_def by (rule finishes_bind, assumption) (rule finishes_ret)

lemma keeps_weaken: "keeps p m Q \<Longrightarrow> (\<And>x. Q x \<Longrightarrow> R x) \<Longrightarrow> keeps p m R"
  unfolding keeps_def by (erule triple_weaken) simp_all

lemma triple_catch:
  assumes "triple P m Q (\<lambda>e. P)" "\<And>e. triple P (h e) Q E"
  shows "triple P (catchS m h) Q E"
  unfolding triple_def
proof (intro allI impI)
  fix s assume "P s"
  then have m: "case m s of (Inr x, t) \<Rightarrow> Q x t | (Inl e, t) \<Rightarrow> P t" using assms(1) by (simp add: triple_def)
  obtain r t where rt: "m s = (r, t)" by (cases "m s")
  show "case catchS m h s of (Inr x, t) \<Rightarrow> Q x t | (Inl e, t) \<Rightarrow> E e t"
  proof (cases r)
    case (Inl e)
    then have "P t" using m rt by simp
    then show ?thesis using assms(2) [of e] Inl rt by (simp add: catchS_def triple_def)
  qed (use m rt in \<open>simp add: catchS_def\<close>)
qed

lemma keeps_catch: "keeps p m Q \<Longrightarrow> (\<And>e. keeps p (h e) Q) \<Longrightarrow> keeps p (catchS m h) Q"
  unfolding keeps_def by (rule triple_catch)

lemma finishes_catch [keeps_intros]: "finishes p m \<Longrightarrow> (\<And>e. finishes p (h e)) \<Longrightarrow> finishes p (catchS m h)"
  unfolding finishes_def by (rule triple_catch)

lemma finishes_bind_get [keeps_intros]: "(\<And>s. vm_mid p s \<Longrightarrow> finishes p (k (f s))) \<Longrightarrow> finishes p (bindS (getS f) k)"
  unfolding finishes_def triple_def bindS_def by simp

lemma finishes_bind_lift [keeps_intros]: "(\<And>x. r = Inr x \<Longrightarrow> finishes p (k x)) \<Longrightarrow> finishes p (bindS (liftS r) k)"
  by (rule finishes_bind [OF keeps_lift])

lemma finishes_bind_query [keeps_intros]: "(\<And>x. (\<exists>w. f w = Inr x) \<Longrightarrow> finishes p (k x)) \<Longrightarrow> finishes p (bindS (queryS f) k)"
  by (rule finishes_bind [where R = "\<lambda>x. \<exists>w. f w = Inr x"]) (auto simp: keeps_def triple_def queryS_def split: sum.split)

lemma keeps_if [keeps_intros]: "(b \<Longrightarrow> keeps p m Q) \<Longrightarrow> (\<not> b \<Longrightarrow> keeps p n Q) \<Longrightarrow> keeps p (if b then m else n) Q"
  by simp

lemma finishes_if [keeps_intros]: "(b \<Longrightarrow> finishes p m) \<Longrightarrow> (\<not> b \<Longrightarrow> finishes p n) \<Longrightarrow> finishes p (if b then m else n)"
  by simp

lemma keeps_option:
  "(x = None \<Longrightarrow> keeps p m Q) \<Longrightarrow> (\<And>y. x = Some y \<Longrightarrow> keeps p (k y) Q) \<Longrightarrow> keeps p (case x of None \<Rightarrow> m | Some y \<Rightarrow> k y) Q"
  by (cases x) auto

lemma finishes_option [keeps_intros]:
  "(x = None \<Longrightarrow> finishes p m) \<Longrightarrow> (\<And>y. x = Some y \<Longrightarrow> finishes p (k y)) \<Longrightarrow> finishes p (case x of None \<Rightarrow> m | Some y \<Rightarrow> k y)"
  by (cases x) auto

lemma finishes_list [keeps_intros]:
  "(xs = [] \<Longrightarrow> finishes p m) \<Longrightarrow> (\<And>y ys. xs = y # ys \<Longrightarrow> finishes p (k y ys)) \<Longrightarrow>
   finishes p (case xs of [] \<Rightarrow> m | y # ys \<Rightarrow> k y ys)"
  by (cases xs) auto

lemma finishes_sum [keeps_intros]:
  "(\<And>e. x = Inl e \<Longrightarrow> finishes p (m e)) \<Longrightarrow> (\<And>y. x = Inr y \<Longrightarrow> finishes p (k y)) \<Longrightarrow>
   finishes p (case x of Inl e \<Rightarrow> m e | Inr y \<Rightarrow> k y)"
  by (cases x) auto

lemma finishes_error [keeps_intros]:
  "(\<And>t. e = RuntimeError t \<Longrightarrow> finishes p (f1 t)) \<Longrightarrow> (\<And>t. e = FileSystemError t \<Longrightarrow> finishes p (f2 t)) \<Longrightarrow>
   (\<And>t. e = OutOfRange t \<Longrightarrow> finishes p (f3 t)) \<Longrightarrow> (\<And>t. e = InvalidArgument t \<Longrightarrow> finishes p (f4 t)) \<Longrightarrow>
   (\<And>t. e = ChainRequest t \<Longrightarrow> finishes p (f5 t)) \<Longrightarrow> finishes p f6 \<Longrightarrow> finishes p f7 \<Longrightarrow>
   finishes p (case e of RuntimeError t \<Rightarrow> f1 t | FileSystemError t \<Rightarrow> f2 t | OutOfRange t \<Rightarrow> f3 t
     | InvalidArgument t \<Rightarrow> f4 t | ChainRequest t \<Rightarrow> f5 t | UserInterrupt \<Rightarrow> f6 | UndefinedBehaviour \<Rightarrow> f7)"
  by (cases e) auto

lemma keeps_error:
  "(\<And>t. e = RuntimeError t \<Longrightarrow> keeps p (f1 t) Q) \<Longrightarrow> (\<And>t. e = FileSystemError t \<Longrightarrow> keeps p (f2 t) Q) \<Longrightarrow>
   (\<And>t. e = OutOfRange t \<Longrightarrow> keeps p (f3 t) Q) \<Longrightarrow> (\<And>t. e = InvalidArgument t \<Longrightarrow> keeps p (f4 t) Q) \<Longrightarrow>
   (\<And>t. e = ChainRequest t \<Longrightarrow> keeps p (f5 t) Q) \<Longrightarrow> keeps p f6 Q \<Longrightarrow> keeps p f7 Q \<Longrightarrow>
   keeps p (case e of RuntimeError t \<Rightarrow> f1 t | FileSystemError t \<Rightarrow> f2 t | OutOfRange t \<Rightarrow> f3 t
     | InvalidArgument t \<Rightarrow> f4 t | ChainRequest t \<Rightarrow> f5 t | UserInterrupt \<Rightarrow> f6 | UndefinedBehaviour \<Rightarrow> f7) Q"
  by (cases e) auto

section \<open>Primitive actions\<close>

lemma keeps_push [keeps_intros]: "value_wf v \<Longrightarrow> keeps p (pushV v) (\<lambda>_. True)"
  unfolding pushV_def by (rule keeps_upd) (simp add: vm_mid_def vm_inv_def)

lemma finishes_push [keeps_intros]: "value_wf v \<Longrightarrow> finishes p (push_break v)"
  unfolding push_break_def by (intro keeps_intros)

lemma finishes_push_try [keeps_intros]: "value_wf v \<Longrightarrow> int32 b \<Longrightarrow> finishes p (push_try v b)"
  unfolding push_try_def by (rule finishes_bind [OF keeps_push]) (simp_all add: finishes_push)

lemma finishes_missing [keeps_intros]: "finishes p push_missing"
  unfolding push_missing_def by (rule finishes_push_try) simp_all

lemma keeps_pop: "keeps p popV value_wf"
  unfolding keeps_def triple_def popV_def by (auto simp: vm_mid_def vm_inv_def split: list.split)

lemma keeps_popInt: "keeps p (popInt ctx) int32"
  unfolding popInt_def
  by (rule keeps_bind [OF keeps_pop], rule keeps_lift) (auto simp: intFromStackValue_def split: Value.splits)

lemma keeps_popString: "keeps p (popString ctx) (\<lambda>_. True)"
  unfolding popString_def by (rule keeps_bind [OF keeps_pop], rule keeps_lift) simp

lemma keeps_popCoerced: "keeps p popCoerced int32"
  unfolding popCoerced_def by (rule keeps_bind [OF keeps_pop], rule keeps_lift) (rule coerceToInt_int32)

lemma keeps_popText: "keeps p popText (\<lambda>_. True)"
  unfolding popText_def by (rule keeps_bind [OF keeps_pop], rule keeps_ret) simp

lemma keeps_print [keeps_intros]: "keeps p (print t) (\<lambda>_. True)"
  unfolding print_def by (rule keeps_upd) (simp add: vm_mid_def vm_inv_def)

lemma keeps_intOperand: "keeps p (intOperand ins) (\<lambda>i. operand ins = IntV i)"
  unfolding intOperand_def
  by (rule keeps_bind [OF keeps_get], rule TrueI, rule keeps_lift) (auto simp: intOperandAtIp_def split: Value.splits)

lemma keeps_stringOperand: "keeps p (stringOperand ins) (\<lambda>_. True)"
  unfolding stringOperand_def by (rule keeps_bind [OF keeps_get], rule TrueI, rule keeps_lift) simp

lemma keeps_nameOperand: "keeps p (nameOperand ins) (\<lambda>_. True)"
  unfolding nameOperand_def by (rule keeps_bind [OF keeps_stringOperand], rule keeps_ret) simp

lemma keeps_guard: "keeps p (guard_writable nm) (\<lambda>_. True)"
  unfolding guard_writable_def by (simp add: keeps_throw keeps_ret)

lemma finishes_jump: "n \<le> length p \<Longrightarrow> finishes p (jump_to n)"
  unfolding jump_to_def finishes_def triple_def bindS_def by (simp add: vm_mid_def vm_inv_def)

lemma keeps_world: "keeps p (worldS f) (\<lambda>_. True)"
  unfolding keeps_def triple_def worldS_def by (simp add: vm_mid_def vm_inv_def split: prod.split sum.split)

lemma keeps_query: "(\<And>w x. f w = Inr x \<Longrightarrow> Q x) \<Longrightarrow> keeps p (queryS f) Q"
  unfolding keeps_def triple_def queryS_def by (simp split: sum.split)

lemma keeps_set_handle: "keeps p (set_handle fv fh) (\<lambda>_. True)"
  unfolding set_handle_def by (rule keeps_upd) (simp add: vm_mid_def vm_inv_def)

lemma finishes_with_file [keeps_intros]: "(\<And>fh fs. finishes p (k fh fs)) \<Longrightarrow> finishes p (with_file env op fv k)"
  unfolding with_file_def by (intro keeps_intros)

lemma finishes_try_file [keeps_intros]:
  "finishes p m \<Longrightarrow> (\<And>fh fs. finishes p (k fh fs)) \<Longrightarrow> finishes p (try_file env fv m k)"
  unfolding try_file_def by (intro keeps_intros)

lemma finishes_lock_jump: "finishes p (bindS (handleRecordLockConflict op) (\<lambda>_. retS Leave))"
  unfolding handleRecordLockConflict_def finishes_def triple_def bindS_def
  by (auto simp: vm_mid_def vm_inv_def kStatusRecordLocked_def split: option.splits)

lemma finishes_raise_or_jump [keeps_intros]: "finishes p m \<Longrightarrow> finishes p (raise_or_jump op m)"
  unfolding raise_or_jump_def on_lock_conflict_def by (intro keeps_intros finishes_lock_jump)

lemma keeps_read: "keeps p (fs_read env b fs f r) (\<lambda>_. True)"
  unfolding fs_read_def by (simp add: keeps_world keeps_query)

lemma keeps_write: "keeps p (fs_write env b fs f r) (\<lambda>_. True)" "keeps p (fs_write_value env fs f x a v t) (\<lambda>_. True)"
  unfolding fs_write_def fs_write_value_def by (rule keeps_world)+

lemma keeps_next_record: "keeps p (next_record env fv fh) (\<lambda>_. True)"
  unfolding keeps_def triple_def next_record_def by (simp add: vm_mid_def vm_inv_def split: prod.split sum.split)

lemma keeps_get_array: "keeps p (get_array msg nm) (\<lambda>vs. vs \<noteq> [] \<and> list_all value_wf vs)"
  unfolding keeps_def triple_def get_array_def bindS_def by (auto simp: vm_mid_def vm_inv_def split: option.split)

lemma keeps_check_index: "keeps p (check_index nm i vs) (\<lambda>_. 1 \<le> i \<and> nat i \<le> length vs)"
  unfolding check_index_def by (auto intro: keeps_throw keeps_ret)

lemma finishes_set_array [keeps_intros]: "vs \<noteq> [] \<Longrightarrow> list_all value_wf vs \<Longrightarrow> finishes p (set_array nm vs)"
  unfolding set_array_def by (intro keeps_intros, rule keeps_upd) (auto simp: vm_mid_def vm_inv_def)

lemma keeps_input: "keeps p readInputLine (\<lambda>_. True)"
  unfolding keeps_def triple_def readInputLine_def by (simp add: vm_mid_def vm_inv_def)

text \<open>One rule per action an instruction can start with.\<close>

lemmas finishes_bind_rules [keeps_intros] =
  finishes_bind [OF keeps_push] finishes_bind [OF keeps_pop] finishes_bind [OF keeps_popInt] finishes_bind [OF keeps_popString]
  finishes_bind [OF keeps_popCoerced] finishes_bind [OF keeps_popText] finishes_bind [OF keeps_print]
  finishes_bind [OF keeps_intOperand] finishes_bind [OF keeps_stringOperand] finishes_bind [OF keeps_nameOperand]
  finishes_bind [OF keeps_guard] finishes_bind [OF keeps_world] finishes_bind [OF keeps_set_handle]
  finishes_bind [OF keeps_read] finishes_bind [OF keeps_write(1)] finishes_bind [OF keeps_write(2)]
  finishes_bind [OF keeps_next_record] finishes_bind [OF keeps_get_array] finishes_bind [OF keeps_check_index]
  finishes_bind [OF keeps_input]

section \<open>Arithmetic\<close>

lemma int_result_wf: "int_result i = Inr v \<Longrightarrow> value_wf v"
  by (auto simp: int_result_def bindE_eq_Inr_iff)

lemma finishes_binop [keeps_intros]:
  assumes "\<And>a b v. value_wf a \<Longrightarrow> value_wf b \<Longrightarrow> f a b = Inr v \<Longrightarrow> value_wf v"
  shows "finishes p (binop f)"
  unfolding binop_def using assms by (intro keeps_intros)

lemma vm_arith_wf:
  assumes "value_wf a" "value_wf b"
  shows "vm_add a b = Inr v \<Longrightarrow> value_wf v" "vm_sub a b = Inr v \<Longrightarrow> value_wf v" "vm_mul a b = Inr v \<Longrightarrow> value_wf v"
  by (cases a; cases b; simp only: vm_add_def vm_sub_def vm_mul_def prod.case Value.case;
      erule int_result_wf arithmeticResultValue_wf [rotated]; simp)+

lemma vm_div_wf: "vm_div a b = Inr v \<Longrightarrow> value_wf v"
  by (cases a; cases b) (auto simp: vm_div_def bindE_eq_Inr_iff Let_def intro: dbl_to_int_int32 split: if_splits)

lemma vm_compare_wf: "vm_compare ctx q a b = Inr v \<Longrightarrow> value_wf v"
  by (auto simp: vm_compare_def flag_def bindE_eq_Inr_iff)

lemma trunc_mod_int32: "int32 a \<Longrightarrow> int32 b \<Longrightarrow> b \<noteq> 0 \<Longrightarrow> int32 (trunc_mod a b)"
  unfolding int32_def int_min_def int_max_def using abs_trunc_mod_less [of b a] by linarith

lemma finishes_mod: "finishes p (op_mod ins)"
  unfolding op_mod_def by (intro keeps_intros) (auto intro: trunc_mod_int32)

section \<open>The opcodes\<close>

lemma finishes_simple [keeps_intros]:
  "finishes p (op_concat ins)" "finishes p op_drop" "finishes p (op_print_int ins)" "finishes p (op_print_str ins)"
  "finishes p op_print_val" "finishes p (op_print_char ins)" "finishes p op_coerce_int" "finishes p op_coerce_flt"
  unfolding op_concat_def op_drop_def op_print_int_def op_print_str_def op_print_val_def op_print_char_def op_coerce_int_def
    op_coerce_flt_def
  by (intro keeps_intros | simp add: coerceToDouble_wf)+

lemma finishes_dup: "finishes p op_dup"
  unfolding op_dup_def by (intro keeps_intros) (simp add: vm_mid_def vm_inv_def)

lemma finishes_input: "finishes p op_input_int" "finishes p op_input_flt" "finishes p op_input_str"
  unfolding op_input_int_def op_input_flt_def op_input_str_def
  by (intro keeps_intros | simp add: parseIntLine_int32 parseFltLine_wf)+

lemma finishes_halt: "finishes p op_halt"
  unfolding op_halt_def by (intro keeps_intros finishes_jump) (simp add: vm_mid_def vm_inv_def)

lemma size_t_of_int_id: "0 \<le> i \<Longrightarrow> i < 18446744073709551616 \<Longrightarrow> size_t_of_int i = nat i"
  by (simp add: size_t_of_int_def)

lemma target_in_program:
  assumes "program_ok p" "ins \<in> set p" "is_control (instr_op ins)" "operand ins = IntV t"
  shows "size_t_of_int t \<le> length p"
proof -
  have t: "0 \<le> t" "t < int (length p)" using assms by (auto simp: program_ok_def targets_ok_def)
  have "int32 t" using assms(1,2,4) by (auto simp: program_ok_def list_all_iff instr_typed_def Let_def)
  with t show ?thesis by (simp add: size_t_of_int_id int32_def int_max_def)
qed

lemma finishes_jumps:
  assumes "program_ok p" "ins \<in> set p" "is_control (instr_op ins)"
  shows "finishes p (op_jump ins)" "finishes p (op_jump_if_zero ins)" "finishes p (op_call ins)"
proof -
  note t = target_in_program [OF assms]
  show "finishes p (op_jump ins)" "finishes p (op_jump_if_zero ins)"
    unfolding op_jump_def op_jump_if_zero_def by (intro keeps_intros finishes_jump t, assumption)+
  have "keeps p (updS (\<lambda>s. s\<lparr>callStack := (ip s + 1) # callStack s\<rparr>)) (\<lambda>_. True)"
    by (rule keeps_upd) (simp add: vm_mid_def vm_inv_def)
  then show "finishes p (op_call ins)"
    unfolding op_call_def by (intro finishes_bind [OF keeps_intOperand] finishes_bind finishes_jump t)
qed

lemma finishes_return: "finishes p op_return"
  unfolding op_return_def finishes_def triple_def bindS_def jump_to_def
  by (auto simp: vm_mid_def vm_inv_def split: list.splits)

lemma finishes_for_setup: "finishes p (op_for_setup ins)"
  unfolding op_for_setup_def
  by (intro keeps_intros, rule keeps_upd) (auto simp: vm_mid_def vm_inv_def frame_ok_def)

lemma keeps_cur: "keeps p (bindS (getS (\<lambda>s. variables s x)) (\<lambda>it. liftS (case it of None \<Rightarrow> Inr 0 | Some v \<Rightarrow> coerceToInt v))) int32"
  by (rule keeps_bind [OF keeps_get, where R = "\<lambda>_. True"], rule TrueI, rule keeps_lift)
    (auto intro: coerceToInt_int32 split: option.splits)

lemma keeps_set_variable: "value_wf v \<Longrightarrow> keeps p (updS (\<lambda>s. s\<lparr>variables := (variables s)(x \<mapsto> v)\<rparr>)) (\<lambda>_. True)"
  by (rule keeps_upd) (auto simp: vm_mid_def vm_inv_def)

lemma finishes_for_next: "finishes p (op_for_next ins)"
proof -
  have frames: "finishes p (break_after (updS (\<lambda>s. s\<lparr>forStack := rest\<rparr>)))" if "list_all (frame_ok (length p)) rest" for rest
    using that by (intro keeps_intros, intro keeps_upd) (simp add: vm_mid_def vm_inv_def)
  have nxt: "finishes p (bindS (liftS cr) (\<lambda>cur. bindS (liftS (checked_int (cur + frame_step f))) (\<lambda>newVal.
      bindS (guard_writable (varName f)) (\<lambda>_.
      bindS (updS (\<lambda>s. s\<lparr>variables := (variables s)(varName f \<mapsto> IntV newVal)\<rparr>)) (\<lambda>_.
        if loop_done f newVal then break_after (updS (\<lambda>s. s\<lparr>forStack := rest\<rparr>)) else jump_to (bodyIP f))))))"
    if "list_all (frame_ok (length p)) (f # rest)" for f rest cr
    using that
    by (intro finishes_bind_lift finishes_bind [OF keeps_guard] finishes_bind [OF keeps_set_variable] finishes_if frames finishes_jump)
      (auto simp: frame_ok_def)
  show ?thesis
    unfolding op_for_next_def
    by (intro finishes_bind [OF keeps_nameOperand] finishes_bind_get finishes_list finishes_throw finishes_if nxt)
      (simp add: vm_mid_def vm_inv_def)
qed

lemma array_value_wf: "value_wf v \<Longrightarrow> array_value nm v = Inr w \<Longrightarrow> value_wf w"
  by (auto simp: array_value_def bindE_eq_Inr_iff split: if_splits dest: coerceToInt_int32)

lemma mapE_wf:
  assumes "mapE f xs = Inr ys" "xs \<noteq> []" "\<And>x w. x \<in> set xs \<Longrightarrow> f x = Inr w \<Longrightarrow> value_wf w"
  shows "ys \<noteq> []" "list_all value_wf ys"
  using assms by (auto simp: mapE_eq_Inr_iff list_all2_conv_all_nth list_all_length) (metis nth_mem)

lemma finishes_arrays:
  "finishes p (op_dim_array ins)" "finishes p (op_load_arr ins)" "finishes p (op_store_arr ins)" "finishes p (op_mat_init ins)"
  "finishes p (op_mat_copy ins)" "finishes p (op_mat_load_from_rec ins)" "finishes p (op_mat_store_to_rec ins)" "finishes p op_clear_vars"
proof -
  show "finishes p (op_dim_array ins)" unfolding op_dim_array_def by (intro keeps_intros) (auto simp: list_all_length)
  show "finishes p (op_load_arr ins)" unfolding op_load_arr_def by (intro keeps_intros) (auto simp: list_all_length)
  show "finishes p (op_store_arr ins)"
    unfolding op_store_arr_def by (intro keeps_intros) (auto simp: list_all_iff dest!: set_update_subset_insert [THEN subsetD])
  show "finishes p (op_mat_init ins)"
    unfolding op_mat_init_def by (intro keeps_intros; elim conjE mapE_wf) (auto intro: array_value_wf)
  show "finishes p (op_mat_copy ins)"
    unfolding op_mat_copy_def Let_def
    by (intro keeps_intros; elim conjE mapE_wf) (auto intro: array_value_wf simp: list_all_iff)
  show "finishes p (op_mat_load_from_rec ins)"
    unfolding op_mat_load_from_rec_def Let_def
    by (intro keeps_intros; elim conjE mapE_wf) (auto intro: array_value_wf [rotated])
  show "finishes p (op_mat_store_to_rec ins)" unfolding op_mat_store_to_rec_def by (intro keeps_intros) simp
  show "finishes p op_clear_vars"
    unfolding op_clear_vars_def by (intro keeps_intros keeps_upd) (simp add: vm_mid_def vm_inv_def)
qed

lemma finishes_builtin_ops: "finishes p op_abs_int" "finishes p op_sgn_int" "finishes p op_seq_str"
  unfolding op_abs_int_def op_sgn_int_def op_seq_str_def
  by (intro keeps_intros | simp add: int_result_wf code_of_int32 split: list.split)+

section \<open>Handlers on the machine's stack\<close>

lemma dispatch_stack_wf:
  assumes "registry_ok reg" "platform_ok pf" "context_ok hc" "stack_wf (hstack s)" "dispatch reg pf nsId fnId n hc s = (r, t)"
  shows "stack_wf (hstack t)"
proof (cases "map_of (namespaces reg) nsId")
  case None
  then show ?thesis using assms(4,5) by (simp add: dispatch_def)
next
  case (Some ns)
  then have "language_namespace (reg_functions ns)" using assms(1) by (auto simp: registry_ok_def dest: map_of_SomeD)
  moreover have "serves reg nsId (reg_functions ns)" using Some by (auto simp: serves_def)
  ultimately have "case (r, t) of
     (Inr u, t) \<Rightarrow> 0 \<le> n \<and> nat n \<le> length (hstack s) \<and> (\<exists>v. value_wf v \<and> hstack t = v # drop (nat n) (hstack s))
   | (Inl e, t) \<Rightarrow> hstack t = hstack s \<or> hstack t = drop (nat n) (hstack s)"
    using language_namespace.dispatch_contract [OF _ _ assms(2-4), where reg = reg and nsId = nsId and fnId = fnId and n = n] assms(5) by simp
  moreover have "list_all value_wf (drop k (hstack s))" for k
    using assms(4) unfolding stack_wf_def list_all_iff by (blast dest: in_set_dropD)
  ultimately show ?thesis using assms(4) by (auto simp: stack_wf_def split: sum.splits)
qed

lemma keeps_on_stack:
  assumes "env_ok env" "\<And>hc s r t. context_ok hc \<Longrightarrow> stack_wf (hstack s) \<Longrightarrow> h hc s = (r, t) \<Longrightarrow> stack_wf (hstack t)"
  shows "keeps p (on_stack env h) (\<lambda>_. True)"
  unfolding keeps_def triple_def
proof (intro allI impI)
  fix s assume s: "vm_mid p s"
  let ?s = "\<lparr>hstack = stack s, hengine = engine s\<rparr>"
  have "context_ok (host_context env s)"
    using assms(1) s by (auto simp: context_ok_def host_context_def evalBuiltinSystemCall_def env_ok_def vm_mid_def vm_inv_def split: option.splits)
  moreover have "stack_wf (hstack ?s)" using s by (simp add: stack_wf_def vm_mid_def vm_inv_def)
  moreover obtain r t where rt: "h (host_context env s) ?s = (r, t)" by (cases "h (host_context env s) ?s")
  ultimately have "stack_wf (hstack t)" using assms(2) by blast
  with rt s show "case on_stack env h s of (Inr x, t) \<Rightarrow> vm_mid p t \<and> True | (Inl e, t) \<Rightarrow> vm_mid p t"
    by (simp add: on_stack_def stack_wf_def vm_mid_def vm_inv_def split: sum.split)
qed

lemma invokeBuiltinShim_wf:
  assumes "\<And>reg. registry = Some reg \<Longrightarrow> registry_ok reg" "platform_ok pf" "context_ok hc" "stack_wf (hstack s)"
    "invokeBuiltinShim nm pf hc registry s = (r, t)"
  shows "stack_wf (hstack t)"
proof (cases registry)
  case None
  then show ?thesis using assms(4,5) by (simp add: invokeBuiltinShim_def)
next
  case (Some reg)
  then consider "t = s" | fnId n where "dispatch reg pf kNamespaceIdBasic fnId n hc s = (r, t)"
    using assms(5) by (auto simp: invokeBuiltinShim_def bindS_def Let_def split: option.splits if_splits)
  then show ?thesis
  proof cases
    case 2
    then show ?thesis by (rule dispatch_stack_wf [OF assms(1) [OF Some] assms(2-4)])
  qed (use assms(4) in simp)
qed

lemma finishes_calls:
  assumes "env_ok env"
  shows "finishes p (op_invoke_builtin env ins)" "finishes p (op_call_func env ins)"
proof -
  have ok: "platform_ok (platform env)" "\<And>reg. languageRegistry env = Some reg \<Longrightarrow> registry_ok reg"
    using assms by (simp_all add: env_ok_def)
  have "keeps p (on_stack env (\<lambda>hc. invokeBuiltinShim nm (platform env) hc (languageRegistry env))) (\<lambda>_. True)" for nm
    by (rule keeps_on_stack [OF assms]) (rule invokeBuiltinShim_wf [OF ok(2,1)])
  then show "finishes p (op_invoke_builtin env ins)"
    unfolding op_invoke_builtin_def by (intro finishes_bind [OF keeps_stringOperand] finishes_break_after)
  have "keeps p (on_stack env (\<lambda>hc. dispatch reg (platform env) nsId fnId n hc)) (\<lambda>_. True)" if "languageRegistry env = Some reg" for reg nsId fnId n
    by (rule keeps_on_stack [OF assms]) (rule dispatch_stack_wf [OF ok(2) [OF that] ok(1)])
  then show "finishes p (op_call_func env ins)"
    unfolding op_call_func_def Let_def
    by (intro finishes_option finishes_throw finishes_bind_get finishes_if finishes_break_after)
qed

section \<open>File opcodes\<close>

lemma keeps_open: "keeps p (open_and_reset env fs fv f) (\<lambda>_. True)"
  unfolding open_and_reset_def by (rule keeps_bind [OF keeps_query]) (auto intro: keeps_set_handle)

lemma finishes_files:
  "finishes p (op_open_file env ins)" "finishes p (op_read_rec env b op ins)" "finishes p (op_read_rec_try env b ins)"
  "finishes p (op_write_rec env b op ins)" "finishes p (op_write_rec_try env b ins)" "finishes p (op_release_rec env ins)"
  "finishes p (op_read_next env ins)" "finishes p (op_read_next_try env ins)" "finishes p op_extract_attr" "finishes p op_chain"
  "finishes p (op_write_v env ins)" "finishes p (op_write_v_try env ins)"
  unfolding op_open_file_def op_read_rec_def op_read_rec_try_def op_write_rec_def op_write_rec_try_def op_release_rec_def
    op_read_next_def op_read_next_try_def op_extract_attr_def op_chain_def op_write_v_def op_write_v_try_def on_lock_conflict_def Let_def
  by (intro keeps_intros keeps_open keeps_set_handle | simp)+

lemma finishes_open_try: "finishes p (op_open_file_try env ins)"
proof -
  have "keeps p (catchS (bindS (open_and_reset env fs fv f) (\<lambda>_. retS True))
      (\<lambda>e. case e of FileSystemError _ \<Rightarrow> retS False | _ \<Rightarrow> throwS e)) (\<lambda>_. True)" for fs fv f
    by (intro keeps_catch keeps_bind [OF keeps_open] keeps_error keeps_throw keeps_ret TrueI)
  then show ?thesis
    unfolding op_open_file_try_def by (intro keeps_intros finishes_bind) (auto simp: flag_def intro: finishes_push)
qed

lemma finishes_value [keeps_intros]:
  "(\<And>i. v = IntV i \<Longrightarrow> finishes p (f1 i)) \<Longrightarrow> (\<And>d. v = DblV d \<Longrightarrow> finishes p (f2 d)) \<Longrightarrow> (\<And>t. v = StrV t \<Longrightarrow> finishes p (f3 t)) \<Longrightarrow>
   finishes p (case v of IntV i \<Rightarrow> f1 i | DblV d \<Rightarrow> f2 d | StrV t \<Rightarrow> f3 t)"
  by (cases v) auto

lemma finishes_read_v: "finishes p (op_read_v env ins)" "finishes p (op_read_v_try env ins)"
  unfolding op_read_v_def op_read_v_try_def Let_def by (intro keeps_intros | simp)+

lemma finishes_resolve:
  "finishes p (op_resolve_dict_attr env ins)"
proof -
  have "keeps p (catchS (bindS (queryS (\<lambda>w. resolveField (vmHost env) fs w f t)) (\<lambda>x. retS (resolved_value t x)))
      (\<lambda>e. if is_std_exception e then retS (IntV 0) else throwS e)) value_wf" for fs f t
    by (intro keeps_catch keeps_bind [OF keeps_query [where Q = ref_ok]] keeps_if keeps_ret keeps_throw)
      (auto simp: resolved_value_def ref_ok_def split: option.split dest: resolveField_ok)
  note k = this
  show ?thesis
    unfolding op_resolve_dict_attr_def by (intro keeps_intros finishes_bind [OF k]) (simp_all add: finishes_push)
qed

lemma finishes_set_on_error:
  assumes "program_ok p" "ins \<in> set p" "instr_op ins = SetOnErrorHandler"
  shows "finishes p (op_set_on_error_handler ins)"
proof -
  have "size_t_of_int t \<le> length p" if "operand ins = IntV t" "0 < t" for t
  proof -
    have "t \<le> int (length p)" using assms that by (auto simp: program_ok_def handlers_ok_def)
    moreover have "int32 t" using assms that by (auto simp: program_ok_def list_all_iff instr_typed_def Let_def)
    ultimately show ?thesis using that by (simp add: size_t_of_int_id int32_def int_max_def)
  qed
  then show ?thesis
    unfolding op_set_on_error_handler_def by (intro keeps_intros, intro keeps_upd) (auto simp: vm_mid_def vm_inv_def)
qed

lemma finishes_vars:
  assumes "env_ok env"
  shows "finishes p (op_load_var env ins)" "finishes p (op_store_var ins)" "finishes p (op_close_file ins)"
proof -
  show "finishes p (op_load_var env ins)"
    unfolding op_load_var_def using assms
    by (intro keeps_intros) (auto simp: vm_mid_def vm_inv_def env_ok_def split: option.splits if_splits)
  show "finishes p (op_store_var ins)" unfolding op_store_var_def by (intro keeps_intros keeps_set_variable)
  show "finishes p (op_close_file ins)"
    unfolding op_close_file_def by (intro keeps_intros keeps_upd) (simp add: vm_mid_def vm_inv_def)
qed

section \<open>The step\<close>

lemma finishes_push_operand:
  assumes "instr_typed ins"
  shows "finishes p (bindS (intOperand ins) (\<lambda>i. push_break (IntV i)))"
    "finishes p (bindS (bindS (getS ip) (\<lambda>i. liftS (floatOperandAtIp ins i))) (\<lambda>d. push_break (DblV d)))"
    "finishes p (bindS (stringOperand ins) (\<lambda>x. push_break (StrV x)))"
proof -
  have wf: "value_wf (operand ins)" using assms by (simp add: instr_typed_def Let_def)
  show "finishes p (bindS (intOperand ins) (\<lambda>i. push_break (IntV i)))" using wf by (intro keeps_intros) simp
  show "finishes p (bindS (stringOperand ins) (\<lambda>x. push_break (StrV x)))" by (intro keeps_intros) simp
  have "keeps p (bindS (getS ip) (\<lambda>i. liftS (floatOperandAtIp ins i))) dbl_wf"
    using wf by (intro keeps_bind [OF keeps_get [where Q = "\<lambda>_. True"]] keeps_lift) (auto simp: floatOperandAtIp_def split: Value.splits)
  then show "finishes p (bindS (bindS (getS ip) (\<lambda>i. liftS (floatOperandAtIp ins i))) (\<lambda>d. push_break (DblV d)))"
    by (rule finishes_bind) (simp add: finishes_push)
qed

lemma finishes_arith:
  "finishes p (binop vm_add)" "finishes p (binop vm_sub)" "finishes p (binop vm_mul)" "finishes p (binop vm_div)"
  "finishes p op_eq" "finishes p op_ne" "finishes p op_lt" "finishes p op_le" "finishes p op_gt" "finishes p op_ge"
  unfolding op_eq_def op_ne_def op_lt_def op_le_def op_gt_def op_ge_def
  by (rule finishes_binop, erule vm_arith_wf vm_div_wf vm_compare_wf; assumption)+

lemma finishes_exec:
  assumes "env_ok env" "program_ok p" "ins \<in> set p"
  shows "finishes p (exec env ins)"
proof -
  have typed: "instr_typed ins" using assms(2,3) by (auto simp: program_ok_def list_all_iff)
  show ?thesis
    by (cases "instr_op ins")
      (simp_all add: exec_def finishes_halt finishes_push_operand [OF typed] finishes_arith finishes_mod finishes_simple finishes_dup
        finishes_break_after keeps_print finishes_input finishes_jumps [OF assms(2,3)] is_control_def finishes_return
        finishes_for_setup finishes_for_next finishes_arrays finishes_builtin_ops finishes_calls [OF assms(1)] finishes_files
        op_read_rec_u_def op_read_rec_u_try_def op_write_rec_u_def op_write_rec_u_try_def
        finishes_open_try finishes_read_v finishes_resolve finishes_set_on_error [OF assms(2,3)] finishes_vars [OF assms(1)])
qed

lemma step_keeps:
  assumes "env_ok env" "program_ok p" "vm_inv p s" "step env s = (r, t)"
  shows "vm_inv p t" "r = Inr True \<Longrightarrow> vm_mid p t"
proof -
  have "vm_inv p t \<and> (r = Inr True \<longrightarrow> vm_mid p t)"
  proof (cases "length (code s) \<le> ip s")
    case True
    then show ?thesis using assms(3,4) by (auto simp: step_def)
  next
    case False
    then have mid: "vm_mid p s" and c: "code s = p" using assms(3) by (simp_all add: vm_mid_def vm_inv_def)
    then have "finishes p (exec env (code s ! ip s))" using assms(1,2) False by (intro finishes_exec) simp_all
    with mid have ex: "case exec env (code s ! ip s) s of (Inr f, u) \<Rightarrow> vm_inv p u \<and> (f = Break \<longrightarrow> vm_mid p u) | (Inl e, u) \<Rightarrow> vm_mid p u"
      by (simp add: finishes_def triple_def)
    obtain q u where qu: "exec env (code s ! ip s) s = (q, u)" by (cases "exec env (code s ! ip s) s")
    show ?thesis
    proof (cases q)
      case (Inl e)
      with qu ex False assms(4) show ?thesis by (auto simp: step_def bindS_def)
    next
      case (Inr f)
      define u' where "u' = (if f = Break then u\<lparr>ip := ip u + 1\<rparr> else u)"
      have "vm_inv p u" "f = Break \<Longrightarrow> ip u < length p" using ex qu Inr by (simp_all add: vm_mid_def)
      then have "vm_inv p u'" by (cases "f = Break") (simp_all add: u'_def vm_inv_def)
      moreover have "r = Inr (ip u' < length (code u'))" "t = u'"
        using qu Inr False assms(4) by (auto simp: step_def bindS_def u'_def split: if_splits)
      ultimately show ?thesis by (simp add: vm_mid_def vm_inv_def)
    qed
  qed
  then show "vm_inv p t" "r = Inr True \<Longrightarrow> vm_mid p t" by simp_all
qed

text \<open>
  What happens to a loaded machine: its own steps, an interrupt or its clearing, a debugger that moves the
  instruction pointer, and another session that changes the shared record store.
\<close>

inductive vm_event :: "Env \<Rightarrow> Runtime \<Rightarrow> Runtime \<Rightarrow> bool" for env where
  own_step: "step env s = (r, t) \<Longrightarrow> vm_event env s t"
| interrupted: "vm_event env s (interrupt s)"
| cleared: "vm_event env s (clearInterrupt s)"
| moved: "setInstructionPointer i s = (r, t) \<Longrightarrow> vm_event env s t"
| other_session: "vm_event env s (s\<lparr>vmWorld := w\<rparr>)"

lemma vm_event_keeps: "vm_event env s t \<Longrightarrow> env_ok env \<Longrightarrow> program_ok p \<Longrightarrow> vm_inv p s \<Longrightarrow> vm_inv p t"
proof (induction rule: vm_event.induct)
  case (own_step s r t)
  show ?case by (rule step_keeps(1) [OF own_step(2-4,1)])
next
  case (moved i s r t)
  then have "t = s \<or> (i \<le> length (code s) \<and> t = s\<lparr>ip := i\<rparr>)"
    by (simp add: setInstructionPointer_def bindS_def split: if_splits)
  with moved show ?case by (elim disjE conjE) (simp_all add: vm_inv_def)
qed (simp_all add: interrupt_def clearInterrupt_def vm_inv_def)

lemma loaded_inv: "vm_inv p (loadProgram p ls s)"
  by (simp add: loadProgram_def vm_inv_def Let_def)

text \<open>
  C12. The machine invariant: after \<open>loadProgram\<close> of a program with typed operands and targets inside the
  program, every state that steps, interrupts, moves of the instruction pointer and interference by other
  sessions can reach still runs the same program with its instruction pointer, return addresses, loop bodies
  and error handler inside it, with well-formed values on the stack, in variables and in arrays, and with a
  lock status of 0 or 1; a step that asks to go on leaves the instruction pointer on an instruction.
\<close>

theorem machine_invariant:
  assumes "env_ok env" "program_ok p" "(vm_event env)\<^sup>*\<^sup>* (loadProgram p ls s0) s"
  shows "vm_inv p s \<and> (\<forall>t. step env s = (Inr True, t) \<longrightarrow> ip t < length (code t))"
proof -
  have inv: "vm_inv p s"
    using assms(3)
  proof (induction rule: rtranclp_induct)
    case base
    show ?case by (rule loaded_inv)
  next
    case (step u v)
    show ?case by (rule vm_event_keeps [OF step(2) assms(1,2) step(3)])
  qed
  have "ip t < length (code t)" if "step env s = (Inr True, t)" for t
    using step_keeps(2) [OF assms(1,2) inv that] by (simp add: vm_mid_def vm_inv_def)
  with inv show ?thesis by blast
qed

definition sample_env :: Env where
  "sample_env = \<lparr>fileSystem = Some (sample_fs ''s1''), vmHost = good_host, languageRegistry = Some sample_registry,
     systemVarReader = None, builtinSystemCallHandler = None, platform = sample_platform\<rparr>"

definition sample_runtime :: Runtime where
  "sample_runtime = \<lparr>code = [], sourceLines = [], stack = [], callStack = [], forStack = [], variables = Map.empty,
     arrays = Map.empty, openFiles = Map.empty, ip = 0, interrupted = False, inStream = [], outStream = [], statusCode = 0,
     onErrorIp = None, vmWorld = sample_world, engine = \<lparr>mt_words = [], mt_index = 624\<rparr>\<rparr>"

lemma sample_env_ok: "env_ok sample_env"
proof -
  have "namespaces sample_registry = [(kNamespaceIdBasic, \<lparr>reg_metadata = \<lparr>ns_name = ''basic'', ns_version = ''1''\<rparr>,
      reg_functions = basic_functions, reg_onInit = None\<rparr>)]"
    by (simp add: sample_registry_def registerBasicLanguage_def registerNamespace_def empty_registry_def Let_def)
  then have "registry_ok sample_registry" by (simp add: registry_ok_def basic_ns.language_namespace_axioms)
  then show ?thesis by (simp add: env_ok_def sample_env_def sample_ok)
qed

lemma sample_program_typed: "program_ok sample_program"
  by (simp add: program_ok_def handlers_ok_def sample_program_ok) (simp add: sample_program_def mkInstr_def instr_typed_def Let_def int_ops_def name_ops_def range_simps)

theorem machine_invariant_witness:
  "env_ok sample_env \<and> program_ok sample_program \<and> vm_inv sample_program (interrupt (loadProgram sample_program [] sample_runtime))"
proof -
  have "(vm_event sample_env)\<^sup>*\<^sup>* (loadProgram sample_program [] sample_runtime) (interrupt (loadProgram sample_program [] sample_runtime))"
    by (rule r_into_rtranclp) (rule vm_event.interrupted)
  then show ?thesis using machine_invariant [OF sample_env_ok sample_program_typed] sample_env_ok sample_program_typed by blast
qed

section \<open>Interrupts\<close>

named_theorems calm_intros \<open>actions that leave the interrupt flag alone\<close>

definition calm :: "'a vm \<Rightarrow> bool" where
  "calm m \<longleftrightarrow> (\<forall>s. interrupted (snd (m s)) = interrupted s)"

lemma calm_bind [calm_intros]: "calm m \<Longrightarrow> (\<And>x. calm (k x)) \<Longrightarrow> calm (bindS m k)"
  by (simp add: calm_def bindS_def split: prod.splits sum.splits) (metis snd_conv)

lemma calm_catch [calm_intros]: "calm m \<Longrightarrow> (\<And>e. calm (h e)) \<Longrightarrow> calm (catchS m h)"
  by (simp add: calm_def catchS_def split: prod.splits sum.splits) (metis snd_conv)

lemma calm_basic [calm_intros]: "calm (retS x)" "calm (throwS e)" "calm (liftS r)" "calm (getS f)" "calm (queryS q)" "calm popV" "calm readInputLine"
  "calm (worldS w)" "calm (next_record env fv fh)" "calm (on_stack env h)"
  by (auto simp: calm_def queryS_def popV_def readInputLine_def worldS_def next_record_def on_stack_def split: list.split prod.split)

lemma calm_upd: "(\<And>s. interrupted (g s) = interrupted s) \<Longrightarrow> calm (updS g)"
  by (simp add: calm_def)

lemma calm_cases [calm_intros]:
  "calm m \<Longrightarrow> calm n \<Longrightarrow> calm (if b then m else n)"
  "calm m \<Longrightarrow> (\<And>y. calm (k y)) \<Longrightarrow> calm (case x of None \<Rightarrow> m | Some y \<Rightarrow> k y)"
  "calm m \<Longrightarrow> (\<And>y ys. calm (l y ys)) \<Longrightarrow> calm (case xs of [] \<Rightarrow> m | y # ys \<Rightarrow> l y ys)"
  "(\<And>e. calm (f e)) \<Longrightarrow> (\<And>x. calm (g x)) \<Longrightarrow> calm (case r of Inl e \<Rightarrow> f e | Inr x \<Rightarrow> g x)"
  "(\<And>i. calm (h1 i)) \<Longrightarrow> (\<And>d. calm (h2 d)) \<Longrightarrow> (\<And>t. calm (h3 t)) \<Longrightarrow> calm (case v of IntV i \<Rightarrow> h1 i | DblV d \<Rightarrow> h2 d | StrV t \<Rightarrow> h3 t)"
  by (simp_all split: option.split list.split sum.split Value.split)

lemma calm_error [calm_intros]:
  "(\<And>t. calm (f1 t)) \<Longrightarrow> (\<And>t. calm (f2 t)) \<Longrightarrow> (\<And>t. calm (f3 t)) \<Longrightarrow> (\<And>t. calm (f4 t)) \<Longrightarrow> (\<And>t. calm (f5 t)) \<Longrightarrow> calm f6 \<Longrightarrow> calm f7 \<Longrightarrow>
   calm (case e of RuntimeError t \<Rightarrow> f1 t | FileSystemError t \<Rightarrow> f2 t | OutOfRange t \<Rightarrow> f3 t
     | InvalidArgument t \<Rightarrow> f4 t | ChainRequest t \<Rightarrow> f5 t | UserInterrupt \<Rightarrow> f6 | UndefinedBehaviour \<Rightarrow> f7)"
  by (cases e) auto

lemma calm_push [calm_intros]: "calm (pushV v)" "calm (print t)" "calm (set_handle fv fh)"
  unfolding pushV_def print_def set_handle_def by (rule calm_upd, simp)+

lemma calm_actions [calm_intros]:
  "calm (popInt c)" "calm (popString c)" "calm popCoerced" "calm popText" "calm (intOperand ins)" "calm (stringOperand ins)"
  "calm (nameOperand ins)" "calm (guard_writable nm)" "calm (push_break v)" "calm (push_try v i)" "calm push_missing"
  "calm m \<Longrightarrow> calm (break_after m)"
  unfolding popInt_def popString_def popCoerced_def popText_def intOperand_def nameOperand_def stringOperand_def guard_writable_def
    push_missing_def push_try_def push_break_def break_after_def
  by (intro calm_intros | assumption)+

lemma calm_jump [calm_intros]: "calm (jump_to n)"
  unfolding jump_to_def by (intro calm_intros calm_upd) simp

lemma calm_files [calm_intros]:
  "(\<And>fh fs. calm (k fh fs)) \<Longrightarrow> calm (with_file env op fv k)"
  "calm m \<Longrightarrow> (\<And>fh fs. calm (l fh fs)) \<Longrightarrow> calm (try_file env fv m l)"
  "calm (fs_read env b fs f r)" "calm (fs_write env b fs f rc)" "calm (fs_write_value env fs f r a i t)" "calm (open_and_reset env fs fv f)"
  unfolding with_file_def try_file_def fs_read_def fs_write_def fs_write_value_def open_and_reset_def
  by (intro calm_intros | assumption)+

lemma calm_lock [calm_intros]: "calm m \<Longrightarrow> calm (on_lock_conflict m e)" "calm (handleRecordLockConflict op)"
  unfolding on_lock_conflict_def handleRecordLockConflict_def by (intro calm_intros calm_upd | simp)+

lemma calm_raise [calm_intros]: "calm m \<Longrightarrow> calm (raise_or_jump op m)"
  unfolding raise_or_jump_def by (intro calm_intros)

lemma calm_arrays [calm_intros]: "calm (get_array msg nm)" "calm (set_array nm vs)" "calm (check_index nm i vs)" "calm (binop g)"
  unfolding get_array_def set_array_def check_index_def binop_def by (intro calm_intros calm_upd | simp)+

lemmas op_defs =
  op_halt_def op_mod_def op_eq_def op_ne_def op_lt_def op_le_def op_gt_def op_ge_def op_concat_def op_dup_def op_drop_def
  op_print_int_def op_print_str_def op_print_val_def op_print_char_def op_coerce_int_def op_coerce_flt_def op_input_int_def
  op_input_flt_def op_input_str_def op_jump_def op_jump_if_zero_def op_call_def op_return_def op_for_setup_def op_for_next_def
  op_dim_array_def op_load_arr_def op_store_arr_def op_mat_init_def op_mat_copy_def op_mat_load_from_rec_def op_mat_store_to_rec_def
  op_clear_vars_def op_abs_int_def op_sgn_int_def op_seq_str_def op_invoke_builtin_def op_call_func_def op_open_file_def
  op_open_file_try_def op_read_rec_def op_read_rec_try_def op_read_rec_u_def op_read_rec_u_try_def op_write_rec_def
  op_write_rec_try_def op_write_rec_u_def op_write_rec_u_try_def op_release_rec_def op_set_on_error_handler_def op_read_next_def
  op_read_next_try_def op_read_v_def op_read_v_try_def op_extract_attr_def op_resolve_dict_attr_def op_chain_def op_write_v_def
  op_write_v_try_def op_close_file_def op_load_var_def op_store_var_def

lemma calm_exec: "calm (exec env ins)"
  unfolding exec_def
  by (cases "instr_op ins"; simp only: OpCode.case op_defs Let_def; (intro calm_intros calm_upd | simp)+)

lemma step_interrupted: "step env s = (r, t) \<Longrightarrow> interrupted t = interrupted s"
  using calm_exec [of env "code s ! ip s", unfolded calm_def, rule_format, of s]
  by (auto simp: step_def bindS_def split: if_splits prod.splits sum.splits)

text \<open>
  An interrupt is served within one instruction: once the flag is set, \<open>run\<close> returns after a single
  step, with \<open>UserInterrupt\<close> if that step would have gone on, and with that step's own outcome otherwise.
\<close>

theorem interrupt_stops_run:
  "run env (interrupt s) = (case step env (interrupt s) of
     (Inl e, t) \<Rightarrow> Some (Inl e, t)
   | (Inr continue, t) \<Rightarrow> Some (if continue then Inl UserInterrupt else Inr (), t))"
proof -
  obtain r t where rt: "step env (interrupt s) = (r, t)" by (cases "step env (interrupt s)")
  then have "interrupted t" using step_interrupted by (simp add: interrupt_def)
  with rt show ?thesis by (subst run.simps) (simp split: sum.split)
qed

end
