(* ===== verification/Machine_Execution.thy ===== *)
theory Machine_Execution
  imports Machine_Invariant
begin

text \<open>
  What programs compute on the virtual machine: integer arithmetic of the opcodes (division goes through a
  double and is still exact), subroutines, counted loops, arrays and the way through a record, and the
  error paths of the file opcodes when another session holds the record.
\<close>

section \<open>Division of integers through doubles\<close>

text \<open>
  Rounding a quotient of integers below \<open>2 ^ 52\<close> to a double does not reach the next integer, so truncating the
  double gives the integer quotient.
\<close>

lemma round_quotient:
  assumes B: "0 < B" "B \<le> 2 ^ j"
    and lo: "\<And>i. real i \<le> real A / real B * 2 ^ j \<Longrightarrow> i \<le> m" and hi: "\<And>i. real A / real B * 2 ^ j \<le> real i \<Longrightarrow> m \<le> i"
  shows "m div 2 ^ j = A div B"
proof -
  define q where "q = A div B"
  have "q * B \<le> A" by (simp add: q_def)
  then have "real q * real B \<le> real A" by (metis of_nat_le_iff of_nat_mult)
  then have "real q \<le> real A / real B" using B by (simp add: pos_le_divide_eq)
  then have "real q * 2 ^ j \<le> real A / real B * 2 ^ j" by (intro mult_right_mono) auto
  then have "real (q * 2 ^ j) \<le> real A / real B * 2 ^ j" by (simp only: of_nat_mult of_nat_power of_nat_numeral)
  then have m1: "q * 2 ^ j \<le> m" by (rule lo)
  have "A = q * B + A mod B" "A mod B < B" using B(1) by (simp_all add: q_def)
  then have "A < (q + 1) * B" by (simp add: distrib_right)
  then have "A + 1 \<le> (q + 1) * B" by simp
  then have "real (A + 1) \<le> real ((q + 1) * B)" by (simp only: of_nat_le_iff)
  then have "real A / real B \<le> real (q + 1) - 1 / real B" using B(1) by (simp add: field_simps)
  then have "real A / real B * 2 ^ j \<le> (real (q + 1) - 1 / real B) * 2 ^ j" by (intro mult_right_mono) auto
  also have "\<dots> = real (q + 1) * 2 ^ j - 2 ^ j / real B" by (simp add: left_diff_distrib)
  also have "\<dots> \<le> real (q + 1) * 2 ^ j - 1"
  proof -
    have "real B \<le> 2 ^ j" using B(2) by (metis of_nat_le_iff of_nat_numeral of_nat_power)
    then show ?thesis using B(1) by (simp add: pos_le_divide_eq)
  qed
  also have "\<dots> = real ((q + 1) * 2 ^ j - 1)"
  proof -
    have "0 < (q + 1) * 2 ^ j" by simp
    then have "1 \<le> (q + 1) * 2 ^ j" by linarith
    from of_nat_diff [OF this, where 'a = real] show ?thesis by (simp only: of_nat_mult of_nat_power of_nat_numeral of_nat_1)
  qed
  finally have "m \<le> (q + 1) * 2 ^ j - 1" by (rule hi)
  moreover have "0 < (q + 1) * 2 ^ j" by simp
  ultimately have "m < (q + 1) * 2 ^ j" by linarith
  with m1 show ?thesis unfolding q_def [symmetric]
    by (intro div_nat_eqI) (simp_all add: mult.commute add.commute)
qed

lemma pow2_less_exp: "(2::real) powi m < 2 powi n \<Longrightarrow> m < n"
  using power_int_increasing [of n m "2::real"] by fastforce

lemma pow2_le_exp: "(2::real) powi m \<le> 2 powi n \<Longrightarrow> m \<le> n"
  using power_int_strict_increasing [of n m "2::real"] by fastforce

lemma quotient_magnitude:
  assumes "0 < A" "A \<le> 2 ^ 31" "0 < B" "B \<le> 2 ^ 31"
  shows "(2::real) powi (- 31) \<le> real A / real B" "real A / real B \<le> 2 powi 31"
proof -
  have "real A \<le> real (2 ^ 31)" "real B \<le> real (2 ^ 31)" using assms(2,4) by (simp_all only: of_nat_le_iff)
  then have r: "real A \<le> 2 ^ 31" "real B \<le> 2 ^ 31" "1 \<le> real A" "1 \<le> real B" using assms(1,3) by simp_all
  have "real A / real B \<le> real A" using r by (simp add: divide_le_eq_1 mult_le_cancel_left1 pos_divide_le_eq)
  then show "real A / real B \<le> 2 powi 31" using r by simp
  have "(2::real) powi (- 31) * real B \<le> 2 powi (- 31) * 2 ^ 31" using r by (intro mult_left_mono) auto
  also have "\<dots> \<le> real A" using r by (simp add: power_int_minus)
  finally show "(2::real) powi (- 31) \<le> real A / real B" using r by (simp add: pos_le_divide_eq)
qed

lemma dbl_round_quotient:
  assumes n: "0 < n" "0 < d" and A: "0 < A" "A \<le> 2 ^ 31" and B: "0 < B" "B \<le> 2 ^ 31"
    and v: "real n / real d * 2 powi e = real A / real B"
  shows "\<exists>m x. dbl_round s n d e = DFinite s m x \<and> x < 0 \<and> m div 2 ^ nat (- x) = A div B"
proof -
  define L where "L = flog2 n d + e"
  define x where "x = L - 52"
  define j where "j = nat (- x)"
  define m where "m = round_at n d e x"
  have fl: "2 powi flog2 n d \<le> real n / real d" "real n / real d < 2 powi (flog2 n d + 1)"
    using flog2_bounds [OF n] by auto
  have "2 powi flog2 n d * 2 powi e \<le> real n / real d * 2 powi e" using fl(1) by (intro mult_right_mono) auto
  moreover have "2 powi flog2 n d * 2 powi e = (2::real) powi L" by (simp add: L_def power_int_add)
  ultimately have L1: "2 powi L \<le> real A / real B" unfolding v by (simp only:)
  have "real n / real d * 2 powi e < 2 powi (flog2 n d + 1) * 2 powi e" using fl(2) by (intro mult_strict_right_mono) auto
  moreover have "2 powi (flog2 n d + 1) * 2 powi e = (2::real) powi (L + 1)"
    by (subst power_int_add [symmetric]) (simp_all add: L_def ac_simps)
  ultimately have L2: "real A / real B < 2 powi (L + 1)" unfolding v by (simp only:)
  note q = quotient_magnitude [OF A B]
  have "(2::real) powi (- 31) < 2 powi (L + 1)" using L2 q(1) by linarith
  then have "- 31 < L + 1" by (rule pow2_less_exp)
  moreover have "(2::real) powi L \<le> 2 powi 31" using L1 q(2) by linarith
  then have "L \<le> 31" by (rule pow2_le_exp)
  ultimately have L: "L \<le> 31" "- 32 < L" by simp_all
  then have x: "max (flog2 n d + e - 52) (- 1074) = x" "x < 0" "int j = 52 - L" by (simp_all add: x_def L_def j_def)
  have sc: "real n / real d * 2 powi (e - x) = real A / real B * 2 ^ j"
  proof -
    have "(2::real) powi (e - x) = 2 powi e * 2 powi (- x)" by (subst power_int_add [symmetric]) auto
    moreover have "(2::real) powi (- x) = 2 ^ j" using x(2) by (simp add: j_def power_int_def)
    ultimately show ?thesis using v by (simp add: mult.assoc [symmetric])
  qed
  have "real B * 2 powi L \<le> real A" using L1 B(1) by (simp add: pos_le_divide_eq mult.commute)
  moreover have "real A \<le> real (2 ^ 52)" using A(2) by (simp only: of_nat_le_iff) simp
  ultimately have "real B * 2 powi L \<le> 2 powi (int j + L)" using x(3) by simp
  then have "real B * 2 powi L \<le> 2 ^ j * 2 powi L" by (simp add: power_int_add)
  then have "real B \<le> 2 ^ j" by simp
  then have "B \<le> 2 ^ j" by (metis of_nat_le_iff of_nat_numeral of_nat_power)
  then have mq: "m div 2 ^ j = A div B"
    using round_at_bounds [OF n(2), where e = e and x = x and n = n] B(1) unfolding sc m_def
    by (intro round_quotient) auto
  show ?thesis
  proof (cases "m = 2 ^ 53")
    case False
    then have "dbl_round s n d e = DFinite s m x" using n x by (simp add: dbl_round_def Let_def m_def)
    with mq x show ?thesis by (auto simp: j_def)
  next
    case True
    have j: "0 < j" "j \<le> 84" "nat (- (x + 1)) = j - 1" using x L by (simp_all add: j_def x_def)
    have "dbl_round s n d e = DFinite s (2 ^ 52) (x + 1)" using True n x by (simp add: dbl_round_def Let_def m_def)
    moreover have "(2::nat) ^ 52 div 2 ^ (j - 1) = 2 ^ 53 div 2 ^ j"
    proof -
      have "(2::nat) ^ 53 div 2 ^ j = (2 * 2 ^ 52) div (2 * 2 ^ (j - 1))"
        using j(1) by (cases j) simp_all
      also have "\<dots> = 2 ^ 52 div 2 ^ (j - 1)" by (rule div_mult_mult1) simp
      finally show ?thesis by simp
    qed
    moreover have "x + 1 < 0" using L by (simp add: x_def)
    ultimately show ?thesis using mq True j(3) by auto
  qed
qed

lemma dbl_div_ints:
  assumes "int32 a" "int32 b" "b \<noteq> 0"
  shows "dbl_to_int (dbl_div (dbl_of_int a) (dbl_of_int b)) = checked_int (trunc_div a b)"
proof -
  obtain m x where da: "dbl_of_int a = DFinite (a < 0) m x" "x \<le> 0" "m = nat \<bar>a\<bar> * 2 ^ nat (- x)"
    using dbl_of_int_finite [OF int32_exact [OF assms(1)]] by blast
  obtain n y where db: "dbl_of_int b = DFinite (b < 0) n y" "y \<le> 0" "n = nat \<bar>b\<bar> * 2 ^ nat (- y)"
    using dbl_of_int_finite [OF int32_exact [OF assms(2)]] by blast
  have n: "0 < n" using db(3) assms(3) by simp
  then have dv: "dbl_div (dbl_of_int a) (dbl_of_int b) = dbl_round ((a < 0) \<noteq> (b < 0)) m n (x - y)"
    using da(1) db(1) by simp
  show ?thesis
  proof (cases "a = 0")
    case True
    then show ?thesis using dv da(3) by (simp add: dbl_round_def dbl_zero_def dbl_trunc_def signed_of_def trunc_div_def)
  next
    case False
    have AB: "0 < nat \<bar>a\<bar>" "nat \<bar>a\<bar> \<le> 2 ^ 31" "0 < nat \<bar>b\<bar>" "nat \<bar>b\<bar> \<le> 2 ^ 31"
      using False assms by (auto simp: int32_def int_min_def int_max_def)
    have p: "(2::real) ^ nat (- x) = 2 powi (- x)" "(2::real) ^ nat (- y) = 2 powi (- y)"
      using da(2) db(2) by (simp_all add: power_int_def)
    have "real m / real n * 2 powi (x - y) = real (nat \<bar>a\<bar>) / real (nat \<bar>b\<bar>) * (2 powi (- x) / 2 powi (- y) * 2 powi (x - y))"
      by (simp add: da(3) db(3) p)
    also have "2 powi (- x) / 2 powi (- y) * 2 powi (x - y) = (1::real)"
      by (simp add: power_int_diff power_int_minus field_simps)
    finally obtain m' x' where r: "dbl_round ((a < 0) \<noteq> (b < 0)) m n (x - y) = DFinite ((a < 0) \<noteq> (b < 0)) m' x'" "x' < 0"
      "m' div 2 ^ nat (- x') = nat \<bar>a\<bar> div nat \<bar>b\<bar>"
      using dbl_round_quotient [OF _ n AB, of m "x - y" "(a < 0) \<noteq> (b < 0)"] da(3) AB(1) by auto
    have "dbl_trunc ((a < 0) \<noteq> (b < 0)) m' x' = signed_of ((a < 0) \<noteq> (b < 0)) (nat \<bar>a\<bar> div nat \<bar>b\<bar>)"
      using r by (simp add: dbl_trunc_def)
    also have "\<dots> = trunc_div a b"
      using False assms(3) by (simp add: signed_of_def trunc_div_def zdiv_int nat_div_distrib sgn_if)
    finally show ?thesis using dv r(1) by simp
  qed
qed

section \<open>Integer arithmetic\<close>

text \<open>What the five arithmetic opcodes should compute on two machine integers.\<close>

fun arith_spec :: "OpCode \<Rightarrow> int \<Rightarrow> int \<Rightarrow> int result" where
  "arith_spec Add a b = checked_int (a + b)"
| "arith_spec Sub a b = checked_int (a - b)"
| "arith_spec Mul a b = checked_int (a * b)"
| "arith_spec Div a b = (if b = 0 then Inl (RuntimeError ''DIV: divide by zero'') else checked_int (trunc_div a b))"
| "arith_spec Mod a b = (if b = 0 then Inl (RuntimeError ''MOD: division by zero'')
     else if a = int_min \<and> b = - 1 then Inl UndefinedBehaviour else Inr (trunc_mod a b))"
| "arith_spec _ a b = Inl UndefinedBehaviour"

lemma popV_Cons: "stack s = v # vs \<Longrightarrow> popV s = (Inr v, s\<lparr>stack := vs\<rparr>)"
  by (simp add: popV_def)

lemma push_break_run: "push_break v s = (Inr Break, s\<lparr>stack := v # stack s\<rparr>)"
  by (simp add: push_break_def break_after_def bindS_def pushV_def)

lemma binop_run:
  "stack s = b # a # vs \<Longrightarrow> binop f s = (case f a b of Inl e \<Rightarrow> (Inl e, s\<lparr>stack := vs\<rparr>) | Inr v \<Rightarrow> (Inr Break, s\<lparr>stack := v # vs\<rparr>))"
  by (simp add: binop_def bindS_def popV_Cons push_break_run split: sum.split)

lemma dbl_eq_zero_of_int: "int32 b \<Longrightarrow> dbl_eq (dbl_of_int b) (dbl_zero False) \<longleftrightarrow> b = 0"
proof -
  assume "int32 b"
  then obtain n y where db: "dbl_of_int b = DFinite (b < 0) n y" "y \<le> 0" "- 1074 \<le> y" "n = nat \<bar>b\<bar> * 2 ^ nat (- y)"
    using dbl_of_int_finite [OF int32_exact] by blast
  then have "n = 0 \<longleftrightarrow> b = 0" by simp
  then show ?thesis using db by (auto simp: dbl_zero_def dbl_align_def signed_of_def min_def)
qed

lemma trunc_div_in_range:
  assumes "int32 a" "int32 b" "b \<noteq> 0"
  shows "int32 (trunc_div a b) \<longleftrightarrow> \<not> (a = int_min \<and> b = - 1)"
proof (cases "\<bar>b\<bar> = 1")
  case True
  then have "trunc_div a b = a * b" by (auto simp: trunc_div_def abs_if sgn_if split: if_splits)
  then show ?thesis using True assms by (auto simp: int32_def int_min_def int_max_def abs_if split: if_splits)
next
  case False
  have "\<bar>a\<bar> div \<bar>b\<bar> \<le> \<bar>a\<bar> div 2" using False assms(3) by (intro zdiv_mono2) auto
  moreover have "\<bar>a\<bar> \<le> 2147483648" using assms(1) unfolding int32_def int_min_def int_max_def by linarith
  ultimately have "\<bar>a\<bar> div \<bar>b\<bar> \<le> 1073741824" by linarith
  moreover have "0 \<le> \<bar>a\<bar> div \<bar>b\<bar>" by (simp add: pos_imp_zdiv_nonneg_iff assms(3))
  moreover have "trunc_div a b = \<bar>a\<bar> div \<bar>b\<bar> \<or> trunc_div a b = - (\<bar>a\<bar> div \<bar>b\<bar>) \<or> trunc_div a b = 0"
    by (auto simp: trunc_div_def sgn_if)
  ultimately have "int32 (trunc_div a b)" unfolding int32_def int_min_def int_max_def by linarith
  then show ?thesis using False by auto
qed

lemma vm_div_ints: "int32 a \<Longrightarrow> int32 b \<Longrightarrow> vm_div (IntV a) (IntV b) = map_sum id IntV (arith_spec Div a b)"
  by (simp add: vm_div_def dbl_eq_zero_of_int dbl_div_ints bindE_def checked_int_def)

lemma op_mod_ints:
  assumes "stack s = IntV b # IntV a # vs" "int32 a" "int32 b" "instr_op ins = Mod"
  shows "op_mod ins s = (case arith_spec Mod a b of Inl e \<Rightarrow> (Inl e, s\<lparr>stack := vs\<rparr>) | Inr r \<Rightarrow> (Inr Break, s\<lparr>stack := IntV r # vs\<rparr>))"
  using assms trunc_div_in_range [OF assms(2,3)]
  by (auto simp: op_mod_def bindS_def popInt_def popV_Cons intFromStackValue_def checked_int_def push_break_run)

text \<open>
  The arithmetic opcodes on machine integers: \<open>ADD\<close>, \<open>SUB\<close> and \<open>MUL\<close> give the mathematical result when it
  is an \<open>int\<close> and have undefined behaviour otherwise; \<open>DIV\<close>, although it divides doubles, gives the quotient
  truncated toward zero, throws on zero and is undefined only for the most negative number divided by minus
  one; \<open>MOD\<close> is the remainder of the same division.  The two operands are replaced by the result; an error
  consumes them.
\<close>

theorem integer_arithmetic:
  assumes "stack s = IntV b # IntV a # vs" "int32 a" "int32 b" "instr_op ins \<in> {Add, Sub, Mul, Div, Mod}"
  shows "exec env ins s = (case arith_spec (instr_op ins) a b of
     Inl e \<Rightarrow> (Inl e, s\<lparr>stack := vs\<rparr>) | Inr r \<Rightarrow> (Inr Break, s\<lparr>stack := IntV r # vs\<rparr>))"
proof -
  consider "instr_op ins = Add" | "instr_op ins = Sub" | "instr_op ins = Mul" | "instr_op ins = Div" | "instr_op ins = Mod"
    using assms(4) by blast
  then show ?thesis
  proof cases
    case 5
    then show ?thesis using op_mod_ints [OF assms(1-3)] by (simp add: exec_def)
  qed (use assms(1) in \<open>simp_all add: exec_def binop_run vm_add_def vm_sub_def vm_mul_def vm_div_ints assms(2,3) int_result_def bindE_def checked_int_def\<close>)
qed

theorem integer_arithmetic_witness:
  "exec sample_env (mkInstr Div (IntV 0)) (sample_runtime\<lparr>stack := [IntV 2, IntV (- 7)]\<rparr>)
   = (Inr Break, sample_runtime\<lparr>stack := [IntV (- 3)]\<rparr>)"
proof -
  have "int32 2" "int32 (- 7)" "int32 (- 3)" by (simp_all add: range_simps)
  then show ?thesis
    using integer_arithmetic [of "sample_runtime\<lparr>stack := [IntV 2, IntV (- 7)]\<rparr>" 2 "- 7" "[]" "mkInstr Div (IntV 0)" sample_env]
    by (simp add: mkInstr_def trunc_div_def checked_int_def)
qed

section \<open>Runs\<close>

text \<open>One round of the loop in \<open>run\<close>: a step that asks to go on, with no interrupt pending.\<close>

definition vm_next :: "Env \<Rightarrow> Runtime \<Rightarrow> Runtime \<Rightarrow> bool" where
  "vm_next env s t \<longleftrightarrow> step env s = (Inr True, t) \<and> \<not> interrupted t"

lemma run_next: "vm_next env s t \<Longrightarrow> run env s = run env t"
  by (subst run.simps) (simp add: vm_next_def)

lemma run_nexts: "(vm_next env)\<^sup>*\<^sup>* s t \<Longrightarrow> run env s = run env t"
  by (induction rule: rtranclp_induct) (simp_all add: run_next)

lemma step_break:
  "ip s < length (code s) \<Longrightarrow> exec env (code s ! ip s) s = (Inr Break, t) \<Longrightarrow> step env s = (Inr (ip t + 1 < length (code t)), t\<lparr>ip := ip t + 1\<rparr>)"
  by (simp add: step_def bindS_def)

lemma step_leave:
  "ip s < length (code s) \<Longrightarrow> exec env (code s ! ip s) s = (Inr Leave, t) \<Longrightarrow> step env s = (Inr (ip t < length (code t)), t)"
  by (simp add: step_def bindS_def)

section \<open>Subroutines\<close>

lemma exec_call:
  "instr_op ins = Call \<Longrightarrow> operand ins = IntV t \<Longrightarrow> exec env ins s = (Inr Leave, s\<lparr>callStack := (ip s + 1) # callStack s, ip := size_t_of_int t\<rparr>)"
  by (simp add: exec_def op_call_def intOperand_def intOperandAtIp_def bindS_def jump_to_def)

lemma exec_return:
  "instr_op ins = Return \<Longrightarrow> callStack s = r # rs \<Longrightarrow> exec env ins s = (Inr Leave, s\<lparr>callStack := rs, ip := r\<rparr>)"
  by (simp add: exec_def op_return_def bindS_def jump_to_def)

text \<open>
  \<open>GOSUB\<close> and \<open>RETURN\<close>: if the subroutine, entered at its target with the return address on top of
  the call stack, runs to a \<open>RETURN\<close> with the call stack as it was on entry, then the call runs to the instruction
  behind it, with the call stack restored and everything else as the subroutine left it.
\<close>

theorem gosub_returns:
  assumes "ip s < length (code s)" "instr_op (code s ! ip s) = Call" "operand (code s ! ip s) = IntV t"
    and "0 \<le> t" "t < int (length (code s))" "int32 t" "\<not> interrupted s"
    and body: "(vm_next env)\<^sup>*\<^sup>* (s\<lparr>callStack := (ip s + 1) # callStack s, ip := nat t\<rparr>) u"
    and ret: "code u = code s" "ip u < length (code u)" "instr_op (code u ! ip u) = Return" "callStack u = (ip s + 1) # callStack s"
    and "ip s + 1 < length (code s)" "\<not> interrupted u"
  shows "(vm_next env)\<^sup>*\<^sup>* s (u\<lparr>callStack := callStack s, ip := ip s + 1\<rparr>)"
proof -
  have "size_t_of_int t = nat t" using assms(4,6) by (simp add: size_t_of_int_id int32_def int_max_def)
  then have "vm_next env s (s\<lparr>callStack := (ip s + 1) # callStack s, ip := nat t\<rparr>)"
    using step_leave [OF assms(1) exec_call [OF assms(2,3)]] assms(4,5,7) by (simp add: vm_next_def nat_less_iff)
  moreover have "vm_next env u (u\<lparr>callStack := callStack s, ip := ip s + 1\<rparr>)"
    using step_leave [OF ret(2) exec_return [OF ret(3,4)]] assms(13,14) ret(1) by (simp add: vm_next_def)
  ultimately show ?thesis using body by (meson converse_rtranclp_into_rtranclp rtranclp.rtrancl_into_rtrancl)
qed

definition gosub_program :: "Instruction list" where
  "gosub_program = [mkInstr Call (IntV 2), mkInstr Halt (IntV 0), mkInstr Return (IntV 0)]"

theorem gosub_returns_witness:
  "(vm_next sample_env)\<^sup>*\<^sup>* (loadProgram gosub_program [] sample_runtime) ((loadProgram gosub_program [] sample_runtime)\<lparr>ip := 1\<rparr>)"
proof -
  let ?s = "loadProgram gosub_program [] sample_runtime"
  have "int32 2" by (simp add: range_simps)
  then show ?thesis
    using gosub_returns [of ?s 2 sample_env "?s\<lparr>callStack := [1], ip := 2\<rparr>"]
    by (simp add: loadProgram_def gosub_program_def mkInstr_def sample_runtime_def Let_def)
qed

section \<open>Counted loops\<close>

text \<open>How often \<open>NEXT\<close> goes back to the body when it finds the loop variable at \<open>i\<close>.\<close>

definition rounds_left :: "ForFrame \<Rightarrow> int \<Rightarrow> nat" where
  "rounds_left fr i = nat ((frame_limit fr - i) div frame_step fr)"

lemma rounds_done:
  assumes "frame_step fr \<noteq> 0"
  shows "loop_done fr (i + frame_step fr) \<longleftrightarrow> rounds_left fr i = 0"
proof (cases "0 < frame_step fr")
  case True
  then have "(frame_limit fr - i) div frame_step fr \<le> 0 \<longleftrightarrow> frame_limit fr - i < frame_step fr"
    using pos_imp_zdiv_pos_iff [OF True, of "frame_limit fr - i"] by linarith
  then show ?thesis using True by (simp add: loop_done_def rounds_left_def) linarith
next
  case False
  have e: "(frame_limit fr - i) div frame_step fr = (i - frame_limit fr) div (- frame_step fr)"
    by (metis div_minus_minus minus_diff_eq)
  have "(i - frame_limit fr) div (- frame_step fr) \<le> 0 \<longleftrightarrow> i - frame_limit fr < - frame_step fr"
    using False assms pos_imp_zdiv_pos_iff [of "- frame_step fr" "i - frame_limit fr"] by linarith
  then show ?thesis using False assms e by (simp add: loop_done_def rounds_left_def) linarith
qed

lemma rounds_step: "frame_step fr \<noteq> 0 \<Longrightarrow> rounds_left fr (i + frame_step fr) = rounds_left fr i - 1"
proof -
  assume "frame_step fr \<noteq> 0"
  then have "(frame_limit fr - (i + frame_step fr)) div frame_step fr = (frame_limit fr - i) div frame_step fr - 1"
    using div_mult_self1 [of "frame_step fr" "frame_limit fr - i" "- 1"] by (simp add: algebra_simps)
  then show ?thesis by (simp add: rounds_left_def nat_diff_distrib')
qed

text \<open>Control at the \<open>NEXT\<close> of a loop, or at the start of its body, with the loop variable at \<open>i\<close>.\<close>

definition in_loop :: "Runtime \<Rightarrow> Instruction list \<Rightarrow> ForFrame \<Rightarrow> ForFrame list \<Rightarrow> nat \<Rightarrow> int \<Rightarrow> bool" where
  "in_loop s p fr rest pc i \<longleftrightarrow>
     code s = p \<and> ip s = pc \<and> forStack s = fr # rest \<and> variables s (varName fr) = Some (IntV i) \<and> \<not> interrupted s"

definition is_next :: "Instruction \<Rightarrow> ForFrame \<Rightarrow> bool" where
  "is_next ins fr \<longleftrightarrow> instr_op ins = ForNext \<and>
     (\<exists>x. operand ins = StrV x \<and> (canonicalVariableName x = varName fr \<or> canonicalVariableName x = []))"

lemma exec_next:
  assumes "is_next ins fr" "forStack s = fr # rest" "variables s (varName fr) = Some (IntV i)"
    and "int32 i" "int32 (i + frame_step fr)" "\<not> isReadOnlySystemVariableName (varName fr)"
  shows "exec env ins s =
    (let s' = s\<lparr>variables := (variables s)(varName fr \<mapsto> IntV (i + frame_step fr))\<rparr>
     in if loop_done fr (i + frame_step fr) then (Inr Break, s'\<lparr>forStack := rest\<rparr>) else (Inr Leave, s'\<lparr>ip := bodyIP fr\<rparr>))"
proof -
  obtain x where x: "instr_op ins = ForNext" "operand ins = StrV x" "canonicalVariableName x = varName fr \<or> canonicalVariableName x = []"
    using assms(1) by (auto simp: is_next_def)
  then have "nameOperand ins s = (Inr (canonicalVariableName x), s)"
    by (simp add: nameOperand_def stringOperand_def stringOperandAtIp_def bindS_def)
  with x assms show ?thesis
    by (auto simp: exec_def op_for_next_def bindS_def guard_writable_def jump_to_def break_after_def Let_def)
qed

lemma next_exits:
  assumes "in_loop s p fr rest pc i" "pc + 1 < length p" "is_next (p ! pc) fr" "int32 i" "int32 (i + frame_step fr)"
    "\<not> isReadOnlySystemVariableName (varName fr)" "loop_done fr (i + frame_step fr)"
  shows "vm_next env s (s\<lparr>variables := (variables s)(varName fr \<mapsto> IntV (i + frame_step fr)), forStack := rest, ip := pc + 1\<rparr>)"
proof -
  have "exec env (code s ! ip s) s = (Inr Break, s\<lparr>variables := (variables s)(varName fr \<mapsto> IntV (i + frame_step fr)), forStack := rest\<rparr>)"
    using assms exec_next [of "p ! pc" fr s rest i env] by (simp add: in_loop_def Let_def)
  from step_break [OF _ this] show ?thesis using assms(1,2) by (simp add: in_loop_def vm_next_def)
qed

lemma next_repeats:
  assumes "in_loop s p fr rest pc i" "pc < length p" "bodyIP fr < length p" "is_next (p ! pc) fr" "int32 i" "int32 (i + frame_step fr)"
    "\<not> isReadOnlySystemVariableName (varName fr)" "\<not> loop_done fr (i + frame_step fr)"
  shows "vm_next env s (s\<lparr>variables := (variables s)(varName fr \<mapsto> IntV (i + frame_step fr)), ip := bodyIP fr\<rparr>)"
proof -
  have "exec env (code s ! ip s) s = (Inr Leave, s\<lparr>variables := (variables s)(varName fr \<mapsto> IntV (i + frame_step fr)), ip := bodyIP fr\<rparr>)"
    using assms exec_next [of "p ! pc" fr s rest i env] by (simp add: in_loop_def Let_def)
  from step_leave [OF _ this] show ?thesis using assms(1,2,3) by (simp add: in_loop_def vm_next_def)
qed

text \<open>The loop variable stays in range when one step past the limit is in range.\<close>

lemma loop_value_range:
  assumes "frame_step fr \<noteq> 0" "int32 i" "int32 (frame_limit fr + frame_step fr)" "int32 (i + frame_step fr)"
    "\<not> loop_done fr (i + frame_step fr)"
  shows "int32 (i + frame_step fr + frame_step fr)"
  using assms unfolding loop_done_def int32_def int_min_def int_max_def by (auto split: if_splits)


definition loop_program :: "Instruction list" where
  "loop_program = [mkInstr PrintEol (IntV 0), mkInstr ForNext (StrV ''I''), mkInstr Halt (IntV 0)]"

definition loop_frame :: ForFrame where
  "loop_frame = \<lparr>varName = ''I'', frame_limit = 7, frame_step = 2, bodyIP = 0\<rparr>"

definition loop_start :: Runtime where
  "loop_start = sample_runtime\<lparr>code := loop_program, ip := 1, forStack := [loop_frame], variables := [''I'' \<mapsto> IntV 1]\<rparr>"

lemma loop_body_counts:
  assumes "in_loop u loop_program loop_frame [] (bodyIP loop_frame) j" "length (outStream u) = k"
  shows "\<exists>v. (vm_next sample_env)\<^sup>*\<^sup>* u v \<and> in_loop v loop_program loop_frame [] 1 j \<and> length (outStream v) = Suc k"
proof -
  have u: "ip u = 0" "code u = loop_program" using assms(1) by (simp_all add: in_loop_def loop_frame_def)
  have "exec sample_env (code u ! ip u) u = (Inr Break, u\<lparr>outStream := outStream u @ [LF]\<rparr>)"
    using u by (simp add: loop_program_def mkInstr_def exec_def break_after_def print_def bindS_def)
  from step_break [OF _ this] have "vm_next sample_env u (u\<lparr>outStream := outStream u @ [LF], ip := 1\<rparr>)"
    using u assms(1) by (simp add: loop_program_def vm_next_def in_loop_def)
  then show ?thesis using assms by (intro exI [of _ "u\<lparr>outStream := outStream u @ [LF], ip := 1\<rparr>"]) (auto simp: in_loop_def)
qed


section \<open>Arrays and records\<close>

lemma put_next_attribute: "setAttribute (int (length ls) + 1) (RecordAttribute l) (numbered 1 ls) = numbered 1 (ls @ [l])"
  using fromRaw_loop_eq [of ls "[l]"] by (simp add: setAttribute_def add.commute)

lemma store_attributes:
  "foldl (\<lambda>sr (i, v). setAttribute (int i + 1) (RecordAttribute (valueToString v)) sr) [] (enumerate 0 vs) = numbered 1 (map valueToString vs)"
proof (induction vs rule: rev_induct)
  case (snoc v vs)
  then show ?case using put_next_attribute [of "map valueToString vs" "valueToString v"] by (simp add: enumerate_append_eq)
qed simp

lemma highest_numbered: "highest_attribute (numbered 1 ls) = length ls"
  by (cases ls rule: rev_cases) (simp_all add: highest_attribute_def numbered_snoc)

lemma mapE_Inr: "(\<And>x. x \<in> set xs \<Longrightarrow> f x = Inr (g x)) \<Longrightarrow> mapE f xs = Inr (map g xs)"
  by (induction xs) simp_all

lemma nameOperand_run: "operand ins = StrV x \<Longrightarrow> nameOperand ins s = (Inr (canonicalVariableName x), s)"
  by (simp add: nameOperand_def stringOperand_def stringOperandAtIp_def bindS_def)

lemma get_array_run: "arrays s nm = Some vs \<Longrightarrow> get_array msg nm s = (Inr vs, s)"
  by (simp add: get_array_def bindS_def)

lemma bindS_app: "bindS m k s = (case m s of (r, t) \<Rightarrow> case r of Inl e \<Rightarrow> (Inl e, t) | Inr x \<Rightarrow> k x t)"
  by (simp add: bindS_def split: prod.split sum.split)

lemma exec_mat_store:
  assumes "instr_op ins = MatStoreToRec" "operand ins = StrV x" "arrays s (canonicalVariableName x) = Some vs"
  shows "exec env ins s = (Inr Break, s\<lparr>stack := StrV (join_with LF (map valueToString vs)) # stack s\<rparr>)"
  using assms
  by (simp add: exec_def op_mat_store_to_rec_def bindS_def nameOperand_run get_array_run store_attributes toRaw_numbered push_break_run)

lemma exec_mat_load:
  assumes "instr_op ins = MatLoadFromRec" "operand ins = StrV y" "arrays s (canonicalVariableName y) = Some ws"
    and "stack s = StrV (join_with LF ls) # st" "\<forall>l \<in> set ls. LF \<notin> set l" "ls \<noteq> [[]]" "length ws = length ls"
    and "\<not> isReadOnlySystemVariableName (canonicalVariableName y)" "\<not> is_int_array (canonicalVariableName y)"
  shows "exec env ins s = (Inr Break, s\<lparr>stack := st, arrays := (arrays s)(canonicalVariableName y \<mapsto> map StrV ls)\<rparr>)"
proof -
  have sr: "fromRaw (join_with LF ls) = numbered 1 ls" by (simp add: fromRaw_eq raw_attributes_join assms(5,6))
  have "mapE (\<lambda>i. array_value (canonicalVariableName y) (StrV (if hasAttribute (numbered 1 ls) (int i + 1)
      then raw (attribute (numbered 1 ls) (int i + 1)) else []))) [0..<length ls] = Inr (map (\<lambda>i. StrV (ls ! i)) [0..<length ls])"
    using assms(9) by (intro mapE_Inr) (simp add: hasAttribute_def attribute_def map_of_numbered array_value_def)
  also have "map (\<lambda>i. StrV (ls ! i)) [0..<length ls] = map StrV ls" by (rule nth_equalityI) simp_all
  finally have m: "mapE (\<lambda>i. array_value (canonicalVariableName y) (StrV (if hasAttribute (numbered 1 ls) (int i + 1)
      then raw (attribute (numbered 1 ls) (int i + 1)) else []))) [0..<length ws] = Inr (map StrV ls)" using assms(7) by simp
  let ?s = "s\<lparr>stack := st\<rparr>"
  have g: "guard_writable (canonicalVariableName y) s = (Inr (), s)" using assms(8) by (simp add: guard_writable_def)
  have p: "popText s = (Inr (join_with LF ls), ?s)" by (simp add: popText_def bindS_def popV_Cons [OF assms(4)])
  have a: "get_array mat_undefined (canonicalVariableName y) ?s = (Inr ws, ?s)" using assms(3) by (intro get_array_run) simp
  have h: "highest_attribute (numbered 1 ls) = length ws" using assms(7) highest_numbered by simp
  have "op_mat_load_from_rec ins s = set_array (canonicalVariableName y) (map StrV ls) ?s"
    by (simp only: op_mat_load_from_rec_def bindS_app nameOperand_run [OF assms(2)] g p a sr Let_def h m
        simp_thms if_False action_simps prod.case sum.case)
  then show ?thesis by (simp add: exec_def assms(1) set_array_def break_after_def bindS_def)
qed

text \<open>
  An array survives the way through a record: \<open>MAT_STORE_TO_REC\<close> of one array followed by
  \<open>MAT_LOAD_FROM_REC\<close> into another of the same size gives the display texts of the first array's
  elements, in order, and leaves the stack as it was.  Elements must not contain a newline, and an array whose
  only element is empty is excluded: its record has no attribute.
\<close>

theorem mat_record_round_trip:
  assumes "instr_op put = MatStoreToRec" "operand put = StrV x" "instr_op get = MatLoadFromRec" "operand get = StrV y"
    and "arrays s (canonicalVariableName x) = Some vs" "arrays s (canonicalVariableName y) = Some ws" "length ws = length vs"
    and "\<forall>v \<in> set vs. LF \<notin> set (valueToString v)" "map valueToString vs \<noteq> [[]]"
    and "\<not> isReadOnlySystemVariableName (canonicalVariableName y)" "\<not> is_int_array (canonicalVariableName y)"
  shows "bindS (exec env put) (\<lambda>_. exec env get) s =
    (Inr Break, s\<lparr>arrays := (arrays s)(canonicalVariableName y \<mapsto> map (\<lambda>v. StrV (valueToString v)) vs)\<rparr>)"
proof -
  let ?s = "s\<lparr>stack := StrV (join_with LF (map valueToString vs)) # stack s\<rparr>"
  have "exec env put s = (Inr Break, ?s)" by (rule exec_mat_store [OF assms(1,2,5)])
  moreover have "exec env get ?s = (Inr Break, ?s\<lparr>stack := stack s, arrays := (arrays ?s)(canonicalVariableName y \<mapsto> map StrV (map valueToString vs))\<rparr>)"
    by (rule exec_mat_load [OF assms(3,4), where ws = ws and st = "stack s"]) (use assms(6-11) in simp_all)
  ultimately show ?thesis by (simp add: bindS_def comp_def)
qed

theorem mat_record_round_trip_witness:
  "bindS (exec sample_env (mkInstr MatStoreToRec (StrV ''A''))) (\<lambda>_. exec sample_env (mkInstr MatLoadFromRec (StrV ''B'')))
     (sample_runtime\<lparr>arrays := [''A'' \<mapsto> [StrV ''p'', StrV []], ''B'' \<mapsto> [IntV 0, IntV 0]]\<rparr>)
   = (Inr Break, sample_runtime\<lparr>arrays := [''A'' \<mapsto> [StrV ''p'', StrV []], ''B'' \<mapsto> [StrV ''p'', StrV []]]\<rparr>)"
proof -
  have c: "canonicalVariableName ''A'' = ''A''" "canonicalVariableName ''B'' = ''B''"
    by (simp_all add: canonicalVariableName_def upperCopy_def toupper_def code_of_def)
  show ?thesis
    using mat_record_round_trip [of "mkInstr MatStoreToRec (StrV ''A'')" "''A''" "mkInstr MatLoadFromRec (StrV ''B'')" "''B''"
        "sample_runtime\<lparr>arrays := [''A'' \<mapsto> [StrV ''p'', StrV []], ''B'' \<mapsto> [IntV 0, IntV 0]]\<rparr>" "[StrV ''p'', StrV []]" "[IntV 0, IntV 0]" sample_env]
    by (simp add: c mkInstr_def isReadOnlySystemVariableName_def is_int_array_def)
qed

section \<open>Records held by another session\<close>

definition held_elsewhere :: "FileSystem \<Rightarrow> world \<Rightarrow> string \<Rightarrow> string \<Rightarrow> bool" where
  "held_elsewhere fs w f r \<longleftrightarrow> lockingEnabled fs \<and>
     (case lookup (lock_table w) f r of None \<Rightarrow> False | Some e \<Rightarrow> ownerSessionId e \<noteq> lockSessionId fs)"

lemma describe_is_conflict: "isRecordLockConflict (describeLockConflict c)"
  unfolding isRecordLockConflict_def find_from_None describeLockConflict_def occurs_at_def by (auto intro!: exI [of _ 0])

lemma acquire_refused:
  assumes "held_elsewhere fs w f r"
  shows "\<exists>c. acquireRecordLock fs f r ty w = (Inl (FileSystemError (describeLockConflict c)), w)"
  using assms
  by (auto simp: held_elsewhere_def acquireRecordLock_def tryAcquire_def lookup_def lockingEnabled_def isValidKey_def Let_def
      split: option.splits if_splits prod.splits)

lemma held_access_refused: "held_elsewhere fs w f r \<Longrightarrow> \<exists>c. assertRecordAccessible fs w f r = Inl (FileSystemError (describeLockConflict c))"
  by (auto simp: held_elsewhere_def assertRecordAccessible_def split: option.splits)

lemma fs_read_refused:
  "held_elsewhere fs (vmWorld s) f r \<Longrightarrow> \<exists>c. fs_read env True fs f r s = (Inl (FileSystemError (describeLockConflict c)), s)"
  using acquire_refused [of fs "vmWorld s" f r ReadU] by (auto simp: fs_read_def worldS_def readU_def)

lemma fs_write_refused:
  "held_elsewhere fs (vmWorld s) f (recName rc) \<Longrightarrow> \<exists>c. fs_write env True fs f rc s = (Inl (FileSystemError (describeLockConflict c)), s)"
  using acquire_refused [of fs "vmWorld s" f "recName rc" WriteU] by (auto simp: fs_write_def worldS_def writeU_def)

lemma vmWorld_stack: "vmWorld (s\<lparr>stack := vs\<rparr>) = vmWorld s"
  by simp

definition conflict_outcome :: "string \<Rightarrow> Runtime \<Rightarrow> flow result \<times> Runtime" where
  "conflict_outcome op s = (case onErrorIp s of
     Some h \<Rightarrow> (Inr Leave, s\<lparr>statusCode := kStatusRecordLocked, ip := h\<rparr>)
   | None \<Rightarrow> (Inl (makeIoError op RecordLocked []), s\<lparr>statusCode := kStatusRecordLocked\<rparr>))"

lemma raise_or_jump_conflict:
  "m s = (Inl (FileSystemError (describeLockConflict c)), s) \<Longrightarrow> raise_or_jump op m s = conflict_outcome op s"
  by (simp add: raise_or_jump_def catchS_def on_lock_conflict_def describe_is_conflict handleRecordLockConflict_def bindS_def
      conflict_outcome_def split: option.split)

text \<open>
  C14. When another session holds the record, \<open>READU\<close> and \<open>WRITEU\<close> set \<open>STATUS()\<close> to 1 and go to the
  \<open>ON ERROR\<close> handler if one is set, and raise \<open>ERR_RECORD_LOCKED\<close> otherwise; their \<open>ELSE\<close> forms push failure and
  touch neither the status nor the handler.  In every case the lock table and the record store stay as they were.
\<close>

theorem lock_conflict_dispatch:
  assumes "fileSystem env = Some fs" "openFiles s (canonicalVariableName x) = Some fh" "operand ins = StrV x"
    and "held_elsewhere fs (vmWorld s) (fhName fh) (valueToString v)" "stack s = v # vs"
  shows "(instr_op ins = ReadRecU \<longrightarrow> exec env ins s = conflict_outcome ''READU'' (s\<lparr>stack := vs\<rparr>))
    \<and> (instr_op ins = ReadRecUTry \<longrightarrow> exec env ins s = (Inr Break, s\<lparr>stack := IntV 0 # StrV [] # vs\<rparr>))
    \<and> (\<forall>u us. vs = u # us \<longrightarrow>
         (instr_op ins = WriteRecU \<longrightarrow> exec env ins s = conflict_outcome ''WRITEU'' (s\<lparr>stack := us\<rparr>)) \<and>
         (instr_op ins = WriteRecUTry \<longrightarrow> exec env ins s = (Inr Break, s\<lparr>stack := IntV 0 # us\<rparr>)))"
proof (intro conjI impI allI)
  obtain c where r: "fs_read env True fs (fhName fh) (valueToString v) (s\<lparr>stack := vs\<rparr>) = (Inl (FileSystemError (describeLockConflict c)), s\<lparr>stack := vs\<rparr>)"
    using fs_read_refused [where s = "s\<lparr>stack := vs\<rparr>" and fs = fs and f = "fhName fh" and r = "valueToString v" and env = env] assms(4)
    unfolding vmWorld_stack by blast
  note run = bindS_def nameOperand_run [OF assms(3)] popText_def popV_Cons [OF assms(5)] with_file_def try_file_def assms(1,2)
  show "exec env ins s = conflict_outcome ''READU'' (s\<lparr>stack := vs\<rparr>)" if "instr_op ins = ReadRecU"
    using that r by (simp add: exec_def op_read_rec_u_def op_read_rec_def run raise_or_jump_conflict [of _ _ c])
  show "exec env ins s = (Inr Break, s\<lparr>stack := IntV 0 # StrV [] # vs\<rparr>)" if "instr_op ins = ReadRecUTry"
    using that r
    by (simp add: exec_def op_read_rec_u_try_def op_read_rec_try_def run catchS_def on_lock_conflict_def describe_is_conflict
        push_missing_def push_try_def push_break_run pushV_def)
  fix u us assume vs: "vs = u # us"
  obtain d where w: "fs_write env True fs (fhName fh) (mkRecord (valueToString v) (valueToString u)) (s\<lparr>stack := us\<rparr>) =
      (Inl (FileSystemError (describeLockConflict d)), s\<lparr>stack := us\<rparr>)"
    using fs_write_refused [where s = "s\<lparr>stack := us\<rparr>" and fs = fs and f = "fhName fh" and rc = "mkRecord (valueToString v) (valueToString u)" and env = env] assms(4)
    unfolding vmWorld_stack recValue_mkRecord by blast
  show "exec env ins s = conflict_outcome ''WRITEU'' (s\<lparr>stack := us\<rparr>)" if "instr_op ins = WriteRecU"
    using that w vs assms(5) by (simp add: exec_def op_write_rec_u_def op_write_rec_def run popV_def raise_or_jump_conflict [of _ _ d])
  show "exec env ins s = (Inr Break, s\<lparr>stack := IntV 0 # us\<rparr>)" if "instr_op ins = WriteRecUTry"
    using that w vs assms(5)
    by (simp add: exec_def op_write_rec_u_try_def op_write_rec_try_def run popV_def catchS_def describe_is_conflict push_break_run)
qed

definition locked_world :: world where
  "locked_world = sample_world\<lparr>lock_table := [(''BP'', [(''HELLO'', \<lparr>ownerSessionId = ''S2'', lockType = ReadU, acquiredAt = 0\<rparr>)])]\<rparr>"

definition contended_runtime :: Runtime where
  "contended_runtime = sample_runtime\<lparr>vmWorld := locked_world, onErrorIp := Some 7,
     openFiles := [''F'' \<mapsto> \<lparr>fhName = ''BP'', directoryPath = [''db'', ''BP''], recordIds = [], cursorIndex = 0, cursorPrimed = False\<rparr>],
     stack := [StrV ''HELLO'', StrV ''x'']\<rparr>"

lemma contended_held: "held_elsewhere (sample_fs ''s1'') (vmWorld contended_runtime) ''BP'' ''HELLO''"
  by (simp add: held_elsewhere_def contended_runtime_def locked_world_def lookup_def isValidKey_def sample_fs_def lockingEnabled_def)

lemma canonical_F: "canonicalVariableName ''F'' = ''F''"
  by (simp add: canonicalVariableName_def upperCopy_def toupper_def code_of_def)

theorem lock_conflict_dispatch_witness:
  "exec sample_env (mkInstr ReadRecU (StrV ''F'')) contended_runtime
     = (Inr Leave, contended_runtime\<lparr>stack := [StrV ''x''], statusCode := 1, ip := 7\<rparr>)
   \<and> exec sample_env (mkInstr WriteRecUTry (StrV ''F'')) contended_runtime = (Inr Break, contended_runtime\<lparr>stack := [IntV 0]\<rparr>)"
  using lock_conflict_dispatch [of sample_env "sample_fs ''s1''" contended_runtime "''F''" _ "mkInstr ReadRecU (StrV ''F'')" "StrV ''HELLO''" "[StrV ''x'']"]
    lock_conflict_dispatch [of sample_env "sample_fs ''s1''" contended_runtime "''F''" _ "mkInstr WriteRecUTry (StrV ''F'')" "StrV ''HELLO''" "[StrV ''x'']"]
    contended_held
  by (simp add: canonical_F sample_env_def mkInstr_def contended_runtime_def conflict_outcome_def kStatusRecordLocked_def)

lemma held_readFS_refused:
  assumes "held_elsewhere fs w f r" "isValidName r" "openFile h fs w f = Inr fh"
  shows "\<exists>c. readFS h fs w f r = Inl (FileSystemError (describeLockConflict c))"
proof -
  have "fhName fh = f" using assms(3) by (auto simp: openFile_def Let_def bindE_def split: if_splits sum.splits)
  then show ?thesis using held_access_refused [OF assms(1)] assms(2,3) by (auto simp: readFS_def readRecord_def bindE_def)
qed

lemma popCoerced_IntV: "stack s = IntV k # vs \<Longrightarrow> int32 k \<Longrightarrow> popCoerced s = (Inr k, s\<lparr>stack := vs\<rparr>)"
  by (simp add: popCoerced_def bindS_def popV_Cons coerceToInt_IntV)

text \<open>
  \<open>READV\<close> and \<open>WRITEV\<close> do not go through the lock conflict handling: on a record held by another session
  they raise the file system's own error, with \<open>STATUS()\<close> unchanged and the \<open>ON ERROR\<close> handler not taken.
\<close>

theorem readv_conflict_escapes:
  assumes "fileSystem env = Some fs" "openFiles s (canonicalVariableName x) = Some fh" "operand ins = StrV x"
    and "held_elsewhere fs (vmWorld s) (fhName fh) (valueToString v)" "isValidName (valueToString v)"
    and "openFile (vmHost env) fs (vmWorld s) (fhName fh) = Inr fh'"
    and "stack s = IntV k # IntV a # v # u # vs" "int32 k" "int32 a"
  shows "\<exists>c t. (instr_op ins = ReadV \<or> instr_op ins = WriteV \<longrightarrow>
      exec env ins s = (Inl (FileSystemError (describeLockConflict c)), t)) \<and>
      isRecordLockConflict (describeLockConflict c) \<and> statusCode t = statusCode s \<and> ip t = ip s \<and> vmWorld t = vmWorld s"
proof -
  obtain c where c: "readFS (vmHost env) fs (vmWorld s) (fhName fh) (valueToString v) = Inl (FileSystemError (describeLockConflict c))"
    using held_readFS_refused [OF assms(4-6)] by blast
  let ?e = "Inl (FileSystemError (describeLockConflict c))"
  note pops = popCoerced_IntV [OF assms(7,8)] popV_Cons popCoerced_IntV [OF _ assms(9)]
  note run = bindS_def nameOperand_run [OF assms(3)] popText_def with_file_def assms(1,2) pops c
  have "exec env ins s = (?e, s\<lparr>stack := u # vs\<rparr>)" if "instr_op ins = ReadV"
    using that by (simp add: exec_def op_read_v_def run queryS_def)
  moreover have "exec env ins s = (?e, s\<lparr>stack := vs\<rparr>)" if "instr_op ins = WriteV"
    using that by (simp add: exec_def op_write_v_def run fs_write_value_def worldS_def writeSubvalue_def writeAttributeValue_def)
  ultimately show ?thesis using describe_is_conflict
    by (intro exI [of _ c] exI [of _ "s\<lparr>stack := if instr_op ins = ReadV then u # vs else vs\<rparr>"]) auto
qed

theorem readv_conflict_escapes_witness:
  "\<exists>c t. exec sample_env (mkInstr WriteV (StrV ''F'')) (contended_runtime\<lparr>stack := [IntV 0, IntV 1, StrV ''HELLO'', StrV ''x'']\<rparr>)
     = (Inl (FileSystemError (describeLockConflict c)), t) \<and> onErrorIp contended_runtime = Some 7 \<and> ip t = 0 \<and> statusCode t = 0"
proof -
  let ?s = "contended_runtime\<lparr>stack := [IntV 0, IntV 1, StrV ''HELLO'', StrV ''x'']\<rparr>"
  let ?fh = "\<lparr>fhName = ''BP'', directoryPath = [''db'', ''BP''], recordIds = [], cursorIndex = 0, cursorPrimed = False\<rparr>"
  have o: "openFile good_host (sample_fs ''s1'') locked_world ''BP'' = Inr ?fh" by code_simp
  have "isValidName ''HELLO''" by code_simp
  then show ?thesis using o contended_held canonical_F
      readv_conflict_escapes [of sample_env "sample_fs ''s1''" ?s "''F''" ?fh "mkInstr WriteV (StrV ''F'')" "StrV ''HELLO''" ?fh 0 1 "StrV ''x''" "[]"]
    by (simp add: sample_env_def mkInstr_def contended_runtime_def sample_runtime_def range_simps) blast
qed

end
