(* ===== verification/Correlative_Laws.thy ===== *)
theory Correlative_Laws
  imports Correlatives
begin

text \<open>
  Properties of the dictionary: I-type expressions parse back from their printed form with the precedence and
  associativity of the grammar, integer expressions are computed exactly, synonyms are followed and cycles
  of them end, and the file's own dictionary hides the global one.
\<close>

section \<open>More fuel gives the same answer\<close>

definition extends :: "parse_result \<Rightarrow> parse_result \<Rightarrow> bool" where
  "extends m m' \<longleftrightarrow> m = None \<or> m = m'"

lemma extends_refl [simp]: "extends m m" "extends None m"
  by (simp_all add: extends_def)

lemma extends_bind: "extends m m' \<Longrightarrow> (\<And>x p. extends (k x p) (k' x p)) \<Longrightarrow> extends (bindP m k) (bindP m' k')"
  by (cases m' rule: parse_result_cases) (fastforce simp: extends_def [of m] bindP_def)+

lemma extends_expect: "(\<And>q. extends (k q) (k' q)) \<Longrightarrow> extends (expect t p k) (expect t p k')"
  by (simp add: expect_def)

lemma extends_cases:
  "extends a a' \<Longrightarrow> extends b b' \<Longrightarrow> extends (if c then a else b) (if c then a' else b')"
  "extends a a' \<Longrightarrow> (\<And>x. extends (f x) (f' x)) \<Longrightarrow> extends (case ov of None \<Rightarrow> a | Some x \<Rightarrow> f x) (case ov of None \<Rightarrow> a' | Some x \<Rightarrow> f' x)"
  by (auto split: option.split)

definition grows :: "nat \<Rightarrow> bool" where
  "grows n \<longleftrightarrow>
     (\<forall>p. extends (parseExpr n p) (parseExpr (Suc n) p)) \<and> (\<forall>p. extends (parseComparison n p) (parseComparison (Suc n) p)) \<and>
     (\<forall>p. extends (parseAdditive n p) (parseAdditive (Suc n) p)) \<and> (\<forall>l p. extends (additive_loop n l p) (additive_loop (Suc n) l p)) \<and>
     (\<forall>p. extends (parseMultiplicative n p) (parseMultiplicative (Suc n) p)) \<and>
     (\<forall>l p. extends (multiplicative_loop n l p) (multiplicative_loop (Suc n) l p)) \<and>
     (\<forall>p. extends (parseUnary n p) (parseUnary (Suc n) p)) \<and> (\<forall>p. extends (parsePrimary n p) (parsePrimary (Suc n) p))"

lemma grows_Suc:
  assumes "grows n"
  shows "grows (Suc n)"
proof -
  have ih: "extends (parseExpr n p) (parseExpr (Suc n) p)" "extends (parseComparison n p) (parseComparison (Suc n) p)"
    "extends (parseAdditive n p) (parseAdditive (Suc n) p)" "extends (additive_loop n l p) (additive_loop (Suc n) l p)"
    "extends (parseMultiplicative n p) (parseMultiplicative (Suc n) p)"
    "extends (multiplicative_loop n l p) (multiplicative_loop (Suc n) l p)"
    "extends (parseUnary n p) (parseUnary (Suc n) p)" "extends (parsePrimary n p) (parsePrimary (Suc n) p)" for l p
    using assms by (simp_all only: grows_def)
  note rules = extends_cases extends_bind extends_expect ih extends_refl
  note unfold = parseExpr.simps(2) parseComparison.simps(2) parseAdditive.simps(2) additive_loop.simps(2)
    parseMultiplicative.simps(2) multiplicative_loop.simps(2) parseUnary.simps(2) parsePrimary.simps(2)
  show ?thesis unfolding grows_def
    by (intro conjI allI; subst (1 2) unfold; intro rules)
qed

lemma grows_all: "grows n"
  by (induction n) (simp add: grows_def, rule grows_Suc)

lemma more_fuel:
  assumes "\<And>n. extends (f n) (f (Suc n))" "f n = Some r" "n \<le> m"
  shows "f m = Some r"
  using assms(3,2) by (induction m rule: dec_induct) (use assms(1) in \<open>auto simp: extends_def, metis option.distinct(1)\<close>)

lemmas grown = grows_all [unfolded grows_def]

lemma parseExpr_more: "parseExpr n p = Some r \<Longrightarrow> n \<le> m \<Longrightarrow> parseExpr m p = Some r"
  using more_fuel [of "\<lambda>n. parseExpr n p"] grown by blast

lemma parseAdditive_more: "parseAdditive n p = Some r \<Longrightarrow> n \<le> m \<Longrightarrow> parseAdditive m p = Some r"
  using more_fuel [of "\<lambda>n. parseAdditive n p"] grown by blast

lemma additive_loop_more: "additive_loop n l p = Some r \<Longrightarrow> n \<le> m \<Longrightarrow> additive_loop m l p = Some r"
  using more_fuel [of "\<lambda>n. additive_loop n l p"] grown by blast

lemma parseMultiplicative_more: "parseMultiplicative n p = Some r \<Longrightarrow> n \<le> m \<Longrightarrow> parseMultiplicative m p = Some r"
  using more_fuel [of "\<lambda>n. parseMultiplicative n p"] grown by blast

lemma multiplicative_loop_more: "multiplicative_loop n l p = Some r \<Longrightarrow> n \<le> m \<Longrightarrow> multiplicative_loop m l p = Some r"
  using more_fuel [of "\<lambda>n. multiplicative_loop n l p"] grown by blast

lemma parseUnary_more: "parseUnary n p = Some r \<Longrightarrow> n \<le> m \<Longrightarrow> parseUnary m p = Some r"
  using more_fuel [of "\<lambda>n. parseUnary n p"] grown by blast

lemma parseComparison_more: "parseComparison n p = Some r \<Longrightarrow> n \<le> m \<Longrightarrow> parseComparison m p = Some r"
  using more_fuel [of "\<lambda>n. parseComparison n p"] grown by blast

section \<open>Printing\<close>

text \<open>The words of an expression, with the fewest parentheses the grammar needs; every word is followed by a space.\<close>

definition i_text :: "string list \<Rightarrow> string" where
  "i_text ts = concat (map (\<lambda>t. t @ [SP]) ts)"

fun escape_i :: "string \<Rightarrow> string" where
  "escape_i [] = []"
| "escape_i (c # s) = (if c = DQ \<or> c = BSL then [BSL, c] else [c]) @ escape_i s"

definition number_word :: "double \<Rightarrow> string" where
  "number_word d = (case formatNumericResult d of Inr t \<Rightarrow> t | Inl _ \<Rightarrow> [])"

definition field_word :: "int \<Rightarrow> string" where
  "field_word n = [char_of (nat (64 + n))]"

definition compare_word :: "ICompareOp \<Rightarrow> string" where
  "compare_word op = (case op of CmpEq \<Rightarrow> ''='' | CmpNe \<Rightarrow> ''<>'' | CmpLt \<Rightarrow> ''<'' | CmpLe \<Rightarrow> ''<='' | CmpGt \<Rightarrow> ''>'' | CmpGe \<Rightarrow> ''>='')"

definition call_word :: "ICallKind \<Rightarrow> string" where
  "call_word k = (case k of Iconv \<Rightarrow> ''ICONV'' | Oconv \<Rightarrow> ''OCONV'')"

fun prec :: "IExpr \<Rightarrow> nat" where
  "prec (IIf c t e) = 0"
| "prec (ICompare op l r) = 0"
| "prec (IBinary op l r) = (if op = CHR ''+'' \<or> op = CHR ''-'' then 1 else 2)"
| "prec (IUnary op e) = 3"
| "prec e = 4"

definition in_parens :: "bool \<Rightarrow> string list \<Rightarrow> string list" where
  "in_parens b ts = (if b then [''(''] @ ts @ ['')''] else ts)"

fun words_i :: "nat \<Rightarrow> IExpr \<Rightarrow> string list" where
  "words_i lvl (INumber d) = [number_word d]"
| "words_i lvl (IString t) = [DQ # escape_i t @ [DQ]]"
| "words_i lvl (IField n) = [field_word n]"
| "words_i lvl (IUnary op e) = in_parens (3 < lvl) ([op] # words_i 3 e)"
| "words_i lvl (IBinary op l r) =
     (let p = prec (IBinary op l r) in in_parens (p < lvl) (words_i p l @ [[op]] @ words_i (Suc p) r))"
| "words_i lvl (ICompare op l r) = words_i 1 l @ [compare_word op] @ words_i 1 r"
| "words_i lvl (IIf c t e) =
     in_parens (0 < lvl) ([''IF''] @ words_i 1 c @ [''THEN''] @ words_i 0 t @ [''ELSE''] @ words_i 0 e)"
| "words_i lvl (ICall k v c) = [call_word k, ''(''] @ words_i 0 v @ ['',''] @ words_i 0 c @ ['')'']"

definition is_compare :: "IExpr \<Rightarrow> bool" where
  "is_compare e = (case e of ICompare _ _ _ \<Rightarrow> True | _ \<Rightarrow> False)"

text \<open>What the grammar can denote: integer literals, fields A to Z, and comparisons only as the condition of an \<open>IF\<close>.\<close>

fun printable :: "IExpr \<Rightarrow> bool" where
  "printable (INumber d) = (\<exists>k. d = dbl_of_int (int k) \<and> k < 2 ^ 53)"
| "printable (IString t) = True"
| "printable (IField n) = (1 \<le> n \<and> n \<le> 26)"
| "printable (IUnary op e) = (op = CHR ''-'' \<and> printable e \<and> \<not> is_compare e)"
| "printable (IBinary op l r) = (op \<in> {CHR ''+'', CHR ''-'', CHR ''*'', CHR ''/''} \<and> printable l \<and> printable r \<and> \<not> is_compare l \<and> \<not> is_compare r)"
| "printable (ICompare op l r) = (printable l \<and> printable r \<and> \<not> is_compare l \<and> \<not> is_compare r)"
| "printable (IIf c t e) = (printable c \<and> printable t \<and> printable e \<and> \<not> is_compare t \<and> \<not> is_compare e)"
| "printable (ICall k v c) = (printable v \<and> printable c \<and> \<not> is_compare v \<and> \<not> is_compare c)"

section \<open>Words are tokens\<close>

definition at_words :: "string list \<Rightarrow> pstate" where
  "at_words ts = lex_next (i_text ts)"

definition word_token :: "string \<Rightarrow> Token \<Rightarrow> bool" where
  "word_token w t \<longleftrightarrow> (\<forall>r. lex_next (w @ SP # r) = (t, SP # r))"

lemma lex_next_space: "lex_next (SP # s) = lex_next s"
  by (simp add: lex_next_def isspace_def code_of_def)

lemma at_words_Cons: "word_token w t \<Longrightarrow> at_words (w # ts) = (t, SP # i_text ts)"
  by (simp add: at_words_def i_text_def word_token_def)

lemma advance_words: "word_token w t \<Longrightarrow> advance (at_words (w # ts)) = at_words ts"
  by (simp add: at_words_Cons advance_def lex_next_space) (simp add: at_words_def)

lemma cur_words: "word_token w t \<Longrightarrow> cur_kind (at_words (w # ts)) = tok_kind t" "word_token w t \<Longrightarrow> fst (at_words (w # ts)) = t"
  by (simp_all add: at_words_Cons cur_kind_def)

lemma at_words_Nil: "cur_kind (at_words []) = TkEnd"
  by (simp add: at_words_def i_text_def lex_next_def cur_kind_def mkTok_def)

lemma space_props: "\<not> isdigit SP" "\<not> isalpha SP" "SP \<noteq> CHR ''.''" "SP \<noteq> CHR ''>''" "SP \<noteq> CHR ''=''"
  by (simp_all add: isdigit_def isalpha_def code_of_def)

lemma symbol_tokens:
  "word_token ''+'' (mkTok TkPlus ''+'')" "word_token ''-'' (mkTok TkMinus ''-'')" "word_token ''*'' (mkTok TkStar ''*'')"
  "word_token ''/'' (mkTok TkSlash ''/'')" "word_token ''('' (mkTok TkLParen ''('')" "word_token '')'' (mkTok TkRParen '')'')"
  "word_token '','' (mkTok TkComma '','')"
  by (simp_all add: word_token_def lex_next_def isspace_def isdigit_def isalpha_def code_of_def)

definition compare_kind :: "ICompareOp \<Rightarrow> TokenKind" where
  "compare_kind op = (case op of CmpEq \<Rightarrow> TkEq | CmpNe \<Rightarrow> TkNe | CmpLt \<Rightarrow> TkLt | CmpLe \<Rightarrow> TkLe | CmpGt \<Rightarrow> TkGt | CmpGe \<Rightarrow> TkGe)"

lemma compare_tokens: "word_token (compare_word op) (mkTok (compare_kind op) (compare_word op))"
  by (cases op) (simp_all add: compare_word_def compare_kind_def word_token_def lex_next_def isspace_def isdigit_def isalpha_def code_of_def)

lemma keyword_tokens:
  "word_token ''IF'' (mkTok TkIf ''IF'')" "word_token ''THEN'' (mkTok TkThen ''THEN'')" "word_token ''ELSE'' (mkTok TkElse ''ELSE'')"
  "word_token ''ICONV'' (mkTok TkIconv ''ICONV'')" "word_token ''OCONV'' (mkTok TkOconv ''OCONV'')"
  by (simp_all add: word_token_def lex_next_def lexIdentifier_def upperCopy_def toupper_def isspace_def isdigit_def isalpha_def code_of_def)

lemma lexString_escape: "lexString v (escape_i t @ DQ # r) = (mkTok TkString (v @ t), r)"
  by (induction t arbitrary: v) auto

lemma string_token: "word_token (DQ # escape_i t @ [DQ]) (mkTok TkString t)"
  by (simp add: word_token_def lex_next_def lexString_escape isspace_def code_of_def)

lemma field_token:
  assumes "1 \<le> n" "n \<le> 26"
  shows "word_token (field_word n) ((mkTok TkField (field_word n))\<lparr>tok_field := n\<rparr>)"
proof -
  let ?c = "char_of (nat (64 + n)) :: char"
  have c: "code_of ?c = nat (64 + n)" using assms by (simp add: code_of_char_of)
  then have a: "isalpha ?c" "\<not> isdigit ?c" "\<not> isspace ?c" "?c \<noteq> DQ" "?c \<noteq> CHR ''.''"
    using assms by (auto simp: isalpha_def isdigit_def isspace_def code_of_def dest!: arg_cong [where f = code_of])
  have "toupper ?c = ?c" using c assms by (auto simp: toupper_def)
  moreover have "int (nat (64 + n)) - 65 + 1 = n" using assms by simp
  moreover have "65 \<le> nat (64 + n)" "nat (64 + n) \<le> 90" using assms by simp_all
  ultimately show ?thesis using a c space_props
    by (simp add: word_token_def field_word_def lex_next_def lexIdentifier_def upperCopy_def Let_def)
qed

lemma scan_digits: "list_all isdigit ds \<Longrightarrow> lexNumber_scan False (ds @ SP # r) = (ds, SP # r)"
  by (induction ds) (auto simp: space_props)

lemma formatNumericResult_int:
  assumes "exact_int i"
  shows "formatNumericResult (dbl_of_int i) = Inr (show_int i)"
proof -
  obtain m x where d: "dbl_of_int i = DFinite (i < 0) m x" "x \<le> 0" "m = nat \<bar>i\<bar> * 2 ^ nat (- x)"
    using dbl_of_int_finite [OF assms] by blast
  have "dbl_trunc (i < 0) m x = i" using d(2,3) by (auto simp: dbl_trunc_def signed_of_def)
  moreover have "int64 i" using assms by (auto simp: exact_int_def int64_def)
  ultimately show ?thesis using dbl_is_integer_of_int [OF assms] by (simp add: formatNumericResult_def dbl_isfinite_def d(1) checked_int64_def)
qed

lemma number_token:
  assumes "k < 2 ^ 53"
  shows "word_token (number_word (dbl_of_int (int k))) ((mkTok TkNumber (show_nat k))\<lparr>tok_number := dbl_of_int (int k)\<rparr>)"
proof -
  have e: "exact_int (int k)" using assms by (simp add: exact_int_def)
  have "formatNumericResult (dbl_of_int (int k)) = Inr (show_nat k)" using formatNumericResult_int [OF e] by (simp add: show_int_def)
  then have w: "number_word (dbl_of_int (int k)) = show_nat k" by (simp add: number_word_def)
  have ds: "list_all isdigit (show_nat k)" using show_nat_digits [of k] by (simp add: list_all_iff)
  obtain c cs where c: "show_nat k = c # cs" by (cases "show_nat k") (use show_nat_not_Nil [of k] in auto)
  have "isdigit c" using ds c by simp
  then have "\<not> isspace c" "c \<noteq> DQ" by (auto simp: isdigit_def isspace_def code_of_def)
  moreover have "strtod (show_nat k) = Some (dbl_of_int (int k), [], False)" using strtod_show_int [OF e] by (simp add: show_int_def)
  ultimately show ?thesis using scan_digits [OF ds] \<open>isdigit c\<close> unfolding word_token_def w
    by (simp add: lex_next_def lexNumber_def c)
qed

section \<open>Parsing the words\<close>

definition mulop :: "pstate \<Rightarrow> bool" where
  "mulop p \<longleftrightarrow> cur_kind p = TkStar \<or> cur_kind p = TkSlash"

definition addop :: "pstate \<Rightarrow> bool" where
  "addop p \<longleftrightarrow> cur_kind p = TkPlus \<or> cur_kind p = TkMinus"

text \<open>What it means that some words are an operand at each level of the grammar.\<close>

definition unary_words :: "string list \<Rightarrow> IExpr \<Rightarrow> bool" where
  "unary_words ws e \<longleftrightarrow> (\<forall>ts. \<exists>n. parseUnary n (at_words (ws @ ts)) = Some (Inr (e, at_words ts)))"

definition mult_words :: "string list \<Rightarrow> IExpr \<Rightarrow> bool" where
  "mult_words ws e \<longleftrightarrow> (\<forall>ts m r. multiplicative_loop m e (at_words ts) = Some r \<longrightarrow>
     (\<exists>n. parseMultiplicative n (at_words (ws @ ts)) = Some r))"

definition add_words :: "string list \<Rightarrow> IExpr \<Rightarrow> bool" where
  "add_words ws e \<longleftrightarrow> (\<forall>ts m r. \<not> mulop (at_words ts) \<longrightarrow> additive_loop m e (at_words ts) = Some r \<longrightarrow>
     (\<exists>n. parseAdditive n (at_words (ws @ ts)) = Some r))"

definition expr_words :: "string list \<Rightarrow> IExpr \<Rightarrow> bool" where
  "expr_words ws e \<longleftrightarrow> (\<forall>ts. \<not> mulop (at_words ts) \<longrightarrow> \<not> addop (at_words ts) \<longrightarrow>
     (\<exists>n. parseExpr n (at_words (ws @ ts)) = Some (Inr (e, at_words ts))))"

lemma mult_of_unary: "unary_words ws e \<Longrightarrow> mult_words ws e"
  unfolding mult_words_def
proof (intro allI impI)
  fix ts m r assume u: "unary_words ws e" and l: "multiplicative_loop m e (at_words ts) = Some r"
  obtain n where n: "parseUnary n (at_words (ws @ ts)) = Some (Inr (e, at_words ts))" using u unary_words_def by blast
  have "parseMultiplicative (Suc (max n m)) (at_words (ws @ ts)) = Some r"
    using parseUnary_more [OF n, of "max n m"] multiplicative_loop_more [OF l, of "max n m"] by (simp add: bindP_def)
  then show "\<exists>n. parseMultiplicative n (at_words (ws @ ts)) = Some r" by blast
qed

lemma mult_stops: "\<not> mulop p \<Longrightarrow> multiplicative_loop (Suc 0) e p = Some (Inr (e, p))"
  by (simp add: mulop_def)

lemma add_stops: "\<not> addop p \<Longrightarrow> additive_loop (Suc 0) e p = Some (Inr (e, p))"
  by (simp add: addop_def)

lemma add_of_mult: "mult_words ws e \<Longrightarrow> add_words ws e"
  unfolding add_words_def
proof (intro allI impI)
  fix ts m r assume u: "mult_words ws e" and s: "\<not> mulop (at_words ts)" and l: "additive_loop m e (at_words ts) = Some r"
  obtain n where n: "parseMultiplicative n (at_words (ws @ ts)) = Some (Inr (e, at_words ts))"
    using u mult_stops [OF s, of e] mult_words_def by blast
  have "parseAdditive (Suc (max n m)) (at_words (ws @ ts)) = Some r"
    using parseMultiplicative_more [OF n, of "max n m"] additive_loop_more [OF l, of "max n m"] by (simp add: bindP_def)
  then show "\<exists>n. parseAdditive n (at_words (ws @ ts)) = Some r" by blast
qed

lemma expr_of_add: "add_words ws e \<Longrightarrow> (\<And>ts. cur_kind (at_words (ws @ ts)) \<noteq> TkIf) \<Longrightarrow> expr_words ws e"
  unfolding expr_words_def
proof (intro allI impI)
  fix ts assume u: "add_words ws e" and k: "\<And>ts. cur_kind (at_words (ws @ ts)) \<noteq> TkIf" and s: "\<not> mulop (at_words ts)" "\<not> addop (at_words ts)"
  obtain n where "parseAdditive n (at_words (ws @ ts)) = Some (Inr (e, at_words ts))"
    using u add_stops [OF s(2), of e] s(1) add_words_def by blast
  then have "parseExpr (Suc n) (at_words (ws @ ts)) = Some (Inr (e, at_words ts))" using k by simp
  then show "\<exists>n. parseExpr n (at_words (ws @ ts)) = Some (Inr (e, at_words ts))" by blast
qed

lemma kinds_simps [simp]:
  "word_token w t \<Longrightarrow> mulop (at_words (w # ts)) \<longleftrightarrow> tok_kind t = TkStar \<or> tok_kind t = TkSlash"
  "word_token w t \<Longrightarrow> addop (at_words (w # ts)) \<longleftrightarrow> tok_kind t = TkPlus \<or> tok_kind t = TkMinus"
  "tok_kind (mkTok k l) = k" "tok_lexeme (mkTok k l) = l"
  by (simp_all add: mulop_def addop_def cur_words mkTok_def)

lemma parens_unary:
  assumes "expr_words ws e"
  shows "unary_words ([''(''] @ ws @ ['')'']) e"
  unfolding unary_words_def
proof
  fix ts
  obtain n where n: "parseExpr n (at_words (ws @ '')'' # ts)) = Some (Inr (e, at_words ('')'' # ts)))"
    using assms [unfolded expr_words_def, rule_format, of "'')'' # ts"] symbol_tokens(6) by auto
  have "parseUnary (Suc (Suc n)) (at_words (''('' # ws @ '')'' # ts)) = Some (Inr (e, at_words ts))"
    using n by (simp add: cur_words [OF symbol_tokens(5)] cur_words [OF symbol_tokens(6)] advance_words [OF symbol_tokens(5)]
        advance_words [OF symbol_tokens(6)] bindP_def expect_def)
  then show "\<exists>n. parseUnary n (at_words (([''(''] @ ws @ ['')'']) @ ts)) = Some (Inr (e, at_words ts))"
    by (simp only: append_Cons append_Nil append_assoc) blast
qed

lemma primary_unary:
  assumes "word_token w t" "tok_kind t \<in> {TkNumber, TkString, TkField}"
    "e = (if tok_kind t = TkNumber then INumber (tok_number t) else if tok_kind t = TkString then IString (tok_lexeme t) else IField (tok_field t))"
  shows "unary_words [w] e"
  unfolding unary_words_def
proof
  fix ts
  have "parseUnary (Suc (Suc 0)) (at_words (w # ts)) = Some (Inr (e, at_words ts))"
    using assms(2) by (auto simp: cur_words [OF assms(1)] advance_words [OF assms(1)] assms(3))
  then show "\<exists>n. parseUnary n (at_words ([w] @ ts)) = Some (Inr (e, at_words ts))"
    by (simp only: append_Cons append_Nil append_assoc) blast
qed

lemma minus_unary: "unary_words ws e \<Longrightarrow> unary_words (''-'' # ws) (IUnary CHR ''-'' e)"
  unfolding unary_words_def
proof
  fix ts assume "\<forall>ts. \<exists>n. parseUnary n (at_words (ws @ ts)) = Some (Inr (e, at_words ts))"
  then obtain n where "parseUnary n (at_words (ws @ ts)) = Some (Inr (e, at_words ts))" by blast
  then have "parseUnary (Suc n) (at_words (''-'' # ws @ ts)) = Some (Inr (IUnary CHR ''-'' e, at_words ts))"
    by (simp add: cur_words [OF symbol_tokens(2)] advance_words [OF symbol_tokens(2)] bindP_def)
  then show "\<exists>n. parseUnary n (at_words ((''-'' # ws) @ ts)) = Some (Inr (IUnary CHR ''-'' e, at_words ts))"
    by (simp only: append_Cons append_Nil append_assoc) blast
qed

lemma product_words:
  assumes "mult_words ws l" "unary_words vs r" "word_token [op] t" "tok_kind t \<in> {TkStar, TkSlash}" "tok_lexeme t = [op]"
  shows "mult_words (ws @ [[op]] @ vs) (IBinary op l r)"
  unfolding mult_words_def
proof (intro allI impI)
  fix ts m q assume l: "multiplicative_loop m (IBinary op l r) (at_words ts) = Some q"
  obtain n where n: "parseUnary n (at_words (vs @ ts)) = Some (Inr (r, at_words ts))" using assms(2) unary_words_def by blast
  have "multiplicative_loop (Suc (max n m)) l (at_words ([op] # vs @ ts)) = Some q"
    using assms(4) parseUnary_more [OF n, of "max n m"] multiplicative_loop_more [OF l, of "max n m"]
    by (auto simp: cur_words [OF assms(3)] advance_words [OF assms(3)] bindP_def assms(5))
  then show "\<exists>n. parseMultiplicative n (at_words ((ws @ [[op]] @ vs) @ ts)) = Some q"
    using assms(1) [unfolded mult_words_def, rule_format, of _ "[op] # vs @ ts"]
    by (simp only: append_Cons append_Nil append_assoc)
qed

lemma sum_words:
  assumes "add_words ws l" "mult_words vs r" "word_token [op] t" "tok_kind t \<in> {TkPlus, TkMinus}" "tok_lexeme t = [op]"
  shows "add_words (ws @ [[op]] @ vs) (IBinary op l r)"
  unfolding add_words_def
proof (intro allI impI)
  fix ts m q assume s: "\<not> mulop (at_words ts)" and l: "additive_loop m (IBinary op l r) (at_words ts) = Some q"
  obtain n where n: "parseMultiplicative n (at_words (vs @ ts)) = Some (Inr (r, at_words ts))"
    using assms(2) mult_stops [OF s, of r] mult_words_def by blast
  have "additive_loop (Suc (max n m)) l (at_words ([op] # vs @ ts)) = Some q"
    using assms(4) parseMultiplicative_more [OF n, of "max n m"] additive_loop_more [OF l, of "max n m"]
    by (auto simp: cur_words [OF assms(3)] advance_words [OF assms(3)] bindP_def assms(5))
  moreover have "\<not> mulop (at_words ([op] # vs @ ts))" using assms(4) kinds_simps(1) [OF assms(3)] by auto
  ultimately show "\<exists>n. parseAdditive n (at_words ((ws @ [[op]] @ vs) @ ts)) = Some q"
    using assms(1) [unfolded add_words_def, rule_format, of "[op] # vs @ ts"]
    by (simp only: append_Cons append_Nil append_assoc) blast
qed

definition cond_words :: "string list \<Rightarrow> IExpr \<Rightarrow> bool" where
  "cond_words ws e \<longleftrightarrow> (\<forall>ts. \<not> mulop (at_words ts) \<longrightarrow> \<not> addop (at_words ts) \<longrightarrow> compareOpFromToken (cur_kind (at_words ts)) = None \<longrightarrow>
     (\<exists>n. parseComparison n (at_words (ws @ ts)) = Some (Inr (e, at_words ts))))"

lemma cond_of_add: "add_words ws e \<Longrightarrow> cond_words ws e"
  unfolding cond_words_def
proof (intro allI impI)
  fix ts assume u: "add_words ws e" and s: "\<not> mulop (at_words ts)" "\<not> addop (at_words ts)" "compareOpFromToken (cur_kind (at_words ts)) = None"
  obtain n where "parseAdditive n (at_words (ws @ ts)) = Some (Inr (e, at_words ts))"
    using u add_stops [OF s(2), of e] s(1) add_words_def by blast
  then have "parseComparison (Suc n) (at_words (ws @ ts)) = Some (Inr (e, at_words ts))" using s(3) by (simp add: bindP_def)
  then show "\<exists>n. parseComparison n (at_words (ws @ ts)) = Some (Inr (e, at_words ts))" by blast
qed

lemma compare_words:
  assumes "add_words ws l" "add_words vs r"
  shows "cond_words (ws @ [compare_word op] @ vs) (ICompare op l r)"
  unfolding cond_words_def
proof (intro allI impI)
  fix ts assume s: "\<not> mulop (at_words ts)" "\<not> addop (at_words ts)"
  let ?p = "at_words (compare_word op # vs @ ts)"
  have k: "cur_kind ?p = compare_kind op" "advance ?p = at_words (vs @ ts)"
    using cur_words [OF compare_tokens] advance_words [OF compare_tokens] by simp_all
  have p: "\<not> mulop ?p" "\<not> addop ?p" "compareOpFromToken (cur_kind ?p) = Some op"
    unfolding mulop_def addop_def k by (simp_all add: compare_kind_def compareOpFromToken_def split: ICompareOp.split)
  obtain n where n: "parseAdditive n (at_words (ws @ compare_word op # vs @ ts)) = Some (Inr (l, ?p))"
    using assms(1) [unfolded add_words_def, rule_format, OF p(1) add_stops [OF p(2), of l]] ..
  obtain m where m: "parseAdditive m (at_words (vs @ ts)) = Some (Inr (r, at_words ts))"
    using assms(2) [unfolded add_words_def, rule_format, OF s(1) add_stops [OF s(2), of r]] by blast
  have "parseComparison (Suc (max n m)) (at_words (ws @ compare_word op # vs @ ts)) = Some (Inr (ICompare op l r, at_words ts))"
    using parseAdditive_more [OF n, of "max n m"] parseAdditive_more [OF m, of "max n m"] p(3) k(2) by (simp add: bindP_def)
  then show "\<exists>n. parseComparison n (at_words ((ws @ [compare_word op] @ vs) @ ts)) = Some (Inr (ICompare op l r, at_words ts))"
    by (simp only: append_Cons append_Nil append_assoc) blast
qed

lemma stops_before:
  assumes "word_token w (mkTok k w)" "k \<notin> {TkStar, TkSlash, TkPlus, TkMinus}"
  shows "\<not> mulop (at_words (w # ts))" "\<not> addop (at_words (w # ts))"
  using assms(2) kinds_simps(1,2) [OF assms(1)] by auto

lemma if_words:
  assumes "cond_words cs c" "expr_words ws t" "expr_words vs e"
  shows "expr_words ([''IF''] @ cs @ [''THEN''] @ ws @ [''ELSE''] @ vs) (IIf c t e)"
  unfolding expr_words_def
proof (intro allI impI)
  fix ts assume s: "\<not> mulop (at_words ts)" "\<not> addop (at_words ts)"
  let ?e = "at_words (''ELSE'' # vs @ ts)" and ?t = "at_words (''THEN'' # ws @ ''ELSE'' # vs @ ts)"
  note K = keyword_tokens
  have "compareOpFromToken (cur_kind ?t) = None" by (simp add: cur_words [OF K(2)] compareOpFromToken_def)
  then obtain i where i: "parseComparison i (at_words (cs @ ''THEN'' # ws @ ''ELSE'' # vs @ ts)) = Some (Inr (c, ?t))"
    using assms(1) [unfolded cond_words_def, rule_format, of "''THEN'' # ws @ ''ELSE'' # vs @ ts"] stops_before [OF K(2)] by auto
  obtain j where j: "parseExpr j (at_words (ws @ ''ELSE'' # vs @ ts)) = Some (Inr (t, ?e))"
    using assms(2) [unfolded expr_words_def, rule_format, of "''ELSE'' # vs @ ts"] stops_before [OF K(3)] by auto
  obtain l where l: "parseExpr l (at_words (vs @ ts)) = Some (Inr (e, at_words ts))" using assms(3) s expr_words_def by blast
  let ?n = "max i (max j l)"
  have "parseExpr (Suc ?n) (at_words (''IF'' # cs @ ''THEN'' # ws @ ''ELSE'' # vs @ ts)) = Some (Inr (IIf c t e, at_words ts))"
    using parseComparison_more [OF i, of ?n] parseExpr_more [OF j, of ?n] parseExpr_more [OF l, of ?n]
    by (simp add: cur_words [OF K(1)] cur_words [OF K(2)] cur_words [OF K(3)] advance_words [OF K(1)] advance_words [OF K(2)]
        advance_words [OF K(3)] bindP_def expect_def)
  then show "\<exists>n. parseExpr n (at_words (([''IF''] @ cs @ [''THEN''] @ ws @ [''ELSE''] @ vs) @ ts)) = Some (Inr (IIf c t e, at_words ts))"
    by (simp only: append_Cons append_Nil append_assoc) blast
qed

definition call_kind :: "ICallKind \<Rightarrow> TokenKind" where
  "call_kind k = (case k of Iconv \<Rightarrow> TkIconv | Oconv \<Rightarrow> TkOconv)"

lemma call_token: "word_token (call_word k) (mkTok (call_kind k) (call_word k))"
  using keyword_tokens(4,5) by (cases k) (simp_all add: call_word_def call_kind_def)

lemma call_words:
  assumes "expr_words ws v" "expr_words vs c"
  shows "unary_words ([call_word k, ''(''] @ ws @ ['',''] @ vs @ ['')'']) (ICall k v c)"
  unfolding unary_words_def
proof
  fix ts
  note S = symbol_tokens
  let ?b = "at_words ('','' # vs @ '')'' # ts)" and ?z = "at_words ('')'' # ts)"
  obtain i where i: "parseExpr i (at_words (ws @ '','' # vs @ '')'' # ts)) = Some (Inr (v, ?b))"
    using assms(1) [unfolded expr_words_def, rule_format, of "'','' # vs @ '')'' # ts"] stops_before [OF S(7)] by auto
  obtain j where j: "parseExpr j (at_words (vs @ '')'' # ts)) = Some (Inr (c, ?z))"
    using assms(2) [unfolded expr_words_def, rule_format, of "'')'' # ts"] stops_before [OF S(6)] by auto
  have "parsePrimary (Suc (max i j)) (at_words (call_word k # ''('' # ws @ '','' # vs @ '')'' # ts)) = Some (Inr (ICall k v c, at_words ts))"
    using parseExpr_more [OF i, of "max i j"] parseExpr_more [OF j, of "max i j"]
    by (cases k; simp add: cur_words [OF call_token] cur_words [OF S(5)] cur_words [OF S(6)] cur_words [OF S(7)] advance_words [OF call_token]
        advance_words [OF S(5)] advance_words [OF S(6)] advance_words [OF S(7)] bindP_def expect_def call_kind_def)
  then have "parseUnary (Suc (Suc (max i j))) (at_words (call_word k # ''('' # ws @ '','' # vs @ '')'' # ts)) = Some (Inr (ICall k v c, at_words ts))"
    by (cases k) (simp_all only: parseUnary.simps cur_words [OF call_token] kinds_simps call_kind_def TokenKind.simps if_False ICallKind.case)
  then show "\<exists>n. parseUnary n (at_words (([call_word k, ''(''] @ ws @ ['',''] @ vs @ ['')'']) @ ts)) = Some (Inr (ICall k v c, at_words ts))"
    by (simp only: append_Cons append_Nil append_assoc) blast
qed

lemma first_not_if: "printable e \<Longrightarrow> \<not> is_compare e \<Longrightarrow> 0 < lvl \<Longrightarrow> cur_kind (at_words (words_i lvl e @ ts)) \<noteq> TkIf"
proof (induction e arbitrary: lvl ts)
  case (INumber d)
  then show ?case using cur_words(1) [OF number_token] by auto
next
  case (IString t)
  then show ?case using cur_words(1) [OF string_token] by simp
next
  case (IField n)
  then show ?case using cur_words(1) [OF field_token] by simp
next
  case (IBinary op l r)
  then have "cur_kind (at_words (words_i (prec (IBinary op l r)) l @ us)) \<noteq> TkIf" for us by simp
  then show ?case using cur_words(1) [OF symbol_tokens(5)] by (auto simp: in_parens_def Let_def)
qed (auto simp: in_parens_def is_compare_def cur_words [OF symbol_tokens(5)] cur_words [OF symbol_tokens(2)] cur_words [OF call_token]
    call_kind_def split: ICallKind.split)

text \<open>The operand levels of an expression in parentheses, and of one that stands for itself at every level.\<close>

definition all_levels :: "IExpr \<Rightarrow> bool" where
  "all_levels e \<longleftrightarrow> unary_words (words_i 3 e) e \<and> mult_words (words_i 2 e) e \<and> add_words (words_i 1 e) e \<and> expr_words (words_i 0 e) e"

lemma unary_levels:
  assumes "unary_words (words_i 3 e) e" "\<And>i. i \<le> 3 \<Longrightarrow> words_i i e = words_i 3 e" "printable e" "\<not> is_compare e"
  shows "all_levels e"
  using assms(1) assms(2) [of 2] assms(2) [of 1] assms(2) [of 0] expr_of_add [OF add_of_mult [OF mult_of_unary [OF assms(1)]]]
    add_of_mult [OF mult_of_unary [OF assms(1)]] mult_of_unary [OF assms(1)] first_not_if [OF assms(3,4), of 3]
  unfolding all_levels_def by simp

lemma words_levels: "printable e \<Longrightarrow> (\<not> is_compare e \<longrightarrow> all_levels e) \<and> (is_compare e \<longrightarrow> cond_words (words_i 1 e) e)"
proof (induction e)
  case (INumber d)
  then have "unary_words (words_i 3 (INumber d)) (INumber d)" using primary_unary [OF number_token] by auto
  then show ?case using unary_levels [of "INumber d"] INumber by (simp add: is_compare_def)
next
  case (IString t)
  have "unary_words (words_i 3 (IString t)) (IString t)" using primary_unary [OF string_token] by auto
  then show ?case using unary_levels [of "IString t"] by (simp add: is_compare_def)
next
  case (IField n)
  then have "unary_words (words_i 3 (IField n)) (IField n)" using primary_unary [OF field_token] by auto
  then show ?case using unary_levels [of "IField n"] IField by (simp add: is_compare_def)
next
  case (IUnary op e)
  then have "unary_words (words_i 3 (IUnary op e)) (IUnary op e)" using minus_unary by (auto simp: in_parens_def all_levels_def)
  then show ?case using unary_levels [of "IUnary op e"] IUnary by (simp add: is_compare_def in_parens_def)
next
  case (IBinary op l r)
  then have ih: "all_levels l" "all_levels r" by auto
  have nc: "\<not> is_compare (IBinary op l r)" by (simp add: is_compare_def)
  note nif = first_not_if [OF IBinary(3) nc]
  show ?case
  proof (cases "op = CHR ''+'' \<or> op = CHR ''-''")
    case True
    have "add_words (words_i 1 l @ [[op]] @ words_i 2 r) (IBinary op l r)"
      using True ih sum_words [OF _ _ symbol_tokens(1)] sum_words [OF _ _ symbol_tokens(2)] by (auto simp: all_levels_def)
    then have a: "add_words (words_i 1 (IBinary op l r)) (IBinary op l r)" using True by (simp add: in_parens_def numeral_2_eq_2)
    moreover have "words_i 0 (IBinary op l r) = words_i 1 (IBinary op l r)" using True by (simp add: in_parens_def)
    ultimately have x: "expr_words (words_i 0 (IBinary op l r)) (IBinary op l r)" using expr_of_add nif [of 1] by simp
    have p: "words_i 2 (IBinary op l r) = [''(''] @ words_i 0 (IBinary op l r) @ ['')'']" "words_i 3 (IBinary op l r) = words_i 2 (IBinary op l r)"
      using True by (simp_all add: in_parens_def)
    show ?thesis using a x parens_unary [OF x] mult_of_unary nc unfolding all_levels_def p by blast
  next
    case False
    then have op: "op = CHR ''*'' \<or> op = CHR ''/''" using IBinary(3) by auto
    have "mult_words (words_i 2 l @ [[op]] @ words_i 3 r) (IBinary op l r)"
      using op ih product_words [OF _ _ symbol_tokens(3)] product_words [OF _ _ symbol_tokens(4)] by (auto simp: all_levels_def)
    then have m: "mult_words (words_i 2 (IBinary op l r)) (IBinary op l r)" using False by (simp add: in_parens_def numeral_3_eq_3)
    moreover have e: "words_i 1 (IBinary op l r) = words_i 2 (IBinary op l r)" "words_i 0 (IBinary op l r) = words_i 2 (IBinary op l r)"
      using False by (simp_all add: in_parens_def)
    ultimately have x: "expr_words (words_i 0 (IBinary op l r)) (IBinary op l r)"
      using expr_of_add [OF add_of_mult] nif [of 2] by simp
    have p: "words_i 3 (IBinary op l r) = [''(''] @ words_i 0 (IBinary op l r) @ ['')'']" using False by (simp add: in_parens_def)
    show ?thesis using m x parens_unary [OF x] add_of_mult [OF m] nc e(1) unfolding all_levels_def p by simp
  qed
next
  case (ICompare op l r)
  then show ?case using compare_words by (auto simp: all_levels_def is_compare_def)
next
  case (IIf c t e)
  have "cond_words (words_i 1 c) c" using IIf cond_of_add by (cases "is_compare c") (auto simp: all_levels_def)
  then have x: "expr_words (words_i 0 (IIf c t e)) (IIf c t e)" using IIf if_words by (auto simp: in_parens_def all_levels_def)
  have p: "words_i i (IIf c t e) = [''(''] @ words_i 0 (IIf c t e) @ ['')'']" if "0 < i" for i using that by (simp add: in_parens_def)
  show ?case using x parens_unary [OF x] mult_of_unary add_of_mult p [of 1] p [of 2] p [of 3] unfolding all_levels_def
    by (simp add: is_compare_def)
next
  case (ICall k v c)
  then have "unary_words (words_i 3 (ICall k v c)) (ICall k v c)" using call_words by (auto simp: all_levels_def)
  then show ?case using unary_levels [of "ICall k v c"] ICall by (simp add: is_compare_def)
qed

text \<open>
  C15. The printed form of an I-type expression parses back to the expression: the grammar has the usual precedence
  (\<open>*\<close> and \<open>/\<close> bind tighter than \<open>+\<close> and \<open>-\<close>, all of them to the left, unary minus tightest), parentheses are only needed
  where they override it, and a comparison is only possible as the condition of an \<open>IF\<close>.
\<close>

theorem i_expression_round_trip:
  assumes "printable e" "\<not> is_compare e"
  shows "parse_i (i_text (words_i 0 e)) = Some (Inr e)"
proof -
  have "expr_words (words_i 0 e) e" using words_levels [OF assms(1)] assms(2) by (simp add: all_levels_def)
  then obtain n where n: "parseExpr n (at_words (words_i 0 e @ [])) = Some (Inr (e, at_words []))"
    unfolding expr_words_def using at_words_Nil by (fastforce simp: mulop_def addop_def dest: spec [of _ "[]"])
  let ?src = "i_text (words_i 0 e)"
  have "?src \<noteq> []"
  proof
    assume "?src = []"
    then have "at_words (words_i 0 e) = at_words []" by (simp add: at_words_def i_text_def)
    moreover have "parseExpr m (at_words []) \<noteq> Some (Inr r)" for m r
      by (cases m; cases "m - 1"; cases "m - 2"; cases "m - 3"; cases "m - 4") (auto simp: at_words_Nil bindP_def)
    ultimately show False using n by simp
  qed
  moreover obtain r where r: "parseExpr (parse_fuel ?src) (lex_next ?src) = Some r"
    using parse_total [of ?src] \<open>?src \<noteq> []\<close> by (auto simp: parse_i_def parseExpression_def split: option.splits)
  then have "r = Inr (e, at_words [])"
    using parseExpr_more [OF r, of "max n (parse_fuel ?src)"] parseExpr_more [OF n, of "max n (parse_fuel ?src)"] by (simp add: at_words_def)
  ultimately show ?thesis using r at_words_Nil by (simp add: parse_i_def parseExpression_def)
qed

theorem i_expression_round_trip_witness:
  "parse_i (i_text (words_i 0 (IBinary CHR ''*'' (IBinary CHR ''+'' (IField 1) (INumber (dbl_of_int 2))) (IUnary CHR ''-'' (IString ''3'')))))
     = Some (Inr (IBinary CHR ''*'' (IBinary CHR ''+'' (IField 1) (INumber (dbl_of_int 2))) (IUnary CHR ''-'' (IString ''3''))))
   \<and> i_text (words_i 0 (IBinary CHR ''*'' (IBinary CHR ''+'' (IField 1) (IField 2)) (IField 3))) = ''( A + B ) * C ''"
proof -
  have "\<exists>k. dbl_of_int 2 = dbl_of_int (int k) \<and> k < 2 ^ 53" by (intro exI [of _ 2]) simp
  moreover have "i_text (words_i 0 (IBinary CHR ''*'' (IBinary CHR ''+'' (IField 1) (IField 2)) (IField 3))) = ''( A + B ) * C ''"
    by code_simp
  ultimately show ?thesis
    using i_expression_round_trip [of "IBinary CHR ''*'' (IBinary CHR ''+'' (IField 1) (INumber (dbl_of_int 2))) (IUnary CHR ''-'' (IString ''3''))"]
    by (simp add: is_compare_def)
qed

section \<open>Integer expressions\<close>

text \<open>A double that is the integer \<open>i\<close>, of either sign for zero.\<close>

definition dbl_rep :: "double \<Rightarrow> int \<Rightarrow> bool" where
  "dbl_rep d i \<longleftrightarrow> exact_int i \<and> (\<exists>s m x. d = DFinite s m x \<and> - 1074 \<le> x \<and> x \<le> 0 \<and> signed_of s m = i * 2 ^ nat (- x))"

lemma rep_of_int:
  assumes "exact_int i"
  shows "dbl_rep (dbl_of_int i) i"
proof -
  obtain m x where d: "dbl_of_int i = DFinite (i < 0) m x" "x \<le> 0" "- 1074 \<le> x" "m = nat \<bar>i\<bar> * 2 ^ nat (- x)"
    using dbl_of_int_finite [OF assms] by blast
  have "signed_of (i < 0) m = i * 2 ^ nat (- x)" unfolding d(4) by (simp add: signed_of_def)
  then show ?thesis using assms d(1-3) unfolding dbl_rep_def by blast
qed

lemma rep_zero: "dbl_rep (dbl_zero s) 0"
  by (simp add: dbl_rep_def dbl_zero_def exact_int_def signed_of_def)

lemma rep_exact: "dbl_rep d i \<Longrightarrow> exact_int i"
  by (simp add: dbl_rep_def)

lemma rep_neg: "dbl_rep d i \<Longrightarrow> dbl_rep (dbl_neg d) (- i)"
  by (auto simp: dbl_rep_def exact_int_def signed_of_def split: if_splits)

lemma signed_mult: "signed_of s (m * k) = signed_of s m * int k"
  by (simp add: signed_of_def)

lemma signed_of_sign: "0 < k \<Longrightarrow> (signed_of b k < 0) = b" "nat \<bar>signed_of b k\<bar> = k"
  by (simp_all add: signed_of_def)

lemma rep_align:
  assumes "signed_of s m = i * 2 ^ nat (- x)" "e \<le> x" "x \<le> 0"
  shows "dbl_align s m x e = i * 2 ^ nat (- e)"
proof -
  have "nat (- e) = nat (- x) + nat (x - e)" using assms(2,3) by simp
  then show ?thesis using assms(1) by (simp only: dbl_align_def signed_mult power_add) simp
qed

lemma rep_add:
  assumes "dbl_rep a i" "dbl_rep b j" "exact_int (i + j)"
  shows "dbl_rep (dbl_add a b) (i + j)"
proof -
  obtain s m x where a: "a = DFinite s m x" "- 1074 \<le> x" "x \<le> 0" "signed_of s m = i * 2 ^ nat (- x)" using assms(1) by (auto simp: dbl_rep_def)
  obtain t n y where b: "b = DFinite t n y" "- 1074 \<le> y" "y \<le> 0" "signed_of t n = j * 2 ^ nat (- y)" using assms(2) by (auto simp: dbl_rep_def)
  let ?v = "dbl_align s m x (min x y) + dbl_align t n y (min x y)"
  have v: "?v = (i + j) * 2 ^ nat (- min x y)"
    using rep_align [OF a(4) _ a(3), of "min x y"] rep_align [OF b(4) _ b(3), of "min x y"] by (simp add: distrib_right)
  have "dbl_round (?v < 0) (nat \<bar>?v\<bar>) 1 (min x y) = dbl_of_int (i + j)" by (rule dbl_of_int_shift [OF v]) (use a(3) in simp)
  then show ?thesis using v rep_zero rep_of_int [OF assms(3)] by (auto simp: a(1) b(1) Let_def)
qed

lemma rep_sub: "dbl_rep a i \<Longrightarrow> dbl_rep b j \<Longrightarrow> exact_int (i - j) \<Longrightarrow> dbl_rep (dbl_sub a b) (i - j)"
  using rep_add [of a i "dbl_neg b" "- j"] rep_neg [of b j] by (simp add: dbl_sub_def)

lemma rep_mul:
  assumes "dbl_rep a i" "dbl_rep b j" "exact_int (i * j)"
  shows "dbl_rep (dbl_mul a b) (i * j)"
proof -
  obtain s m x where a: "a = DFinite s m x" "x \<le> 0" "signed_of s m = i * 2 ^ nat (- x)" using assms(1) by (auto simp: dbl_rep_def)
  obtain t n y where b: "b = DFinite t n y" "y \<le> 0" "signed_of t n = j * 2 ^ nat (- y)" using assms(2) by (auto simp: dbl_rep_def)
  have nn: "nat (- (x + y)) = nat (- x) + nat (- y)" using a(2) b(2) by simp
  have sg: "signed_of (s \<noteq> t) (m * n) = signed_of s m * signed_of t n" by (simp add: signed_of_def)
  also have "\<dots> = (i * j) * 2 ^ nat (- (x + y))" unfolding a(3) b(3) nn by (simp add: power_add)
  finally have v: "signed_of (s \<noteq> t) (m * n) = (i * j) * 2 ^ nat (- (x + y))" .
  show ?thesis
  proof (cases "m * n = 0")
    case True
    then have "signed_of (s \<noteq> t) (m * n) = 0" by (simp only: signed_of_def) simp
    then have "(i * j) * 2 ^ nat (- (x + y)) = 0" using v by (simp only:)
    then have "i * j = 0" by simp
    moreover have "dbl_mul a b = dbl_zero (s \<noteq> t)" using True by (simp only: a(1) b(1) dbl_mul.simps dbl_round_def) simp
    ultimately show ?thesis using rep_zero by (simp only:)
  next
    case False
    note sgn = signed_of_sign [where b = "s \<noteq> t" and k = "m * n"]
    have "dbl_mul a b = dbl_of_int (i * j)" using dbl_of_int_shift [OF v] a(2) b(2) sgn False unfolding a(1) b(1)
      by (simp only: dbl_mul.simps)
    then show ?thesis using rep_of_int [OF assms(3)] by simp
  qed
qed

lemma rep_compare:
  assumes "dbl_rep a i" "dbl_rep b j"
  shows "dbl_less a b \<longleftrightarrow> i < j" "dbl_eq a b \<longleftrightarrow> i = j" "dbl_le a b \<longleftrightarrow> i \<le> j"
proof -
  obtain s m x where a: "a = DFinite s m x" "x \<le> 0" "signed_of s m = i * 2 ^ nat (- x)" using assms(1) by (auto simp: dbl_rep_def)
  obtain t n y where b: "b = DFinite t n y" "y \<le> 0" "signed_of t n = j * 2 ^ nat (- y)" using assms(2) by (auto simp: dbl_rep_def)
  have "dbl_align s m x (min x y) = i * 2 ^ nat (- min x y)" "dbl_align t n y (min x y) = j * 2 ^ nat (- min x y)"
    using rep_align [OF a(3) _ a(2), of "min x y"] rep_align [OF b(3) _ b(2), of "min x y"] by simp_all
  then show "dbl_less a b \<longleftrightarrow> i < j" "dbl_eq a b \<longleftrightarrow> i = j" by (simp_all add: a(1) b(1) Let_def)
  then show "dbl_le a b \<longleftrightarrow> i \<le> j" by (auto simp: dbl_le_def)
qed

lemma rep_format:
  assumes "dbl_rep d i"
  shows "formatNumericResult d = Inr (show_int i)"
proof -
  obtain s m x where d: "d = DFinite s m x" "x \<le> 0" "signed_of s m = i * 2 ^ nat (- x)" using assms by (auto simp: dbl_rep_def)
  have m: "m = nat \<bar>i\<bar> * 2 ^ nat (- x)" using arg_cong [OF d(3), of "\<lambda>k. nat \<bar>k\<bar>"] by (simp add: signed_of_def abs_mult nat_mult_distrib nat_power_eq split: if_splits)
  have "signed_of s (nat \<bar>i\<bar>) * 2 ^ nat (- x) = i * 2 ^ nat (- x)" using d(3) unfolding m by (simp add: signed_mult)
  then have "signed_of s (nat \<bar>i\<bar>) = i" by simp
  then have "dbl_trunc s m x = i" using m d(2) by (auto simp: dbl_trunc_def)
  moreover have "int64 i" using assms by (auto simp: dbl_rep_def exact_int_def int64_def)
  ultimately show ?thesis using m by (simp add: formatNumericResult_def dbl_isfinite_def d(1) checked_int64_def)
qed

text \<open>The value of an expression over the integers; \<open>None\<close> where a value would leave the exact range or an operator is not integral.\<close>

definition exact_only :: "int \<Rightarrow> int option" where
  "exact_only i = (if exact_int i then Some i else None)"

definition literal :: "double \<Rightarrow> int option" where
  "literal d = (case dbl_to_int64 d of Inr i \<Rightarrow> if d = dbl_of_int i then exact_only i else None | Inl _ \<Rightarrow> None)"

definition int_op :: "char \<Rightarrow> int \<Rightarrow> int \<Rightarrow> int option" where
  "int_op op i j = (if op = CHR ''+'' then exact_only (i + j) else if op = CHR ''-'' then exact_only (i - j)
     else if op = CHR ''*'' then exact_only (i * j) else None)"

definition int_compare :: "ICompareOp \<Rightarrow> int \<Rightarrow> int \<Rightarrow> bool" where
  "int_compare op i j = (case op of CmpEq \<Rightarrow> i = j | CmpNe \<Rightarrow> i \<noteq> j | CmpLt \<Rightarrow> i < j | CmpLe \<Rightarrow> i \<le> j | CmpGt \<Rightarrow> j < i | CmpGe \<Rightarrow> j \<le> i)"

function (sequential) i_int :: "(int \<Rightarrow> int option) \<Rightarrow> IExpr \<Rightarrow> int option"
  and i_truth :: "(int \<Rightarrow> int option) \<Rightarrow> IExpr \<Rightarrow> bool option" where
  "i_int f (INumber d) = literal d"
| "i_int f (IField n) = Option.bind (f n) exact_only"
| "i_int f (IUnary op e) = (if op = CHR ''-'' then map_option uminus (i_int f e) else None)"
| "i_int f (IBinary op l r) = Option.bind (i_int f l) (\<lambda>i. Option.bind (i_int f r) (int_op op i))"
| "i_int f (IIf c t e) = Option.bind (i_truth f c) (\<lambda>b. if b then i_int f t else i_int f e)"
| "i_int f e = None"
| "i_truth f (ICompare op l r) = Option.bind (i_int f l) (\<lambda>i. map_option (int_compare op i) (i_int f r))"
| "i_truth f e = map_option (\<lambda>i. i \<noteq> 0) (i_int f e)"
  by pat_completeness auto

termination
  by (relation "measure (case_sum (\<lambda>(f, e). 2 * size e) (\<lambda>(f, e). 2 * size e + 1))") simp_all

definition value_is :: "EvalValue \<Rightarrow> int \<Rightarrow> bool" where
  "value_is v i \<longleftrightarrow> exact_int i \<and> (case v of Numeric d \<Rightarrow> dbl_rep d i | Text t \<Rightarrow> t = show_int i)"

lemma despace_show_int: "map despace (show_int i) = show_int i"
  by (intro map_idI) (auto simp: despace_def isdigit_def code_of_def dest!: show_int_set)

lemma trimmed_show_int: "trimmed (show_int i) = show_int i"
proof -
  have "\<not> isspace c" if "c \<in> set (show_int i)" for c using show_int_set [OF that] by (auto simp: isspace_def isdigit_def code_of_def)
  then show ?thesis unfolding trimmed_def using show_int_not_Nil [of i] by (intro strip_ends) (auto dest: hd_in_set last_in_set)
qed

lemma tryCoerce_show_int: "exact_int i \<Longrightarrow> tryCoerceNumeric (show_int i) = Some (dbl_of_int i)"
  using show_int_not_Nil [of i] strtod_show_int [of i]
  by (simp add: tryCoerceNumeric_def trimmed_show_int despace_show_int stod_opt_def stod_def Let_def)

lemma value_numeric: "value_is x i \<Longrightarrow> \<exists>d. evaluateNumeric (someO x) = someO d \<and> dbl_rep d i"
  by (auto simp: value_is_def evaluateNumeric_def tryCoerce_show_int rep_of_int split: EvalValue.splits)

lemma value_text: "value_is x i \<Longrightarrow> evalValueToString x = Inr (show_int i)"
  by (auto simp: value_is_def evalValueToString_def rep_format split: EvalValue.splits)

lemma exact_only_Some: "exact_only i = Some j \<longleftrightarrow> j = i \<and> exact_int i"
  by (auto simp: exact_only_def)

lemma compare_rep: "dbl_rep a i \<Longrightarrow> dbl_rep b j \<Longrightarrow> compare_doubles op a b = int_compare op i j"
  by (cases op) (auto simp: compare_doubles_def int_compare_def rep_compare)

lemma compare_values:
  assumes "value_is x i" "value_is y j"
  shows "compareEvalValues x y op = Inr (int_compare op i j)"
proof -
  have e: "exact_int i" "exact_int j" using assms by (simp_all add: value_is_def)
  have "compare_doubles op (dbl_of_int i) (dbl_of_int j) = int_compare op i j" using compare_rep rep_of_int e by blast
  then show ?thesis using assms value_text [OF assms(1)] value_text [OF assms(2)] tryCoerce_show_int [OF e(1)] tryCoerce_show_int [OF e(2)]
    by (auto simp: compareEvalValues_def value_is_def compare_rep split: EvalValue.splits)
qed

lemma binary_int:
  assumes "dbl_rep a i" "dbl_rep b j" "int_op op i j = Some k"
  shows "\<exists>x. evaluate_binary op a b = someO x \<and> value_is x k"
  using assms rep_add [OF assms(1,2)] rep_sub [OF assms(1,2)] rep_mul [OF assms(1,2)]
  by (auto simp: int_op_def evaluate_binary_def value_is_def exact_only_Some split: if_splits)

lemma truth_other: "\<not> is_compare e \<Longrightarrow> i_truth f e = map_option (\<lambda>i. i \<noteq> 0) (i_int f e)"
  "\<not> is_compare e \<Longrightarrow> evaluateCondition sr e = bindO (evaluateNumeric (evaluateValue sr e)) (\<lambda>n. someO (\<not> dbl_eq n (dbl_zero False)))"
  by (cases e; simp add: is_compare_def)+

definition computes_value :: "(int \<Rightarrow> int option) \<Rightarrow> StructuredRecord \<Rightarrow> IExpr \<Rightarrow> bool" where
  "computes_value f sr e \<longleftrightarrow> (\<forall>v. i_int f e = Some v \<longrightarrow> (\<exists>x. evaluateValue sr e = someO x \<and> value_is x v))"

definition computes_truth :: "(int \<Rightarrow> int option) \<Rightarrow> StructuredRecord \<Rightarrow> IExpr \<Rightarrow> bool" where
  "computes_truth f sr e \<longleftrightarrow> (\<forall>b. i_truth f e = Some b \<longrightarrow> evaluateCondition sr e = someO b)"

lemma truth_of_value:
  assumes "\<not> is_compare e" "computes_value f sr e"
  shows "computes_value f sr e \<and> computes_truth f sr e"
  unfolding computes_truth_def
proof (intro conjI assms(2) allI impI)
  fix b assume "i_truth f e = Some b"
  then obtain i where i: "i_int f e = Some i" "b = (i \<noteq> 0)" using assms(1) truth_other(1) by auto
  then obtain x where x: "evaluateValue sr e = someO x" "value_is x i" using assms(2) computes_value_def by blast
  then obtain d where "evaluateNumeric (someO x) = someO d" "dbl_rep d i" using value_numeric by blast
  then show "evaluateCondition sr e = someO b"
    using i(2) x(1) rep_compare(2) [OF _ rep_zero, of d i False] truth_other(2) [OF assms(1)] by simp
qed

lemma binary_value:
  assumes "computes_value f sr l" "computes_value f sr r"
  shows "computes_value f sr (IBinary op l r)"
  unfolding computes_value_def
proof (intro allI impI)
  fix v assume "i_int f (IBinary op l r) = Some v"
  then obtain i j where ij: "i_int f l = Some i" "i_int f r = Some j" "int_op op i j = Some v" by (auto simp: bind_eq_Some_conv)
  obtain x y where xy: "evaluateValue sr l = someO x" "value_is x i" "evaluateValue sr r = someO y" "value_is y j"
    using assms ij(1,2) unfolding computes_value_def by blast
  obtain a b where "evaluateNumeric (someO x) = someO a" "dbl_rep a i" "evaluateNumeric (someO y) = someO b" "dbl_rep b j"
    using value_numeric [OF xy(2)] value_numeric [OF xy(4)] by blast
  then show "\<exists>x. evaluateValue sr (IBinary op l r) = someO x \<and> value_is x v" using binary_int ij(3) xy by simp
qed

lemma compare_truth:
  assumes "computes_value f sr l" "computes_value f sr r"
  shows "computes_truth f sr (ICompare op l r)"
  unfolding computes_truth_def
proof (intro allI impI)
  fix b assume "i_truth f (ICompare op l r) = Some b"
  then obtain i j where ij: "i_int f l = Some i" "i_int f r = Some j" "b = int_compare op i j" by (auto simp: bind_eq_Some_conv)
  obtain x y where "evaluateValue sr l = someO x" "value_is x i" "evaluateValue sr r = someO y" "value_is y j"
    using assms ij(1,2) unfolding computes_value_def by blast
  then show "evaluateCondition sr (ICompare op l r) = someO b" using compare_values ij(3) by simp
qed

lemma unary_value:
  assumes "computes_value f sr e"
  shows "computes_value f sr (IUnary op e)"
  unfolding computes_value_def
proof (intro allI impI)
  fix v assume "i_int f (IUnary op e) = Some v"
  then obtain i where i: "i_int f e = Some i" "v = - i" "op = CHR ''-''" by (auto split: if_splits)
  then obtain x where x: "evaluateValue sr e = someO x" "value_is x i" using assms computes_value_def by blast
  then obtain d where "evaluateNumeric (someO x) = someO d" "dbl_rep d i" using value_numeric by blast
  then show "\<exists>x. evaluateValue sr (IUnary op e) = someO x \<and> value_is x v"
    using i x(1) rep_neg [of d i] rep_exact by (intro exI [of _ "Numeric (dbl_neg d)"]) (simp add: value_is_def)
qed

lemma eval_int:
  assumes f: "\<And>n k. f n = Some k \<Longrightarrow> fieldCellText sr n = show_int k"
  shows "computes_value f sr e \<and> computes_truth f sr e"
proof (induction e)
  case (INumber d)
  have "computes_value f sr (INumber d)"
    by (auto simp: computes_value_def literal_def exact_only_Some value_is_def rep_of_int split: sum.splits if_splits)
  then show ?case by (rule truth_of_value [rotated]) (simp add: is_compare_def)
next
  case (IField n)
  have "computes_value f sr (IField n)" using f by (auto simp: computes_value_def exact_only_Some value_is_def bind_eq_Some_conv)
  then show ?case by (rule truth_of_value [rotated]) (simp add: is_compare_def)
next
  case (IUnary op e)
  then show ?case using unary_value by (intro truth_of_value) (auto simp: is_compare_def)
next
  case (IBinary op l r)
  then show ?case using binary_value by (intro truth_of_value) (auto simp: is_compare_def)
next
  case (ICompare op l r)
  then show ?case using compare_truth by (auto simp: computes_value_def [of _ _ "ICompare op l r"])
next
  case (IIf c t e)
  have "computes_value f sr (IIf c t e)"
    using IIf by (auto simp: computes_value_def computes_truth_def bind_eq_Some_conv split: if_splits)
  then show ?case by (rule truth_of_value [rotated]) (simp add: is_compare_def)
qed (intro truth_of_value; simp add: is_compare_def computes_value_def)+

text \<open>
  C16. An I-type field over integer cells is computed exactly: wherever the expression has a value over the integers with
  every intermediate result below 2^53 in absolute value, the cell of the field is the decimal text of that value.
\<close>

theorem integer_field_exact:
  assumes "field_kind ref = ICorrelativeKind" "iCorrelative ref = Some d"
    and "\<And>n k. f n = Some k \<Longrightarrow> fieldCellText sr n = show_int k" "i_int f (i_expression d) = Some v"
  shows "evaluateFieldCell ref sr = Inr (show_int v)"
proof -
  obtain x where "evaluateValue sr (i_expression d) = someO x" "value_is x v"
    using eval_int [OF assms(3)] assms(4) unfolding computes_value_def by blast
  then show ?thesis using value_text by (simp add: evaluateFieldCell_def assms(1,2) evaluateI_def evaluate_def or_empty_def someO_def)
qed

lemma literal_of_int:
  assumes "exact_int i"
  shows "literal (dbl_of_int i) = Some i"
proof -
  obtain m x where d: "dbl_of_int i = DFinite (i < 0) m x" "x \<le> 0" "m = nat \<bar>i\<bar> * 2 ^ nat (- x)"
    using dbl_of_int_finite [OF assms] by blast
  have "dbl_trunc (i < 0) m x = i" using d(2,3) by (auto simp: dbl_trunc_def signed_of_def)
  moreover have "int64 i" using assms by (auto simp: exact_int_def int64_def)
  ultimately have "dbl_to_int64 (dbl_of_int i) = Inr i" by (simp add: d(1) checked_int64_def)
  then show ?thesis using assms by (simp add: literal_def exact_only_def)
qed

definition price_item :: ICorrelativeDef where
  "price_item = \<lparr>expressionRaw = ''IF A > 10 THEN A * B ELSE - B'',
     i_expression = IIf (ICompare CmpGt (IField 1) (INumber (dbl_of_int 10))) (IBinary CHR ''*'' (IField 1) (IField 2)) (IUnary CHR ''-'' (IField 2))\<rparr>"

theorem integer_field_exact_witness:
  "evaluateFieldCell ((makeUnresolvedRef ''P'')\<lparr>field_kind := ICorrelativeKind, iCorrelative := Some price_item\<rparr>) (fromRaw ''12\<newline>-7'') = Inr ''-84''"
proof -
  let ?f = "[1 \<mapsto> 12, 2 \<mapsto> - 7] :: int \<Rightarrow> int option" and ?r = "(makeUnresolvedRef ''P'')\<lparr>field_kind := ICorrelativeKind, iCorrelative := Some price_item\<rparr>"
  have c: "fieldCellText (fromRaw ''12\<newline>-7'') 1 = show_int 12" "fieldCellText (fromRaw ''12\<newline>-7'') 2 = show_int (- 7)" by code_simp+
  have "literal (dbl_of_int 10) = Some 10" by (rule literal_of_int) (simp add: exact_int_def)
  then have "i_int ?f (i_expression price_item) = Some (- 84)"
    by (simp add: price_item_def exact_only_def exact_int_def int_op_def int_compare_def)
  moreover have "show_int (- 84) = ''-84''" by code_simp
  moreover have "fieldCellText (fromRaw ''12\<newline>-7'') n = show_int k" if "?f n = Some k" for n k using that c by (auto split: if_splits)
  ultimately show ?thesis using integer_field_exact [of ?r price_item ?f "fromRaw ''12\<newline>-7''" "- 84"] by simp
qed

text \<open>A comma is turned into a space, where the conversion to a number stops: the digits behind it are lost.\<close>

lemma grouped_digits_lost: "tryCoerceNumeric ''1,234'' = Some (dbl_of_int 1)"
proof -
  have "trimmed ''1,234'' = ''1,234''" "trimmed (map despace ''1,234'') = ''1 234''" by code_simp+
  moreover have "take_sign (dropWhile isspace ''1 234'') = (False, ''1 234'')" "\<not> starts_with_ci ''infinity'' ''1 234''"
    "\<not> starts_with_ci ''inf'' ''1 234''" "\<not> starts_with_ci ''nan'' ''1 234''" "\<not> starts_with_ci ''0x'' ''1 234''" by code_simp+
  moreover have "scan_mantissa isdigit ''1 234'' = Some (''1'', [], '' 234'')" "scan_exponent CHR ''e'' '' 234'' = (0, '' 234'')"
    "nat_of_digits ''1'' = 1" by code_simp+
  ultimately show ?thesis
    by (simp add: tryCoerceNumeric_def stod_opt_def stod_def strtod_def strtod_decimal_def dbl_convert_int dbl_of_int_def)
qed

section \<open>Synonyms\<close>

text \<open>The item of a name is a synonym for another name.\<close>

definition synonym :: "host \<Rightarrow> FileSystem \<Rightarrow> world \<Rightarrow> string \<Rightarrow> string \<Rightarrow> string \<Rightarrow> bool" where
  "synonym h fs w file a b \<longleftrightarrow> parsePositiveInt a = Inr None \<and> b \<noteq> [] \<and>
     (\<exists>rec. dict_item h fs w a file = Inr (Some rec) \<and>
        firstValue (attribute (recStructured rec) 1) \<in> {''S'', ''s''} \<and> firstValue (attribute (recStructured rec) 2) = b)"

definition proper_item :: "host \<Rightarrow> FileSystem \<Rightarrow> world \<Rightarrow> string \<Rightarrow> string \<Rightarrow> StructuredRecord \<Rightarrow> bool" where
  "proper_item h fs w file a sr \<longleftrightarrow> parsePositiveInt a = Inr None \<and>
     (\<exists>rec. dict_item h fs w a file = Inr (Some rec) \<and> recStructured rec = sr \<and> firstValue (attribute sr 1) \<notin> {''S'', ''s''})"

lemma resolve_synonym:
  "synonym h fs w file a b \<Longrightarrow> d \<le> 16 \<Longrightarrow> resolveFieldRec h fs w ot a d file = resolveFieldRec h fs w ot b (d + 1) file"
  by (subst resolveFieldRec.simps) (auto simp: synonym_def Let_def)

lemma resolve_chain:
  assumes "\<And>i. i < k \<Longrightarrow> synonym h fs w file (c i) (c (Suc i))" "k \<le> 17"
  shows "resolveFieldRec h fs w ot (c 0) 0 file = resolveFieldRec h fs w ot (c k) k file"
  using assms
proof (induction k)
  case (Suc k)
  then have "resolveFieldRec h fs w ot (c 0) 0 file = resolveFieldRec h fs w ot (c k) k file" by simp
  also have "\<dots> = resolveFieldRec h fs w ot (c (Suc k)) (k + 1) file" using Suc(2,3) by (intro resolve_synonym) auto
  finally show ?case by simp
qed simp

text \<open>
  C17. A name that is a synonym of a synonym and so on, over at most sixteen steps, resolves to the field of the item at
  the end of the chain, under its own name.  A longer chain, and so every cycle of synonyms, does not
  hang the resolution: the name is unresolved.
\<close>

theorem synonyms_resolve:
  assumes "\<And>i. i < k \<Longrightarrow> synonym h fs w file (c i) (c (Suc i))"
  shows "(k \<le> 16 \<and> proper_item h fs w file (c k) sr \<and> fieldFromStructuredDict sr (c 0) = Inr (Some r) \<longrightarrow>
      resolveField h fs w file (c 0) = Inr r) \<and>
    (16 < k \<longrightarrow> resolveField h fs w file (c 0) = Inr (makeUnresolvedRef (c 0)))"
proof (intro conjI impI)
  assume a: "k \<le> 16 \<and> proper_item h fs w file (c k) sr \<and> fieldFromStructuredDict sr (c 0) = Inr (Some r)"
  then have "resolveFieldRec h fs w (c 0) (c k) k file = Inr (Some r)"
    by (subst resolveFieldRec.simps) (auto simp: proper_item_def Let_def)
  then show "resolveField h fs w file (c 0) = Inr r" using resolve_chain [where k = k and c = c, OF assms] a by (simp add: resolveField_def)
next
  assume "16 < k"
  then have "resolveFieldRec h fs w (c 0) (c 0) 0 file = resolveFieldRec h fs w (c 0) (c 17) 17 file"
    using assms by (intro resolve_chain) auto
  also have "\<dots> = Inr None" by (subst resolveFieldRec.simps) simp
  finally show "resolveField h fs w file (c 0) = Inr (makeUnresolvedRef (c 0))" by (simp add: resolveField_def)
qed

definition dict_world :: world where
  "dict_world = \<lparr>disk = [([''db''], Dir), ([''db'', ''DICT''], Dir), ([''db'', ''DICT-ORD''], Dir),
     ([''db'', ''DICT'', ''QTY.item''], File ''A\<newline>3''), ([''db'', ''DICT'', ''Q.item''], File ''S\<newline>Q''),
     ([''db'', ''DICT-ORD'', ''NUM.item''], File ''S\<newline>QTY'')], lock_table = [], now = 0\<rparr>"

theorem synonyms_resolve_witness:
  "resolveField good_host (sample_fs ''S1'') dict_world ''ORD'' ''NUM'' = Inr (makeAttributeRef ''NUM'' (Some 3) NoConversion) \<and>
   resolveField good_host (sample_fs ''S1'') dict_world ''ORD'' ''Q'' = Inr (makeUnresolvedRef ''Q'')"
proof -
  let ?h = good_host and ?fs = "sample_fs ''S1''" and ?w = dict_world
  have i: "dict_item ?h ?fs ?w ''NUM'' ''ORD'' = Inr (Some (mkRecord ''NUM'' ''S\<newline>QTY''))"
    "dict_item ?h ?fs ?w ''QTY'' ''ORD'' = Inr (Some (mkRecord ''QTY'' ''A\<newline>3''))"
    "dict_item ?h ?fs ?w ''Q'' ''ORD'' = Inr (Some (mkRecord ''Q'' ''S\<newline>Q''))" by code_simp+
  have p: "parsePositiveInt ''NUM'' = Inr None" "parsePositiveInt ''QTY'' = Inr None" "parsePositiveInt ''Q'' = Inr None" by code_simp+
  have v: "firstValue (attribute (recStructured (mkRecord ''NUM'' ''S\<newline>QTY'')) 1) = ''S''" "firstValue (attribute (recStructured (mkRecord ''NUM'' ''S\<newline>QTY'')) 2) = ''QTY''"
    "firstValue (attribute (recStructured (mkRecord ''Q'' ''S\<newline>Q'')) 1) = ''S''" "firstValue (attribute (recStructured (mkRecord ''Q'' ''S\<newline>Q'')) 2) = ''Q''"
    "firstValue (attribute (recStructured (mkRecord ''QTY'' ''A\<newline>3'')) 1) = ''A''" by code_simp+
  have s: "synonym ?h ?fs ?w ''ORD'' ''NUM'' ''QTY''" "synonym ?h ?fs ?w ''ORD'' ''Q'' ''Q''" by (simp_all add: synonym_def i p v)
  have "proper_item ?h ?fs ?w ''ORD'' ''QTY'' (recStructured (mkRecord ''QTY'' ''A\<newline>3''))" by (simp add: proper_item_def i p v)
  moreover have "fieldFromStructuredDict (recStructured (mkRecord ''QTY'' ''A\<newline>3'')) ''NUM'' = Inr (Some (makeAttributeRef ''NUM'' (Some 3) NoConversion))"
    by code_simp
  ultimately have "resolveField ?h ?fs ?w ''ORD'' ''NUM'' = Inr (makeAttributeRef ''NUM'' (Some 3) NoConversion)"
    using synonyms_resolve [of 1 ?h ?fs ?w "''ORD''" "\<lambda>i. if i = 0 then ''NUM'' else ''QTY''"] s(1) by simp
  moreover have "resolveField ?h ?fs ?w ''ORD'' ''Q'' = Inr (makeUnresolvedRef ''Q'')"
    using synonyms_resolve [of 17 ?h ?fs ?w "''ORD''" "\<lambda>_. ''Q''"] s(2) by simp
  ultimately show ?thesis by simp
qed

end
