(* ===== verification/English.thy ===== *)
theory English
  imports Correlatives
begin

text \<open>
  The ENGLISH query processor (\<open>src/core/english\<close>): \<open>EnglishParser\<close> turns the words of a command into a \<open>Query\<close>,
  \<open>Executor\<close> reads the records and produces one \<open>Row\<close> each, sorted for \<open>SORT\<close>, and \<open>Formatter\<close> lays the rows out as
  lines with headings, footings, break lines, totals and pages.  \<open>EnglishService::run\<close> is the composition.  The clock is
  a parameter of the report (\<open>FormatterContext\<close>), as it is in the code.

  \<open>std::stable_sort\<close> is insertion sort: wherever the comparison is a strict weak order, the stable sorted permutation is
  unique, and the standard promises nothing elsewhere.
\<close>

section \<open>Queries\<close>

datatype Verb = LIST | COUNT | SELECT | SORT

record SortKeySpec =
  fieldToken :: string
  descending :: bool

record Query =
  verb :: Verb
  q_fileName :: string
  q_fields :: "string list"
  sortKeys :: "SortKeySpec list"
  heading :: "string option"
  breakOnField :: "string option"
  totalField :: "string option"
  idSupp :: bool
  footing :: "string option"

record ParseContext =
  implicitFile :: bool
  imposedFileName :: "string option"

definition ieq :: "string \<Rightarrow> string \<Rightarrow> bool" where
  "ieq a b \<longleftrightarrow> length a = length b \<and> lowerCopy a = lowerCopy b"

definition isBy :: "string \<Rightarrow> bool" where "isBy t = ieq t ''BY''"

definition isByDsnd :: "string \<Rightarrow> bool" where "isByDsnd t = ieq t ''BY-DSND''"

definition isWith :: "string \<Rightarrow> bool" where "isWith t = ieq t ''WITH''"

definition isHeading :: "string \<Rightarrow> bool" where "isHeading t = ieq t ''HEADING''"

definition isFooting :: "string \<Rightarrow> bool" where "isFooting t = ieq t ''FOOTING''"

definition isBreakOn :: "string \<Rightarrow> bool" where "isBreakOn t = ieq t ''BREAK-ON''"

definition isTotal :: "string \<Rightarrow> bool" where "isTotal t = ieq t ''TOTAL''"

definition isIdSupp :: "string \<Rightarrow> bool" where "isIdSupp t = ieq t ''ID-SUPP''"

definition isStructuralKeyword :: "string \<Rightarrow> bool" where
  "isStructuralKeyword t \<longleftrightarrow> isBy t \<or> isByDsnd t \<or> isWith t \<or> isHeading t \<or> isFooting t \<or> isBreakOn t \<or> isTotal t \<or> isIdSupp t"

definition verbFrom :: "string \<Rightarrow> Verb option" where
  "verbFrom t = (if ieq t ''LIST'' then Some LIST else if ieq t ''COUNT'' then Some COUNT
     else if ieq t ''SELECT'' then Some SELECT else if ieq t ''SORT'' then Some SORT else None)"

fun parseSortSection :: "bool \<Rightarrow> string list \<Rightarrow> string + SortKeySpec list" where
  "parseSortSection nextDesc [] = (if nextDesc then Inl ''BY-DSND without following field'' else Inr [])"
| "parseSortSection nextDesc (t # ts) =
     (if isBy t then parseSortSection nextDesc ts
      else if isByDsnd t then parseSortSection True ts
      else if t = [] then Inl ''Empty BY field''
      else bindE (parseSortSection False ts) (\<lambda>ks. Inr (\<lparr>fieldToken = t, descending = nextDesc\<rparr> # ks)))"

text \<open>The loop that takes the formatting clauses out of the words behind the verb; the query carries what was found.\<close>

fun strip_clauses :: "Query \<Rightarrow> string list \<Rightarrow> string + Query \<times> string list" where
  "strip_clauses q [] = Inr (q, [])"
| "strip_clauses q (t # ts) =
     (if isHeading t then
        (if heading q \<noteq> None then Inl ''HEADING can only appear once''
         else case ts of
                [] \<Rightarrow> Inl ''HEADING requires a quoted string''
              | a # r \<Rightarrow> if isStructuralKeyword a then Inl ''HEADING requires a quoted string''
                         else strip_clauses (q\<lparr>heading := Some a\<rparr>) r)
      else if isFooting t then
        (if footing q \<noteq> None then Inl ''FOOTING can only appear once''
         else case ts of
                [] \<Rightarrow> Inl ''FOOTING requires a quoted string''
              | a # r \<Rightarrow> if isStructuralKeyword a then Inl ''FOOTING requires a quoted string''
                         else strip_clauses (q\<lparr>footing := Some a\<rparr>) r)
      else if isBreakOn t then
        (if breakOnField q \<noteq> None then Inl ''BREAK-ON can only appear once''
         else case ts of
                [] \<Rightarrow> Inl ''BREAK-ON requires a field''
              | a # r \<Rightarrow> if isStructuralKeyword a then Inl ''BREAK-ON requires a field''
                         else strip_clauses (q\<lparr>breakOnField := Some a\<rparr>) r)
      else if isTotal t then
        (if totalField q \<noteq> None then Inl ''TOTAL can only appear once''
         else case ts of
                [] \<Rightarrow> Inl ''TOTAL requires a field''
              | a # r \<Rightarrow> if isStructuralKeyword a then Inl ''TOTAL requires a field''
                         else strip_clauses (q\<lparr>totalField := Some a\<rparr>) r)
      else if isIdSupp t then
        (if idSupp q then Inl ''ID-SUPP can only appear once'' else strip_clauses (q\<lparr>idSupp := True\<rparr>) ts)
      else bindE (strip_clauses q ts) (\<lambda>(q', r). Inr (q', t # r)))"

definition empty_query :: "Verb \<Rightarrow> Query" where
  "empty_query v = \<lparr>verb = v, q_fileName = [], q_fields = [], sortKeys = [], heading = None, breakOnField = None,
     totalField = None, idSupp = False, footing = None\<rparr>"

text \<open>The words behind the file name: projection, an ignored \<open>WITH\<close> part, and the \<open>BY\<close> section.\<close>

definition parse_rest :: "Query \<Rightarrow> string list \<Rightarrow> string + Query" where
  "parse_rest q ts =
     (let proj = takeWhile (\<lambda>t. \<not> isBy t) ts; by_part = dropWhile (\<lambda>t. \<not> isBy t) ts; sawByClause = (by_part \<noteq> [])
      in if sawByClause \<and> verb q \<noteq> SORT then Inl ''BY is only valid with SORT''
         else let q1 = q\<lparr>q_fields := takeWhile (\<lambda>t. \<not> isWith t) proj\<rparr>
              in if verb q = SORT \<and> sawByClause
                 then bindE (parseSortSection False by_part) (\<lambda>ks. Inr (q1\<lparr>sortKeys := ks\<rparr>))
                 else Inr q1)"

definition imposed :: "ParseContext \<Rightarrow> string option" where
  "imposed ctx = (case imposedFileName ctx of Some f \<Rightarrow> if f = [] then None else Some f | None \<Rightarrow> None)"

definition parse_english :: "string list \<Rightarrow> ParseContext \<Rightarrow> string + Query" where
  "parse_english rawTokens ctx = (case rawTokens of
     [] \<Rightarrow> Inl ''Empty query''
   | t0 # raw_rest \<Rightarrow> (case verbFrom t0 of
       None \<Rightarrow> Inl ''Unsupported ENGLISH verb''
     | Some v \<Rightarrow> bindE (strip_clauses (empty_query v) raw_rest) (\<lambda>(q, ts).
         if v = COUNT \<and> ts = [] then
           (case (implicitFile ctx, imposed ctx) of
              (True, Some f) \<Rightarrow> Inr (q\<lparr>q_fileName := f\<rparr>)
            | _ \<Rightarrow> Inl ''COUNT requires filename or active-list scope'')
         else if implicitFile ctx then
           (case imposed ctx of
              None \<Rightarrow> Inl ''Internal: implicit scope requires imposed filename''
            | Some f \<Rightarrow> parse_rest (q\<lparr>q_fileName := f\<rparr>) ts)
         else (case ts of
              [] \<Rightarrow> Inl ''Command requires filename''
            | f # r \<Rightarrow> if f = [] then Inl ''Filename must be non-empty'' else parse_rest (q\<lparr>q_fileName := f\<rparr>) r))))"

section \<open>Rows\<close>

record Row =
  row_id :: string
  projectedFields :: "string list"
  breakKey :: string
  totalAddend :: double
  headingAttrs :: "string list"

record EnglishRunOptions =
  constrainRecordIds :: "string list option"
  opt_pageLength :: "int option"

datatype KeyPart = StringKey string | NumberKey double

definition tryParseNumeric :: "string \<Rightarrow> double option" where
  "tryParseNumeric txt = (let s = trimmed (map despace (trimmed txt)) in if s = [] then None else stod_opt s)"

definition makeSortPart :: "string \<Rightarrow> ConversionCode \<Rightarrow> KeyPart" where
  "makeSortPart t conv = (if conv = NoConversion then StringKey t
     else case tryParseNumeric t of Some n \<Rightarrow> NumberKey n | None \<Rightarrow> StringKey t)"

text \<open>A number part has the empty string in its \<open>str\<close> member, which mixed comparisons use.\<close>

definition key_str :: "KeyPart \<Rightarrow> string" where
  "key_str p = (case p of StringKey t \<Rightarrow> t | NumberKey _ \<Rightarrow> [])"

definition comparePartsAsc :: "KeyPart \<Rightarrow> KeyPart \<Rightarrow> int" where
  "comparePartsAsc a b = (case (a, b) of
     (NumberKey x, NumberKey y) \<Rightarrow> if dbl_less x y then - 1 else if dbl_less y x then 1 else 0
   | _ \<Rightarrow> if key_str a < key_str b then - 1 else if key_str b < key_str a then 1 else 0)"

definition comparePartsWithDesc :: "KeyPart \<Rightarrow> KeyPart \<Rightarrow> bool \<Rightarrow> int" where
  "comparePartsWithDesc a b desc = (let c = comparePartsAsc a b in if desc then - c else c)"

definition materializeProjection :: "Record option \<Rightarrow> FieldRef list \<Rightarrow> string list result" where
  "materializeProjection rec refs = (case rec of None \<Rightarrow> Inr []
     | Some r \<Rightarrow> mapE (\<lambda>f. evaluateFieldCell f (recStructured r)) refs)"

text \<open>\<open>materializeBreakKey\<close> and \<open>materializeTotalCell\<close>.\<close>

definition materializeCell :: "Record option \<Rightarrow> FieldRef \<Rightarrow> string result" where
  "materializeCell rec ref = (case rec of None \<Rightarrow> Inr [] | Some r \<Rightarrow> evaluateFieldCell ref (recStructured r))"

definition alnum :: "char \<Rightarrow> bool" where
  "alnum c \<longleftrightarrow> isalpha c \<or> isdigit c"

text \<open>The scan for \<open>@\<close> tokens that \<open>maxTemplateAttributeIndex\<close> and \<open>renderReportTemplate\<close> share: literal text and tokens.\<close>

datatype piece = Literal char | AtToken string

function template_pieces :: "string \<Rightarrow> piece list" where
  "template_pieces [] = []"
| "template_pieces (c # s) =
     (if c \<noteq> CHR ''@'' then Literal c # template_pieces s
      else case s of
             [] \<Rightarrow> [Literal CHR ''@'']
           | d # r \<Rightarrow>
               if d = CHR ''@'' then Literal CHR ''@'' # template_pieces r
               else if \<not> alnum d then Literal CHR ''@'' # template_pieces s
               else AtToken (takeWhile alnum s) # template_pieces (dropWhile alnum s))"
  by pat_completeness auto

termination
  by (relation "measure length") (auto simp: less_Suc_eq_le intro: le_SucI length_dropWhile_le)

definition attr_index :: "string \<Rightarrow> int option" where
  "attr_index tok = (if list_all isdigit tok then (case stoi tok of Inr (n, _) \<Rightarrow> Some n | Inl _ \<Rightarrow> None) else None)"

definition maxTemplateAttributeIndex :: "string \<Rightarrow> int" where
  "maxTemplateAttributeIndex tpl = foldl (\<lambda>m p. case p of
     AtToken tok \<Rightarrow> (case attr_index tok of Some n \<Rightarrow> max m n | None \<Rightarrow> m) | Literal _ \<Rightarrow> m) 0 (template_pieces tpl)"

definition materializeHeadingAttrs :: "Record \<Rightarrow> int \<Rightarrow> string list" where
  "materializeHeadingAttrs rec maxAttr = map (\<lambda>n. if hasAttribute (recStructured rec) n then firstValue (attribute (recStructured rec) n) else [])
     [1..maxAttr]"

definition materializeSortKeys :: "Record \<Rightarrow> FieldRef list \<Rightarrow> KeyPart list result" where
  "materializeSortKeys rec refs =
     mapE (\<lambda>ref. bindE (evaluateFieldCell ref (recStructured rec)) (\<lambda>cell. Inr (makeSortPart cell (conversion ref)))) refs"

definition firstUnresolvedFieldError :: "FieldRef list \<Rightarrow> string \<Rightarrow> string option" where
  "firstUnresolvedFieldError refs dataFile = (case find (\<lambda>r. \<not> fieldRefIsResolved r) refs of
     None \<Rightarrow> None
   | Some r \<Rightarrow> Some (''Unknown ENGLISH field '' @ [DQ] @ ref_token r @ [DQ] @ '' (not in '' @ scopedDictLogicalName dataFile @ '' nor DICT)''))"

definition catch_what :: "'a result \<Rightarrow> 'a optE" where
  "catch_what r = (case r of Inr x \<Rightarrow> someO x | Inl e \<Rightarrow> if is_std_exception e then noneO (error_what e) else Inl e)"

definition resolve_clause :: "host \<Rightarrow> FileSystem \<Rightarrow> world \<Rightarrow> string \<Rightarrow> string option \<Rightarrow> FieldRef option optE" where
  "resolve_clause h fs w fn clause = (case clause of
     None \<Rightarrow> someO None
   | Some t \<Rightarrow> bindE (resolveField h fs w fn t) (\<lambda>ref. case firstUnresolvedFieldError [ref] fn of
       Some e \<Rightarrow> noneO e | None \<Rightarrow> someO (Some ref)))"

definition make_row :: "FieldRef list \<Rightarrow> FieldRef option \<Rightarrow> FieldRef option \<Rightarrow> int \<Rightarrow> string \<Rightarrow> Record option \<Rightarrow> Row result" where
  "make_row refs breakRef totalRef maxAttr rid rec =
     bindE (materializeProjection rec refs) (\<lambda>ps.
     bindE (case breakRef of None \<Rightarrow> Inr [] | Some b \<Rightarrow> materializeCell rec b) (\<lambda>bk.
     bindE (case totalRef of None \<Rightarrow> Inr (dbl_zero False) | Some t \<Rightarrow> bindE (materializeCell rec t) (\<lambda>cell.
       Inr (case tryParseNumeric cell of Some v \<Rightarrow> v | None \<Rightarrow> dbl_zero False))) (\<lambda>ta.
       Inr \<lparr>row_id = rid, projectedFields = ps, breakKey = bk, totalAddend = ta,
         headingAttrs = (case rec of Some r \<Rightarrow> if 0 < maxAttr then materializeHeadingAttrs r maxAttr else [] | None \<Rightarrow> [])\<rparr>)))"

section \<open>Sorting\<close>

fun stable_insert :: "('a \<Rightarrow> 'a \<Rightarrow> bool) \<Rightarrow> 'a \<Rightarrow> 'a list \<Rightarrow> 'a list" where
  "stable_insert cmp x [] = [x]"
| "stable_insert cmp x (y # ys) = (if cmp y x then y # stable_insert cmp x ys else x # y # ys)"

definition stable_sort :: "('a \<Rightarrow> 'a \<Rightarrow> bool) \<Rightarrow> 'a list \<Rightarrow> 'a list" where
  "stable_sort cmp xs = foldr (stable_insert cmp) xs []"

text \<open>\<open>cmpRows\<close> on the keys and ids of two rows; a missing entry of \<open>sortDesc\<close> is ascending.\<close>

fun key_order :: "bool list \<Rightarrow> KeyPart list \<Rightarrow> KeyPart list \<Rightarrow> int" where
  "key_order ds (a # as) (b # bs) =
     (let c = comparePartsWithDesc a b (case ds of d # _ \<Rightarrow> d | [] \<Rightarrow> False) in if c \<noteq> 0 then c else key_order (tl ds) as bs)"
| "key_order ds as bs = 0"

definition cmpRows :: "bool list \<Rightarrow> KeyPart list \<times> string \<Rightarrow> KeyPart list \<times> string \<Rightarrow> bool" where
  "cmpRows ds a b = (let c = key_order ds (fst a) (fst b) in if c \<noteq> 0 then c < 0 else snd a < snd b)"

definition row_keys :: "FieldRef list \<Rightarrow> string \<Rightarrow> Record option \<Rightarrow> KeyPart list result" where
  "row_keys sortRefs rid rec =
     (if sortRefs = [] then Inr [StringKey rid]
      else case rec of Some r \<Rightarrow> materializeSortKeys r sortRefs | None \<Rightarrow> Inr (replicate (length sortRefs) (StringKey [])))"

definition sort_rows :: "bool list \<Rightarrow> (KeyPart list \<times> Row) list \<Rightarrow> Row list" where
  "sort_rows ds krs = map snd (stable_sort (\<lambda>a b. cmpRows ds (fst a, row_id (snd a)) (fst b, row_id (snd b))) krs)"

definition list_ids :: "host \<Rightarrow> FileSystem \<Rightarrow> world \<Rightarrow> string \<Rightarrow> EnglishRunOptions \<Rightarrow> string list optE" where
  "list_ids h fs w fn opts = (case constrainRecordIds opts of
     Some ids \<Rightarrow> someO ids | None \<Rightarrow> catch_what (listRecordNames h fs w fn))"

definition check_fields :: "FieldRef list \<Rightarrow> string \<Rightarrow> unit optE" where
  "check_fields refs fn = (case firstUnresolvedFieldError refs fn of Some e \<Rightarrow> noneO e | None \<Rightarrow> someO ())"

definition produce_sorted :: "host \<Rightarrow> FileSystem \<Rightarrow> world \<Rightarrow> Query \<Rightarrow> (Row \<times> Record option) list \<Rightarrow> Row list optE" where
  "produce_sorted h fs w q rrs =
     bindE (mapE (\<lambda>sk. resolveField h fs w (q_fileName q) (fieldToken sk)) (sortKeys q)) (\<lambda>sortRefs.
     bindO (check_fields sortRefs (q_fileName q)) (\<lambda>_.
     bindE (mapE (\<lambda>(r, rec). bindE (row_keys sortRefs (row_id r) rec) (\<lambda>ks. Inr (ks, r))) rrs) (\<lambda>krs.
       someO (sort_rows (map descending (sortKeys q)) krs))))"

text \<open>\<open>produceRows\<close>: the rows, the trailing lines and the selected ids.\<close>

definition produceRows ::
  "host \<Rightarrow> FileSystem \<Rightarrow> world \<Rightarrow> Query \<Rightarrow> EnglishRunOptions \<Rightarrow> (Row list \<times> string list \<times> string list) optE" where
  "produceRows h fs w q opts =
     (let fn = q_fileName q
      in bindO (list_ids h fs w fn opts) (\<lambda>ids.
         if verb q = COUNT then someO ([], [show_nat (length ids)], [])
         else bindE (resolveFields h fs w fn (q_fields q)) (\<lambda>fields.
         bindO (check_fields fields fn) (\<lambda>_.
         bindO (resolve_clause h fs w fn (breakOnField q)) (\<lambda>breakRef.
         bindO (resolve_clause h fs w fn (totalField q)) (\<lambda>totalRef.
         let maxOf = (\<lambda>t. case t of Some tpl \<Rightarrow> maxTemplateAttributeIndex tpl | None \<Rightarrow> 0);
             maxAttr = max (maxOf (heading q)) (maxOf (footing q))
         in if verb q = SELECT then someO ([], [show_nat (length ids) @ '' records selected''], ids)
            else bindO (catch_what (mapE (\<lambda>rid. bindE (readFS h fs w fn rid) (\<lambda>rec.
                   bindE (make_row fields breakRef totalRef maxAttr rid rec) (\<lambda>row. Inr (row, rec)))) ids)) (\<lambda>rrs.
                 if verb q = SORT
                 then bindO (produce_sorted h fs w q rrs) (\<lambda>rows. someO (rows, [], ids))
                 else someO (map fst rrs, [], ids))))))))"

section \<open>Layout\<close>

record FormatterContext =
  pageNumber :: int
  pageLength :: int
  currentPickDay :: int
  currentSecondsOfDay :: int

record Result =
  result_lines :: "string list"
  selectedIds :: "string list"

datatype Event = HeadingE string | TotalLine string double | BreakLine | RowE Row | FootingE string | Trailing string

definition kReportWidth :: nat where
  "kReportWidth = 79"

text \<open>The row loop of \<open>LayoutPlanner::events\<close>, with the previous row and the two sums.\<close>

fun row_events :: "Query \<Rightarrow> Row option \<Rightarrow> double \<Rightarrow> double \<Rightarrow> Row list \<Rightarrow> Event list" where
  "row_events q prev groupSum grandSum [] = (case totalField q of Some t \<Rightarrow> [TotalLine t grandSum] | None \<Rightarrow> [])"
| "row_events q prev groupSum grandSum (r # rs) =
     (let broken = (breakOnField q \<noteq> None \<and> (case prev of Some p \<Rightarrow> breakKey r \<noteq> breakKey p | None \<Rightarrow> False));
          sub = (if broken then (case totalField q of Some t \<Rightarrow> [TotalLine t groupSum] | None \<Rightarrow> []) @ [BreakLine] else []);
          group1 = (if broken \<and> totalField q \<noteq> None then dbl_zero False else groupSum);
          totalOn = (totalField q \<noteq> None)
      in sub @ [RowE r] @ row_events q (Some r) (if totalOn then dbl_add group1 (totalAddend r) else group1)
           (if totalOn then dbl_add grandSum (totalAddend r) else grandSum) rs)"

definition layout_events :: "Query \<Rightarrow> Row list \<Rightarrow> string list \<Rightarrow> Event list" where
  "layout_events q rows trailingLines =
     (case heading q of Some t \<Rightarrow> [HeadingE t] | None \<Rightarrow> []) @
     row_events q None (dbl_zero False) (dbl_zero False) rows @
     (case footing q of Some t \<Rightarrow> [FootingE t] | None \<Rightarrow> []) @
     map Trailing trailingLines"

definition renderBreakLine :: string where
  "renderBreakLine = replicate kReportWidth CHR ''-''"

text \<open>\<open>std::to_string(double)\<close>: the exact value rounded to six decimals.\<close>

fun show_fixed6 :: "double \<Rightarrow> string" where
  "show_fixed6 (DFinite s m x) =
     (let (n, d) = scale2 (m * 10 ^ 6) 1 x; k = round_half_even n d
      in (if s then ''-'' else []) @ show_nat (k div 10 ^ 6) @ ''.'' @ pad_zeros 6 (show_nat (k mod 10 ^ 6)))"
| "show_fixed6 (DInf s) = (if s then ''-inf'' else ''inf'')"
| "show_fixed6 DNaN = ''nan''"

definition formatTotalValue :: "double \<Rightarrow> string result" where
  "formatTotalValue v = (if dbl_is_integer v then bindE (dbl_to_int64 v) (\<lambda>i. Inr (show_int i)) else Inr (show_fixed6 v))"

definition renderTotalLine :: "string \<Rightarrow> double \<Rightarrow> string result" where
  "renderTotalLine tok v = bindE (formatTotalValue v) (\<lambda>t. Inr (''TOTAL '' @ tok @ '': '' @ t))"

definition renderProjection :: "Row \<Rightarrow> bool \<Rightarrow> string" where
  "renderProjection r idsupp =
     (if idsupp then join_with SP (projectedFields r) else row_id r @ concat (map (\<lambda>f. SP # f) (projectedFields r)))"

definition formatDate :: "int \<Rightarrow> string" where
  "formatDate pickDay = dateStringFromPickDay pickDay"

definition formatTimeOfDay :: "int \<Rightarrow> bool \<Rightarrow> string" where
  "formatTimeOfDay seconds wantSeconds = timeStringFromSeconds seconds wantSeconds"

definition render_token :: "FormatterContext \<Rightarrow> int \<Rightarrow> string list option \<Rightarrow> string \<Rightarrow> string" where
  "render_token ctx page attrs tok =
     (if list_all isdigit tok then
        (case (attrs, attr_index tok) of
           (Some vs, Some n) \<Rightarrow> if 1 \<le> n \<and> n \<le> int (length vs) then vs ! nat (n - 1) else []
         | _ \<Rightarrow> [])
      else if ieq tok ''DATE'' then formatDate (currentPickDay ctx)
      else if ieq tok ''TIME'' then formatTimeOfDay (currentSecondsOfDay ctx) True
      else if ieq tok ''PAGE'' then show_int page
      else [])"

definition renderReportTemplate :: "string \<Rightarrow> FormatterContext \<Rightarrow> int \<Rightarrow> string list option \<Rightarrow> string" where
  "renderReportTemplate tpl ctx page attrs =
     concat (map (\<lambda>p. case p of Literal c \<Rightarrow> [c] | AtToken tok \<Rightarrow> render_token ctx page attrs tok) (template_pieces tpl))"

section \<open>Rendering\<close>

text \<open>The renderer with its page manager, and the query parts it holds.\<close>

record Renderer =
  out_lines :: "string list"
  curPage :: int
  linesOnPage :: int
  footingEmittedThisPage :: bool
  lastHeadingAttrs :: "string list option"

record Layout =
  lay_ctx :: FormatterContext
  lay_heading :: "string option"
  lay_footing :: "string option"
  lay_idSupp :: bool

definition paginationActive :: "Layout \<Rightarrow> bool" where
  "paginationActive l \<longleftrightarrow> lay_heading l \<noteq> None \<and> 0 < pageLength (lay_ctx l)"

definition put_line :: "string \<Rightarrow> Renderer \<Rightarrow> Renderer" where
  "put_line t r = r\<lparr>out_lines := out_lines r @ [t], linesOnPage := linesOnPage r + 1\<rparr>"

definition put_template :: "Layout \<Rightarrow> string \<Rightarrow> Renderer \<Rightarrow> Renderer" where
  "put_template l tpl r = put_line (renderReportTemplate tpl (lay_ctx l) (curPage r) (lastHeadingAttrs r)) r"

definition emitPageFootingIfNeeded :: "Layout \<Rightarrow> Renderer \<Rightarrow> Renderer" where
  "emitPageFootingIfNeeded l r = (case lay_footing l of
     Some tpl \<Rightarrow> if footingEmittedThisPage r then r else (put_template l tpl r)\<lparr>footingEmittedThisPage := True\<rparr>
   | None \<Rightarrow> r)"

definition advancePage :: "Renderer \<Rightarrow> Renderer" where
  "advancePage r = r\<lparr>curPage := curPage r + 1, linesOnPage := 0\<rparr>"

definition emitWithPagination :: "Layout \<Rightarrow> string \<Rightarrow> Renderer \<Rightarrow> Renderer" where
  "emitWithPagination l line r =
     put_line line
       (if paginationActive l \<and> pageLength (lay_ctx l) \<le> linesOnPage r
        then (let r1 = emitPageFootingIfNeeded l r;
                  r2 = (advancePage (r1\<lparr>out_lines := out_lines r1 @ [[]]\<rparr>))\<lparr>footingEmittedThisPage := False\<rparr>
              in case lay_heading l of Some tpl \<Rightarrow> put_template l tpl r2 | None \<Rightarrow> r2)
        else r)"

definition render_event :: "Layout \<Rightarrow> Event \<Rightarrow> Renderer \<Rightarrow> Renderer result" where
  "render_event l e r = (case e of
     HeadingE tpl \<Rightarrow> Inr (put_template l tpl r)
   | TotalLine tok v \<Rightarrow> bindE (renderTotalLine tok v) (\<lambda>t. Inr (emitWithPagination l t r))
   | BreakLine \<Rightarrow> Inr (emitWithPagination l renderBreakLine r)
   | RowE row \<Rightarrow> Inr ((emitWithPagination l (renderProjection row (lay_idSupp l)) r)\<lparr>lastHeadingAttrs := Some (headingAttrs row)\<rparr>)
   | FootingE tpl \<Rightarrow>
       Inr (if \<not> paginationActive l \<or> \<not> footingEmittedThisPage r
            then (put_template l tpl r)\<lparr>footingEmittedThisPage := True\<rparr> else r)
   | Trailing t \<Rightarrow> Inr (emitWithPagination l t r))"

fun render :: "Layout \<Rightarrow> Event list \<Rightarrow> Renderer \<Rightarrow> Renderer result" where
  "render l [] r = Inr r"
| "render l (e # es) r = bindE (render_event l e r) (render l es)"

definition fresh_renderer :: "FormatterContext \<Rightarrow> Renderer" where
  "fresh_renderer ctx = \<lparr>out_lines = [], curPage = pageNumber ctx, linesOnPage = 0, footingEmittedThisPage = False, lastHeadingAttrs = None\<rparr>"

definition layout_of :: "Query \<Rightarrow> FormatterContext \<Rightarrow> Layout" where
  "layout_of q ctx = \<lparr>lay_ctx = ctx, lay_heading = heading q, lay_footing = footing q, lay_idSupp = idSupp q\<rparr>"

definition format_report :: "Query \<Rightarrow> Row list \<Rightarrow> string list \<Rightarrow> string list \<Rightarrow> FormatterContext \<Rightarrow> Result result" where
  "format_report q rows trailingLines ids ctx =
     bindE (render (layout_of q ctx) (layout_events q rows trailingLines) (fresh_renderer ctx)) (\<lambda>r.
       Inr \<lparr>result_lines = out_lines r, selectedIds = ids\<rparr>)"

text \<open>\<open>defaultFormatterContext\<close> from the day and the second of the clock.\<close>

definition defaultFormatterContext :: "int \<Rightarrow> int \<Rightarrow> FormatterContext" where
  "defaultFormatterContext day seconds = \<lparr>pageNumber = 1, pageLength = 24, currentPickDay = day, currentSecondsOfDay = seconds\<rparr>"

definition execute ::
  "host \<Rightarrow> FileSystem \<Rightarrow> world \<Rightarrow> int \<times> int \<Rightarrow> Query \<Rightarrow> EnglishRunOptions \<Rightarrow> Result optE" where
  "execute h fs w clock q opts =
     bindO (produceRows h fs w q opts) (\<lambda>(rows, trailingLines, ids).
       let ctx0 = defaultFormatterContext (fst clock) (snd clock);
           ctx = (case opt_pageLength opts of Some n \<Rightarrow> ctx0\<lparr>pageLength := n\<rparr> | None \<Rightarrow> ctx0)
       in bindE (format_report q rows trailingLines ids ctx) someO)"

definition run_english ::
  "host \<Rightarrow> FileSystem \<Rightarrow> world \<Rightarrow> int \<times> int \<Rightarrow> string list \<Rightarrow> ParseContext \<Rightarrow> EnglishRunOptions \<Rightarrow> Result optE" where
  "run_english h fs w clock tokens parseCtx opts = (case parse_english tokens parseCtx of
     Inl e \<Rightarrow> noneO e | Inr q \<Rightarrow> execute h fs w clock q opts)"

end
