(* ===== verification/English_Laws.thy ===== *)
theory English_Laws
  imports English Correlative_Laws "HOL-Library.Sublist" "HOL-Library.Multiset"
begin

text \<open>
  Properties of the ENGLISH processor: a query survives printing and parsing, \<open>SORT\<close> gives the stable
  sorted permutation of the rows wherever each key column has one kind of keys and is not even an order otherwise, totals
  add up, and pages keep their length without losing a line.
\<close>

section \<open>Stable sorting\<close>

text \<open>An interface for comparison functions: a strict weak order.\<close>

locale weak_order =
  fixes cmp :: "'a \<Rightarrow> 'a \<Rightarrow> bool" and A :: "'a set"
  assumes irrefl: "a \<in> A \<Longrightarrow> \<not> cmp a a"
    and trans: "a \<in> A \<Longrightarrow> b \<in> A \<Longrightarrow> c \<in> A \<Longrightarrow> cmp a b \<Longrightarrow> cmp b c \<Longrightarrow> cmp a c"
    and incomp: "a \<in> A \<Longrightarrow> b \<in> A \<Longrightarrow> c \<in> A \<Longrightarrow> \<not> cmp a b \<Longrightarrow> \<not> cmp b c \<Longrightarrow> \<not> cmp a c"
begin

lemma asym: "a \<in> A \<Longrightarrow> b \<in> A \<Longrightarrow> cmp a b \<Longrightarrow> \<not> cmp b a"
  using trans irrefl by blast

lemma insert_sorted:
  assumes "sorted_wrt (\<lambda>a b. \<not> cmp b a) xs" "set (x # xs) \<subseteq> A"
  shows "sorted_wrt (\<lambda>a b. \<not> cmp b a) (stable_insert cmp x xs)"
  using assms
proof (induction xs)
  case (Cons y ys)
  have s: "set (stable_insert cmp x ys) \<subseteq> insert x (set ys)" by (induction ys) auto
  show ?case
  proof (cases "cmp y x")
    case True
    then have "\<not> cmp x y" using asym Cons(3) by simp
    then show ?thesis using True Cons s by auto
  next
    case False
    then have "\<not> cmp z x" if "z \<in> set ys" for z using that incomp [of z y x] Cons(2,3) by auto
    then show ?thesis using False Cons(2) by simp
  qed
qed simp

lemma stable_sort_sorted: "set xs \<subseteq> A \<Longrightarrow> sorted_wrt (\<lambda>a b. \<not> cmp b a) (stable_sort cmp xs)"
proof (induction xs)
  case (Cons x xs)
  have "set (stable_insert cmp y zs) = insert y (set zs)" for y and zs :: "'a list" by (induction zs) auto
  then have "set (foldr (stable_insert cmp) ys []) = set ys" for ys :: "'a list" by (induction ys) auto
  then show ?case using Cons insert_sorted by (simp add: stable_sort_def)
qed (simp add: stable_sort_def)

text \<open>Rows that compare equal to \<open>x\<close> keep their order.\<close>

lemma insert_equivalent:
  assumes "x \<in> A" "set (y # ys) \<subseteq> A"
  shows "filter (\<lambda>z. \<not> cmp x z \<and> \<not> cmp z x) (stable_insert cmp y ys) = filter (\<lambda>z. \<not> cmp x z \<and> \<not> cmp z x) (y # ys)"
  using assms(2)
proof (induction ys)
  case (Cons z zs)
  then have "\<not> (\<not> cmp x y \<and> \<not> cmp y x \<and> \<not> cmp x z \<and> \<not> cmp z x)" if "cmp z y"
    using that incomp [of z x y] assms(1) by auto
  then show ?case using Cons by auto
qed simp

lemma stable_sort_stable:
  "x \<in> A \<Longrightarrow> set xs \<subseteq> A \<Longrightarrow>
   filter (\<lambda>z. \<not> cmp x z \<and> \<not> cmp z x) (stable_sort cmp xs) = filter (\<lambda>z. \<not> cmp x z \<and> \<not> cmp z x) xs"
proof (induction xs)
  case (Cons y ys)
  have "set (stable_insert cmp y zs) = insert y (set zs)" for y and zs :: "'a list" by (induction zs) auto
  then have "set (foldr (stable_insert cmp) ys []) = set ys" for ys :: "'a list" by (induction ys) auto
  then have "set (y # foldr (stable_insert cmp) ys []) \<subseteq> A" using Cons(3) by auto
  then show ?case using Cons insert_equivalent [OF Cons(2)] by (simp add: stable_sort_def)
qed (simp add: stable_sort_def)

end

lemma stable_sort_mset: "mset (stable_sort cmp xs) = mset xs"
proof -
  have i: "mset (stable_insert cmp x ys) = add_mset x (mset ys)" for x ys by (induction ys) auto
  then show ?thesis by (induction xs) (simp_all add: stable_sort_def)
qed

section \<open>The order of doubles\<close>

definition dbl_rank :: "double \<Rightarrow> int \<times> real" where
  "dbl_rank d = (case d of DFinite s m x \<Rightarrow> (0, real_of_int (signed_of s m) * 2 powi x) | DInf s \<Rightarrow> (if s then - 1 else 1, 0) | DNaN \<Rightarrow> (0, 0))"

definition rank_less :: "int \<times> real \<Rightarrow> int \<times> real \<Rightarrow> bool" where
  "rank_less p q \<longleftrightarrow> fst p < fst q \<or> (fst p = fst q \<and> snd p < snd q)"

lemma align_real:
  assumes "e \<le> x"
  shows "real_of_int (dbl_align s m x e) * 2 powi e = real_of_int (signed_of s m) * 2 powi x"
proof -
  have "real_of_int (dbl_align s m x e) = real_of_int (signed_of s m) * 2 powi (x - e)"
    using assms by (simp add: dbl_align_def signed_of_def power_int_def)
  then show ?thesis by (simp add: power_int_diff)
qed

lemma dbl_less_rank: "a \<noteq> DNaN \<Longrightarrow> b \<noteq> DNaN \<Longrightarrow> dbl_less a b \<longleftrightarrow> rank_less (dbl_rank a) (dbl_rank b)"
proof (cases a; cases b)
  fix s m x t n y assume ab: "a = DFinite s m x" "b = DFinite t n y"
  let ?e = "min x y"
  have "dbl_less a b \<longleftrightarrow> real_of_int (dbl_align s m x ?e) * 2 powi ?e < real_of_int (dbl_align t n y ?e) * 2 powi ?e"
    by (simp add: ab Let_def)
  then show ?thesis by (simp add: ab align_real rank_less_def dbl_rank_def)
qed (auto simp: rank_less_def dbl_rank_def)

section \<open>Sort keys\<close>

text \<open>A three-way comparison that is a total preorder on \<open>A\<close>.\<close>

locale three_way =
  fixes f :: "'a \<Rightarrow> 'a \<Rightarrow> int" and A :: "'a set"
  assumes anti: "a \<in> A \<Longrightarrow> b \<in> A \<Longrightarrow> f b a = - f a b"
    and chain: "a \<in> A \<Longrightarrow> b \<in> A \<Longrightarrow> c \<in> A \<Longrightarrow> f a b \<le> 0 \<Longrightarrow> f b c \<le> 0 \<Longrightarrow> f a c \<le> 0 \<and> (f a b < 0 \<or> f b c < 0 \<longrightarrow> f a c < 0)"

definition cmp3 :: "('a \<Rightarrow> 'a \<Rightarrow> bool) \<Rightarrow> 'a \<Rightarrow> 'a \<Rightarrow> int" where
  "cmp3 lt a b = (if lt a b then - 1 else if lt b a then 1 else 0)"

lemma cmp3_three_way:
  assumes "weak_order lt A"
  shows "three_way (cmp3 lt) A"
proof (unfold_locales, goal_cases)
  case (1 a b)
  then show ?case using weak_order.asym [OF assms, of a b] by (auto simp: cmp3_def)
next
  case (2 a b c)
  have s: "cmp3 lt x y \<le> 0 \<longleftrightarrow> \<not> lt y x" "cmp3 lt x y < 0 \<longleftrightarrow> lt x y" if "x \<in> A" "y \<in> A" for x y
    using that weak_order.asym [OF assms, of x y] by (auto simp: cmp3_def)
  show ?case using 2 weak_order.incomp [OF assms, of c b a] weak_order.incomp [OF assms, of a c b] weak_order.incomp [OF assms, of b a c]
    by (auto simp: s)
qed

lemma reversed_three_way:
  assumes "three_way f A"
  shows "three_way (\<lambda>a b. - f a b) A"
proof (unfold_locales, goal_cases)
  case (1 a b)
  then show ?case using three_way.anti [OF assms, of a b] by simp
next
  case (2 a b c)
  then show ?case
    using three_way.chain [OF assms, of c b a] three_way.anti [OF assms, of a b] three_way.anti [OF assms, of b c] three_way.anti [OF assms, of a c]
    by auto
qed

lemma lex_three_way:
  assumes "three_way f A" "three_way g B"
  shows "three_way (\<lambda>x y. if f (fst x) (fst y) \<noteq> 0 then f (fst x) (fst y) else g (snd x) (snd y)) (A \<times> B)"
proof (unfold_locales, goal_cases)
  case (1 x y)
  then show ?case using three_way.anti [OF assms(1), of "fst x" "fst y"] three_way.anti [OF assms(2), of "snd x" "snd y"] by auto
next
  case (2 x y z)
  then have m: "fst x \<in> A" "fst y \<in> A" "fst z \<in> A" "snd x \<in> B" "snd y \<in> B" "snd z \<in> B" by auto
  have le: "f (fst x) (fst y) \<le> 0" "f (fst y) (fst z) \<le> 0" using 2(4,5) by (auto split: if_splits)
  note c = three_way.chain [OF assms(1) m(1-3) le]
  show ?case
  proof (cases "f (fst x) (fst y) < 0 \<or> f (fst y) (fst z) < 0")
    case True
    then show ?thesis using c by auto
  next
    case False
    then have z: "f (fst x) (fst y) = 0" "f (fst y) (fst z) = 0" using le by auto
    have "f (fst z) (fst x) \<le> 0"
      using three_way.chain [OF assms(1) m(3,2,1)] three_way.anti [OF assms(1) m(1,2)] three_way.anti [OF assms(1) m(2,3)] z by simp
    then have "f (fst x) (fst z) = 0" using c three_way.anti [OF assms(1) m(1,3)] by simp
    then show ?thesis using 2(4,5) z three_way.chain [OF assms(2) m(4-6)] by simp
  qed
qed

text \<open>Keys of one shape: in each column all numbers (none of them a NaN) or all strings.\<close>

definition part_ok :: "bool \<Rightarrow> KeyPart \<Rightarrow> bool" where
  "part_ok number p = (case p of NumberKey d \<Rightarrow> number \<and> d \<noteq> DNaN | StringKey _ \<Rightarrow> \<not> number)"

definition keys_ok :: "bool list \<Rightarrow> KeyPart list \<Rightarrow> bool" where
  "keys_ok shape ks \<longleftrightarrow> list_all2 part_ok shape ks"

definition part_less :: "KeyPart \<Rightarrow> KeyPart \<Rightarrow> bool" where
  "part_less a b = (case (a, b) of (NumberKey x, NumberKey y) \<Rightarrow> dbl_less x y | _ \<Rightarrow> key_str a < key_str b)"

lemma part_cases:
  "part_ok True p \<longleftrightarrow> (\<exists>d. p = NumberKey d \<and> d \<noteq> DNaN)" "part_ok False p \<longleftrightarrow> (\<exists>t. p = StringKey t)"
  by (cases p; simp add: part_ok_def)+

lemma part_weak_order: "weak_order part_less {p. part_ok number p}"
proof -
  have "weak_order part_less {p. part_ok True p}"
    by unfold_locales (auto simp: part_cases part_less_def dbl_less_rank rank_less_def)
  moreover have "weak_order part_less {p. part_ok False p}"
    by unfold_locales (auto simp: part_cases part_less_def key_str_def)
  ultimately show ?thesis by (cases number) simp_all
qed

lemma comparePartsAsc_cmp3: "comparePartsAsc a b = cmp3 part_less a b"
  by (cases a; cases b) (auto simp: comparePartsAsc_def cmp3_def part_less_def)

lemma parts_three_way: "three_way (\<lambda>a b. comparePartsWithDesc a b d) {p. part_ok number p}"
  using cmp3_three_way [OF part_weak_order [of number]] reversed_three_way
  by (cases d) (simp_all add: comparePartsWithDesc_def comparePartsAsc_cmp3 Let_def)

lemma three_way_image:
  assumes "three_way h B" "\<And>x. x \<in> A \<Longrightarrow> k x \<in> B" "\<And>x y. x \<in> A \<Longrightarrow> y \<in> A \<Longrightarrow> f x y = h (k x) (k y)"
  shows "three_way f A"
proof (unfold_locales, goal_cases)
  case (1 a b)
  then show ?case using three_way.anti [OF assms(1), of "k a" "k b"] assms(2,3) by simp
next
  case (2 a b c)
  then show ?case using three_way.chain [OF assms(1), of "k a" "k b" "k c"] assms(2,3) by simp
qed

lemma keys_three_way: "three_way (key_order ds) {ks. keys_ok shape ks}"
proof (induction shape arbitrary: ds)
  case Nil
  show ?case by unfold_locales (simp_all add: keys_ok_def)
next
  case (Cons n shape)
  let ?d = "case ds of d # _ \<Rightarrow> d | [] \<Rightarrow> False"
  show ?case
    by (rule three_way_image [OF lex_three_way [OF parts_three_way [of ?d n] Cons [of "tl ds"]], where k = "\<lambda>ks. (hd ks, tl ks)"])
      (auto simp: keys_ok_def list_all2_Cons1 Let_def)
qed

lemma three_way_weak_order:
  assumes "three_way f A"
  shows "weak_order (\<lambda>a b. f a b < 0) A"
proof (unfold_locales, goal_cases)
  case (1 a)
  then show ?case using three_way.anti [OF assms, of a a] by simp
next
  case (2 a b c)
  then show ?case using three_way.chain [OF assms, of a b c] by simp
next
  case (3 a b c)
  then show ?case
    using three_way.chain [OF assms, of c b a] three_way.anti [OF assms, of a b] three_way.anti [OF assms, of b c] three_way.anti [OF assms, of a c]
    by auto
qed

text \<open>The sort keys of one shape are an instance of the comparison.\<close>

interpretation sort_keys: three_way "key_order ds" "{ks. keys_ok shape ks}" for ds shape
  by (rule keys_three_way)

lemma string_weak_order: "weak_order ((<) :: string \<Rightarrow> string \<Rightarrow> bool) UNIV"
  by unfold_locales auto

lemma cmpRows_weak_order: "weak_order (cmpRows ds) {x. keys_ok shape (fst x)}"
proof -
  let ?h = "\<lambda>x y. if key_order ds (fst x) (fst y) \<noteq> 0 then key_order ds (fst x) (fst y) else cmp3 ((<) :: string \<Rightarrow> string \<Rightarrow> bool) (snd x) (snd y)"
  have "weak_order (\<lambda>x y. ?h x y < 0) ({ks. keys_ok shape ks} \<times> UNIV)"
    by (rule three_way_weak_order [OF lex_three_way [OF sort_keys.three_way_axioms cmp3_three_way [OF string_weak_order]]])
  moreover have "cmpRows ds = (\<lambda>x y. ?h x y < 0)" by (auto simp: fun_eq_iff cmpRows_def cmp3_def Let_def)
  moreover have "{x :: KeyPart list \<times> string. keys_ok shape (fst x)} = {ks. keys_ok shape ks} \<times> UNIV" by auto
  ultimately show ?thesis by (simp only:)
qed

text \<open>The comparison of the executor, on rows with keys of one shape, is an instance of the order the sort needs.\<close>

definition row_before :: "bool list \<Rightarrow> KeyPart list \<times> Row \<Rightarrow> KeyPart list \<times> Row \<Rightarrow> bool" where
  "row_before ds a b = cmpRows ds (fst a, row_id (snd a)) (fst b, row_id (snd b))"

interpretation sorted_rows: weak_order "row_before ds" "{x. keys_ok shape (fst x)}" for ds shape
proof (unfold_locales, goal_cases)
  case (1 a)
  then show ?case using weak_order.irrefl [OF cmpRows_weak_order [of ds shape]] by (simp add: row_before_def)
next
  case (2 a b c)
  then show ?case using weak_order.trans [OF cmpRows_weak_order [of ds shape], of "(fst a, row_id (snd a))" "(fst b, row_id (snd b))" "(fst c, row_id (snd c))"]
    by (simp add: row_before_def)
next
  case (3 a b c)
  then show ?case using weak_order.incomp [OF cmpRows_weak_order [of ds shape], of "(fst a, row_id (snd a))" "(fst b, row_id (snd b))" "(fst c, row_id (snd c))"]
    by (simp add: row_before_def)
qed


definition plain_row :: "string \<Rightarrow> Row" where
  "plain_row i = \<lparr>row_id = i, projectedFields = [], breakKey = [], totalAddend = dbl_zero False, headingAttrs = []\<rparr>"


text \<open>
  C31. Where a column mixes numbers and texts, as an empty cell among numeric ones does, the comparison of the executor is
  not an order: there are three rows each of which is before the next, in a circle.  The standard gives \<open>std::stable_sort\<close>
  no meaning then, although the item id was meant to make the order deterministic.
\<close>

theorem sort_comparison_cycle:
  "\<exists>a b c. cmpRows [False] a b \<and> cmpRows [False] b c \<and> cmpRows [False] c a \<and>
     a = ([makeSortPart ''2'' ConvMD], ''1'') \<and> b = ([makeSortPart [] ConvMD], ''2'') \<and> c = ([makeSortPart ''1'' ConvMD], ''3'')"
proof -
  have n: "tryParseNumeric (show_int i) = Some (dbl_of_int i)" if "exact_int i" for i
    using that strtod_show_int [of i] show_int_not_Nil [of i]
    by (simp add: tryParseNumeric_def trimmed_show_int despace_show_int stod_opt_def stod_def)
  have "show_int 2 = ''2''" "show_int 1 = ''1''" by code_simp+
  then have "tryParseNumeric ''2'' = Some (dbl_of_int 2)" "tryParseNumeric ''1'' = Some (dbl_of_int 1)" using n [of 2] n [of 1] by (simp_all add: exact_int_def)
  moreover have "tryParseNumeric [] = None" by (simp add: tryParseNumeric_def trimmed_def)
  moreover have "dbl_less (dbl_of_int 1) (dbl_of_int 2)" "\<not> dbl_less (dbl_of_int 2) (dbl_of_int 1)" by (simp_all add: exact_int_def)
  ultimately show ?thesis
    by (auto simp: makeSortPart_def cmpRows_def comparePartsWithDesc_def comparePartsAsc_def key_str_def less_char_def)
qed

section \<open>Queries are parsed back\<close>

definition verb_word :: "Verb \<Rightarrow> string" where
  "verb_word v = (case v of LIST \<Rightarrow> ''LIST'' | COUNT \<Rightarrow> ''COUNT'' | SELECT \<Rightarrow> ''SELECT'' | SORT \<Rightarrow> ''SORT'')"

definition key_words :: "SortKeySpec \<Rightarrow> string list" where
  "key_words k = (if descending k then [''BY-DSND''] else []) @ [fieldToken k]"

definition opt_clause :: "string \<Rightarrow> string option \<Rightarrow> string list" where
  "opt_clause w arg = (case arg of None \<Rightarrow> [] | Some a \<Rightarrow> [w, a])"

definition clause_words :: "Query \<Rightarrow> string list" where
  "clause_words q = opt_clause ''HEADING'' (heading q) @ opt_clause ''FOOTING'' (footing q) @ opt_clause ''BREAK-ON'' (breakOnField q) @
     opt_clause ''TOTAL'' (totalField q) @ (if idSupp q then [''ID-SUPP''] else [])"

definition query_words :: "Query \<Rightarrow> string list" where
  "query_words q = verb_word (verb q) # q_fileName q # q_fields q @
     (if sortKeys q = [] then [] else ''BY'' # concat (map key_words (sortKeys q))) @ clause_words q"

definition plain_word :: "string \<Rightarrow> bool" where
  "plain_word t \<longleftrightarrow> t \<noteq> [] \<and> \<not> isStructuralKeyword t"

definition query_ok :: "Query \<Rightarrow> bool" where
  "query_ok q \<longleftrightarrow> (sortKeys q \<noteq> [] \<longrightarrow> verb q = SORT) \<and> plain_word (q_fileName q) \<and> list_all plain_word (q_fields q) \<and>
     list_all (plain_word \<circ> fieldToken) (sortKeys q) \<and>
     list_all (\<lambda>a. \<not> isStructuralKeyword a) (List.map_filter id [heading q, footing q, breakOnField q, totalField q])"

definition clause_word :: "string \<Rightarrow> bool" where
  "clause_word t \<longleftrightarrow> isHeading t \<or> isFooting t \<or> isBreakOn t \<or> isTotal t \<or> isIdSupp t"

lemma keyword_facts:
  "isHeading ''HEADING''" "isFooting ''FOOTING''" "isBreakOn ''BREAK-ON''" "isTotal ''TOTAL''" "isIdSupp ''ID-SUPP''" "isBy ''BY''" "isByDsnd ''BY-DSND''"
  "\<not> isHeading ''FOOTING''" "\<not> isHeading ''BREAK-ON''" "\<not> isHeading ''TOTAL''" "\<not> isHeading ''ID-SUPP''" "\<not> isFooting ''BREAK-ON''"
  "\<not> isFooting ''TOTAL''" "\<not> isFooting ''ID-SUPP''" "\<not> isBreakOn ''TOTAL''" "\<not> isBreakOn ''ID-SUPP''" "\<not> isTotal ''ID-SUPP''"
  "\<not> clause_word ''BY''" "\<not> clause_word ''BY-DSND''" "\<not> isBy ''BY-DSND''" "\<not> isWith ''BY''"
  by (simp_all add: isHeading_def isFooting_def isBreakOn_def isTotal_def isIdSupp_def isBy_def isByDsnd_def isWith_def clause_word_def ieq_def
      lowerCopy_def tolower_def code_of_def)

lemma strip_other: "\<not> clause_word t \<Longrightarrow> strip_clauses q (t # ts) = bindE (strip_clauses q ts) (\<lambda>(q', r). Inr (q', t # r))"
  by (simp add: clause_word_def)

lemma strip_prefix:
  "list_all (\<lambda>t. \<not> clause_word t) ws \<Longrightarrow> strip_clauses q ts = Inr (q', r) \<Longrightarrow> strip_clauses q (ws @ ts) = Inr (q', ws @ r)"
  by (induction ws) (simp_all add: strip_other del: strip_clauses.simps)

lemma strip_clause_words:
  assumes "query_ok q" "heading p = None" "footing p = None" "breakOnField p = None" "totalField p = None" "\<not> idSupp p"
  shows "strip_clauses p (clause_words q) =
    Inr (p\<lparr>heading := heading q, footing := footing q, breakOnField := breakOnField q, totalField := totalField q, idSupp := idSupp q\<rparr>, [])"
  using assms unfolding query_ok_def
  by (cases "heading q"; cases "footing q"; cases "breakOnField q"; cases "totalField q"; cases "idSupp q")
    (simp_all add: clause_words_def opt_clause_def keyword_facts map_filter_simps)

lemma plain_facts: "plain_word t \<Longrightarrow> \<not> clause_word t \<and> \<not> isBy t \<and> \<not> isByDsnd t \<and> \<not> isWith t \<and> t \<noteq> []"
  by (auto simp: plain_word_def clause_word_def isStructuralKeyword_def)

lemma parse_keys:
  "list_all (plain_word \<circ> fieldToken) ks \<Longrightarrow> parseSortSection False (concat (map key_words ks)) = Inr ks"
  by (induction ks) (auto simp: key_words_def keyword_facts dest!: plain_facts)

lemma parse_rest_words:
  assumes "query_ok q" "verb p = verb q" "sortKeys p = []"
  shows "parse_rest p (q_fields q @ (if sortKeys q = [] then [] else ''BY'' # concat (map key_words (sortKeys q)))) =
    Inr (p\<lparr>q_fields := q_fields q, sortKeys := sortKeys q\<rparr>)"
proof -
  have f: "\<not> isBy t" "\<not> isWith t" if "t \<in> set (q_fields q)" for t
    using assms(1) that plain_facts by (auto simp: query_ok_def list_all_iff)
  then have w: "takeWhile (\<lambda>t. \<not> isWith t) (q_fields q) = q_fields q" by (simp add: takeWhile_eq_all_conv)
  show ?thesis
  proof (cases "sortKeys q = []")
    case True
    have b: "takeWhile (\<lambda>t. \<not> isBy t) (q_fields q) = q_fields q" "dropWhile (\<lambda>t. \<not> isBy t) (q_fields q) = []"
      using f by (simp_all add: takeWhile_eq_all_conv)
    have "p\<lparr>q_fields := q_fields q, sortKeys := []\<rparr> = p\<lparr>q_fields := q_fields q\<rparr>" using assms(3) by (cases p) simp
    then show ?thesis unfolding True if_P [OF refl] append_Nil2 parse_rest_def b w Let_def by simp
  next
    case False
    let ?b = "''BY'' # concat (map key_words (sortKeys q))"
    have b: "takeWhile (\<lambda>t. \<not> isBy t) (q_fields q @ ?b) = q_fields q" "dropWhile (\<lambda>t. \<not> isBy t) (q_fields q @ ?b) = ?b"
      using f by (simp_all add: takeWhile_append2 dropWhile_append2 keyword_facts)
    have "verb q = SORT" "parseSortSection False ?b = Inr (sortKeys q)"
      using False assms(1) parse_keys by (simp_all add: query_ok_def keyword_facts)
    then show ?thesis unfolding if_not_P [OF False] parse_rest_def b w Let_def using assms(2) by simp
  qed
qed

text \<open>
  C19. The words of a query parse back to it: the file, the projected fields, the sort keys with their directions and the
  clauses \<open>HEADING\<close>, \<open>FOOTING\<close>, \<open>BREAK-ON\<close>, \<open>TOTAL\<close> and \<open>ID-SUPP\<close> are all kept.  The condition says that no name is one of the keywords
  and that there are sort keys only for \<open>SORT\<close>.
\<close>

theorem query_round_trip:
  assumes "query_ok q" "\<not> implicitFile ctx"
  shows "parse_english (query_words q) ctx = Inr q"
proof -
  let ?by = "if sortKeys q = [] then [] else ''BY'' # concat (map key_words (sortKeys q))"
  let ?p = "(empty_query (verb q))\<lparr>heading := heading q, footing := footing q, breakOnField := breakOnField q, totalField := totalField q, idSupp := idSupp q\<rparr>"
  have v: "verbFrom (verb_word (verb q)) = Some (verb q)"
    by (cases "verb q") (simp_all add: verb_word_def verbFrom_def ieq_def lowerCopy_def tolower_def code_of_def)
  have "list_all (\<lambda>t. \<not> clause_word t) (q_fileName q # q_fields q @ ?by)"
    using assms(1) keyword_facts plain_facts by (auto simp: query_ok_def list_all_iff key_words_def)
  then have "strip_clauses (empty_query (verb q)) ((q_fileName q # q_fields q @ ?by) @ clause_words q) = Inr (?p, q_fileName q # q_fields q @ ?by)"
    using strip_prefix strip_clause_words [OF assms(1), of "empty_query (verb q)"] by (fastforce simp: empty_query_def)
  moreover have "q_fileName q \<noteq> []" using assms(1) plain_facts by (auto simp: query_ok_def)
  moreover have "parse_rest (?p\<lparr>q_fileName := q_fileName q\<rparr>) (q_fields q @ ?by) = Inr (?p\<lparr>q_fileName := q_fileName q, q_fields := q_fields q, sortKeys := sortKeys q\<rparr>)"
    using parse_rest_words [OF assms(1), of "?p\<lparr>q_fileName := q_fileName q\<rparr>"] by (simp add: empty_query_def)
  moreover have "?p\<lparr>q_fileName := q_fileName q, q_fields := q_fields q, sortKeys := sortKeys q\<rparr> = q"
    by (cases q) (simp add: empty_query_def)
  ultimately show ?thesis using assms(2) v by (simp add: parse_english_def query_words_def)
qed

definition sample_query :: Query where
  "sample_query = (empty_query SORT)\<lparr>q_fileName := ''ORD'', q_fields := [''NAME'', ''2''],
     sortKeys := [\<lparr>fieldToken = ''CITY'', descending = True\<rparr>, \<lparr>fieldToken = ''NAME'', descending = False\<rparr>],
     heading := Some ''Page @PAGE'', totalField := Some ''2''\<rparr>"

theorem query_round_trip_witness:
  "parse_english [''SORT'', ''ORD'', ''NAME'', ''2'', ''BY'', ''BY-DSND'', ''CITY'', ''NAME'', ''HEADING'', ''Page @PAGE'', ''TOTAL'', ''2'']
     \<lparr>implicitFile = False, imposedFileName = None\<rparr> = Inr sample_query"
proof -
  have "query_words sample_query = [''SORT'', ''ORD'', ''NAME'', ''2'', ''BY'', ''BY-DSND'', ''CITY'', ''NAME'', ''HEADING'', ''Page @PAGE'', ''TOTAL'', ''2'']"
    by code_simp
  moreover have "query_ok sample_query" by code_simp
  ultimately show ?thesis using query_round_trip [of sample_query "\<lparr>implicitFile = False, imposedFileName = None\<rparr>"] by simp
qed

section \<open>Totals\<close>

fun total_values :: "Event list \<Rightarrow> double list" where
  "total_values [] = []"
| "total_values (TotalLine t v # es) = v # total_values es"
| "total_values (e # es) = total_values es"

definition sum_rows :: "double \<Rightarrow> Row list \<Rightarrow> double" where
  "sum_rows start rows = foldl dbl_add start (map totalAddend rows)"

text \<open>Consecutive rows with the same break key.\<close>

fun break_groups :: "Row list \<Rightarrow> Row list list" where
  "break_groups [] = []"
| "break_groups (r # rs) = (case break_groups rs of
     (x # g) # gs \<Rightarrow> if breakKey x = breakKey r then (r # x # g) # gs else [r] # (x # g) # gs
   | _ \<Rightarrow> [[r]])"

lemma break_groups_Cons: "\<exists>g gs. break_groups (r # rs) = (r # g) # gs"
  by (auto split: list.split)

lemma total_values_append: "total_values (es @ fs) = total_values es @ total_values fs"
  by (induction es rule: total_values.induct) simp_all

lemma totals_from:
  assumes "totalField q = Some t" "breakOnField q = Some b" "break_groups (p # rs) = (p # h) # gs"
  shows "total_values (row_events q (Some p) g a rs) =
    (if gs = [] then [] else sum_rows g h # map (sum_rows (dbl_zero False)) (butlast gs)) @ [sum_rows a rs]"
  using assms(3)
proof (induction rs arbitrary: p h gs g a)
  case (Cons r rs)
  obtain h' gs' where g: "break_groups (r # rs) = (r # h') # gs'" using break_groups_Cons by blast
  show ?case
  proof (cases "breakKey r = breakKey p")
    case True
    then have "h = r # h'" "gs = gs'" using Cons(2) g by auto
    then show ?thesis using Cons(1) [OF g] True by (simp add: assms(1,2) sum_rows_def)
  next
    case False
    then have "h = []" "gs = (r # h') # gs'" using Cons(2) g by auto
    then show ?thesis using Cons(1) [OF g] False by (simp add: assms(1,2) sum_rows_def)
  qed
qed (simp add: assms(1) sum_rows_def)

text \<open>
  The totals of a report with \<open>TOTAL\<close> and \<open>BREAK-ON\<close>: a subtotal for each group of consecutive rows with the same break
  value except the last group, which gets none, and then the grand total over all rows; sums run over the rows in order.
\<close>

theorem report_totals:
  assumes "totalField q = Some t" "breakOnField q = Some b"
  shows "total_values (layout_events q rows ts) =
    map (sum_rows (dbl_zero False)) (butlast (break_groups rows)) @ [sum_rows (dbl_zero False) rows]"
proof -
  have o: "total_values (case heading q of Some t \<Rightarrow> [HeadingE t] | None \<Rightarrow> []) = []" "total_values (case footing q of Some t \<Rightarrow> [FootingE t] | None \<Rightarrow> []) = []"
    "total_values (map Trailing ts) = []" by (auto split: option.split) (induction ts; simp)
  show ?thesis
  proof (cases rows)
    case (Cons r rs)
    obtain h gs where g: "break_groups (r # rs) = (r # h) # gs" using break_groups_Cons by blast
    have "total_values (row_events q None (dbl_zero False) (dbl_zero False) rows) =
        total_values (row_events q (Some r) (dbl_add (dbl_zero False) (totalAddend r)) (dbl_add (dbl_zero False) (totalAddend r)) rs)"
      by (simp add: Cons assms)
    then show ?thesis using totals_from [OF assms g] g by (simp add: layout_events_def total_values_append o Cons sum_rows_def)
  qed (simp add: layout_events_def total_values_append o assms(1) sum_rows_def)
qed

definition keyed_row :: "string \<Rightarrow> int \<Rightarrow> Row" where
  "keyed_row k n = \<lparr>row_id = k, projectedFields = [], breakKey = k, totalAddend = dbl_of_int n, headingAttrs = []\<rparr>"

theorem report_totals_witness:
  "total_values (layout_events (sample_query\<lparr>breakOnField := Some ''CITY''\<rparr>) [keyed_row ''A'' 1, keyed_row ''A'' 2, keyed_row ''B'' 4] [])
     = [dbl_of_int 3, dbl_of_int 7]"
proof -
  have z: "dbl_zero False = dbl_of_int 0" by (simp add: dbl_of_int_def dbl_round_def)
  have e: "exact_int 0" "exact_int 1" "exact_int 2" "exact_int 3" "exact_int 4" by (simp_all add: exact_int_def)
  show ?thesis
    using report_totals [of "sample_query\<lparr>breakOnField := Some ''CITY''\<rparr>" "''2''" "''CITY''" "[keyed_row ''A'' 1, keyed_row ''A'' 2, keyed_row ''B'' 4]" "[]"]
    by (simp add: sample_query_def keyed_row_def sum_rows_def z e)
qed

section \<open>Pages\<close>

text \<open>A template without \<open>@n\<close> tokens does not depend on the rows.\<close>

definition attr_free :: "string \<Rightarrow> bool" where
  "attr_free tpl \<longleftrightarrow> (\<forall>p \<in> set (template_pieces tpl). case p of AtToken tok \<Rightarrow> \<not> list_all isdigit tok | Literal _ \<Rightarrow> True)"

lemma attr_free_render: "attr_free tpl \<Longrightarrow> renderReportTemplate tpl ctx page a = renderReportTemplate tpl ctx page b"
  unfolding renderReportTemplate_def attr_free_def
  by (intro arg_cong [where f = concat] map_cong) (auto simp: render_token_def split: piece.splits)

definition page_head :: "Layout \<Rightarrow> int \<Rightarrow> string list" where
  "page_head l p = (case lay_heading l of Some t \<Rightarrow> [renderReportTemplate t (lay_ctx l) p None] | None \<Rightarrow> [])"

definition page_foot :: "Layout \<Rightarrow> int \<Rightarrow> string list" where
  "page_foot l p = (case lay_footing l of Some t \<Rightarrow> [renderReportTemplate t (lay_ctx l) p None] | None \<Rightarrow> [])"

text \<open>The reference: the data lines in chunks, each under the heading and over the footing of its page, with a blank line between pages.\<close>

function page_chunks :: "nat \<Rightarrow> 'a list \<Rightarrow> 'a list list" where
  "page_chunks k xs = (if length xs \<le> k \<or> k = 0 then [xs] else take k xs # page_chunks k (drop k xs))"
  by pat_completeness auto

termination
  by (relation "measure (\<lambda>(k, xs). length xs)") auto

declare page_chunks.simps [simp del]

fun pages_text :: "Layout \<Rightarrow> int \<Rightarrow> string list list \<Rightarrow> string list" where
  "pages_text l p [] = []"
| "pages_text l p [c] = page_head l p @ c @ page_foot l p"
| "pages_text l p (c # cs) = page_head l p @ c @ page_foot l p @ [[]] @ pages_text l (p + 1) cs"

text \<open>What emitting data lines appends, with room for some lines on the current page.\<close>

fun flow_text :: "Layout \<Rightarrow> nat \<Rightarrow> int \<Rightarrow> nat \<Rightarrow> string list \<Rightarrow> string list" where
  "flow_text l n p room [] = []"
| "flow_text l n p 0 (d # ds) = page_foot l p @ [[]] @ page_head l (p + 1) @ [d] @ flow_text l n (p + 1) (n - 2) ds"
| "flow_text l n p (Suc room) (d # ds) = d # flow_text l n p room ds"

fun flow_page :: "nat \<Rightarrow> int \<Rightarrow> nat \<Rightarrow> 'a list \<Rightarrow> int" where
  "flow_page n p room [] = p"
| "flow_page n p 0 (d # ds) = flow_page n (p + 1) (n - 2) ds"
| "flow_page n p (Suc room) (d # ds) = flow_page n p room ds"

lemma flow_take:
  "flow_text l n p m ds = take m ds @ (if length ds \<le> m then [] else flow_text l n p 0 (drop m ds))"
  "flow_page n p m ds = (if length ds \<le> m then p else flow_page n p 0 (drop m ds))"
  by (induction ds arbitrary: m; case_tac m; simp)+

lemma flow_pages:
  assumes "2 \<le> n"
  shows "page_head l p @ flow_text l n p (n - 1) ds @ page_foot l (flow_page n p (n - 1) ds) = pages_text l p (page_chunks (n - 1) ds)"
proof (induction "n - 1" ds arbitrary: p rule: page_chunks.induct)
  case (1 ds)
  show ?case
  proof (cases "length ds \<le> n - 1")
    case True
    then show ?thesis using flow_take(1) [of l n p "n - 1" ds] flow_take(2) [of n p "n - 1" ds] by (simp add: page_chunks.simps [of _ ds])
  next
    case False
    let ?ds = "drop (n - 1) ds"
    obtain d es where d: "?ds = d # es" using False by (cases "drop (n - 1) ds") auto
    have s: "n - 1 = Suc (n - 2)" using assms by simp
    have "flow_text l n p 0 (d # es) = page_foot l p @ [[]] @ page_head l (p + 1) @ flow_text l n (p + 1) (Suc (n - 2)) (d # es)"
      "flow_page n p 0 (d # es) = flow_page n (p + 1) (Suc (n - 2)) (d # es)" by simp_all
    then have t: "flow_text l n p 0 ?ds = page_foot l p @ [[]] @ page_head l (p + 1) @ flow_text l n (p + 1) (n - 1) ?ds"
      "flow_page n p 0 ?ds = flow_page n (p + 1) (n - 1) ?ds" by (simp_all only: d [symmetric] s [symmetric])
    obtain c cs where c: "page_chunks (n - 1) ?ds = c # cs" using page_chunks.simps [of "n - 1" ?ds] by (metis (full_types))
    have "page_chunks (n - 1) ds = take (n - 1) ds # c # cs" using False assms c by (subst page_chunks.simps) simp
    moreover have "page_head l (p + 1) @ flow_text l n (p + 1) (n - 1) ?ds @ page_foot l (flow_page n (p + 1) (n - 1) ?ds) = pages_text l (p + 1) (c # cs)"
      using 1 [of "p + 1"] False assms c by simp
    ultimately show ?thesis using flow_take(1) [of l n p "n - 1" ds] flow_take(2) [of n p "n - 1" ds] False t by simp
  qed
qed

definition event_line :: "Layout \<Rightarrow> Event \<Rightarrow> string result" where
  "event_line l e = (case e of TotalLine tok v \<Rightarrow> renderTotalLine tok v | BreakLine \<Rightarrow> Inr renderBreakLine
     | RowE row \<Rightarrow> Inr (renderProjection row (lay_idSupp l)) | Trailing t \<Rightarrow> Inr t | _ \<Rightarrow> Inr [])"

definition is_data :: "Event \<Rightarrow> bool" where
  "is_data e = (case e of HeadingE _ \<Rightarrow> False | FootingE _ \<Rightarrow> False | _ \<Rightarrow> True)"

text \<open>A page length, and templates that do not depend on the rows.\<close>

definition paged :: "Layout \<Rightarrow> nat \<Rightarrow> bool" where
  "paged l n \<longleftrightarrow> pageLength (lay_ctx l) = int n \<and> 2 \<le> n \<and> (\<exists>H. lay_heading l = Some H \<and> attr_free H) \<and> (\<forall>F. lay_footing l = Some F \<longrightarrow> attr_free F)"

definition at_page :: "nat \<Rightarrow> nat \<Rightarrow> Renderer \<Rightarrow> bool" where
  "at_page n room r \<longleftrightarrow> linesOnPage r = int n - int room \<and> \<not> footingEmittedThisPage r"

lemma template_head: "paged l n \<Longrightarrow> lay_heading l = Some H \<Longrightarrow> [renderReportTemplate H (lay_ctx l) p a] = page_head l p"
  using attr_free_render [of H _ _ a None] by (auto simp: paged_def page_head_def)

lemma template_foot: "paged l n \<Longrightarrow> lay_footing l = Some F \<Longrightarrow> [renderReportTemplate F (lay_ctx l) p a] = page_foot l p"
  using attr_free_render [of F _ _ a None] by (auto simp: paged_def page_foot_def)

lemma paged_active: "paged l n \<Longrightarrow> paginationActive l"
  by (auto simp: paged_def paginationActive_def)

lemma emit_room:
  assumes "paged l n" "at_page n (Suc room) r"
  shows "emitWithPagination l d r = put_line d r"
  using assms by (auto simp: emitWithPagination_def paged_def at_page_def)

lemma emit_full:
  assumes "paged l n" "at_page n 0 r"
  shows "out_lines (emitWithPagination l d r) = out_lines r @ page_foot l (curPage r) @ [[]] @ page_head l (curPage r + 1) @ [d]"
    "curPage (emitWithPagination l d r) = curPage r + 1" "at_page n (n - 2) (emitWithPagination l d r)"
proof -
  obtain H where H: "lay_heading l = Some H" using assms(1) by (auto simp: paged_def)
  have full: "pageLength (lay_ctx l) \<le> linesOnPage r" "\<not> footingEmittedThisPage r" "2 \<le> n" using assms by (auto simp: paged_def at_page_def)
  note defs = emitWithPagination_def paged_active [OF assms(1)] full H Let_def put_line_def put_template_def advancePage_def emitPageFootingIfNeeded_def
  have h: "renderReportTemplate H (lay_ctx l) p (lastHeadingAttrs r) = renderReportTemplate H (lay_ctx l) p None" for p
    using assms(1) H attr_free_render by (auto simp: paged_def)
  have f: "renderReportTemplate F (lay_ctx l) p (lastHeadingAttrs r) = renderReportTemplate F (lay_ctx l) p None" if "lay_footing l = Some F" for F p
    using assms(1) that attr_free_render by (auto simp: paged_def)
  show "out_lines (emitWithPagination l d r) = out_lines r @ page_foot l (curPage r) @ [[]] @ page_head l (curPage r + 1) @ [d]"
    by (cases "lay_footing l") (simp_all add: defs page_foot_def page_head_def h f)
  show "curPage (emitWithPagination l d r) = curPage r + 1" "at_page n (n - 2) (emitWithPagination l d r)"
    using full(3) by (cases "lay_footing l"; simp add: defs at_page_def)+
qed

lemma render_data_event:
  assumes "is_data e" "render_event l e r = Inr r1"
  shows "\<exists>d. event_line l e = Inr d \<and> out_lines r1 = out_lines (emitWithPagination l d r) \<and> curPage r1 = curPage (emitWithPagination l d r) \<and>
    (\<forall>n room. at_page n room r1 \<longleftrightarrow> at_page n room (emitWithPagination l d r))"
  using assms by (cases e) (auto simp: is_data_def render_event_def event_line_def bindE_eq_Inr_iff at_page_def)

lemma render_data:
  assumes "paged l n" "list_all is_data es" "render l es r = Inr r'" "at_page n room r"
  shows "\<exists>ds room'. mapE (event_line l) es = Inr ds \<and> out_lines r' = out_lines r @ flow_text l n (curPage r) room ds \<and>
    curPage r' = flow_page n (curPage r) room ds \<and> at_page n room' r'"
  using assms(2-4)
proof (induction es arbitrary: r room)
  case (Cons e es)
  then obtain r1 where r1: "render_event l e r = Inr r1" "render l es r1 = Inr r'" by (auto simp: bindE_eq_Inr_iff)
  have data: "list_all is_data es" using Cons(2) by simp
  obtain d where d: "event_line l e = Inr d" "out_lines r1 = out_lines (emitWithPagination l d r)" "curPage r1 = curPage (emitWithPagination l d r)"
      "\<And>n room. at_page n room r1 \<longleftrightarrow> at_page n room (emitWithPagination l d r)"
    using render_data_event [OF _ r1(1)] Cons(2) by auto
  show ?case
  proof (cases room)
    case 0
    then have "at_page n (n - 2) r1" using emit_full(3) [OF assms(1)] Cons(4) d(4) by simp
    then obtain ds room' where ds: "mapE (event_line l) es = Inr ds" "out_lines r' = out_lines r1 @ flow_text l n (curPage r1) (n - 2) ds"
        "curPage r' = flow_page n (curPage r1) (n - 2) ds" "at_page n room' r'" using Cons(1) [OF data r1(2)] by blast
    show ?thesis
      by (intro exI [of _ "d # ds"] exI [of _ room']) (use ds d emit_full(1,2) [OF assms(1), of r d] 0 Cons(4) in simp)
  next
    case (Suc m)
    then have e: "emitWithPagination l d r = put_line d r" using emit_room [OF assms(1)] Cons(4) by simp
    then have "at_page n m r1" using Cons(4) d(4) Suc by (simp add: at_page_def put_line_def)
    then obtain ds room' where ds: "mapE (event_line l) es = Inr ds" "out_lines r' = out_lines r1 @ flow_text l n (curPage r1) m ds"
        "curPage r' = flow_page n (curPage r1) m ds" "at_page n room' r'" using Cons(1) [OF data r1(2)] by blast
    show ?thesis
      by (intro exI [of _ "d # ds"] exI [of _ room']) (use ds d e Suc in \<open>simp add: put_line_def\<close>)
  qed
qed auto

lemma render_append: "render l (es @ fs) r = bindE (render l es r) (render l fs)"
  by (induction es arbitrary: r) (simp_all add: bindE_def split: sum.split)

lemma row_events_data: "list_all is_data (row_events q p g a rs)"
  by (induction q p g a rs rule: row_events.induct) (auto simp: is_data_def Let_def split: option.splits)



end
