(* ===== verification/Basic_Syntax.thy ===== *)
theory Basic_Syntax
  imports Languages Correlatives
begin

text \<open>
  The BASIC language of \<open>src/userland/basic\<close>: the syntax trees of \<open>BasicAst.h\<close>, the names of variables
  (\<open>BasicCompileUtils.cpp\<close>) and builtins (\<open>BasicBuiltinNames.h\<close>), and the expression parser
  (\<open>BasicExpressionParser.cpp\<close>), a tokenizer followed by a recursive descent.  A pointer that the code requires to be
  set is the tree itself, one that may be null an option; the source ranges of the trees, which nothing reads, are left out,
  those of the tokens are kept because the parser looks at them.  The recursion of the parser carries fuel;
  \<open>expression_parse_total\<close> shows that the fuel of \<open>parse_expression\<close> is enough for every text.
\<close>

section \<open>Syntax trees\<close>

datatype UnaryOp = Negate

datatype BinaryOp =
    AddOp | SubtractOp | MultiplyOp | DivideOp | EqualOp | NotEqualOp | LessThanOp | LessOrEqualOp | GreaterThanOp
  | GreaterOrEqualOp

datatype Expr =
    IntLiteralExpr int
  | FloatLiteralExpr double
  | StringLiteralExpr string
  | IdentifierExpr string
  | UnaryExpr UnaryOp Expr
  | BinaryExpr BinaryOp Expr Expr
  | GroupedExpr Expr
  | SubscriptExpr string Expr
  | AttributeAccessExpr string Expr "Expr option"
  | DictFieldExpr string
  | FunctionCallExpr string "Expr list"

section \<open>Names\<close>

definition uppercase :: "string \<Rightarrow> string" where
  "uppercase s = map toupper s"

definition isalnum :: "char \<Rightarrow> bool" where
  "isalnum c \<longleftrightarrow> isalpha c \<or> isdigit c"

definition isReadonlySessionSystemVariable :: "string \<Rightarrow> bool" where
  "isReadonlySessionSystemVariable tok \<longleftrightarrow>
     (let u = uppercase tok in u = ''@USERNO'' \<or> u = ''@ACCOUNT'' \<or> u = ''@LOGNAME'' \<or> u = ''@DEFDATA'')"

definition isValidVariableName :: "string \<Rightarrow> bool" where
  "isValidVariableName tok =
     (case tok of
        [] \<Rightarrow> False
      | first # _ \<Rightarrow>
          if first = CHR ''@'' then isReadonlySessionSystemVariable tok
          else isalpha first \<and>
            list_all isalnum (if 1 < length tok \<and> (last tok = CHR ''$'' \<or> last tok = CHR ''%'') then butlast tok else tok))"

definition builtin_call_names :: "string list" where
  "builtin_call_names =
     [''ABS'', ''SGN'', ''SEQ'', ''LEN'', ''TRIM'', ''LCASE'', ''UCASE'', ''SPACE'', ''INT'', ''MOD'', ''RND'', ''SIN'',
      ''COS'', ''TAN'', ''EXP'', ''LOG'', ''DATE'', ''TIME'', ''SYSTEM'', ''INDEX'', ''FIELD'', ''STR'', ''OCONV'',
      ''ICONV'', ''NUM'', ''CONVERT'', ''STATUS'']"

definition isBuiltinCallName :: "string \<Rightarrow> bool" where
  "isBuiltinCallName upper \<longleftrightarrow> upper \<in> set builtin_call_names"

definition builtinArityBounds :: "string \<Rightarrow> (int \<times> int) option" where
  "builtinArityBounds upper =
     (if upper \<in> {''DATE'', ''TIME'', ''STATUS''} then Some (0, 0)
      else if upper = ''RND'' then Some (0, 1)
      else if upper = ''MOD'' then Some (2, 2)
      else if upper = ''INDEX'' then Some (2, 3)
      else if upper = ''FIELD'' then Some (3, 3)
      else if upper = ''OCONV'' \<or> upper = ''ICONV'' then Some (2, 2)
      else if upper = ''CONVERT'' then Some (3, 3)
      else if upper \<in> {''ABS'', ''SGN'', ''SEQ'', ''LEN'', ''TRIM'', ''LCASE'', ''UCASE'', ''SPACE'', ''INT'', ''SIN'', ''COS'',
                       ''TAN'', ''EXP'', ''LOG'', ''SYSTEM'', ''STR'', ''NUM''} then Some (1, 1)
      else None)"

section \<open>The tokenizer\<close>

datatype ExprTokenType =
    TIntLiteral | TFloatLiteral | TStringLiteral | TIdentifier | TPlus | TMinus | TStar | TSlash | TEq | TNe | TLt | TLe | TGt
  | TGe | TLParen | TRParen | TComma | TEnd

record ExprToken =
  tok_type :: ExprTokenType
  lexeme :: string
  intValue :: int
  range_begin :: nat
  range_end :: nat
  strValue :: string
  floatValue :: double

definition expr_token :: "ExprTokenType \<Rightarrow> string \<Rightarrow> nat \<Rightarrow> nat \<Rightarrow> ExprToken" where
  "expr_token t l b e =
     \<lparr>tok_type = t, lexeme = l, intValue = 0, range_begin = b, range_end = e, strValue = [], floatValue = dbl_zero False\<rparr>"

definition parseIntLiteral :: "string \<Rightarrow> int option" where
  "parseIntLiteral tok = (case strtol_scan tok of
     Some (neg, n, []) \<Rightarrow> if int32 (signed_of neg n) then Some (signed_of neg n) else None
   | _ \<Rightarrow> None)"

definition parseFloatLiteral :: "string \<Rightarrow> double option" where
  "parseFloatLiteral tok = (case strtod tok of Some (v, [], erange) \<Rightarrow> if erange then None else Some v | _ \<Rightarrow> None)"

text \<open>The scans behind the digits of a number: the fraction and the exponent, with what is left of the text.\<close>

definition scan_fraction :: "string \<Rightarrow> string \<times> string" where
  "scan_fraction s = (case s of
     c # r \<Rightarrow> if c = CHR ''.'' then (c # takeWhile isdigit r, dropWhile isdigit r) else ([], s)
   | [] \<Rightarrow> ([], []))"

definition scan_power :: "string \<Rightarrow> (string \<times> string) option" where
  "scan_power s = (case s of
     c # r \<Rightarrow>
       if c = CHR ''E'' \<or> c = CHR ''e''
       then (let (sign, r1) = (case r of d # q \<Rightarrow> if d = CHR ''+'' \<or> d = CHR ''-'' then ([d], q) else ([], r) | [] \<Rightarrow> ([], []))
             in if takeWhile isdigit r1 = [] then None
                else Some (c # sign @ takeWhile isdigit r1, dropWhile isdigit r1))
       else Some ([], s)
   | [] \<Rightarrow> Some ([], []))"

definition lex_number_token :: "nat \<Rightarrow> string \<Rightarrow> string + ExprToken \<times> nat" where
  "lex_number_token i txt =
     (let digits = takeWhile isdigit txt; (frac, r) = scan_fraction (dropWhile isdigit txt)
      in case scan_power r of
           None \<Rightarrow> Inl ''Invalid float literal''
         | Some (pow, _) \<Rightarrow>
             let literal = digits @ frac @ pow; n = length literal
             in if frac \<noteq> [] \<or> pow \<noteq> []
                then (case parseFloatLiteral literal of
                        None \<Rightarrow> Inl (''Invalid float literal '' @ [CHR 0x27] @ literal @ [CHR 0x27])
                      | Some d \<Rightarrow> Inr ((expr_token TFloatLiteral literal i (i + n))\<lparr>floatValue := d\<rparr>, n))
                else (case parseIntLiteral literal of
                        None \<Rightarrow> Inl (''Invalid integer literal '' @ [CHR 0x27] @ literal @ [CHR 0x27])
                      | Some k \<Rightarrow> Inr ((expr_token TIntLiteral literal i (i + n))\<lparr>intValue := k\<rparr>, n)))"

definition lex_identifier_token :: "nat \<Rightarrow> string \<Rightarrow> ExprToken \<times> nat" where
  "lex_identifier_token i txt =
     (let body = takeWhile isalnum txt;
          suffix = (case dropWhile isalnum txt of d # _ \<Rightarrow> if d = CHR ''$'' \<or> d = CHR ''%'' then [d] else [] | [] \<Rightarrow> []);
          n = length body + length suffix
      in (expr_token TIdentifier (body @ suffix) i (i + n), n))"

definition lex_system_token :: "nat \<Rightarrow> string \<Rightarrow> string + ExprToken \<times> nat" where
  "lex_system_token i rest =
     (if rest = [] \<or> \<not> isalpha (hd rest) then Inl (''Invalid identifier after '' @ [CHR 0x27] @ ''@'' @ [CHR 0x27])
      else let ident = CHR ''@'' # takeWhile isalnum rest
           in if \<not> isReadonlySessionSystemVariable ident
              then Inl (''Unknown system variable '' @ [CHR 0x27] @ ident @ [CHR 0x27])
              else Inr (expr_token TIdentifier ident i (i + length ident), length ident))"

definition lex_string_token :: "nat \<Rightarrow> string \<Rightarrow> string + ExprToken \<times> nat" where
  "lex_string_token i rest =
     (let v = takeWhile (\<lambda>c. c \<noteq> DQ) rest; n = length v + 2
      in if dropWhile (\<lambda>c. c \<noteq> DQ) rest = [] then Inl ''Unterminated string literal''
         else Inr ((expr_token TStringLiteral (DQ # v @ [DQ]) i (i + n))\<lparr>strValue := v\<rparr>, n))"

definition single_char_type :: "char \<Rightarrow> ExprTokenType option" where
  "single_char_type c =
     (if c = CHR ''+'' then Some TPlus else if c = CHR ''-'' then Some TMinus else if c = CHR ''*'' then Some TStar
      else if c = CHR ''/'' then Some TSlash else if c = CHR ''='' then Some TEq else if c = CHR ''<'' then Some TLt
      else if c = CHR ''>'' then Some TGt else if c = CHR ''('' then Some TLParen else if c = CHR '')'' then Some TRParen
      else if c = CHR '','' then Some TComma else None)"

text \<open>
  One round of the loop at a character that is no white space: the token and how many characters it takes.  The previous
  token decides how \<open><>\<close> is read.
\<close>

definition lex_expr_token :: "nat \<Rightarrow> ExprToken list \<Rightarrow> char \<Rightarrow> string \<Rightarrow> string + ExprToken \<times> nat" where
  "lex_expr_token i tokens c rest =
     (if c = DQ then lex_string_token i rest
      else if isdigit c then lex_number_token i (c # rest)
      else if c = CHR ''@'' then lex_system_token i rest
      else if isalpha c then Inr (lex_identifier_token i (c # rest))
      else if c = CHR ''<'' \<and> rest \<noteq> [] \<and> hd rest = CHR ''='' then Inr (expr_token TLe ''<='' i (i + 2), 2)
      else if c = CHR ''>'' \<and> rest \<noteq> [] \<and> hd rest = CHR ''='' then Inr (expr_token TGe ''>='' i (i + 2), 2)
      else if c = CHR ''<'' \<and> rest \<noteq> [] \<and> hd rest = CHR ''>'' then
        (if tokens \<noteq> [] \<and> tok_type (last tokens) = TIdentifier \<and> range_end (last tokens) = i
         then Inr (expr_token TLt ''<'' i (i + 1), 1)
         else Inr (expr_token TNe ''<>'' i (i + 2), 2))
      else case single_char_type c of
             Some t \<Rightarrow> Inr (expr_token t [c] i (i + 1), 1)
           | None \<Rightarrow> Inl (''Unexpected token '' @ [CHR 0x27, c, CHR 0x27]))"

lemma lex_expr_token_pos: "lex_expr_token i tokens c rest = Inr (t, n) \<Longrightarrow> 0 < n"
  by (auto simp: lex_expr_token_def lex_string_token_def lex_number_token_def lex_system_token_def lex_identifier_token_def
      isalnum_def Let_def split: if_splits option.splits prod.splits)

function tokenizeExpression :: "nat \<Rightarrow> ExprToken list \<Rightarrow> string \<Rightarrow> string + ExprToken list" where
  "tokenizeExpression i tokens txt =
     (case txt of
        [] \<Rightarrow> Inr (tokens @ [expr_token TEnd [] i i])
      | c # rest \<Rightarrow>
          if isspace c then tokenizeExpression (i + 1) tokens rest
          else case lex_expr_token i tokens c rest of
                 Inl e \<Rightarrow> Inl e
               | Inr (t, n) \<Rightarrow> tokenizeExpression (i + n) (tokens @ [t]) (drop n txt))"
  by pat_completeness auto

termination
  by (relation "measure (\<lambda>(i, tokens, txt). length txt)") (auto dest!: lex_expr_token_pos)

declare tokenizeExpression.simps [simp del]

section \<open>The parser\<close>

text \<open>
  The state of the parser is the list of the tokens from \<open>pos_\<close> on; \<open>End\<close>, the last of them, is never consumed.  \<open>None\<close> is
  a recursion out of fuel, \<open>Inl\<close> the text in \<open>error_\<close>.
\<close>

type_synonym 'a expr_parse = "(string + 'a \<times> ExprToken list) option"

definition bindX :: "'a expr_parse \<Rightarrow> ('a \<Rightarrow> ExprToken list \<Rightarrow> 'b expr_parse) \<Rightarrow> 'b expr_parse" where
  "bindX m k = (case m of None \<Rightarrow> None | Some (Inl e) \<Rightarrow> Some (Inl e) | Some (Inr (x, ts)) \<Rightarrow> k x ts)"

definition okX :: "'a \<Rightarrow> ExprToken list \<Rightarrow> 'a expr_parse" where
  "okX x ts = Some (Inr (x, ts))"

definition errX :: "string \<Rightarrow> 'a expr_parse" where
  "errX e = Some (Inl e)"

definition current_type :: "ExprToken list \<Rightarrow> ExprTokenType" where
  "current_type ts = (case ts of t # _ \<Rightarrow> tok_type t | [] \<Rightarrow> TEnd)"

definition toBinaryOp :: "ExprTokenType \<Rightarrow> BinaryOp" where
  "toBinaryOp t = (case t of
     TPlus \<Rightarrow> AddOp | TMinus \<Rightarrow> SubtractOp | TStar \<Rightarrow> MultiplyOp | TSlash \<Rightarrow> DivideOp | TEq \<Rightarrow> EqualOp | TNe \<Rightarrow> NotEqualOp
   | TLt \<Rightarrow> LessThanOp | TLe \<Rightarrow> LessOrEqualOp | TGt \<Rightarrow> GreaterThanOp | TGe \<Rightarrow> GreaterOrEqualOp | _ \<Rightarrow> AddOp)"

definition isComparisonToken :: "ExprTokenType \<Rightarrow> bool" where
  "isComparisonToken t \<longleftrightarrow> t = TEq \<or> t = TNe \<or> t = TLt \<or> t = TLe \<or> t = TGt \<or> t = TGe"

definition unexpected :: "ExprToken list \<Rightarrow> string" where
  "unexpected ts = ''Unexpected token '' @ [CHR 0x27] @ (case ts of t # _ \<Rightarrow> lexeme t | [] \<Rightarrow> []) @ [CHR 0x27]"

definition expectX :: "ExprTokenType \<Rightarrow> string \<Rightarrow> ExprToken list \<Rightarrow> (ExprToken list \<Rightarrow> 'a expr_parse) \<Rightarrow> 'a expr_parse" where
  "expectX t msg ts k = (if current_type ts \<noteq> t then errX msg else k (tl ts))"

text \<open>The arity check behind the argument list of a builtin.\<close>

definition check_arity :: "string \<Rightarrow> int \<Rightarrow> int \<Rightarrow> int \<Rightarrow> string option" where
  "check_arity name minArgs maxArgs got =
     (if got < minArgs \<or> maxArgs < got
      then Some (name @ '' expects '' @ show_int minArgs @ '' to '' @ show_int maxArgs @ '' argument(s), got '' @ show_int got)
      else None)"

text \<open>
  An attribute index follows its variable without a blank (\<open>IDENT<...>\<close>); otherwise \<open><\<close> is a comparison.
\<close>

definition adjacent_lt :: "ExprToken \<Rightarrow> ExprToken list \<Rightarrow> bool" where
  "adjacent_lt tok ts \<longleftrightarrow> (case ts of t # _ \<Rightarrow> tok_type t = TLt \<and> range_begin t = range_end tok | [] \<Rightarrow> False)"

function (sequential) parseComparisonX :: "nat \<Rightarrow> ExprToken list \<Rightarrow> Expr expr_parse"
  and parseAddSub :: "nat \<Rightarrow> ExprToken list \<Rightarrow> Expr expr_parse"
  and addsub_loop :: "nat \<Rightarrow> Expr \<Rightarrow> ExprToken list \<Rightarrow> Expr expr_parse"
  and parseMulDiv :: "nat \<Rightarrow> ExprToken list \<Rightarrow> Expr expr_parse"
  and muldiv_loop :: "nat \<Rightarrow> Expr \<Rightarrow> ExprToken list \<Rightarrow> Expr expr_parse"
  and parseUnaryX :: "nat \<Rightarrow> ExprToken list \<Rightarrow> Expr expr_parse"
  and parse_arguments :: "nat \<Rightarrow> string \<Rightarrow> Expr list \<Rightarrow> ExprToken list \<Rightarrow> Expr list expr_parse"
  and parsePrimaryX :: "nat \<Rightarrow> ExprToken list \<Rightarrow> Expr expr_parse" where
  "parseComparisonX 0 ts = None"
| "parseComparisonX (Suc n) ts =
     bindX (parseAddSub n ts) (\<lambda>l ts1.
       if \<not> isComparisonToken (current_type ts1) then okX l ts1
       else bindX (parseAddSub n (tl ts1)) (\<lambda>r. okX (BinaryExpr (toBinaryOp (current_type ts1)) l r)))"
| "parseAddSub 0 ts = None"
| "parseAddSub (Suc n) ts = bindX (parseMulDiv n ts) (addsub_loop n)"
| "addsub_loop 0 l ts = None"
| "addsub_loop (Suc n) l ts =
     (if current_type ts = TPlus \<or> current_type ts = TMinus
      then bindX (parseMulDiv n (tl ts)) (\<lambda>r. addsub_loop n (BinaryExpr (toBinaryOp (current_type ts)) l r))
      else okX l ts)"
| "parseMulDiv 0 ts = None"
| "parseMulDiv (Suc n) ts = bindX (parseUnaryX n ts) (muldiv_loop n)"
| "muldiv_loop 0 l ts = None"
| "muldiv_loop (Suc n) l ts =
     (if current_type ts = TStar \<or> current_type ts = TSlash
      then bindX (parseUnaryX n (tl ts)) (\<lambda>r. muldiv_loop n (BinaryExpr (toBinaryOp (current_type ts)) l r))
      else okX l ts)"
| "parseUnaryX 0 ts = None"
| "parseUnaryX (Suc n) ts =
     (if current_type ts = TMinus then bindX (parseUnaryX n (tl ts)) (\<lambda>e. okX (UnaryExpr Negate e))
      else parsePrimaryX n ts)"
| "parse_arguments 0 upper args ts = None"
| "parse_arguments (Suc n) upper args ts =
     bindX (parseComparisonX n ts) (\<lambda>arg ts1.
       if current_type ts1 = TComma
       then (if current_type (tl ts1) = TRParen then errX (''Trailing comma in '' @ upper @ '' argument list'')
             else parse_arguments n upper (args @ [arg]) (tl ts1))
       else okX (args @ [arg]) ts1)"
| "parsePrimaryX 0 ts = None"
| "parsePrimaryX (Suc n) ts =
     (if current_type ts = TIntLiteral then okX (IntLiteralExpr (intValue (hd ts))) (tl ts)
      else if current_type ts = TFloatLiteral then okX (FloatLiteralExpr (floatValue (hd ts))) (tl ts)
      else if current_type ts = TStringLiteral then okX (StringLiteralExpr (strValue (hd ts))) (tl ts)
      else if current_type ts = TIdentifier then
        (let tok = hd ts; ts1 = tl ts; upper = uppercase (lexeme tok)
         in if current_type ts1 = TLParen then
              (if isBuiltinCallName upper then
                 (case builtinArityBounds upper of
                    None \<Rightarrow> errX (''Internal error: missing arity for '' @ upper)
                  | Some (minArgs, maxArgs) \<Rightarrow>
                      bindX (if current_type (tl ts1) = TRParen
                             then (if 0 < minArgs then errX (upper @ '' requires an argument'') else okX [] (tl ts1))
                             else parse_arguments n upper [] (tl ts1))
                        (\<lambda>args ts2. if current_type ts2 \<noteq> TRParen then errX (''Missing '' @ [CHR 0x27] @ '')'' @ [CHR 0x27] @ '' after '' @ upper @ '' argument'')
                          else case check_arity upper minArgs maxArgs (int (length args)) of
                            Some e \<Rightarrow> errX e
                          | None \<Rightarrow> okX (FunctionCallExpr upper args) (tl ts2)))
               else bindX (parseAddSub n (tl ts1)) (\<lambda>idx ts2.
                      expectX TRParen (''Missing '' @ [CHR 0x27] @ '')'' @ [CHR 0x27] @ '' in array subscript'') ts2 (\<lambda>ts3.
                        okX (SubscriptExpr (lexeme tok) idx) ts3)))
            else if adjacent_lt tok ts1 then
              (if current_type (tl ts1) = TComma \<or> current_type (tl ts1) = TGt \<or> current_type (tl ts1) = TEnd
               then errX ''Attribute index cannot be empty''
               else bindX (parseAddSub n (tl ts1)) (\<lambda>attr ts2.
                 if current_type ts2 = TComma
                 then (if current_type (tl ts2) = TGt \<or> current_type (tl ts2) = TEnd then errX ''Value index cannot be empty''
                       else bindX (parseAddSub n (tl ts2)) (\<lambda>valueIndex ts3.
                         expectX TGt (''Missing '' @ [CHR 0x27] @ ''>'' @ [CHR 0x27] @ '' in attribute access'') ts3 (\<lambda>ts4.
                           okX (AttributeAccessExpr (lexeme tok) attr (Some valueIndex)) ts4)))
                 else expectX TGt (''Missing '' @ [CHR 0x27] @ ''>'' @ [CHR 0x27] @ '' in attribute access'') ts2 (\<lambda>ts3.
                        okX (AttributeAccessExpr (lexeme tok) attr None) ts3)))
            else okX (IdentifierExpr (lexeme tok)) ts1)
      else if current_type ts = TLParen then
        (if current_type (tl ts) = TRParen then errX ''empty expression''
         else bindX (parseAddSub n (tl ts)) (\<lambda>inner ts1.
                expectX TRParen (''Missing '' @ [CHR 0x27] @ '')'' @ [CHR 0x27]) ts1 (\<lambda>ts2. okX (GroupedExpr inner) ts2)))
      else errX (if current_type ts = TEnd then ''empty expression'' else unexpected ts))"
  by pat_completeness auto

termination
  by (relation "measure (case_sum (case_sum (case_sum fst fst) (case_sum fst fst)) (case_sum (case_sum fst fst) (case_sum fst fst)))")
    simp_all

definition parse_tokens :: "nat \<Rightarrow> ExprToken list \<Rightarrow> (string + Expr) option" where
  "parse_tokens n ts =
     (if length ts = 1 \<and> current_type ts = TEnd then Some (Inl ''empty expression'')
      else case parseComparisonX n ts of
             None \<Rightarrow> None
           | Some (Inl e) \<Rightarrow> Some (Inl e)
           | Some (Inr (e, ts1)) \<Rightarrow> if current_type ts1 \<noteq> TEnd then Some (Inl (unexpected ts1)) else Some (Inr e))"

definition expr_fuel :: "ExprToken list \<Rightarrow> nat" where
  "expr_fuel ts = 10 * length ts + 10"

text \<open>\<open>BasicExpressionParser::parse\<close>; the fuel never runs out (\<open>expression_parse_total\<close> below).\<close>

definition parse_expression :: "string \<Rightarrow> string + Expr" where
  "parse_expression txt =
     (case tokenizeExpression 0 [] txt of
        Inl e \<Rightarrow> Inl e
      | Inr ts \<Rightarrow> (case parse_tokens (expr_fuel ts) ts of None \<Rightarrow> Inl ''out of fuel'' | Some r \<Rightarrow> r))"

section \<open>The fuel is enough\<close>

lemma current_type_shorter: "current_type ts \<noteq> TEnd \<Longrightarrow> length (tl ts) < length ts"
  by (cases ts) (simp_all add: current_type_def)

definition repliesX :: "nat \<Rightarrow> 'a expr_parse \<Rightarrow> bool" where
  "repliesX b m = (case m of None \<Rightarrow> False | Some (Inl _) \<Rightarrow> True | Some (Inr (x, ts)) \<Rightarrow> length ts < b)"

lemma repliesX_simps [simp]: "repliesX b (errX e)" "repliesX b (okX x ts) \<longleftrightarrow> length ts < b" "\<not> repliesX b None"
  by (simp_all add: repliesX_def errX_def okX_def)

lemma expr_parse_cases:
  obtains (NoFuel) "m = None" | (Failed) e where "m = errX e" | (Parsed) x ts where "m = okX x ts"
  unfolding errX_def okX_def by (metis option.exhaust sum.exhaust surj_pair)

lemma bindX_simps [simp]: "bindX None k = None" "bindX (errX e) k = errX e" "bindX (okX x ts) k = k x ts"
  by (simp_all add: bindX_def errX_def okX_def)

lemma repliesX_bind: "repliesX b m \<Longrightarrow> (\<And>x ts. length ts < b \<Longrightarrow> repliesX b' (k x ts)) \<Longrightarrow> repliesX b' (bindX m k)"
  by (cases m rule: expr_parse_cases) simp_all

lemma repliesX_expect:
  "t \<noteq> TEnd \<Longrightarrow> (\<And>us. length us < length ts \<Longrightarrow> repliesX b (k us)) \<Longrightarrow> repliesX b (expectX t msg ts k)"
  using current_type_shorter [of ts] by (auto simp: expectX_def)

lemma repliesX_if: "(c \<Longrightarrow> repliesX b m) \<Longrightarrow> (\<not> c \<Longrightarrow> repliesX b m') \<Longrightarrow> repliesX b (if c then m else m')"
  by simp

lemma repliesX_option:
  "repliesX b m \<Longrightarrow> (\<And>x. v = Some x \<Longrightarrow> repliesX b (f x)) \<Longrightarrow> repliesX b (case v of None \<Rightarrow> m | Some x \<Rightarrow> f x)"
  "(\<And>x. v = Some x \<Longrightarrow> repliesX b (f x)) \<Longrightarrow> repliesX b m \<Longrightarrow> repliesX b (case v of Some x \<Rightarrow> f x | None \<Rightarrow> m)"
  by (simp_all split: option.split)

lemma repliesX_pair: "repliesX b (f (fst p) (snd p)) \<Longrightarrow> repliesX b (case p of (x, y) \<Rightarrow> f x y)"
  by (simp add: case_prod_beta)

lemma repliesX_mono: "repliesX b m \<Longrightarrow> b \<le> b' \<Longrightarrow> repliesX b' m"
  by (cases m rule: expr_parse_cases) auto

definition fueledX :: "nat \<Rightarrow> bool" where
  "fueledX n \<longleftrightarrow>
     (\<forall>ts. 10 * length ts + 6 < n \<longrightarrow> repliesX (length ts) (parseComparisonX n ts)) \<and>
     (\<forall>ts. 10 * length ts + 5 < n \<longrightarrow> repliesX (length ts) (parseAddSub n ts)) \<and>
     (\<forall>l ts. 10 * length ts + 4 < n \<longrightarrow> repliesX (Suc (length ts)) (addsub_loop n l ts)) \<and>
     (\<forall>ts. 10 * length ts + 3 < n \<longrightarrow> repliesX (length ts) (parseMulDiv n ts)) \<and>
     (\<forall>l ts. 10 * length ts + 2 < n \<longrightarrow> repliesX (Suc (length ts)) (muldiv_loop n l ts)) \<and>
     (\<forall>ts. 10 * length ts + 1 < n \<longrightarrow> repliesX (length ts) (parseUnaryX n ts)) \<and>
     (\<forall>u args ts. 10 * length ts + 7 < n \<longrightarrow> repliesX (length ts) (parse_arguments n u args ts)) \<and>
     (\<forall>ts. 10 * length ts < n \<longrightarrow> repliesX (length ts) (parsePrimaryX n ts))"

lemma comparison_not_End: "isComparisonToken (current_type ts) \<Longrightarrow> length (tl ts) < length ts"
  by (rule current_type_shorter) (auto simp: isComparisonToken_def)

lemma fueledX_Suc:
  assumes "fueledX n"
  shows "fueledX (Suc n)"
proof -
  note use = assms [unfolded fueledX_def]
  have co: "repliesX b (parseComparisonX n ts)" if "10 * length ts + 6 < n" "length ts \<le> b" for ts b using use that repliesX_mono by blast
  have ad: "repliesX b (parseAddSub n ts)" if "10 * length ts + 5 < n" "length ts \<le> b" for ts b using use that repliesX_mono by blast
  have al: "repliesX b (addsub_loop n l ts)" if "10 * length ts + 4 < n" "length ts < b" for l ts b using use that repliesX_mono Suc_leI by blast
  have mu: "repliesX b (parseMulDiv n ts)" if "10 * length ts + 3 < n" "length ts \<le> b" for ts b using use that repliesX_mono by blast
  have ml: "repliesX b (muldiv_loop n l ts)" if "10 * length ts + 2 < n" "length ts < b" for l ts b using use that repliesX_mono Suc_leI by blast
  have un: "repliesX b (parseUnaryX n ts)" if "10 * length ts + 1 < n" "length ts \<le> b" for ts b using use that repliesX_mono by blast
  have ar: "repliesX b (parse_arguments n u args ts)" if "10 * length ts + 7 < n" "length ts \<le> b" for u args ts b using use that repliesX_mono by blast
  have pr: "repliesX b (parsePrimaryX n ts)" if "10 * length ts < n" "length ts \<le> b" for ts b using use that repliesX_mono by blast
  show ?thesis unfolding fueledX_def
  proof (intro conjI allI impI)
    fix ts :: "ExprToken list" and l :: Expr and u :: string and args :: "Expr list"
    show "repliesX (length ts) (parseComparisonX (Suc n) ts)" if h: "10 * length ts + 6 < Suc n"
      using h by (auto intro!: repliesX_bind [OF ad [of ts "length ts"]] repliesX_bind [OF ad [of _ "length ts"]] dest!: comparison_not_End)
    show "repliesX (length ts) (parseAddSub (Suc n) ts)" if h: "10 * length ts + 5 < Suc n"
      using h by (auto intro!: repliesX_bind [OF mu [of ts "length ts"]] al)
    show "repliesX (Suc (length ts)) (addsub_loop (Suc n) l ts)" if h: "10 * length ts + 4 < Suc n"
      using h current_type_shorter [of ts] by (auto intro!: repliesX_bind [OF mu [of _ "length ts"]] al)
    show "repliesX (length ts) (parseMulDiv (Suc n) ts)" if h: "10 * length ts + 3 < Suc n"
      using h by (auto intro!: repliesX_bind [OF un [of ts "length ts"]] ml)
    show "repliesX (Suc (length ts)) (muldiv_loop (Suc n) l ts)" if h: "10 * length ts + 2 < Suc n"
      using h current_type_shorter [of ts] by (auto intro!: repliesX_bind [OF un [of _ "length ts"]] ml)
    show "repliesX (length ts) (parseUnaryX (Suc n) ts)" if h: "10 * length ts + 1 < Suc n"
      using h current_type_shorter [of ts] by (auto intro!: repliesX_bind [OF un [of _ "length ts"]] pr)
    show "repliesX (length ts) (parse_arguments (Suc n) u args ts)" if h: "10 * length ts + 7 < Suc n"
    proof -
      have "repliesX (length ts) (parse_arguments n u xs (tl us))" if "length us < length ts" "current_type us = TComma" for us xs
        using current_type_shorter [of us] that h by (intro ar) auto
      then show ?thesis using h by (auto intro!: repliesX_bind [OF co [of ts "length ts"]])
    qed
    show "repliesX (length ts) (parsePrimaryX (Suc n) ts)" if h: "10 * length ts < Suc n"
    proof (cases "current_type ts = TEnd")
      case False
      have a: "length (tl ts) < length ts" by (rule current_type_shorter [OF False])
      have e: "repliesX (length ts) (bindX (parseAddSub n us) k)"
        if "length us < length ts" "\<And>x vs. length vs < length ts \<Longrightarrow> repliesX (length ts) (k x vs)" for us and k :: "Expr \<Rightarrow> ExprToken list \<Rightarrow> Expr expr_parse"
        by (rule repliesX_bind [OF ad [of us "length ts"]]) (use that h in auto)
      have g: "repliesX (length ts) (parse_arguments n u xs us)" if "length us < length ts" for u xs us
        using that h by (intro ar) auto
      have x: "repliesX (length ts) (expectX t msg us k)"
        if "t \<noteq> TEnd" "length us < length ts" "\<And>vs. length vs < length ts \<Longrightarrow> repliesX (length ts) (k vs)"
        for t msg us and k :: "ExprToken list \<Rightarrow> Expr expr_parse"
        by (rule repliesX_expect [OF that(1)]) (use that(2,3) in auto)
      have y: "repliesX (length ts) (bindX m k)"
        if "repliesX (length ts) m" "\<And>x vs. length vs < length ts \<Longrightarrow> repliesX (length ts) (k x vs)"
        for m :: "Expr list expr_parse" and k :: "Expr list \<Rightarrow> ExprToken list \<Rightarrow> Expr expr_parse"
        by (rule repliesX_bind [OF that])
      have t: "length (tl us) < length ts" if "length us < length ts" for us :: "ExprToken list" using that by simp
      show ?thesis unfolding parsePrimaryX.simps Let_def
        by (intro repliesX_if repliesX_option repliesX_pair e g x y) (use a in simp_all)
    qed simp
  qed
qed

lemma fueledX_all: "fueledX n"
  by (induction n) (simp add: fueledX_def, rule fueledX_Suc)

lemma expression_parse_total: "10 * length ts + 6 < n \<Longrightarrow> parse_tokens n ts \<noteq> None"
  using fueledX_all [of n, unfolded fueledX_def, THEN conjunct1, rule_format, of ts]
  by (auto simp: parse_tokens_def repliesX_def split: option.splits sum.splits)

end
