(* ===== verification/Basic_Statements.thy ===== *)
theory Basic_Statements
  imports Basic_Syntax
begin

text \<open>
  BASIC statements: the trees of \<open>BasicAst.h\<close>, the line-by-line statement parser
  (\<open>BasicStatementParser.cpp\<close>), one definition per keyword, and the program buffer with its renumbering
  (\<open>BasicProgram.cpp\<close>).  A line is parsed to a statement or to the message of the error that \<open>parse\<close> records for it.  An arm of
  \<open>IF\<close> or \<open>ELSE\<close> is parsed by the same parser, as a program of one line; the recursion carries fuel, and
  \<open>statement_fuel_irrelevant\<close> shows that the length of the line is always enough.  The trees of \<open>BasicNormalizedIr.h\<close> repeat those of
  \<open>BasicAst.h\<close>, so one datatype serves both.
\<close>

section \<open>Statement trees\<close>

datatype Stmt =
    LetStmt string Expr
  | InputStmt "Expr option" string
  | ChainStmt Expr
  | GotoStmt int
  | GosubStmt int
  | ReturnStmt
  | ForStmt string Expr Expr "Expr option"
  | NextStmt string
  | IfStmt Expr BranchArm "BranchArm option"
  | PrintStmt Expr bool
  | RemStmt
  | StopStmt
  | EndStmt
  | DimStmt string Expr
  | LetArrayStmt string Expr Expr
  | ClearStmt
  | OpenStmt Expr string "BranchArm option"
  | ReadStmt string string Expr "BranchArm option"
  | ReadUStmt string string Expr "BranchArm option"
  | WriteStmt Expr string Expr "BranchArm option"
  | WriteUStmt Expr string Expr "BranchArm option"
  | ReadNextStmt string string "BranchArm option"
  | ReadVStmt string string Expr Expr "Expr option" "BranchArm option"
  | WriteVStmt Expr string Expr Expr "Expr option" "BranchArm option"
  | CloseStmt string
  | ReleaseStmt string Expr
  | OnErrorStmt bool int
  | MatAssignStmt string "Expr option" string
  | MatReadStmt string string Expr "BranchArm option"
  | MatWriteStmt string string Expr "BranchArm option"
and BranchArm = BranchArm (arm_line: "int option") (arm_inline: "Stmt option")

section \<open>Scanning a line\<close>

text \<open>\<open>iss >> word\<close> with what is left in the stream, and \<open>std::getline(iss, rest)\<close>.\<close>

definition next_word :: "string \<Rightarrow> string \<times> string" where
  "next_word s = (let t = dropWhile isspace s in (takeWhile (\<lambda>c. \<not> isspace c) t, dropWhile (\<lambda>c. \<not> isspace c) t))"

definition rest_of_line :: "string \<Rightarrow> string" where
  "rest_of_line s = takeWhile (\<lambda>c. c \<noteq> LF) s"

definition words_of :: "string \<Rightarrow> string list" where
  "words_of s = filter (\<lambda>w. w \<noteq> []) (split_on SP (map (\<lambda>c. if isspace c then SP else c) s))"

definition char_pos :: "char \<Rightarrow> string \<Rightarrow> nat option" where
  "char_pos c s = (if c \<in> set s then Some (length (takeWhile (\<lambda>d. d \<noteq> c) s)) else None)"

definition last_pos :: "char \<Rightarrow> string \<Rightarrow> nat option" where
  "last_pos c s = (if c \<in> set s then Some (length s - 1 - length (takeWhile (\<lambda>d. d \<noteq> c) (rev s))) else None)"

definition starts_with :: "string \<Rightarrow> string \<Rightarrow> bool" where
  "starts_with p s \<longleftrightarrow> take (length p) s = p"

definition quoted :: "string \<Rightarrow> string" where
  "quoted s = [CHR 0x27] @ s @ [CHR 0x27]"

definition parsePositiveLineNumber :: "string \<Rightarrow> int option" where
  "parsePositiveLineNumber txt =
     (let tok = trim txt
      in if tok = [] \<or> \<not> list_all isdigit tok then None
         else case stoi tok of Inl _ \<Rightarrow> None | Inr (n, _) \<Rightarrow> if 0 < n then Some n else None)"

text \<open>The first place where the keyword stands alone.\<close>

definition stands_alone :: "string \<Rightarrow> string \<Rightarrow> nat \<Rightarrow> bool" where
  "stands_alone upperText keyword pos \<longleftrightarrow>
     occurs_at keyword upperText pos \<and> (pos = 0 \<or> isspace (upperText ! (pos - 1))) \<and>
     (length upperText \<le> pos + length keyword \<or> isspace (upperText ! (pos + length keyword)))"

definition findKeywordToken :: "string \<Rightarrow> string \<Rightarrow> nat option" where
  "findKeywordToken upperText keyword = find (stands_alone upperText keyword) [0..<length upperText]"

section \<open>Checks with a message\<close>

definition demand :: "bool \<Rightarrow> string \<Rightarrow> string + 'b \<Rightarrow> string + 'b" where
  "demand b msg k = (if b then k else Inl msg)"

definition needs :: "'a option \<Rightarrow> string \<Rightarrow> ('a \<Rightarrow> string + 'b) \<Rightarrow> string + 'b" where
  "needs v msg k = (case v of None \<Rightarrow> Inl msg | Some x \<Rightarrow> k x)"

definition expr_of :: "string \<Rightarrow> string \<Rightarrow> (Expr \<Rightarrow> string + 'b) \<Rightarrow> string + 'b" where
  "expr_of ctx txt k = (case parse_expression txt of Inl e \<Rightarrow> Inl (ctx @ '': '' @ e) | Inr x \<Rightarrow> k x)"

definition writable :: "string \<Rightarrow> string + 'b \<Rightarrow> string + 'b" where
  "writable nm k = demand (\<not> isReadonlySessionSystemVariable nm) (''Read-only system variable '' @ quoted nm) k"

section \<open>Branch arms\<close>

text \<open>The argument \<open>statement\<close> is the parser for a program of one line.\<close>

definition parseBranchArmSpec :: "(string \<Rightarrow> string + Stmt) \<Rightarrow> string \<Rightarrow> string \<Rightarrow> string + BranchArm" where
  "parseBranchArmSpec statement txt ctx =
     (let tok = trim txt
      in if tok = [] then Inl (ctx @ '' requires a line number or statement'')
         else case parsePositiveLineNumber tok of
                Some n \<Rightarrow> Inr (BranchArm (Some n) None)
              | None \<Rightarrow>
                  if CHR '':'' \<in> set tok then Inl (ctx @ '' supports exactly one statement'')
                  else let branchOp = uppercase (fst (next_word tok))
                       in if branchOp = ''FOR'' \<or> branchOp = ''NEXT'' then Inl (ctx @ '' does not allow FOR/NEXT'')
                          else bindE (statement tok) (\<lambda>st. Inr (BranchArm None (Some st))))"

text \<open>The common beginning of the file statements: an arm behind \<open>ELSE\<close> is cut off first.\<close>

definition else_arm ::
  "(string \<Rightarrow> string + Stmt) \<Rightarrow> string \<Rightarrow> string \<Rightarrow> (BranchArm option \<Rightarrow> string \<Rightarrow> string + 'b) \<Rightarrow> string + 'b" where
  "else_arm statement ctx rest k =
     (case findKeywordToken (uppercase rest) ''ELSE'' of
        None \<Rightarrow> k None rest
      | Some p \<Rightarrow> bindE (parseBranchArmSpec statement (trim (drop (p + 4) rest)) ctx) (\<lambda>arm. k (Some arm) (trim (take p rest))))"

definition tryParseDictFieldToken :: "string \<Rightarrow> string option" where
  "tryParseDictFieldToken txt =
     (let trimmed = trim txt; upper = uppercase trimmed
      in if trimmed = [] \<or> \<not> starts_with ''DICT<'' upper \<or> last trimmed \<noteq> CHR ''>'' then None
         else let inner = trim (take (length trimmed - 6) (drop 5 trimmed));
                  bare = (if 2 \<le> length inner \<and>
                             (hd inner = DQ \<and> last inner = DQ \<or> hd inner = CHR 0x27 \<and> last inner = CHR 0x27)
                          then trim (butlast (tl inner)) else inner)
              in if inner = [] \<or> bare = [] then None else Some bare)"

section \<open>Assignments and arrays\<close>

definition subscript_of :: "string \<Rightarrow> nat \<Rightarrow> nat \<Rightarrow> string" where
  "subscript_of s l r = trim (take (r - l - 1) (drop (l + 1) s))"

definition parse_let :: "string \<Rightarrow> string + Stmt" where
  "parse_let rest =
     needs (char_pos CHR ''='' rest) (''LET requires assignment with '' @ quoted ''='') (\<lambda>eqPos.
       let lhsRaw = trim (take eqPos rest); rhsRaw = trim (drop (eqPos + 1) rest)
       in demand (rhsRaw \<noteq> []) ''LET requires an expression''
            (case char_pos CHR ''('' lhsRaw of
               Some lparenPos \<Rightarrow>
                 let baseName = trim (take lparenPos lhsRaw); missing = ''Missing '' @ quoted '')'' @ '' in array subscript''
                 in demand (isValidVariableName baseName) (''Invalid array variable name '' @ quoted baseName) (writable baseName
                     (needs (last_pos CHR '')'' lhsRaw) missing (\<lambda>rparenPos. demand (lparenPos < rparenPos) missing
                       (let idxRaw = subscript_of lhsRaw lparenPos rparenPos
                        in demand (idxRaw \<noteq> []) ''Array subscript cannot be empty''
                             (expr_of ''Array index error'' idxRaw (\<lambda>idx. expr_of ''LET expression error'' rhsRaw (\<lambda>val.
                                Inr (LetArrayStmt baseName idx val))))))))
             | None \<Rightarrow>
                 demand (isValidVariableName lhsRaw) (''Invalid variable name '' @ quoted lhsRaw) (writable lhsRaw
                   (expr_of ''LET expression error'' rhsRaw (\<lambda>e. Inr (LetStmt lhsRaw e))))))"

definition parse_dim :: "string \<Rightarrow> string + Stmt" where
  "parse_dim rest =
     needs (char_pos CHR ''('' rest) (''DIM requires '' @ quoted ''('' @ '' after variable name'') (\<lambda>lparenPos.
       let baseName = trim (take lparenPos rest); missing = ''DIM missing closing '' @ quoted '')''
       in demand (isValidVariableName baseName) (''Invalid array variable name '' @ quoted baseName) (writable baseName
            (needs (last_pos CHR '')'' rest) missing (\<lambda>rparenPos. demand (lparenPos < rparenPos) missing
              (let sizeRaw = subscript_of rest lparenPos rparenPos
               in demand (sizeRaw \<noteq> []) ''DIM size expression cannot be empty''
                    (expr_of ''DIM size error'' sizeRaw (\<lambda>e. Inr (DimStmt baseName e))))))))"

definition parse_input :: "string \<Rightarrow> string + Stmt" where
  "parse_input rest =
     demand (rest \<noteq> []) ''INPUT requires a variable name''
       (let finish = (\<lambda>promptExpr varName.
              demand (isValidVariableName varName) (''Invalid variable name '' @ quoted varName) (writable varName
                (Inr (InputStmt promptExpr varName))))
        in case last_pos CHR '','' rest of
             Some commaPos \<Rightarrow>
               let promptRaw = trim (take commaPos rest); varRaw = trim (drop (commaPos + 1) rest)
               in demand (promptRaw \<noteq> []) ''INPUT prompt expression cannot be empty''
                   (demand (varRaw \<noteq> []) ''INPUT requires a variable name''
                     (expr_of ''INPUT prompt expression error'' promptRaw (\<lambda>e. finish (Some e) varRaw)))
           | None \<Rightarrow> (case words_of rest of [w] \<Rightarrow> finish None w | _ \<Rightarrow> Inl ''INPUT requires a variable name''))"

section \<open>Control\<close>

definition parse_chain :: "string \<Rightarrow> string + Stmt" where
  "parse_chain rest = demand (rest \<noteq> []) ''CHAIN requires a program name expression''
     (expr_of ''CHAIN program expression error'' rest (\<lambda>e. Inr (ChainStmt e)))"

definition parse_goto :: "string \<Rightarrow> string + Stmt" where
  "parse_goto rest = needs (parsePositiveLineNumber rest) ''GOTO requires a line number'' (\<lambda>n. Inr (GotoStmt n))"

definition parse_gosub :: "string \<Rightarrow> string + Stmt" where
  "parse_gosub rest = needs (parsePositiveLineNumber rest) ''GOSUB requires a line number'' (\<lambda>n. Inr (GosubStmt n))"

definition parse_return :: "string \<Rightarrow> string + Stmt" where
  "parse_return rest = demand (trim rest = []) ''RETURN takes no arguments'' (Inr ReturnStmt)"

definition parse_clear :: "string \<Rightarrow> string + Stmt" where
  "parse_clear rest = demand (trim rest = []) ''CLEAR takes no arguments'' (Inr ClearStmt)"

definition parse_on :: "string \<Rightarrow> string + Stmt" where
  "parse_on after =
     (let (nextTok, after1) = next_word after; rest = trim (rest_of_line after1); restUpper = uppercase rest
      in demand (uppercase nextTok = ''ERROR'') ''Unknown ON statement''
          (demand (rest \<noteq> []) ''ON ERROR requires GOTO <line> or STOP''
            (if restUpper = ''STOP'' then Inr (OnErrorStmt True 0)
             else needs (findKeywordToken restUpper ''GOTO'') ''ON ERROR requires GOTO <line> or STOP'' (\<lambda>gotoPos.
                    needs (parsePositiveLineNumber (trim (drop (gotoPos + 4) rest))) ''ON ERROR GOTO requires a line number'' (\<lambda>n.
                      Inr (OnErrorStmt False n))))))"

definition parse_for :: "string \<Rightarrow> string + Stmt" where
  "parse_for rest =
     needs (char_pos CHR ''='' rest) (''FOR requires '' @ quoted ''='') (\<lambda>eqPos.
       let varRaw = trim (take eqPos rest)
       in demand (isValidVariableName varRaw) ''FOR requires a valid variable name'' (writable varRaw
            (let afterEq = trim (drop (eqPos + 1) rest)
             in needs (findKeywordToken (uppercase afterEq) ''TO'') ''FOR requires TO'' (\<lambda>toPos.
                  let initRaw = trim (take toPos afterEq)
                  in demand (initRaw \<noteq> []) ''FOR requires an initial value''
                       (let afterTo = trim (drop (toPos + 2) afterEq);
                            (limitRaw, stepRaw) = (case findKeywordToken (uppercase afterTo) ''STEP'' of
                               Some stepPos \<Rightarrow> (trim (take stepPos afterTo), trim (drop (stepPos + 4) afterTo))
                             | None \<Rightarrow> (afterTo, []))
                        in demand (limitRaw \<noteq> []) ''FOR requires a limit value''
                             (expr_of ''FOR init error'' initRaw (\<lambda>ini. expr_of ''FOR limit error'' limitRaw (\<lambda>lim.
                                if stepRaw = [] then Inr (ForStmt varRaw ini lim None)
                                else expr_of ''FOR STEP error'' stepRaw (\<lambda>st. Inr (ForStmt varRaw ini lim (Some st)))))))))))"

definition parse_next :: "string \<Rightarrow> string + Stmt" where
  "parse_next rest =
     (let varName = trim rest
      in if varName = [] then Inr (NextStmt [])
         else demand (isValidVariableName varName) ''NEXT requires a valid variable name'' (writable varName (Inr (NextStmt varName))))"

definition parse_if :: "(string \<Rightarrow> string + Stmt) \<Rightarrow> string \<Rightarrow> string + Stmt" where
  "parse_if statement rest =
     demand (rest \<noteq> []) ''IF requires THEN <line>''
       (needs (findKeywordToken (uppercase rest) ''THEN'') ''IF requires THEN <line>'' (\<lambda>thenPos.
          let conditionExpr = trim (take thenPos rest); branchPart = trim (drop (thenPos + 4) rest)
          in demand (conditionExpr \<noteq> []) ''IF requires a condition expression''
              (demand (branchPart \<noteq> []) ''IF THEN requires a line number or statement''
                (let elsePos = findKeywordToken (uppercase branchPart) ''ELSE'';
                     thenRaw = (case elsePos of Some p \<Rightarrow> trim (take p branchPart) | None \<Rightarrow> trim branchPart);
                     finish = (\<lambda>thenArm elseArm. expr_of ''IF condition error'' conditionExpr (\<lambda>c. Inr (IfStmt c thenArm elseArm)))
                 in bindE (parseBranchArmSpec statement thenRaw ''IF THEN'') (\<lambda>thenArm.
                      case elsePos of
                        None \<Rightarrow> finish thenArm None
                      | Some p \<Rightarrow> bindE (parseBranchArmSpec statement (trim (drop (p + 4) branchPart)) ''IF ELSE'') (\<lambda>elseArm.
                          finish thenArm (Some elseArm)))))))"

definition parse_print :: "string \<Rightarrow> string + Stmt" where
  "parse_print txt =
     (let suppressEol = (txt \<noteq> [] \<and> last txt = CHR '';'');
          exprText = (if suppressEol then trim (butlast txt) else txt)
      in demand (exprText \<noteq> []) ''PRINT requires an expression''
           (expr_of ''PRINT expression error'' exprText (\<lambda>e. Inr (PrintStmt e suppressEol))))"

definition parse_stop :: "string \<Rightarrow> string + Stmt" where
  "parse_stop rest = demand (trim rest = []) ''STOP takes no arguments'' (Inr StopStmt)"

definition parse_end :: "string \<Rightarrow> string + Stmt" where
  "parse_end rest = demand (trim rest = []) ''END takes no arguments'' (Inr EndStmt)"

section \<open>File statements\<close>

definition parse_open :: "(string \<Rightarrow> string + Stmt) \<Rightarrow> string \<Rightarrow> string + Stmt" where
  "parse_open statement rest =
     demand (rest \<noteq> []) ''OPEN requires a file expression and TO <filevar>''
       (else_arm statement ''OPEN ELSE'' rest (\<lambda>elseArm mainPart.
          needs (findKeywordToken (uppercase mainPart) ''TO'') ''OPEN requires TO <filevar>'' (\<lambda>toPos.
            let fileExprRaw = trim (take toPos mainPart); fileVar = trim (drop (toPos + 2) mainPart)
            in demand (fileExprRaw \<noteq> []) ''OPEN requires a file expression''
                (demand (isValidVariableName fileVar) ''OPEN requires a valid file variable name''
                  (expr_of ''OPEN file expression error'' fileExprRaw (\<lambda>e. Inr (OpenStmt e fileVar elseArm)))))))"

text \<open>\<open>READ\<close> and \<open>READU\<close> differ in their name and the tree they build, as do \<open>WRITE\<close> and \<open>WRITEU\<close>.\<close>

definition parse_read ::
  "string \<Rightarrow> (string \<Rightarrow> string \<Rightarrow> Expr \<Rightarrow> BranchArm option \<Rightarrow> Stmt) \<Rightarrow> (string \<Rightarrow> string + Stmt) \<Rightarrow> string \<Rightarrow> string + Stmt" where
  "parse_read name mk statement rest =
     demand (rest \<noteq> []) (name @ '' requires REC FROM FVAR, ID'')
       (else_arm statement (name @ '' ELSE'') rest (\<lambda>elseArm mainPart.
          needs (findKeywordToken (uppercase mainPart) ''FROM'') (name @ '' requires FROM'') (\<lambda>fromPos.
            let targetVar = trim (take fromPos mainPart); afterFrom = trim (drop (fromPos + 4) mainPart)
            in demand (isValidVariableName targetVar) (name @ '' requires a valid target variable name'')
                (needs (char_pos CHR '','' afterFrom) (name @ '' requires FVAR, ID'') (\<lambda>commaPos.
                  let fileVar = trim (take commaPos afterFrom); idExprRaw = trim (drop (commaPos + 1) afterFrom)
                  in demand (isValidVariableName fileVar) (name @ '' requires a valid file variable name'')
                      (demand (idExprRaw \<noteq> []) (name @ '' requires an ID expression'')
                        (expr_of (name @ '' ID expression error'') idExprRaw (\<lambda>e. Inr (mk targetVar fileVar e elseArm)))))))))"

definition parse_write ::
  "string \<Rightarrow> (Expr \<Rightarrow> string \<Rightarrow> Expr \<Rightarrow> BranchArm option \<Rightarrow> Stmt) \<Rightarrow> (string \<Rightarrow> string + Stmt) \<Rightarrow> string \<Rightarrow> string + Stmt" where
  "parse_write name mk statement rest =
     demand (rest \<noteq> []) (name @ '' requires REC ON FVAR, ID'')
       (else_arm statement (name @ '' ELSE'') rest (\<lambda>elseArm mainPart.
          needs (findKeywordToken (uppercase mainPart) ''ON'') (name @ '' requires ON'') (\<lambda>onPos.
            let valueExprRaw = trim (take onPos mainPart); afterOn = trim (drop (onPos + 2) mainPart)
            in demand (valueExprRaw \<noteq> []) (name @ '' requires a value expression'')
                (needs (char_pos CHR '','' afterOn) (name @ '' requires FVAR, ID'') (\<lambda>commaPos.
                  let fileVar = trim (take commaPos afterOn); idExprRaw = trim (drop (commaPos + 1) afterOn)
                  in demand (isValidVariableName fileVar) (name @ '' requires a valid file variable name'')
                      (demand (idExprRaw \<noteq> []) (name @ '' requires an ID expression'')
                        (expr_of (name @ '' value expression error'') valueExprRaw (\<lambda>val.
                         expr_of (name @ '' ID expression error'') idExprRaw (\<lambda>e. Inr (mk val fileVar e elseArm))))))))))"

definition parse_readu :: "(string \<Rightarrow> string + Stmt) \<Rightarrow> string \<Rightarrow> string + Stmt" where
  "parse_readu = parse_read ''READU'' ReadUStmt"

definition parse_writeu :: "(string \<Rightarrow> string + Stmt) \<Rightarrow> string \<Rightarrow> string + Stmt" where
  "parse_writeu = parse_write ''WRITEU'' WriteUStmt"

definition parse_readnext :: "(string \<Rightarrow> string + Stmt) \<Rightarrow> string \<Rightarrow> string + Stmt" where
  "parse_readnext statement rest =
     demand (rest \<noteq> []) ''READNEXT requires <var> FROM <filevar>''
       (else_arm statement ''READNEXT ELSE'' rest (\<lambda>elseArm mainPart.
          needs (findKeywordToken (uppercase mainPart) ''FROM'') ''READNEXT requires FROM'' (\<lambda>fromPos.
            let targetVar = trim (take fromPos mainPart); fileVar = trim (drop (fromPos + 4) mainPart)
            in demand (isValidVariableName targetVar) ''READNEXT requires a valid target variable name''
                (demand (isValidVariableName fileVar) ''READNEXT requires a valid file variable name''
                  (Inr (ReadNextStmt targetVar fileVar elseArm))))))"

text \<open>The attribute of \<open>READV\<close> and \<open>WRITEV\<close>: \<open>DICT<token>\<close> or an expression.\<close>

definition attr_expr_of :: "string \<Rightarrow> string \<Rightarrow> (Expr \<Rightarrow> string + 'b) \<Rightarrow> string + 'b" where
  "attr_expr_of name arg k =
     (if starts_with ''DICT<'' (uppercase (trim arg))
      then needs (tryParseDictFieldToken arg) (name @ '' attribute expression error: malformed DICT field; expected DICT<token>'') (\<lambda>t.
             k (DictFieldExpr t))
      else expr_of (name @ '' attribute expression error'') arg k)"

text \<open>The arguments behind \<open>FROM\<close> or \<open>ON\<close>, split at the commas.\<close>

definition value_arguments ::
  "string \<Rightarrow> string \<Rightarrow> (string \<Rightarrow> Expr \<Rightarrow> Expr \<Rightarrow> Expr option \<Rightarrow> string + 'b) \<Rightarrow> string + 'b" where
  "value_arguments name txt k =
     (let args = map trim (getlines CHR '','' txt); got = length args
      in demand (got = 3 \<or> got = 4) (name @ '' requires <filevar>, <id>, <attr>[, <value-index>]'')
          (demand (isValidVariableName (args ! 0)) (name @ '' requires a valid file variable name'')
            (demand (args ! 1 \<noteq> [] \<and> args ! 2 \<noteq> []) (name @ '' requires non-empty ID and attribute expressions'')
              (expr_of (name @ '' ID expression error'') (args ! 1) (\<lambda>idExpr.
               attr_expr_of name (args ! 2) (\<lambda>attrExpr.
                 if got = 4
                 then demand (args ! 3 \<noteq> []) (name @ '' value-index expression cannot be empty'')
                        (expr_of (name @ '' value-index expression error'') (args ! 3) (\<lambda>v. k (args ! 0) idExpr attrExpr (Some v)))
                 else k (args ! 0) idExpr attrExpr None))))))"

definition parse_readv :: "(string \<Rightarrow> string + Stmt) \<Rightarrow> string \<Rightarrow> string + Stmt" where
  "parse_readv statement rest =
     demand (rest \<noteq> []) ''READV requires <var> FROM <filevar>, <id>, <attr>[, <value-index>]''
       (else_arm statement ''READV ELSE'' rest (\<lambda>elseArm mainPart.
          needs (findKeywordToken (uppercase mainPart) ''FROM'') ''READV requires FROM'' (\<lambda>fromPos.
            let targetVar = trim (take fromPos mainPart)
            in demand (isValidVariableName targetVar) ''READV requires a valid target variable name''
                 (value_arguments ''READV'' (trim (drop (fromPos + 4) mainPart)) (\<lambda>fileVar idExpr attrExpr valueIndex.
                    Inr (ReadVStmt targetVar fileVar idExpr attrExpr valueIndex elseArm))))))"

definition parse_writev :: "(string \<Rightarrow> string + Stmt) \<Rightarrow> string \<Rightarrow> string + Stmt" where
  "parse_writev statement rest =
     demand (rest \<noteq> []) ''WRITEV requires <value> ON <filevar>, <id>, <attr>[, <value-index>]''
       (else_arm statement ''WRITEV ELSE'' rest (\<lambda>elseArm mainPart.
          needs (findKeywordToken (uppercase mainPart) ''ON'') ''WRITEV requires ON'' (\<lambda>onPos.
            let valueExprRaw = trim (take onPos mainPart)
            in demand (valueExprRaw \<noteq> []) ''WRITEV requires a value expression''
                 (expr_of ''WRITEV value expression error'' valueExprRaw (\<lambda>val.
                    value_arguments ''WRITEV'' (trim (drop (onPos + 2) mainPart)) (\<lambda>fileVar idExpr attrExpr valueIndex.
                      Inr (WriteVStmt val fileVar idExpr attrExpr valueIndex elseArm)))))))"

definition parse_release :: "string \<Rightarrow> string + Stmt" where
  "parse_release rest =
     demand (rest \<noteq> []) ''RELEASE requires FVAR, ID''
       (needs (char_pos CHR '','' rest) ''RELEASE requires FVAR, ID'' (\<lambda>commaPos.
          let fileVar = trim (take commaPos rest); idExprRaw = trim (drop (commaPos + 1) rest)
          in demand (isValidVariableName fileVar) ''RELEASE requires a valid file variable name''
              (demand (idExprRaw \<noteq> []) ''RELEASE requires an ID expression''
                (expr_of ''RELEASE ID expression error'' idExprRaw (\<lambda>e. Inr (ReleaseStmt fileVar e))))))"

definition parse_close :: "string \<Rightarrow> string + Stmt" where
  "parse_close rest = demand (isValidVariableName rest) ''CLOSE requires a valid file variable name'' (Inr (CloseStmt rest))"

section \<open>Matrices\<close>

definition parse_mat_transfer :: "bool \<Rightarrow> (string \<Rightarrow> string + Stmt) \<Rightarrow> string \<Rightarrow> string + Stmt" where
  "parse_mat_transfer isRead statement body =
     (let name = (if isRead then ''MAT READ'' else ''MAT WRITE''); connector = (if isRead then ''FROM'' else ''ON'')
      in demand (body \<noteq> []) (name @ '' requires <arr> '' @ connector @ '' FVAR, ID'')
          (else_arm statement (name @ '' ELSE'') body (\<lambda>elseArm mainPart.
             needs (findKeywordToken (uppercase mainPart) connector) (name @ '' requires '' @ connector) (\<lambda>pos.
               let arrayName = trim (take pos mainPart); afterConnector = trim (drop (pos + length connector) mainPart)
               in demand (isValidVariableName arrayName) (name @ '' requires a valid array name'') (writable arrayName
                   (needs (char_pos CHR '','' afterConnector) (name @ '' requires FVAR, ID'') (\<lambda>commaPos.
                     let fileVar = trim (take commaPos afterConnector); idExprRaw = trim (drop (commaPos + 1) afterConnector)
                     in demand (isValidVariableName fileVar) (name @ '' requires a valid file variable name'')
                         (demand (idExprRaw \<noteq> []) (name @ '' requires an ID expression'')
                           (expr_of (name @ '' ID expression error'') idExprRaw (\<lambda>e.
                              Inr (if isRead then MatReadStmt arrayName fileVar e elseArm
                                   else MatWriteStmt arrayName fileVar e elseArm)))))))))))"

definition parse_mat_assign :: "string \<Rightarrow> string + Stmt" where
  "parse_mat_assign rest =
     needs (char_pos CHR ''='' rest) (''MAT requires READ, WRITE, or '' @ quoted ''<arr> ='') (\<lambda>eqPos.
       let targetName = trim (take eqPos rest); rhsRaw = trim (drop (eqPos + 1) rest)
       in demand (isValidVariableName targetName) ''MAT requires a valid array name'' (writable targetName
           (demand (rhsRaw \<noteq> []) ''MAT assignment requires an expression''
             (let (rhsFirst, after) = next_word rhsRaw; srcRaw = trim (rest_of_line after)
              in if uppercase rhsFirst = ''MAT''
                 then demand (srcRaw \<noteq> []) ''MAT copy requires a source array name''
                       (case words_of srcRaw of
                          [srcName] \<Rightarrow> demand (isValidVariableName srcName) ''MAT copy requires a valid source array name''
                                       (Inr (MatAssignStmt targetName None srcName))
                        | _ \<Rightarrow> Inl ''MAT copy source must be a bare array name'')
                 else expr_of ''MAT scalar expression error'' rhsRaw (\<lambda>e. Inr (MatAssignStmt targetName (Some e) []))))))"

definition parse_mat :: "(string \<Rightarrow> string + Stmt) \<Rightarrow> string \<Rightarrow> string + Stmt" where
  "parse_mat statement rest =
     demand (rest \<noteq> []) (''MAT requires READ, WRITE, or '' @ quoted ''<arr> ='')
       (let (subKeyword, after) = next_word rest; subUpper = uppercase subKeyword
        in if subUpper = ''READ'' \<or> subUpper = ''WRITE''
           then parse_mat_transfer (subUpper = ''READ'') statement (trim (rest_of_line after))
           else parse_mat_assign rest)"

section \<open>Lines and programs\<close>

definition parse_keyword :: "(string \<Rightarrow> string + Stmt) \<Rightarrow> string \<Rightarrow> string + Stmt" where
  "parse_keyword statement line =
     (let (keyword, after) = next_word line; op = uppercase keyword; rest = trim (rest_of_line after)
      in if op = ''REM'' then Inr RemStmt
         else if op = ''LET'' then parse_let rest
         else if op = ''DIM'' then parse_dim rest
         else if op = ''INPUT'' then parse_input rest
         else if op = ''CHAIN'' then parse_chain rest
         else if op = ''GOTO'' then parse_goto rest
         else if op = ''GOSUB'' then parse_gosub rest
         else if op = ''RETURN'' then parse_return rest
         else if op = ''CLEAR'' then parse_clear rest
         else if op = ''ON'' then parse_on after
         else if op = ''OPEN'' then parse_open statement rest
         else if op = ''READU'' then parse_readu statement rest
         else if op = ''READ'' then parse_read ''READ'' ReadStmt statement rest
         else if op = ''WRITEU'' then parse_writeu statement rest
         else if op = ''WRITE'' then parse_write ''WRITE'' WriteStmt statement rest
         else if op = ''READNEXT'' then parse_readnext statement rest
         else if op = ''READV'' then parse_readv statement rest
         else if op = ''WRITEV'' then parse_writev statement rest
         else if op = ''RELEASE'' then parse_release rest
         else if op = ''CLOSE'' then parse_close rest
         else if op = ''FOR'' then parse_for rest
         else if op = ''NEXT'' then parse_next rest
         else if op = ''IF'' then parse_if statement rest
         else if op = ''PRINT'' then parse_print rest
         else if op = ''STOP'' then parse_stop rest
         else if op = ''END'' then parse_end rest
         else if op = ''MAT'' then parse_mat statement rest
         else Inl (''Unknown keyword '' @ quoted op))"

text \<open>A line that has been trimmed and is not empty.\<close>

fun parse_statement :: "nat \<Rightarrow> string \<Rightarrow> string + Stmt" where
  "parse_statement 0 line = Inl ''out of fuel''"
| "parse_statement (Suc n) line = parse_keyword (parse_statement n) line"

definition statement_of :: "string \<Rightarrow> string + Stmt" where
  "statement_of line = parse_statement (Suc (length line)) line"

record StatementParseResult =
  parsed_lines :: "(int \<times> Stmt) list"
  parse_errors :: "(int \<times> string) list"

text \<open>\<open>BasicStatementParser::parse\<close> over the lines of the program in the order of their numbers; empty lines vanish.\<close>

fun parse_lines :: "(int \<times> string) list \<Rightarrow> StatementParseResult" where
  "parse_lines [] = \<lparr>parsed_lines = [], parse_errors = []\<rparr>"
| "parse_lines ((lineNumber, sourceText) # ps) =
     (let line = trim sourceText; r = parse_lines ps
      in if line = [] then r
         else case statement_of line of
                Inl e \<Rightarrow> r\<lparr>parse_errors := (lineNumber, e) # parse_errors r\<rparr>
              | Inr st \<Rightarrow> r\<lparr>parsed_lines := (lineNumber, st) # parsed_lines r\<rparr>)"

section \<open>The fuel is enough\<close>

lemma length_trim: "length (trim s) \<le> length s"
  unfolding trim_def strip_def by (simp add: length_dropWhile_le [THEN order_trans])

lemma length_rest_of_line: "length (rest_of_line s) \<le> length s"
  by (simp add: rest_of_line_def length_takeWhile_le)

lemma next_word_shorter: "fst (next_word s) \<noteq> [] \<Longrightarrow> length (snd (next_word s)) < length s"
proof -
  assume k: "fst (next_word s) \<noteq> []"
  define t where "t = dropWhile isspace s"
  have "length (fst (next_word s)) + length (snd (next_word s)) = length t"
    unfolding next_word_def t_def Let_def fst_conv snd_conv by (metis length_append takeWhile_dropWhile_id)
  moreover have "length t \<le> length s" unfolding t_def by (rule length_dropWhile_le)
  moreover have "0 < length (fst (next_word s))" using k by simp
  ultimately show ?thesis by linarith
qed

lemma parseBranchArmSpec_cong:
  assumes "\<And>t. length t \<le> length txt \<Longrightarrow> f t = g t"
  shows "parseBranchArmSpec f txt ctx = parseBranchArmSpec g txt ctx"
  unfolding parseBranchArmSpec_def Let_def by (simp add: assms [OF length_trim] split: option.split)

lemma length_trim_drop: "length (trim (drop n s)) \<le> length s"
  using length_trim [of "drop n s"] by simp

lemma length_trim_take: "length (trim (take n s)) \<le> length s"
  using length_trim [of "take n s"] by simp

lemma arm_tail_cong: "(\<And>t. length t \<le> length s \<Longrightarrow> f t = g t) \<Longrightarrow> parseBranchArmSpec f (trim (drop n s)) ctx = parseBranchArmSpec g (trim (drop n s)) ctx"
  by (rule parseBranchArmSpec_cong) (meson length_trim_drop order_trans)

lemma else_arm_cong: "(\<And>t. length t \<le> length rest \<Longrightarrow> f t = g t) \<Longrightarrow> else_arm f ctx rest k = else_arm g ctx rest k"
  by (simp add: else_arm_def arm_tail_cong [where f = f and g = g] cong: option.case_cong)

lemma parse_if_cong:
  assumes "\<And>t. length t \<le> length rest \<Longrightarrow> f t = g t"
  shows "parse_if f rest = parse_if g rest"
proof -
  have arm: "parseBranchArmSpec f s ctx = parseBranchArmSpec g s ctx" if "length s \<le> length rest" for s ctx
    using that assms by (intro parseBranchArmSpec_cong) auto
  have "length (trim (take p (trim (drop q rest)))) \<le> length rest" "length (trim (drop p (trim (drop q rest)))) \<le> length rest"
    "length (trim (trim (drop q rest))) \<le> length rest" for p q
    using length_trim_take [of p "trim (drop q rest)"] length_trim_drop [of p "trim (drop q rest)"] length_trim_drop [of q rest]
      length_trim [of "trim (drop q rest)"] by simp_all
  then show ?thesis unfolding parse_if_def Let_def by (simp add: arm needs_def demand_def split: option.split)
qed

lemma parse_keyword_cong:
  assumes "\<And>t. length t < length line \<Longrightarrow> f t = g t"
  shows "parse_keyword f line = parse_keyword g line"
proof (cases "fst (next_word line) = []")
  case True
  then show ?thesis unfolding parse_keyword_def case_prod_beta Let_def by (simp add: uppercase_def)
next
  case False
  have a: "f t = g t" if "length t \<le> length (snd (next_word line))" for t
    using assms next_word_shorter [OF False] that by simp
  define rest where "rest = trim (rest_of_line (snd (next_word line)))"
  have "length rest \<le> length (snd (next_word line))"
    unfolding rest_def using length_trim length_rest_of_line order_trans by blast
  then have r: "f t = g t" if "length t \<le> length rest" for t using a that by simp
  have e: "else_arm f ctx rest k = else_arm g ctx rest k" for ctx and k :: "BranchArm option \<Rightarrow> string \<Rightarrow> string + Stmt"
    by (rule else_arm_cong [OF r])
  define body where "body = trim (rest_of_line (snd (next_word rest)))"
  have "length (snd (next_word s)) \<le> length s" for s
    unfolding next_word_def Let_def by (simp add: length_dropWhile_le [THEN order_trans])
  then have "length body \<le> length rest"
    unfolding body_def using length_trim length_rest_of_line order_trans by metis
  then have b: "else_arm f ctx body k = else_arm g ctx body k" for ctx and k :: "BranchArm option \<Rightarrow> string \<Rightarrow> string + Stmt"
    using r by (intro else_arm_cong) simp
  have m: "parse_mat f rest = parse_mat g rest"
    unfolding parse_mat_def parse_mat_transfer_def case_prod_beta Let_def body_def [symmetric] b ..
  have "parse_open f rest = parse_open g rest" "parse_readu f rest = parse_readu g rest" "parse_writeu f rest = parse_writeu g rest"
    "parse_read nm mk f rest = parse_read nm mk g rest" "parse_write nm mw f rest = parse_write nm mw g rest"
    "parse_readnext f rest = parse_readnext g rest" "parse_readv f rest = parse_readv g rest" "parse_writev f rest = parse_writev g rest"
    for nm mk mw
    by (simp_all only: parse_open_def parse_readu_def parse_read_def parse_writeu_def parse_write_def
      parse_readnext_def parse_readv_def parse_writev_def e)
  then show ?thesis
    using parse_if_cong [OF r] m unfolding parse_keyword_def case_prod_beta Let_def rest_def [symmetric] by simp
qed

text \<open>More fuel than the length of the line changes nothing, so \<open>statement_of\<close> is the parser without fuel.\<close>

lemma statement_fuel_irrelevant: "length line < n \<Longrightarrow> parse_statement n line = statement_of line"
proof (induction "length line" arbitrary: line n rule: less_induct)
  case less
  obtain m where n: "n = Suc m" using less(2) by (cases n) auto
  have "parse_statement m t = parse_statement (length line) t" if "length t < length line" for t
    using less(1) [OF that, of m] less(1) [OF that, of "length line"] less(2) that n by simp
  then show ?case unfolding n statement_of_def parse_statement.simps by (rule parse_keyword_cong)
qed

end
