(* ===== verification/Basic_Compiler.thy ===== *)
theory Basic_Compiler
  imports Basic_Statements Bytecode_Parser
begin

text \<open>
  The BASIC compiler behind the parser: the semantic analyzer (\<open>BasicSemanticAnalyzer.cpp\<close>), the bytecode emitter
  (\<open>BasicBytecodeEmitter.cpp\<close>) and the driver (\<open>BasicCompiler.cpp\<close>).  The emitter appends to one vector and patches the
  operands of its jumps once it knows the addresses; here the code of a statement is a function of the address it starts at,
  and its jumps carry their final operands, while jumps to BASIC lines go through the list of fixups as in the code.  Where a
  statement fails, the code leaves what it has emitted so far in the vector; the whole vector is thrown away at the
  end in that case, and the model does not keep it.
\<close>

section \<open>Semantic analysis\<close>

definition validateLineTarget :: "int set \<Rightarrow> int \<Rightarrow> int \<Rightarrow> (int \<times> string) list" where
  "validateLineTarget knownLines ownerLine targetLine =
     (if targetLine \<in> knownLines then [] else [(ownerLine, ''Unknown target line '' @ show_int targetLine)])"

function (sequential) validateStatement :: "int \<Rightarrow> int set \<Rightarrow> Stmt \<Rightarrow> (int \<times> string) list"
  and validateBranchArm :: "int \<Rightarrow> int set \<Rightarrow> BranchArm \<Rightarrow> (int \<times> string) list"
  and validateElseArm :: "int \<Rightarrow> int set \<Rightarrow> BranchArm option \<Rightarrow> (int \<times> string) list" where
  "validateStatement owner known (GotoStmt t) = validateLineTarget known owner t"
| "validateStatement owner known (GosubStmt t) = validateLineTarget known owner t"
| "validateStatement owner known (IfStmt c thenArm elseArm) = validateBranchArm owner known thenArm @ validateElseArm owner known elseArm"
| "validateStatement owner known (OpenStmt e f elseArm) = validateElseArm owner known elseArm"
| "validateStatement owner known (ReadStmt v f e elseArm) = validateElseArm owner known elseArm"
| "validateStatement owner known (WriteStmt v f e elseArm) = validateElseArm owner known elseArm"
| "validateStatement owner known (ReadNextStmt v f elseArm) = validateElseArm owner known elseArm"
| "validateStatement owner known (ReadVStmt v f e a i elseArm) = validateElseArm owner known elseArm"
| "validateStatement owner known (WriteVStmt v f e a i elseArm) = validateElseArm owner known elseArm"
| "validateStatement owner known (ReadUStmt v f e elseArm) = validateElseArm owner known elseArm"
| "validateStatement owner known (WriteUStmt v f e elseArm) = validateElseArm owner known elseArm"
| "validateStatement owner known (OnErrorStmt stop t) = (if stop then [] else validateLineTarget known owner t)"
| "validateStatement owner known (MatReadStmt v f e elseArm) = validateElseArm owner known elseArm"
| "validateStatement owner known (MatWriteStmt v f e elseArm) = validateElseArm owner known elseArm"
| "validateStatement owner known _ = []"
| "validateBranchArm owner known (BranchArm (Some t) inl) = validateLineTarget known owner t"
| "validateBranchArm owner known (BranchArm None None) = [(owner, ''Branch arm requires a line target or statement'')]"
| "validateBranchArm owner known (BranchArm None (Some st)) = validateStatement owner known st"
| "validateElseArm owner known None = []"
| "validateElseArm owner known (Some arm) = validateBranchArm owner known arm"
  by pat_completeness auto

termination
  by (relation "measure (case_sum (\<lambda>(_, _, s). 2 * size s) (case_sum (\<lambda>(_, _, a). 2 * size a) (\<lambda>(_, _, x). 2 * size_option size x)))")
    auto

definition analyze :: "(int \<times> Stmt) list \<Rightarrow> (int \<times> string) list" where
  "analyze ls = concat (map (\<lambda>(n, st). validateStatement n (fst ` set ls) st) ls)"

section \<open>Expressions\<close>

definition makeNoOperandInstruction :: "OpCode \<Rightarrow> Instruction" where
  "makeNoOperandInstruction c = mkInstr c (IntV 0)"

definition isStringVar :: "string \<Rightarrow> bool" where
  "isStringVar name \<longleftrightarrow> name \<noteq> [] \<and> last name = CHR ''$''"

definition isIntVar :: "string \<Rightarrow> bool" where
  "isIntVar name \<longleftrightarrow> name \<noteq> [] \<and> last name = CHR ''%''"

definition isArithmeticOp :: "BinaryOp \<Rightarrow> bool" where
  "isArithmeticOp op \<longleftrightarrow> op = AddOp \<or> op = SubtractOp \<or> op = MultiplyOp \<or> op = DivideOp"

definition readVAttrNeedsDictResolve :: "Expr \<Rightarrow> bool" where
  "readVAttrNeedsDictResolve e = (case e of DictFieldExpr _ \<Rightarrow> True | StringLiteralExpr _ \<Rightarrow> True | _ \<Rightarrow> False)"

definition isDictField :: "Expr \<Rightarrow> bool" where
  "isDictField e = (case e of DictFieldExpr _ \<Rightarrow> True | _ \<Rightarrow> False)"

fun toOpCode :: "BinaryOp \<Rightarrow> OpCode" where
  "toOpCode AddOp = Add"
| "toOpCode SubtractOp = Sub"
| "toOpCode MultiplyOp = Mul"
| "toOpCode DivideOp = Div"
| "toOpCode EqualOp = Eq"
| "toOpCode NotEqualOp = Ne"
| "toOpCode LessThanOp = Lt"
| "toOpCode LessOrEqualOp = Le"
| "toOpCode GreaterThanOp = Gt"
| "toOpCode GreaterOrEqualOp = Ge"

definition builtinArgInArithmetic :: "string \<Rightarrow> nat \<Rightarrow> bool" where
  "builtinArgInArithmetic name argIndex =
     (if name = ''INDEX'' \<or> name = ''FIELD'' then argIndex = 2
      else if name = ''STR'' then True
      else \<not> (name \<in> {''OCONV'', ''ICONV'', ''CONVERT'', ''NUM'', ''SEQ'', ''LEN'', ''TRIM'', ''LCASE'', ''UCASE'', ''DATE'', ''TIME''}))"

text \<open>The call behind the code of the arguments: \<open>INDEX\<close> with two arguments searches the first occurrence.\<close>

definition builtin_call :: "string \<Rightarrow> int \<Rightarrow> string + Instruction list" where
  "builtin_call name got =
     (let pad = (name = ''INDEX'' \<and> got = 2); effectiveArgCount = (if pad then 3 else got)
      in case functionIdForCall name effectiveArgCount of
           None \<Rightarrow> Inl (''Internal error: unsupported builtin '' @ name)
         | Some fnId \<Rightarrow>
             Inr ((if pad then [mkInstr PushInt (IntV 1)] else []) @
                  [(makeNoOperandInstruction CallFunc)\<lparr>callFunc :=
                     \<lparr>namespaceId = kNamespaceIdBasic, functionId = fnId, argCount = effectiveArgCount\<rparr>\<rparr>]))"

definition arity_error :: "string \<Rightarrow> int \<Rightarrow> string option" where
  "arity_error name got = (case builtinArityBounds name of
     None \<Rightarrow> Some (''Internal error: unsupported builtin '' @ name)
   | Some (minArgs, maxArgs) \<Rightarrow> check_arity name minArgs maxArgs got)"

function (sequential) emitNode :: "Expr \<Rightarrow> bool \<Rightarrow> string + Instruction list"
  and emit_args :: "string \<Rightarrow> nat \<Rightarrow> Expr list \<Rightarrow> string + Instruction list" where
  "emitNode (IntLiteralExpr v) inArithmetic = Inr [mkInstr PushInt (IntV v)]"
| "emitNode (FloatLiteralExpr v) inArithmetic = Inr [mkInstr PushFlt (DblV v)]"
| "emitNode (StringLiteralExpr v) inArithmetic = Inr [mkInstr PushStr (StrV v)]"
| "emitNode (DictFieldExpr tok) inArithmetic =
     (if inArithmetic then Inl ''DICT field tokens cannot be used in an arithmetic expression''
      else if tok = [] then Inl ''DICT field token cannot be empty''
      else Inr [mkInstr PushStr (StrV tok)])"
| "emitNode (IdentifierExpr nm) inArithmetic =
     (if \<not> isValidVariableName nm then Inl (''Invalid variable name '' @ quoted nm)
      else if inArithmetic \<and> isStringVar nm
      then Inl (''String variable '' @ quoted nm @ '' cannot be used in an arithmetic expression'')
      else Inr [mkInstr LoadVar (StrV (uppercase nm))])"
| "emitNode (UnaryExpr op e) inArithmetic =
     bindE (emitNode e True) (\<lambda>c. Inr ([mkInstr PushInt (IntV 0)] @ c @ [makeNoOperandInstruction Sub]))"
| "emitNode (BinaryExpr op l r) inArithmetic =
     bindE (emitNode l (isArithmeticOp op)) (\<lambda>cl. bindE (emitNode r (isArithmeticOp op)) (\<lambda>cr.
       Inr (cl @ cr @ [makeNoOperandInstruction (toOpCode op)])))"
| "emitNode (GroupedExpr e) inArithmetic = emitNode e inArithmetic"
| "emitNode (SubscriptExpr nm idx) inArithmetic =
     (if \<not> isValidVariableName nm then Inl (''Invalid array variable name '' @ quoted nm)
      else if inArithmetic \<and> isStringVar nm
      then Inl (''String array '' @ quoted nm @ '' cannot be used in an arithmetic expression'')
      else bindE (emitNode idx False) (\<lambda>c. Inr (c @ [mkInstr LoadArr (StrV (uppercase nm))])))"
| "emitNode (AttributeAccessExpr nm attr valueIndex) inArithmetic =
     (if \<not> isValidVariableName nm then Inl (''Invalid variable name '' @ quoted nm)
      else bindE (emitNode attr False) (\<lambda>ca.
           bindE (case valueIndex of Some v \<Rightarrow> emitNode v False | None \<Rightarrow> Inr [mkInstr PushInt (IntV 0)]) (\<lambda>cv.
             Inr ([mkInstr LoadVar (StrV (uppercase nm))] @ ca @ cv @ [makeNoOperandInstruction ExtractAttr]))))"
| "emitNode (FunctionCallExpr name args) inArithmetic =
     (case arity_error name (int (length args)) of
        Some e \<Rightarrow> Inl e
      | None \<Rightarrow> bindE (emit_args name 0 args) (\<lambda>c. bindE (builtin_call name (int (length args))) (\<lambda>call. Inr (c @ call))))"
| "emit_args name i [] = Inr []"
| "emit_args name i (e # es) =
     bindE (emitNode e (builtinArgInArithmetic name i)) (\<lambda>c. bindE (emit_args name (Suc i) es) (\<lambda>cs. Inr (c @ cs)))"
  by pat_completeness auto

termination
  by (relation "measure (case_sum (\<lambda>(e, _). size e) (\<lambda>(_, _, es). size_list size es))") auto

definition expr_code :: "string \<Rightarrow> Expr \<Rightarrow> string + Instruction list" where
  "expr_code ctx e = (case emitNode e False of Inl err \<Rightarrow> Inl (ctx @ '': '' @ err) | Inr c \<Rightarrow> Inr c)"

section \<open>Statements\<close>

record JumpFixup =
  fix_sourceLine :: int
  instructionIndex :: nat
  targetLine :: int

text \<open>The code of a statement that starts at a given address, and its jumps to BASIC lines.\<close>

type_synonym emission = "string + Instruction list \<times> JumpFixup list"

text \<open>\<open>static_cast<int>\<close> of an address.\<close>

definition ip_operand :: "nat \<Rightarrow> Value" where
  "ip_operand n = IntV (wrap32 (int n))"

definition coerce_code :: "string \<Rightarrow> Instruction list" where
  "coerce_code nm = (if isIntVar nm then [makeNoOperandInstruction CoerceInt] else [])"

definition store_code :: "string \<Rightarrow> Instruction list" where
  "store_code nm = [mkInstr StoreVar (StrV (uppercase nm))]"

definition file_op :: "OpCode \<Rightarrow> string \<Rightarrow> Instruction" where
  "file_op c fileVar = mkInstr c (StrV (uppercase fileVar))"

definition line_jump :: "OpCode \<Rightarrow> nat \<Rightarrow> int \<Rightarrow> int \<Rightarrow> emission" where
  "line_jump c base line target =
     Inr ([mkInstr c (IntV 0)], [\<lparr>fix_sourceLine = line, instructionIndex = base, targetLine = target\<rparr>])"

text \<open>
  The file statements: with an \<open>ELSE\<close> arm the form of the opcode that pushes a success flag, a jump over the success path and
  a jump over the arm; without one the plain form.  \<open>ok\<close> is what happens to the value of the success path, \<open>bad\<close> what
  the failure path does before the arm.
\<close>

definition with_else ::
  "nat \<Rightarrow> Instruction list \<Rightarrow> Instruction \<Rightarrow> Instruction \<Rightarrow> Instruction list \<Rightarrow> Instruction list \<Rightarrow> (nat \<Rightarrow> emission) option \<Rightarrow> emission" where
  "with_else base pre plainOp tryOp ok bad arm = (case arm of
     None \<Rightarrow> Inr (pre @ [plainOp] @ ok, [])
   | Some emitArm \<Rightarrow>
       let jzIp = base + length pre + 1; skipElseJumpIp = jzIp + 1 + length ok; failPathIp = skipElseJumpIp + 1
       in bindE (emitArm (failPathIp + length bad)) (\<lambda>(c, fx).
            Inr (pre @ [tryOp, mkInstr JumpIfZero (ip_operand failPathIp)] @ ok @
                 [mkInstr Jump (ip_operand (failPathIp + length bad + length c))] @ bad @ c, fx)))"

definition drop_code :: "Instruction list" where
  "drop_code = [makeNoOperandInstruction Drop]"

definition emit_let :: "string \<Rightarrow> Expr \<Rightarrow> emission" where
  "emit_let nm e = bindE (expr_code ''LET expression error'' e) (\<lambda>c. Inr (c @ coerce_code nm @ store_code nm, []))"

definition emit_input :: "Expr option \<Rightarrow> string \<Rightarrow> emission" where
  "emit_input promptExpr nm =
     bindE (case promptExpr of None \<Rightarrow> Inr []
            | Some e \<Rightarrow> bindE (expr_code ''INPUT prompt expression error'' e) (\<lambda>c. Inr (c @ [makeNoOperandInstruction PrintVal]))) (\<lambda>c.
       Inr (c @ [makeNoOperandInstruction InputStr] @ coerce_code nm @ store_code nm, []))"

definition emit_chain :: "Expr \<Rightarrow> emission" where
  "emit_chain e = bindE (expr_code ''CHAIN program expression error'' e) (\<lambda>c. Inr (c @ [makeNoOperandInstruction Chain], []))"

definition emit_for :: "string \<Rightarrow> Expr \<Rightarrow> Expr \<Rightarrow> Expr option \<Rightarrow> emission" where
  "emit_for nm ini lmt st =
     (if isStringVar nm then Inl (''String variable '' @ quoted nm @ '' cannot be used as a FOR loop variable'')
      else bindE (expr_code ''FOR init error'' ini) (\<lambda>ci. bindE (expr_code ''FOR limit error'' lmt) (\<lambda>cl.
           bindE (case st of Some e \<Rightarrow> expr_code ''FOR STEP error'' e | None \<Rightarrow> Inr [mkInstr PushInt (IntV 1)]) (\<lambda>cs.
             Inr (ci @ coerce_code nm @ store_code nm @ cl @ cs @ [mkInstr ForSetup (StrV (uppercase nm))], [])))))"

text \<open>\<open>IF\<close>: the then arm falls through to the end unless it is a jump to a line.\<close>

definition emit_if :: "nat \<Rightarrow> Expr \<Rightarrow> bool \<Rightarrow> (nat \<Rightarrow> emission) \<Rightarrow> (nat \<Rightarrow> emission) option \<Rightarrow> emission" where
  "emit_if base c thenFallsThrough thenArm elseArm =
     bindE (expr_code ''IF condition error'' c) (\<lambda>cc.
       let jzIp = base + length cc
       in bindE (thenArm (jzIp + 1)) (\<lambda>(ct, fx).
         case elseArm of
           None \<Rightarrow> Inr (cc @ [mkInstr JumpIfZero (ip_operand (jzIp + 1 + length ct))] @ ct, fx)
         | Some ea \<Rightarrow>
             let elseStartIp = jzIp + 1 + length ct + (if thenFallsThrough then 1 else 0)
             in bindE (ea elseStartIp) (\<lambda>(ce, fy).
               Inr (cc @ [mkInstr JumpIfZero (ip_operand elseStartIp)] @ ct @
                    (if thenFallsThrough then [mkInstr Jump (ip_operand (elseStartIp + length ce))] else []) @ ce, fx @ fy))))"

definition emit_print :: "Expr \<Rightarrow> bool \<Rightarrow> emission" where
  "emit_print e suppressEol = bindE (expr_code ''PRINT expression error'' e) (\<lambda>c.
     Inr (c @ [makeNoOperandInstruction PrintVal] @ (if suppressEol then [] else [makeNoOperandInstruction PrintEol]), []))"

definition emit_dim :: "string \<Rightarrow> Expr \<Rightarrow> emission" where
  "emit_dim nm e = bindE (expr_code ''DIM size error'' e) (\<lambda>c. Inr (c @ [mkInstr DimArray (StrV (uppercase nm))], []))"

definition emit_let_array :: "string \<Rightarrow> Expr \<Rightarrow> Expr \<Rightarrow> emission" where
  "emit_let_array nm idx val =
     bindE (expr_code ''LET array value error'' val) (\<lambda>cv. bindE (expr_code ''LET array index error'' idx) (\<lambda>ci.
       Inr (cv @ coerce_code nm @ ci @ [mkInstr StoreArr (StrV (uppercase nm))], [])))"

definition emit_open :: "nat \<Rightarrow> Expr \<Rightarrow> string \<Rightarrow> (nat \<Rightarrow> emission) option \<Rightarrow> emission" where
  "emit_open base e f arm = bindE (expr_code ''OPEN file expression error'' e) (\<lambda>c.
     with_else base c (file_op OpenFile f) (file_op OpenFileTry f) [] [] arm)"

definition emit_read :: "nat \<Rightarrow> string \<Rightarrow> string \<Rightarrow> Expr \<Rightarrow> (nat \<Rightarrow> emission) option \<Rightarrow> emission" where
  "emit_read base v f e arm = bindE (expr_code ''READ ID expression error'' e) (\<lambda>c.
     with_else base c (file_op ReadRec f) (file_op ReadRecTry f) (store_code v) drop_code arm)"

definition emit_readu :: "nat \<Rightarrow> string \<Rightarrow> string \<Rightarrow> Expr \<Rightarrow> (nat \<Rightarrow> emission) option \<Rightarrow> emission" where
  "emit_readu base v f e arm = bindE (expr_code ''READU ID expression error'' e) (\<lambda>c.
     with_else base c (file_op ReadRecU f) (file_op ReadRecUTry f) (store_code v) drop_code arm)"

definition emit_write :: "nat \<Rightarrow> Expr \<Rightarrow> string \<Rightarrow> Expr \<Rightarrow> (nat \<Rightarrow> emission) option \<Rightarrow> emission" where
  "emit_write base val f e arm =
     bindE (expr_code ''WRITE value expression error'' val) (\<lambda>cv. bindE (expr_code ''WRITE ID expression error'' e) (\<lambda>c.
       with_else base (cv @ c) (file_op WriteRec f) (file_op WriteRecTry f) [] [] arm))"

definition emit_writeu :: "nat \<Rightarrow> Expr \<Rightarrow> string \<Rightarrow> Expr \<Rightarrow> (nat \<Rightarrow> emission) option \<Rightarrow> emission" where
  "emit_writeu base val f e arm =
     bindE (expr_code ''WRITEU value expression error'' val) (\<lambda>cv. bindE (expr_code ''WRITEU ID expression error'' e) (\<lambda>c.
       with_else base (cv @ c) (file_op WriteRecU f) (file_op WriteRecUTry f) [] [] arm))"

definition emit_release :: "string \<Rightarrow> Expr \<Rightarrow> emission" where
  "emit_release f e = bindE (expr_code ''RELEASE ID expression error'' e) (\<lambda>c. Inr (c @ [file_op ReleaseRec f], []))"

definition emit_on_error :: "nat \<Rightarrow> int \<Rightarrow> bool \<Rightarrow> int \<Rightarrow> emission" where
  "emit_on_error base line stop target =
     (if stop then Inr ([mkInstr SetOnErrorHandler (IntV 0)], []) else line_jump SetOnErrorHandler base line target)"

definition emit_readnext :: "nat \<Rightarrow> string \<Rightarrow> string \<Rightarrow> (nat \<Rightarrow> emission) option \<Rightarrow> emission" where
  "emit_readnext base v f arm = with_else base [] (file_op ReadNext f) (file_op ReadNextTry f) (store_code v) drop_code arm"

definition value_index_code :: "string \<Rightarrow> Expr option \<Rightarrow> string + Instruction list" where
  "value_index_code ctx i = (case i of Some e \<Rightarrow> expr_code ctx e | None \<Rightarrow> Inr [mkInstr PushInt (IntV 0)])"

definition resolve_code :: "bool \<Rightarrow> string \<Rightarrow> Instruction list" where
  "resolve_code b f = (if b then [file_op ResolveDictAttr f] else [])"

definition emit_readv ::
  "nat \<Rightarrow> string \<Rightarrow> string \<Rightarrow> Expr \<Rightarrow> Expr \<Rightarrow> Expr option \<Rightarrow> (nat \<Rightarrow> emission) option \<Rightarrow> emission" where
  "emit_readv base v f e a i arm =
     bindE (expr_code ''READV ID expression error'' e) (\<lambda>ce. bindE (expr_code ''READV attribute expression error'' a) (\<lambda>ca.
     bindE (value_index_code ''READV value-index expression error'' i) (\<lambda>ci.
       with_else base (ce @ ca @ resolve_code (readVAttrNeedsDictResolve a) f @ ci) (file_op ReadV f) (file_op ReadVTry f)
         (store_code v) drop_code arm)))"

text \<open>\<open>WRITEV\<close> resolves a dictionary field as a statement of its own, but not as the statement of an arm.\<close>

definition emit_writev ::
  "bool \<Rightarrow> nat \<Rightarrow> Expr \<Rightarrow> string \<Rightarrow> Expr \<Rightarrow> Expr \<Rightarrow> Expr option \<Rightarrow> (nat \<Rightarrow> emission) option \<Rightarrow> emission" where
  "emit_writev resolves base val f e a i arm =
     bindE (expr_code ''WRITEV value expression error'' val) (\<lambda>cv. bindE (expr_code ''WRITEV ID expression error'' e) (\<lambda>ce.
     bindE (expr_code ''WRITEV attribute expression error'' a) (\<lambda>ca.
     bindE (value_index_code ''WRITEV value-index expression error'' i) (\<lambda>ci.
       with_else base (cv @ ce @ ca @ resolve_code (resolves \<and> isDictField a) f @ ci) (file_op WriteV f) (file_op WriteVTry f)
         [] [] arm))))"

definition emit_mat_assign :: "string \<Rightarrow> Expr option \<Rightarrow> string \<Rightarrow> emission" where
  "emit_mat_assign target rhsExpr rhsSourceArray =
     (if rhsSourceArray \<noteq> []
      then Inr ([mkInstr MatCopy (StrV (uppercase target @ ''|'' @ uppercase rhsSourceArray))], [])
      else case rhsExpr of
             None \<Rightarrow> Inl (''MAT requires a scalar expression or '' @ quoted ''MAT <arr>'')
           | Some e \<Rightarrow> bindE (expr_code ''MAT scalar expression error'' e) (\<lambda>c.
               Inr (c @ [mkInstr MatInit (StrV (uppercase target))], [])))"

definition emit_mat_read :: "nat \<Rightarrow> string \<Rightarrow> string \<Rightarrow> Expr \<Rightarrow> (nat \<Rightarrow> emission) option \<Rightarrow> emission" where
  "emit_mat_read base a f e arm = bindE (expr_code ''MAT READ ID expression error'' e) (\<lambda>c.
     with_else base c (file_op ReadRec f) (file_op ReadRecTry f) [mkInstr MatLoadFromRec (StrV (uppercase a))] drop_code arm)"

definition emit_mat_write :: "nat \<Rightarrow> string \<Rightarrow> string \<Rightarrow> Expr \<Rightarrow> (nat \<Rightarrow> emission) option \<Rightarrow> emission" where
  "emit_mat_write base a f e arm = bindE (expr_code ''MAT WRITE ID expression error'' e) (\<lambda>c.
     with_else base ([mkInstr MatStoreToRec (StrV (uppercase a))] @ c) (file_op WriteRec f) (file_op WriteRecTry f) [] [] arm)"

section \<open>Statements in arms and on lines\<close>

definition plain :: "OpCode \<Rightarrow> emission" where
  "plain c = Inr ([makeNoOperandInstruction c], [])"

function (sequential) emitInlineStatement :: "nat \<Rightarrow> int \<Rightarrow> Stmt \<Rightarrow> emission"
  and emitBranchArm :: "nat \<Rightarrow> int \<Rightarrow> BranchArm \<Rightarrow> emission" where
  "emitInlineStatement base line (LetStmt nm e) = emit_let nm e"
| "emitInlineStatement base line (InputStmt p nm) = emit_input p nm"
| "emitInlineStatement base line (ChainStmt e) = emit_chain e"
| "emitInlineStatement base line (GotoStmt t) = line_jump Jump base line t"
| "emitInlineStatement base line (GosubStmt t) = line_jump Call base line t"
| "emitInlineStatement base line ReturnStmt = plain Return"
| "emitInlineStatement base line (IfStmt c thenArm elseArm) =
     emit_if base c (arm_line thenArm = None) (\<lambda>b. emitBranchArm b line thenArm)
       (case elseArm of None \<Rightarrow> None | Some a \<Rightarrow> Some (\<lambda>b. emitBranchArm b line a))"
| "emitInlineStatement base line (PrintStmt e suppressEol) = emit_print e suppressEol"
| "emitInlineStatement base line StopStmt = plain Halt"
| "emitInlineStatement base line EndStmt = plain Halt"
| "emitInlineStatement base line (OpenStmt e f arm) =
     emit_open base e f (case arm of None \<Rightarrow> None | Some a \<Rightarrow> Some (\<lambda>b. emitBranchArm b line a))"
| "emitInlineStatement base line (ReadStmt v f e arm) =
     emit_read base v f e (case arm of None \<Rightarrow> None | Some a \<Rightarrow> Some (\<lambda>b. emitBranchArm b line a))"
| "emitInlineStatement base line (ReadUStmt v f e arm) =
     emit_readu base v f e (case arm of None \<Rightarrow> None | Some a \<Rightarrow> Some (\<lambda>b. emitBranchArm b line a))"
| "emitInlineStatement base line (WriteUStmt v f e arm) =
     emit_writeu base v f e (case arm of None \<Rightarrow> None | Some a \<Rightarrow> Some (\<lambda>b. emitBranchArm b line a))"
| "emitInlineStatement base line (ReleaseStmt f e) = emit_release f e"
| "emitInlineStatement base line (WriteStmt v f e arm) =
     emit_write base v f e (case arm of None \<Rightarrow> None | Some a \<Rightarrow> Some (\<lambda>b. emitBranchArm b line a))"
| "emitInlineStatement base line (ReadNextStmt v f arm) =
     emit_readnext base v f (case arm of None \<Rightarrow> None | Some a \<Rightarrow> Some (\<lambda>b. emitBranchArm b line a))"
| "emitInlineStatement base line (ReadVStmt v f e att i arm) =
     emit_readv base v f e att i (case arm of None \<Rightarrow> None | Some a \<Rightarrow> Some (\<lambda>b. emitBranchArm b line a))"
| "emitInlineStatement base line (WriteVStmt v f e att i arm) =
     emit_writev False base v f e att i (case arm of None \<Rightarrow> None | Some a \<Rightarrow> Some (\<lambda>b. emitBranchArm b line a))"
| "emitInlineStatement base line (CloseStmt f) = Inr ([file_op CloseFile f], [])"
| "emitInlineStatement base line ClearStmt = plain ClearVars"
| "emitInlineStatement base line RemStmt = Inr ([], [])"
| "emitInlineStatement base line _ = Inl ''Unsupported inline branch statement''"
| "emitBranchArm base line (BranchArm (Some t) inl) = line_jump Jump base line t"
| "emitBranchArm base line (BranchArm None None) = Inl ''Branch arm requires a line target or statement''"
| "emitBranchArm base line (BranchArm None (Some st)) = emitInlineStatement base line st"
  by pat_completeness auto

termination
  by (relation "measure (case_sum (\<lambda>(_, _, s). size s) (\<lambda>(_, _, a). size a))") auto

text \<open>A statement on a line of its own.\<close>

definition emitStatement :: "nat \<Rightarrow> int \<Rightarrow> Stmt \<Rightarrow> emission" where
  "emitStatement base line st =
     (let arm = map_option (\<lambda>a b. emitBranchArm b line a)
      in case st of
           LetStmt nm e \<Rightarrow> emit_let nm e
         | InputStmt p nm \<Rightarrow> emit_input p nm
         | ChainStmt e \<Rightarrow> emit_chain e
         | GotoStmt t \<Rightarrow> line_jump Jump base line t
         | GosubStmt t \<Rightarrow> line_jump Call base line t
         | ReturnStmt \<Rightarrow> plain Return
         | ForStmt nm ini lmt stp \<Rightarrow> emit_for nm ini lmt stp
         | NextStmt nm \<Rightarrow> Inr ([mkInstr ForNext (StrV (uppercase nm))], [])
         | IfStmt c thenArm elseArm \<Rightarrow>
             emit_if base c (arm_line thenArm = None) (\<lambda>b. emitBranchArm b line thenArm) (arm elseArm)
         | PrintStmt e suppressEol \<Rightarrow> emit_print e suppressEol
         | RemStmt \<Rightarrow> Inr ([], [])
         | StopStmt \<Rightarrow> plain Halt
         | EndStmt \<Rightarrow> plain Halt
         | DimStmt nm e \<Rightarrow> emit_dim nm e
         | LetArrayStmt nm idx val \<Rightarrow> emit_let_array nm idx val
         | OpenStmt e f a \<Rightarrow> emit_open base e f (arm a)
         | ReadStmt v f e a \<Rightarrow> emit_read base v f e (arm a)
         | WriteStmt v f e a \<Rightarrow> emit_write base v f e (arm a)
         | ReadUStmt v f e a \<Rightarrow> emit_readu base v f e (arm a)
         | WriteUStmt v f e a \<Rightarrow> emit_writeu base v f e (arm a)
         | ReleaseStmt f e \<Rightarrow> emit_release f e
         | OnErrorStmt stop t \<Rightarrow> emit_on_error base line stop t
         | ReadNextStmt v f a \<Rightarrow> emit_readnext base v f (arm a)
         | ReadVStmt v f e att i a \<Rightarrow> emit_readv base v f e att i (arm a)
         | WriteVStmt v f e att i a \<Rightarrow> emit_writev True base v f e att i (arm a)
         | CloseStmt f \<Rightarrow> Inr ([file_op CloseFile f], [])
         | ClearStmt \<Rightarrow> plain ClearVars
         | MatAssignStmt tgt rhs src \<Rightarrow> emit_mat_assign tgt rhs src
         | MatReadStmt m f e a \<Rightarrow> emit_mat_read base m f e (arm a)
         | MatWriteStmt m f e a \<Rightarrow> emit_mat_write base m f e (arm a))"

section \<open>Programs\<close>

record Emitter =
  em_program :: "Instruction list"
  em_sourceLines :: "int list"
  lineToInstructionIndex :: "(int \<times> nat) list"
  jumpFixups :: "JumpFixup list"
  em_errors :: "(int \<times> string) list"
  explicitEnd :: bool

definition fresh_emitter :: Emitter where
  "fresh_emitter = \<lparr>em_program = [], em_sourceLines = [], lineToInstructionIndex = [], jumpFixups = [], em_errors = [], explicitEnd = False\<rparr>"

definition emit_line :: "Emitter \<Rightarrow> int \<times> Stmt \<Rightarrow> Emitter" where
  "emit_line em l =
     (let (lineNumber, st) = l; lineStartIp = length (em_program em);
          em1 = em\<lparr>lineToInstructionIndex := map_put lineNumber lineStartIp (lineToInstructionIndex em)\<rparr>
      in case emitStatement lineStartIp lineNumber st of
           Inl e \<Rightarrow> em1\<lparr>em_errors := em_errors em @ [(lineNumber, e)]\<rparr>
         | Inr (c, fx) \<Rightarrow>
             em1\<lparr>em_program := em_program em @ c,
                 em_sourceLines := em_sourceLines em @ replicate (length c) lineNumber,
                 jumpFixups := jumpFixups em @ fx,
                 explicitEnd := explicitEnd em \<or> st = EndStmt\<rparr>)"

definition apply_fixup :: "(int \<times> nat) list \<Rightarrow> Instruction list \<Rightarrow> JumpFixup \<Rightarrow> Instruction list" where
  "apply_fixup index prog fx = (case map_of index (targetLine fx) of
     None \<Rightarrow> prog
   | Some ip \<Rightarrow> prog[instructionIndex fx := (prog ! instructionIndex fx)\<lparr>operand := ip_operand ip\<rparr>])"

text \<open>\<open>BasicBytecodeEmitter::emit\<close>: the errors, or the program with its source lines.\<close>

definition emit :: "(int \<times> Stmt) list \<Rightarrow> (int \<times> string) list + Instruction list \<times> int list" where
  "emit ls =
     (let em = foldl emit_line fresh_emitter ls;
          prog = foldl (apply_fixup (lineToInstructionIndex em)) (em_program em) (jumpFixups em)
      in if em_errors em \<noteq> [] then Inl (em_errors em)
         else if \<not> explicitEnd em \<or> prog = [] \<or> instr_op (last prog) \<noteq> Halt
         then Inr (prog @ [makeNoOperandInstruction Halt], em_sourceLines em @ [0])
         else Inr (prog, em_sourceLines em))"

record BasicCompileResult =
  comp_program :: "Instruction list"
  comp_sourceLines :: "int list"
  instructionCount :: nat
  labelCount :: nat

text \<open>\<open>BasicCompiler::compile\<close> on the lines of a program in the order of their numbers.\<close>

definition compile :: "(int \<times> string) list \<Rightarrow> (int \<times> string) list + BasicCompileResult" where
  "compile ls =
     (let parsed = parse_lines ls; semantic = analyze (parsed_lines parsed)
      in if parse_errors parsed \<noteq> [] then Inl (parse_errors parsed)
         else if semantic \<noteq> [] then Inl semantic
         else bindE (emit (parsed_lines parsed)) (\<lambda>(prog, srcs).
           Inr \<lparr>comp_program = prog, comp_sourceLines = srcs, instructionCount = length prog, labelCount = 0\<rparr>))"

end
