(* ===== verification/Basic_Typing.thy ===== *)
theory Basic_Typing
  imports Basic_Compiler
begin

text \<open>
  What the BASIC parser guarantees of the trees it builds: literals are in the range of their types and names are
  variable names.  The emitter relies on it; the theory of compiled programs uses it.
\<close>

section \<open>Well-formed trees\<close>

fun expr_ok :: "Expr \<Rightarrow> bool" where
  "expr_ok (IntLiteralExpr v) \<longleftrightarrow> int32 v"
| "expr_ok (FloatLiteralExpr v) \<longleftrightarrow> dbl_wf v"
| "expr_ok (StringLiteralExpr v) \<longleftrightarrow> True"
| "expr_ok (IdentifierExpr nm) \<longleftrightarrow> True"
| "expr_ok (UnaryExpr op e) \<longleftrightarrow> expr_ok e"
| "expr_ok (BinaryExpr op l r) \<longleftrightarrow> expr_ok l \<and> expr_ok r"
| "expr_ok (GroupedExpr e) \<longleftrightarrow> expr_ok e"
| "expr_ok (SubscriptExpr nm e) \<longleftrightarrow> expr_ok e"
| "expr_ok (AttributeAccessExpr nm a i) \<longleftrightarrow> expr_ok a \<and> (case i of None \<Rightarrow> True | Some e \<Rightarrow> expr_ok e)"
| "expr_ok (DictFieldExpr t) \<longleftrightarrow> True"
| "expr_ok (FunctionCallExpr nm args) \<longleftrightarrow> list_all expr_ok args"

definition token_ok :: "ExprToken \<Rightarrow> bool" where
  "token_ok t \<longleftrightarrow> int32 (intValue t) \<and> dbl_wf (floatValue t)"

lemma expr_token_ok [simp]: "token_ok (expr_token t l b e)"
  by (simp add: token_ok_def expr_token_def range_simps)

lemma lex_expr_token_ok: "lex_expr_token i tokens c rest = Inr (t, n) \<Longrightarrow> token_ok t"
  using expr_token_ok
  by (auto simp: lex_expr_token_def lex_string_token_def lex_number_token_def lex_system_token_def lex_identifier_token_def
      token_ok_def parseIntLiteral_def Let_def parseFloatLiteral_def split: if_splits option.splits prod.splits list.splits dest: strtod_wf)

lemma tokenizeExpression_ok:
  "tokenizeExpression i tokens inp = Inr ts \<Longrightarrow> list_all token_ok tokens \<Longrightarrow> list_all token_ok ts"
proof (induction i tokens inp rule: tokenizeExpression.induct)
  case (1 i tokens inp)
  note eq = 1(3) [unfolded tokenizeExpression.simps [of i tokens inp]]
  show ?case
  proof (cases inp)
    case Nil
    then show ?thesis using eq 1(4) by auto
  next
    case (Cons c rest)
    then show ?thesis using eq 1(1,2,4) lex_expr_token_ok [of i tokens c rest]
      by (auto split: if_splits sum.splits prod.splits)
  qed
qed

section \<open>The parser\<close>

definition yieldsX :: "('a \<Rightarrow> bool) \<Rightarrow> 'a expr_parse \<Rightarrow> bool" where
  "yieldsX P m = (case m of Some (Inr (x, ts)) \<Rightarrow> P x \<and> list_all token_ok ts | _ \<Rightarrow> True)"

lemma yieldsX_simps [simp]: "yieldsX P None" "yieldsX P (errX e)" "yieldsX P (okX x ts) \<longleftrightarrow> P x \<and> list_all token_ok ts"
  by (simp_all add: yieldsX_def errX_def okX_def)

lemma yieldsX_bind:
  "yieldsX P m \<Longrightarrow> (\<And>x ts. P x \<Longrightarrow> list_all token_ok ts \<Longrightarrow> yieldsX Q (k x ts)) \<Longrightarrow> yieldsX Q (bindX m k)"
  by (cases m rule: expr_parse_cases) simp_all

lemma tokens_tl: "list_all token_ok ts \<Longrightarrow> list_all token_ok (tl ts)"
  by (cases ts) simp_all

lemma yieldsX_expect: "list_all token_ok ts \<Longrightarrow> (\<And>us. list_all token_ok us \<Longrightarrow> yieldsX Q (k us)) \<Longrightarrow> yieldsX Q (expectX t msg ts k)"
  by (simp add: expectX_def tokens_tl)

lemma yieldsX_if: "(c \<Longrightarrow> yieldsX Q m) \<Longrightarrow> (\<not> c \<Longrightarrow> yieldsX Q m') \<Longrightarrow> yieldsX Q (if c then m else m')"
  by simp

lemma yieldsX_option:
  "yieldsX Q m \<Longrightarrow> (\<And>x. v = Some x \<Longrightarrow> yieldsX Q (f x)) \<Longrightarrow> yieldsX Q (case v of None \<Rightarrow> m | Some x \<Rightarrow> f x)"
  by (simp split: option.split)

lemma yieldsX_pair: "yieldsX Q (f (fst p) (snd p)) \<Longrightarrow> yieldsX Q (case p of (x, y) \<Rightarrow> f x y)"
  by (simp add: case_prod_beta)

definition yields_all :: "nat \<Rightarrow> bool" where
  "yields_all n \<longleftrightarrow> (\<forall>ts. list_all token_ok ts \<longrightarrow>
     yieldsX expr_ok (parseComparisonX n ts) \<and> yieldsX expr_ok (parseAddSub n ts) \<and>
     (\<forall>l. expr_ok l \<longrightarrow> yieldsX expr_ok (addsub_loop n l ts) \<and> yieldsX expr_ok (muldiv_loop n l ts)) \<and>
     yieldsX expr_ok (parseMulDiv n ts) \<and> yieldsX expr_ok (parseUnaryX n ts) \<and> yieldsX expr_ok (parsePrimaryX n ts) \<and>
     (\<forall>u args. list_all expr_ok args \<longrightarrow> yieldsX (list_all expr_ok) (parse_arguments n u args ts)))"

lemma literal_token: "list_all token_ok ts \<Longrightarrow> current_type ts \<noteq> TEnd \<Longrightarrow> token_ok (hd ts)"
  by (cases ts) (simp_all add: current_type_def)

lemma yields_all_Suc:
  assumes "yields_all n"
  shows "yields_all (Suc n)"
  unfolding yields_all_def
proof (intro allI impI)
  fix ts assume ts: "list_all token_ok ts"
  have u: "yieldsX expr_ok (parseComparisonX n us)" "yieldsX expr_ok (parseAddSub n us)" "yieldsX expr_ok (parseMulDiv n us)"
    "yieldsX expr_ok (parseUnaryX n us)" "yieldsX expr_ok (parsePrimaryX n us)"
    "expr_ok l \<Longrightarrow> yieldsX expr_ok (addsub_loop n l us)" "expr_ok l \<Longrightarrow> yieldsX expr_ok (muldiv_loop n l us)"
    "list_all expr_ok args \<Longrightarrow> yieldsX (list_all expr_ok) (parse_arguments n w args us)"
    if "list_all token_ok us" for us l w args
    using assms that unfolding yields_all_def by blast+
  have prim: "yieldsX expr_ok (parsePrimaryX (Suc n) ts)"
    unfolding parsePrimaryX.simps Let_def using ts literal_token [OF ts]
    by (intro yieldsX_if yieldsX_option yieldsX_pair yieldsX_expect yieldsX_bind [OF u(2)]
        yieldsX_bind [where P = "list_all expr_ok"] u(8)) (simp_all add: tokens_tl token_ok_def)
  have cmp: "yieldsX expr_ok (parseComparisonX (Suc n) ts)"
    by (auto intro!: yieldsX_bind [OF u(2) [OF ts]] yieldsX_bind [OF u(2)] simp: tokens_tl)
  have ads: "yieldsX expr_ok (parseAddSub (Suc n) ts)" "yieldsX expr_ok (parseMulDiv (Suc n) ts)"
    by (auto intro!: yieldsX_bind [OF u(3) [OF ts]] yieldsX_bind [OF u(4) [OF ts]] u(6,7))
  have loops: "yieldsX expr_ok (addsub_loop (Suc n) l ts)" "yieldsX expr_ok (muldiv_loop (Suc n) l ts)" if "expr_ok l" for l
    using that ts tokens_tl [OF ts] by (auto intro!: yieldsX_bind [OF u(3)] yieldsX_bind [OF u(4)] u(6,7))
  have una: "yieldsX expr_ok (parseUnaryX (Suc n) ts)"
    using ts tokens_tl [OF ts] by (auto intro!: yieldsX_bind [OF u(4)] u(5))
  have args: "yieldsX (list_all expr_ok) (parse_arguments (Suc n) w args ts)" if "list_all expr_ok args" for w args
    using that by (auto intro!: yieldsX_bind [OF u(1) [OF ts]] u(8) simp: tokens_tl)
  show "yieldsX expr_ok (parseComparisonX (Suc n) ts) \<and> yieldsX expr_ok (parseAddSub (Suc n) ts) \<and>
     (\<forall>l. expr_ok l \<longrightarrow> yieldsX expr_ok (addsub_loop (Suc n) l ts) \<and> yieldsX expr_ok (muldiv_loop (Suc n) l ts)) \<and>
     yieldsX expr_ok (parseMulDiv (Suc n) ts) \<and> yieldsX expr_ok (parseUnaryX (Suc n) ts) \<and> yieldsX expr_ok (parsePrimaryX (Suc n) ts) \<and>
     (\<forall>u args. list_all expr_ok args \<longrightarrow> yieldsX (list_all expr_ok) (parse_arguments (Suc n) u args ts))"
    by (intro conjI allI impI cmp ads loops una prim args)
qed

lemma yields_all_holds: "yields_all n"
  by (induction n) (simp add: yields_all_def, rule yields_all_Suc)

lemma parse_expression_ok: "parse_expression txt = Inr e \<Longrightarrow> expr_ok e"
proof -
  assume p: "parse_expression txt = Inr e"
  then obtain ts where ts: "tokenizeExpression 0 [] txt = Inr ts" by (auto simp: parse_expression_def split: sum.splits)
  then have "list_all token_ok ts" by (rule tokenizeExpression_ok) simp
  then have "yieldsX expr_ok (parseComparisonX (expr_fuel ts) ts)" using yields_all_holds by (simp add: yields_all_def)
  then show ?thesis using p ts
    by (auto simp: parse_expression_def parse_tokens_def yieldsX_def split: option.splits sum.splits if_splits prod.splits)
qed

section \<open>Statements\<close>

definition opt_expr_ok :: "Expr option \<Rightarrow> bool" where
  "opt_expr_ok x = (case x of None \<Rightarrow> True | Some e \<Rightarrow> expr_ok e)"

function (sequential) stmt_ok :: "Stmt \<Rightarrow> bool"
  and arm_ok :: "BranchArm \<Rightarrow> bool"
  and else_ok :: "BranchArm option \<Rightarrow> bool" where
  "stmt_ok (LetStmt nm e) \<longleftrightarrow> isValidVariableName nm \<and> expr_ok e"
| "stmt_ok (InputStmt p nm) \<longleftrightarrow> isValidVariableName nm \<and> opt_expr_ok p"
| "stmt_ok (ChainStmt e) \<longleftrightarrow> expr_ok e"
| "stmt_ok (ForStmt nm ini lmt stp) \<longleftrightarrow> isValidVariableName nm \<and> expr_ok ini \<and> expr_ok lmt \<and> opt_expr_ok stp"
| "stmt_ok (NextStmt nm) \<longleftrightarrow> nm = [] \<or> isValidVariableName nm"
| "stmt_ok (IfStmt c t e) \<longleftrightarrow> expr_ok c \<and> arm_ok t \<and> else_ok e"
| "stmt_ok (PrintStmt e b) \<longleftrightarrow> expr_ok e"
| "stmt_ok (DimStmt nm e) \<longleftrightarrow> isValidVariableName nm \<and> expr_ok e"
| "stmt_ok (LetArrayStmt nm i v) \<longleftrightarrow> isValidVariableName nm \<and> expr_ok i \<and> expr_ok v"
| "stmt_ok (OpenStmt e f a) \<longleftrightarrow> isValidVariableName f \<and> expr_ok e \<and> else_ok a"
| "stmt_ok (ReadStmt v f e a) \<longleftrightarrow> isValidVariableName v \<and> isValidVariableName f \<and> expr_ok e \<and> else_ok a"
| "stmt_ok (ReadUStmt v f e a) \<longleftrightarrow> isValidVariableName v \<and> isValidVariableName f \<and> expr_ok e \<and> else_ok a"
| "stmt_ok (WriteStmt v f e a) \<longleftrightarrow> isValidVariableName f \<and> expr_ok v \<and> expr_ok e \<and> else_ok a"
| "stmt_ok (WriteUStmt v f e a) \<longleftrightarrow> isValidVariableName f \<and> expr_ok v \<and> expr_ok e \<and> else_ok a"
| "stmt_ok (ReadNextStmt v f a) \<longleftrightarrow> isValidVariableName v \<and> isValidVariableName f \<and> else_ok a"
| "stmt_ok (ReadVStmt v f e t i a) \<longleftrightarrow>
     isValidVariableName v \<and> isValidVariableName f \<and> expr_ok e \<and> expr_ok t \<and> opt_expr_ok i \<and> else_ok a"
| "stmt_ok (WriteVStmt v f e t i a) \<longleftrightarrow>
     isValidVariableName f \<and> expr_ok v \<and> expr_ok e \<and> expr_ok t \<and> opt_expr_ok i \<and> else_ok a"
| "stmt_ok (CloseStmt f) \<longleftrightarrow> isValidVariableName f"
| "stmt_ok (ReleaseStmt f e) \<longleftrightarrow> isValidVariableName f \<and> expr_ok e"
| "stmt_ok (MatAssignStmt t e s) \<longleftrightarrow> isValidVariableName t \<and> opt_expr_ok e \<and> (s = [] \<or> isValidVariableName s)"
| "stmt_ok (MatReadStmt m f e a) \<longleftrightarrow> isValidVariableName m \<and> isValidVariableName f \<and> expr_ok e \<and> else_ok a"
| "stmt_ok (MatWriteStmt m f e a) \<longleftrightarrow> isValidVariableName m \<and> isValidVariableName f \<and> expr_ok e \<and> else_ok a"
| "stmt_ok _ \<longleftrightarrow> True"
| "arm_ok (BranchArm l None) \<longleftrightarrow> True"
| "arm_ok (BranchArm l (Some s)) \<longleftrightarrow> stmt_ok s"
| "else_ok None \<longleftrightarrow> True"
| "else_ok (Some a) \<longleftrightarrow> arm_ok a"
  by pat_completeness auto

termination
  by (relation "measure (case_sum (\<lambda>s. 2 * size s) (case_sum (\<lambda>a. 2 * size a) (\<lambda>x. 2 * size_option size x)))") auto

definition yieldsM :: "('a \<Rightarrow> bool) \<Rightarrow> string + 'a \<Rightarrow> bool" where
  "yieldsM P m \<longleftrightarrow> (\<forall>x. m = Inr x \<longrightarrow> P x)"

named_theorems yields_intros

lemma yieldsM_Inl [yields_intros]: "yieldsM P (Inl e)"
  by (simp add: yieldsM_def)

lemma yieldsM_Inr: "yieldsM P (Inr x) \<longleftrightarrow> P x"
  by (simp add: yieldsM_def)

lemma yieldsM_demand [yields_intros]: "(b \<Longrightarrow> yieldsM P k) \<Longrightarrow> yieldsM P (demand b msg k)"
  by (simp add: yieldsM_def demand_def)

lemma yieldsM_writable [yields_intros]: "yieldsM P k \<Longrightarrow> yieldsM P (writable nm k)"
  by (simp add: yieldsM_def writable_def demand_def)

lemma yieldsM_needs [yields_intros]: "(\<And>x. v = Some x \<Longrightarrow> yieldsM P (k x)) \<Longrightarrow> yieldsM P (needs v msg k)"
  by (simp add: yieldsM_def needs_def split: option.split)

lemma yieldsM_expr_of [yields_intros]: "(\<And>e. expr_ok e \<Longrightarrow> yieldsM P (k e)) \<Longrightarrow> yieldsM P (expr_of ctx s k)"
  by (auto simp: yieldsM_def expr_of_def dest: parse_expression_ok split: sum.splits)

lemma yieldsM_bind: "yieldsM Q m \<Longrightarrow> (\<And>x. Q x \<Longrightarrow> yieldsM P (k x)) \<Longrightarrow> yieldsM P (bindE m k)"
  by (cases m) (simp_all add: yieldsM_def)

lemma yieldsM_if [yields_intros]: "(c \<Longrightarrow> yieldsM P m) \<Longrightarrow> (\<not> c \<Longrightarrow> yieldsM P m') \<Longrightarrow> yieldsM P (if c then m else m')"
  by simp

lemma yieldsM_option [yields_intros]:
  "yieldsM P m \<Longrightarrow> (\<And>x. v = Some x \<Longrightarrow> yieldsM P (f x)) \<Longrightarrow> yieldsM P (case v of None \<Rightarrow> m | Some x \<Rightarrow> f x)"
  by (simp split: option.split)

lemma yieldsM_list [yields_intros]:
  "yieldsM P m \<Longrightarrow> (\<And>x xs. v = x # xs \<Longrightarrow> yieldsM P (f x xs)) \<Longrightarrow> yieldsM P (case v of [] \<Rightarrow> m | x # xs \<Rightarrow> f x xs)"
  by (simp split: list.split)

lemma yieldsM_attr [yields_intros]: "(\<And>e. expr_ok e \<Longrightarrow> yieldsM P (k e)) \<Longrightarrow> yieldsM P (attr_expr_of nm a k)"
  unfolding attr_expr_of_def by (intro yields_intros) auto

lemma yieldsM_value_arguments [yields_intros]:
  "(\<And>f e t i. isValidVariableName f \<Longrightarrow> expr_ok e \<Longrightarrow> expr_ok t \<Longrightarrow> opt_expr_ok i \<Longrightarrow> yieldsM P (k f e t i)) \<Longrightarrow>
   yieldsM P (value_arguments nm s k)"
  unfolding value_arguments_def Let_def by (intro yields_intros) (simp_all add: opt_expr_ok_def)

lemma parseBranchArmSpec_ok: "(\<And>t. yieldsM stmt_ok (f t)) \<Longrightarrow> yieldsM arm_ok (parseBranchArmSpec f s ctx)"
  unfolding parseBranchArmSpec_def Let_def
  by (intro yields_intros yieldsM_bind [where Q = stmt_ok]) (simp_all add: yieldsM_Inr)

lemma yieldsM_else_arm:
  "(\<And>t. yieldsM stmt_ok (f t)) \<Longrightarrow> (\<And>a s. else_ok a \<Longrightarrow> yieldsM P (k a s)) \<Longrightarrow> yieldsM P (else_arm f ctx rest k)"
  unfolding else_arm_def
  by (intro yields_intros yieldsM_bind [OF parseBranchArmSpec_ok]) simp_all

lemma parse_simple_ok:
  "yieldsM stmt_ok (parse_let s)" "yieldsM stmt_ok (parse_dim s)" "yieldsM stmt_ok (parse_input s)" "yieldsM stmt_ok (parse_chain s)"
  "yieldsM stmt_ok (parse_goto s)" "yieldsM stmt_ok (parse_gosub s)" "yieldsM stmt_ok (parse_return s)" "yieldsM stmt_ok (parse_clear s)"
  "yieldsM stmt_ok (parse_on s)" "yieldsM stmt_ok (parse_for s)" "yieldsM stmt_ok (parse_next s)" "yieldsM stmt_ok (parse_print s)"
  "yieldsM stmt_ok (parse_stop s)" "yieldsM stmt_ok (parse_end s)" "yieldsM stmt_ok (parse_release s)" "yieldsM stmt_ok (parse_close s)"
  "yieldsM stmt_ok (parse_mat_assign s)"
  unfolding parse_let_def parse_dim_def parse_input_def parse_chain_def parse_goto_def parse_gosub_def parse_return_def parse_clear_def
    parse_on_def parse_for_def parse_next_def parse_print_def parse_stop_def parse_end_def parse_release_def parse_close_def
    parse_mat_assign_def Let_def case_prod_beta
  by ((intro yields_intros)?; simp add: yieldsM_Inr opt_expr_ok_def)+

lemma parse_armed_ok:
  assumes "\<And>t. yieldsM stmt_ok (f t)"
  shows "yieldsM stmt_ok (parse_if f s)" "yieldsM stmt_ok (parse_open f s)" "yieldsM stmt_ok (parse_readu f s)"
    "yieldsM stmt_ok (parse_read ''READ'' ReadStmt f s)" "yieldsM stmt_ok (parse_writeu f s)" "yieldsM stmt_ok (parse_write ''WRITE'' WriteStmt f s)"
    "yieldsM stmt_ok (parse_readnext f s)" "yieldsM stmt_ok (parse_readv f s)" "yieldsM stmt_ok (parse_writev f s)"
  unfolding parse_if_def parse_open_def parse_readu_def parse_read_def parse_writeu_def parse_write_def parse_readnext_def parse_readv_def
    parse_writev_def Let_def case_prod_beta
  by ((intro yields_intros yieldsM_else_arm [OF assms] yieldsM_bind [OF parseBranchArmSpec_ok [OF assms]])?; simp add: yieldsM_Inr)+

lemma parse_mat_transfer_ok: "(\<And>t. yieldsM stmt_ok (f t)) \<Longrightarrow> yieldsM stmt_ok (parse_mat_transfer r f s)"
  by (cases r) (auto simp: parse_mat_transfer_def Let_def yieldsM_Inr intro!: yields_intros yieldsM_else_arm)

lemma parse_keyword_ok: "(\<And>t. yieldsM stmt_ok (f t)) \<Longrightarrow> yieldsM stmt_ok (parse_keyword f line)"
  unfolding parse_keyword_def parse_mat_def Let_def case_prod_beta
  by (intro yields_intros parse_simple_ok parse_armed_ok parse_mat_transfer_ok) (simp_all add: yieldsM_Inr)

lemma parse_statement_ok: "yieldsM stmt_ok (parse_statement n line)"
  by (induction n arbitrary: line) (simp_all add: yieldsM_Inl parse_keyword_ok)

lemma parse_lines_ok: "(n, st) \<in> set (parsed_lines (parse_lines ls)) \<Longrightarrow> stmt_ok st"
proof (induction ls rule: parse_lines.induct)
  case (2 l src ps)
  then show ?case using parse_statement_ok [of "Suc (length (trim src))" "trim src"]
    by (auto simp: Let_def statement_of_def yieldsM_def split: if_splits sum.splits)
qed simp

text \<open>The lines of the trees are lines of the program, in the same order.\<close>

lemma parsed_lines_sub: "fst ` set (parsed_lines (parse_lines ls)) \<subseteq> fst ` set ls"
  by (induction ls rule: parse_lines.induct) (auto simp: Let_def split: sum.splits)

end
