(* ===== verification/Basic_Code.thy ===== *)
theory Basic_Code
  imports Basic_Typing Machine_Invariant
begin

text \<open>
  Compiled BASIC programs are well formed: operands have the types their opcodes ask for, every jump stays inside the program and the
  table of source lines is parallel to it, so that the invariant of the virtual machine holds for their runs and
  the object code can be stored and loaded.  \<open>END\<close> on a line that is not the last is the exception.
\<close>

section \<open>Instructions\<close>

definition emitted_ok :: "Instruction \<Rightarrow> bool" where
  "emitted_ok ins \<longleftrightarrow> instr_ok ins \<or> (\<exists>d. dbl_wf d \<and> ins = mkInstr PushFlt (DblV d)) \<or> ins = mkInstr ForNext (StrV [])"

definition is_jump :: "OpCode \<Rightarrow> bool" where
  "is_jump c \<longleftrightarrow> is_control c \<or> c = SetOnErrorHandler"

definition straight :: "Instruction \<Rightarrow> bool" where
  "straight ins \<longleftrightarrow> emitted_ok ins \<and> \<not> is_jump (instr_op ins)"

text \<open>A jump goes at most to the address \<open>n\<close>.\<close>

definition reaches :: "nat \<Rightarrow> Instruction \<Rightarrow> bool" where
  "reaches n ins \<longleftrightarrow> emitted_ok ins \<and> (is_jump (instr_op ins) \<longrightarrow> (\<exists>t. operand ins = IntV t \<and> 0 \<le> t \<and> t \<le> int n))"

lemma reaches_mono: "reaches n ins \<Longrightarrow> n \<le> m \<Longrightarrow> reaches m ins"
  by (force simp: reaches_def)

lemma straight_reaches [simp]: "straight ins \<Longrightarrow> reaches n ins"
  by (simp add: straight_def reaches_def)

lemma straight_list: "list_all straight c \<Longrightarrow> list_all (reaches n) c"
  by (simp add: list_all_iff)

lemma list_reaches_mono: "list_all (reaches n) c \<Longrightarrow> n \<le> m \<Longrightarrow> list_all (reaches m) c"
  using reaches_mono by (auto simp: list_all_iff)

lemma ip_operand_id: "n < 2 ^ 31 \<Longrightarrow> ip_operand n = IntV (int n)"
  by (simp add: ip_operand_def wrap32_def)

lemma emitted_typed: "emitted_ok ins \<Longrightarrow> instr_typed ins"
proof (unfold emitted_ok_def, elim disjE exE conjE)
  assume ok: "instr_ok ins"
  show ?thesis
  proof (cases "operand ins")
    case (IntV i)
    then show ?thesis using ok int_ops_only [of "instr_op ins"]
      by (cases "instr_op ins = CallFunc") (auto simp: instr_ok_def instr_typed_def Let_def range_simps int_ops_def name_ops_def split: if_splits)
  next
    case (StrV x)
    then show ?thesis using ok int_ops_only [of "instr_op ins"]
      by (cases "instr_op ins = CallFunc") (auto simp: instr_ok_def instr_typed_def Let_def int_ops_def name_ops_def)
  qed (use ok in \<open>simp add: instr_ok_def Let_def split: if_splits\<close>)
next
  fix d assume "dbl_wf d" "ins = mkInstr PushFlt (DblV d)"
  then show ?thesis by (simp add: instr_typed_def mkInstr_def int_ops_def name_ops_def)
qed (simp add: typed_str name_ops_def)

section \<open>Names\<close>

definition name_char_ok :: "char \<Rightarrow> bool" where
  "name_char_ok c \<longleftrightarrow> isalnum c \<or> c = CHR ''@'' \<or> c = CHR ''$'' \<or> c = CHR ''%''"

lemma name_char_code: "name_char_ok c \<Longrightarrow> code_of (toupper c) \<in> {36, 37, 64} \<union> {48..57} \<union> {65..90}"
  unfolding name_char_ok_def isalnum_def isalpha_def isdigit_def
  by (elim disjE) (auto simp: code_of_toupper, simp_all add: code_of_def)

lemma toupper_clean: "name_char_ok c \<Longrightarrow> \<not> blank (toupper c) \<and> toupper c \<noteq> LF \<and> toupper c \<noteq> DQ \<and> toupper c \<noteq> CHR '':''"
  using name_char_code [of c] by (auto simp: blank_def code_of_def)

lemma session_variable_chars: "isReadonlySessionSystemVariable nm \<Longrightarrow> nm \<noteq> [] \<and> name_ok (uppercase nm)"
  by (auto simp: isReadonlySessionSystemVariable_def Let_def name_ok_def blank_def uppercase_def)

lemma valid_name_ok: "isValidVariableName nm \<Longrightarrow> name_ok (uppercase nm)"
proof -
  assume v: "isValidVariableName nm"
  then obtain f r where nm: "nm = f # r" by (auto simp: isValidVariableName_def split: list.splits)
  show ?thesis
  proof (cases "f = CHR ''@''")
    case True
    then show ?thesis using v session_variable_chars by (simp add: isValidVariableName_def nm)
  next
    case False
    have "list_all isalnum nm \<or> list_all isalnum (butlast nm) \<and> (last nm = CHR ''$'' \<or> last nm = CHR ''%'')"
      using v False by (auto simp: isValidVariableName_def nm split: if_splits)
    then have "\<forall>c \<in> set nm. name_char_ok c"
      using append_butlast_last_id [of nm] nm by (metis list_all_iff name_char_ok_def in_set_conv_decomp list.distinct(1) rotate1.simps(2) set_ConsD set_rotate1)
    then have c: "\<forall>c \<in> set (uppercase nm). \<not> blank c \<and> c \<noteq> LF \<and> c \<noteq> DQ \<and> c \<noteq> CHR '':''"
      using toupper_clean by (auto simp: uppercase_def)
    have n: "uppercase nm \<noteq> []" by (simp add: nm uppercase_def)
    then have "hd (uppercase nm) \<in> set (uppercase nm)" "last (uppercase nm) \<in> set (uppercase nm)" by simp_all
    then show ?thesis using c n unfolding name_ok_def by blast
  qed
qed

section \<open>Code of expressions\<close>

lemma name_instr: "c \<in> set name_ops \<Longrightarrow> isValidVariableName nm \<Longrightarrow> straight (mkInstr c (StrV (uppercase nm)))"
  using name_ops_disjoint [of c] valid_name_ok [of nm]
  by (auto simp: straight_def emitted_ok_def instr_ok_def Let_def mkInstr_def is_jump_def is_control_def int_ops_def)

definition bare_op :: "OpCode \<Rightarrow> bool" where
  "bare_op c \<longleftrightarrow> c \<notin> set int_ops \<and> c \<notin> set name_ops \<and> c \<notin> {PushFlt, PushStr, InvokeBuiltin, CallFunc}"

lemma bare_instr: "bare_op c \<Longrightarrow> straight (makeNoOperandInstruction c)"
  by (auto simp: straight_def emitted_ok_def instr_ok_def Let_def mkInstr_def makeNoOperandInstruction_def is_jump_def is_control_def
      int_ops_def bare_op_def)

lemma bare_ops [simp]:
  "bare_op Sub" "bare_op (toOpCode op)" "bare_op ExtractAttr" "bare_op CoerceInt" "bare_op PrintVal" "bare_op PrintEol" "bare_op InputStr"
  "bare_op Chain" "bare_op Drop" "bare_op Return" "bare_op Halt" "bare_op ClearVars"
  by (cases op; simp add: bare_op_def int_ops_def name_ops_def)+

lemma literal_instr [simp]:
  "int32 i \<Longrightarrow> straight (mkInstr PushInt (IntV i))" "dbl_wf d \<Longrightarrow> straight (mkInstr PushFlt (DblV d))" "straight (mkInstr PushStr (StrV x))"
  by (auto simp: straight_def emitted_ok_def instr_ok_def Let_def mkInstr_def is_jump_def is_control_def int_ops_def)

lemma functionIdForCall_bounds: "functionIdForCall name n = Some k \<Longrightarrow> k < 2 ^ 32"
proof -
  have "list_all (\<lambda>p. snd p < 2 ^ 32) call_table" by (simp add: call_table_def)
  then show "functionIdForCall name n = Some k \<Longrightarrow> k < 2 ^ 32" by (fastforce simp: functionIdForCall_def list_all_iff dest: map_of_SomeD)
qed

lemma builtin_call_straight: "builtin_call name got = Inr c \<Longrightarrow> 0 \<le> got \<Longrightarrow> got \<le> 3 \<Longrightarrow> list_all straight c"
  by (auto simp: builtin_call_def Let_def straight_def emitted_ok_def instr_ok_def makeNoOperandInstruction_def mkInstr_def is_jump_def is_control_def
      kNamespaceIdBasic_def range_simps int_ops_def dest: functionIdForCall_bounds split: if_splits option.splits)

lemma arity_bound: "arity_error name n = None \<Longrightarrow> n \<le> 3"
proof -
  have "b \<le> 3" if "builtinArityBounds name = Some (a, b)" for a b
    using that unfolding builtinArityBounds_def by (simp only: split: if_splits) simp_all
  then show "arity_error name n = None \<Longrightarrow> n \<le> 3"
    by (force simp: arity_error_def check_arity_def split: option.splits if_splits)
qed

lemma emitNode_straight:
  "emitNode e a = Inr c \<Longrightarrow> expr_ok e \<Longrightarrow> list_all straight c"
  "emit_args nm i es = Inr cs \<Longrightarrow> list_all expr_ok es \<Longrightarrow> list_all straight cs"
proof (induction e a and nm i es arbitrary: c and cs rule: emitNode_emit_args.induct)
  case (7 op l r a)
  then show ?case by (auto simp: bindE_eq_Inr_iff bare_instr)
next
  case (10 nm attr v a)
  then show ?case
    by (auto simp: bindE_eq_Inr_iff bare_instr name_instr name_ops_def range_simps split: if_splits option.splits)
next
  case (11 nm args a)
  then show ?case by (auto simp: bindE_eq_Inr_iff dest!: builtin_call_straight [OF _ _ arity_bound] split: option.splits)
qed (auto simp: bindE_eq_Inr_iff bare_instr name_instr name_ops_def range_simps split: if_splits)

lemma expr_code_straight: "expr_code ctx e = Inr c \<Longrightarrow> expr_ok e \<Longrightarrow> list_all straight c"
  by (auto simp: expr_code_def dest: emitNode_straight(1) split: sum.splits)

section \<open>Code of statements\<close>

text \<open>The entry of the fixup list names a jump of the code \<open>c\<close> at \<open>base\<close>.\<close>

definition fixes_jump :: "nat \<Rightarrow> Instruction list \<Rightarrow> JumpFixup \<Rightarrow> bool" where
  "fixes_jump base c f \<longleftrightarrow>
     base \<le> instructionIndex f \<and> instructionIndex f < base + length c \<and> is_jump (instr_op (c ! (instructionIndex f - base)))"

text \<open>The code of a statement at \<open>base\<close> jumps at most to the address behind itself, apart from what the fixups still set.\<close>

definition code_ok :: "nat \<Rightarrow> Instruction list \<Rightarrow> JumpFixup list \<Rightarrow> bool" where
  "code_ok base c fx \<longleftrightarrow> (base + length c < 2 ^ 31 \<longrightarrow> list_all (reaches (base + length c)) c) \<and>
     list_all (fixes_jump base c) fx \<and> distinct (map instructionIndex fx)"

definition emission_ok :: "nat \<Rightarrow> emission \<Rightarrow> bool" where
  "emission_ok base m \<longleftrightarrow> (\<forall>c fx. m = Inr (c, fx) \<longrightarrow> code_ok base c fx)"

lemma emission_ok_Inl [simp]: "emission_ok base (Inl e)"
  by (simp add: emission_ok_def)

lemma emission_ok_Inr [simp]: "emission_ok base (Inr (c, fx)) \<longleftrightarrow> code_ok base c fx"
  by (simp add: emission_ok_def)

lemma emission_ok_if [intro]: "(b \<Longrightarrow> emission_ok base m) \<Longrightarrow> (\<not> b \<Longrightarrow> emission_ok base m') \<Longrightarrow> emission_ok base (if b then m else m')"
  by simp

lemma emission_ok_bind: "(\<And>x. m = Inr x \<Longrightarrow> emission_ok base (k x)) \<Longrightarrow> emission_ok base (bindE m k)"
  by (cases m) simp_all

lemma emission_ok_expr:
  "expr_ok e \<Longrightarrow> (\<And>c. list_all straight c \<Longrightarrow> emission_ok base (k c)) \<Longrightarrow> emission_ok base (bindE (expr_code ctx e) k)"
  by (rule emission_ok_bind) (auto dest: expr_code_straight)

lemma code_ok_straight: "list_all straight c \<Longrightarrow> code_ok base c []"
  by (simp add: code_ok_def straight_list)

lemma fixes_jump_shift: "fixes_jump (base + length a) c f \<Longrightarrow> fixes_jump base (a @ c @ b) f"
  by (auto simp: fixes_jump_def nth_append)

lemma local_jump: "is_control c \<Longrightarrow> t \<le> n \<Longrightarrow> n < 2 ^ 31 \<Longrightarrow> reaches n (mkInstr c (ip_operand t))"
  by (simp add: reaches_def ip_operand_id emitted_ok_def instr_ok_def mkInstr_def int32_def int_min_def int_max_def is_control_def int_ops_def)
    (elim disjE; simp)

lemma line_jump_ok: "is_jump c \<Longrightarrow> emission_ok base (line_jump c base line t)"
  by (auto simp: line_jump_def code_ok_def fixes_jump_def reaches_def emitted_ok_def instr_ok_def Let_def mkInstr_def is_jump_def is_control_def
      int_ops_def range_simps)

lemma fixes_jump_list: "list_all (fixes_jump b c) fx \<Longrightarrow> b = base + length a \<Longrightarrow> list_all (fixes_jump base (a @ c @ d)) fx"
  by (auto simp: list_all_iff fixes_jump_shift)

lemma fixes_disjoint:
  "list_all (fixes_jump b c) fx \<Longrightarrow> list_all (fixes_jump b' c') fy \<Longrightarrow> b + length c \<le> b' \<Longrightarrow>
   distinct (map instructionIndex fx) \<Longrightarrow> distinct (map instructionIndex fy) \<Longrightarrow> distinct (map instructionIndex (fx @ fy))"
  by (fastforce simp: list_all_iff fixes_jump_def)

text \<open>Code in front of and behind a piece of code.\<close>

lemma code_ok_append:
  assumes "code_ok (base + length a) c fx" "base + length (a @ c @ b) < 2 ^ 31 \<Longrightarrow> list_all (reaches (base + length (a @ c @ b))) (a @ b)"
  shows "code_ok base (a @ c @ b) fx"
  using assms list_reaches_mono [of "base + length a + length c" c "base + length (a @ c @ b)"]
  by (auto simp: code_ok_def fixes_jump_shift list_all_iff)

definition armed_ok :: "(nat \<Rightarrow> emission) option \<Rightarrow> bool" where
  "armed_ok arm \<longleftrightarrow> (\<forall>f b. arm = Some f \<longrightarrow> emission_ok b (f b))"

lemma with_else_ok:
  assumes "list_all straight pre" "straight plainOp" "straight tryOp" "list_all straight ok" "list_all straight bad"
    and arm: "armed_ok arm"
  shows "emission_ok base (with_else base pre plainOp tryOp ok bad arm)"
proof (cases arm)
  case None
  then show ?thesis using assms by (simp add: with_else_def code_ok_straight)
next
  case (Some f)
  let ?b = "base + length pre + 1 + 1 + length ok + 1 + length bad"
  show ?thesis
  proof (cases "f ?b")
    case (Inr p)
    obtain c fx where p: "p = (c, fx)" by fastforce
    have c: "code_ok ?b c fx" using arm Some Inr p by (metis armed_ok_def emission_ok_Inr)
    let ?a = "pre @ [tryOp, mkInstr JumpIfZero (ip_operand (base + length pre + 1 + 1 + length ok + 1))] @ ok @
      [mkInstr Jump (ip_operand (?b + length c))] @ bad"
    have "code_ok base (?a @ c @ []) fx"
      by (rule code_ok_append) (use c assms(1-5) in \<open>auto simp: ac_simps straight_list is_control_def intro!: local_jump\<close>)
    then show ?thesis using Some Inr p by (simp add: with_else_def Let_def ac_simps)
  qed (simp add: with_else_def Some Let_def)
qed

lemma emit_if_ok:
  assumes "expr_ok c" "\<And>b. emission_ok b (thenArm b)" and els: "armed_ok elseArm"
  shows "emission_ok base (emit_if base c through thenArm elseArm)"
  unfolding emit_if_def Let_def
proof (rule emission_ok_expr [OF assms(1)], rule emission_ok_bind)
  fix cc x assume cc: "list_all straight cc" and x: "thenArm (base + length cc + 1) = Inr x"
  obtain ct fx where xx: "x = (ct, fx)" by fastforce
  have ct: "code_ok (base + length cc + 1) ct fx" using assms(2) x xx by (metis emission_ok_Inr)
  show "emission_ok base (case x of (ct, fx) \<Rightarrow> case elseArm of
           None \<Rightarrow> Inr (cc @ [mkInstr JumpIfZero (ip_operand (base + length cc + 1 + length ct))] @ ct, fx)
         | Some ea \<Rightarrow> bindE (ea (base + length cc + 1 + length ct + (if through then 1 else 0))) (\<lambda>(ce, fy).
               Inr (cc @ [mkInstr JumpIfZero (ip_operand (base + length cc + 1 + length ct + (if through then 1 else 0)))] @ ct @
                    (if through then [mkInstr Jump (ip_operand (base + length cc + 1 + length ct + (if through then 1 else 0) + length ce))] else []) @ ce,
                    fx @ fy)))"
  proof (cases elseArm)
    case None
    have "code_ok base ((cc @ [mkInstr JumpIfZero (ip_operand (base + length cc + 1 + length ct))]) @ ct @ []) fx"
      by (rule code_ok_append) (use ct cc in \<open>auto simp: ac_simps straight_list is_control_def intro!: local_jump\<close>)
    then show ?thesis by (simp add: None xx)
  next
    case (Some ea)
    show ?thesis unfolding xx prod.case Some option.case
    proof (rule emission_ok_bind)
      fix y assume y: "ea (base + length cc + 1 + length ct + (if through then 1 else 0)) = Inr y"
      obtain ce fy where yy: "y = (ce, fy)" by fastforce
      let ?e = "base + length cc + 1 + length ct + (if through then 1 else 0)"
      let ?jz = "mkInstr JumpIfZero (ip_operand ?e)" and ?j = "if through then [mkInstr Jump (ip_operand (?e + length ce))] else []"
      have ce: "code_ok ?e ce fy" using els Some y yy by (metis armed_ok_def emission_ok_Inr)
      let ?n = "?e + length ce"
      have "list_all (reaches ?n) (cc @ [?jz] @ ct @ ?j @ ce)" if n: "?n < 2 ^ 31"
      proof -
        have "list_all (reaches ?n) ct" "list_all (reaches ?n) ce"
          using ct ce n by (auto simp: code_ok_def intro: list_reaches_mono)
        then show ?thesis using n cc local_jump [of JumpIfZero ?e ?n] local_jump [of Jump ?n ?n]
          by (cases through) (simp_all add: straight_list is_control_def)
      qed
      moreover have "list_all (fixes_jump base (cc @ [?jz] @ ct @ ?j @ ce)) fx"
        using ct fixes_jump_list [of "base + length cc + 1" ct fx base "cc @ [?jz]" "?j @ ce"] by (simp add: code_ok_def)
      moreover have "list_all (fixes_jump base (cc @ [?jz] @ ct @ ?j @ ce)) fy"
        using ce fixes_jump_list [of ?e ce fy base "cc @ [?jz] @ ct @ ?j" "[]"] by (simp add: code_ok_def ac_simps)
      moreover have "base + length (cc @ [?jz] @ ct @ ?j @ ce) = ?n" by simp
      moreover have "distinct (map instructionIndex (fx @ fy))"
        using ct ce by (intro fixes_disjoint [of "base + length cc + 1" ct fx ?e ce fy]) (auto simp: code_ok_def)
      ultimately have "code_ok base (cc @ [?jz] @ ct @ ?j @ ce) (fx @ fy)" unfolding code_ok_def list_all_append [of _ fx fy] by metis
      then show "emission_ok base (case y of (ce, fy) \<Rightarrow> Inr (cc @ [?jz] @ ct @
         (if through then [mkInstr Jump (ip_operand (?e + length ce))] else []) @ ce, fx @ fy))"
        by (simp only: yy prod.case emission_ok_Inr)
    qed
  qed
qed

lemma file_op_straight: "c \<in> set name_ops \<Longrightarrow> isValidVariableName f \<Longrightarrow> straight (file_op c f)"
  by (simp add: file_op_def name_instr)

lemma piece_straight [simp]:
  "list_all straight (coerce_code nm)" "isValidVariableName nm \<Longrightarrow> list_all straight (store_code nm)" "list_all straight drop_code"
  "isValidVariableName nm \<Longrightarrow> list_all straight (resolve_code b nm)"
  by (simp_all add: coerce_code_def store_code_def drop_code_def resolve_code_def bare_instr name_instr file_op_straight name_ops_def)

lemma value_index_straight: "value_index_code ctx i = Inr c \<Longrightarrow> opt_expr_ok i \<Longrightarrow> list_all straight c"
  by (auto simp: value_index_code_def opt_expr_ok_def range_simps dest: expr_code_straight split: option.splits)

lemma mat_copy_straight:
  "isValidVariableName a \<Longrightarrow> isValidVariableName b \<Longrightarrow> straight (mkInstr MatCopy (StrV (uppercase a @ CHR ''|'' # uppercase b)))"
  using valid_name_ok [of a] valid_name_ok [of b]
  by (auto simp: straight_def emitted_ok_def instr_ok_def Let_def mkInstr_def is_jump_def is_control_def int_ops_def name_ops_def name_ok_def)

lemma emit_plain_ok:
  "isValidVariableName nm \<Longrightarrow> expr_ok e \<Longrightarrow> emission_ok base (emit_let nm e)"
  "isValidVariableName nm \<Longrightarrow> opt_expr_ok p \<Longrightarrow> emission_ok base (emit_input p nm)"
  "expr_ok e \<Longrightarrow> emission_ok base (emit_chain e)"
  "isValidVariableName nm \<Longrightarrow> expr_ok ini \<Longrightarrow> expr_ok lmt \<Longrightarrow> opt_expr_ok stp \<Longrightarrow> emission_ok base (emit_for nm ini lmt stp)"
  "expr_ok e \<Longrightarrow> emission_ok base (emit_print e b)"
  "isValidVariableName nm \<Longrightarrow> expr_ok e \<Longrightarrow> emission_ok base (emit_dim nm e)"
  "isValidVariableName nm \<Longrightarrow> expr_ok i \<Longrightarrow> expr_ok e \<Longrightarrow> emission_ok base (emit_let_array nm i e)"
  "isValidVariableName f \<Longrightarrow> expr_ok e \<Longrightarrow> emission_ok base (emit_release f e)"
  "isValidVariableName nm \<Longrightarrow> opt_expr_ok p \<Longrightarrow> src = [] \<or> isValidVariableName src \<Longrightarrow> emission_ok base (emit_mat_assign nm p src)"
  unfolding emit_let_def emit_input_def emit_chain_def emit_for_def emit_print_def emit_dim_def emit_let_array_def emit_release_def
    emit_mat_assign_def
  by (auto simp: opt_expr_ok_def name_ops_def range_simps bindE_eq_Inr_iff mat_copy_straight dest!: expr_code_straight split: option.splits
      intro!: emission_ok_expr emission_ok_bind code_ok_straight bare_instr name_instr file_op_straight)

lemma emit_armed_ok:
  assumes "isValidVariableName f" "expr_ok e" "armed_ok arm"
  shows "emission_ok base (emit_open base e f arm)"
    "isValidVariableName v \<Longrightarrow> emission_ok base (emit_read base v f e arm)"
    "isValidVariableName v \<Longrightarrow> emission_ok base (emit_readu base v f e arm)"
    "expr_ok w \<Longrightarrow> emission_ok base (emit_write base w f e arm)"
    "expr_ok w \<Longrightarrow> emission_ok base (emit_writeu base w f e arm)"
    "isValidVariableName v \<Longrightarrow> expr_ok t \<Longrightarrow> opt_expr_ok i \<Longrightarrow> emission_ok base (emit_readv base v f e t i arm)"
    "expr_ok w \<Longrightarrow> expr_ok t \<Longrightarrow> opt_expr_ok i \<Longrightarrow> emission_ok base (emit_writev r base w f e t i arm)"
    "isValidVariableName v \<Longrightarrow> emission_ok base (emit_mat_read base v f e arm)"
    "isValidVariableName v \<Longrightarrow> emission_ok base (emit_mat_write base v f e arm)"
  unfolding emit_open_def emit_read_def emit_readu_def emit_write_def emit_writeu_def emit_readv_def emit_writev_def emit_mat_read_def
    emit_mat_write_def
  using assms(1,2) value_index_straight [of _ i]
  by (auto simp: name_ops_def dest: expr_code_straight intro!: emission_ok_bind with_else_ok assms(3) file_op_straight name_instr)

lemma emit_readnext_ok:
  assumes "isValidVariableName f" "isValidVariableName v" "armed_ok arm"
  shows "emission_ok base (emit_readnext base v f arm)"
  unfolding emit_readnext_def using assms(1,2)
  by (auto simp: name_ops_def intro!: with_else_ok assms(3) file_op_straight)

lemma emission_ok_plain: "bare_op c \<Longrightarrow> emission_ok base (plain c)"
  by (simp add: plain_def code_ok_straight bare_instr)

lemma next_straight: "nm = [] \<or> isValidVariableName nm \<Longrightarrow> straight (mkInstr ForNext (StrV (uppercase nm)))"
  using name_instr [of ForNext nm]
  by (auto simp: uppercase_def name_ops_def straight_def emitted_ok_def is_jump_def is_control_def mkInstr_def)

lemma armed_option: "(\<And>a b. x = Some a \<Longrightarrow> emission_ok b (g b a)) \<Longrightarrow> armed_ok (case x of None \<Rightarrow> None | Some a \<Rightarrow> Some (\<lambda>b. g b a))"
  by (simp add: armed_ok_def split: option.split)

lemmas emits_ok =
  emit_plain_ok emit_armed_ok emit_readnext_ok emission_ok_plain line_jump_ok emit_if_ok

lemma emitInline_ok:
  "stmt_ok st \<Longrightarrow> emission_ok base (emitInlineStatement base line st)"
  "arm_ok arm \<Longrightarrow> emission_ok base (emitBranchArm base line arm)"
proof (induction base line st and base line arm rule: emitInlineStatement_emitBranchArm.induct)
qed (auto simp: is_jump_def is_control_def code_ok_straight file_op_straight name_ops_def intro!: emits_ok armed_option)

lemma handler_off_ok: "code_ok base [mkInstr SetOnErrorHandler (IntV 0)] []"
  by (simp add: code_ok_def reaches_def emitted_ok_def instr_ok_def mkInstr_def is_jump_def is_control_def int_ops_def range_simps)

lemma emitStatement_ok: "stmt_ok st \<Longrightarrow> emission_ok base (emitStatement base line st)"
proof -
  assume st: "stmt_ok st"
  have arm: "else_ok x \<Longrightarrow> armed_ok (map_option (\<lambda>a b. emitBranchArm b line a) x)" for x
    by (auto simp: armed_ok_def intro!: emitInline_ok(2))
  show ?thesis using st
    by (cases st) (auto simp: emitStatement_def emit_on_error_def is_jump_def is_control_def code_ok_straight file_op_straight name_ops_def next_straight handler_off_ok
      intro!: emits_ok arm emitInline_ok(2))
qed

section \<open>Programs\<close>

definition emitter_ok :: "Emitter \<Rightarrow> bool" where
  "emitter_ok em \<longleftrightarrow>
     code_ok 0 (em_program em) (jumpFixups em) \<and> length (em_sourceLines em) = length (em_program em) \<and>
     (\<forall>p \<in> set (lineToInstructionIndex em). snd p \<le> length (em_program em))"

lemma code_ok_join:
  assumes "code_ok 0 p fx" "code_ok (length p) c fy"
  shows "code_ok 0 (p @ c) (fx @ fy)"
proof -
  have "list_all (reaches (length p + length c)) p" if "length p + length c < 2 ^ 31"
    using that assms(1) by (auto simp: code_ok_def intro: list_reaches_mono)
  moreover have "list_all (fixes_jump 0 ([] @ p @ c)) fx" "list_all (fixes_jump 0 (p @ c @ [])) fy"
    using assms fixes_jump_list [of 0 p fx 0 "[]" c] fixes_jump_list [of "length p" c fy 0 p "[]"] by (simp_all add: code_ok_def)
  moreover have "distinct (map instructionIndex (fx @ fy))"
    using assms by (intro fixes_disjoint [of 0 p fx "length p" c fy]) (auto simp: code_ok_def)
  ultimately show ?thesis using assms(2) by (simp add: code_ok_def)
qed

lemma emit_line_ok:
  assumes "emitter_ok em" "stmt_ok (snd l)"
  shows "emitter_ok (emit_line em l)"
proof (cases "emitStatement (length (em_program em)) (fst l) (snd l)")
  case (Inl e)
  then show ?thesis using assms(1)
    by (auto simp: emit_line_def emitter_ok_def Let_def split_beta dest: map_put_values)
next
  case (Inr p)
  obtain c fx where p: "p = (c, fx)" by fastforce
  have "code_ok (length (em_program em)) c fx" using emitStatement_ok [OF assms(2)] Inr p by (metis emission_ok_Inr)
  then have "code_ok 0 (em_program em @ c) (jumpFixups em @ fx)" using assms(1) by (auto simp: emitter_ok_def intro: code_ok_join)
  then show ?thesis using assms(1) Inr p
    by (fastforce simp: emit_line_def emitter_ok_def Let_def split_beta dest: map_put_values)
qed

lemma emitter_fold_ok: "emitter_ok em \<Longrightarrow> \<forall>l \<in> set ls. stmt_ok (snd l) \<Longrightarrow> emitter_ok (foldl emit_line em ls)"
  by (induction ls arbitrary: em) (simp_all add: emit_line_ok)

lemma fresh_emitter_ok: "emitter_ok fresh_emitter"
  by (simp add: emitter_ok_def fresh_emitter_def code_ok_def)

text \<open>Setting the operands of the jumps.\<close>

lemma jump_operand:
  assumes "reaches n ins" "is_jump (instr_op ins)" "k \<le> n" "n < 2 ^ 31"
  shows "reaches n (ins\<lparr>operand := ip_operand k\<rparr>)"
proof -
  have "callFunc ins = no_call" using assms(1,2)
    by (auto simp: reaches_def emitted_ok_def instr_ok_def Let_def mkInstr_def is_jump_def is_control_def split: if_splits)
  then show ?thesis using assms(2-4)
    by (simp add: reaches_def emitted_ok_def instr_ok_def is_jump_def is_control_def ip_operand_id int_ops_def range_simps) (elim disjE; simp)
qed

lemma apply_fixup_ok:
  assumes "list_all (reaches n) p" "fixes_jump 0 p f" "\<forall>q \<in> set index. snd q \<le> n" "n < 2 ^ 31"
  shows "list_all (reaches n) (apply_fixup index p f)"
proof (cases "map_of index (targetLine f)")
  case (Some k)
  then have "k \<le> n" using assms(3) by (fastforce dest: map_of_SomeD)
  then have "reaches n ((p ! instructionIndex f)\<lparr>operand := ip_operand k\<rparr>)"
    using assms by (intro jump_operand) (auto simp: fixes_jump_def list_all_length)
  then show ?thesis using assms(1) Some by (auto simp: apply_fixup_def list_all_iff dest!: set_update_subset_insert [THEN subsetD])
qed (simp add: assms(1) apply_fixup_def)

lemma apply_fixup_ops: "map instr_op (apply_fixup index p f) = map instr_op p"
proof -
  have "map instr_op (p[i := (p ! i)\<lparr>operand := v\<rparr>]) = map instr_op p" for i v
    by (cases "i < length p") (simp_all add: map_update list_update_beyond, metis list_update_id nth_map)
  then show ?thesis by (simp add: apply_fixup_def split: option.split)
qed

lemma fixups_ops: "map instr_op (foldl (apply_fixup index) p fx) = map instr_op p"
  by (induction fx arbitrary: p) (simp_all add: apply_fixup_ops)

lemma fixes_jump_ops: "map instr_op p = map instr_op q \<Longrightarrow> fixes_jump 0 p f = fixes_jump 0 q f"
  by (metis (no_types, lifting) diff_zero fixes_jump_def length_map nth_map add_0)

lemma fixups_ok:
  assumes "list_all (reaches n) p" "list_all (fixes_jump 0 p) fx" "\<forall>q \<in> set index. snd q \<le> n" "n < 2 ^ 31"
  shows "list_all (reaches n) (foldl (apply_fixup index) p fx)"
  using assms
proof (induction fx arbitrary: p)
  case (Cons f fx)
  then show ?case using apply_fixup_ok [of n p f index] fixes_jump_ops [OF apply_fixup_ops [of index p f]]
    by (simp add: list_all_iff)
qed simp

lemma reaches_program: "list_all (reaches n) p \<Longrightarrow> n < length p \<Longrightarrow> program_ok p"
  unfolding program_ok_def targets_ok_def handlers_ok_def list_all_iff
  by (force simp: reaches_def emitted_typed is_jump_def)

lemma emit_last_end:
  assumes "ls = bs @ [(n, EndStmt)]"
  shows "\<exists>em0. em0 = foldl emit_line fresh_emitter bs \<and> em_program (foldl emit_line fresh_emitter ls) = em_program em0 @ [makeNoOperandInstruction Halt] \<and>
    jumpFixups (foldl emit_line fresh_emitter ls) = jumpFixups em0 \<and>
    lineToInstructionIndex (foldl emit_line fresh_emitter ls) = map_put n (length (em_program em0)) (lineToInstructionIndex em0)"
  by (simp add: assms emit_line_def emitStatement_def plain_def)

lemma explicit_end: "explicitEnd (foldl emit_line em ls) \<Longrightarrow> explicitEnd em \<or> (\<exists>l \<in> set ls. snd l = EndStmt)"
proof (induction ls arbitrary: em)
  case (Cons l ls)
  have "explicitEnd (emit_line em l) \<Longrightarrow> explicitEnd em \<or> snd l = EndStmt"
    by (cases l, cases "emitStatement (length (em_program em)) (fst l) (snd l)") (auto simp: emit_line_def Let_def)
  then show ?case using Cons.IH [of "emit_line em l"] Cons.prems by auto
qed simp

text \<open>\<open>END\<close> stands on the last line only.\<close>

definition end_last :: "(int \<times> Stmt) list \<Rightarrow> bool" where
  "end_last ls \<longleftrightarrow> (\<forall>l \<in> set (butlast ls). snd l \<noteq> EndStmt)"

lemma end_last_line:
  assumes "end_last ls" "l \<in> set ls" "snd l = EndStmt"
  shows "ls = butlast ls @ [(fst l, EndStmt)]"
proof -
  have ne: "ls \<noteq> []" using assms(2) by auto
  then have "last ls = l" using assms unfolding end_last_def
    by (metis append_butlast_last_id rotate1.simps(2) set_ConsD set_rotate1)
  then show ?thesis using assms(3) ne by (metis append_butlast_last_id prod.collapse)
qed

lemma emit_ok:
  assumes e: "emit ls = Inr (prog, srcs)" and st: "\<forall>l \<in> set ls. stmt_ok (snd l)" and len: "length prog < 2 ^ 31" and el: "end_last ls"
  shows "program_ok prog \<and> list_all emitted_ok prog \<and> length srcs = length prog"
proof -
  define em where "em = foldl emit_line fresh_emitter ls"
  define p where "p = foldl (apply_fixup (lineToInstructionIndex em)) (em_program em) (jumpFixups em)"
  have ok: "emitter_ok em" unfolding em_def using fresh_emitter_ok st by (rule emitter_fold_ok)
  have ops: "map instr_op p = map instr_op (em_program em)" unfolding p_def by (rule fixups_ops)
  then have plen: "length p = length (em_program em)" by (metis length_map)
  have emitted: "list_all (reaches n) q \<Longrightarrow> list_all emitted_ok q" for n q by (simp add: list_all_iff reaches_def)
  show ?thesis
  proof (cases "\<not> explicitEnd em \<or> p = [] \<or> instr_op (last p) \<noteq> Halt")
    case True
    then have prog: "prog = p @ [makeNoOperandInstruction Halt]" "srcs = em_sourceLines em @ [0]"
      using e by (auto simp: emit_def Let_def simp flip: em_def p_def split: if_splits)
    have "list_all (reaches (length p)) p" unfolding p_def plen [unfolded p_def] using ok len prog plen
      by (intro fixups_ok) (simp_all add: emitter_ok_def code_ok_def)
    then have r: "list_all (reaches (length p)) prog" by (simp add: prog bare_instr)
    moreover have "length srcs = length prog" using ok prog plen by (simp add: emitter_ok_def)
    ultimately show ?thesis using reaches_program [of "length p" prog] emitted [OF r] by (simp add: prog(1))
  next
    case False
    then have prog: "prog = p" "srcs = em_sourceLines em"
      using e by (auto simp: emit_def Let_def simp flip: em_def p_def split: if_splits)
    obtain l where l: "l \<in> set ls" "snd l = EndStmt"
      using False explicit_end [of fresh_emitter ls] by (auto simp: em_def fresh_emitter_def)
    have ls: "ls = butlast ls @ [(fst l, EndStmt)]" using el l by (rule end_last_line)
    define em0 where "em0 = foldl emit_line fresh_emitter (butlast ls)"
    let ?n = "length (em_program em0)"
    note fin = emit_last_end [OF ls, folded em_def em0_def, simplified]
    have ok0: "emitter_ok em0" unfolding em0_def using fresh_emitter_ok
      by (rule emitter_fold_ok) (use st in \<open>auto dest: in_set_butlastD\<close>)
    have n: "?n < length p" "?n < 2 ^ 31" using plen len prog fin by auto
    have "list_all (reaches ?n) p" unfolding p_def
    proof (rule fixups_ok)
      show "list_all (reaches ?n) (em_program em)" using ok0 n fin by (simp add: emitter_ok_def code_ok_def bare_instr)
      show "list_all (fixes_jump 0 (em_program em)) (jumpFixups em)" using ok by (simp add: emitter_ok_def code_ok_def)
      show "\<forall>q \<in> set (lineToInstructionIndex em). snd q \<le> ?n"
        using ok0 fin by (fastforce simp: emitter_ok_def dest: map_put_values)
    qed (rule n(2))
    then show ?thesis using reaches_program [of ?n p] emitted n(1) ok prog plen by (simp add: emitter_ok_def)
  qed
qed

lemma compile_inv:
  assumes "compile ls = Inr r"
  shows "emit (parsed_lines (parse_lines ls)) = Inr (comp_program r, comp_sourceLines r)" "analyze (parsed_lines (parse_lines ls)) = []"
    "parse_errors (parse_lines ls) = []"
  using assms by (auto simp: compile_def Let_def bindE_eq_Inr_iff split: if_splits)

lemma compiled_ok:
  assumes "compile ls = Inr r" "length (comp_program r) < 2 ^ 31" "end_last (parsed_lines (parse_lines ls))"
  shows "program_ok (comp_program r)" "list_all emitted_ok (comp_program r)" "length (comp_sourceLines r) = length (comp_program r)"
proof -
  have "\<forall>l \<in> set (parsed_lines (parse_lines ls)). stmt_ok (snd l)" using parse_lines_ok by (metis prod.collapse)
  then show "program_ok (comp_program r)" "list_all emitted_ok (comp_program r)" "length (comp_sourceLines r) = length (comp_program r)"
    using emit_ok [OF compile_inv(1) [OF assms(1)] _ assms(2,3)] by simp_all
qed

text \<open>
  C21.  A program that compiles, with \<open>END\<close> on its last line if at all and fewer than \<open>2\<^sup>3\<^sup>1\<close> instructions, is well formed:
  every operand has the type its opcode asks for, every jump, call and error handler stays inside the program, and there is one
  source line for each instruction.  This is what the invariant of the virtual machine asks of a program.
\<close>

theorem compile_well_formed:
  assumes "compile ls = Inr r" "length (comp_program r) < 2 ^ 31" "end_last (parsed_lines (parse_lines ls))"
  shows "program_ok (comp_program r) \<and> length (comp_sourceLines r) = length (comp_program r)"
  using compiled_ok [OF assms] by simp

definition sample_lines :: "(int \<times> string) list" where
  "sample_lines = [(10, ''LET A = 1''), (20, ''IF A = 2 THEN 10 ELSE PRINT A''), (30, ''END'')]"

definition sample_code :: "Instruction list" where
  "sample_code =
     [mkInstr PushInt (IntV 1), mkInstr StoreVar (StrV ''A''), mkInstr LoadVar (StrV ''A''), mkInstr PushInt (IntV 2),
      mkInstr Eq (IntV 0), mkInstr JumpIfZero (IntV 7), mkInstr Jump (IntV 0), mkInstr LoadVar (StrV ''A''), mkInstr PrintVal (IntV 0),
      mkInstr PrintEol (IntV 0), mkInstr Halt (IntV 0)]"

lemma sample_compiles:
  "compile sample_lines = Inr \<lparr>comp_program = sample_code, comp_sourceLines = [10, 10, 20, 20, 20, 20, 20, 20, 20, 20, 30],
     instructionCount = 11, labelCount = 0\<rparr>"
  by code_simp

theorem compile_well_formed_witness:
  "program_ok sample_code \<and> length [10, 10, 20, 20, 20, 20, 20, 20, 20, 20, 30 :: int] = length sample_code"
proof -
  have "end_last (parsed_lines (parse_lines sample_lines))" by code_simp
  then show ?thesis using compile_well_formed [OF sample_compiles] by (simp add: sample_code_def)
qed

section \<open>Storing a compiled program\<close>

lemma emitted_lines: "set (em_sourceLines (foldl emit_line em ls)) \<subseteq> set (em_sourceLines em) \<union> fst ` set ls"
proof (induction ls arbitrary: em)
  case (Cons l ls)
  have "set (em_sourceLines (emit_line em l)) \<subseteq> set (em_sourceLines em) \<union> {fst l}"
    by (cases l, cases "emitStatement (length (em_program em)) (fst l) (snd l)") (auto simp: emit_line_def Let_def)
  then show ?case using Cons [of "emit_line em l"] by auto
qed simp

lemma compiled_lines: "compile ls = Inr r \<Longrightarrow> set (comp_sourceLines r) \<subseteq> insert 0 (fst ` set ls)"
proof -
  assume "compile ls = Inr r"
  then have "comp_sourceLines r \<in> {srcs, srcs @ [0]}" if "srcs = em_sourceLines (foldl emit_line fresh_emitter (parsed_lines (parse_lines ls)))" for srcs
    using compile_inv(1) [of ls r] that by (auto simp: emit_def Let_def split: if_splits)
  moreover have "set (em_sourceLines (foldl emit_line fresh_emitter (parsed_lines (parse_lines ls)))) \<subseteq> fst ` set ls"
    using parsed_lines_sub [of ls] emitted_lines [of fresh_emitter "parsed_lines (parse_lines ls)"]
    by (simp add: fresh_emitter_def)
  ultimately show ?thesis by fastforce
qed

definition storable :: "Instruction \<Rightarrow> bool" where
  "storable ins \<longleftrightarrow> instr_op ins \<noteq> PushFlt \<and> ins \<noteq> mkInstr ForNext (StrV [])"

lemma compiled_reloads:
  assumes "compile ls = Inr r" "length (comp_program r) < 2 ^ 31" "end_last (parsed_lines (parse_lines ls))"
    and "list_all storable (comp_program r)" "\<forall>l \<in> set ls. 0 \<le> fst l \<and> fst l \<le> int_max"
  shows "\<exists>text. serializeBytecodeText (comp_program r) (comp_sourceLines r) = Inr text \<and>
    parse text = Inr \<lparr>program = comp_program r, labels = [], sourceLinePerInstr = comp_sourceLines r\<rparr>"
proof -
  note ok = compiled_ok [OF assms(1-3)]
  have "list_all instr_ok (comp_program r)" using ok(2) assms(4) by (fastforce simp: list_all_iff emitted_ok_def storable_def mkInstr_def)
  moreover have "\<forall>i \<in> set (comp_sourceLines r). 0 \<le> i \<and> i \<le> int_max"
    using compiled_lines [OF assms(1)] assms(5) by (auto simp: int_max_def)
  moreover have "comp_sourceLines r = [] \<Longrightarrow> comp_program r = []" using ok(3) by simp
  ultimately show ?thesis
    using parse_serialized [of "comp_program r" "comp_sourceLines r"] ok by (auto simp: program_ok_def)
qed

text \<open>
  The object text of a compiled program can be loaded again: the parser of the loader returns the same instructions and the same
  source lines.  Two constructs are excepted: floating-point constants, printed with six digits, and \<open>NEXT\<close> without a
  variable.
\<close>

theorem compiled_program_reloads:
  assumes "compile ls = Inr r" "length (comp_program r) < 2 ^ 31" "end_last (parsed_lines (parse_lines ls))"
    and "list_all storable (comp_program r)" "\<forall>l \<in> set ls. 0 \<le> fst l \<and> fst l \<le> int_max"
  shows "\<exists>text. serializeBytecodeText (comp_program r) (comp_sourceLines r) = Inr text \<and>
    parse text = Inr \<lparr>program = comp_program r, labels = [], sourceLinePerInstr = comp_sourceLines r\<rparr>"
  by (rule compiled_reloads [OF assms])

theorem compiled_program_reloads_witness:
  "\<exists>text. serializeBytecodeText sample_code [10, 10, 20, 20, 20, 20, 20, 20, 20, 20, 30] = Inr text \<and>
    parse text = Inr \<lparr>program = sample_code, labels = [], sourceLinePerInstr = [10, 10, 20, 20, 20, 20, 20, 20, 20, 20, 30]\<rparr>"
proof -
  have "end_last (parsed_lines (parse_lines sample_lines))" by code_simp
  moreover have "list_all storable sample_code" "length sample_code < 2 ^ 31"
    by (simp_all add: sample_code_def storable_def mkInstr_def)
  moreover have "\<forall>l \<in> set sample_lines. 0 \<le> fst l \<and> fst l \<le> int_max" by (simp add: sample_lines_def int_max_def)
  ultimately show ?thesis using compiled_program_reloads [OF sample_compiles] by simp
qed

section \<open>Jumps between lines\<close>

text \<open>The semantic analyzer accepts only statements whose jumps go to lines of the program.\<close>

definition targets_in :: "int set \<Rightarrow> emission \<Rightarrow> bool" where
  "targets_in known m \<longleftrightarrow> (\<forall>c fx. m = Inr (c, fx) \<longrightarrow> list_all (\<lambda>f. targetLine f \<in> known) fx)"

lemma targets_in_simps [simp]: "targets_in known (Inl e)" "targets_in known (Inr (c, fx)) \<longleftrightarrow> list_all (\<lambda>f. targetLine f \<in> known) fx"
  by (simp_all add: targets_in_def)

lemma targets_in_bind: "(\<And>x. m = Inr x \<Longrightarrow> targets_in known (k x)) \<Longrightarrow> targets_in known (bindE m k)"
  by (cases m) simp_all

definition armed_in :: "int set \<Rightarrow> (nat \<Rightarrow> emission) option \<Rightarrow> bool" where
  "armed_in known arm \<longleftrightarrow> (\<forall>f b. arm = Some f \<longrightarrow> targets_in known (f b))"

lemma with_else_in: "armed_in known arm \<Longrightarrow> targets_in known (with_else base pre a b ok bad arm)"
proof (cases arm)
  case (Some f)
  assume "armed_in known arm"
  then show ?thesis unfolding with_else_def Some Let_def option.case
    by (intro targets_in_bind) (auto simp: armed_in_def Some targets_in_def)
qed (simp add: with_else_def)

lemma emit_if_in:
  assumes "\<And>b. targets_in known (th b)" "armed_in known el"
  shows "targets_in known (emit_if base c through th el)"
proof (cases el)
  case None
  then show ?thesis using assms(1) by (auto simp: emit_if_def Let_def targets_in_def bindE_eq_Inr_iff)
next
  case (Some ea)
  show ?thesis unfolding emit_if_def Let_def Some option.case
  proof (rule targets_in_bind, rule targets_in_bind, unfold case_prod_beta, rule targets_in_bind)
    fix cc :: "Instruction list" and x y :: "Instruction list \<times> JumpFixup list"
    assume "th (base + length cc + 1) = Inr x" and "ea (base + length cc + 1 + length (fst x) + (if through then 1 else 0)) = Inr y"
    then show "targets_in known (Inr (cc @ [mkInstr JumpIfZero (ip_operand (base + length cc + 1 + length (fst x) + (if through then 1 else 0)))] @
        fst x @ (if through then [mkInstr Jump (ip_operand (base + length cc + 1 + length (fst x) + (if through then 1 else 0) + length (fst y)))]
        else []) @ fst y, snd x @ snd y))"
      using assms Some unfolding armed_in_def by (metis list_all_append prod.collapse targets_in_simps(2))
  qed
qed

lemma line_jump_in: "validateLineTarget known owner t = [] \<Longrightarrow> targets_in known (line_jump c base line t)"
  by (simp add: line_jump_def validateLineTarget_def split: if_splits)

lemma armed_in_option: "(\<And>a b. x = Some a \<Longrightarrow> targets_in known (g b a)) \<Longrightarrow> armed_in known (case x of None \<Rightarrow> None | Some a \<Rightarrow> Some (\<lambda>b. g b a))"
  by (simp add: armed_in_def split: option.split)

lemma no_targets:
  "targets_in known (emit_let nm e)" "targets_in known (emit_input p nm)" "targets_in known (emit_chain e)" "targets_in known (emit_for nm ini lmt stp)"
  "targets_in known (emit_print e b)" "targets_in known (emit_dim nm e)" "targets_in known (emit_let_array nm i e)" "targets_in known (emit_release f e)"
  "targets_in known (emit_mat_assign nm p src)" "targets_in known (plain c)"
  unfolding emit_let_def emit_input_def emit_chain_def emit_for_def emit_print_def emit_dim_def emit_let_array_def emit_release_def
    emit_mat_assign_def plain_def
  by (auto simp: targets_in_def bindE_eq_Inr_iff split: if_splits option.splits)

lemma armed_targets:
  assumes "armed_in known arm"
  shows "targets_in known (emit_open base e f arm)" "targets_in known (emit_read base v f e arm)" "targets_in known (emit_readu base v f e arm)"
    "targets_in known (emit_write base w f e arm)" "targets_in known (emit_writeu base w f e arm)" "targets_in known (emit_readv base v f e t i arm)"
    "targets_in known (emit_writev r base w f e t i arm)" "targets_in known (emit_mat_read base v f e arm)"
    "targets_in known (emit_mat_write base v f e arm)" "targets_in known (emit_readnext base v f arm)"
  unfolding emit_open_def emit_read_def emit_readu_def emit_write_def emit_writeu_def emit_readv_def emit_writev_def emit_mat_read_def
    emit_mat_write_def emit_readnext_def
  by (intro targets_in_bind with_else_in assms)+

lemmas emits_in = no_targets armed_targets line_jump_in emit_if_in

lemma else_validated: "validateElseArm owner known x = [] \<Longrightarrow> x = Some a \<Longrightarrow> validateBranchArm owner known a = []"
  by simp

lemma inline_targets:
  "validateStatement owner known st = [] \<Longrightarrow> targets_in known (emitInlineStatement base line st)"
  "validateBranchArm owner known arm = [] \<Longrightarrow> targets_in known (emitBranchArm base line arm)"
proof (induction base line st and base line arm rule: emitInlineStatement_emitBranchArm.induct)
qed (auto intro!: emits_in armed_in_option)

lemma statement_targets: "validateStatement owner known st = [] \<Longrightarrow> targets_in known (emitStatement base line st)"
proof -
  assume st: "validateStatement owner known st = []"
  have arm: "validateElseArm owner known x = [] \<Longrightarrow> armed_in known (map_option (\<lambda>a b. emitBranchArm b line a) x)" for x
    by (auto simp: armed_in_def intro!: inline_targets(2))
  show ?thesis using st
    by (cases st) (auto simp: emitStatement_def emit_on_error_def intro!: emits_in arm inline_targets(2))
qed

text \<open>The emitter knows the address of every line, and every fixup names one of its lines.\<close>

lemma emit_line_index: "fst ` set (lineToInstructionIndex (emit_line em l)) = insert (fst l) (fst ` set (lineToInstructionIndex em))"
  by (cases l, cases "emitStatement (length (em_program em)) (fst l) (snd l)") (simp_all add: emit_line_def map_put_keys split: prod.split)

lemma emit_lines_index: "fst ` set (lineToInstructionIndex (foldl emit_line em ls)) = fst ` set ls \<union> fst ` set (lineToInstructionIndex em)"
  by (induction ls arbitrary: em) (auto simp: emit_line_index)

lemma emit_lines_targets:
  "list_all (\<lambda>f. targetLine f \<in> known) (jumpFixups em) \<Longrightarrow> \<forall>l \<in> set ls. validateStatement (fst l) known (snd l) = [] \<Longrightarrow>
   list_all (\<lambda>f. targetLine f \<in> known) (jumpFixups (foldl emit_line em ls))"
proof (induction ls arbitrary: em)
  case (Cons l ls)
  have t: "targets_in known (emitStatement (length (em_program em)) (fst l) (snd l))" using Cons.prems(2) by (intro statement_targets [of "fst l"]) simp
  have "list_all (\<lambda>f. targetLine f \<in> known) (jumpFixups (emit_line em l))"
    using Cons.prems(1) t by (cases l, cases "emitStatement (length (em_program em)) (fst l) (snd l)") (auto simp: emit_line_def Let_def)
  then show ?case using Cons.IH [of "emit_line em l"] Cons.prems(2) by simp
qed simp

lemma fixup_other: "instructionIndex f \<noteq> i \<Longrightarrow> apply_fixup index p f ! i = p ! i"
  by (simp add: apply_fixup_def split: option.split)

lemma fixup_here: "map_of index (targetLine f) = Some k \<Longrightarrow> instructionIndex f < length p \<Longrightarrow>
  apply_fixup index p f ! instructionIndex f = (p ! instructionIndex f)\<lparr>operand := ip_operand k\<rparr>"
  by (simp add: apply_fixup_def)

lemma fixups_others: "\<forall>f \<in> set fx. instructionIndex f \<noteq> i \<Longrightarrow> foldl (apply_fixup index) p fx ! i = p ! i"
  by (induction fx arbitrary: p) (simp_all add: fixup_other)

lemma fixups_length [simp]: "length (foldl (apply_fixup index) p fx) = length p"
  by (metis fixups_ops length_map)

lemma fixups_resolve:
  assumes "distinct (map instructionIndex fx)" "f \<in> set fx" "map_of index (targetLine f) = Some k" "instructionIndex f < length p"
  shows "foldl (apply_fixup index) p fx ! instructionIndex f = (p ! instructionIndex f)\<lparr>operand := ip_operand k\<rparr>"
  using assms
proof (induction fx arbitrary: p)
  case (Cons g fx)
  have len: "length (apply_fixup index p g) = length p" using fixups_length [of index p "[g]"] by simp
  show ?case
  proof (cases "g = f")
    case True
    then have "\<forall>h \<in> set fx. instructionIndex h \<noteq> instructionIndex f" using Cons.prems(1) by (auto simp: image_iff)
    then show ?thesis using True Cons.prems(3,4) by (simp add: fixups_others fixup_here)
  next
    case False
    then have "instructionIndex g \<noteq> instructionIndex f" "f \<in> set fx" using Cons.prems(1,2) by auto
    then show ?thesis using Cons len by (simp add: fixup_other)
  qed
qed simp

text \<open>Later lines leave the code, the fixups and the addresses of earlier ones alone.\<close>

definition extends :: "Emitter \<Rightarrow> Emitter \<Rightarrow> bool" where
  "extends em em' \<longleftrightarrow>
     (\<exists>c. em_program em' = em_program em @ c) \<and> (\<exists>s. em_sourceLines em' = em_sourceLines em @ s) \<and> (\<exists>e. em_errors em' = em_errors em @ e) \<and>
     (\<exists>fx. jumpFixups em' = jumpFixups em @ fx \<and> (\<forall>f \<in> set fx. length (em_program em) \<le> instructionIndex f))"

lemma emitter_extends_refl: "extends em em"
  by (simp add: extends_def)

lemma extends_trans: "extends a b \<Longrightarrow> extends b c \<Longrightarrow> extends a c"
  unfolding extends_def by (elim conjE exE) auto

lemma emit_line_extends:
  assumes "stmt_ok (snd l)"
  shows "extends em (emit_line em l)"
proof (cases "emitStatement (length (em_program em)) (fst l) (snd l)")
  case (Inl e)
  then show ?thesis by (simp add: extends_def emit_line_def split_beta)
next
  case (Inr p)
  have "code_ok (length (em_program em)) (fst p) (snd p)" using emitStatement_ok [OF assms] Inr by (metis emission_ok_Inr prod.collapse)
  then have "\<forall>f \<in> set (snd p). length (em_program em) \<le> instructionIndex f" by (auto simp: code_ok_def list_all_iff fixes_jump_def)
  then show ?thesis using Inr by (simp add: extends_def emit_line_def split_beta)
qed

lemma emit_lines_extend: "\<forall>l \<in> set ls. stmt_ok (snd l) \<Longrightarrow> extends em (foldl emit_line em ls)"
proof (induction ls arbitrary: em)
  case (Cons l ls)
  then show ?case using extends_trans [OF emit_line_extends [of l em]] by simp
qed (simp add: emitter_extends_refl)

lemma later_lines_index:
  "n \<notin> fst ` set ls \<Longrightarrow> map_of (lineToInstructionIndex (foldl emit_line em ls)) n = map_of (lineToInstructionIndex em) n"
proof (induction ls arbitrary: em)
  case (Cons l ls)
  have "map_of (lineToInstructionIndex (emit_line em l)) n = map_of (lineToInstructionIndex em) n"
    using Cons.prems by (cases "emitStatement (length (em_program em)) (fst l) (snd l)") (auto simp: emit_line_def split_beta)
  then show ?case using Cons by simp
qed simp

lemma emit_line_code:
  assumes "em_errors (emit_line em (n, st)) = []"
  shows "\<exists>c fx. emitStatement (length (em_program em)) n st = Inr (c, fx) \<and> em_program (emit_line em (n, st)) = em_program em @ c \<and>
    em_sourceLines (emit_line em (n, st)) = em_sourceLines em @ replicate (length c) n \<and> jumpFixups (emit_line em (n, st)) = jumpFixups em @ fx \<and>
    map_of (lineToInstructionIndex (emit_line em (n, st))) n = Some (length (em_program em))"
  using assms by (cases "emitStatement (length (em_program em)) n st") (auto simp: emit_line_def)

lemma emit_inv:
  assumes "emit ls = Inr (prog, srcs)"
  shows "\<exists>t u. prog = foldl (apply_fixup (lineToInstructionIndex (foldl emit_line fresh_emitter ls))) (em_program (foldl emit_line fresh_emitter ls))
      (jumpFixups (foldl emit_line fresh_emitter ls)) @ t \<and> srcs = em_sourceLines (foldl emit_line fresh_emitter ls) @ u"
    "em_errors (foldl emit_line fresh_emitter ls) = []"
  using assms by (auto simp: emit_def Let_def split: if_splits)

lemma fixup_linked:
  assumes "\<forall>l \<in> set ls. stmt_ok (snd l)" "analyze ls = []"
  defines "em \<equiv> foldl emit_line fresh_emitter ls"
  assumes f: "f \<in> set (jumpFixups em)" and len: "length (em_program em) < 2 ^ 31"
  shows "\<exists>a. map_of (lineToInstructionIndex em) (targetLine f) = Some a \<and>
    foldl (apply_fixup (lineToInstructionIndex em)) (em_program em) (jumpFixups em) ! instructionIndex f =
      (em_program em ! instructionIndex f)\<lparr>operand := IntV (int a)\<rparr>"
proof -
  have ok: "emitter_ok em" unfolding em_def using assms(1) by (rule emitter_fold_ok [OF fresh_emitter_ok])
  have "list_all (\<lambda>f. targetLine f \<in> fst ` set ls) (jumpFixups em)" unfolding em_def
    by (rule emit_lines_targets) (use assms(2) in \<open>auto simp: fresh_emitter_def analyze_def\<close>)
  then have "targetLine f \<in> fst ` set ls" using f by (simp add: list_all_iff)
  then obtain a where a: "map_of (lineToInstructionIndex em) (targetLine f) = Some a"
    using emit_lines_index [of fresh_emitter ls] by (metis (no_types, lifting) Un_iff em_def map_of_eq_None_iff not_None_eq)
  have "a \<le> length (em_program em)" using ok map_of_SomeD [OF a] by (force simp: emitter_ok_def)
  moreover have "distinct (map instructionIndex (jumpFixups em))" "instructionIndex f < length (em_program em)"
    using ok f by (auto simp: emitter_ok_def code_ok_def list_all_iff fixes_jump_def)
  ultimately show ?thesis
    using fixups_resolve [of "jumpFixups em" f "lineToInstructionIndex em" a "em_program em"] a f len by (simp add: ip_operand_id)
qed

text \<open>The address of a line.\<close>

definition line_address :: "(int \<times> Stmt) list \<Rightarrow> int \<Rightarrow> nat option" where
  "line_address ls = map_of (lineToInstructionIndex (foldl emit_line fresh_emitter ls))"

lemma line_layout:
  assumes "compile ls = Inr r" "length (comp_program r) < 2 ^ 31"
    and split: "parsed_lines (parse_lines ls) = before @ (n, st) # behind" and uniq: "n \<notin> fst ` set behind"
  shows "\<exists>k c fx. line_address (parsed_lines (parse_lines ls)) n = Some k \<and> emitStatement k n st = Inr (c, fx) \<and>
    (\<forall>i < length c. comp_sourceLines r ! (k + i) = n) \<and>
    (\<forall>i < length c. k + i \<notin> instructionIndex ` set fx \<longrightarrow> comp_program r ! (k + i) = c ! i) \<and>
    (\<forall>f \<in> set fx. \<exists>a. line_address (parsed_lines (parse_lines ls)) (targetLine f) = Some a \<and>
       comp_program r ! instructionIndex f = (c ! (instructionIndex f - k))\<lparr>operand := IntV (int a)\<rparr>)"
proof -
  define parsed where "parsed = parsed_lines (parse_lines ls)"
  define em0 where "em0 = foldl emit_line fresh_emitter before"
  define em1 where "em1 = emit_line em0 (n, st)"
  define em where "em = foldl emit_line fresh_emitter parsed"
  define k where "k = length (em_program em0)"
  note e = compile_inv [OF assms(1), folded parsed_def]
  have st: "\<forall>l \<in> set parsed. stmt_ok (snd l)" unfolding parsed_def using parse_lines_ok by (metis prod.collapse)
  have ok: "emitter_ok em0" unfolding em0_def using st by (intro emitter_fold_ok fresh_emitter_ok) (simp add: parsed_def split)
  have em_eq: "em = foldl emit_line em1 behind" by (simp add: em_def em0_def em1_def parsed_def split)
  have "extends em1 em" unfolding em_eq using st by (intro emit_lines_extend) (simp add: parsed_def split)
  then obtain c' fx' s' where later: "em_program em = em_program em1 @ c'" "jumpFixups em = jumpFixups em1 @ fx'"
      "em_sourceLines em = em_sourceLines em1 @ s'" "\<forall>f \<in> set fx'. length (em_program em1) \<le> instructionIndex f"
      "em_errors em1 = []"
    using emit_inv(2) [OF e(1), folded em_def] by (auto simp: extends_def)
  obtain c fx where c: "emitStatement k n st = Inr (c, fx)" "em_program em1 = em_program em0 @ c" "jumpFixups em1 = jumpFixups em0 @ fx"
      "em_sourceLines em1 = em_sourceLines em0 @ replicate (length c) n" "map_of (lineToInstructionIndex em1) n = Some k"
    using emit_line_code [of em0 n st] later(5) unfolding em1_def k_def by blast
  obtain t u where prog: "comp_program r = foldl (apply_fixup (lineToInstructionIndex em)) (em_program em) (jumpFixups em) @ t"
      "comp_sourceLines r = em_sourceLines em @ u"
    using emit_inv(1) [OF e(1), folded em_def] by blast
  have addr: "line_address parsed = map_of (lineToInstructionIndex em)" by (simp add: line_address_def em_def)
  have fx: "list_all (fixes_jump k c) fx" using emitStatement_ok [of st k n] st c(1) by (simp add: parsed_def split code_ok_def)
  have at: "em_program em ! (k + i) = c ! i" "k + i < length (em_program em)" if "i < length c" for i
    using that by (simp_all add: later c k_def nth_append)
  have "comp_sourceLines r ! (k + i) = n" if "i < length c" for i
    using that ok prog(2) later c by (simp add: k_def emitter_ok_def nth_append)
  moreover have "comp_program r ! (k + i) = c ! i" if i: "i < length c" "k + i \<notin> instructionIndex ` set fx" for i
  proof -
    have lo: "instructionIndex f < k" if "f \<in> set (jumpFixups em0)" for f
      using ok that by (auto simp: emitter_ok_def code_ok_def list_all_iff fixes_jump_def k_def)
    have hi: "k + i < instructionIndex f" if "f \<in> set fx'" for f
    proof -
      have "k + length c \<le> instructionIndex f" using later(4) that c(2) by (simp add: k_def)
      then show ?thesis using i(1) by simp
    qed
    have "set (jumpFixups em) = set (jumpFixups em0) \<union> set fx \<union> set fx'" by (simp add: later(2) c(3) Un_assoc)
    then have "\<forall>f \<in> set (jumpFixups em). instructionIndex f \<noteq> k + i" using lo hi i(2) by (metis Un_iff imageI not_add_less1 order_less_irrefl)
    then show ?thesis using fixups_others [of "jumpFixups em" "k + i"] at [OF i(1)] by (simp add: prog nth_append)
  qed
  moreover have "\<exists>a. line_address parsed (targetLine f) = Some a \<and>
      comp_program r ! instructionIndex f = (c ! (instructionIndex f - k))\<lparr>operand := IntV (int a)\<rparr>" if f: "f \<in> set fx" for f
  proof -
    have i: "k \<le> instructionIndex f" "instructionIndex f < k + length c" using fx f by (auto simp: list_all_iff fixes_jump_def)
    then have "em_program em ! instructionIndex f = c ! (instructionIndex f - k)" "instructionIndex f < length (em_program em)"
      using at [of "instructionIndex f - k"] by auto
    moreover have "f \<in> set (jumpFixups em)" using f later c by simp
    ultimately show ?thesis using fixup_linked [OF st e(2), of f] assms(2) prog(1) by (auto simp: nth_append addr simp flip: em_def)
  qed
  moreover have "line_address parsed n = Some k" using later_lines_index [OF uniq, of em1] c(5) by (simp add: addr em_eq)
  ultimately show ?thesis using c(1) unfolding parsed_def by blast
qed

text \<open>
  C22.  The layout of a compiled program: the code of the statement of every line stands at the address of the line, unchanged but for
  the jumps to other lines, which carry the address of the line they name, a line of the program; every instruction is
  attributed to its line.  So no reference to a line is left open.
\<close>

theorem compiled_line_layout:
  assumes "compile ls = Inr r" "length (comp_program r) < 2 ^ 31"
    and "parsed_lines (parse_lines ls) = before @ (n, st) # behind" and "n \<notin> fst ` set behind"
  shows "\<exists>k c fx. line_address (parsed_lines (parse_lines ls)) n = Some k \<and> emitStatement k n st = Inr (c, fx) \<and>
    (\<forall>i < length c. comp_sourceLines r ! (k + i) = n) \<and>
    (\<forall>i < length c. k + i \<notin> instructionIndex ` set fx \<longrightarrow> comp_program r ! (k + i) = c ! i) \<and>
    (\<forall>f \<in> set fx. \<exists>a. line_address (parsed_lines (parse_lines ls)) (targetLine f) = Some a \<and>
       comp_program r ! instructionIndex f = (c ! (instructionIndex f - k))\<lparr>operand := IntV (int a)\<rparr>)"
  by (rule line_layout [OF assms])

lemma sample_parsed:
  "parsed_lines (parse_lines sample_lines) =
     [(10, LetStmt ''A'' (IntLiteralExpr 1))] @
     (20, IfStmt (BinaryExpr EqualOp (IdentifierExpr ''A'') (IntLiteralExpr 2)) (BranchArm (Some 10) None)
            (Some (BranchArm None (Some (PrintStmt (IdentifierExpr ''A'') False))))) # [(30, EndStmt)]"
  by code_simp

theorem compiled_line_layout_witness:
  "\<exists>k c fx. line_address (parsed_lines (parse_lines sample_lines)) 20 = Some k \<and>
    emitStatement k 20 (IfStmt (BinaryExpr EqualOp (IdentifierExpr ''A'') (IntLiteralExpr 2)) (BranchArm (Some 10) None)
            (Some (BranchArm None (Some (PrintStmt (IdentifierExpr ''A'') False))))) = Inr (c, fx) \<and>
    (\<forall>f \<in> set fx. \<exists>a. line_address (parsed_lines (parse_lines sample_lines)) (targetLine f) = Some a \<and>
       sample_code ! instructionIndex f = (c ! (instructionIndex f - k))\<lparr>operand := IntV (int a)\<rparr>)"
proof -
  have "length sample_code < 2 ^ 31" by (simp add: sample_code_def)
  then show ?thesis using compiled_line_layout [OF sample_compiles _ sample_parsed] by fastforce
qed

text \<open>
  An \<open>END\<close> in the middle switches the closing \<open>Halt\<close> off when the last instruction happens to be one: a jump then leads behind the
  program, and the loader rejects what the compiler accepted.
\<close>

lemma early_end_escapes:
  "\<exists>r. compile [(10, ''END''), (20, ''IF X = 1 THEN STOP'')] = Inr r \<and> comp_program r ! 4 = mkInstr JumpIfZero (IntV 6) \<and>
     length (comp_program r) = 6 \<and> \<not> targets_ok (comp_program r)"
proof -
  have "case compile [(10, ''END''), (20, ''IF X = 1 THEN STOP'')] of Inl _ \<Rightarrow> False
    | Inr r \<Rightarrow> comp_program r ! 4 = mkInstr JumpIfZero (IntV 6) \<and> length (comp_program r) = 6 \<and> validateJumpTargets (comp_program r) \<noteq> Inr ()"
    by code_simp
  then show ?thesis by (auto simp: validate_iff split: sum.splits)
qed

text \<open>A handler on the first line of the program has the address \<open>0\<close>, which switches the handler off.\<close>

lemma first_line_handler_off:
  "case compile [(10, ''PRINT 1''), (20, ''ON ERROR GOTO 10'')] of Inl _ \<Rightarrow> False
   | Inr r \<Rightarrow> comp_program r ! 3 = mkInstr SetOnErrorHandler (IntV 0)"
  by code_simp

text \<open>\<open>ELSE\<close> belongs to the outer \<open>IF\<close> of a line, not to the nearest one.\<close>

lemma else_of_outer_if:
  "statement_of ''IF A = 1 THEN IF B THEN 10 ELSE 20'' =
     Inr (IfStmt (BinaryExpr EqualOp (IdentifierExpr ''A'') (IntLiteralExpr 1))
       (BranchArm None (Some (IfStmt (IdentifierExpr ''B'') (BranchArm (Some 10) None) None)))
       (Some (BranchArm (Some 20) None)))"
  by code_simp

text \<open>The object text of a loop closed by \<open>NEXT\<close> without a variable cannot be loaded.\<close>

lemma bare_next_not_loaded:
  "case compile [(10, ''FOR I = 1 TO 2''), (20, ''NEXT'')] of Inl _ \<Rightarrow> False
   | Inr r \<Rightarrow> (case serializeBytecodeText (comp_program r) (comp_sourceLines r) of Inl _ \<Rightarrow> False
                | Inr t \<Rightarrow> (case parse t of Inl _ \<Rightarrow> True | Inr _ \<Rightarrow> False))"
  by code_simp

end
