(* ===== verification/Basic_Execution.thy ===== *)
theory Basic_Execution
  imports Basic_Code Machine_Execution
begin

text \<open>
  Compiled expressions compute the value of the expression: a reference evaluation of the trees, and the proof that the
  machine, run on the code of the emitter, pushes that value or raises that error.
\<close>

section \<open>Values of expressions\<close>

definition variable_value :: "Env \<Rightarrow> Runtime \<Rightarrow> string \<Rightarrow> Value result" where
  "variable_value env s nm =
     (case (if isReadOnlySystemVariableName nm then Option.bind (systemVarReader env) (\<lambda>reader. reader nm) else None) of
        Some v \<Rightarrow> Inr v
      | None \<Rightarrow> (case variables s nm of None \<Rightarrow> Inl (RuntimeError (''Undefined variable: '' @ nm)) | Some v \<Rightarrow> Inr v))"

definition element_value :: "Runtime \<Rightarrow> string \<Rightarrow> Value \<Rightarrow> Value result" where
  "element_value s nm idx = bindE (coerceToInt idx) (\<lambda>i. case arrays s nm of
     None \<Rightarrow> Inl (RuntimeError (not_dimensioned nm))
   | Some vs \<Rightarrow> if i < 1 \<or> length vs < nat i then Inl (RuntimeError (''Array index out of bounds: '' @ nm)) else Inr (vs ! (nat i - 1)))"

definition attribute_value :: "Value \<Rightarrow> Value \<Rightarrow> Value \<Rightarrow> Value result" where
  "attribute_value rec attr idx = bindE (coerceToInt idx) (\<lambda>i. bindE (coerceToInt attr) (\<lambda>a.
     let att = attribute (fromRaw (valueToString rec)) a in Inr (StrV (if 0 < i then valueAt att i else raw att))))"

fun binary_value :: "BinaryOp \<Rightarrow> Value \<Rightarrow> Value \<Rightarrow> Value result" where
  "binary_value AddOp = vm_add"
| "binary_value SubtractOp = vm_sub"
| "binary_value MultiplyOp = vm_mul"
| "binary_value DivideOp = vm_div"
| "binary_value EqualOp = vm_compare ''EQ'' (\<lambda>c. c = 0)"
| "binary_value NotEqualOp = vm_compare ''NE'' (\<lambda>c. c \<noteq> 0)"
| "binary_value LessThanOp = vm_compare ''LT'' (\<lambda>c. c < 0)"
| "binary_value LessOrEqualOp = vm_compare ''LE'' (\<lambda>c. c \<le> 0)"
| "binary_value GreaterThanOp = vm_compare ''GT'' (\<lambda>c. 0 < c)"
| "binary_value GreaterOrEqualOp = vm_compare ''GE'' (\<lambda>c. 0 \<le> c)"

text \<open>A builtin function on its arguments alone; the random generator is the only state it changes.\<close>

definition builtin_value :: "Env \<Rightarrow> Runtime \<Rightarrow> string \<Rightarrow> Value list \<Rightarrow> (Engine, Value) action" where
  "builtin_value env s name vs g =
     (let args = (if name = ''INDEX'' \<and> length vs = 2 then vs @ [IntV 1] else vs)
      in case functionIdForCall name (int (length args)) of
           None \<Rightarrow> (Inl UndefinedBehaviour, g)
         | Some k \<Rightarrow> (case fn (basic_functions ! k) of
             None \<Rightarrow> (Inl UndefinedBehaviour, g)
           | Some h \<Rightarrow> (case h (platform env) (host_context env s) \<lparr>hstack = rev args, hengine = g\<rparr> of
               (Inl e, t) \<Rightarrow> (Inl e, hengine t)
             | (Inr _, t) \<Rightarrow> (Inr (hd (hstack t)), hengine t))))"

function (sequential) eval_expr :: "Env \<Rightarrow> Runtime \<Rightarrow> Expr \<Rightarrow> (Engine, Value) action"
  and eval_args :: "Env \<Rightarrow> Runtime \<Rightarrow> Expr list \<Rightarrow> (Engine, Value list) action" where
  "eval_expr env s (IntLiteralExpr i) = retS (IntV i)"
| "eval_expr env s (FloatLiteralExpr d) = retS (DblV d)"
| "eval_expr env s (StringLiteralExpr x) = retS (StrV x)"
| "eval_expr env s (DictFieldExpr tok) = retS (StrV tok)"
| "eval_expr env s (IdentifierExpr nm) = liftS (variable_value env s (uppercase nm))"
| "eval_expr env s (UnaryExpr op e) = bindS (eval_expr env s e) (\<lambda>v. liftS (vm_sub (IntV 0) v))"
| "eval_expr env s (BinaryExpr op l r) =
     bindS (eval_expr env s l) (\<lambda>a. bindS (eval_expr env s r) (\<lambda>b. liftS (binary_value op a b)))"
| "eval_expr env s (GroupedExpr e) = eval_expr env s e"
| "eval_expr env s (SubscriptExpr nm idx) = bindS (eval_expr env s idx) (\<lambda>v. liftS (element_value s (uppercase nm) v))"
| "eval_expr env s (AttributeAccessExpr nm attr valueIndex) =
     bindS (liftS (variable_value env s (uppercase nm))) (\<lambda>r. bindS (eval_expr env s attr) (\<lambda>a.
     bindS (case valueIndex of Some e \<Rightarrow> eval_expr env s e | None \<Rightarrow> retS (IntV 0)) (\<lambda>i. liftS (attribute_value r a i))))"
| "eval_expr env s (FunctionCallExpr name args) = bindS (eval_args env s args) (builtin_value env s name)"
| "eval_args env s [] = retS []"
| "eval_args env s (e # es) = bindS (eval_expr env s e) (\<lambda>v. bindS (eval_args env s es) (\<lambda>vs. retS (v # vs)))"
  by pat_completeness auto

termination
  by (relation "measure (case_sum (\<lambda>(_, _, e). size e) (\<lambda>(_, _, es). size_list size es))") auto

section \<open>Builtin functions and the stack below their arguments\<close>

definition answers_on :: "nat \<Rightarrow> LanguageFunctionFn \<Rightarrow> bool" where
  "answers_on n h \<longleftrightarrow> (\<forall>pf hc args rest g. length args = n \<longrightarrow>
     (case h pf hc \<lparr>hstack = args, hengine = g\<rparr> of
        (Inl e, t) \<Rightarrow> (\<exists>u. h pf hc \<lparr>hstack = args @ rest, hengine = g\<rparr> = (Inl e, u) \<and> hengine u = hengine t)
      | (Inr _, t) \<Rightarrow> (\<exists>v. hstack t = [v] \<and>
          h pf hc \<lparr>hstack = args @ rest, hengine = g\<rparr> = (Inr (), \<lparr>hstack = v # rest, hengine = hengine t\<rparr>))))"

lemma constant_answers: "answers_on 0 (\<lambda>pf hc. constantH (f pf hc))"
  by (auto simp: answers_on_def constantH_def bindS_def liftS_def pushH_def split: sum.split)

lemma unary_answers: "answers_on (Suc 0) (\<lambda>pf hc. unaryH (f pf hc))"
  by (auto simp: answers_on_def unaryH_def constantH_def bindS_def liftS_def pushH_def popH_def length_Suc_conv split: sum.split)

lemma binary_answers: "answers_on 2 (\<lambda>pf hc. binaryH (f pf hc))"
  by (auto simp: answers_on_def binaryH_def constantH_def bindS_def liftS_def pushH_def popH_def length_Suc_conv numeral_2_eq_2 split: sum.split)

lemma ternary_answers: "answers_on 3 (\<lambda>pf hc. ternaryH (f pf hc))"
  by (auto simp: answers_on_def ternaryH_def constantH_def bindS_def liftS_def pushH_def popH_def length_Suc_conv numeral_3_eq_3 split: sum.split)

lemma rnd_answers: "answers_on 0 handlerRnd0" "answers_on (Suc 0) handlerRnd1"
  by (auto simp: answers_on_def handlerRnd0_def handlerRnd1_def pushRndSample_def bindS_def liftS_def pushH_def popH_def getS_def updS_def
      length_Suc_conv split: sum.split prod.split)

lemma basic_table_answers: "e \<in> set basic_functions \<Longrightarrow> fn e = Some h \<Longrightarrow> answers_on (nat (arity e)) h"
  unfolding basic_functions_def
  by (auto simp: handlerAbs_def [abs_def] handlerSgn_def [abs_def] handlerSeq_def [abs_def] handlerLen_def [abs_def] handlerTrim_def [abs_def]
      handlerLcase_def [abs_def] handlerUcase_def [abs_def] handlerSpace_def [abs_def] handlerInt_def [abs_def] handlerMod_def [abs_def]
      handlerSin_def [abs_def] handlerCos_def [abs_def] handlerTan_def [abs_def] handlerExp_def [abs_def] handlerLog_def [abs_def]
      handlerDate_def [abs_def] handlerTime_def [abs_def] handlerSystem_def [abs_def] handlerIndex_def [abs_def] handlerField_def [abs_def]
      handlerStr_def [abs_def] handlerOconv_def [abs_def] handlerIconv_def [abs_def] handlerNum_def [abs_def] handlerConvert_def [abs_def]
      handlerStatus_def [abs_def] intro: constant_answers unary_answers binary_answers ternary_answers rnd_answers)

section \<open>Code that pushes values\<close>

text \<open>The state \<open>s\<close> with another stack, address and random generator; code at an address, with an instruction behind it.\<close>

definition state_at :: "Runtime \<Rightarrow> Value list \<Rightarrow> nat \<Rightarrow> Engine \<Rightarrow> Runtime" where
  "state_at s st i g = s\<lparr>stack := st, ip := i, engine := g\<rparr>"

definition code_at :: "Runtime \<Rightarrow> nat \<Rightarrow> Instruction list \<Rightarrow> bool" where
  "code_at s b c \<longleftrightarrow> b + length c < length (code s) \<and> (\<forall>i < length c. code s ! (b + i) = c ! i)"

lemma code_at_append: "code_at s b (c @ d) \<longleftrightarrow> code_at s b c \<and> code_at s (b + length c) d"
proof -
  have "(\<forall>i < length c + length d. code s ! (b + i) = (c @ d) ! i) \<longleftrightarrow>
    (\<forall>i < length c. code s ! (b + i) = c ! i) \<and> (\<forall>i < length d. code s ! (b + length c + i) = d ! i)" (is "?a \<longleftrightarrow> ?b")
  proof
    assume a: ?a
    have "code s ! (b + length c + i) = d ! i" if "i < length d" for i using a [rule_format, of "length c + i"] that by (simp add: add.assoc)
    moreover have "code s ! (b + i) = c ! i" if "i < length c" for i using a [rule_format, of i] that by (simp add: nth_append)
    ultimately show ?b by simp
  next
    assume b: ?b
    show ?a
    proof (intro allI impI)
      fix i assume i: "i < length c + length d"
      show "code s ! (b + i) = (c @ d) ! i"
        using b i by (cases "i < length c") (auto simp: nth_append dest: spec [of _ "i - length c"])
    qed
  qed
  then show ?thesis by (auto simp: code_at_def)
qed

lemma code_at_single: "code_at s b [ins] \<longleftrightarrow> b + 1 < length (code s) \<and> code s ! b = ins"
  by (simp add: code_at_def)

text \<open>
  The code \<open>c\<close> at \<open>b\<close> does what \<open>m\<close> says: it pushes the values of \<open>m\<close> in order and goes on behind the code, or it runs to an
  instruction that raises the error of \<open>m\<close>.
\<close>

definition leads :: "Env \<Rightarrow> Runtime \<Rightarrow> Value list \<Rightarrow> nat \<Rightarrow> Engine \<Rightarrow> nat \<Rightarrow> Value list result \<times> Engine \<Rightarrow> bool" where
  "leads env s st b g n o' = (case o' of
     (Inr vs, g') \<Rightarrow> length vs \<le> n \<and> (vm_next env)\<^sup>*\<^sup>* (state_at s st b g) (state_at s (rev vs @ st) (b + n) g')
   | (Inl e, g') \<Rightarrow> \<exists>t u. (vm_next env)\<^sup>*\<^sup>* (state_at s st b g) t \<and> step env t = (Inl e, u) \<and> engine u = g')"

definition pushes :: "Env \<Rightarrow> Runtime \<Rightarrow> nat \<Rightarrow> Instruction list \<Rightarrow> (Engine, Value list) action \<Rightarrow> bool" where
  "pushes env s b c m \<longleftrightarrow> (\<forall>st g. length st + length c < 2 ^ 31 \<longrightarrow> leads env s st b g (length c) (m g))"

lemma pushes_seq:
  assumes "pushes env s b c m" "pushes env s (b + length c) d k"
  shows "pushes env s b (c @ d) (bindS m (\<lambda>vs. bindS k (\<lambda>ws. retS (vs @ ws))))"
  unfolding pushes_def
proof (intro allI impI)
  fix st :: "Value list" and g assume len: "length st + length (c @ d) < 2 ^ 31"
  then have c: "leads env s st b g (length c) (m g)" using assms(1) by (simp add: pushes_def)
  show "leads env s st b g (length (c @ d)) (bindS m (\<lambda>vs. bindS k (\<lambda>ws. retS (vs @ ws))) g)"
  proof (cases "m g")
    case (Pair r g1)
    show ?thesis
    proof (cases r)
      case (Inl e)
      then show ?thesis using c Pair by (simp add: bindS_def leads_def)
    next
      case (Inr vs)
      then have v: "length vs \<le> length c" "(vm_next env)\<^sup>*\<^sup>* (state_at s st b g) (state_at s (rev vs @ st) (b + length c) g1)"
        using c Pair by (simp_all add: leads_def)
      have "length (rev vs @ st) + length d < 2 ^ 31" using v(1) len by simp
      then have "leads env s (rev vs @ st) (b + length c) g1 (length d) (k g1)" using assms(2) unfolding pushes_def by blast
      then show ?thesis using v Pair Inr
        by (auto simp: bindS_def retS_def add.assoc leads_def split: prod.splits sum.splits intro: rtranclp_trans)
    qed
  qed
qed

text \<open>An instruction that takes its arguments from the stack.\<close>

definition applies :: "Env \<Rightarrow> Runtime \<Rightarrow> nat \<Rightarrow> Instruction \<Rightarrow> (Value list \<Rightarrow> (Engine, Value) action) \<Rightarrow> Value list \<Rightarrow> bool" where
  "applies env s b ins f vs \<longleftrightarrow> (\<forall>st g. length st + length vs < 2 ^ 31 \<longrightarrow> (case f vs g of
     (Inr v, g') \<Rightarrow> exec env ins (state_at s (rev vs @ st) b g) = (Inr Break, state_at s (v # st) b g')
   | (Inl e, g') \<Rightarrow> \<exists>u. exec env ins (state_at s (rev vs @ st) b g) = (Inl e, u) \<and> engine u = g'))"

lemma step_applies:
  assumes "applies env s b ins f vs" "code_at s b [ins]" "\<not> interrupted s" "length st + length vs < 2 ^ 31"
  shows "case f vs g of
     (Inr v, g') \<Rightarrow> vm_next env (state_at s (rev vs @ st) b g) (state_at s (v # st) (b + 1) g')
   | (Inl e, g') \<Rightarrow> \<exists>u. step env (state_at s (rev vs @ st) b g) = (Inl e, u) \<and> engine u = g'"
proof -
  have at: "code (state_at s t b g) ! ip (state_at s t b g) = ins" "\<not> length (code (state_at s t b g)) \<le> ip (state_at s t b g)" for t
    using assms(2) by (auto simp: code_at_single state_at_def)
  have a: "case f vs g of
     (Inr v, g') \<Rightarrow> exec env ins (state_at s (rev vs @ st) b g) = (Inr Break, state_at s (v # st) b g')
   | (Inl e, g') \<Rightarrow> \<exists>u. exec env ins (state_at s (rev vs @ st) b g) = (Inl e, u) \<and> engine u = g'"
    by (rule assms(1) [unfolded applies_def, rule_format, OF assms(4)])
  show ?thesis
  proof (cases "f vs g")
    case (Pair r g')
    then show ?thesis using a assms(2,3)
      by (cases r) (auto simp: step_def at bindS_def vm_next_def code_at_single, simp_all add: state_at_def)
  qed
qed

lemma pushes_apply:
  assumes m: "pushes env s b c m" and vs: "\<And>g vs g'. m g = (Inr vs, g') \<Longrightarrow> applies env s (b + length c) ins f vs"
    and at: "code_at s (b + length c) [ins]" and "\<not> interrupted s"
  shows "pushes env s b (c @ [ins]) (bindS m (\<lambda>vs. bindS (f vs) (\<lambda>v. retS [v])))"
  unfolding pushes_def
proof (intro allI impI)
  fix st :: "Value list" and g assume len: "length st + length (c @ [ins]) < 2 ^ 31"
  then have l: "leads env s st b g (length c) (m g)" using m by (simp add: pushes_def)
  show "leads env s st b g (length (c @ [ins])) (bindS m (\<lambda>vs. bindS (f vs) (\<lambda>v. retS [v])) g)"
  proof (cases "m g")
    case (Pair r g1)
    show ?thesis
    proof (cases r)
      case (Inl e)
      then show ?thesis using l Pair by (simp add: bindS_def leads_def)
    next
      case (Inr vs)
      then have v: "length vs \<le> length c" "(vm_next env)\<^sup>*\<^sup>* (state_at s st b g) (state_at s (rev vs @ st) (b + length c) g1)"
        using l Pair by (simp_all add: leads_def)
      have "length st + length vs < 2 ^ 31" using v(1) len by simp
      note st = step_applies [OF assms(2) at assms(4) this, of g g1 g1]
      show ?thesis
      proof (cases "f vs g1")
        case (Pair q g2)
        then show ?thesis using st v Inr \<open>m g = (r, g1)\<close>
          by (cases q) (auto simp: bindS_def retS_def leads_def intro: rtranclp.rtrancl_into_rtrancl)
      qed
    qed
  qed
qed

lemma pushes_nil: "pushes env s b [] (retS [])"
  by (simp add: pushes_def leads_def retS_def)

lemma bindS_assoc: "bindS (bindS m f) k = bindS m (\<lambda>x. bindS (f x) k)"
  by (auto simp: bindS_def fun_eq_iff split: prod.splits sum.splits)

lemma bindS_ret: "bindS (retS x) k = k x"
  by (simp add: bindS_def retS_def fun_eq_iff)

lemma bindS_Pair: "bindS (Pair (Inr x)) k = k x"
  by (simp add: bindS_def fun_eq_iff)

lemma bindS_ret_right: "bindS m retS = m"
  by (auto simp: bindS_def retS_def fun_eq_iff split: prod.splits sum.splits)

lemmas monad_laws = bindS_assoc bindS_ret bindS_Pair bindS_ret_right

definition one :: "(Engine, Value) action \<Rightarrow> (Engine, Value list) action" where
  "one m = bindS m (\<lambda>v. retS [v])"

lemma one_ret: "one (retS v) = retS [v]"
  unfolding one_def by (rule bindS_ret)

lemma pushes_single:
  assumes "applies env s b ins f []" "code_at s b [ins]" "\<not> interrupted s"
  shows "pushes env s b [ins] (one (f []))"
  using pushes_apply [OF pushes_nil, of env s b ins f] assms by (simp add: one_def monad_laws)

lemma pushes_literal:
  assumes "applies env s b ins (\<lambda>_. retS v) []" "code_at s b [ins]" "\<not> interrupted s"
  shows "pushes env s b [ins] (retS [v])"
  using pushes_single [OF assms] by (simp only: one_ret)

lemma pushes_cons:
  assumes "pushes env s b c (one m)" "pushes env s (b + length c) d k"
  shows "pushes env s b (c @ d) (bindS m (\<lambda>v. bindS k (\<lambda>vs. retS (v # vs))))"
  using pushes_seq [OF assms] by (simp add: one_def monad_laws)

lemma one_values: "one m g = (Inr vs, g') \<Longrightarrow> \<exists>v. vs = [v]"
  by (auto simp: one_def bindS_def retS_def split: prod.splits sum.splits)

section \<open>The opcodes of expressions\<close>

text \<open>An instruction that computes a value from the stack alone.\<close>

lemma applies_value:
  assumes "\<And>st g. exec env ins (state_at s (rev vs @ st) b g) = (case r of Inl e \<Rightarrow> (Inl e, u st g) | Inr v \<Rightarrow> (Inr Break, state_at s (v # st) b g))"
    and "\<And>st g. engine (u st g) = g"
  shows "applies env s b ins (\<lambda>_. liftS r) vs"
  using assms by (simp add: applies_def liftS_def split: sum.split)

lemma state_at_simps [simp]:
  "stack (state_at s st i g) = st" "ip (state_at s st i g) = i" "engine (state_at s st i g) = g" "variables (state_at s st i g) = variables s"
  "arrays (state_at s st i g) = arrays s" "(state_at s st i g)\<lparr>stack := st'\<rparr> = state_at s st' i g"
  by (simp_all add: state_at_def)

lemmas run_simps = bindS_def liftS_def retS_def getS_def updS_def throwS_def popV_def pushV_def push_break_def break_after_def

lemma applies_literal:
  "applies env s b (mkInstr PushInt (IntV i)) (\<lambda>_. retS (IntV i)) []"
  "applies env s b (mkInstr PushFlt (DblV d)) (\<lambda>_. retS (DblV d)) []"
  "applies env s b (mkInstr PushStr (StrV x)) (\<lambda>_. retS (StrV x)) []"
  by (simp_all add: applies_def exec_def mkInstr_def intOperand_def stringOperand_def intOperandAtIp_def floatOperandAtIp_def stringOperandAtIp_def
      run_simps)

lemma applies_binary: "applies env s b (makeNoOperandInstruction (toOpCode op)) (\<lambda>_. liftS (binary_value op x y)) [x, y]"
  by (rule applies_value [where u = "\<lambda>st g. state_at s st b g"])
    (cases op; simp add: exec_def makeNoOperandInstruction_def mkInstr_def binop_def op_eq_def op_ne_def op_lt_def op_le_def op_gt_def op_ge_def
      run_simps split: sum.split)+

lemma applies_negate: "applies env s b (makeNoOperandInstruction Sub) (\<lambda>_. liftS (vm_sub x y)) [x, y]"
  using applies_binary [of env s b SubtractOp x y] by simp

lemma canonical_name: "canonicalVariableName (uppercase nm) = uppercase nm"
  by (simp add: canonicalVariableName_def upperCopy_def uppercase_def)

lemma applies_variable: "applies env s b (mkInstr LoadVar (StrV (uppercase nm))) (\<lambda>_. liftS (variable_value env s (uppercase nm))) []"
  by (rule applies_value [where u = "\<lambda>st g. state_at s st b g"])
    (auto simp: exec_def mkInstr_def op_load_var_def nameOperand_def stringOperand_def stringOperandAtIp_def canonical_name variable_value_def
      run_simps split: option.splits)

lemma applies_element: "applies env s b (mkInstr LoadArr (StrV (uppercase nm))) (\<lambda>_. liftS (element_value s (uppercase nm) v)) [v]"
  by (rule applies_value [where u = "\<lambda>st g. state_at s st b g"])
    (auto simp: exec_def mkInstr_def op_load_arr_def nameOperand_def stringOperand_def stringOperandAtIp_def canonical_name element_value_def
      popCoerced_def get_array_def check_index_def run_simps bindE_def split: option.splits sum.splits)

lemma applies_attribute: "applies env s b (makeNoOperandInstruction ExtractAttr) (\<lambda>_. liftS (attribute_value x a i)) [x, a, i]"
  by (rule applies_value [where u = "\<lambda>st g. state_at s (if \<exists>e. coerceToInt i = Inl e then a # x # st else x # st) b g"])
    (auto simp: exec_def makeNoOperandInstruction_def mkInstr_def op_extract_attr_def attribute_value_def popCoerced_def popText_def
      run_simps bindE_def Let_def split: sum.splits)

definition basic_env :: "Env \<Rightarrow> bool" where
  "basic_env env \<longleftrightarrow> (\<exists>reg. languageRegistry env = Some reg \<and> serves reg kNamespaceIdBasic basic_functions)"

lemma call_entry: "functionIdForCall name n = Some k \<Longrightarrow> k < length basic_functions \<and> arity (basic_functions ! k) = n \<and> (\<exists>h. fn (basic_functions ! k) = Some h)"
proof -
  have "list_all (\<lambda>((name, n), k). k < length basic_functions \<and> arity (basic_functions ! k) = n \<and> fn (basic_functions ! k) \<noteq> None) call_table"
    by (simp add: call_table_def basic_functions_def)
  then show "functionIdForCall name n = Some k \<Longrightarrow> ?thesis" by (fastforce simp: functionIdForCall_def list_all_iff dest: map_of_SomeD)
qed

lemma applies_call:
  assumes "basic_env env" "functionIdForCall name (int (length args)) = Some k" "fn (basic_functions ! k) = Some h"
  shows "applies env s b ((makeNoOperandInstruction CallFunc)\<lparr>callFunc := \<lparr>namespaceId = kNamespaceIdBasic, functionId = k, argCount = int (length args)\<rparr>\<rparr>)
    (\<lambda>_ g. case h (platform env) (host_context env s) \<lparr>hstack = rev args, hengine = g\<rparr> of
               (Inl e, t) \<Rightarrow> (Inl e, hengine t)
             | (Inr _, t) \<Rightarrow> (Inr (hd (hstack t)), hengine t)) args"
  unfolding applies_def
proof (intro allI impI)
  fix st :: "Value list" and g assume len: "length st + length args < 2 ^ 31"
  obtain reg where reg: "languageRegistry env = Some reg" "serves reg kNamespaceIdBasic basic_functions" using assms(1) by (auto simp: basic_env_def)
  obtain ns where ns: "map_of (namespaces reg) kNamespaceIdBasic = Some ns" "reg_functions ns = basic_functions"
    using reg(2) by (auto simp: serves_def)
  note entry = call_entry [OF assms(2)]
  then have k: "\<not> length basic_functions \<le> k" by simp
  have n: "wrap32 (int (length args) + int (length st)) = int (length args) + int (length st)" using len by (simp add: wrap32_def)
  have hc: "host_context env (state_at s t i g') = host_context env s" for t i g' by (simp add: host_context_def state_at_def)
  have "answers_on (length args) h"
    using basic_table_answers [of "basic_functions ! k" h] entry assms(3) by (metis nat_int nth_mem)
  then have a: "case h (platform env) (host_context env s) \<lparr>hstack = rev args, hengine = g\<rparr> of
        (Inl e, t) \<Rightarrow> (\<exists>u. h (platform env) (host_context env s) \<lparr>hstack = rev args @ st, hengine = g\<rparr> = (Inl e, u) \<and> hengine u = hengine t)
      | (Inr _, t) \<Rightarrow> (\<exists>v. hstack t = [v] \<and>
          h (platform env) (host_context env s) \<lparr>hstack = rev args @ st, hengine = g\<rparr> = (Inr (), \<lparr>hstack = v # st, hengine = hengine t\<rparr>))"
    unfolding answers_on_def by simp
  show "case (case h (platform env) (host_context env s) \<lparr>hstack = rev args, hengine = g\<rparr> of
               (Inl e, t) \<Rightarrow> (Inl e, hengine t) | (Inr _, t) \<Rightarrow> (Inr (hd (hstack t)), hengine t)) of
     (Inr v, g') \<Rightarrow> exec env ((makeNoOperandInstruction CallFunc)\<lparr>callFunc := \<lparr>namespaceId = kNamespaceIdBasic, functionId = k, argCount = int (length args)\<rparr>\<rparr>)
        (state_at s (rev args @ st) b g) = (Inr Break, state_at s (v # st) b g')
   | (Inl e, g') \<Rightarrow> \<exists>u. exec env ((makeNoOperandInstruction CallFunc)\<lparr>callFunc := \<lparr>namespaceId = kNamespaceIdBasic, functionId = k, argCount = int (length args)\<rparr>\<rparr>)
        (state_at s (rev args @ st) b g) = (Inl e, u) \<and> engine u = g'"
    using a n
    by (auto simp: exec_def makeNoOperandInstruction_def mkInstr_def op_call_func_def reg(1) on_stack_def dispatch_def ns k entry assms(3) hc Let_def
        run_simps split: prod.splits sum.splits, simp_all add: state_at_def)
qed

section \<open>Expressions\<close>

lemma eval_args_length: "eval_args env s es g = (Inr vs, g') \<Longrightarrow> length vs = length es"
  by (induction es arbitrary: vs g g') (auto simp: bindS_def retS_def split: prod.splits sum.splits)

lemma applies_fun: "applies env s b ins (\<lambda>_. m) vs \<Longrightarrow> f vs = m \<Longrightarrow> applies env s b ins f vs"
  by (simp add: applies_def)

lemma pushes_value:
  assumes "pushes env s b c (one m)" "\<And>v. applies env s (b + length c) ins (\<lambda>_. liftS (f v)) [v]" "code_at s b (c @ [ins])" "\<not> interrupted s"
  shows "pushes env s b (c @ [ins]) (one (bindS m (\<lambda>v. liftS (f v))))"
proof -
  have "pushes env s b (c @ [ins]) (bindS (one m) (\<lambda>vs. bindS (liftS (f (hd vs))) (\<lambda>v. retS [v])))"
    using assms by (intro pushes_apply) (auto simp: code_at_append applies_def dest!: one_values)
  then show ?thesis by (simp add: one_def monad_laws)
qed

lemma pushes_two:
  assumes "pushes env s b c (one m)" "pushes env s (b + length c) d (one k)"
    and "\<And>x y. applies env s (b + length (c @ d)) ins (\<lambda>_. liftS (f x y)) [x, y]" "code_at s b (c @ d @ [ins])" "\<not> interrupted s"
  shows "pushes env s b (c @ d @ [ins]) (one (bindS m (\<lambda>x. bindS k (\<lambda>y. liftS (f x y)))))"
proof -
  let ?m = "bindS (one m) (\<lambda>vs. bindS (one k) (\<lambda>ws. retS (vs @ ws)))"
  have "applies env s (b + length (c @ d)) ins (\<lambda>vs. liftS (f (vs ! 0) (vs ! 1))) vs" if "?m g = (Inr vs, g')" for g vs g'
    using that by (auto simp: bindS_def retS_def split: prod.splits sum.splits dest!: one_values intro!: applies_fun [OF assms(3)] simp del: length_append)
  then have "pushes env s b ((c @ d) @ [ins]) (bindS ?m (\<lambda>vs. bindS (liftS (f (vs ! 0) (vs ! 1))) (\<lambda>v. retS [v])))"
    by (rule pushes_apply [OF pushes_seq [OF assms(1,2)]]) (use assms(4,5) in \<open>simp_all add: code_at_append add.assoc\<close>)
  then show ?thesis by (simp add: one_def monad_laws)
qed

lemma pushes_three:
  assumes "pushes env s b c (one m)" "pushes env s (b + length c) d (one k)" "pushes env s (b + length c + length d) e (one l)"
    and "\<And>x y z. applies env s (b + length (c @ d @ e)) ins (\<lambda>_. liftS (f x y z)) [x, y, z]" "code_at s b (c @ d @ e @ [ins])" "\<not> interrupted s"
  shows "pushes env s b (c @ d @ e @ [ins]) (one (bindS m (\<lambda>x. bindS k (\<lambda>y. bindS l (\<lambda>z. liftS (f x y z))))))"
proof -
  let ?k = "bindS (one k) (\<lambda>vs. bindS (one l) (\<lambda>ws. retS (vs @ ws)))"
  let ?m = "bindS (one m) (\<lambda>vs. bindS ?k (\<lambda>ws. retS (vs @ ws)))"
  have "applies env s (b + length (c @ d @ e)) ins (\<lambda>vs. liftS (f (vs ! 0) (vs ! 1) (vs ! 2))) vs" if "?m g = (Inr vs, g')" for g vs g'
    using that by (auto simp: bindS_def retS_def split: prod.splits sum.splits dest!: one_values intro!: applies_fun [OF assms(4)] simp del: length_append)
  then have "pushes env s b ((c @ d @ e) @ [ins]) (bindS ?m (\<lambda>vs. bindS (liftS (f (vs ! 0) (vs ! 1) (vs ! 2))) (\<lambda>v. retS [v])))"
    by (rule pushes_apply [OF pushes_seq [OF assms(1) pushes_seq [OF assms(2,3)]]]) (use assms(5,6) in \<open>simp_all add: code_at_append add.assoc\<close>)
  then show ?thesis by (simp add: one_def monad_laws)
qed

definition call_instr :: "nat \<Rightarrow> nat \<Rightarrow> Instruction" where
  "call_instr k n = (makeNoOperandInstruction CallFunc)\<lparr>callFunc := \<lparr>namespaceId = kNamespaceIdBasic, functionId = k, argCount = int n\<rparr>\<rparr>"

definition handler_value :: "Env \<Rightarrow> Runtime \<Rightarrow> LanguageFunctionFn \<Rightarrow> Value list \<Rightarrow> (Engine, Value) action" where
  "handler_value env s h vs g = (case h (platform env) (host_context env s) \<lparr>hstack = rev vs, hengine = g\<rparr> of
     (Inl e, t) \<Rightarrow> (Inl e, hengine t) | (Inr _, t) \<Rightarrow> (Inr (hd (hstack t)), hengine t))"

lemma pushes_handler:
  assumes m: "pushes env s b c m" "\<And>g vs g'. m g = (Inr vs, g') \<Longrightarrow> length vs = n"
    and "functionIdForCall name (int n) = Some k" "fn (basic_functions ! k) = Some h"
    and "code_at s b (c @ [call_instr k n])" "basic_env env" "\<not> interrupted s"
  shows "pushes env s b (c @ [call_instr k n]) (bindS m (\<lambda>vs. bindS (handler_value env s h vs) (\<lambda>v. retS [v])))"
proof (rule pushes_apply [OF m(1)])
  fix g vs g' assume "m g = (Inr vs, g')"
  then have "length vs = n" by (rule m(2))
  then show "applies env s (b + length c) (call_instr k n) (handler_value env s h) vs"
    using applies_call [OF assms(6), of name vs k h s "b + length c"] assms(3,4)
    by (auto simp: call_instr_def handler_value_def fun_eq_iff intro: applies_fun)
qed (use assms(5,7) in \<open>simp_all add: code_at_append\<close>)

lemma pushes_call:
  assumes "pushes env s b c (eval_args env s args)" "builtin_call name (int (length args)) = Inr call" "code_at s b (c @ call)"
    and "basic_env env" "\<not> interrupted s"
  shows "pushes env s b (c @ call) (one (bindS (eval_args env s args) (builtin_value env s name)))"
proof (cases "name = ''INDEX'' \<and> length args = 2")
  case True
  let ?p = "[mkInstr PushInt (IntV 1)]" and ?m = "bindS (eval_args env s args) (\<lambda>vs. bindS (retS [IntV 1]) (\<lambda>ws. retS (vs @ ws)))"
  have id: "functionIdForCall ''INDEX'' (int 3) = Some 18" by (simp add: functionIdForCall_def call_table_def)
  then obtain h where h: "fn (basic_functions ! 18) = Some h" using call_entry by blast
  have call: "call = ?p @ [call_instr 18 3]" using assms(2) True id by (simp add: builtin_call_def call_instr_def)
  have seq: "pushes env s b (c @ ?p) ?m"
    using assms(3,5) pushes_single [OF applies_literal(1) [of env s "b + length c" 1]]
    by (intro pushes_seq [OF assms(1)]) (simp add: call code_at_append [of s b c] code_at_append [of s _ ?p "[call_instr 18 3]", simplified] one_ret)
  have n: "length vs = 3" if "?m g = (Inr vs, g')" for g vs g'
    using that True by (auto simp: bindS_def retS_def split: prod.splits sum.splits dest!: eval_args_length)
  have "pushes env s b ((c @ ?p) @ [call_instr 18 3]) (bindS ?m (\<lambda>vs. bindS (handler_value env s h vs) (\<lambda>v. retS [v])))"
    using assms(3-5) by (intro pushes_handler [OF seq n id h]) (simp_all add: call)
  moreover have "builtin_value env s name vs = handler_value env s h (vs @ [IntV 1])" if "length vs = 2" for vs
    using that True id h by (simp add: builtin_value_def handler_value_def fun_eq_iff)
  then have "bindS ?m (\<lambda>vs. bindS (handler_value env s h vs) (\<lambda>v. retS [v])) = one (bindS (eval_args env s args) (builtin_value env s name))"
    using True eval_args_length [of env s args] by (auto simp: one_def monad_laws fun_eq_iff bindS_def split: prod.splits sum.splits)
  ultimately show ?thesis by (simp add: call)
next
  case False
  then obtain k where k: "functionIdForCall name (int (length args)) = Some k" "call = [call_instr k (length args)]"
    using assms(2) by (auto simp: builtin_call_def call_instr_def Let_def split: option.splits if_splits)
  obtain h where h: "fn (basic_functions ! k) = Some h" using call_entry [OF k(1)] by blast
  have "pushes env s b (c @ [call_instr k (length args)]) (bindS (eval_args env s args) (\<lambda>vs. bindS (handler_value env s h vs) (\<lambda>v. retS [v])))"
    using assms(3-5) k(2) by (intro pushes_handler [OF assms(1) eval_args_length k(1) h]) simp_all
  moreover have "builtin_value env s name vs = handler_value env s h vs" if "length vs = length args" for vs
    using that False k(1) h by (auto simp: builtin_value_def handler_value_def fun_eq_iff)
  then have "bindS (eval_args env s args) (\<lambda>vs. bindS (handler_value env s h vs) (\<lambda>v. retS [v])) = one (bindS (eval_args env s args) (builtin_value env s name))"
    using eval_args_length [of env s args] by (auto simp: one_def monad_laws fun_eq_iff bindS_def split: prod.splits sum.splits)
  ultimately show ?thesis by (simp add: k(2))
qed

lemma expression_pushes:
  assumes "basic_env env" "\<not> interrupted s"
  shows "emitNode e a = Inr c \<Longrightarrow> code_at s b c \<Longrightarrow> pushes env s b c (one (eval_expr env s e))"
    "emit_args nm i es = Inr cs \<Longrightarrow> code_at s b cs \<Longrightarrow> pushes env s b cs (eval_args env s es)"
proof (induction e a and nm i es arbitrary: b c and b cs rule: emitNode_emit_args.induct)
  case (6 op e a)
  then obtain c1 where c: "emitNode e True = Inr c1" "c = [mkInstr PushInt (IntV 0)] @ c1 @ [makeNoOperandInstruction Sub]"
    by (auto simp: bindE_eq_Inr_iff)
  have "pushes env s b c (one (bindS (retS (IntV 0)) (\<lambda>x. bindS (eval_expr env s e) (\<lambda>y. liftS (vm_sub x y)))))"
    unfolding c(2)
  proof (rule pushes_two [OF pushes_single [OF applies_literal(1)] _ applies_negate])
    show "pushes env s (b + length [mkInstr PushInt (IntV 0)]) c1 (one (eval_expr env s e))"
      using 6 c(1) by (simp only: c(2) code_at_append)
  qed (use 6(3) assms(2) in \<open>simp_all only: c(2) code_at_append not_False_eq_True\<close>)
  then show ?case by (simp add: monad_laws)
next
  case (7 op l r a)
  then obtain cl cr where c: "emitNode l (isArithmeticOp op) = Inr cl" "emitNode r (isArithmeticOp op) = Inr cr"
      "c = cl @ cr @ [makeNoOperandInstruction (toOpCode op)]"
    by (auto simp: bindE_eq_Inr_iff)
  then show ?case using 7 assms unfolding c(3) eval_expr.simps
    by (intro pushes_two applies_binary) (simp_all add: code_at_append)
next
  case (10 nm attr v a)
  then obtain ca cv where c: "emitNode attr False = Inr ca" "(case v of Some e \<Rightarrow> emitNode e False | None \<Rightarrow> Inr [mkInstr PushInt (IntV 0)]) = Inr cv"
      "c = [mkInstr LoadVar (StrV (uppercase nm))] @ ca @ cv @ [makeNoOperandInstruction ExtractAttr]"
    by (auto simp: bindE_eq_Inr_iff split: if_splits)
  have cv: "pushes env s b' cv (one (case v of Some e \<Rightarrow> eval_expr env s e | None \<Rightarrow> retS (IntV 0)))" if "code_at s b' cv" for b'
    using that 10 c(2) assms pushes_single [OF applies_literal(1) [of env s b' 0]] by (auto split: option.splits if_splits)
  have ca: "pushes env s b' ca (one (eval_expr env s attr))" if "code_at s b' ca" for b' using that 10 c(1) by (auto split: if_splits)
  show ?case unfolding c(3) eval_expr.simps
    by (rule pushes_three [OF pushes_single [OF applies_variable] ca cv applies_attribute])
      (use 10(4) assms(2) in \<open>simp_all only: c(3) code_at_append not_False_eq_True\<close>)
qed (use assms in \<open>auto simp: bindE_eq_Inr_iff one_ret code_at_append pushes_nil intro!: pushes_literal pushes_cons pushes_single applies_literal applies_variable pushes_value applies_element pushes_call split: if_splits option.splits\<close>)

lemma expression_runs:
  assumes "emitNode e False = Inr c" "code_at s (ip s) c" "length (stack s) + length c < 2 ^ 31" "basic_env env" "\<not> interrupted s"
  shows "case eval_expr env s e (engine s) of
     (Inr v, g) \<Rightarrow> (vm_next env)\<^sup>*\<^sup>* s (s\<lparr>stack := v # stack s, ip := ip s + length c, engine := g\<rparr>)
   | (Inl err, g) \<Rightarrow> \<exists>t u. (vm_next env)\<^sup>*\<^sup>* s t \<and> step env t = (Inl err, u) \<and> engine u = g"
proof -
  have "pushes env s (ip s) c (one (eval_expr env s e))" by (rule expression_pushes(1) [OF assms(4,5,1,2)])
  then have "leads env s (stack s) (ip s) (engine s) (length c) (one (eval_expr env s e) (engine s))" using assms(3) by (simp add: pushes_def)
  moreover have "state_at s (stack s) (ip s) (engine s) = s" by (simp add: state_at_def)
  ultimately show ?thesis
    by (auto simp: leads_def one_def bindS_def retS_def state_at_def split: prod.splits sum.splits)
qed

text \<open>
  C23.  Compiled expressions are correct: with the code of an expression at the instruction pointer, the machine evaluates the
  expression.  Either it runs to the instruction behind the code with the value on top of the stack and nothing else
  changed but the random generator, or it stops in an instruction that raises the error of the evaluation.
\<close>

theorem expression_code_correct:
  assumes "emitNode e False = Inr c" "code_at s (ip s) c" "length (stack s) + length c < 2 ^ 31" "basic_env env" "\<not> interrupted s"
  shows "case eval_expr env s e (engine s) of
     (Inr v, g) \<Rightarrow> (vm_next env)\<^sup>*\<^sup>* s (s\<lparr>stack := v # stack s, ip := ip s + length c, engine := g\<rparr>)
   | (Inl err, g) \<Rightarrow> \<exists>t u. (vm_next env)\<^sup>*\<^sup>* s t \<and> step env t = (Inl err, u) \<and> engine u = g"
  by (rule expression_runs [OF assms])

definition sum_expr :: Expr where
  "sum_expr = BinaryExpr AddOp (IntLiteralExpr 40) (FunctionCallExpr ''LEN'' [StringLiteralExpr ''AB''])"

definition sum_code :: "Instruction list" where
  "sum_code = [mkInstr PushInt (IntV 40), mkInstr PushStr (StrV ''AB''), call_instr 3 1, mkInstr Add (IntV 0)]"

lemma sample_basic_env: "basic_env sample_env"
  using registered_serves [OF sample_registered] by (simp add: basic_env_def sample_env_def)

theorem expression_code_correct_witness:
  "(vm_next sample_env)\<^sup>*\<^sup>* (loadProgram (sum_code @ [mkInstr Halt (IntV 0)]) [] sample_runtime)
     ((loadProgram (sum_code @ [mkInstr Halt (IntV 0)]) [] sample_runtime)\<lparr>stack := [IntV 42], ip := length sum_code\<rparr>)"
proof -
  let ?s = "loadProgram (sum_code @ [mkInstr Halt (IntV 0)]) [] sample_runtime"
  have "emitNode sum_expr False = Inr sum_code"
    by (simp add: sum_expr_def sum_code_def arity_error_def builtinArityBounds_def check_arity_def builtin_call_def functionIdForCall_def call_table_def
      call_instr_def makeNoOperandInstruction_def)
  moreover have "eval_expr sample_env ?s sum_expr (engine ?s) = (Inr (IntV 42), engine ?s)"
    by (simp add: sum_expr_def bindS_def builtin_value_def functionIdForCall_def call_table_def basic_functions_def handlerLen_def unaryH_def
      constantH_def popH_def pushH_def vm_add_def int_result_def checked_int_def range_simps wrap32_def Let_def)
  moreover have "code_at ?s 0 sum_code" by (simp add: code_at_def loadProgram_def Let_def nth_append)
  ultimately show ?thesis
    using expression_code_correct [of sum_expr sum_code ?s sample_env] sample_basic_env
    by (simp add: loadProgram_def Let_def sum_code_def sample_runtime_def)
qed

section \<open>Statements\<close>

text \<open>A run from \<open>s\<close> to a state \<open>t\<close>, or to an instruction that raises an error.\<close>

definition runs_to :: "Env \<Rightarrow> Runtime \<Rightarrow> Runtime result \<Rightarrow> bool" where
  "runs_to env s r = (case r of
     Inr t \<Rightarrow> (vm_next env)\<^sup>*\<^sup>* s t
   | Inl e \<Rightarrow> \<exists>t u. (vm_next env)\<^sup>*\<^sup>* s t \<and> step env t = (Inl e, u))"

lemma runs_to_trans: "(vm_next env)\<^sup>*\<^sup>* s t \<Longrightarrow> runs_to env t r \<Longrightarrow> runs_to env s r"
  by (auto simp: runs_to_def split: sum.splits intro: rtranclp_trans)

definition after_expr :: "Env \<Rightarrow> Runtime \<Rightarrow> Expr \<Rightarrow> nat \<Rightarrow> (Runtime \<Rightarrow> Value \<Rightarrow> Runtime result) \<Rightarrow> Runtime result" where
  "after_expr env s e n k = (case eval_expr env s e (engine s) of
     (Inr v, g) \<Rightarrow> k (s\<lparr>ip := ip s + n, engine := g\<rparr>) v
   | (Inl err, g) \<Rightarrow> Inl err)"

lemma after_expr_runs:
  assumes "expr_code ctx e = Inr c" "code_at s (ip s) c" "length (stack s) + length c < 2 ^ 31" "basic_env env" "\<not> interrupted s"
    and k: "\<And>v g. runs_to env (s\<lparr>stack := v # stack s, ip := ip s + length c, engine := g\<rparr>) (k (s\<lparr>ip := ip s + length c, engine := g\<rparr>) v)"
  shows "runs_to env s (after_expr env s e (length c) k)"
proof -
  have "emitNode e False = Inr c" using assms(1) by (auto simp: expr_code_def split: sum.splits)
  note x = expression_runs [OF this assms(2-5)]
  show ?thesis
  proof (cases "eval_expr env s e (engine s)")
    case (Pair r g)
    show ?thesis
    proof (cases r)
      case (Inl err)
      then show ?thesis using x Pair by (auto simp: after_expr_def runs_to_def)
    next
      case (Inr v)
      then have "(vm_next env)\<^sup>*\<^sup>* s (s\<lparr>stack := v # stack s, ip := ip s + length c, engine := g\<rparr>)" using x Pair by simp
      then show ?thesis using runs_to_trans k Inr Pair by (simp add: after_expr_def)
    qed
  qed
qed

lemma next_break:
  assumes "exec env ins s = (Inr Break, t)" "code_at s (ip s) [ins]" "ip t = ip s" "code t = code s" "\<not> interrupted t"
  shows "vm_next env s (t\<lparr>ip := ip s + 1\<rparr>)"
  using assms step_break [of s env t] by (simp add: vm_next_def code_at_single)

lemma next_break_to:
  assumes "exec env ins s = (Inr Break, t)" "code_at s (ip s) [ins]" "ip t = ip s" "code t = code s" "\<not> interrupted t" "u = t\<lparr>ip := ip s + 1\<rparr>"
  shows "vm_next env s u"
  using next_break [OF assms(1-5)] assms(6) by simp

lemma error_here: "exec env ins s = (Inl e, t) \<Longrightarrow> code_at s (ip s) [ins] \<Longrightarrow> runs_to env s (Inl e)"
  unfolding runs_to_def sum.case
  by (rule exI [of _ s], rule exI [of _ t]) (auto simp: step_def bindS_def code_at_single)

lemma runs_to_next: "vm_next env s t \<Longrightarrow> runs_to env t r \<Longrightarrow> runs_to env s r"
  using runs_to_trans [of env s t r] by blast

lemma runs_to_here: "runs_to env s (Inr s)"
  by (simp add: runs_to_def)

text \<open>Assignment: a name with \<open>%\<close> takes an integer; system variables are read-only.\<close>

definition assigned :: "string \<Rightarrow> Value \<Rightarrow> Value result" where
  "assigned nm v = (if isIntVar nm then bindE (coerceToInt v) (\<lambda>i. Inr (IntV i)) else Inr v)"

definition store_result :: "string \<Rightarrow> Runtime \<Rightarrow> Value \<Rightarrow> Runtime result" where
  "store_result nm s v =
     (if isReadOnlySystemVariableName (uppercase nm) then Inl (RuntimeError (''Read-only system variable: '' @ uppercase nm))
      else Inr (s\<lparr>variables := (variables s)(uppercase nm \<mapsto> v)\<rparr>))"

lemma store_runs:
  assumes "code_at s (ip s) (store_code nm)" "stack s = v # st" "\<not> interrupted s"
  shows "runs_to env s (store_result nm (s\<lparr>stack := st, ip := ip s + 1\<rparr>) v)"
proof -
  let ?ins = "mkInstr StoreVar (StrV (uppercase nm))"
  have at: "code_at s (ip s) [?ins]" using assms(1) by (simp add: store_code_def)
  have ex: "exec env ?ins s = (if isReadOnlySystemVariableName (uppercase nm)
      then (Inl (RuntimeError (''Read-only system variable: '' @ uppercase nm)), s)
      else (Inr Break, s\<lparr>stack := st, variables := (variables s)(uppercase nm \<mapsto> v)\<rparr>))"
    using assms(2) by (simp add: exec_def mkInstr_def op_store_var_def nameOperand_def stringOperand_def stringOperandAtIp_def canonical_name
        guard_writable_def run_simps)
  show ?thesis
  proof (cases "isReadOnlySystemVariableName (uppercase nm)")
    case True
    then show ?thesis using error_here [OF _ at] ex by (simp add: store_result_def)
  next
    case False
    have "vm_next env s (s\<lparr>stack := st, ip := ip s + 1, variables := (variables s)(uppercase nm \<mapsto> v)\<rparr>)"
    proof (rule next_break_to [OF _ at])
      show "exec env ?ins s = (Inr Break, s\<lparr>stack := st, variables := (variables s)(uppercase nm \<mapsto> v)\<rparr>)" using ex False by simp
      show "s\<lparr>stack := st, ip := ip s + 1, variables := (variables s)(uppercase nm \<mapsto> v)\<rparr> =
          s\<lparr>stack := st, variables := (variables s)(uppercase nm \<mapsto> v)\<rparr>\<lparr>ip := ip s + 1\<rparr>" by (cases s) simp
    qed (use assms(3) in simp_all)
    then show ?thesis using False by (simp add: store_result_def runs_to_def r_into_rtranclp)
  qed
qed

lemma coerce_store_runs:
  assumes "code_at s (ip s) (coerce_code nm @ store_code nm)" "stack s = v # st" "\<not> interrupted s"
  shows "runs_to env s (bindE (assigned nm v) (\<lambda>w. store_result nm (s\<lparr>stack := st, ip := ip s + length (coerce_code nm @ store_code nm)\<rparr>) w))"
proof -
  show ?thesis
  proof (cases "isIntVar nm")
    case False
    then show ?thesis using store_runs [of s nm v st] assms by (simp add: assigned_def coerce_code_def store_code_def)
  next
    case True
    let ?ins = "makeNoOperandInstruction CoerceInt"
    have at: "code_at s (ip s) [?ins]" "code_at s (ip s + 1) (store_code nm)"
      using assms(1) True by (simp_all only: coerce_code_def if_True code_at_append, simp)
    have ex: "exec env ?ins s = (case coerceToInt v of Inl e \<Rightarrow> (Inl e, s\<lparr>stack := st\<rparr>) | Inr i \<Rightarrow> (Inr Break, s\<lparr>stack := IntV i # st\<rparr>))"
      using assms(2) by (simp add: exec_def makeNoOperandInstruction_def mkInstr_def op_coerce_int_def popCoerced_def run_simps split: sum.split)
    show ?thesis
    proof (cases "coerceToInt v")
      case (Inl e)
      then show ?thesis using error_here [OF _ at(1)] ex True by (simp add: assigned_def)
    next
      case (Inr i)
      then have "vm_next env s (s\<lparr>stack := IntV i # st, ip := ip s + 1\<rparr>)" using next_break [of env ?ins s _, OF _ at(1)] ex assms(3) by simp
      moreover have "runs_to env (s\<lparr>stack := IntV i # st, ip := ip s + 1\<rparr>) (store_result nm (s\<lparr>stack := st, ip := ip s + 1 + 1\<rparr>) (IntV i))"
        using store_runs [of "s\<lparr>stack := IntV i # st, ip := ip s + 1\<rparr>" nm "IntV i" st] at(2) assms(3) by (simp add: code_at_def)
      ultimately show ?thesis using True Inr runs_to_next by (simp add: assigned_def coerce_code_def store_code_def)
    qed
  qed
qed

definition let_result :: "Env \<Rightarrow> Runtime \<Rightarrow> string \<Rightarrow> Expr \<Rightarrow> nat \<Rightarrow> Runtime result" where
  "let_result env s nm e n = (case eval_expr env s e (engine s) of
     (Inl err, g) \<Rightarrow> Inl err
   | (Inr v, g) \<Rightarrow> bindE (assigned nm v) (\<lambda>w. store_result nm (s\<lparr>engine := g, ip := ip s + n\<rparr>) w))"

definition print_result :: "Env \<Rightarrow> Runtime \<Rightarrow> Expr \<Rightarrow> bool \<Rightarrow> nat \<Rightarrow> Runtime result" where
  "print_result env s e suppressEol n = (case eval_expr env s e (engine s) of
     (Inl err, g) \<Rightarrow> Inl err
   | (Inr v, g) \<Rightarrow> Inr (s\<lparr>outStream := outStream s @ valueToString v @ (if suppressEol then [] else [LF]), engine := g, ip := ip s + n\<rparr>))"

lemma runs_to_state: "runs_to env s (Inr t) \<Longrightarrow> t = u \<Longrightarrow> runs_to env s (Inr u)"
  by simp

lemma emit_let_runs:
  assumes "emit_let nm e = Inr (c, fx)" "code_at s (ip s) c" "length (stack s) + length c < 2 ^ 31" "basic_env env" "\<not> interrupted s"
  shows "runs_to env s (let_result env s nm e (length c))"
proof -
  obtain ce where ce: "expr_code ''LET expression error'' e = Inr ce" "c = ce @ coerce_code nm @ store_code nm"
    using assms(1) by (auto simp: emit_let_def bindE_eq_Inr_iff)
  have at: "code_at s (ip s) ce" "code_at s (ip s + length ce) (coerce_code nm @ store_code nm)"
    using assms(2) unfolding ce(2) code_at_append [of s _ ce] by simp_all
  have "runs_to env s (after_expr env s e (length ce) (\<lambda>t v. bindE (assigned nm v)
      (\<lambda>w. store_result nm (t\<lparr>ip := ip s + length c\<rparr>) w)))"
  proof (rule after_expr_runs [OF ce(1) at(1) _ assms(4,5)])
    fix v g
    let ?t = "s\<lparr>stack := v # stack s, ip := ip s + length ce, engine := g\<rparr>"
    have "code_at ?t (ip ?t) (coerce_code nm @ store_code nm)" using at(2) by (simp add: code_at_def)
    from coerce_store_runs [OF this, of v "stack s" env] show "runs_to env ?t (bindE (assigned nm v)
        (\<lambda>w. store_result nm (s\<lparr>ip := ip s + length ce, engine := g, ip := ip s + length c\<rparr>) w))"
      using assms(5) by (simp add: ce(2) add.assoc)
  qed (use assms(3) ce(2) in simp)
  then show ?thesis by (simp add: after_expr_def let_result_def split: prod.splits sum.splits)
qed

lemma exec_print_val:
  "stack s = v # st \<Longrightarrow> exec env (makeNoOperandInstruction PrintVal) s = (Inr Break, s\<lparr>stack := st, outStream := outStream s @ valueToString v\<rparr>)"
  by (simp add: exec_def makeNoOperandInstruction_def mkInstr_def op_print_val_def popText_def print_def run_simps)

lemma exec_print_eol: "exec env (makeNoOperandInstruction PrintEol) s = (Inr Break, s\<lparr>outStream := outStream s @ [LF]\<rparr>)"
  by (simp add: exec_def makeNoOperandInstruction_def mkInstr_def print_def run_simps)

lemma emit_print_runs:
  assumes "emit_print e suppressEol = Inr (c, fx)" "code_at s (ip s) c" "length (stack s) + length c < 2 ^ 31" "basic_env env" "\<not> interrupted s"
  shows "runs_to env s (print_result env s e suppressEol (length c))"
proof -
  let ?pv = "makeNoOperandInstruction PrintVal" and ?eol = "if suppressEol then [] else [makeNoOperandInstruction PrintEol]"
  obtain ce where ce: "expr_code ''PRINT expression error'' e = Inr ce" "c = ce @ [?pv] @ ?eol"
    using assms(1) by (auto simp: emit_print_def bindE_eq_Inr_iff)
  have at: "code_at s (ip s) ce" "code_at s (ip s + length ce) [?pv]" "code_at s (ip s + length ce + 1) ?eol"
    using assms(2) unfolding ce(2) code_at_append by simp_all
  have "runs_to env s (after_expr env s e (length ce)
      (\<lambda>t v. Inr (s\<lparr>outStream := outStream s @ valueToString v @ (if suppressEol then [] else [LF]), engine := engine t, ip := ip s + length c\<rparr>)))"
  proof (rule after_expr_runs [OF ce(1) at(1) _ assms(4,5)])
    fix v g
    let ?t = "s\<lparr>stack := v # stack s, ip := ip s + length ce, engine := g\<rparr>"
    let ?u = "s\<lparr>ip := ip s + length ce + 1, engine := g, outStream := outStream s @ valueToString v\<rparr>"
    have "code_at ?t (ip ?t) [?pv]" using at(2) by (simp add: code_at_def)
    have 1: "vm_next env ?t ?u"
    proof (rule next_break_to)
      show "exec env ?pv ?t = (Inr Break, ?t\<lparr>stack := stack s, outStream := outStream s @ valueToString v\<rparr>)" using exec_print_val [of ?t] by simp
      show "?u = ?t\<lparr>stack := stack s, outStream := outStream s @ valueToString v\<rparr>\<lparr>ip := ip ?t + 1\<rparr>" by (cases s) simp
    qed (use assms(5) \<open>code_at ?t (ip ?t) [?pv]\<close> in simp_all)
    have eol: "code_at ?u (ip ?u) ?eol" using at(3) by (simp add: code_at_def)
    have 2: "runs_to env ?u (Inr (s\<lparr>outStream := outStream s @ valueToString v @ (if suppressEol then [] else [LF]), engine := g, ip := ip s + length c\<rparr>))"
    proof (cases suppressEol)
      case True
      then have "s\<lparr>outStream := outStream s @ valueToString v, engine := g, ip := ip s + length c\<rparr> = ?u" by (cases s) (simp add: ce(2))
      then show ?thesis using runs_to_here [of env ?u] True by simp
    next
      case False
      have "vm_next env ?u (s\<lparr>outStream := outStream s @ valueToString v @ [LF], engine := g, ip := ip s + length c\<rparr>)"
      proof (rule next_break_to [OF exec_print_eol])
        show "s\<lparr>outStream := outStream s @ valueToString v @ [LF], engine := g, ip := ip s + length c\<rparr> =
            ?u\<lparr>outStream := outStream ?u @ [LF]\<rparr>\<lparr>ip := ip ?u + 1\<rparr>" by (cases s) (simp add: ce(2) False)
      qed (use assms(5) eol False in simp_all)
      then show ?thesis using False by (simp add: runs_to_def r_into_rtranclp)
    qed
    show "runs_to env ?t (Inr (s\<lparr>outStream := outStream s @ valueToString v @ (if suppressEol then [] else [LF]),
        engine := engine (s\<lparr>ip := ip s + length ce, engine := g\<rparr>), ip := ip s + length c\<rparr>))"
      using runs_to_next [OF 1 2] by simp
  qed (use assms(3) ce(2) in simp)
  then show ?thesis by (cases suppressEol) (simp_all add: after_expr_def print_result_def split: prod.splits sum.splits)
qed

section \<open>Lines of a compiled program\<close>

text \<open>Behind the code of a line there is always an instruction: the next line, or the closing \<open>HALT\<close>.\<close>

lemma compiled_line_inside:
  assumes "compile ls = Inr r" "end_last (parsed_lines (parse_lines ls))" "parsed_lines (parse_lines ls) = before @ (n, st) # behind"
    and "st \<noteq> EndStmt"
  shows "\<exists>c fx. emitStatement (length (em_program (foldl emit_line fresh_emitter before))) n st = Inr (c, fx) \<and>
    length (em_program (foldl emit_line fresh_emitter before)) + length c < length (comp_program r)"
proof -
  define parsed where "parsed = parsed_lines (parse_lines ls)"
  define em0 where "em0 = foldl emit_line fresh_emitter before"
  define em where "em = foldl emit_line fresh_emitter parsed"
  note e = compile_inv(1) [OF assms(1), folded parsed_def]
  have st: "\<forall>l \<in> set parsed. stmt_ok (snd l)" unfolding parsed_def using parse_lines_ok by (metis prod.collapse)
  have em_eq: "em = foldl emit_line (emit_line em0 (n, st)) behind" by (simp add: em_def em0_def parsed_def assms(3))
  have "extends (emit_line em0 (n, st)) em" unfolding em_eq using st by (intro emit_lines_extend) (simp add: parsed_def assms(3))
  then obtain c' where later: "em_program em = em_program (emit_line em0 (n, st)) @ c'" "em_errors (emit_line em0 (n, st)) = []"
    using emit_inv(2) [OF e, folded em_def] by (auto simp: extends_def)
  obtain c fx where c: "emitStatement (length (em_program em0)) n st = Inr (c, fx)" "em_program (emit_line em0 (n, st)) = em_program em0 @ c"
    using emit_line_code [OF later(2)] by blast
  have "length (em_program em0) + length c < length (comp_program r)"
  proof (cases "explicitEnd em")
    case False
    then have "length (comp_program r) = length (em_program em) + 1"
      using e by (auto simp: emit_def Let_def simp flip: em_def dest!: sym [of _ "comp_program r"] split: if_splits)
    then show ?thesis by (simp add: later(1) c(2))
  next
    case True
    then obtain l where l: "l \<in> set parsed" "snd l = EndStmt"
      using explicit_end [of fresh_emitter parsed] by (auto simp: em_def fresh_emitter_def)
    have p: "parsed = butlast parsed @ [(fst l, EndStmt)]" using assms(2) l unfolding parsed_def by (rule end_last_line)
    then have ne: "behind \<noteq> []" using assms(3,4) by (cases behind) (auto simp: parsed_def)
    then have "parsed = (before @ (n, st) # butlast behind) @ [(fst l, EndStmt)]" using p by (simp add: parsed_def assms(3) butlast_append)
    note fin = emit_last_end [OF this]
    have "extends (emit_line em0 (n, st)) (foldl emit_line fresh_emitter (before @ (n, st) # butlast behind))"
      using emit_lines_extend [of "butlast behind" "emit_line em0 (n, st)"] st
      by (auto simp: em0_def parsed_def assms(3) dest: in_set_butlastD)
    then have "length (em_program em0) + length c < length (em_program em)"
      using fin c(2) by (auto simp: extends_def em_def)
    moreover have "length (em_program em) \<le> length (comp_program r)" using emit_inv(1) [OF e] by (auto simp: em_def)
    ultimately show ?thesis by simp
  qed
  then show ?thesis using c(1) by (auto simp: em0_def)
qed

lemma line_address_at:
  "n \<notin> fst ` set behind \<Longrightarrow> line_address (before @ (n, st) # behind) n = Some (length (em_program (foldl emit_line fresh_emitter before)))"
proof -
  let ?em = "foldl emit_line fresh_emitter before"
  have "map_of (lineToInstructionIndex (emit_line ?em (n, st))) n = Some (length (em_program ?em))"
    by (cases "emitStatement (length (em_program ?em)) n st") (auto simp: emit_line_def)
  then show "n \<notin> fst ` set behind \<Longrightarrow> ?thesis" by (simp add: line_address_def later_lines_index)
qed

text \<open>A machine that has the compiled program loaded and stands at the address of a line.\<close>

definition at_line :: "(int \<times> string) list \<Rightarrow> BasicCompileResult \<Rightarrow> int \<Rightarrow> Stmt \<Rightarrow> Env \<Rightarrow> Runtime \<Rightarrow> bool" where
  "at_line ls r n st env s \<longleftrightarrow>
     compile ls = Inr r \<and> length (comp_program r) < 2 ^ 31 \<and> end_last (parsed_lines (parse_lines ls)) \<and>
     (\<exists>before behind. parsed_lines (parse_lines ls) = before @ (n, st) # behind \<and> n \<notin> fst ` set behind) \<and>
     code s = comp_program r \<and> line_address (parsed_lines (parse_lines ls)) n = Some (ip s) \<and>
     length (stack s) + length (code s) < 2 ^ 31 \<and> basic_env env \<and> \<not> interrupted s"

lemma at_line_code:
  assumes "at_line ls r n st env s" "st \<noteq> EndStmt"
  shows "\<exists>c fx. emitStatement (ip s) n st = Inr (c, fx) \<and> ip s + length c < length (code s) \<and>
    (\<forall>i < length c. ip s + i \<notin> instructionIndex ` set fx \<longrightarrow> code s ! (ip s + i) = c ! i) \<and>
    (\<forall>f \<in> set fx. \<exists>a. line_address (parsed_lines (parse_lines ls)) (targetLine f) = Some a \<and>
       code s ! instructionIndex f = (c ! (instructionIndex f - ip s))\<lparr>operand := IntV (int a)\<rparr>)"
proof -
  obtain before behind where p: "parsed_lines (parse_lines ls) = before @ (n, st) # behind" "n \<notin> fst ` set behind"
    using assms(1) by (auto simp: at_line_def)
  let ?k = "length (em_program (foldl emit_line fresh_emitter before))"
  have a: "compile ls = Inr r" "length (comp_program r) < 2 ^ 31" "end_last (parsed_lines (parse_lines ls))" "code s = comp_program r"
    using assms(1) by (simp_all add: at_line_def)
  have k: "line_address (parsed_lines (parse_lines ls)) n = Some ?k" using line_address_at [OF p(2)] p(1) by simp
  then have "ip s = ?k" using assms(1) by (simp add: at_line_def)
  then show ?thesis
    using line_layout [OF a(1,2) p] compiled_line_inside [OF a(1,3) p(1) assms(2)] k unfolding a(4) by fastforce
qed

lemma jump_runs:
  assumes "code s ! ip s = ins" "instr_op ins = Jump" "operand ins = IntV (int a)" "ip s < length (code s)" "a < length (code s)" "a < 2 ^ 31" "\<not> interrupted s"
  shows "vm_next env s (s\<lparr>ip := a\<rparr>)"
proof -
  have "exec env ins s = (Inr Leave, s\<lparr>ip := a\<rparr>)"
    using assms(2,3,6) by (simp add: exec_def op_jump_def intOperand_def intOperandAtIp_def jump_to_def size_t_of_int_id run_simps)
  then show ?thesis using step_leave [of s env "s\<lparr>ip := a\<rparr>"] assms by (simp add: vm_next_def)
qed

definition branch_result :: "Env \<Rightarrow> Runtime \<Rightarrow> Expr \<Rightarrow> nat \<Rightarrow> nat \<Rightarrow> Runtime result" where
  "branch_result env s e onFalse onTrue = (case eval_expr env s e (engine s) of
     (Inl err, g) \<Rightarrow> Inl err
   | (Inr v, g) \<Rightarrow> (case v of
       IntV i \<Rightarrow> Inr (s\<lparr>engine := g, ip := (if i = 0 then onFalse else onTrue)\<rparr>)
     | _ \<Rightarrow> Inl (RuntimeError (opCodeName JumpIfZero @ '': expected int on stack''))))"

lemma exec_jump_if_zero:
  "t < 2 ^ 31 \<Longrightarrow> stack s = v # st \<Longrightarrow> exec env (mkInstr JumpIfZero (ip_operand t)) s = (case v of
     IntV i \<Rightarrow> (if i = 0 then (Inr Leave, s\<lparr>stack := st, ip := t\<rparr>) else (Inr Break, s\<lparr>stack := st\<rparr>))
   | _ \<Rightarrow> (Inl (RuntimeError (opCodeName JumpIfZero @ '': expected int on stack'')), s\<lparr>stack := st\<rparr>))"
  by (simp add: exec_def mkInstr_def op_jump_if_zero_def intOperand_def intOperandAtIp_def jump_to_def size_t_of_int_id run_simps
      popInt_def intFromStackValue_def ip_operand_id split: Value.split)

lemma branch_runs:
  assumes "expr_code ctx e = Inr c" "code_at s (ip s) (c @ [mkInstr JumpIfZero (ip_operand t)])"
    and "length (stack s) + length c < 2 ^ 31" "basic_env env" "\<not> interrupted s" "t < length (code s)" "t < 2 ^ 31"
  shows "runs_to env s (branch_result env s e t (ip s + length c + 1))"
proof -
  let ?jz = "mkInstr JumpIfZero (ip_operand t)"
  have at: "code_at s (ip s) c" "code_at s (ip s + length c) [?jz]" using assms(2) by (simp_all only: code_at_append)
  have "runs_to env s (after_expr env s e (length c) (\<lambda>u v. case v of
       IntV i \<Rightarrow> Inr (s\<lparr>engine := engine u, ip := (if i = 0 then t else ip s + length c + 1)\<rparr>)
     | _ \<Rightarrow> Inl (RuntimeError (opCodeName JumpIfZero @ '': expected int on stack''))))"
  proof (rule after_expr_runs [OF assms(1) at(1) assms(3-5)])
    fix v g
    let ?u = "s\<lparr>stack := v # stack s, ip := ip s + length c, engine := g\<rparr>"
    have here: "code_at ?u (ip ?u) [?jz]" using at(2) by (simp add: code_at_def)
    have ex: "exec env ?jz ?u = (case v of
        IntV i \<Rightarrow> (if i = 0 then (Inr Leave, ?u\<lparr>stack := stack s, ip := t\<rparr>) else (Inr Break, ?u\<lparr>stack := stack s\<rparr>))
      | _ \<Rightarrow> (Inl (RuntimeError (opCodeName JumpIfZero @ '': expected int on stack'')), ?u\<lparr>stack := stack s\<rparr>))"
      using exec_jump_if_zero [of t ?u v "stack s"] assms(7) by simp
    have st: "?u\<lparr>stack := stack s, ip := j\<rparr> = s\<lparr>engine := g, ip := j\<rparr>" for j by (cases s) simp
    show "runs_to env ?u (case v of
       IntV i \<Rightarrow> Inr (s\<lparr>engine := engine (s\<lparr>ip := ip s + length c, engine := g\<rparr>), ip := (if i = 0 then t else ip s + length c + 1)\<rparr>)
     | _ \<Rightarrow> Inl (RuntimeError (opCodeName JumpIfZero @ '': expected int on stack'')))"
    proof (cases v)
      case (IntV i)
      show ?thesis
      proof (cases "i = 0")
        case True
        then have "vm_next env ?u (s\<lparr>engine := g, ip := t\<rparr>)"
          using step_leave [of ?u env "s\<lparr>engine := g, ip := t\<rparr>"] here ex IntV st [of t] assms(5,6) by (simp add: vm_next_def code_at_single)
        then show ?thesis using IntV True by (simp add: runs_to_def r_into_rtranclp)
      next
        case False
        then have "vm_next env ?u (s\<lparr>engine := g, ip := ip s + length c + 1\<rparr>)"
          using next_break [OF _ here, of env "?u\<lparr>stack := stack s\<rparr>"] ex IntV st [of "ip s + length c + 1"] assms(5) by simp
        then show ?thesis using IntV False by (simp add: runs_to_def r_into_rtranclp)
      qed
    qed (use error_here [OF _ here] ex in simp_all)
  qed
  then show ?thesis by (auto simp: after_expr_def branch_result_def split: prod.splits sum.splits Value.splits if_splits)
qed

lemma line_inside: "at_line ls r n st env s \<Longrightarrow> st \<noteq> EndStmt \<Longrightarrow> emitStatement (ip s) n st = Inr (c, []) \<Longrightarrow> code_at s (ip s) c"
  using at_line_code [of ls r n st env s] by (auto simp: code_at_def)

lemma fixup_target:
  assumes "at_line ls r n st env s" "ins \<in> set (code s)" "instr_op ins = Jump" "operand ins = IntV (int a)"
  shows "a < length (code s)" "a < 2 ^ 31"
proof -
  have "program_ok (code s)" "length (code s) < 2 ^ 31" using assms(1) compiled_ok(1) [of ls r] by (auto simp: at_line_def)
  then show "a < length (code s)" using assms(2-4) by (auto simp: program_ok_def targets_ok_def is_control_def)
  then show "a < 2 ^ 31" using \<open>length (code s) < 2 ^ 31\<close> by simp
qed

lemma goto_runs:
  assumes "at_line ls r n (GotoStmt t) env s"
  shows "\<exists>a. line_address (parsed_lines (parse_lines ls)) t = Some a \<and> runs_to env s (Inr (s\<lparr>ip := a\<rparr>))"
proof -
  obtain a where a: "line_address (parsed_lines (parse_lines ls)) t = Some a" "code s ! ip s = mkInstr Jump (IntV (int a))"
      "ip s < length (code s)"
    using at_line_code [OF assms] by (auto simp: emitStatement_def line_jump_def mkInstr_def)
  have "a < length (code s)" "a < 2 ^ 31"
    using fixup_target [OF assms, of "code s ! ip s" a] nth_mem [OF a(3)] a(2) by (simp_all add: mkInstr_def)
  then have "vm_next env s (s\<lparr>ip := a\<rparr>)"
    using jump_runs [OF a(2) _ _ a(3)] assms by (simp add: mkInstr_def at_line_def)
  then show ?thesis using a(1) by (auto simp: runs_to_def)
qed

lemma if_goto_runs:
  assumes "at_line ls r n (IfStmt e (BranchArm (Some t) None) None) env s"
  shows "\<exists>a c fx. line_address (parsed_lines (parse_lines ls)) t = Some a \<and>
    emitStatement (ip s) n (IfStmt e (BranchArm (Some t) None) None) = Inr (c, fx) \<and> runs_to env s (branch_result env s e (ip s + length c) a)"
proof -
  obtain c fx where c: "emitStatement (ip s) n (IfStmt e (BranchArm (Some t) None) None) = Inr (c, fx)" "ip s + length c < length (code s)"
      "\<forall>i < length c. ip s + i \<notin> instructionIndex ` set fx \<longrightarrow> code s ! (ip s + i) = c ! i"
      "\<forall>f \<in> set fx. \<exists>a. line_address (parsed_lines (parse_lines ls)) (targetLine f) = Some a \<and>
         code s ! instructionIndex f = (c ! (instructionIndex f - ip s))\<lparr>operand := IntV (int a)\<rparr>"
    using at_line_code [OF assms] by auto
  obtain cc where cc: "expr_code ''IF condition error'' e = Inr cc"
      "c = cc @ [mkInstr JumpIfZero (ip_operand (ip s + length c)), mkInstr Jump (IntV 0)]"
      "fx = [\<lparr>fix_sourceLine = n, instructionIndex = ip s + length cc + 1, targetLine = t\<rparr>]"
    using c(1) by (auto simp: emitStatement_def emit_if_def line_jump_def Let_def bindE_eq_Inr_iff)
  have len: "length c = length cc + 2" by (subst cc(2)) simp
  let ?jz = "mkInstr JumpIfZero (ip_operand (ip s + length c))"
  have nth: "c ! (length cc + 1) = mkInstr Jump (IntV 0)" "i < length (cc @ [?jz]) \<Longrightarrow> c ! i = (cc @ [?jz]) ! i" for i
    by (subst cc(2), simp add: nth_append)+
  obtain a where a: "line_address (parsed_lines (parse_lines ls)) t = Some a" "code s ! (ip s + length cc + 1) = mkInstr Jump (IntV (int a))"
    using c(4) cc(3) nth(1) by (auto simp: mkInstr_def)
  have at: "code_at s (ip s) (cc @ [?jz])"
    using c(2,3) cc(3) nth(2) len by (auto simp: code_at_def)
  have in_code: "ip s + length cc + 1 < length (code s)" using c(2) len by simp
  have t: "a < length (code s)" "a < 2 ^ 31"
    using fixup_target [OF assms, of "code s ! (ip s + length cc + 1)" a] nth_mem [OF in_code] a(2) by (simp_all add: mkInstr_def)
  have m: "length (stack s) + length (code s) < 2 ^ 31" "basic_env env" "\<not> interrupted s" using assms unfolding at_line_def by blast+
  have b: "runs_to env s (branch_result env s e (ip s + length c) (ip s + length cc + 1))"
    by (rule branch_runs [OF cc(1) at _ m(2,3) c(2)]) (use m(1) in_code c(2) in simp_all)
  have j: "vm_next env (s\<lparr>engine := g, ip := ip s + length cc + 1\<rparr>) (s\<lparr>engine := g, ip := a\<rparr>)" for g
    using jump_runs [of "s\<lparr>engine := g, ip := ip s + length cc + 1\<rparr>" "mkInstr Jump (IntV (int a))" a env] a(2) in_code t m(3) by (simp add: mkInstr_def)
  have "runs_to env s (branch_result env s e (ip s + length c) a)"
    using b j by (auto simp: branch_result_def runs_to_def split: prod.splits sum.splits Value.splits if_splits intro: rtranclp.rtrancl_into_rtrancl)
  then show ?thesis using a(1) c(1) by blast
qed

text \<open>
  C24.  Lines of a compiled program do what they say.  With the program loaded and the machine at the address of a line: an assignment
  stores the value of its expression, a \<open>PRINT\<close> prints it, each going on behind its code; \<open>GOTO\<close> goes to the address of the line it
  names, and \<open>IF ... THEN\<close> a line goes there exactly when the condition is an integer other than zero.  Errors are those of the evaluation.
\<close>

theorem compiled_lines_run:
  assumes "at_line ls r n st env s"
  shows "(\<forall>nm e. st = LetStmt nm e \<longrightarrow> (\<exists>c. emitStatement (ip s) n st = Inr (c, []) \<and> runs_to env s (let_result env s nm e (length c)))) \<and>
    (\<forall>e b. st = PrintStmt e b \<longrightarrow> (\<exists>c. emitStatement (ip s) n st = Inr (c, []) \<and> runs_to env s (print_result env s e b (length c)))) \<and>
    (\<forall>t. st = GotoStmt t \<longrightarrow> (\<exists>a. line_address (parsed_lines (parse_lines ls)) t = Some a \<and> runs_to env s (Inr (s\<lparr>ip := a\<rparr>)))) \<and>
    (\<forall>e t. st = IfStmt e (BranchArm (Some t) None) None \<longrightarrow> (\<exists>a c fx. line_address (parsed_lines (parse_lines ls)) t = Some a \<and>
       emitStatement (ip s) n st = Inr (c, fx) \<and> runs_to env s (branch_result env s e (ip s + length c) a)))"
proof (intro conjI allI impI)
  have m: "length (stack s) + length (code s) < 2 ^ 31" "basic_env env" "\<not> interrupted s" using assms unfolding at_line_def by blast+
  {
    fix nm e assume st: "st = LetStmt nm e"
    obtain c where c: "emit_let nm e = Inr (c, [])"
      using at_line_code [OF assms] st by (auto simp: emitStatement_def emit_let_def bindE_eq_Inr_iff)
    then have e: "emitStatement (ip s) n st = Inr (c, [])" by (simp add: st emitStatement_def)
    have at: "code_at s (ip s) c" using line_inside [OF assms _ e] st by simp
    then have "length (stack s) + length c < 2 ^ 31" using m(1) by (simp add: code_at_def)
    then show "\<exists>c. emitStatement (ip s) n st = Inr (c, []) \<and> runs_to env s (let_result env s nm e (length c))"
      using e emit_let_runs [OF c at _ m(2,3)] by blast
  next
    fix e b assume st: "st = PrintStmt e b"
    obtain c where c: "emit_print e b = Inr (c, [])"
      using at_line_code [OF assms] st by (auto simp: emitStatement_def emit_print_def bindE_eq_Inr_iff)
    then have e: "emitStatement (ip s) n st = Inr (c, [])" by (simp add: st emitStatement_def)
    have at: "code_at s (ip s) c" using line_inside [OF assms _ e] st by simp
    then have "length (stack s) + length c < 2 ^ 31" using m(1) by (simp add: code_at_def)
    then show "\<exists>c. emitStatement (ip s) n st = Inr (c, []) \<and> runs_to env s (print_result env s e b (length c))"
      using e emit_print_runs [OF c at _ m(2,3)] by blast
  }
qed (use assms goto_runs if_goto_runs in blast)+

definition loaded_sample :: Runtime where
  "loaded_sample = loadProgram sample_code [10, 10, 20, 20, 20, 20, 20, 20, 20, 20, 30] sample_runtime"

theorem compiled_lines_run_witness:
  "(\<exists>c. emitStatement 0 10 (LetStmt ''A'' (IntLiteralExpr 1)) = Inr (c, []) \<and>
     runs_to sample_env loaded_sample (let_result sample_env loaded_sample ''A'' (IntLiteralExpr 1) (length c))) \<and>
   let_result sample_env loaded_sample ''A'' (IntLiteralExpr 1) 2 =
     Inr (loaded_sample\<lparr>engine := engine loaded_sample, ip := 2, variables := (variables loaded_sample)(''A'' \<mapsto> IntV 1)\<rparr>)"
proof -
  let ?r = "\<lparr>comp_program = sample_code, comp_sourceLines = [10, 10, 20, 20, 20, 20, 20, 20, 20, 20, 30], instructionCount = 11, labelCount = 0\<rparr>"
  have s: "code loaded_sample = sample_code" "ip loaded_sample = 0" "stack loaded_sample = []" "\<not> interrupted loaded_sample"
    by (simp_all add: loaded_sample_def loadProgram_def Let_def)
  have "\<exists>before behind. parsed_lines (parse_lines sample_lines) = before @ (10, LetStmt ''A'' (IntLiteralExpr 1)) # behind \<and> 10 \<notin> fst ` set behind"
    unfolding sample_parsed by (rule exI [of _ "[]"]) simp
  moreover have "end_last (parsed_lines (parse_lines sample_lines))" by code_simp
  moreover have "line_address (parsed_lines (parse_lines sample_lines)) 10 = Some 0" by code_simp
  ultimately have "at_line sample_lines ?r 10 (LetStmt ''A'' (IntLiteralExpr 1)) sample_env loaded_sample"
    using sample_compiles sample_basic_env by (simp add: at_line_def s sample_code_def)
  from compiled_lines_run [OF this] show ?thesis
    by (simp add: s let_result_def assigned_def isIntVar_def store_result_def uppercase_def isReadOnlySystemVariableName_def toupper_def code_of_def)
qed

end
