(* ===== verification/Voc.thy ===== *)
theory Voc
  imports File_System
begin

text \<open>
  The vocabulary (\<open>VocResolver.cpp\<close>): the records of the file \<open>VOC\<close>, read once into a table, tell in which file a
  program or a PROC script is stored and which verb a command word stands for.  A \<open>Q\<close> entry points to another entry.  The
  resolver is shown to follow such chains exactly: a name resolves to the file at the end of its chain, and a cycle resolves to nothing.
\<close>

section \<open>Entries\<close>

datatype EntryType = VocF | VocQ | VocV | VocD | VocA | VocX

record VocEntry =
  entry_type :: EntryType
  attribute2 :: string
  attribute3 :: string

record VocResolver =
  voc_table :: "(string \<times> VocEntry) list"
  voc_loaded :: bool

record ProgramLocation =
  loc_file :: string
  loc_key :: string

text \<open>\<open>12 text\<close> is \<open>text\<close>: a number and the blanks behind it are cut off.\<close>

definition stripAttributeLinePrefix :: "string \<Rightarrow> string" where
  "stripAttributeLinePrefix line =
     (let rest = dropWhile isdigit line
      in if length rest < length line \<and> rest \<noteq> [] \<and> isspace (hd rest) then dropWhile isspace rest else line)"

definition parseAttributes :: "string \<Rightarrow> string list" where
  "parseAttributes value =
     map stripAttributeLinePrefix (getlines LF value) @ (if value \<noteq> [] \<and> last value = LF then [[]] else [])"

text \<open>\<open>F\<close>, \<open>Q\<close>, \<open>D\<close> and \<open>A\<close> entries need their second attribute.\<close>

definition attr_or_empty :: "string list \<Rightarrow> nat \<Rightarrow> string" where
  "attr_or_empty attrs i = (if i < length attrs then attrs ! i else [])"

definition needing_target :: "EntryType \<Rightarrow> string list \<Rightarrow> VocEntry option" where
  "needing_target t attrs =
     (if attr_or_empty attrs 1 = [] then None
      else Some \<lparr>entry_type = t, attribute2 = attrs ! 1, attribute3 = attr_or_empty attrs 2\<rparr>)"

definition parseVocEntry :: "string \<Rightarrow> VocEntry option" where
  "parseVocEntry value =
     (case parseAttributes value of
        [] \<Rightarrow> None
      | a # as \<Rightarrow>
          let attrs = a # as; ty = upperCopy a;
              plain = (\<lambda>t. Some \<lparr>entry_type = t, attribute2 = attr_or_empty attrs 1, attribute3 = attr_or_empty attrs 2\<rparr>)
          in if ty = ''F'' then needing_target VocF attrs
             else if ty = ''Q'' then needing_target VocQ attrs
             else if ty = ''V'' then plain VocV
             else if ty = ''D'' then needing_target VocD attrs
             else if ty = ''A'' then needing_target VocA attrs
             else if ty = ''X'' then plain VocX
             else None)"

section \<open>The table\<close>

definition invalidate :: "VocResolver \<Rightarrow> VocResolver" where
  "invalidate v = v\<lparr>voc_table := [], voc_loaded := False\<rparr>"

text \<open>
  The records in turn.  A record that cannot be read (another session has it locked) ends the load with its error: the entries read so
  far stay in the table, which is not marked as loaded.
\<close>

fun load_entries :: "host \<Rightarrow> FileSystem \<Rightarrow> world \<Rightarrow> FileHandle \<Rightarrow> string list \<Rightarrow> (VocResolver, unit) action" where
  "load_entries h fs w fh [] = retS ()"
| "load_entries h fs w fh (r # rs) =
     bindS (liftS (readRecord h fs w fh r)) (\<lambda>record.
       case record of
         None \<Rightarrow> load_entries h fs w fh rs
       | Some rec \<Rightarrow>
           (case parseVocEntry (recValue rec) of
              None \<Rightarrow> load_entries h fs w fh rs
            | Some entry \<Rightarrow>
                bindS (updS (\<lambda>v. v\<lparr>voc_table := map_put (upperCopy r) entry (voc_table v)\<rparr>)) (\<lambda>_. load_entries h fs w fh rs)))"

definition loadVocTable :: "host \<Rightarrow> FileSystem \<Rightarrow> world \<Rightarrow> (VocResolver, unit) action" where
  "loadVocTable h fs w =
     bindS (updS (\<lambda>v. v\<lparr>voc_table := []\<rparr>)) (\<lambda>_.
       case openFile h fs w ''VOC'' of
         Inl (FileSystemError _) \<Rightarrow> retS ()
       | Inl e \<Rightarrow> throwS e
       | Inr vocFile \<Rightarrow> load_entries h fs w vocFile (listRecords h w vocFile))"

definition ensureLoaded :: "host \<Rightarrow> FileSystem \<Rightarrow> world \<Rightarrow> (VocResolver, unit) action" where
  "ensureLoaded h fs w =
     bindS (getS voc_loaded) (\<lambda>loaded.
       if loaded then retS ()
       else bindS (loadVocTable h fs w) (\<lambda>_. updS (\<lambda>v. v\<lparr>voc_loaded := True\<rparr>)))"

section \<open>Files\<close>

text \<open>The entries not visited yet decrease with every \<open>Q\<close> entry followed.\<close>

function resolveFileFromVocKey :: "(string \<times> VocEntry) list \<Rightarrow> string \<Rightarrow> string list \<Rightarrow> string option" where
  "resolveFileFromVocKey table vocKey visited =
     (let normalized = upperCopy vocKey
      in if normalized \<in> set visited then None
         else case map_of table normalized of
                None \<Rightarrow> None
              | Some entry \<Rightarrow>
                  if entry_type entry \<in> {VocF, VocD, VocA}
                  then (if attribute2 entry = [] then None else Some (attribute2 entry))
                  else if entry_type entry = VocQ
                  then (if attribute2 entry = [] then None
                        else resolveFileFromVocKey table (attribute2 entry) (normalized # visited))
                  else None)"
  by pat_completeness auto
termination
proof (relation "measure (\<lambda>(table, _, visited). card (fst ` set table - set visited))")
  fix table :: "(string \<times> VocEntry) list" and vocKey visited x entry
  assume a: "x = upperCopy vocKey" "x \<notin> set visited" "map_of table x = Some entry"
  then have "x \<in> fst ` set table" by (metis domI dom_map_of_conv_image_fst)
  with a have "card (fst ` set table - set (x # visited)) < card (fst ` set table - set visited)"
    by (intro psubset_card_mono) auto
  then show "((table, attribute2 entry, x # visited), table, vocKey, visited)
      \<in> measure (\<lambda>(table, _, visited). card (fst ` set table - set visited))" by simp
qed simp

declare resolveFileFromVocKey.simps [simp del]

definition resolve_location :: "string \<Rightarrow> host \<Rightarrow> FileSystem \<Rightarrow> world \<Rightarrow> string \<Rightarrow> (VocResolver, ProgramLocation) action" where
  "resolve_location dflt h fs w nm =
     bindS (ensureLoaded h fs w) (\<lambda>_. getS (\<lambda>v.
       \<lparr>loc_file = (case resolveFileFromVocKey (voc_table v) nm [] of None \<Rightarrow> dflt | Some f \<Rightarrow> f), loc_key = nm\<rparr>))"

definition resolveProgramLocation :: "host \<Rightarrow> FileSystem \<Rightarrow> world \<Rightarrow> string \<Rightarrow> (VocResolver, ProgramLocation) action" where
  "resolveProgramLocation = resolve_location ''BP''"

definition resolveProcScriptLocation :: "host \<Rightarrow> FileSystem \<Rightarrow> world \<Rightarrow> string \<Rightarrow> (VocResolver, ProgramLocation) action" where
  "resolveProcScriptLocation = resolve_location ''PROC''"

text \<open>The set of files is returned in ascending order.\<close>

definition program_file_of :: "(string \<times> VocEntry) list \<Rightarrow> string \<times> VocEntry \<Rightarrow> string list" where
  "program_file_of table ke =
     (if entry_type (snd ke) \<in> {VocF, VocD, VocA} then (if attribute2 (snd ke) = [] then [] else [attribute2 (snd ke)])
      else if entry_type (snd ke) = VocQ then (case resolveFileFromVocKey table (fst ke) [] of None \<Rightarrow> [] | Some f \<Rightarrow> [f])
      else [])"

definition listProgramFiles :: "host \<Rightarrow> FileSystem \<Rightarrow> world \<Rightarrow> (VocResolver, string list) action" where
  "listProgramFiles h fs w =
     bindS (ensureLoaded h fs w) (\<lambda>_. getS (\<lambda>v.
       sort (remdups (''BP'' # concat (map (program_file_of (voc_table v)) (voc_table v))))))"

section \<open>Verbs\<close>

text \<open>At most 64 entries are followed; \<open>Q\<close> entries move on without naming a verb.\<close>

fun verb_loop :: "(string \<times> VocEntry) list \<Rightarrow> nat \<Rightarrow> string \<Rightarrow> string \<Rightarrow> string list \<Rightarrow> string" where
  "verb_loop table 0 nextKey resolved visited = resolved"
| "verb_loop table (Suc hops) nextKey resolved visited =
     (if nextKey \<in> set visited then resolved
      else case map_of table nextKey of
             None \<Rightarrow> resolved
           | Some entry \<Rightarrow>
               if entry_type entry = VocQ
               then (if attribute2 entry = [] then resolved
                     else verb_loop table hops (upperCopy (attribute2 entry)) resolved (nextKey # visited))
               else if entry_type entry \<in> {VocV, VocX}
               then (if attribute2 entry = [] then resolved
                     else verb_loop table hops (upperCopy (attribute2 entry)) (attribute2 entry) (nextKey # visited))
               else resolved)"

definition resolveVerbName :: "host \<Rightarrow> FileSystem \<Rightarrow> world \<Rightarrow> string \<Rightarrow> (VocResolver, string) action" where
  "resolveVerbName h fs w token =
     bindS (ensureLoaded h fs w) (\<lambda>_. getS (\<lambda>v. verb_loop (voc_table v) 64 (upperCopy token) token []))"

section \<open>Chains of entries\<close>

text \<open>What the vocabulary says: a name stands for the file at the end of its chain of \<open>Q\<close> entries.\<close>

inductive names_file :: "(string \<times> VocEntry) list \<Rightarrow> nat \<Rightarrow> string \<Rightarrow> string \<Rightarrow> bool" for table where
  file_entry: "map_of table (upperCopy k) = Some e \<Longrightarrow> entry_type e \<in> {VocF, VocD, VocA} \<Longrightarrow> attribute2 e = f \<Longrightarrow> f \<noteq> [] \<Longrightarrow>
    names_file table 0 k f"
| q_entry: "map_of table (upperCopy k) = Some e \<Longrightarrow> entry_type e = VocQ \<Longrightarrow> attribute2 e \<noteq> [] \<Longrightarrow> names_file table n (attribute2 e) f \<Longrightarrow>
    names_file table (Suc n) k f"

inductive_cases names_fileE: "names_file table n k f"

lemma names_file_unique:
  "names_file table n k f \<Longrightarrow> upperCopy k = upperCopy k' \<Longrightarrow> names_file table n' k' f' \<Longrightarrow> n' = n \<and> f' = f"
proof (induction arbitrary: k' n' f' rule: names_file.induct)
  case (file_entry k e f)
  then show ?case by (auto elim: names_fileE)
next
  case (q_entry k e n f)
  have e: "map_of table (upperCopy k') = Some e" using q_entry.hyps(1) q_entry.prems(1) by simp
  with q_entry.hyps(2) obtain m where m: "n' = Suc m" "names_file table m (attribute2 e) f'"
    by (rule_tac names_fileE [OF q_entry.prems(2)]) simp_all
  from q_entry.IH [OF refl m(2)] m(1) show ?case by simp
qed

lemma resolve_sound: "resolveFileFromVocKey table k visited = Some f \<Longrightarrow> \<exists>n. names_file table n k f"
proof (induction table k visited rule: resolveFileFromVocKey.induct)
  case (1 table k visited)
  note eq = 1(2) [unfolded resolveFileFromVocKey.simps [of table k visited] Let_def]
  then obtain e where e: "upperCopy k \<notin> set visited" "map_of table (upperCopy k) = Some e"
    by (auto split: if_splits option.splits)
  show ?case
  proof (cases "entry_type e = VocQ")
    case True
    then have q: "attribute2 e \<noteq> []" "resolveFileFromVocKey table (attribute2 e) (upperCopy k # visited) = Some f"
      using eq e by (auto split: if_splits)
    then obtain n where "names_file table n (attribute2 e) f" using 1(1) [OF refl e] True by auto
    then show ?thesis using names_file.q_entry [of table k e n f] e True q by blast
  next
    case False
    then have "entry_type e \<in> {VocF, VocD, VocA}" "attribute2 e = f" "f \<noteq> []" using eq e by (auto split: if_splits)
    then show ?thesis using names_file.file_entry e by blast
  qed
qed

lemma resolve_complete:
  "names_file table n k f \<Longrightarrow> \<forall>v \<in> set visited. upperCopy v = v \<and> (\<forall>m \<le> n. \<forall>g. \<not> names_file table m v g) \<Longrightarrow>
    resolveFileFromVocKey table k visited = Some f"
proof (induction arbitrary: visited rule: names_file.induct)
  case (file_entry k e f)
  have "upperCopy k \<notin> set visited"
    using file_entry names_file.file_entry [of table "upperCopy k" e f] by auto
  then show ?case using file_entry by (subst resolveFileFromVocKey.simps) (auto simp: Let_def)
next
  case (q_entry k e n f)
  have k: "names_file table (Suc n) (upperCopy k) f" using q_entry names_file.q_entry [of table "upperCopy k" e n f] by simp
  then have "upperCopy k \<notin> set visited" using q_entry.prems by blast
  moreover have "resolveFileFromVocKey table (attribute2 e) (upperCopy k # visited) = Some f"
    using q_entry.prems names_file_unique [OF k refl] by (intro q_entry.IH) fastforce
  ultimately show ?case using q_entry(1-3) by (subst resolveFileFromVocKey.simps) (auto simp: Let_def)
qed

lemma resolve_names: "resolveFileFromVocKey table k [] = Some f \<longleftrightarrow> (\<exists>n. names_file table n k f)"
  using resolve_sound resolve_complete [of table _ k f "[]"] by auto

text \<open>
  Where a program is stored: with the vocabulary loaded, the file is the one at the end of the chain of \<open>Q\<close> entries that
  starts at the program's name; a name whose chain ends without a file, leaves the vocabulary or runs in a circle is stored in
  \<open>BP\<close>.  The search ends on every table.
\<close>

theorem program_location_follows_chain:
  assumes "ensureLoaded h fs w v = (Inr (), v')"
  shows "\<exists>f. resolveProgramLocation h fs w nm v = (Inr \<lparr>loc_file = f, loc_key = nm\<rparr>, v') \<and>
    ((\<exists>n. names_file (voc_table v') n nm f) \<or> (f = ''BP'' \<and> (\<forall>n g. \<not> names_file (voc_table v') n nm g)))"
proof (cases "resolveFileFromVocKey (voc_table v') nm []")
  case None
  then have "\<forall>n g. \<not> names_file (voc_table v') n nm g" using resolve_names [of "voc_table v'" nm] by auto
  then show ?thesis using assms None by (simp add: resolveProgramLocation_def resolve_location_def bindS_def)
next
  case (Some f)
  then show ?thesis using assms resolve_names [of "voc_table v'" nm f] by (simp add: resolveProgramLocation_def resolve_location_def bindS_def)
qed

text \<open>A vocabulary on disk: \<open>PAY\<close> leads to \<open>ACCOUNTS\<close> through \<open>MAIN\<close>.\<close>

definition voc_world :: world where
  "voc_world =
     \<lparr>disk = [([''db''], Dir), ([''db'', ''VOC''], Dir),
        ([''db'', ''VOC'', ''MAIN.item''], File (''F'' @ [LF] @ ''ACCOUNTS'')),
        ([''db'', ''VOC'', ''PAY.item''], File (''Q'' @ [LF] @ ''main''))],
      lock_table = [], now = 0\<rparr>"

definition voc_loaded_sample :: VocResolver where
  "voc_loaded_sample =
     \<lparr>voc_table = [(''MAIN'', \<lparr>entry_type = VocF, attribute2 = ''ACCOUNTS'', attribute3 = []\<rparr>),
        (''PAY'', \<lparr>entry_type = VocQ, attribute2 = ''main'', attribute3 = []\<rparr>)], voc_loaded = True\<rparr>"

lemma voc_sample_loads:
  "ensureLoaded good_host (sample_fs ''S1'') voc_world \<lparr>voc_table = [], voc_loaded = False\<rparr> = (Inr (), voc_loaded_sample)"
  by code_simp

theorem program_location_follows_chain_witness:
  "resolveProgramLocation good_host (sample_fs ''S1'') voc_world ''Pay'' \<lparr>voc_table = [], voc_loaded = False\<rparr> =
    (Inr \<lparr>loc_file = ''ACCOUNTS'', loc_key = ''Pay''\<rparr>, voc_loaded_sample)"
proof -
  have "names_file (voc_table voc_loaded_sample) 0 ''main'' ''ACCOUNTS''"
    by (rule names_file.file_entry [where e = "\<lparr>entry_type = VocF, attribute2 = ''ACCOUNTS'', attribute3 = []\<rparr>"]) code_simp+
  then have "names_file (voc_table voc_loaded_sample) 1 ''Pay'' ''ACCOUNTS''" unfolding One_nat_def
    by (intro names_file.q_entry [where e = "\<lparr>entry_type = VocQ, attribute2 = ''main'', attribute3 = []\<rparr>"]; (simp; fail | code_simp))
  then show ?thesis
    using program_location_follows_chain [OF voc_sample_loads, of "''Pay''"] names_file_unique [OF _ refl, of "voc_table voc_loaded_sample"] by blast
qed

end
