(* ===== verification/Basic_Shell.thy ===== *)
theory Basic_Shell
  imports Basic_Code Voc
begin

text \<open>
  The program buffer (\<open>BasicProgram.cpp\<close>) and the BASIC shell (\<open>BasicShell.cpp\<close>) with the record access the TCL shell gives it
  (\<open>readProgramRecord\<close>, \<open>writeProgramRecord\<close> of \<open>Shell.cpp\<close>).  The shell reaches its surroundings through callbacks: where a
  program is stored, reading and writing its record, running it, and the line editor; they are the record \<open>BasicCallbacks\<close>, acting on a
  world of any type.
\<close>

section \<open>The program buffer\<close>

record BasicProgram =
  prog_name :: "string option"
  prog_lines :: "(int \<times> string) list"

text \<open>Digits only, and an \<open>int\<close> above zero.\<close>

definition parseLineNumber :: "string \<Rightarrow> int option" where
  "parseLineNumber tok =
     (if tok = [] \<or> \<not> list_all isdigit tok then None
      else case stoi tok of Inl _ \<Rightarrow> None | Inr (n, _) \<Rightarrow> if 0 < n then Some n else None)"

definition joinTokens :: "string list \<Rightarrow> string" where
  "joinTokens tokens = join_with SP tokens"

text \<open>A target that is a line of the program gets its new number.\<close>

definition renamed :: "(int \<times> int) list \<Rightarrow> int \<Rightarrow> string \<Rightarrow> string" where
  "renamed lineMap target tok = (case map_of lineMap target of None \<Rightarrow> tok | Some n \<Rightarrow> show_int n)"

text \<open>The first \<open>THEN\<close> and the last \<open>ELSE\<close> behind the keyword.\<close>

definition then_pos :: "string list \<Rightarrow> nat option" where
  "then_pos tokens = find (\<lambda>i. uppercase (tokens ! i) = ''THEN'') [1..<length tokens]"

definition else_pos :: "string list \<Rightarrow> nat option" where
  "else_pos tokens = find (\<lambda>i. uppercase (tokens ! i) = ''ELSE'') (rev [1..<length tokens])"

definition rewriteRenumberTargets :: "string \<Rightarrow> (int \<times> int) list \<Rightarrow> string" where
  "rewriteRenumberTargets txt lineMap =
     (let tokens = words_of txt; op = uppercase (tokens ! 0)
      in if tokens = [] then txt
         else if op = ''GOTO'' \<and> length tokens = 2 then
           (case parseLineNumber (tokens ! 1) of
              None \<Rightarrow> txt
            | Some target \<Rightarrow> if map_of lineMap target = None then txt else joinTokens (tokens[1 := renamed lineMap target (tokens ! 1)]))
         else if op = ''IF'' then
           (case then_pos tokens of
              None \<Rightarrow> txt
            | Some t \<Rightarrow>
                if length tokens \<le> t + 1 then txt
                else case else_pos tokens of
                  None \<Rightarrow>
                    (if t + 2 \<noteq> length tokens then txt
                     else case parseLineNumber (tokens ! (t + 1)) of
                            None \<Rightarrow> txt
                          | Some target \<Rightarrow>
                              if map_of lineMap target = None then txt
                              else joinTokens (tokens[t + 1 := renamed lineMap target (tokens ! (t + 1))]))
                | Some e \<Rightarrow>
                    (if e \<noteq> t + 2 \<or> e + 1 \<noteq> length tokens - 1 then txt
                     else case (parseLineNumber (tokens ! (t + 1)), parseLineNumber (tokens ! (e + 1))) of
                            (Some thenTarget, Some elseTarget) \<Rightarrow>
                              joinTokens (tokens[t + 1 := renamed lineMap thenTarget (tokens ! (t + 1)),
                                                 e + 1 := renamed lineMap elseTarget (tokens ! (e + 1))])
                          | _ \<Rightarrow> txt))
         else txt)"

definition setName :: "string option \<Rightarrow> BasicProgram \<Rightarrow> BasicProgram" where
  "setName nm p = p\<lparr>prog_name := nm\<rparr>"

definition clearLines :: "BasicProgram \<Rightarrow> BasicProgram" where
  "clearLines p = p\<lparr>prog_lines := []\<rparr>"

definition setLine :: "int \<Rightarrow> string \<Rightarrow> BasicProgram \<Rightarrow> BasicProgram" where
  "setLine lineNumber text p = p\<lparr>prog_lines := omap_put lineNumber text (prog_lines p)\<rparr>"

definition hasLine :: "int \<Rightarrow> BasicProgram \<Rightarrow> bool" where
  "hasLine lineNumber p \<longleftrightarrow> map_of (prog_lines p) lineNumber \<noteq> None"

definition deleteLine :: "int \<Rightarrow> BasicProgram \<Rightarrow> BasicProgram" where
  "deleteLine lineNumber p = p\<lparr>prog_lines := filter (\<lambda>l. fst l \<noteq> lineNumber) (prog_lines p)\<rparr>"

definition deleteRange :: "int \<Rightarrow> int \<Rightarrow> BasicProgram \<Rightarrow> BasicProgram" where
  "deleteRange startLine endLine p =
     (if endLine < startLine then p
      else p\<lparr>prog_lines := filter (\<lambda>l. \<not> (startLine \<le> fst l \<and> fst l \<le> endLine)) (prog_lines p)\<rparr>)"

text \<open>The new numbers \<open>first, first + increment, ...\<close>, computed in an \<open>int\<close>.\<close>

definition new_numbers :: "int \<Rightarrow> int \<Rightarrow> nat \<Rightarrow> int list result" where
  "new_numbers first increment n = mapE (\<lambda>i. checked_int (first + increment * int i)) [0..<n]"

definition renumber :: "int \<Rightarrow> int \<Rightarrow> BasicProgram \<Rightarrow> BasicProgram result" where
  "renumber first increment p =
     bindE (new_numbers first increment (length (prog_lines p) + 1)) (\<lambda>ns.
       let lineMap = zip (map fst (prog_lines p)) ns
       in Inr (p\<lparr>prog_lines := foldl (\<lambda>m (n, t). omap_put n (rewriteRenumberTargets t lineMap) m) [] (zip ns (map snd (prog_lines p)))\<rparr>))"

definition line_text :: "int \<times> string \<Rightarrow> string" where
  "line_text l = show_int (fst l) @ (if snd l = [] then [] else SP # snd l) @ [LF]"

definition list_program :: "BasicProgram \<Rightarrow> string" where
  "list_program p = concat (map line_text (prog_lines p))"

section \<open>The BASIC shell\<close>

text \<open>
  The callbacks of the shell, each possibly absent.  \<open>writeRecordFn\<close> answers \<open>None\<close> for success and the error text
  otherwise.  Running a program and the line editor also write to the output.
\<close>

record 'w BasicCallbacks =
  resolveProgramLocationFn :: "(string \<Rightarrow> ('w, ProgramLocation) action) option"
  readRecordFn :: "(ProgramLocation \<Rightarrow> bool \<Rightarrow> ('w, string option) action) option"
  writeRecordFn :: "(ProgramLocation \<Rightarrow> bool \<Rightarrow> string \<Rightarrow> ('w, string option) action) option"
  executeProgramFn :: "(Instruction list \<Rightarrow> int list \<Rightarrow> BasicProgram \<Rightarrow> ('w \<times> string, unit) action) option"
  runLineRecordEditorFn :: "(ProgramLocation \<Rightarrow> nat option \<Rightarrow> ('w \<times> string, unit) action) option"

record 'w BasicShell =
  bs_active :: bool
  bs_program :: BasicProgram
  bs_out :: string
  bs_world :: 'w

definition out_text :: "string \<Rightarrow> ('w BasicShell, unit) action" where
  "out_text t = updS (\<lambda>s. s\<lparr>bs_out := bs_out s @ t\<rparr>)"

definition upd_program :: "(BasicProgram \<Rightarrow> BasicProgram) \<Rightarrow> ('w BasicShell, unit) action" where
  "upd_program f = updS (\<lambda>s. s\<lparr>bs_program := f (bs_program s)\<rparr>)"

definition in_world :: "('w, 'a) action \<Rightarrow> ('w BasicShell, 'a) action" where
  "in_world a s = (case a (bs_world s) of (r, w) \<Rightarrow> (r, s\<lparr>bs_world := w\<rparr>))"

definition with_output :: "('w \<times> string, 'a) action \<Rightarrow> ('w BasicShell, 'a) action" where
  "with_output a s = (case a (bs_world s, bs_out s) of (r, w, out) \<Rightarrow> (r, s\<lparr>bs_world := w, bs_out := out\<rparr>))"

definition named :: "BasicProgram \<Rightarrow> string option" where
  "named p = (case prog_name p of Some (c # cs) \<Rightarrow> Some (c # cs) | _ \<Rightarrow> None)"

definition parseDeleteRange :: "string \<Rightarrow> (int \<times> int) option" where
  "parseDeleteRange tok =
     (if CHR ''-'' \<notin> set tok then map_option (\<lambda>n. (n, n)) (parseLineNumber tok)
      else case (parseLineNumber (takeWhile (\<lambda>c. c \<noteq> CHR ''-'') tok), parseLineNumber (tl (dropWhile (\<lambda>c. c \<noteq> CHR ''-'') tok))) of
             (Some a, Some b) \<Rightarrow> if a \<le> b then Some (a, b) else None
           | _ \<Rightarrow> None)"

text \<open>The position of a line among the lines, from 1.\<close>

fun physical_row :: "int \<Rightarrow> (int \<times> string) list \<Rightarrow> nat \<Rightarrow> nat option" where
  "physical_row n [] row = None"
| "physical_row n (l # ls) row = (if fst l = n then Some (Suc row) else physical_row n ls (Suc row))"

definition physicalRowForBasicLine :: "int \<Rightarrow> BasicProgram \<Rightarrow> nat option" where
  "physicalRowForBasicLine n p = physical_row n (prog_lines p) 0"

section \<open>Loading and saving\<close>

text \<open>The lines that start with a number; the words are joined with one blank.\<close>

definition load_line :: "string \<Rightarrow> BasicProgram \<Rightarrow> BasicProgram" where
  "load_line line p =
     (case words_of line of
        [] \<Rightarrow> p
      | tok # tokens \<Rightarrow> (case parseLineNumber tok of None \<Rightarrow> p | Some n \<Rightarrow> setLine n (joinTokens tokens) p))"

definition load_source :: "string \<Rightarrow> BasicProgram \<Rightarrow> BasicProgram" where
  "load_source source p = fold load_line (getlines LF source) (clearLines p)"

definition loadProgramIfPresent :: "'w BasicCallbacks \<Rightarrow> ('w BasicShell, unit) action" where
  "loadProgramIfPresent cb =
     bindS (getS (named \<circ> bs_program)) (\<lambda>nm.
       case (nm, resolveProgramLocationFn cb, readRecordFn cb) of
         (Some name, Some resolve, Some read) \<Rightarrow>
           bindS (in_world (resolve name)) (\<lambda>location.
           bindS (in_world (read location False)) (\<lambda>source.
             case source of None \<Rightarrow> retS () | Some t \<Rightarrow> upd_program (load_source t)))
       | _ \<Rightarrow> retS ())"

text \<open>Writes a record for the program and reports a failure; the answer is success.\<close>

definition write_out :: "(string \<Rightarrow> ('w, ProgramLocation) action) \<Rightarrow> (ProgramLocation \<Rightarrow> bool \<Rightarrow> string \<Rightarrow> ('w, string option) action) \<Rightarrow>
    string \<Rightarrow> bool \<Rightarrow> string result \<Rightarrow> ('w BasicShell, bool) action" where
  "write_out resolve write name object content =
     bindS (in_world (resolve name)) (\<lambda>location.
     bindS (liftS content) (\<lambda>payload.
     bindS (in_world (write location object payload)) (\<lambda>failure.
       case failure of
         None \<Rightarrow> retS True
       | Some error \<Rightarrow> bindS (out_text (''Error: '' @ error @ [LF])) (\<lambda>_. retS False))))"

definition flushProgramSourceToDisk :: "'w BasicCallbacks \<Rightarrow> ('w BasicShell, bool) action" where
  "flushProgramSourceToDisk cb =
     bindS (getS bs_program) (\<lambda>p.
       case named p of
         None \<Rightarrow> bindS (out_text (''No program name'' @ [LF])) (\<lambda>_. retS False)
       | Some name \<Rightarrow>
           (case (resolveProgramLocationFn cb, writeRecordFn cb) of
              (Some resolve, Some write) \<Rightarrow> write_out resolve write name False (Inr (list_program p))
            | _ \<Rightarrow> bindS (out_text (''Error: BASIC storage not configured'' @ [LF])) (\<lambda>_. retS False)))"

definition saveObjectCode :: "'w BasicCallbacks \<Rightarrow> string \<Rightarrow> BasicCompileResult \<Rightarrow> ('w BasicShell, bool) action" where
  "saveObjectCode cb name r =
     (case (resolveProgramLocationFn cb, writeRecordFn cb) of
        (Some resolve, Some write) \<Rightarrow>
          write_out resolve write name True (serializeBytecodeText (comp_program r) (comp_sourceLines r))
      | _ \<Rightarrow> bindS (out_text (''Error: BASIC storage not configured'' @ [LF])) (\<lambda>_. retS False))"

definition printCompileSuccess :: "BasicCompileResult \<Rightarrow> string" where
  "printCompileSuccess r =
     ''Compiled successfully.'' @ [LF] @ ''Instructions: '' @ show_nat (instructionCount r) @ [LF] @
     ''Labels: '' @ show_nat (labelCount r) @ [LF]"

definition printCompileFailure :: "(int \<times> string) list \<Rightarrow> string" where
  "printCompileFailure errors =
     concat (map (\<lambda>(line, message). ''Error on line '' @ show_int line @ '': '' @ message @ [LF]) errors) @
     ''Compilation failed.'' @ [LF]"

section \<open>Commands\<close>

definition cmd_list :: "string list \<Rightarrow> ('w BasicShell, unit) action" where
  "cmd_list tokens =
     (if 1 < length tokens then out_text (''LIST takes no arguments'' @ [LF])
      else bindS (getS (list_program \<circ> bs_program)) out_text)"

definition run_editor :: "'w BasicCallbacks \<Rightarrow> string \<Rightarrow> nat option \<Rightarrow> ('w BasicShell, unit) action" where
  "run_editor cb name highlight =
     (case runLineRecordEditorFn cb of
        None \<Rightarrow> out_text (''Error: line editor not configured'' @ [LF])
      | Some editor \<Rightarrow>
          bindS (flushProgramSourceToDisk cb) (\<lambda>ok.
            case resolveProgramLocationFn cb of
              Some resolve \<Rightarrow>
                if \<not> ok then retS ()
                else bindS (in_world (resolve name)) (\<lambda>location.
                     bindS (with_output (editor location highlight)) (\<lambda>_. loadProgramIfPresent cb))
            | None \<Rightarrow> retS ()))"

definition cmd_edit :: "'w BasicCallbacks \<Rightarrow> string list \<Rightarrow> ('w BasicShell, unit) action" where
  "cmd_edit cb tokens =
     (if 2 < length tokens then out_text (''EDIT takes no arguments or one line number'' @ [LF])
      else bindS (getS bs_program) (\<lambda>p.
        case named p of
          None \<Rightarrow> out_text (''No program name'' @ [LF])
        | Some name \<Rightarrow>
            if length tokens = 2 then
              (case parseLineNumber (tokens ! 1) of
                 None \<Rightarrow> out_text (''EDIT requires a line number'' @ [LF])
               | Some n \<Rightarrow>
                   if \<not> hasLine n p then out_text (''No such line: '' @ show_int n @ [LF])
                   else run_editor cb name (physicalRowForBasicLine n p))
            else run_editor cb name None))"

definition cmd_delete :: "string list \<Rightarrow> ('w BasicShell, unit) action" where
  "cmd_delete tokens =
     (if length tokens \<noteq> 2 then out_text (''DELETE requires a line number or range'' @ [LF])
      else case parseDeleteRange (tokens ! 1) of
             None \<Rightarrow> out_text (''DELETE requires a line number or range'' @ [LF])
           | Some (a, b) \<Rightarrow> upd_program (deleteRange a b))"

definition cmd_renum :: "string list \<Rightarrow> ('w BasicShell, unit) action" where
  "cmd_renum tokens =
     (if 1 < length tokens then out_text (''RENUM takes no arguments'' @ [LF])
      else bindS (getS bs_program) (\<lambda>p. bindS (liftS (renumber 10 10 p)) (\<lambda>p'. upd_program (\<lambda>_. p'))))"

definition cmd_new :: "string list \<Rightarrow> ('w BasicShell, unit) action" where
  "cmd_new tokens =
     (if 1 < length tokens then out_text (''NEW takes no arguments'' @ [LF]) else upd_program clearLines)"

text \<open>The name given, else the program's own name, which must not be empty.\<close>

definition chosen_name :: "string list \<Rightarrow> BasicProgram \<Rightarrow> string option" where
  "chosen_name tokens p = (if length tokens = 2 then (if tokens ! 1 = [] then None else Some (tokens ! 1)) else named p)"

definition cmd_load :: "'w BasicCallbacks \<Rightarrow> string list \<Rightarrow> ('w BasicShell, unit) action" where
  "cmd_load cb tokens =
     (if 2 < length tokens then out_text (''LOAD takes at most one filename'' @ [LF])
      else bindS (getS (chosen_name tokens \<circ> bs_program)) (\<lambda>nm.
        case nm of
          None \<Rightarrow> out_text (''No program name specified'' @ [LF])
        | Some name \<Rightarrow> bindS (upd_program (clearLines \<circ> setName (Some name))) (\<lambda>_. loadProgramIfPresent cb)))"

definition cmd_save :: "'w BasicCallbacks \<Rightarrow> string list \<Rightarrow> ('w BasicShell, unit) action" where
  "cmd_save cb tokens =
     (if 2 < length tokens then out_text (''SAVE takes at most one filename'' @ [LF])
      else bindS (getS (chosen_name tokens \<circ> bs_program)) (\<lambda>nm.
        case nm of
          None \<Rightarrow> out_text (''No program name'' @ [LF])
        | Some name \<Rightarrow>
            bindS (upd_program (setName (Some name))) (\<lambda>_. bindS (flushProgramSourceToDisk cb) (\<lambda>_. retS ()))))"

text \<open>Compiles the program in the buffer; without errors, \<open>k\<close> goes on with its name and its code.\<close>

definition compiling :: "(string \<Rightarrow> BasicCompileResult \<Rightarrow> ('w BasicShell, unit) action) \<Rightarrow> ('w BasicShell, unit) action" where
  "compiling k =
     bindS (getS bs_program) (\<lambda>p.
       case named p of
         None \<Rightarrow> out_text (''No program name'' @ [LF])
       | Some name \<Rightarrow>
           (case compile (prog_lines p) of
              Inl errors \<Rightarrow> out_text (printCompileFailure errors)
            | Inr r \<Rightarrow> k name r))"

definition save_compiled :: "'w BasicCallbacks \<Rightarrow> string \<Rightarrow> BasicCompileResult \<Rightarrow> ('w BasicShell, unit) action" where
  "save_compiled cb name r =
     bindS (saveObjectCode cb name r) (\<lambda>ok. if ok then out_text (printCompileSuccess r) else retS ())"

definition cmd_compile :: "'w BasicCallbacks \<Rightarrow> string list \<Rightarrow> ('w BasicShell, unit) action" where
  "cmd_compile cb tokens =
     (if 1 < length tokens then out_text (''COMPILE takes no arguments'' @ [LF]) else compiling (save_compiled cb))"

definition cmd_run :: "'w BasicCallbacks \<Rightarrow> string list \<Rightarrow> ('w BasicShell, unit) action" where
  "cmd_run cb tokens =
     (let compileOnly = length tokens = 2 \<and> tokens ! 1 = ''(C''
      in if \<not> (length tokens = 1 \<or> compileOnly) then out_text (''RUN takes no arguments or (C'' @ [LF])
         else compiling (\<lambda>name r.
           if compileOnly then save_compiled cb name r
           else case executeProgramFn cb of
                  None \<Rightarrow> out_text (''Error: BASIC runtime not configured'' @ [LF])
                | Some execute \<Rightarrow>
                    bindS (getS bs_program) (\<lambda>p. with_output (execute (comp_program r) (comp_sourceLines r) p))))"

definition help_text :: string where
  "help_text =
     ''BASIC commands:'' @ [LF] @
     ''  <n> <text>     set BASIC line n'' @ [LF] @
     ''  <n>            delete BASIC line n'' @ [LF] @
     ''  LIST'' @ [LF] @
     ''  EDIT [n]       open system line editor (TCL EDIT); optional BASIC line n for context'' @ [LF] @
     ''  DELETE <n>|<n-m>'' @ [LF] @
     ''  RENUM'' @ [LF] @
     ''  RENUMBER'' @ [LF] @
     ''  NEW'' @ [LF] @
     ''  LOAD [name]'' @ [LF] @
     ''  SAVE [name]'' @ [LF] @
     ''  COMPILE'' @ [LF] @
     ''  RUN'' @ [LF] @
     ''  RUN (C'' @ [LF] @
     ''  QUIT'' @ [LF]"

text \<open>
  A line of tokens; the answer tells whether BASIC mode is left.  With no token at all, \<open>tokens[0]\<close> reads past the end of the
  vector; \<open>Shell::handleLine\<close> passes at least one.
\<close>

definition staying :: "('w BasicShell, unit) action \<Rightarrow> ('w BasicShell, bool) action" where
  "staying a = bindS a (\<lambda>_. retS False)"

definition handleBasicCommand :: "'w BasicCallbacks \<Rightarrow> string list \<Rightarrow> ('w BasicShell, bool) action" where
  "handleBasicCommand cb tokens =
     (case tokens of
        [] \<Rightarrow> throwS UndefinedBehaviour
      | verb # args \<Rightarrow>
          (case parseLineNumber verb of
             Some n \<Rightarrow> staying (upd_program (if args = [] then deleteLine n else setLine n (joinTokens args)))
           | None \<Rightarrow>
               if verb = ''LIST'' then staying (cmd_list tokens)
               else if verb = ''EDIT'' then staying (cmd_edit cb tokens)
               else if verb = ''DELETE'' then staying (cmd_delete tokens)
               else if verb \<in> {''RENUM'', ''RENUMBER''} then staying (cmd_renum tokens)
               else if verb = ''NEW'' then staying (cmd_new tokens)
               else if verb = ''LOAD'' then staying (cmd_load cb tokens)
               else if verb = ''SAVE'' then staying (cmd_save cb tokens)
               else if verb = ''COMPILE'' then staying (cmd_compile cb tokens)
               else if verb = ''RUN'' then staying (cmd_run cb tokens)
               else if verb = ''QUIT'' then bindS (updS (\<lambda>s. s\<lparr>bs_active := False\<rparr>)) (\<lambda>_. retS True)
               else if verb = ''HELP'' then staying (out_text help_text)
               else staying (out_text (''Unknown command: '' @ verb @ [LF]))))"

text \<open>An inactive shell leaves \<open>leaveBasicMode\<close> as it is.\<close>

definition handleCommand :: "'w BasicCallbacks \<Rightarrow> string list \<Rightarrow> bool \<Rightarrow> ('w BasicShell, bool) action" where
  "handleCommand cb tokens leave =
     bindS (getS bs_active) (\<lambda>active. if active then handleBasicCommand cb tokens else retS leave)"

definition enter :: "'w BasicCallbacks \<Rightarrow> string option \<Rightarrow> ('w BasicShell, unit) action" where
  "enter cb nm =
     bindS (updS (\<lambda>s. s\<lparr>bs_active := True, bs_program := clearLines (setName nm (bs_program s))\<rparr>)) (\<lambda>_. loadProgramIfPresent cb)"

section \<open>The session behind the callbacks\<close>

record ShellSession =
  sess_world :: world
  sess_voc :: VocResolver

definition programObjectRecordKey :: "string \<Rightarrow> string" where
  "programObjectRecordKey recordKey = recordKey @ ''_OBJ''"

definition record_key :: "ProgramLocation \<Rightarrow> bool \<Rightarrow> string" where
  "record_key location object = (if object then programObjectRecordKey (loc_key location) else loc_key location)"

definition readProgramRecord :: "host \<Rightarrow> FileSystem \<Rightarrow> ProgramLocation \<Rightarrow> bool \<Rightarrow> (ShellSession, string option) action" where
  "readProgramRecord h fs location object s =
     (case readFS h fs (sess_world s) (loc_file location) (record_key location object) of
        Inr None \<Rightarrow> (Inr None, s)
      | Inr (Some rec) \<Rightarrow> (Inr (Some (recValue rec)), s)
      | Inl (FileSystemError _) \<Rightarrow> (Inr None, s)
      | Inl e \<Rightarrow> (Inl e, s))"

text \<open>A file that does not exist is created first.\<close>

definition open_or_create :: "host \<Rightarrow> FileSystem \<Rightarrow> string \<Rightarrow> world \<Rightarrow> unit result \<times> world" where
  "open_or_create h fs f w =
     (case openFile h fs w f of
        Inr _ \<Rightarrow> (Inr (), w)
      | Inl (FileSystemError t) \<Rightarrow> if prefix ''File not found: '' t then createFile h fs f w else (Inl (FileSystemError t), w)
      | Inl e \<Rightarrow> (Inl e, w))"

definition writeProgramRecord :: "host \<Rightarrow> FileSystem \<Rightarrow> ProgramLocation \<Rightarrow> bool \<Rightarrow> string \<Rightarrow> (ShellSession, string option) action" where
  "writeProgramRecord h fs location object payload s =
     (let (r, w) = bindS (open_or_create h fs (loc_file location))
                     (\<lambda>_. writeFS h fs (loc_file location) (mkRecord (record_key location object) payload)) (sess_world s);
          s' = s\<lparr>sess_world := w\<rparr>
      in case r of
           Inr _ \<Rightarrow> (Inr None, if loc_file location = ''VOC'' then s'\<lparr>sess_voc := invalidate (sess_voc s)\<rparr> else s')
         | Inl e \<Rightarrow> if is_std_exception e then (Inr (Some (error_what e)), s') else (Inl e, s'))"

definition session_location :: "host \<Rightarrow> FileSystem \<Rightarrow> string \<Rightarrow> (ShellSession, ProgramLocation) action" where
  "session_location h fs name s =
     (case resolveProgramLocation h fs (sess_world s) name (sess_voc s) of (r, v) \<Rightarrow> (r, s\<lparr>sess_voc := v\<rparr>))"

text \<open>The wiring of \<open>Shell\<close>: running a program and the line editor are parameters.\<close>

definition shell_callbacks :: "host \<Rightarrow> FileSystem \<Rightarrow>
    (Instruction list \<Rightarrow> int list \<Rightarrow> BasicProgram \<Rightarrow> (ShellSession \<times> string, unit) action) \<Rightarrow>
    (ProgramLocation \<Rightarrow> nat option \<Rightarrow> (ShellSession \<times> string, unit) action) \<Rightarrow> ShellSession BasicCallbacks" where
  "shell_callbacks h fs execute editor =
     \<lparr>resolveProgramLocationFn = Some (session_location h fs), readRecordFn = Some (readProgramRecord h fs),
      writeRecordFn = Some (writeProgramRecord h fs), executeProgramFn = Some execute, runLineRecordEditorFn = Some editor\<rparr>"

text \<open>
  Before \<open>RUN name\<close> at the TCL prompt, a missing object record is compiled from the source record.  Its lines are read differently
  here: any text \<open>std::stoi\<close> accepts is a line number, and the rest of the line stays as it is, less one blank.
\<close>

definition source_line :: "string \<Rightarrow> BasicProgram \<Rightarrow> BasicProgram" where
  "source_line line p =
     (let body = dropWhile isspace line;
          tok = takeWhile (\<lambda>c. \<not> isspace c) body;
          rest = dropWhile (\<lambda>c. \<not> isspace c) body
      in if tok = [] then p
         else case stoi tok of
                Inl _ \<Rightarrow> p
              | Inr (n, _) \<Rightarrow> if n \<le> 0 then p else setLine n (if rest \<noteq> [] \<and> hd rest = SP then tl rest else rest) p)"

definition source_program :: "string \<Rightarrow> string \<Rightarrow> BasicProgram" where
  "source_program name source = fold source_line (getlines LF source) \<lparr>prog_name = Some name, prog_lines = []\<rparr>"

definition say :: "string \<Rightarrow> (ShellSession \<times> string, unit) action" where
  "say t = updS (\<lambda>(s, out). (s, out @ t))"

definition in_session :: "(ShellSession, 'a) action \<Rightarrow> (ShellSession \<times> string, 'a) action" where
  "in_session a = (\<lambda>(s, out). case a s of (r, s') \<Rightarrow> (r, s', out))"

definition ensureProgramObjectExistsForRun :: "host \<Rightarrow> FileSystem \<Rightarrow> string \<Rightarrow> (ShellSession \<times> string, bool) action" where
  "ensureProgramObjectExistsForRun h fs name =
     bindS (in_session (session_location h fs name)) (\<lambda>location.
     bindS (in_session (readProgramRecord h fs location True)) (\<lambda>object.
       if object \<noteq> None then retS True
       else bindS (in_session (readProgramRecord h fs location False)) (\<lambda>source.
         case source of
           None \<Rightarrow> bindS (say (''Error: Cannot open bytecode file for program: '' @ name @ [LF])) (\<lambda>_. retS False)
         | Some t \<Rightarrow>
             (case compile (prog_lines (source_program name t)) of
                Inl errors \<Rightarrow> bindS (say (printCompileFailure errors)) (\<lambda>_. retS False)
              | Inr r \<Rightarrow>
                  bindS (liftS (serializeBytecodeText (comp_program r) (comp_sourceLines r))) (\<lambda>payload.
                  bindS (in_session (writeProgramRecord h fs location True payload)) (\<lambda>failure.
                    case failure of
                      None \<Rightarrow> retS True
                    | Some error \<Rightarrow> bindS (say (''Error: '' @ error @ [LF])) (\<lambda>_. retS False)))))))"

end
