(* ===== verification/Basic_Shell_Laws.thy ===== *)
theory Basic_Shell_Laws
  imports Basic_Shell
begin

text \<open>
  Laws of the program buffer and the BASIC shell: the shape of the buffer every command keeps, the round trip of \<open>SAVE\<close> and
  \<open>LOAD\<close> through the record store, renumbering, and the object record that \<open>COMPILE\<close> stores.
\<close>

section \<open>Words\<close>

definition word_ok :: "string \<Rightarrow> bool" where
  "word_ok w \<longleftrightarrow> w \<noteq> [] \<and> list_all (\<lambda>c. \<not> isspace c) w"

lemma isspace_blank [simp]: "isspace SP" "isspace LF"
  by (simp_all add: isspace_def code_of_def)

lemma map_join: "f d = d \<Longrightarrow> map f (join_with d ws) = join_with d (map (map f) ws)"
  by (induction d ws rule: join_with.induct) simp_all

lemma words_of_join:
  assumes "\<forall>w \<in> set ws. word_ok w"
  shows "words_of (joinTokens ws) = ws"
proof (cases "ws = []")
  case False
  have m: "map (\<lambda>c. if isspace c then SP else c) w = w" if "w \<in> set ws" for w
    using assms that by (intro map_idI) (auto simp: word_ok_def list_all_iff)
  have "SP \<notin> set w" if "w \<in> set ws" for w
    using assms that isspace_blank(1) by (auto simp: word_ok_def list_all_iff simp del: isspace_blank)
  then have "words_of (joinTokens ws) = filter (\<lambda>w. w \<noteq> []) ws"
    using False m by (simp add: words_of_def joinTokens_def map_join split_join cong: map_cong)
  also have "\<dots> = ws" using assms by (intro filter_True) (auto simp: word_ok_def)
  finally show ?thesis .
qed (simp add: words_of_def joinTokens_def)

lemma split_on_chars: "p \<in> set (split_on d s) \<Longrightarrow> set p \<subseteq> set s"
  by (induction s arbitrary: p) (fastforce split: list.splits if_splits)+

lemma words_of_ok: "w \<in> set (words_of s) \<Longrightarrow> word_ok w"
proof -
  assume w: "w \<in> set (words_of s)"
  then have p: "w \<noteq> []" "w \<in> set (split_on SP (map (\<lambda>c. if isspace c then SP else c) s))" by (simp_all add: words_of_def)
  have "\<not> isspace c" if "c \<in> set w" for c
    using split_on_chars [OF p(2)] split_on_pieces [OF p(2)] that by (auto split: if_splits)
  then show ?thesis using p(1) by (simp add: word_ok_def list_all_iff)
qed

lemma words_of_all_ok: "\<forall>w \<in> set (words_of s). word_ok w"
  using words_of_ok by blast

lemma joined_chars: "\<forall>w \<in> set ws. word_ok w \<Longrightarrow> c \<in> set (joinTokens ws) \<Longrightarrow> c = SP \<or> \<not> isspace c"
  unfolding joinTokens_def by (induction SP ws rule: join_with.induct) (auto simp: word_ok_def list_all_iff)

section \<open>The shape of the buffer\<close>

text \<open>
  Ascending line numbers from 1 to the largest \<open>int\<close>; every text consists of words with single blanks between them.
\<close>

definition text_ok :: "string \<Rightarrow> bool" where
  "text_ok t \<longleftrightarrow> joinTokens (words_of t) = t"

definition line_ok :: "int \<times> string \<Rightarrow> bool" where
  "line_ok l \<longleftrightarrow> 0 < fst l \<and> fst l \<le> int_max \<and> text_ok (snd l)"

definition prog_ok :: "BasicProgram \<Rightarrow> bool" where
  "prog_ok p \<longleftrightarrow> omap_wf (prog_lines p) \<and> list_all line_ok (prog_lines p)"

lemma text_ok_join: "\<forall>w \<in> set ws. word_ok w \<Longrightarrow> text_ok (joinTokens ws)"
  by (simp add: text_ok_def words_of_join)

lemma text_ok_chars: "text_ok t \<Longrightarrow> c \<in> set t \<Longrightarrow> c = SP \<or> \<not> isspace c"
  using joined_chars [OF words_of_all_ok [of t]] by (simp add: text_ok_def)

lemma show_int_word: "0 < n \<Longrightarrow> word_ok (show_int n)"
  by (auto simp: word_ok_def list_all_iff show_int_def dest: show_nat_set digit_not_space)

lemma parseLineNumber_range: "parseLineNumber t = Some n \<Longrightarrow> 0 < n \<and> n \<le> int_max"
  using stoi_int32 [of t] by (auto simp: parseLineNumber_def int32_def split: if_splits sum.splits)

lemma parseLineNumber_show: "0 < n \<Longrightarrow> n \<le> int_max \<Longrightarrow> parseLineNumber (show_int n) = Some n"
  using stoi_show_int [of n "[]"] show_nat_digits [of "nat n"]
  by (simp add: parseLineNumber_def int32_def int_min_def show_int_def)

lemma omap_put_all: "list_all P m \<Longrightarrow> P (k, v) \<Longrightarrow> list_all P (omap_put k v m)"
  by (induction k v m rule: omap_put.induct) auto

lemma prog_ok_clear [simp]: "prog_ok (clearLines p)"
  by (simp add: prog_ok_def clearLines_def)

lemma prog_ok_setName [simp]: "prog_ok (setName nm p) = prog_ok p"
  by (simp add: prog_ok_def setName_def)

lemma prog_ok_setLine: "prog_ok p \<Longrightarrow> line_ok (n, t) \<Longrightarrow> prog_ok (setLine n t p)"
  by (simp add: prog_ok_def setLine_def omap_put_all)

lemma prog_ok_filter: "prog_ok p \<Longrightarrow> prog_ok (p\<lparr>prog_lines := filter q (prog_lines p)\<rparr>)"
  by (auto simp: prog_ok_def omap_wf_def list_all_iff sorted_wrt_map intro: sorted_wrt_filter)

lemma prog_ok_deletes [simp]: "prog_ok p \<Longrightarrow> prog_ok (deleteLine n p)" "prog_ok p \<Longrightarrow> prog_ok (deleteRange a b p)"
  by (simp_all add: deleteLine_def deleteRange_def prog_ok_filter)

lemma prog_ok_numbered: "prog_ok p \<Longrightarrow> parseLineNumber t = Some n \<Longrightarrow> \<forall>w \<in> set ws. word_ok w \<Longrightarrow> prog_ok (setLine n (joinTokens ws) p)"
  using parseLineNumber_range by (intro prog_ok_setLine) (auto simp: line_ok_def text_ok_join)

lemma prog_ok_load_line: "prog_ok p \<Longrightarrow> prog_ok (load_line line p)"
  using words_of_all_ok [of line] by (auto simp: load_line_def prog_ok_numbered split: list.splits option.splits)

lemma prog_ok_load: "prog_ok (load_source t p)"
proof -
  have "prog_ok q \<Longrightarrow> prog_ok (fold load_line ls q)" for ls q
    by (induction ls arbitrary: q) (simp_all add: prog_ok_load_line)
  then show ?thesis by (simp add: load_source_def)
qed

section \<open>Renumbering\<close>

lemma renamed_word: "\<forall>v \<in> set lineMap. 0 < snd v \<Longrightarrow> word_ok tok \<Longrightarrow> word_ok (renamed lineMap target tok)"
  by (auto simp: renamed_def split: option.splits dest!: map_of_SomeD intro!: show_int_word)

lemma words_update: "\<forall>w \<in> set ws. word_ok w \<Longrightarrow> word_ok w' \<Longrightarrow> \<forall>w \<in> set (ws[i := w']). word_ok w"
  using set_update_subset_insert [of ws i w'] by blast

lemma text_ok_renamed:
  assumes "\<forall>v \<in> set lineMap. 0 < snd v" "i < length (words_of t)"
  shows "word_ok (renamed lineMap n (words_of t ! i))"
  using assms words_of_all_ok [of t] by (intro renamed_word) auto

lemma text_ok_rewrite:
  assumes "\<forall>v \<in> set lineMap. 0 < snd v" "text_ok t"
  shows "text_ok (rewriteRenumberTargets t lineMap)"
proof -
  note ws = words_of_all_ok [of t]
  have one: "text_ok (joinTokens ((words_of t)[i := renamed lineMap n (words_of t ! i)]))" if "i < length (words_of t)" for i n
    by (intro text_ok_join words_update ws text_ok_renamed assms(1) that)
  have two: "text_ok (joinTokens ((words_of t)[i := renamed lineMap n (words_of t ! i), j := renamed lineMap m (words_of t ! j)]))"
    if "i < length (words_of t)" "j < length (words_of t)" for i j n m
    by (intro text_ok_join words_update ws text_ok_renamed assms(1) that)
  show ?thesis unfolding rewriteRenumberTargets_def Let_def
    using assms(2) by (auto split: option.split intro!: one two)
qed

lemma new_numbers_eq: "new_numbers first increment n = Inr ns \<Longrightarrow> ns = map (\<lambda>i. first + increment * int i) [0..<n] \<and> list_all int32 ns"
  by (auto simp: new_numbers_def mapE_eq_Inr_iff list_all2_conv_all_nth list_all_length intro!: nth_equalityI)

lemma new_numbers_in_range:
  assumes "0 \<le> increment" "int_min \<le> first" "first + increment * int n \<le> int_max"
  shows "new_numbers first increment (n + 1) = Inr (map (\<lambda>i. first + increment * int i) [0..<n + 1])"
proof -
  have "int32 (first + increment * int i)" if "i \<le> n" for i
    using assms that mult_left_mono [of "int i" "int n" increment] mult_nonneg_nonneg [of increment "int i"]
    by (simp add: int32_def del: mult_nonneg_nonneg)
  then show ?thesis by (auto simp: new_numbers_def mapE_eq_Inr_iff list_all2_conv_all_nth less_Suc_eq_le simp del: upt_Suc)
qed

lemma foldl_omap_put:
  "sorted_wrt (<) (map fst (acc @ ps)) \<Longrightarrow>
   foldl (\<lambda>m (n, t). omap_put n (f t) m) acc ps = acc @ map (\<lambda>(n, t). (n, f t)) ps"
proof (induction ps arbitrary: acc)
  case (Cons l ps)
  obtain n t where l: "l = (n, t)" by (cases l)
  have "omap_put n (f t) acc = acc @ [(n, f t)]" using Cons.prems l by (intro omap_put_last) (auto simp: sorted_wrt_append)
  then show ?case using Cons.IH [of "acc @ [(n, f t)]"] Cons.prems l by simp
qed simp

lemma renumber_lines:
  assumes "renumber 10 10 p = Inr p'"
  shows "p' = p\<lparr>prog_lines := zip (map (\<lambda>i. 10 + 10 * int i) [0..<length (prog_lines p)])
      (map (\<lambda>l. rewriteRenumberTargets (snd l) (zip (map fst (prog_lines p)) (map (\<lambda>i. 10 + 10 * int i) [0..<length (prog_lines p)])))
        (prog_lines p))\<rparr>" (is "_ = p\<lparr>prog_lines := zip ?ns (map (\<lambda>l. rewriteRenumberTargets (snd l) ?m) _)\<rparr>")
    and "list_all int32 (map (\<lambda>i. 10 + 10 * int i) [0..<length (prog_lines p)])"
proof -
  let ?n = "length (prog_lines p)"
  obtain ns where ns: "new_numbers 10 10 (?n + 1) = Inr ns"
    and p': "p' = p\<lparr>prog_lines := foldl (\<lambda>m (n, t). omap_put n (rewriteRenumberTargets t (zip (map fst (prog_lines p)) ns)) m) []
      (zip ns (map snd (prog_lines p)))\<rparr>"
    using assms by (auto simp: renumber_def bindE_eq_Inr_iff Let_def)
  have eq: "ns = ?ns @ [10 + 10 * int ?n]" and i32: "list_all int32 ns" using new_numbers_eq [OF ns] by auto
  show "list_all int32 ?ns" using eq i32 by simp
  have z: "zip ns (map snd (prog_lines p)) = zip ?ns (map snd (prog_lines p))" "zip (map fst (prog_lines p)) ns = ?m"
    by (simp_all add: eq zip_append1 zip_append2)
  have "sorted_wrt (<) (map fst (zip ?ns (map snd (prog_lines p))))" by (simp add: sorted_wrt_map sorted_wrt_upt)
  from foldl_omap_put [of "[]", simplified, OF this] have
    "foldl (\<lambda>m (n, t). omap_put n (rewriteRenumberTargets t ?m) m) [] (zip ?ns (map snd (prog_lines p))) =
     map (\<lambda>(n, t). (n, rewriteRenumberTargets t ?m)) (zip ?ns (map snd (prog_lines p)))" by simp
  also have "\<dots> = zip ?ns (map (\<lambda>l. rewriteRenumberTargets (snd l) ?m) (prog_lines p))"
    by (simp add: zip_map2 comp_def case_prod_unfold)
  finally show "p' = p\<lparr>prog_lines := zip ?ns (map (\<lambda>l. rewriteRenumberTargets (snd l) ?m) (prog_lines p))\<rparr>" using p' z by simp
qed

lemma prog_ok_renumber:
  assumes "prog_ok p" "renumber 10 10 p = Inr p'"
  shows "prog_ok p'"
proof -
  let ?ns = "map (\<lambda>i. 10 + 10 * int i) [0..<length (prog_lines p)]"
  have pos: "\<forall>v \<in> set (zip (map fst (prog_lines p)) ?ns). 0 < snd v" by (auto dest!: set_zip_rightD)
  have "line_ok l" if "l \<in> set (prog_lines p')" for l
  proof -
    from that obtain i where i: "i < length (prog_lines p)" "fst l = 10 + 10 * int i"
      "snd l = rewriteRenumberTargets (snd (prog_lines p ! i)) (zip (map fst (prog_lines p)) ?ns)"
      using renumber_lines(1) [OF assms(2)] by (auto simp: set_zip)
    then have "text_ok (snd l)" using assms(1) text_ok_rewrite [OF pos] by (simp add: prog_ok_def line_ok_def list_all_length)
    moreover have "int32 (fst l)" using renumber_lines(2) [OF assms(2)] i by (simp add: list_all_length)
    ultimately show ?thesis using i by (simp add: line_ok_def int32_def)
  qed
  moreover have "omap_wf (prog_lines p')" using renumber_lines(1) [OF assms(2)] by (simp add: omap_wf_def sorted_wrt_map sorted_wrt_upt)
  ultimately show ?thesis by (simp add: prog_ok_def list_all_iff)
qed

text \<open>Statements that jump to a line: \<open>GOTO n\<close>, \<open>IF c THEN n\<close> and \<open>IF c THEN n ELSE m\<close>; \<open>pre\<close> is what precedes the first target.\<close>

definition goto_words :: "string list \<Rightarrow> bool" where
  "goto_words pre \<longleftrightarrow> length pre = 1 \<and> uppercase (pre ! 0) = ''GOTO''"

definition if_words :: "string list \<Rightarrow> bool" where
  "if_words pre \<longleftrightarrow> 2 \<le> length pre \<and> uppercase (pre ! 0) = ''IF'' \<and> uppercase (pre ! (length pre - 1)) = ''THEN'' \<and>
     (\<forall>i. 1 \<le> i \<and> i < length pre - 1 \<longrightarrow> uppercase (pre ! i) \<notin> {''THEN'', ''ELSE''})"

lemma find_upt: "P k \<Longrightarrow> a \<le> k \<Longrightarrow> k < n \<Longrightarrow> \<forall>i. a \<le> i \<and> i < k \<longrightarrow> \<not> P i \<Longrightarrow> find P [a..<n] = Some k"
  by (auto simp: find_Some_iff intro!: exI [of _ "k - a"])

lemma find_upt_last: "P k \<Longrightarrow> a \<le> k \<Longrightarrow> k < n \<Longrightarrow> \<forall>i. k < i \<and> i < n \<longrightarrow> \<not> P i \<Longrightarrow> find P (rev [a..<n]) = Some k"
  by (auto simp: find_Some_iff rev_nth intro!: exI [of _ "n - 1 - k"])

lemma uppercase_number: "uppercase (show_int n) \<noteq> ''THEN'' \<and> uppercase (show_int n) \<noteq> ''ELSE''"
proof -
  obtain c cs where c: "show_int n = c # cs" "isdigit c \<or> c = CHR ''-''"
    using show_int_set [of _ n] by (cases "show_int n") auto
  then have "toupper c \<notin> {CHR ''T'', CHR ''E''}" by (auto simp: toupper_def isdigit_def code_of_def)
  then show ?thesis using c by (auto simp: uppercase_def)
qed

lemma rewrite_goto:
  assumes "words_of t = pre @ [show_int n]" "goto_words pre" "0 < n" "n \<le> int_max" "map_of lineMap n = Some n'"
  shows "rewriteRenumberTargets t lineMap = joinTokens (pre @ [show_int n'])"
proof -
  obtain g where "pre = [g]" using assms(2) by (cases pre) (auto simp: goto_words_def)
  then show ?thesis using assms by (simp add: rewriteRenumberTargets_def goto_words_def parseLineNumber_show renamed_def)
qed

lemma then_pos_if:
  assumes "if_words pre" "rest \<noteq> []"
  shows "then_pos (pre @ rest) = Some (length pre - 1)"
  unfolding then_pos_def using assms by (intro find_upt) (auto simp: if_words_def nth_append)

lemma rewrite_if:
  assumes "words_of t = pre @ [show_int n]" "if_words pre" "0 < n" "n \<le> int_max" "map_of lineMap n = Some n'"
  shows "rewriteRenumberTargets t lineMap = joinTokens (pre @ [show_int n'])"
proof -
  have "uppercase ((pre @ [show_int n]) ! i) \<noteq> ''ELSE''" if "1 \<le> i" "i < length pre + 1" for i
    using assms(2) that uppercase_number [of n] by (cases "i = length pre - 1"; cases "i = length pre") (auto simp: if_words_def nth_append)
  then have "else_pos (pre @ [show_int n]) = None" by (auto simp: else_pos_def find_None_iff)
  moreover have "uppercase ((pre @ [show_int n]) ! 0) = ''IF''" "2 \<le> length pre" using assms(2) by (auto simp: if_words_def nth_append)
  ultimately show ?thesis
    using assms then_pos_if [OF assms(2), of "[show_int n]"]
    by (auto simp: rewriteRenumberTargets_def Let_def parseLineNumber_show renamed_def nth_append list_update_append)
qed

lemma rewrite_if_else:
  assumes "words_of t = pre @ [show_int n, el, show_int m]" "if_words pre" "uppercase el = ''ELSE''"
    and "0 < n" "n \<le> int_max" "map_of lineMap n = Some n'" "0 < m" "m \<le> int_max" "map_of lineMap m = Some m'"
  shows "rewriteRenumberTargets t lineMap = joinTokens (pre @ [show_int n', el, show_int m'])"
proof -
  let ?ws = "pre @ [show_int n, el, show_int m]"
  have "else_pos ?ws = Some (length pre + 1)" unfolding else_pos_def
    using assms(3) uppercase_number [of m] by (intro find_upt_last) (auto simp: nth_append nth_Cons' split: if_splits)
  moreover have "uppercase (?ws ! 0) = ''IF''" "2 \<le> length pre" using assms(2) by (auto simp: if_words_def nth_append)
  ultimately show ?thesis
    using assms then_pos_if [OF assms(2), of "[show_int n, el, show_int m]"]
    by (auto simp: rewriteRenumberTargets_def Let_def parseLineNumber_show renamed_def nth_append list_update_append)
qed

lemma rewrite_other:
  "words_of t = [] \<or> uppercase (words_of t ! 0) \<notin> {''GOTO'', ''IF''} \<Longrightarrow> rewriteRenumberTargets t lineMap = t"
  by (auto simp: rewriteRenumberTargets_def Let_def)

definition renumbered_line :: "nat \<Rightarrow> int" where
  "renumbered_line i = 10 * (int i + 1)"

lemma renumbered_map:
  assumes "prog_ok p" "i < length (prog_lines p)"
  shows "map_of (zip (map fst (prog_lines p)) (map (\<lambda>i. 10 + 10 * int i) [0..<length (prog_lines p)])) (fst (prog_lines p ! i)) =
    Some (renumbered_line i)"
proof -
  have "distinct (map fst (prog_lines p))" using assms(1) by (simp add: prog_ok_def omap_wf_def strict_sorted_iff)
  then show ?thesis using assms(2) map_of_zip_nth [of "map fst (prog_lines p)" "map (\<lambda>i. 10 + 10 * int i) [0..<length (prog_lines p)]" i]
    by (simp add: renumbered_line_def)
qed

text \<open>
  \<open>RENUM\<close> gives the lines the numbers 10, 20, 30, ... in their order, and the jumps it knows follow: \<open>GOTO n\<close>,
  \<open>IF c THEN n\<close> and \<open>IF c THEN n ELSE m\<close> name the new numbers of the lines they named before.  A text that starts
  with another keyword stays as it is.
\<close>

theorem renumber_follows_targets:
  assumes p: "prog_ok p" and size: "renumbered_line (length (prog_lines p)) \<le> int_max"
  shows "\<exists>p'. renumber 10 10 p = Inr p' \<and> prog_name p' = prog_name p \<and>
    map fst (prog_lines p') = map renumbered_line [0..<length (prog_lines p)] \<and>
    (\<forall>i < length (prog_lines p). let t = snd (prog_lines p ! i); t' = snd (prog_lines p' ! i) in
      (\<forall>j < length (prog_lines p). \<forall>pre. goto_words pre \<or> if_words pre \<longrightarrow>
        words_of t = pre @ [show_int (fst (prog_lines p ! j))] \<longrightarrow> t' = joinTokens (pre @ [show_int (renumbered_line j)])) \<and>
      (\<forall>j < length (prog_lines p). \<forall>k < length (prog_lines p). \<forall>pre el. if_words pre \<longrightarrow> uppercase el = ''ELSE'' \<longrightarrow>
        words_of t = pre @ [show_int (fst (prog_lines p ! j)), el, show_int (fst (prog_lines p ! k))] \<longrightarrow>
        t' = joinTokens (pre @ [show_int (renumbered_line j), el, show_int (renumbered_line k)])) \<and>
      (words_of t = [] \<or> uppercase (words_of t ! 0) \<notin> {''GOTO'', ''IF''} \<longrightarrow> t' = t))"
proof -
  let ?n = "length (prog_lines p)"
  have "new_numbers 10 10 (?n + 1) = Inr (map (\<lambda>i. 10 + 10 * int i) [0..<?n + 1])"
    using size by (intro new_numbers_in_range) (simp_all add: renumbered_line_def int_min_def)
  then obtain p' where p': "renumber 10 10 p = Inr p'" by (simp add: renumber_def Let_def)
  note lines = renumber_lines(1) [OF p']
  have pos: "0 < fst (prog_lines p ! i) \<and> fst (prog_lines p ! i) \<le> int_max" if "i < ?n" for i
    using p that by (simp add: prog_ok_def list_all_length line_ok_def)
  show ?thesis
  proof (intro exI [of _ p'] conjI allI impI; (unfold Let_def)?)
    show "map fst (prog_lines p') = map renumbered_line [0..<?n]" by (simp add: lines renumbered_line_def distrib_left)
    fix i assume i: "i < ?n"
    show "(\<forall>j < ?n. \<forall>pre. goto_words pre \<or> if_words pre \<longrightarrow> words_of (snd (prog_lines p ! i)) = pre @ [show_int (fst (prog_lines p ! j))] \<longrightarrow>
          snd (prog_lines p' ! i) = joinTokens (pre @ [show_int (renumbered_line j)])) \<and>
      (\<forall>j < ?n. \<forall>k < ?n. \<forall>pre el. if_words pre \<longrightarrow> uppercase el = ''ELSE'' \<longrightarrow>
        words_of (snd (prog_lines p ! i)) = pre @ [show_int (fst (prog_lines p ! j)), el, show_int (fst (prog_lines p ! k))] \<longrightarrow>
        snd (prog_lines p' ! i) = joinTokens (pre @ [show_int (renumbered_line j), el, show_int (renumbered_line k)])) \<and>
      (words_of (snd (prog_lines p ! i)) = [] \<or> uppercase (words_of (snd (prog_lines p ! i)) ! 0) \<notin> {''GOTO'', ''IF''} \<longrightarrow>
        snd (prog_lines p' ! i) = snd (prog_lines p ! i))"
      using i lines pos renumbered_map [OF p] rewrite_goto rewrite_if rewrite_if_else rewrite_other by auto
  qed (simp_all add: p' lines)
qed

section \<open>Every command keeps the shape\<close>

abbreviation keeps_shape :: "('w BasicShell, 'a) action \<Rightarrow> bool" where
  "keeps_shape a \<equiv> triple (\<lambda>s. prog_ok (bs_program s)) a (\<lambda>_ s. prog_ok (bs_program s)) (\<lambda>_ s. prog_ok (bs_program s))"

named_theorems shape_intros \<open>actions that keep the shape of the program buffer\<close>

lemma shape_bind [shape_intros]: "keeps_shape a \<Longrightarrow> (\<And>x. keeps_shape (k x)) \<Longrightarrow> keeps_shape (bindS a k)"
  by (rule triple_bind)

lemma shape_basic [shape_intros]: "keeps_shape (retS x)" "keeps_shape (throwS e)" "keeps_shape (liftS r)" "keeps_shape (getS f)"
  by (simp_all add: triple_def split: sum.split)

lemma shape_out [shape_intros]: "keeps_shape (out_text t)"
  by (simp add: out_text_def triple_def)

lemma shape_world [shape_intros]: "keeps_shape (in_world a)" "keeps_shape (with_output b)"
  by (auto simp: in_world_def with_output_def triple_def split: prod.split sum.split)

lemma shape_upd [shape_intros]: "(\<And>p. prog_ok p \<Longrightarrow> prog_ok (f p)) \<Longrightarrow> keeps_shape (upd_program f)"
  by (simp add: upd_program_def triple_def)

lemma shape_if [shape_intros]: "(c \<Longrightarrow> keeps_shape a) \<Longrightarrow> (\<not> c \<Longrightarrow> keeps_shape b) \<Longrightarrow> keeps_shape (if c then a else b)"
  by simp

lemma shape_option [shape_intros]: "(x = None \<Longrightarrow> keeps_shape a) \<Longrightarrow> (\<And>y. x = Some y \<Longrightarrow> keeps_shape (b y)) \<Longrightarrow> keeps_shape (case x of None \<Rightarrow> a | Some y \<Rightarrow> b y)"
  by (cases x) simp_all

lemma shape_sum [shape_intros]: "(\<And>y. x = Inl y \<Longrightarrow> keeps_shape (a y)) \<Longrightarrow> (\<And>y. x = Inr y \<Longrightarrow> keeps_shape (b y)) \<Longrightarrow> keeps_shape (case x of Inl y \<Rightarrow> a y | Inr y \<Rightarrow> b y)"
  by (cases x) simp_all

lemma shape_pair [shape_intros]: "(\<And>y z. x = (y, z) \<Longrightarrow> keeps_shape (a y z)) \<Longrightarrow> keeps_shape (case x of (y, z) \<Rightarrow> a y z)"
  by (cases x) simp

lemma shape_load [shape_intros]: "keeps_shape (loadProgramIfPresent cb)"
  unfolding loadProgramIfPresent_def by (intro shape_intros prog_ok_load)

lemma shape_write_out [shape_intros]: "keeps_shape (write_out resolve write name object content)"
  unfolding write_out_def by (intro shape_intros)

lemma shape_flush [shape_intros]: "keeps_shape (flushProgramSourceToDisk cb)"
  unfolding flushProgramSourceToDisk_def by (intro shape_intros)

lemma shape_save_compiled [shape_intros]: "keeps_shape (save_compiled cb name r)"
  unfolding save_compiled_def saveObjectCode_def by (intro shape_intros)

lemma shape_compiling [shape_intros]: "(\<And>name r. keeps_shape (k name r)) \<Longrightarrow> keeps_shape (compiling k)"
  unfolding compiling_def by (intro shape_intros)

lemma shape_editor [shape_intros]: "keeps_shape (run_editor cb name highlight)"
  unfolding run_editor_def by (intro shape_intros)

lemma shape_renum [shape_intros]: "keeps_shape (cmd_renum tokens)"
  by (auto simp: cmd_renum_def bindS_def triple_def out_text_def upd_program_def prog_ok_renumber split: sum.split)

lemma shape_commands [shape_intros]:
  "keeps_shape (cmd_list tokens)" "keeps_shape (cmd_edit cb tokens)" "keeps_shape (cmd_delete tokens)" "keeps_shape (cmd_new tokens)"
  "keeps_shape (cmd_load cb tokens)" "keeps_shape (cmd_save cb tokens)" "keeps_shape (cmd_compile cb tokens)" "keeps_shape (cmd_run cb tokens)"
  unfolding cmd_list_def cmd_edit_def cmd_delete_def cmd_new_def cmd_load_def cmd_save_def cmd_compile_def cmd_run_def Let_def
  by (intro shape_intros; simp)+

lemma shape_staying [shape_intros]: "keeps_shape a \<Longrightarrow> keeps_shape (staying a)"
  unfolding staying_def by (intro shape_intros)

lemma shape_handle:
  assumes "\<forall>w \<in> set tokens. word_ok w"
  shows "keeps_shape (handleCommand cb tokens leave)"
proof -
  have q: "keeps_shape (bindS (updS (\<lambda>s. s\<lparr>bs_active := False\<rparr>)) (\<lambda>_. retS True))" by (simp add: triple_def bindS_def)
  have "keeps_shape (handleBasicCommand cb tokens)"
  proof (cases tokens)
    case (Cons verb args)
    then have args: "\<forall>w \<in> set args. word_ok w" using assms by simp
    show ?thesis unfolding handleBasicCommand_def Cons list.case
      by (intro shape_intros q) (simp add: args prog_ok_numbered)
  qed (simp add: handleBasicCommand_def shape_basic)
  then show ?thesis unfolding handleCommand_def by (intro shape_intros)
qed

text \<open>\<open>Shell::handleLine\<close> in BASIC mode: a line without words does nothing.\<close>

definition basic_line :: "'w BasicCallbacks \<Rightarrow> 'w BasicShell \<Rightarrow> string \<Rightarrow> 'w BasicShell" where
  "basic_line cb s line = (if words_of line = [] then s else snd (handleCommand cb (words_of line) False s))"

lemma triple_snd: "triple P a (\<lambda>_. Q) (\<lambda>_. Q) \<Longrightarrow> P s \<Longrightarrow> Q (snd (a s))"
  by (cases "a s"; cases "fst (a s)") (force simp: triple_def)+

lemma shape_snd: "keeps_shape a \<Longrightarrow> prog_ok (bs_program s) \<Longrightarrow> prog_ok (bs_program (snd (a s)))"
  by (rule triple_snd)

interpretation basic_machine: invariant_machine "basic_line cb" "\<lambda>s. prog_ok (bs_program s)" for cb
  by unfold_locales (simp add: basic_line_def shape_snd shape_handle words_of_all_ok)

text \<open>
  C25.  Whatever lines are typed in BASIC mode, whatever the records hold and whatever the editor, the storage and the runtime answer,
  errors included, the program buffer keeps its shape: ascending line numbers from 1 to the largest \<open>int\<close>, and texts made of words
  with single blanks between them.
\<close>

theorem buffer_keeps_shape: "prog_ok (bs_program (foldl (basic_line cb) (snd (enter cb nm s)) lines))"
proof -
  have "triple (\<lambda>_. True) (enter cb nm) (\<lambda>_ s. prog_ok (bs_program s)) (\<lambda>_ s. prog_ok (bs_program s))"
    unfolding enter_def by (rule triple_bind [OF triple_upd shape_load]) simp
  then have "prog_ok (bs_program (snd (enter cb nm s)))" by (rule triple_snd) simp
  then show ?thesis by (rule basic_machine.run_inv)
qed

section \<open>Saving and loading\<close>

definition line_body :: "int \<times> string \<Rightarrow> string" where
  "line_body l = joinTokens (show_int (fst l) # words_of (snd l))"

lemma line_text_body: "line_ok l \<Longrightarrow> line_text l = line_body l @ [LF]"
proof -
  assume "line_ok l"
  then have t: "joinTokens (words_of (snd l)) = snd l" by (simp add: line_ok_def text_ok_def)
  show ?thesis
  proof (cases "words_of (snd l)")
    case Nil
    then show ?thesis using t by (simp add: line_text_def line_body_def joinTokens_def)
  next
    case (Cons w ws)
    then have "snd l \<noteq> []" by (auto simp: words_of_def)
    then show ?thesis using t Cons by (simp add: line_text_def line_body_def joinTokens_def)
  qed
qed

lemma load_line_body: "line_ok l \<Longrightarrow> load_line (line_body l) p = setLine (fst l) (snd l) p"
  using words_of_join [of "show_int (fst l) # words_of (snd l)"] words_of_all_ok [of "snd l"] show_int_word [of "fst l"]
  by (simp add: load_line_def line_body_def line_ok_def parseLineNumber_show text_ok_def)

lemma load_bodies:
  "list_all line_ok ls \<Longrightarrow> omap_wf (prog_lines p @ ls) \<Longrightarrow>
   fold load_line (map line_body ls) p = p\<lparr>prog_lines := prog_lines p @ ls\<rparr>"
proof (induction ls arbitrary: p)
  case (Cons l ls)
  have "setLine (fst l) (snd l) p = p\<lparr>prog_lines := prog_lines p @ [l]\<rparr>"
    using Cons.prems(2) by (simp add: setLine_def omap_wf_def sorted_wrt_append omap_put_last)
  then show ?case using Cons.IH [of "p\<lparr>prog_lines := prog_lines p @ [l]\<rparr>"] Cons.prems by (simp add: load_line_body)
qed simp

lemma load_listed:
  assumes "prog_ok p"
  shows "load_source (list_program p) q = q\<lparr>prog_lines := prog_lines p\<rparr>"
proof -
  have ok: "list_all line_ok (prog_lines p)" "omap_wf (prog_lines p)" using assms by (simp_all add: prog_ok_def)
  have "LF \<notin> set (line_body l)" if "l \<in> set (prog_lines p)" for l
    using joined_chars [of "show_int (fst l) # words_of (snd l)" LF] words_of_all_ok [of "snd l"] show_int_word [of "fst l"] ok that
    by (auto simp: line_body_def list_all_iff line_ok_def)
  moreover have "list_program p = concat (map (\<lambda>b. b @ [LF]) (map line_body (prog_lines p)))"
    using ok line_text_body by (auto simp: list_program_def list_all_iff intro!: arg_cong [where f = concat])
  ultimately have "getlines LF (list_program p) = map line_body (prog_lines p)"
    using getlines_concat [of "map line_body (prog_lines p)" LF] by simp
  then show ?thesis using load_bodies [OF ok(1), of "clearLines q"] ok(2) by (simp add: load_source_def clearLines_def)
qed

text \<open>
  A session whose vocabulary is loaded, on a host without faults, with the program's file and record open to it.  \<open>VOC\<close> itself is
  excepted: writing there makes the vocabulary be read again.
\<close>

definition location_in :: "ShellSession \<Rightarrow> string \<Rightarrow> ProgramLocation" where
  "location_in s name =
     \<lparr>loc_file = (case resolveFileFromVocKey (voc_table (sess_voc s)) name [] of None \<Rightarrow> ''BP'' | Some f \<Rightarrow> f), loc_key = name\<rparr>"

definition session_ready :: "host \<Rightarrow> FileSystem \<Rightarrow> ShellSession \<Rightarrow> string \<Rightarrow> bool \<Rightarrow> bool" where
  "session_ready h fs s name object \<longleftrightarrow>
     name \<noteq> [] \<and> voc_loaded (sess_voc s) \<and> loc_file (location_in s name) \<noteq> ''VOC'' \<and>
     store_inv h fs (sess_world s) \<and>
     store_adm fs (sess_world s) (loc_file (location_in s name)) (record_key (location_in s name) object)"

definition stored :: "host \<Rightarrow> FileSystem \<Rightarrow> ShellSession \<Rightarrow> string \<Rightarrow> bool \<Rightarrow> string \<Rightarrow> ShellSession" where
  "stored h fs s name object payload =
     s\<lparr>sess_world := store_put h fs (sess_world s) (loc_file (location_in s name)) (record_key (location_in s name) object) payload\<rparr>"

lemma session_location_loaded:
  "voc_loaded (sess_voc s) \<Longrightarrow> session_location h fs name s = (Inr (location_in s name), s)"
  by (cases s) (simp add: session_location_def resolveProgramLocation_def resolve_location_def ensureLoaded_def bindS_def location_in_def)

lemma location_in_stored [simp]: "location_in (stored h fs s name object payload) n = location_in s n"
  by (simp add: location_in_def stored_def)

lemma write_ready:
  "session_ready h fs s name object \<Longrightarrow>
   writeProgramRecord h fs (location_in s name) object payload s = (Inr None, stored h fs s name object payload)"
  using store_adm_open [of h fs "sess_world s" "loc_file (location_in s name)" "record_key (location_in s name) object"]
  by (simp add: session_ready_def writeProgramRecord_def open_or_create_def bindS_def store_put_effect stored_def)

lemma read_get:
  "store_get h fs (sess_world s) (loc_file location) (record_key location object) = Some v \<Longrightarrow>
   readProgramRecord h fs location object s = (Inr (Some v), s)"
  by (auto simp: readProgramRecord_def store_get_def split: sum.splits option.splits)

lemma read_stored:
  "session_ready h fs s name object \<Longrightarrow>
   readProgramRecord h fs (location_in s name) object (stored h fs s name object payload) = (Inr (Some payload), stored h fs s name object payload)"
  by (rule read_get) (simp add: session_ready_def stored_def store_get_put)

lemma load_stored:
  assumes "session_ready h fs s name False"
  shows "enter (shell_callbacks h fs execute editor) (Some name) (b\<lparr>bs_world := stored h fs s name False t\<rparr>) =
    (Inr (), b\<lparr>bs_active := True, bs_program := load_source t \<lparr>prog_name = Some name, prog_lines = []\<rparr>,
       bs_world := stored h fs s name False t\<rparr>)"
proof -
  obtain c cs where name: "name = c # cs" using assms by (cases name) (simp_all add: session_ready_def)
  have loc: "session_location h fs name (stored h fs s name False t) = (Inr (location_in s name), stored h fs s name False t)"
    using assms session_location_loaded [of "stored h fs s name False t"] by (simp add: session_ready_def stored_def location_in_def)
  show ?thesis using read_stored [OF assms, of t] loc unfolding name
    by (cases b; cases "bs_program b") (simp add: enter_def loadProgramIfPresent_def named_def clearLines_def setName_def bindS_def in_world_def
        shell_callbacks_def upd_program_def)
qed

lemma named_Some: "named p = Some name \<Longrightarrow> prog_name p = Some name \<and> name \<noteq> []"
  by (auto simp: named_def split: option.splits list.splits)

lemma named_name [simp]: "name \<noteq> [] \<Longrightarrow> prog_name p = Some name \<Longrightarrow> named p = Some name"
  by (cases name) (simp_all add: named_def)

lemma write_out_stored:
  assumes "session_ready h fs (bs_world b) name object"
  shows "write_out (session_location h fs) (writeProgramRecord h fs) name object (Inr payload) b =
    (Inr True, b\<lparr>bs_world := stored h fs (bs_world b) name object payload\<rparr>)"
  using assms session_location_loaded [of "bs_world b" h fs name] write_ready [OF assms, of payload]
  by (cases b) (simp add: write_out_def bindS_def in_world_def session_ready_def)

text \<open>
  C26.  What is saved is what is loaded: \<open>SAVE name\<close> prints nothing and stores the source record where the vocabulary says, and
  entering BASIC with that name, in any shell over the stored session, brings back the same lines.
\<close>

theorem save_then_load:
  assumes ready: "session_ready h fs (bs_world b) name False" and "bs_active b" "prog_ok (bs_program b)"
  shows "\<exists>b'. handleCommand (shell_callbacks h fs execute editor) [''SAVE'', name] False b = (Inr False, b') \<and> bs_out b' = bs_out b \<and>
    (\<forall>c. bs_world c = bs_world b' \<longrightarrow>
      enter (shell_callbacks h fs execute editor) (Some name) c = (Inr (), c\<lparr>bs_active := True, bs_program := (bs_program b)\<lparr>prog_name := Some name\<rparr>\<rparr>))"
proof -
  let ?p = "(bs_program b)\<lparr>prog_name := Some name\<rparr>"
  let ?s = "stored h fs (bs_world b) name False (list_program ?p)"
  have nm: "name \<noteq> []" using ready by (simp add: session_ready_def)
  have "parseLineNumber ''SAVE'' = None" by code_simp
  moreover have "write_out (session_location h fs) (writeProgramRecord h fs) name False (Inr (list_program ?p)) (b\<lparr>bs_program := ?p\<rparr>) =
      (Inr True, b\<lparr>bs_program := ?p, bs_world := ?s\<rparr>)"
    using write_out_stored [of h fs "b\<lparr>bs_program := ?p\<rparr>" name False "list_program ?p"] ready by simp
  ultimately have save: "handleCommand (shell_callbacks h fs execute editor) [''SAVE'', name] False b = (Inr False, b\<lparr>bs_program := ?p, bs_world := ?s\<rparr>)"
    using assms(2) nm by (simp add: handleCommand_def handleBasicCommand_def staying_def cmd_save_def bindS_def chosen_name_def
        upd_program_def setName_def flushProgramSourceToDisk_def shell_callbacks_def)
  have "enter (shell_callbacks h fs execute editor) (Some name) c = (Inr (), c\<lparr>bs_active := True, bs_program := ?p\<rparr>)" if "bs_world c = ?s" for c
    using load_stored [OF ready, where b = c and t = "list_program ?p"] load_listed [of ?p "\<lparr>prog_name = Some name, prog_lines = []\<rparr>"]
      assms(3) that by (cases c) (simp add: prog_ok_def)
  with save show ?thesis by auto
qed

text \<open>
  \<open>COMPILE\<close> stores code that runs: when the program in the buffer compiles, the command reports it, leaves the program as it
  is and stores an object record.  Read back and parsed by the loader, that record gives the compiled instructions and source lines, and
  \<open>RUN\<close> at the TCL prompt finds it without compiling again.
\<close>

theorem compile_command_stores:
  assumes ready: "session_ready h fs (bs_world b) name True" and "bs_active b" "prog_ok (bs_program b)"
    and name: "named (bs_program b) = Some name"
    and r: "compile (prog_lines (bs_program b)) = Inr r" "length (comp_program r) < 2 ^ 31"
      "end_last (parsed_lines (parse_lines (prog_lines (bs_program b))))" "list_all storable (comp_program r)"
  shows "\<exists>s' object. handleCommand (shell_callbacks h fs execute editor) [''COMPILE''] False b =
      (Inr False, b\<lparr>bs_world := s', bs_out := bs_out b @ printCompileSuccess r\<rparr>) \<and>
    readProgramRecord h fs (location_in s' name) True s' = (Inr (Some object), s') \<and>
    parse object = Inr \<lparr>program = comp_program r, labels = [], sourceLinePerInstr = comp_sourceLines r\<rparr> \<and>
    ensureProgramObjectExistsForRun h fs name (s', out) = (Inr True, s', out)"
proof -
  have "\<forall>l \<in> set (prog_lines (bs_program b)). 0 \<le> fst l \<and> fst l \<le> int_max"
    using assms(3) by (auto simp: prog_ok_def list_all_iff line_ok_def)
  from compiled_reloads [OF r this] obtain object
    where obj: "serializeBytecodeText (comp_program r) (comp_sourceLines r) = Inr object"
      "parse object = Inr \<lparr>program = comp_program r, labels = [], sourceLinePerInstr = comp_sourceLines r\<rparr>" by blast
  let ?s = "stored h fs (bs_world b) name True object"
  have "parseLineNumber ''COMPILE'' = None" by code_simp
  then have run: "handleCommand (shell_callbacks h fs execute editor) [''COMPILE''] False b = (Inr False, b\<lparr>bs_world := ?s, bs_out := bs_out b @ printCompileSuccess r\<rparr>)"
    using assms(2) name r(1) obj(1) write_out_stored [OF ready, of object]
    by (simp add: handleCommand_def handleBasicCommand_def staying_def cmd_compile_def compiling_def save_compiled_def
        saveObjectCode_def bindS_def shell_callbacks_def out_text_def)
  have read: "readProgramRecord h fs (location_in ?s name) True ?s = (Inr (Some object), ?s)"
    using read_stored [OF ready, of object] by simp
  have "session_location h fs name ?s = (Inr (location_in ?s name), ?s)"
    using ready by (intro session_location_loaded) (simp add: session_ready_def stored_def)
  then have "ensureProgramObjectExistsForRun h fs name (?s, out) = (Inr True, ?s, out)"
    using read by (simp add: ensureProgramObjectExistsForRun_def bindS_def in_session_def)
  with run read obj(2) show ?thesis by blast
qed

section \<open>A session\<close>

definition demo_session :: ShellSession where
  "demo_session = \<lparr>sess_world = sample_world, sess_voc = \<lparr>voc_table = [], voc_loaded = True\<rparr>\<rparr>"

definition demo_program :: BasicProgram where
  "demo_program = \<lparr>prog_name = Some ''DEMO'', prog_lines = sample_lines\<rparr>"

text \<open>
  The BASIC shell and \<open>RUN\<close> at the TCL prompt read the same source differently: two blanks in a string literal become one in
  the shell.
\<close>

lemma loaders_disagree:
  "prog_lines (load_source (''10 PRINT '' @ [DQ] @ ''A  B'' @ [DQ]) demo_program) = [(10, ''PRINT '' @ [DQ] @ ''A B'' @ [DQ])]"
  "prog_lines (source_program ''DEMO'' (''10 PRINT '' @ [DQ] @ ''A  B'' @ [DQ])) = [(10, ''PRINT '' @ [DQ] @ ''A  B'' @ [DQ])]"
  by code_simp+

definition demo_shell :: "ShellSession BasicShell" where
  "demo_shell = \<lparr>bs_active = True, bs_program = demo_program, bs_out = [], bs_world = demo_session\<rparr>"

lemma demo_ready: "session_ready good_host (sample_fs ''S1'') (bs_world demo_shell) ''DEMO'' object"
proof -
  have "loc_file (location_in demo_session ''DEMO'') = ''BP''" by code_simp
  moreover have "store_adm (sample_fs ''S1'') sample_world ''BP'' (record_key (location_in demo_session ''DEMO'') object)"
    by (cases object; simp; code_simp)
  ultimately show ?thesis by (simp add: session_ready_def demo_shell_def demo_session_def sample_store_inv)
qed

lemma demo_ok: "prog_ok (bs_program demo_shell)"
  by code_simp

theorem save_then_load_witness:
  "\<exists>b'. handleCommand (shell_callbacks good_host (sample_fs ''S1'') (\<lambda>_ _ _. retS ()) (\<lambda>_ _. retS ())) [''SAVE'', ''DEMO''] False demo_shell =
      (Inr False, b') \<and>
    bs_program (snd (enter (shell_callbacks good_host (sample_fs ''S1'') (\<lambda>_ _ _. retS ()) (\<lambda>_ _. retS ())) (Some ''DEMO'') b')) = demo_program"
proof -
  have "bs_active demo_shell" by (simp add: demo_shell_def)
  moreover have "(bs_program demo_shell)\<lparr>prog_name := Some ''DEMO''\<rparr> = demo_program" by (simp add: demo_shell_def demo_program_def)
  ultimately show ?thesis
    using save_then_load [OF demo_ready _ demo_ok, of "\<lambda>_ _ _. retS ()" "\<lambda>_ _. retS ()"] by fastforce
qed

theorem compile_command_stores_witness:
  "\<exists>s' object. handleCommand (shell_callbacks good_host (sample_fs ''S1'') (\<lambda>_ _ _. retS ()) (\<lambda>_ _. retS ())) [''COMPILE''] False demo_shell =
      (Inr False, demo_shell\<lparr>bs_world := s', bs_out := ''Compiled successfully.'' @ [LF] @ ''Instructions: 11'' @ [LF] @ ''Labels: 0'' @ [LF]\<rparr>) \<and>
    readProgramRecord good_host (sample_fs ''S1'') (location_in s' ''DEMO'') True s' = (Inr (Some object), s') \<and>
    parse object = Inr \<lparr>program = sample_code, labels = [], sourceLinePerInstr = [10, 10, 20, 20, 20, 20, 20, 20, 20, 20, 30]\<rparr>"
proof -
  have "bs_active demo_shell" "named (bs_program demo_shell) = Some ''DEMO''" "prog_lines (bs_program demo_shell) = sample_lines"
    by (simp_all add: demo_shell_def demo_program_def)
  moreover have "end_last (parsed_lines (parse_lines sample_lines))" by code_simp
  moreover have "list_all storable sample_code" "length sample_code < 2 ^ 31"
    by (simp_all add: sample_code_def storable_def mkInstr_def)
  moreover have "bs_out demo_shell @ printCompileSuccess \<lparr>comp_program = sample_code,
      comp_sourceLines = [10, 10, 20, 20, 20, 20, 20, 20, 20, 20, 30], instructionCount = 11, labelCount = 0\<rparr> =
      ''Compiled successfully.'' @ [LF] @ ''Instructions: 11'' @ [LF] @ ''Labels: 0'' @ [LF]" by code_simp
  ultimately show ?thesis
    using compile_command_stores [OF demo_ready _ demo_ok, where execute = "\<lambda>_ _ _. retS ()" and editor = "\<lambda>_ _. retS ()" and
        r = "\<lparr>comp_program = sample_code, comp_sourceLines = [10, 10, 20, 20, 20, 20, 20, 20, 20, 20, 30], instructionCount = 11, labelCount = 0\<rparr>"]
      sample_compiles by (simp del: append.simps) blast
qed

definition jump_program :: BasicProgram where
  "jump_program = \<lparr>prog_name = None, prog_lines = [(5, ''PRINT 1''), (7, ''IF A = 1 THEN 5 ELSE 100''), (100, ''GOTO 7'')]\<rparr>"

theorem renumber_follows_targets_witness:
  "\<exists>p'. renumber 10 10 jump_program = Inr p' \<and> map fst (prog_lines p') = [10, 20, 30] \<and> snd (prog_lines p' ! 2) = ''GOTO 20''"
proof -
  have ok: "prog_ok jump_program" "renumbered_line (length (prog_lines jump_program)) \<le> int_max" by code_simp+
  have "goto_words [''GOTO'']" "words_of (snd (prog_lines jump_program ! 2)) = [''GOTO''] @ [show_int (fst (prog_lines jump_program ! 1))]"
    "2 < length (prog_lines jump_program)" "1 < length (prog_lines jump_program)" by code_simp+
  then have "\<exists>p'. renumber 10 10 jump_program = Inr p' \<and>
      map fst (prog_lines p') = map renumbered_line [0..<length (prog_lines jump_program)] \<and>
      snd (prog_lines p' ! 2) = joinTokens ([''GOTO''] @ [show_int (renumbered_line 1)])"
    using renumber_follows_targets [OF ok] unfolding Let_def by blast
  moreover have "map renumbered_line [0..<length (prog_lines jump_program)] = [10, 20, 30]"
    "joinTokens ([''GOTO''] @ [show_int (renumbered_line 1)]) = ''GOTO 20''" by code_simp+
  ultimately show ?thesis by simp
qed

end
