(* ===== verification/Proc.thy ===== *)
theory Proc
  imports Basic_Shell English
begin

text \<open>
  The PROC interpreter (\<open>ProcInterpreter.cpp\<close>) and the way the TCL shell runs it (\<open>cmdProc\<close> and its helpers in
  \<open>Shell.cpp\<close>).  A script is a list of lines; labels and \<open>LOOP\<close>/\<open>REPEAT\<close> pairs are found first, then
  statements run one after another.  The host gives the interpreter its TCL commands, system variables, select lists and record locks.
  A script need not end: the main loop is a partial function.
\<close>

section \<open>Tokens\<close>

definition trim_proc :: "string \<Rightarrow> string" where
  "trim_proc text = strip isspace text"

definition isReadonlySessionAtTarget :: "string \<Rightarrow> bool" where
  "isReadonlySessionAtTarget token \<longleftrightarrow> upperCopy token \<in> {''@USERNO'', ''@ACCOUNT'', ''@LOGNAME'', ''@DEFDATA''}"

definition tokenEq :: "string \<Rightarrow> string \<Rightarrow> bool" where
  "tokenEq token target \<longleftrightarrow> upperCopy token = upperCopy target"

datatype Command =
    CDisplay | CInput | CIf | CGo | CTcl | CEnd | CReturn | CLoop | CRepeat | CExit | CExitIf | CSelect | CReadNext | CReadU | CWriteU
  | CRelease | CAssignment | CUnknown

definition canonicalKeyword :: "string \<Rightarrow> string" where
  "canonicalKeyword token =
     (let up = upperCopy token
      in if up \<in> {''DISPLAY'', ''D''} then ''DISPLAY''
         else if up \<in> {''INPUT'', ''I''} then ''INPUT''
         else if up \<in> {''GO'', ''G''} then ''GO''
         else if up \<in> {''TCL'', ''T''} then ''TCL''
         else if up \<in> {''END'', ''E''} then ''END''
         else if up \<in> {''SELECT'', ''S''} then ''SELECT''
         else if up \<in> {''READNEXT'', ''RN''} then ''READNEXT''
         else up)"

definition commandFromCanonical :: "string \<Rightarrow> Command" where
  "commandFromCanonical keyword =
     (case map_of [(''DISPLAY'', CDisplay), (''INPUT'', CInput), (''IF'', CIf), (''GO'', CGo), (''TCL'', CTcl), (''END'', CEnd),
          (''RETURN'', CReturn), (''LOOP'', CLoop), (''REPEAT'', CRepeat), (''EXIT'', CExit), (''EXITIF'', CExitIf),
          (''SELECT'', CSelect), (''READNEXT'', CReadNext), (''READU'', CReadU), (''WRITEU'', CWriteU), (''RELEASE'', CRelease)] keyword of
        Some c \<Rightarrow> c
      | None \<Rightarrow> CUnknown)"

text \<open>An assignment is recognised before the keywords, so a variable may be called \<open>D\<close>.\<close>

definition parseStatement :: "string list \<Rightarrow> Command" where
  "parseStatement tokens =
     (if tokens = [] then CUnknown
      else if 3 \<le> length tokens \<and> tokens ! 1 = ''='' then CAssignment
      else commandFromCanonical (canonicalKeyword (tokens ! 0)))"

section \<open>Conditions\<close>

record IfParts =
  lhsTokens :: "string list"
  rhsTokens :: "string list"
  thenTokens :: "string list"
  elseTokens :: "string list"

definition first_at :: "(string \<Rightarrow> bool) \<Rightarrow> string list \<Rightarrow> nat option" where
  "first_at p tokens = find (\<lambda>i. p (tokens ! i)) [1..<length tokens]"

definition slice :: "'a list \<Rightarrow> nat \<Rightarrow> nat \<Rightarrow> 'a list" where
  "slice xs a b = take (b - a) (drop a xs)"

definition parseIfParts :: "string list \<Rightarrow> IfParts option" where
  "parseIfParts tokens =
     (if length tokens < 6 \<or> canonicalKeyword (tokens ! 0) \<noteq> ''IF'' then None
      else case (first_at (\<lambda>t. t = ''='') tokens, first_at (\<lambda>t. tokenEq t ''THEN'') tokens) of
             (Some eqPos, Some thenPos) \<Rightarrow>
               if eqPos \<le> 1 \<or> thenPos \<le> eqPos + 1 \<or> length tokens \<le> thenPos + 1 then None
               else (case first_at (\<lambda>t. tokenEq t ''ELSE'') tokens of
                       None \<Rightarrow>
                         Some \<lparr>lhsTokens = slice tokens 1 eqPos, rhsTokens = slice tokens (eqPos + 1) thenPos,
                           thenTokens = drop (thenPos + 1) tokens, elseTokens = []\<rparr>
                     | Some elsePos \<Rightarrow>
                         if elsePos \<le> thenPos + 1 then None
                         else Some \<lparr>lhsTokens = slice tokens 1 eqPos, rhsTokens = slice tokens (eqPos + 1) thenPos,
                           thenTokens = slice tokens (thenPos + 1) elsePos, elseTokens = drop (elsePos + 1) tokens\<rparr>)
           | _ \<Rightarrow> None)"

definition parseExitIfCondition :: "string list \<Rightarrow> (string list \<times> string list) option" where
  "parseExitIfCondition tokens =
     (if length tokens < 3 then None
      else case first_at (\<lambda>t. t = ''='') tokens of
             None \<Rightarrow> None
           | Some eqPos \<Rightarrow> if eqPos \<le> 1 then None else Some (slice tokens 1 eqPos, drop (eqPos + 1) tokens))"

section \<open>Labels and loops\<close>

definition is_label_line :: "string \<Rightarrow> bool" where
  "is_label_line line \<longleftrightarrow> trim_proc line \<noteq> [] \<and> last (trim_proc line) = CHR '':''"

definition skipped_line :: "string \<Rightarrow> bool" where
  "skipped_line line \<longleftrightarrow> trim_proc line = [] \<or> last (trim_proc line) = CHR '':''"

fun collect_labels :: "nat \<Rightarrow> string list \<Rightarrow> (string \<times> nat) list \<Rightarrow> string + (string \<times> nat) list" where
  "collect_labels i [] known = Inr known"
| "collect_labels i (line # lines) known =
     (if \<not> is_label_line line then collect_labels (Suc i) lines known
      else let label = trim_proc (butlast (trim_proc line)); canon = upperCopy label
           in if label = [] then Inl (''Error: Invalid label line'' @ [LF])
              else if map_of known canon \<noteq> None then Inl (''Error: Duplicate label: '' @ canon @ [LF])
              else collect_labels (Suc i) lines (map_put canon i known))"

text \<open>The stack holds the open loops, the innermost first.  The pairs are collected instead of the two index vectors.\<close>

fun loop_pairs :: "nat \<Rightarrow> string list \<Rightarrow> nat list \<Rightarrow> (nat \<times> nat) list \<Rightarrow> string + (nat \<times> nat) list" where
  "loop_pairs i [] opened pairs = (if opened = [] then Inr pairs else Inl (''Error: LOOP without REPEAT'' @ [LF]))"
| "loop_pairs i (line # lines) opened pairs =
     (if skipped_line line then loop_pairs (Suc i) lines opened pairs
      else case parseStatement (words_of (trim_proc line)) of
             CLoop \<Rightarrow> loop_pairs (Suc i) lines (i # opened) pairs
           | CRepeat \<Rightarrow>
               (case opened of
                  [] \<Rightarrow> Inl (''Error: REPEAT without LOOP'' @ [LF])
                | l # opened' \<Rightarrow> loop_pairs (Suc i) lines opened' ((l, i) # pairs))
           | _ \<Rightarrow> loop_pairs (Suc i) lines opened pairs)"

definition buildLoopPairs :: "string list \<Rightarrow> string + (nat \<times> nat) list" where
  "buildLoopPairs lines = loop_pairs 0 lines [] []"

record ProcScript =
  script_lines :: "string list"
  script_labels :: "(string \<times> nat) list"
  script_pairs :: "(nat \<times> nat) list"

definition loopToRepeat :: "ProcScript \<Rightarrow> nat \<Rightarrow> nat option" where
  "loopToRepeat sc pc = map_of (script_pairs sc) pc"

definition repeatToLoop :: "ProcScript \<Rightarrow> nat \<Rightarrow> nat option" where
  "repeatToLoop sc pc = map_of (map prod.swap (script_pairs sc)) pc"

definition prepare :: "string list \<Rightarrow> string + ProcScript" where
  "prepare lines =
     bindE (collect_labels 0 lines []) (\<lambda>known.
     bindE (buildLoopPairs lines) (\<lambda>pairs.
       Inr \<lparr>script_lines = lines, script_labels = known, script_pairs = pairs\<rparr>))"

section \<open>The host and the state\<close>

datatype ProcLockOutcome = LockSuccess | Locked | MissingRecord | HardError

text \<open>
  What the interpreter calls.  A refusal carries its message; \<open>readNextFn\<close> gives the record id and the error text, \<open>readUFn\<close>
  the outcome, the record and the error text, \<open>writeUFn\<close> the outcome and the error text.
\<close>

record 'w ProcHost =
  tclBridgeFn :: "string \<Rightarrow> ('w \<times> string, unit) action"
  sessionAtFn :: "('w \<Rightarrow> string \<Rightarrow> string option) option"
  selectFn :: "(string \<Rightarrow> ('w, string option) action) option"
  readNextFn :: "('w, string option \<times> string) action option"
  readUFn :: "(string \<Rightarrow> string \<Rightarrow> ('w, ProcLockOutcome \<times> string \<times> string) action) option"
  writeUFn :: "(string \<Rightarrow> string \<Rightarrow> string \<Rightarrow> ('w, ProcLockOutcome \<times> string) action) option"
  releaseFn :: "(string \<Rightarrow> string \<Rightarrow> ('w, string option) action) option"

record LoopFrame =
  loopPc :: nat
  repeatPc :: nat

text \<open>The innermost loop is the last frame, as at the back of the vector.\<close>

record 'w ProcState =
  proc_vars :: "(string \<times> string) list"
  proc_frames :: "LoopFrame list"
  proc_in :: "string list"
  proc_out :: string
  proc_world :: 'w

definition session_at :: "'w ProcHost \<Rightarrow> 'w ProcState \<Rightarrow> string \<Rightarrow> string option" where
  "session_at host s token = (case sessionAtFn host of None \<Rightarrow> None | Some f \<Rightarrow> f (proc_world s) token)"

definition substituteToken :: "'w ProcHost \<Rightarrow> 'w ProcState \<Rightarrow> string \<Rightarrow> string" where
  "substituteToken host s token =
     (case map_of (proc_vars s) token of
        Some v \<Rightarrow> v
      | None \<Rightarrow> (case session_at host s token of Some v \<Rightarrow> v | None \<Rightarrow> token))"

definition substituteTokens :: "'w ProcHost \<Rightarrow> 'w ProcState \<Rightarrow> string list \<Rightarrow> string list" where
  "substituteTokens host s tokens = map (substituteToken host s) tokens"

definition evalValue :: "'w ProcHost \<Rightarrow> 'w ProcState \<Rightarrow> string list \<Rightarrow> string" where
  "evalValue host s tokens = joinTokens (substituteTokens host s tokens)"

definition defaultDataFile :: "'w ProcHost \<Rightarrow> 'w ProcState \<Rightarrow> string option" where
  "defaultDataFile host s = (case session_at host s ''@DEFDATA'' of Some (c # cs) \<Rightarrow> Some (c # cs) | _ \<Rightarrow> None)"

definition parseFileRecordPair :: "'w ProcHost \<Rightarrow> 'w ProcState \<Rightarrow> string list \<Rightarrow> (string \<times> string) option" where
  "parseFileRecordPair host s operands =
     (case operands of
        [f, i] \<Rightarrow> Some (f, i)
      | [i] \<Rightarrow> map_option (\<lambda>f. (f, i)) (defaultDataFile host s)
      | _ \<Rightarrow> None)"

section \<open>Statements\<close>

text \<open>
  A statement answers the next line, or \<open>None\<close> when the script ends with an error.  In the arm of an \<open>IF\<close> it stays on
  its line.
\<close>

type_synonym 'w statement = "('w ProcState, nat option) action"

definition proc_say :: "string \<Rightarrow> ('w ProcState, unit) action" where
  "proc_say t = updS (\<lambda>s. s\<lparr>proc_out := proc_out s @ t\<rparr>)"

definition proc_fail :: "string \<Rightarrow> 'w statement" where
  "proc_fail message = bindS (proc_say (''Error: '' @ message @ [LF])) (\<lambda>_. retS None)"

definition advance :: "nat \<Rightarrow> bool \<Rightarrow> 'w statement" where
  "advance pc inlineStmt = retS (Some (if inlineStmt then pc else Suc pc))"

definition set_var :: "string \<Rightarrow> string \<Rightarrow> ('w ProcState, unit) action" where
  "set_var x v = updS (\<lambda>s. s\<lparr>proc_vars := map_put x v (proc_vars s)\<rparr>)"

definition on_world :: "('w, 'a) action \<Rightarrow> ('w ProcState, 'a) action" where
  "on_world a s = (case a (proc_world s) of (r, w) \<Rightarrow> (r, s\<lparr>proc_world := w\<rparr>))"

definition clearProcErr :: "('w ProcState, unit) action" where
  "clearProcErr = set_var ''PROCERR'' []"

definition setProcLocked :: "('w ProcState, unit) action" where
  "setProcLocked = set_var ''PROCERR'' ''?LOCKED?''"

definition exec_display :: "'w ProcHost \<Rightarrow> string list \<Rightarrow> nat \<Rightarrow> bool \<Rightarrow> 'w statement" where
  "exec_display host tokens pc inlineStmt =
     bindS (getS (\<lambda>s. evalValue host s (drop 1 tokens))) (\<lambda>t. bindS (proc_say (t @ [LF])) (\<lambda>_. advance pc inlineStmt))"

text \<open>At the end of the input the variable becomes empty.\<close>

definition exec_input :: "string list \<Rightarrow> nat \<Rightarrow> bool \<Rightarrow> 'w statement" where
  "exec_input tokens pc inlineStmt =
     (if length tokens \<noteq> 2 then proc_fail ''INPUT requires a variable name''
      else if isReadonlySessionAtTarget (tokens ! 1) then proc_fail ''Read-only system variable''
      else bindS (getS proc_in) (\<lambda>ls.
             bindS (updS (\<lambda>s. s\<lparr>proc_in := drop 1 ls\<rparr>)) (\<lambda>_.
               bindS (set_var (tokens ! 1) (case ls of [] \<Rightarrow> [] | l # _ \<Rightarrow> l)) (\<lambda>_. advance pc inlineStmt))))"

definition exec_go :: "ProcScript \<Rightarrow> string list \<Rightarrow> 'w statement" where
  "exec_go sc tokens =
     (if length tokens \<noteq> 2 then proc_fail ''GO requires a label''
      else case map_of (script_labels sc) (upperCopy (tokens ! 1)) of
             None \<Rightarrow> proc_fail (''Unknown label: '' @ tokens ! 1)
           | Some pc \<Rightarrow> retS (Some pc))"

definition exec_tcl :: "'w ProcHost \<Rightarrow> string list \<Rightarrow> nat \<Rightarrow> bool \<Rightarrow> 'w statement" where
  "exec_tcl host tokens pc inlineStmt =
     bindS (getS (\<lambda>s. evalValue host s (drop 1 tokens))) (\<lambda>cmd.
       bindS (\<lambda>s. case tclBridgeFn host cmd (proc_world s, proc_out s) of (r, w, out) \<Rightarrow> (r, s\<lparr>proc_world := w, proc_out := out\<rparr>))
         (\<lambda>_. advance pc inlineStmt))"

definition exec_loop :: "ProcScript \<Rightarrow> nat \<Rightarrow> bool \<Rightarrow> 'w statement" where
  "exec_loop sc pc inlineStmt =
     (case loopToRepeat sc pc of
        None \<Rightarrow> proc_fail ''LOOP without REPEAT''
      | Some r \<Rightarrow>
          bindS (updS (\<lambda>s. if proc_frames s = [] \<or> loopPc (last (proc_frames s)) \<noteq> pc
                           then s\<lparr>proc_frames := proc_frames s @ [\<lparr>loopPc = pc, repeatPc = r\<rparr>]\<rparr> else s))
            (\<lambda>_. advance pc inlineStmt))"

definition exec_repeat :: "ProcScript \<Rightarrow> nat \<Rightarrow> 'w statement" where
  "exec_repeat sc pc =
     (case repeatToLoop sc pc of
        None \<Rightarrow> proc_fail ''REPEAT without LOOP''
      | Some l \<Rightarrow> retS (Some (Suc l)))"

text \<open>The frames of the loops around the line stay.\<close>

definition syncLoopFramesForPc :: "nat \<Rightarrow> LoopFrame list \<Rightarrow> LoopFrame list" where
  "syncLoopFramesForPc pc frames = filter (\<lambda>f. \<not> (pc \<le> loopPc f \<or> repeatPc f < pc)) frames"

definition exec_exit :: "nat \<Rightarrow> 'w statement" where
  "exec_exit pc =
     bindS (updS (\<lambda>s. s\<lparr>proc_frames := syncLoopFramesForPc pc (proc_frames s)\<rparr>)) (\<lambda>_.
     bindS (getS proc_frames) (\<lambda>frames.
       if frames = [] then proc_fail ''EXIT outside LOOP''
       else bindS (updS (\<lambda>s. s\<lparr>proc_frames := butlast frames\<rparr>)) (\<lambda>_. retS (Some (Suc (repeatPc (last frames)))))))"

definition exec_exitif :: "'w ProcHost \<Rightarrow> string list \<Rightarrow> nat \<Rightarrow> bool \<Rightarrow> 'w statement" where
  "exec_exitif host tokens pc inlineStmt =
     (case parseExitIfCondition tokens of
        None \<Rightarrow> proc_fail ''EXITIF requires EXITIF <lhs> = <rhs>''
      | Some (lhs, rhs) \<Rightarrow>
          bindS (getS (\<lambda>s. evalValue host s lhs = evalValue host s rhs)) (\<lambda>equal.
            if equal then exec_exit pc else advance pc inlineStmt))"

definition exec_select :: "'w ProcHost \<Rightarrow> string list \<Rightarrow> nat \<Rightarrow> bool \<Rightarrow> 'w statement" where
  "exec_select host tokens pc inlineStmt =
     (if length tokens \<noteq> 2 then proc_fail ''SELECT requires a filename''
      else case selectFn host of
             None \<Rightarrow> proc_fail ''SELECT not available in this PROC host''
           | Some select \<Rightarrow>
               bindS (getS (\<lambda>s. substituteToken host s (tokens ! 1))) (\<lambda>f.
               bindS (on_world (select f)) (\<lambda>failure.
                 case failure of Some error \<Rightarrow> proc_fail error | None \<Rightarrow> advance pc inlineStmt)))"

definition exec_readnext :: "'w ProcHost \<Rightarrow> string list \<Rightarrow> nat \<Rightarrow> bool \<Rightarrow> 'w statement" where
  "exec_readnext host tokens pc inlineStmt =
     (if length tokens \<noteq> 2 then proc_fail ''READNEXT requires a variable name''
      else if isReadonlySessionAtTarget (tokens ! 1) then proc_fail ''Read-only system variable''
      else case readNextFn host of
             None \<Rightarrow> proc_fail ''READNEXT not available in this PROC host''
           | Some next \<Rightarrow>
               bindS (on_world next) (\<lambda>(nextId, error).
                 if nextId = None \<and> error \<noteq> [] then proc_fail error
                 else bindS (set_var (tokens ! 1) (case nextId of Some i \<Rightarrow> i | None \<Rightarrow> [])) (\<lambda>_. advance pc inlineStmt)))"

definition exec_readu :: "'w ProcHost \<Rightarrow> string list \<Rightarrow> nat \<Rightarrow> bool \<Rightarrow> 'w statement" where
  "exec_readu host tokens pc inlineStmt =
     (if length tokens < 3 then proc_fail ''READU requires a variable and file/record operands''
      else if isReadonlySessionAtTarget (tokens ! 1) then proc_fail ''Read-only system variable''
      else case readUFn host of
             None \<Rightarrow> proc_fail ''READU not available in this PROC host''
           | Some read \<Rightarrow>
               bindS (getS (\<lambda>s. parseFileRecordPair host s (substituteTokens host s (drop 2 tokens)))) (\<lambda>target.
                 case target of
                   None \<Rightarrow> proc_fail ''READU requires <var> <file> <id> or <var> <id> when MD DEFDATA is set''
                 | Some (f, i) \<Rightarrow>
                     bindS (on_world (read f i)) (\<lambda>(outcome, recordBody, hardError).
                       case outcome of
                         Locked \<Rightarrow> bindS setProcLocked (\<lambda>_. advance pc inlineStmt)
                       | LockSuccess \<Rightarrow> bindS (set_var (tokens ! 1) recordBody) (\<lambda>_. bindS clearProcErr (\<lambda>_. advance pc inlineStmt))
                       | MissingRecord \<Rightarrow> proc_fail ''No such record''
                       | HardError \<Rightarrow> proc_fail hardError)))"

definition writeu_target :: "'w ProcHost \<Rightarrow> 'w ProcState \<Rightarrow> string list \<Rightarrow> (string \<times> string \<times> string) option" where
  "writeu_target host s operands =
     (let target = (case operands of
          f # i # v # vs \<Rightarrow> Some (f, i, joinTokens (v # vs))
        | [i, v] \<Rightarrow> map_option (\<lambda>f. (f, i, v)) (defaultDataFile host s)
        | _ \<Rightarrow> None)
      in case target of Some (f, i, v) \<Rightarrow> if v = [] then None else Some (f, i, v) | None \<Rightarrow> None)"

definition exec_writeu :: "'w ProcHost \<Rightarrow> string list \<Rightarrow> nat \<Rightarrow> bool \<Rightarrow> 'w statement" where
  "exec_writeu host tokens pc inlineStmt =
     (if length tokens < 3 then proc_fail ''WRITEU requires file/record/value operands''
      else case writeUFn host of
             None \<Rightarrow> proc_fail ''WRITEU not available in this PROC host''
           | Some write \<Rightarrow>
               bindS (getS (\<lambda>s. writeu_target host s (substituteTokens host s (drop 1 tokens)))) (\<lambda>target.
                 case target of
                   None \<Rightarrow> proc_fail ''WRITEU requires <file> <id> <value> or <id> <value> when MD DEFDATA is set''
                 | Some (f, i, v) \<Rightarrow>
                     bindS (on_world (write f i v)) (\<lambda>(outcome, hardError).
                       case outcome of
                         Locked \<Rightarrow> bindS setProcLocked (\<lambda>_. advance pc inlineStmt)
                       | LockSuccess \<Rightarrow> bindS clearProcErr (\<lambda>_. advance pc inlineStmt)
                       | _ \<Rightarrow> proc_fail hardError)))"

definition exec_release :: "'w ProcHost \<Rightarrow> string list \<Rightarrow> nat \<Rightarrow> bool \<Rightarrow> 'w statement" where
  "exec_release host tokens pc inlineStmt =
     (if length tokens < 2 then proc_fail ''RELEASE requires file/record operands''
      else case releaseFn host of
             None \<Rightarrow> proc_fail ''RELEASE not available in this PROC host''
           | Some releaseRec \<Rightarrow>
               bindS (getS (\<lambda>s. parseFileRecordPair host s (substituteTokens host s (drop 1 tokens)))) (\<lambda>target.
                 case target of
                   None \<Rightarrow> proc_fail ''RELEASE requires <file> <id> or <id> when MD DEFDATA is set''
                 | Some (f, i) \<Rightarrow>
                     bindS (on_world (releaseRec f i)) (\<lambda>failure.
                       case failure of
                         Some hardError \<Rightarrow> proc_fail hardError
                       | None \<Rightarrow> bindS clearProcErr (\<lambda>_. advance pc inlineStmt))))"

definition exec_assignment :: "'w ProcHost \<Rightarrow> string list \<Rightarrow> nat \<Rightarrow> bool \<Rightarrow> 'w statement" where
  "exec_assignment host tokens pc inlineStmt =
     (if isReadonlySessionAtTarget (tokens ! 0) then proc_fail ''Read-only system variable''
      else bindS (getS (\<lambda>s. evalValue host s (drop 2 tokens))) (\<lambda>v. bindS (set_var (tokens ! 0) v) (\<lambda>_. advance pc inlineStmt)))"

text \<open>Every statement but \<open>IF\<close>.\<close>

definition exec_plain :: "'w ProcHost \<Rightarrow> ProcScript \<Rightarrow> string list \<Rightarrow> nat \<Rightarrow> bool \<Rightarrow> 'w statement" where
  "exec_plain host sc tokens pc inlineStmt =
     (case parseStatement tokens of
        CDisplay \<Rightarrow> exec_display host tokens pc inlineStmt
      | CInput \<Rightarrow> exec_input tokens pc inlineStmt
      | CGo \<Rightarrow> exec_go sc tokens
      | CTcl \<Rightarrow> exec_tcl host tokens pc inlineStmt
      | CEnd \<Rightarrow> retS (Some (length (script_lines sc)))
      | CReturn \<Rightarrow> retS (Some (length (script_lines sc)))
      | CLoop \<Rightarrow> exec_loop sc pc inlineStmt
      | CRepeat \<Rightarrow> exec_repeat sc pc
      | CExit \<Rightarrow> exec_exit pc
      | CExitIf \<Rightarrow> exec_exitif host tokens pc inlineStmt
      | CSelect \<Rightarrow> exec_select host tokens pc inlineStmt
      | CReadNext \<Rightarrow> exec_readnext host tokens pc inlineStmt
      | CReadU \<Rightarrow> exec_readu host tokens pc inlineStmt
      | CWriteU \<Rightarrow> exec_writeu host tokens pc inlineStmt
      | CRelease \<Rightarrow> exec_release host tokens pc inlineStmt
      | CAssignment \<Rightarrow> exec_assignment host tokens pc inlineStmt
      | _ \<Rightarrow> proc_fail ''Unknown PROC statement'')"

lemma branch_shorter:
  "parseIfParts tokens = Some parts \<Longrightarrow> length (thenTokens parts) < length tokens \<and> length (elseTokens parts) < length tokens"
  by (auto simp: parseIfParts_def slice_def split: if_splits option.splits)

text \<open>An \<open>IF\<close> whose arm stays on the line goes on to the next one.\<close>

function execStatement :: "'w ProcHost \<Rightarrow> ProcScript \<Rightarrow> string list \<Rightarrow> nat \<Rightarrow> bool \<Rightarrow> 'w statement" where
  "execStatement host sc tokens pc inlineStmt =
     (if parseStatement tokens = CIf then
        (case parseIfParts tokens of
           None \<Rightarrow> proc_fail ''IF requires IF <lhs> = <rhs> THEN GO <label>''
         | Some parts \<Rightarrow>
             bindS (getS (\<lambda>s. evalValue host s (lhsTokens parts) = evalValue host s (rhsTokens parts))) (\<lambda>truthy.
               let branch = if truthy then thenTokens parts else elseTokens parts
               in if branch = [] then advance pc inlineStmt
                  else bindS (execStatement host sc branch pc True) (\<lambda>next.
                    retS (map_option (\<lambda>branchPc. if \<not> inlineStmt \<and> branchPc = pc then Suc pc else branchPc) next))))
      else exec_plain host sc tokens pc inlineStmt)"
  by pat_completeness auto
termination
  by (relation "measure (\<lambda>(_, _, tokens, _, _). length tokens)") (auto dest: branch_shorter split: if_splits)

declare execStatement.simps [simp del]

section \<open>The main loop\<close>

text \<open>One line: where to go on, or the answer of the script.\<close>

definition proc_step :: "'w ProcHost \<Rightarrow> ProcScript \<Rightarrow> nat \<Rightarrow> 'w ProcState \<Rightarrow> (bool result \<times> 'w ProcState) + (nat \<times> 'w ProcState)" where
  "proc_step host sc pc s =
     (if length (script_lines sc) \<le> pc then Inl (Inr True, s)
      else if skipped_line (script_lines sc ! pc) then Inr (Suc pc, s)
      else let s' = s\<lparr>proc_frames := syncLoopFramesForPc pc (proc_frames s)\<rparr>;
               tokens = words_of (trim_proc (script_lines sc ! pc))
           in if tokens = [] then Inr (Suc pc, s')
              else case execStatement host sc tokens pc False s' of
                     (Inl e, t) \<Rightarrow> Inl (Inl e, t)
                   | (Inr None, t) \<Rightarrow> Inl (Inr False, t)
                   | (Inr (Some pc'), t) \<Rightarrow> Inr (pc', t))"

partial_function (option) proc_loop :: "'w ProcHost \<Rightarrow> ProcScript \<Rightarrow> nat \<Rightarrow> 'w ProcState \<Rightarrow> (bool result \<times> 'w ProcState) option" where
  "proc_loop host sc pc s =
     (case proc_step host sc pc s of Inl answer \<Rightarrow> Some answer | Inr (pc', s') \<Rightarrow> proc_loop host sc pc' s')"

definition param_vars :: "string list \<Rightarrow> (string \<times> string) list" where
  "param_vars params = map (\<lambda>i. (CHR ''P'' # show_nat (i + 1), params ! i)) [0..<length params]"

definition runScript :: "'w ProcHost \<Rightarrow> string list \<Rightarrow> string list \<Rightarrow> string list \<Rightarrow> 'w \<Rightarrow> string \<Rightarrow> (bool result \<times> 'w ProcState) option" where
  "runScript host lines params input w out =
     (case prepare lines of
        Inl message \<Rightarrow>
          Some (Inr False, \<lparr>proc_vars = [], proc_frames = [], proc_in = input, proc_out = out @ message, proc_world = w\<rparr>)
      | Inr sc \<Rightarrow>
          proc_loop host sc 0
            \<lparr>proc_vars = param_vars params, proc_frames = [], proc_in = input, proc_out = out, proc_world = w\<rparr>)"

end
