(* ===== verification/Session.thy ===== *)
theory Session
  imports Voc Machine_Execution
begin

text \<open>
  A user's session (\<open>GeminiSession.cpp\<close>) with the variables of the command language (\<open>TclEnvironment.cpp\<close>) and the default
  data file of the master dictionary (\<open>MdDefaultDataFile.cpp\<close>).  A session owns a virtual machine, a view of the file system, a
  vocabulary and its identity; the lock table is shared between sessions and belongs to the world the machine runs in.  Logging on binds a
  lock identity, logging off, resetting and destroying give the locks back.
\<close>

section \<open>Variables of the command language\<close>

type_synonym TclEnvironment = "(string \<times> string) list"

definition tclSet :: "string \<Rightarrow> string \<Rightarrow> TclEnvironment \<Rightarrow> bool \<times> TclEnvironment" where
  "tclSet name value env = (if name = [] then (False, env) else (True, map_put (upperCopy name) value env))"

definition tclGet :: "string \<Rightarrow> TclEnvironment \<Rightarrow> string option" where
  "tclGet name env = map_of env (upperCopy name)"

definition tclUnset :: "string \<Rightarrow> TclEnvironment \<Rightarrow> bool \<times> TclEnvironment" where
  "tclUnset name env = (map_of env (upperCopy name) \<noteq> None, map_erase (upperCopy name) env)"

definition tclNames :: "TclEnvironment \<Rightarrow> string list" where
  "tclNames env = sort (map fst env)"

section \<open>The default data file\<close>

definition trimAsciiWs :: "string \<Rightarrow> string" where
  "trimAsciiWs s =
     rev (dropWhile (\<lambda>c. c \<in> {SP, TAB, CR, LF}) (rev (dropWhile (\<lambda>c. c \<in> {SP, TAB, CR}) s)))"

definition loadDefaultDataFileFromMd :: "host \<Rightarrow> FileSystem \<Rightarrow> world \<Rightarrow> string option result" where
  "loadDefaultDataFileFromMd h fs w =
     (case readFS h fs w ''MD'' ''DEFDATA'' of
        Inl (FileSystemError _) \<Rightarrow> Inr None
      | Inl e \<Rightarrow> Inl e
      | Inr None \<Rightarrow> Inr None
      | Inr (Some rec) \<Rightarrow>
          (case filter (\<lambda>l. l \<noteq> []) (map trimAsciiWs (getlines LF (recValue rec))) of
             [] \<Rightarrow> Inr None
           | l # _ \<Rightarrow> Inr (if isValidName l then Some l else None)))"

section \<open>The session\<close>

record UserSession =
  user_catalogRoot :: path
  user_pickRoot :: path
  user_name :: string
  user_account :: string
  user_whoPort :: int
  user_no :: string

record GeminiSession =
  gs_runtime :: Runtime
  gs_env :: TclEnvironment
  gs_fileSystem :: FileSystem
  gs_voc :: VocResolver
  geminiCatalogRoot :: "path option"
  loggedIn :: bool
  whoPort :: int
  daemonPortAssigned :: bool
  sessionUsername :: string
  sessionAccount :: string
  userNo :: string
  md_defaultDataFile :: "string option"
  activeList :: "string list"
  activeListSourceFile :: "string option"
  lastLoaded :: "LoadedBytecode option"
  reportPageLength :: int
  traceOn :: bool
  breakpoints :: "nat list"
  suspended :: bool
  resumePastBreakpointIp :: "nat option"
  hasSharedLockTable :: bool
  sessionLockId :: string

type_synonym session_action = "(GeminiSession, unit) action"

definition gs_world :: "GeminiSession \<Rightarrow> world" where
  "gs_world s = vmWorld (gs_runtime s)"

definition set_world :: "world \<Rightarrow> GeminiSession \<Rightarrow> GeminiSession" where
  "set_world w s = s\<lparr>gs_runtime := (gs_runtime s)\<lparr>vmWorld := w\<rparr>\<rparr>"

section \<open>Locks\<close>

definition makeSessionLockId :: "int \<Rightarrow> string \<Rightarrow> string \<Rightarrow> string" where
  "makeSessionLockId port account username = ''S:'' @ show_int port @ '':'' @ account @ '':'' @ username"

definition syncLockContextToFileSystem :: "GeminiSession \<Rightarrow> GeminiSession" where
  "syncLockContextToFileSystem s =
     s\<lparr>gs_fileSystem := (if hasSharedLockTable s \<and> sessionLockId s \<noteq> []
        then setLockContext (sessionLockId s) (gs_fileSystem s) else clearLockContext (gs_fileSystem s))\<rparr>"

definition bindLockSession :: "string \<Rightarrow> GeminiSession \<Rightarrow> GeminiSession" where
  "bindLockSession lockId s = syncLockContextToFileSystem (s\<lparr>sessionLockId := lockId\<rparr>)"

definition setSharedLockTable :: "bool \<Rightarrow> GeminiSession \<Rightarrow> GeminiSession" where
  "setSharedLockTable table s = syncLockContextToFileSystem (s\<lparr>hasSharedLockTable := table\<rparr>)"

definition releaseSessionLocks :: "GeminiSession \<Rightarrow> GeminiSession" where
  "releaseSessionLocks s =
     (if hasSharedLockTable s \<and> sessionLockId s \<noteq> []
      then set_world ((gs_world s)\<lparr>lock_table := snd (releaseAllForSession (lock_table (gs_world s)) (sessionLockId s))\<rparr>) s
      else s)"

section \<open>Identity and lists\<close>

definition clearActiveList :: "GeminiSession \<Rightarrow> GeminiSession" where
  "clearActiveList s = s\<lparr>activeList := [], activeListSourceFile := None\<rparr>"

definition setActiveList :: "string list \<Rightarrow> string \<Rightarrow> GeminiSession \<Rightarrow> GeminiSession" where
  "setActiveList ids sourceFile s = s\<lparr>activeList := ids, activeListSourceFile := Some sourceFile\<rparr>"

definition setReportPageLength :: "int \<Rightarrow> GeminiSession \<Rightarrow> GeminiSession" where
  "setReportPageLength n s = s\<lparr>reportPageLength := (if n < 1 then 1 else n)\<rparr>"

definition setDaemonPort :: "int \<Rightarrow> GeminiSession \<Rightarrow> GeminiSession" where
  "setDaemonPort port s = s\<lparr>whoPort := port, daemonPortAssigned := True\<rparr>"

definition setSessionIdentity :: "int \<Rightarrow> string \<Rightarrow> string \<Rightarrow> GeminiSession \<Rightarrow> GeminiSession" where
  "setSessionIdentity port username account s = s\<lparr>whoPort := port, sessionUsername := username, sessionAccount := account\<rparr>"

definition isSessionSystemVariableName :: "string \<Rightarrow> bool" where
  "isSessionSystemVariableName name \<longleftrightarrow> upperCopy name \<in> {''@USERNO'', ''@ACCOUNT'', ''@LOGNAME'', ''@DEFDATA''}"

definition resolveSystemVariable :: "GeminiSession \<Rightarrow> string \<Rightarrow> string option" where
  "resolveSystemVariable s name =
     (let key = upperCopy name
      in if key = ''@USERNO'' then Some (userNo s)
         else if key = ''@ACCOUNT'' then Some (sessionAccount s)
         else if key = ''@LOGNAME'' then Some (sessionUsername s)
         else if key = ''@DEFDATA'' then Some (case md_defaultDataFile s of Some f \<Rightarrow> f | None \<Rightarrow> [])
         else None)"

definition reloadMdDefaultDataFile :: "host \<Rightarrow> session_action" where
  "reloadMdDefaultDataFile h =
     bindS (getS (\<lambda>s. loadDefaultDataFileFromMd h (gs_fileSystem s) (gs_world s))) (\<lambda>r.
     bindS (liftS r) (\<lambda>f. updS (\<lambda>s. s\<lparr>md_defaultDataFile := f\<rparr>)))"

definition setFileSystemRoot :: "host \<Rightarrow> path \<Rightarrow> session_action" where
  "setFileSystemRoot h newRoot =
     bindS (updS (\<lambda>s. s\<lparr>gs_fileSystem := (gs_fileSystem s)\<lparr>root := newRoot\<rparr>, gs_voc := invalidate (gs_voc s)\<rparr>)) (\<lambda>_.
     bindS (reloadMdDefaultDataFile h) (\<lambda>_.
       updS (syncLockContextToFileSystem \<circ> clearActiveList)))"

section \<open>Beginning and ending\<close>

definition resetSession :: "GeminiSession \<Rightarrow> GeminiSession" where
  "resetSession s0 =
     (let s = releaseSessionLocks s0
      in clearActiveList (s\<lparr>lastLoaded := None, suspended := False, resumePastBreakpointIp := None, breakpoints := [],
           traceOn := False, gs_env := []\<rparr>)\<lparr>gs_runtime := loadProgram [] [] (gs_runtime s)\<rparr>)"

definition detach :: "GeminiSession \<Rightarrow> GeminiSession" where
  "detach s0 =
     (let s = bindLockSession [] (releaseSessionLocks s0)
      in clearActiveList (s\<lparr>loggedIn := False, whoPort := (if daemonPortAssigned s then whoPort s else 0), sessionUsername := [],
           sessionAccount := [], userNo := ''0'', md_defaultDataFile := None, reportPageLength := 24\<rparr>))"

definition destroySession :: "GeminiSession \<Rightarrow> GeminiSession" where
  "destroySession s = resetSession (if loggedIn s then detach s else s)"

definition attached :: "UserSession \<Rightarrow> GeminiSession \<Rightarrow> GeminiSession" where
  "attached u s0 =
     (let s = resetSession s0;
          port = (if daemonPortAssigned s then whoPort s else user_whoPort u)
      in bindLockSession (makeSessionLockId port (user_account u) (user_name u))
           ((setSessionIdentity port (user_name u) (user_account u) s)
             \<lparr>loggedIn := True, userNo := (if user_no u = [] then ''0'' else user_no u)\<rparr>))"

definition attach :: "host \<Rightarrow> UserSession \<Rightarrow> session_action" where
  "attach h u =
     bindS (updS (\<lambda>s. s\<lparr>geminiCatalogRoot := Some (user_catalogRoot u)\<rparr>)) (\<lambda>_.
     bindS (setFileSystemRoot h (user_pickRoot u)) (\<lambda>_. updS (attached u)))"

section \<open>Running with breakpoints\<close>

definition pruneBreakpointsForProgram :: "nat \<Rightarrow> GeminiSession \<Rightarrow> string \<times> GeminiSession" where
  "pruneBreakpointsForProgram programSize s =
     (let removed = filter (\<lambda>b. programSize \<le> b) (breakpoints s)
      in (if removed = [] then []
          else ''Removed invalid breakpoint(s):'' @ concat (map (\<lambda>r. SP # show_nat r) (sort removed)) @ [LF],
          s\<lparr>breakpoints := filter (\<lambda>b. b < programSize) (breakpoints s)\<rparr>))"

text \<open>
  The streams of the session are those of its machine: a program runs with the input and the output of the shell.  \<open>reporting\<close> is
  the common handler that prints the message of an exception.
\<close>

definition gs_say :: "string \<Rightarrow> session_action" where
  "gs_say t = updS (\<lambda>s. s\<lparr>gs_runtime := (gs_runtime s)\<lparr>outStream := outStream (gs_runtime s) @ t\<rparr>\<rparr>)"

definition in_runtime :: "(Runtime, 'a) action \<Rightarrow> (GeminiSession, 'a) action" where
  "in_runtime a s = (case a (gs_runtime s) of (r, rt) \<Rightarrow> (r, s\<lparr>gs_runtime := rt\<rparr>))"

definition in_files :: "(FileSystem \<Rightarrow> world \<Rightarrow> 'a result \<times> world) \<Rightarrow> (GeminiSession, 'a) action" where
  "in_files a s = (case a (gs_fileSystem s) (gs_world s) of (r, w) \<Rightarrow> (r, set_world w s))"

definition from_files :: "(FileSystem \<Rightarrow> world \<Rightarrow> 'a result) \<Rightarrow> (GeminiSession, 'a) action" where
  "from_files a s = (a (gs_fileSystem s) (gs_world s), s)"

definition in_voc :: "(FileSystem \<Rightarrow> world \<Rightarrow> (VocResolver, 'a) action) \<Rightarrow> (GeminiSession, 'a) action" where
  "in_voc a s = (case a (gs_fileSystem s) (gs_world s) (gs_voc s) of (r, v) \<Rightarrow> (r, s\<lparr>gs_voc := v\<rparr>))"

definition voc_changed :: "GeminiSession \<Rightarrow> GeminiSession" where
  "voc_changed s = s\<lparr>gs_voc := invalidate (gs_voc s)\<rparr>"

definition catching :: "('s, 'a) action \<Rightarrow> (error \<Rightarrow> ('s, 'a) action option) \<Rightarrow> ('s, 'a) action" where
  "catching a handler s =
     (case a s of
        (Inr x, t) \<Rightarrow> (Inr x, t)
      | (Inl e, t) \<Rightarrow> (case handler e of Some b \<Rightarrow> b t | None \<Rightarrow> (Inl e, t)))"

definition reporting :: "session_action \<Rightarrow> session_action" where
  "reporting a =
     catching a (\<lambda>e. if is_std_exception e then Some (gs_say (''Error: '' @ error_what e @ [LF])) else None)"

text \<open>What the machine of a session runs in: the session's files and its system variables.\<close>

definition session_env :: "Env \<Rightarrow> GeminiSession \<Rightarrow> Env" where
  "session_env env s =
     env\<lparr>fileSystem := Some (gs_fileSystem s), systemVarReader := Some (\<lambda>n. map_option StrV (resolveSystemVariable s n))\<rparr>"

text \<open>One round of \<open>executeVmLoop\<close>: whether the loop goes on.\<close>

definition vm_round :: "Env \<Rightarrow> Instruction list \<Rightarrow> int list \<Rightarrow> (GeminiSession, bool) action" where
  "vm_round env prog lines =
     bindS (getS (\<lambda>s. (ip (gs_runtime s), resumePastBreakpointIp s = Some (ip (gs_runtime s))))) (\<lambda>(at_ip, skipBpOnce).
     bindS (updS (\<lambda>s. if skipBpOnce then s\<lparr>resumePastBreakpointIp := None\<rparr> else s)) (\<lambda>_.
     bindS (getS (\<lambda>s. \<not> skipBpOnce \<and> at_ip \<in> set (breakpoints s))) (\<lambda>hit.
       if hit then bindS (updS (\<lambda>s. s\<lparr>suspended := True\<rparr>)) (\<lambda>_.
                   bindS (gs_say (''Breakpoint hit at '' @ show_nat at_ip @ [LF])) (\<lambda>_. retS False))
       else bindS (getS traceOn) (\<lambda>tr.
            bindS (if tr then bindS (liftS (formatInstructionLine at_ip (prog ! at_ip) (Some lines))) (\<lambda>t. gs_say (t @ [LF]))
                   else retS ()) (\<lambda>_.
            bindS (getS (session_env env)) (\<lambda>env'.
            bindS (in_runtime (step env')) (\<lambda>goes_on.
              if goes_on then retS True
              else bindS (updS (\<lambda>s. s\<lparr>suspended := False\<rparr>)) (\<lambda>_. retS False))))))))"

partial_function (option) vm_rounds ::
    "Env \<Rightarrow> Instruction list \<Rightarrow> int list \<Rightarrow> GeminiSession \<Rightarrow> (unit result \<times> GeminiSession) option" where
  "vm_rounds env prog lines s =
     (if length prog \<le> ip (gs_runtime s) then Some (Inr (), s)
      else case vm_round env prog lines s of
             (Inl e, t) \<Rightarrow> Some (Inl e, t)
           | (Inr goes_on, t) \<Rightarrow> if goes_on then vm_rounds env prog lines t else Some (Inr (), t))"

definition executeVmLoop :: "Env \<Rightarrow> GeminiSession \<Rightarrow> (unit result \<times> GeminiSession) option" where
  "executeVmLoop env s =
     (case lastLoaded s of
        None \<Rightarrow> Some (Inr (), s)
      | Some l \<Rightarrow> vm_rounds env (program l) (sourceLinePerInstr l) s)"

section \<open>Input\<close>

text \<open>No action puts anything back into the input, so that loops which read a line in every round end.\<close>

definition consumes :: "('s \<Rightarrow> string) \<Rightarrow> ('s, 'a) action \<Rightarrow> bool" where
  "consumes inp a \<longleftrightarrow> (\<forall>s. length (inp (snd (a s))) \<le> length (inp s))"

definition gs_input :: "GeminiSession \<Rightarrow> string" where
  "gs_input s = inStream (gs_runtime s)"

named_theorems consumes_rules \<open>actions that only take from the input\<close>

lemma consumesD: "consumes inp a \<Longrightarrow> a s = (r, t) \<Longrightarrow> length (inp t) \<le> length (inp s)"
  unfolding consumes_def by (metis snd_conv)

lemma consumes_bind [consumes_rules]:
  assumes "consumes inp a" "\<And>x. consumes inp (k x)"
  shows "consumes inp (bindS a k)"
  unfolding consumes_def
proof
  fix s
  obtain r t where rt: "a s = (r, t)" by (cases "a s")
  have t: "length (inp t) \<le> length (inp s)" using assms(1) rt by (rule consumesD)
  show "length (inp (snd (bindS a k s))) \<le> length (inp s)"
  proof (cases r)
    case (Inr x)
    moreover have "length (inp (snd (k x t))) \<le> length (inp t)" using assms(2) by (simp add: consumes_def)
    ultimately show ?thesis using t by (simp add: bindS_def rt)
  qed (use t in \<open>simp add: bindS_def rt\<close>)
qed

lemma consumes_catching [consumes_rules]:
  assumes "consumes inp a" "\<And>e b. handler e = Some b \<Longrightarrow> consumes inp b"
  shows "consumes inp (catching a handler)"
  unfolding consumes_def
proof
  fix s
  obtain r t where rt: "a s = (r, t)" by (cases "a s")
  have t: "length (inp t) \<le> length (inp s)" using assms(1) rt by (rule consumesD)
  have "length (inp (snd (b t))) \<le> length (inp t)" if "handler e = Some b" for e b
    using assms(2) [OF that] by (simp add: consumes_def)
  then show "length (inp (snd (catching a handler s))) \<le> length (inp s)"
    using t by (auto simp: catching_def rt split: sum.split option.split intro: order_trans)
qed

lemma consumes_basic [consumes_rules]: "consumes inp (retS x)" "consumes inp (getS f)" "consumes inp (liftS r)"
  by (simp_all add: consumes_def)

lemma consumes_session [consumes_rules]:
  "consumes gs_input (gs_say t)" "consumes gs_input (from_files q)" "consumes gs_input (in_files p)" "consumes gs_input (in_voc v)"
  "consumes gs_input (updS (\<lambda>s. s\<lparr>gs_voc := g s\<rparr>))"
  by (simp_all add: consumes_def gs_input_def from_files_def in_files_def in_voc_def set_world_def gs_say_def split: prod.split)

lemma rest_shorter: "s \<noteq> [] \<Longrightarrow> length (drop 1 (dropWhile p s)) < length s"
  using length_dropWhile_le [of p s] by (cases s) (simp_all add: less_Suc_eq_le del: dropWhile.simps)

lemma consumes_line [consumes_rules]: "consumes gs_input (in_runtime readInputLine)"
proof -
  have "length (gs_input (snd (in_runtime readInputLine s))) \<le> length (gs_input s)" for s
    using rest_shorter [of "inStream (gs_runtime s)" "\<lambda>c. c \<noteq> LF"] by (auto simp: in_runtime_def readInputLine_def gs_input_def)
  then show ?thesis by (simp add: consumes_def)
qed

lemma line_shorter: "in_runtime readInputLine s = (Inr (Some l), t) \<Longrightarrow> length (gs_input t) < length (gs_input s)"
  using rest_shorter [of "inStream (gs_runtime s)" "\<lambda>c. c \<noteq> LF"]
  by (auto simp: in_runtime_def readInputLine_def gs_input_def split: if_splits)

lemma consumes_reporting [consumes_rules]: "consumes gs_input a \<Longrightarrow> consumes gs_input (reporting a)"
  unfolding reporting_def by (auto intro!: consumes_rules split: if_splits)

section \<open>Locks of a session\<close>

lemma gs_world_simps [simp]:
  "gs_world (set_world w s) = w" "gs_world (clearActiveList s) = gs_world s" "gs_world (syncLockContextToFileSystem s) = gs_world s"
  "gs_world (bindLockSession i s) = gs_world s" "gs_world (setSessionIdentity p n a s) = gs_world s"
  by (simp_all add: gs_world_def set_world_def clearActiveList_def syncLockContextToFileSystem_def bindLockSession_def setSessionIdentity_def)

text \<open>The table afterwards: the locks of the session's identity are gone, every other entry is as before.\<close>

definition released :: "GeminiSession \<Rightarrow> GeminiSession \<Rightarrow> bool" where
  "released s s' \<longleftrightarrow> (\<forall>f r. lookup (lock_table (gs_world s')) f r =
     (case lookup (lock_table (gs_world s)) f r of Some e \<Rightarrow> if ownerSessionId e = sessionLockId s then None else Some e | None \<Rightarrow> None))"

lemma releaseSessionLocks_released:
  assumes "locks_wf (lock_table (gs_world s))" "hasSharedLockTable s" "sessionLockId s \<noteq> []"
  shows "released s (releaseSessionLocks s)"
  using assms lock_step_wf [OF assms(1), of "ReleaseAllForSession (sessionLockId s)"]
  by (simp add: released_def releaseSessionLocks_def lookup_abs releaseAllForSession_abs)

lemma released_cong: "gs_world t = gs_world t' \<Longrightarrow> released s t = released s t'"
  by (simp add: released_def)

lemma released_from: "released s t \<Longrightarrow> gs_world s = gs_world s' \<Longrightarrow> sessionLockId s = sessionLockId s' \<Longrightarrow> released s' t"
  unfolding released_def by metis

lemma gs_world_reset: "gs_world (resetSession s) = gs_world (releaseSessionLocks s)"
  by (simp add: resetSession_def Let_def gs_world_def clearActiveList_def loadProgram_def)

lemma gs_world_attached: "gs_world (attached u s) = gs_world (releaseSessionLocks s)"
proof -
  have "gs_world (t\<lparr>loggedIn := b, userNo := n\<rparr>) = gs_world t" for t b n by (simp add: gs_world_def)
  then show ?thesis by (simp add: attached_def Let_def gs_world_reset)
qed

lemma gs_world_detach: "gs_world (detach s) = gs_world (releaseSessionLocks s)"
  by (simp add: detach_def Let_def) (simp add: gs_world_def bindLockSession_def syncLockContextToFileSystem_def)

lemma detach_no_lock_id [simp]: "sessionLockId (detach s) = []"
  by (simp add: detach_def Let_def clearActiveList_def bindLockSession_def syncLockContextToFileSystem_def)

lemma gs_world_destroy: "gs_world (destroySession s) = gs_world (releaseSessionLocks s)"
  by (simp add: destroySession_def gs_world_reset) (simp add: releaseSessionLocks_def gs_world_detach)

lemma setFileSystemRoot_eq:
  "setFileSystemRoot h p s =
     (let t = s\<lparr>gs_fileSystem := (gs_fileSystem s)\<lparr>root := p\<rparr>, gs_voc := invalidate (gs_voc s)\<rparr>
      in case loadDefaultDataFileFromMd h (gs_fileSystem t) (gs_world t) of
           Inl e \<Rightarrow> (Inl e, t)
         | Inr f \<Rightarrow> (Inr (), syncLockContextToFileSystem (clearActiveList (t\<lparr>md_defaultDataFile := f\<rparr>))))"
  by (simp add: setFileSystemRoot_def reloadMdDefaultDataFile_def bindS_def Let_def split: sum.split)

lemma attach_eq:
  "attach h u s = (case setFileSystemRoot h (user_pickRoot u) (s\<lparr>geminiCatalogRoot := Some (user_catalogRoot u)\<rparr>) of
     (Inl e, t) \<Rightarrow> (Inl e, t) | (Inr _, t) \<Rightarrow> (Inr (), attached u t))"
  by (simp add: attach_def bindS_def split: prod.split sum.split)

lemma setFileSystemRoot_keeps:
  "setFileSystemRoot h p s = (r, t) \<Longrightarrow>
    gs_world t = gs_world s \<and> sessionLockId t = sessionLockId s \<and> hasSharedLockTable t = hasSharedLockTable s"
  by (auto simp: setFileSystemRoot_eq Let_def syncLockContextToFileSystem_def clearActiveList_def gs_world_def split: sum.splits)

lemma releaseSessionLocks_fields [simp]:
  "hasSharedLockTable (releaseSessionLocks s) = hasSharedLockTable s" "sessionLockId (releaseSessionLocks s) = sessionLockId s"
  "gs_fileSystem (releaseSessionLocks s) = gs_fileSystem s"
  "daemonPortAssigned (releaseSessionLocks s) = daemonPortAssigned s" "whoPort (releaseSessionLocks s) = whoPort s"
  by (simp_all add: releaseSessionLocks_def set_world_def)

lemma resetSession_fields [simp]:
  "hasSharedLockTable (resetSession s) = hasSharedLockTable s" "sessionLockId (resetSession s) = sessionLockId s"
  "gs_fileSystem (resetSession s) = gs_fileSystem s"
  by (simp_all add: resetSession_def Let_def clearActiveList_def)

text \<open>The lock context of the file system is the session's lock identity, whenever there is a table and an identity.\<close>

definition lock_context_ok :: "GeminiSession \<Rightarrow> bool" where
  "lock_context_ok s \<longleftrightarrow>
     lockingEnabled (gs_fileSystem s) = (hasSharedLockTable s \<and> sessionLockId s \<noteq> []) \<and>
     (lockingEnabled (gs_fileSystem s) \<longrightarrow> lockSessionId (gs_fileSystem s) = sessionLockId s)"

lemma sync_context [simp]: "lock_context_ok (syncLockContextToFileSystem s)"
  by (simp add: lock_context_ok_def syncLockContextToFileSystem_def setLockContext_def clearLockContext_def lockingEnabled_def)

lemma context_transfer:
  "lock_context_ok s \<Longrightarrow> lockingEnabled (gs_fileSystem t) = lockingEnabled (gs_fileSystem s) \<Longrightarrow>
    lockSessionId (gs_fileSystem t) = lockSessionId (gs_fileSystem s) \<Longrightarrow> hasSharedLockTable t = hasSharedLockTable s \<Longrightarrow>
    sessionLockId t = sessionLockId s \<Longrightarrow> lock_context_ok t"
  unfolding lock_context_ok_def by metis

datatype session_op =
    Attach UserSession | Detach | Reset | Destroy | SetRoot path | ShareTable bool | BindLock string | SetPort int
  | SetList "string list" string | ClearList | SetPage int | World world

text \<open>Whatever the session's commands do to the shared world is one more step.\<close>

definition session_step :: "host \<Rightarrow> GeminiSession \<Rightarrow> session_op \<Rightarrow> GeminiSession" where
  "session_step h s x = (case x of
     Attach u \<Rightarrow> snd (attach h u s)
   | Detach \<Rightarrow> detach s
   | Reset \<Rightarrow> resetSession s
   | Destroy \<Rightarrow> destroySession s
   | SetRoot p \<Rightarrow> snd (setFileSystemRoot h p s)
   | ShareTable b \<Rightarrow> setSharedLockTable b s
   | BindLock i \<Rightarrow> bindLockSession i s
   | SetPort p \<Rightarrow> setDaemonPort p s
   | SetList ids f \<Rightarrow> setActiveList ids f s
   | ClearList \<Rightarrow> clearActiveList s
   | SetPage n \<Rightarrow> setReportPageLength n s
   | World w \<Rightarrow> set_world w s)"

lemma context_detach: "lock_context_ok (detach s)"
proof -
  have "lock_context_ok (bindLockSession [] (releaseSessionLocks s))" by (simp add: bindLockSession_def)
  then show ?thesis by (rule context_transfer) (simp_all add: detach_def Let_def clearActiveList_def)
qed

lemma context_reset: "lock_context_ok s \<Longrightarrow> lock_context_ok (resetSession s)"
  by (rule context_transfer) simp_all

lemma context_root:
  assumes "lock_context_ok s"
  shows "lock_context_ok (snd (setFileSystemRoot h p s))"
proof -
  let ?t = "s\<lparr>gs_fileSystem := (gs_fileSystem s)\<lparr>root := p\<rparr>, gs_voc := invalidate (gs_voc s)\<rparr>"
  have "lock_context_ok ?t" using assms by (rule context_transfer) (simp_all add: lockingEnabled_def)
  then show ?thesis by (simp add: setFileSystemRoot_eq Let_def split: sum.split)
qed

lemma context_attach:
  assumes "lock_context_ok s"
  shows "lock_context_ok (snd (attach h u s))"
proof -
  have "lock_context_ok (s\<lparr>geminiCatalogRoot := Some (user_catalogRoot u)\<rparr>)" using assms by (rule context_transfer) simp_all
  then have "lock_context_ok (snd (setFileSystemRoot h (user_pickRoot u) (s\<lparr>geminiCatalogRoot := Some (user_catalogRoot u)\<rparr>)))"
    by (rule context_root)
  then show ?thesis by (auto simp: attach_eq attached_def Let_def bindLockSession_def split: prod.splits sum.splits)
qed

lemma context_fields:
  assumes "lock_context_ok s"
  shows "lock_context_ok (setDaemonPort p s)" "lock_context_ok (setActiveList ids f s)" "lock_context_ok (clearActiveList s)"
    "lock_context_ok (setReportPageLength n s)" "lock_context_ok (set_world w s)"
  by (rule context_transfer [OF assms];
      simp add: setDaemonPort_def setActiveList_def clearActiveList_def setReportPageLength_def set_world_def)+

interpretation session_machine: invariant_machine "session_step h" lock_context_ok for h
proof
  fix s x assume "lock_context_ok s"
  then show "lock_context_ok (session_step h s x)"
    by (cases x) (simp_all add: session_step_def context_detach context_reset context_root context_attach context_fields destroySession_def
        setSharedLockTable_def bindLockSession_def)
qed

text \<open>
  C27.  The end of a session gives its locks back: logging off, resetting, destroying and logging on again remove from the shared table
  exactly the locks under the session's identity.  After logging off the file system uses no locks; after logging on it locks under the
  new identity.  That the file system's lock context is the session's identity holds after any sequence of session operations.
\<close>

theorem session_end_releases_locks:
  assumes start: "lock_context_ok s0" and s: "s = foldl (session_step h) s0 xs"
    and table: "locks_wf (lock_table (gs_world s))" "hasSharedLockTable s" "sessionLockId s \<noteq> []"
  shows "lockingEnabled (gs_fileSystem s) \<and> lockSessionId (gs_fileSystem s) = sessionLockId s \<and>
    released s (detach s) \<and> \<not> lockingEnabled (gs_fileSystem (detach s)) \<and>
    released s (resetSession s) \<and> released s (destroySession s) \<and>
    (\<forall>s'. attach h u s = (Inr (), s') \<longrightarrow> released s s' \<and> lockingEnabled (gs_fileSystem s') \<and>
       lockSessionId (gs_fileSystem s') =
         makeSessionLockId (if daemonPortAssigned s' then whoPort s' else user_whoPort u) (user_account u) (user_name u))"
proof (intro conjI allI impI)
  have ok: "lock_context_ok s" using session_machine.run_inv [OF start] s by simp
  then show "lockingEnabled (gs_fileSystem s)" "lockSessionId (gs_fileSystem s) = sessionLockId s"
    using table by (simp_all add: lock_context_ok_def)
  have r: "released s (releaseSessionLocks s)" by (rule releaseSessionLocks_released [OF table])
  show "released s (detach s)" using r released_cong [OF gs_world_detach] by simp
  show "released s (resetSession s)" using r released_cong [OF gs_world_reset] by simp
  show "released s (destroySession s)" using r released_cong [OF gs_world_destroy] by simp
  show "\<not> lockingEnabled (gs_fileSystem (detach s))" using context_detach [of s] by (simp add: lock_context_ok_def)
  fix s' assume "attach h u s = (Inr (), s')"
  then obtain t where t: "setFileSystemRoot h (user_pickRoot u) (s\<lparr>geminiCatalogRoot := Some (user_catalogRoot u)\<rparr>) = (Inr (), t)"
    and s': "s' = attached u t" by (auto simp: attach_eq split: prod.splits sum.splits)
  have tw: "gs_world t = gs_world s" "sessionLockId t = sessionLockId s" "hasSharedLockTable t = hasSharedLockTable s"
    using setFileSystemRoot_keeps [OF t] by (simp_all add: gs_world_def)
  have "gs_world s' = gs_world (releaseSessionLocks t)"
    by (simp add: s' gs_world_attached)
  moreover have "released s (releaseSessionLocks t)"
    by (rule released_from [OF releaseSessionLocks_released]) (use tw table in \<open>metis\<close>)+
  ultimately show "released s s'" using released_cong by blast
  have id: "sessionLockId s' = makeSessionLockId (if daemonPortAssigned s' then whoPort s' else user_whoPort u) (user_account u) (user_name u)"
    "hasSharedLockTable s' = hasSharedLockTable s" using tw
    by (simp_all add: s' attached_def Let_def bindLockSession_def syncLockContextToFileSystem_def setSessionIdentity_def)
  moreover have "lock_context_ok s'" by (simp add: s' attached_def Let_def bindLockSession_def)
  ultimately show "lockingEnabled (gs_fileSystem s')"
    "lockSessionId (gs_fileSystem s') = makeSessionLockId (if daemonPortAssigned s' then whoPort s' else user_whoPort u) (user_account u) (user_name u)"
    using table by (simp_all add: lock_context_ok_def makeSessionLockId_def)
qed

text \<open>A user logs on to port 3, holds a record and logs off.\<close>

definition fresh_session :: GeminiSession where
  "fresh_session =
     \<lparr>gs_runtime = sample_runtime\<lparr>vmWorld := sample_world\<rparr>, gs_env = [], gs_fileSystem = clearLockContext (sample_fs []),
      gs_voc = \<lparr>voc_table = [], voc_loaded = False\<rparr>, geminiCatalogRoot = None, loggedIn = False, whoPort = 0, daemonPortAssigned = False,
      sessionUsername = [], sessionAccount = [], userNo = ''0'', md_defaultDataFile = None, activeList = [], activeListSourceFile = None,
      lastLoaded = None, reportPageLength = 24, traceOn = False, breakpoints = [], suspended = False, resumePastBreakpointIp = None,
      hasSharedLockTable = False, sessionLockId = []\<rparr>"

definition sample_user :: UserSession where
  "sample_user = \<lparr>user_catalogRoot = [''cat''], user_pickRoot = [''db''], user_name = ''joe'', user_account = ''DEMO'', user_whoPort = 3, user_no = ''7''\<rparr>"

definition lock_held_world :: world where
  "lock_held_world = sample_world\<lparr>lock_table := snd (snd (tryAcquire [] ''S:3:DEMO:joe'' ''BP'' ''HELLO'' ReadU 0))\<rparr>"

definition sample_ops :: "session_op list" where
  "sample_ops = [ShareTable True, SetPort 3, Attach sample_user, World lock_held_world]"

theorem session_end_releases_locks_witness:
  "lookup (lock_table (gs_world (foldl (session_step good_host) fresh_session sample_ops))) ''BP'' ''HELLO'' \<noteq> None \<and>
   lookup (lock_table (gs_world (detach (foldl (session_step good_host) fresh_session sample_ops)))) ''BP'' ''HELLO'' = None"
proof -
  let ?s = "foldl (session_step good_host) fresh_session sample_ops"
  have start: "lock_context_ok fresh_session" by (simp add: lock_context_ok_def fresh_session_def lockingEnabled_def clearLockContext_def)
  have w: "gs_world ?s = lock_held_world" by (simp add: sample_ops_def session_step_def)
  have "locks_wf (lock_table lock_held_world)"
    using lock_step_wf [of "[]" "TryAcquire ''S:3:DEMO:joe'' ''BP'' ''HELLO'' ReadU 0"] by (simp add: lock_held_world_def locks_wf_def)
  moreover have id: "sessionLockId ?s = ''S:3:DEMO:joe''" "hasSharedLockTable ?s"
    by code_simp+
  ultimately have "released ?s (detach ?s)" using session_end_releases_locks [OF start refl, where h = good_host and xs = sample_ops] w by simp
  moreover have "lookup (lock_table lock_held_world) ''BP'' ''HELLO'' \<noteq> None" by code_simp
  moreover have "map_option ownerSessionId (lookup (lock_table lock_held_world) ''BP'' ''HELLO'') = Some ''S:3:DEMO:joe''" by code_simp
  ultimately show ?thesis using w id(1) by (auto simp: released_def)
qed

end
