(* ===== verification/Proc_Host.thy ===== *)
theory Proc_Host
  imports Proc Session
begin

text \<open>
  PROC scripts in a session: the helpers the TCL shell passes to the interpreter (\<open>procReadU\<close>, \<open>procWriteU\<close>,
  \<open>procRelease\<close>, \<open>procSelect\<close>, \<open>procReadNext\<close>) and the command \<open>PROC\<close> (\<open>cmdProc\<close>).  The
  TCL commands a script runs are a parameter.
\<close>

text \<open>The session and the position in its select list.\<close>

type_synonym proc_world = "GeminiSession \<times> nat"

text \<open>What \<open>procReadU\<close> and \<open>procWriteU\<close> make of an exception: a lock conflict is an outcome of its own.\<close>

definition lock_failure :: "error \<Rightarrow> (ProcLockOutcome \<times> string) result" where
  "lock_failure e =
     (case e of
        FileSystemError t \<Rightarrow> if isRecordLockConflict t then Inr (Locked, []) else Inr (HardError, t)
      | _ \<Rightarrow> if is_std_exception e then Inr (HardError, error_what e) else Inl e)"

definition procReadU :: "host \<Rightarrow> string \<Rightarrow> string \<Rightarrow> (proc_world, ProcLockOutcome \<times> string \<times> string) action" where
  "procReadU h fileName recordKey = (\<lambda>(s, n).
     case readU h (gs_fileSystem s) fileName recordKey (gs_world s) of
       (r, w) \<Rightarrow>
         (case r of
            Inr None \<Rightarrow> Inr (MissingRecord, [], [])
          | Inr (Some rec) \<Rightarrow> Inr (LockSuccess, recValue rec, [])
          | Inl e \<Rightarrow> bindE (lock_failure e) (\<lambda>(outcome, t). Inr (outcome, [], t)),
          set_world w s, n))"

definition procWriteU :: "host \<Rightarrow> string \<Rightarrow> string \<Rightarrow> string \<Rightarrow> (proc_world, ProcLockOutcome \<times> string) action" where
  "procWriteU h fileName recordKey value = (\<lambda>(s, n).
     case writeU h (gs_fileSystem s) fileName (mkRecord recordKey value) (gs_world s) of
       (Inr _, w) \<Rightarrow>
         (Inr (LockSuccess, []),
          (if fileName = ''VOC'' then (set_world w s)\<lparr>gs_voc := invalidate (gs_voc s)\<rparr> else set_world w s), n)
     | (Inl e, w) \<Rightarrow> (lock_failure e, set_world w s, n))"

definition procRelease :: "string \<Rightarrow> string \<Rightarrow> (proc_world, string option) action" where
  "procRelease fileName recordKey = (\<lambda>(s, n).
     (Inr None, set_world (snd (releaseRecord (gs_fileSystem s) fileName recordKey (gs_world s))) s, n))"

text \<open>The ENGLISH statement \<open>SELECT file\<close>; the clock is read for report headings only.\<close>

definition procSelect :: "host \<Rightarrow> int \<times> int \<Rightarrow> string \<Rightarrow> (proc_world, string option) action" where
  "procSelect h clock fileName = (\<lambda>(s, n).
     case run_english h (gs_fileSystem s) (gs_world s) clock [''SELECT'', fileName] \<lparr>implicitFile = False, imposedFileName = None\<rparr>
            \<lparr>constrainRecordIds = None, opt_pageLength = None\<rparr> of
       Inl e \<Rightarrow> (Inl e, s, n)
     | Inr (Inl error) \<Rightarrow> (Inr (Some error), s, n)
     | Inr (Inr result) \<Rightarrow> (Inr None, setActiveList (selectedIds result) fileName s, 0))"

definition procReadNext :: "(proc_world, string option \<times> string) action" where
  "procReadNext = (\<lambda>(s, n).
     if activeListSourceFile s = None then (Inr (None, ''No active list''), s, n)
     else if length (activeList s) \<le> n then (Inr (None, []), s, n)
     else (Inr (Some (activeList s ! n), []), s, Suc n))"

definition proc_host :: "host \<Rightarrow> int \<times> int \<Rightarrow> (string \<Rightarrow> (proc_world \<times> string, unit) action) \<Rightarrow> proc_world ProcHost" where
  "proc_host h clock tcl =
     \<lparr>tclBridgeFn = tcl, sessionAtFn = Some (\<lambda>(s, _). resolveSystemVariable s), selectFn = Some (procSelect h clock),
      readNextFn = Some procReadNext, readUFn = Some (procReadU h), writeUFn = Some (procWriteU h), releaseFn = Some procRelease\<rparr>"

text \<open>The script is the record the vocabulary names, else one of the file \<open>PROC\<close>.\<close>

definition proc_script :: "host \<Rightarrow> string \<Rightarrow> (proc_world, string option) action" where
  "proc_script h name = (\<lambda>(s, n).
     case resolveProcScriptLocation h (gs_fileSystem s) (gs_world s) name (gs_voc s) of
       (Inl e, v) \<Rightarrow> (Inl e, s\<lparr>gs_voc := v\<rparr>, n)
     | (Inr location, v) \<Rightarrow>
         (fst (readProgramRecord h (gs_fileSystem s) location False \<lparr>sess_world = gs_world s, sess_voc = v\<rparr>), s\<lparr>gs_voc := v\<rparr>, n))"

text \<open>The state after the command; \<open>None\<close> when the script does not end.\<close>

definition cmdProc :: "host \<Rightarrow> int \<times> int \<Rightarrow> (string \<Rightarrow> (proc_world \<times> string, unit) action) \<Rightarrow> string list \<Rightarrow> string list \<Rightarrow>
    proc_world \<Rightarrow> string \<Rightarrow> (unit result \<times> proc_world \<times> string) option" where
  "cmdProc h clock tcl tokens input w out =
     (if length tokens < 2 then Some (Inr (), w, out @ ''PROC requires a program name'' @ [LF])
      else if tokens ! 1 = [] \<or> CHR ''.'' \<in> set (tokens ! 1)
      then Some (Inr (), w, out @ ''PROC expects a program name without extension'' @ [LF])
      else case proc_script h (tokens ! 1) w of
             (Inl e, w') \<Rightarrow> Some (Inl e, w', out)
           | (Inr None, w') \<Rightarrow> Some (Inr (), w', out @ ''Error: Cannot open PROC script: '' @ tokens ! 1 @ [LF])
           | (Inr (Some script), s, n) \<Rightarrow>
               map_option (\<lambda>(r, t). (map_sum id (\<lambda>_. ()) r, proc_world t, proc_out t))
                 (runScript (proc_host h clock tcl) (getlines LF script) (drop 2 tokens) input (s, 0) out))"

end
