(* ===== verification/Proc_Laws.thy ===== *)
theory Proc_Laws
  imports Proc_Host
begin

text \<open>
  Laws of the PROC interpreter: loops are properly nested and the frames of a running script are exactly nested loops around its line, a
  script that walks through a select list visits every record and ends, and a record held by another session is reported in \<open>PROCERR\<close>.
\<close>

section \<open>Nested loops\<close>

text \<open>Of two loops one contains the other or they are apart.\<close>

definition nested_pairs :: "(nat \<times> nat) list \<Rightarrow> bool" where
  "nested_pairs ps \<longleftrightarrow>
     (\<forall>(l, r) \<in> set ps. l < r) \<and>
     (\<forall>(l, r) \<in> set ps. \<forall>(l', r') \<in> set ps. l < l' \<longrightarrow> r < l' \<or> r' < r) \<and>
     distinct (map fst ps) \<and> distinct (map snd ps) \<and> set (map fst ps) \<inter> set (map snd ps) = {}"

text \<open>While the pairs are collected: the open loops come before the line, and no pair reaches over an open loop.\<close>

definition pairs_inv :: "nat \<Rightarrow> nat list \<Rightarrow> (nat \<times> nat) list \<Rightarrow> bool" where
  "pairs_inv i opened ps \<longleftrightarrow>
     nested_pairs ps \<and> sorted_wrt (>) opened \<and> (\<forall>l \<in> set opened. l < i) \<and> (\<forall>(l, r) \<in> set ps. r < i) \<and>
     (\<forall>k \<in> set opened. \<forall>(l, r) \<in> set ps. l \<noteq> k \<and> r \<noteq> k \<and> (l < k \<longrightarrow> r < k))"

lemma pairs_inv_loop:
  assumes "pairs_inv i opened ps"
  shows "pairs_inv (Suc i) (i # opened) ps"
proof -
  have "\<forall>(l, r) \<in> set ps. l < r \<and> r < i" using assms by (auto simp: pairs_inv_def nested_pairs_def)
  then have "\<forall>(l, r) \<in> set ps. l \<noteq> i \<and> r \<noteq> i \<and> (l < i \<longrightarrow> r < i) \<and> r < Suc i" by fastforce
  then show ?thesis using assms by (auto simp: pairs_inv_def less_Suc_eq)
qed

lemma pairs_inv_skip: "pairs_inv i opened ps \<Longrightarrow> pairs_inv (Suc i) opened ps"
  by (fastforce simp: pairs_inv_def)

lemma pairs_inv_repeat:
  assumes "pairs_inv i (k # opened) ps"
  shows "pairs_inv (Suc i) opened ((k, i) # ps)"
proof -
  have inv: "nested_pairs ps" "\<forall>l \<in> set opened. l < k" "sorted_wrt (>) opened" "k < i" "\<forall>l \<in> set opened. l < i"
    "\<forall>(l, r) \<in> set ps. r < i" "\<forall>(l, r) \<in> set ps. l \<noteq> k \<and> r \<noteq> k \<and> (l < k \<longrightarrow> r < k)"
    "\<forall>k \<in> set opened. \<forall>(l, r) \<in> set ps. l \<noteq> k \<and> r \<noteq> k \<and> (l < k \<longrightarrow> r < k)"
    using assms by (auto simp: pairs_inv_def)
  have lr: "\<forall>(l, r) \<in> set ps. l < r" using inv(1) by (simp add: nested_pairs_def)
  have "nested_pairs ((k, i) # ps)"
    unfolding nested_pairs_def
  proof (intro conjI)
    show "\<forall>(l, r) \<in> set ((k, i) # ps). \<forall>(l', r') \<in> set ((k, i) # ps). l < l' \<longrightarrow> r < l' \<or> r' < r"
      using inv(1,6,7) unfolding nested_pairs_def by fastforce
    show "distinct (map fst ((k, i) # ps))" "distinct (map snd ((k, i) # ps))" "set (map fst ((k, i) # ps)) \<inter> set (map snd ((k, i) # ps)) = {}"
      using inv(1,4,6,7) lr unfolding nested_pairs_def by (fastforce)+
  qed (use inv(4) lr in auto)
  then show ?thesis using inv unfolding pairs_inv_def by fastforce
qed

lemma loop_pairs_nested: "loop_pairs i ls opened ps = Inr ps' \<Longrightarrow> pairs_inv i opened ps \<Longrightarrow> nested_pairs ps'"
proof (induction i ls opened ps rule: loop_pairs.induct)
  case (1 i opened ps)
  then show ?case by (auto simp: pairs_inv_def split: if_splits)
next
  case (2 i line ls opened ps)
  note inv = pairs_inv_loop pairs_inv_skip pairs_inv_repeat
  show ?case
    using 2 by (auto split: if_splits Command.splits list.splits intro: inv)
qed

lemma prepare_nested: "prepare lines = Inr sc \<Longrightarrow> nested_pairs (script_pairs sc) \<and> script_lines sc = lines"
proof -
  have "pairs_inv 0 [] []" by (simp add: pairs_inv_def nested_pairs_def)
  moreover assume "prepare lines = Inr sc"
  ultimately show ?thesis
    using loop_pairs_nested [of 0 lines "[]" "[]"] by (auto simp: prepare_def buildLoopPairs_def bindE_eq_Inr_iff)
qed

section \<open>Frames of a running script\<close>

text \<open>The frames are loops of the script, each inside the one before.\<close>

definition frames_ok :: "ProcScript \<Rightarrow> LoopFrame list \<Rightarrow> bool" where
  "frames_ok sc frames \<longleftrightarrow>
     (\<forall>f \<in> set frames. (loopPc f, repeatPc f) \<in> set (script_pairs sc)) \<and>
     sorted_wrt (\<lambda>f g. loopPc f < loopPc g \<and> repeatPc g < repeatPc f) frames"

definition around :: "nat \<Rightarrow> LoopFrame list \<Rightarrow> bool" where
  "around pc frames \<longleftrightarrow> (\<forall>f \<in> set frames. loopPc f < pc \<and> pc \<le> repeatPc f)"

lemma frames_ok_filter: "frames_ok sc frames \<Longrightarrow> frames_ok sc (syncLoopFramesForPc pc frames)"
  by (auto simp: frames_ok_def syncLoopFramesForPc_def intro: sorted_wrt_filter)

lemma around_sync: "around pc (syncLoopFramesForPc pc frames)"
  by (auto simp: around_def syncLoopFramesForPc_def)

lemma frames_ok_butlast: "frames_ok sc frames \<Longrightarrow> frames_ok sc (butlast frames)"
  by (cases frames rule: rev_cases) (auto simp: frames_ok_def sorted_wrt_append)

lemma frames_ok_push:
  assumes "nested_pairs (script_pairs sc)" "frames_ok sc frames" "around pc frames" "loopToRepeat sc pc = Some r"
  shows "frames_ok sc (frames @ [\<lparr>loopPc = pc, repeatPc = r\<rparr>])"
proof -
  have pr: "(pc, r) \<in> set (script_pairs sc)" using assms(4) by (auto simp: loopToRepeat_def dest: map_of_SomeD)
  have "loopPc f < pc \<and> r < repeatPc f" if f: "f \<in> set frames" for f
  proof -
    have p: "(loopPc f, repeatPc f) \<in> set (script_pairs sc)" "loopPc f < pc" "pc \<le> repeatPc f"
      using assms(2,3) f by (auto simp: frames_ok_def around_def)
    have "pc \<in> fst ` set (script_pairs sc)" "repeatPc f \<in> snd ` set (script_pairs sc)" using pr p(1) by force+
    then have "pc \<noteq> repeatPc f" using assms(1) unfolding nested_pairs_def by (metis IntI empty_iff list.set_map)
    moreover have "loopPc f < pc \<longrightarrow> repeatPc f < pc \<or> r < repeatPc f" using assms(1) pr p(1) by (force simp: nested_pairs_def)
    ultimately show ?thesis using p by simp
  qed
  then show ?thesis using assms(2) pr by (auto simp: frames_ok_def sorted_wrt_append)
qed

text \<open>Actions that leave the frames alone, and actions that keep them nested.\<close>

definition frames_same :: "('w ProcState, 'a) action \<Rightarrow> bool" where
  "frames_same a \<longleftrightarrow> (\<forall>s. proc_frames (snd (a s)) = proc_frames s)"

named_theorems frames_intros \<open>actions that leave the loop frames alone\<close>

lemma frames_bind [frames_intros]: "frames_same a \<Longrightarrow> (\<And>x. frames_same (k x)) \<Longrightarrow> frames_same (bindS a k)"
  unfolding frames_same_def bindS_def by (auto split: prod.splits sum.splits) (metis snd_conv)+

lemma frames_basic [frames_intros]: "frames_same (retS x)" "frames_same (getS f)" "frames_same (proc_say t)" "frames_same (set_var v val)"
  "frames_same (on_world b)" "frames_same (advance pc inl)" "frames_same setProcLocked" "frames_same clearProcErr"
  by (auto simp: frames_same_def proc_say_def set_var_def on_world_def advance_def setProcLocked_def clearProcErr_def split: prod.split)

lemma frames_fail [frames_intros]: "frames_same (proc_fail t)"
  unfolding proc_fail_def by (intro frames_intros)

lemma frames_upd [frames_intros]: "(\<And>s. proc_frames (g s) = proc_frames s) \<Longrightarrow> frames_same (updS g)"
  by (simp add: frames_same_def)

lemma frames_if [frames_intros]: "frames_same a \<Longrightarrow> frames_same b \<Longrightarrow> frames_same (if c then a else b)"
  by simp

lemma frames_option [frames_intros]: "frames_same a \<Longrightarrow> (\<And>y. frames_same (b y)) \<Longrightarrow> frames_same (case x of None \<Rightarrow> a | Some y \<Rightarrow> b y)"
  by (cases x) simp_all

lemma frames_pair [frames_intros]: "(\<And>y z. frames_same (a y z)) \<Longrightarrow> frames_same (case x of (y, z) \<Rightarrow> a y z)"
  by (cases x) simp

lemma frames_outcome [frames_intros]:
  "frames_same a \<Longrightarrow> frames_same b \<Longrightarrow> frames_same c \<Longrightarrow> frames_same d \<Longrightarrow>
    frames_same (case x of LockSuccess \<Rightarrow> a | Locked \<Rightarrow> b | MissingRecord \<Rightarrow> c | HardError \<Rightarrow> d)"
  by (cases x) simp_all

lemma frames_tcl [frames_intros]: "frames_same (exec_tcl host tokens pc inl)"
proof -
  have "frames_same (\<lambda>s. case f (proc_world s, proc_out s) of (r, w, out) \<Rightarrow> (r, s\<lparr>proc_world := w, proc_out := out\<rparr>))" for f
    by (auto simp: frames_same_def split: prod.split)
  then show ?thesis unfolding exec_tcl_def by (intro frames_intros)
qed

lemma frames_statements [frames_intros]:
  "frames_same (exec_display host tokens pc inl)" "frames_same (exec_input tokens pc inl)" "frames_same (exec_go sc tokens)"
  "frames_same (exec_repeat sc pc)" "frames_same (exec_select host tokens pc inl)" "frames_same (exec_readnext host tokens pc inl)"
  "frames_same (exec_readu host tokens pc inl)" "frames_same (exec_writeu host tokens pc inl)" "frames_same (exec_release host tokens pc inl)"
  "frames_same (exec_assignment host tokens pc inl)"
  unfolding exec_display_def exec_input_def exec_go_def exec_repeat_def exec_select_def exec_readnext_def exec_readu_def exec_writeu_def
    exec_release_def exec_assignment_def
  by (intro frames_intros; simp)+

lemma frames_same_triple: "frames_same a \<Longrightarrow> triple (\<lambda>s. P (proc_frames s)) a (\<lambda>_ s. P (proc_frames s)) (\<lambda>_ s. P (proc_frames s))"
  unfolding frames_same_def triple_def by (auto split: prod.splits sum.splits) (metis snd_conv)+

abbreviation frames_kept :: "ProcScript \<Rightarrow> nat \<Rightarrow> ('w ProcState, 'a) action \<Rightarrow> bool" where
  "frames_kept sc pc a \<equiv> triple (\<lambda>s. frames_ok sc (proc_frames s) \<and> around pc (proc_frames s)) a
     (\<lambda>_ s. frames_ok sc (proc_frames s)) (\<lambda>_ s. frames_ok sc (proc_frames s))"

lemma frames_kept_same: "frames_same a \<Longrightarrow> frames_kept sc pc a"
  by (rule triple_weaken [OF frames_same_triple [where P = "\<lambda>fs. frames_ok sc fs \<and> around pc fs"]]) auto

lemma frames_kept_loop: "nested_pairs (script_pairs sc) \<Longrightarrow> frames_kept sc pc (exec_loop sc pc inl)"
proof (cases "loopToRepeat sc pc")
  case None
  then show ?thesis unfolding exec_loop_def by (simp add: frames_kept_same frames_fail)
next
  case (Some r)
  assume "nested_pairs (script_pairs sc)"
  then show ?thesis using Some by (auto simp: exec_loop_def triple_def bindS_def advance_def frames_ok_push)
qed

lemma exec_exit_eq:
  "exec_exit pc s =
     (let frames = syncLoopFramesForPc pc (proc_frames s)
      in if frames = [] then (Inr None, s\<lparr>proc_frames := [], proc_out := proc_out s @ ''Error: EXIT outside LOOP'' @ [LF]\<rparr>)
         else (Inr (Some (Suc (repeatPc (last frames)))), s\<lparr>proc_frames := butlast frames\<rparr>))"
  by (simp add: exec_exit_def bindS_def Let_def proc_fail_def proc_say_def)

lemma frames_kept_exit: "frames_kept sc pc (exec_exit pc)"
  by (auto simp: triple_def exec_exit_eq Let_def frames_ok_filter frames_ok_butlast frames_ok_def [of sc "[]"])

lemma frames_kept_exitif: "frames_kept sc pc (exec_exitif host tokens pc inl)"
proof (cases "parseExitIfCondition tokens")
  case None
  then show ?thesis unfolding exec_exitif_def by (simp add: frames_kept_same frames_fail)
next
  case (Some c)
  have "frames_kept sc pc (advance pc inl :: 'a statement)" by (simp add: frames_kept_same frames_basic)
  then show ?thesis
    using Some frames_kept_exit [of sc pc] by (cases c) (auto simp: exec_exitif_def triple_def bindS_def)
qed

lemma frames_kept_plain: "nested_pairs (script_pairs sc) \<Longrightarrow> frames_kept sc pc (exec_plain host sc tokens pc inl)"
  unfolding exec_plain_def
  by (cases "parseStatement tokens")
    (simp_all add: frames_kept_same frames_statements frames_tcl frames_basic frames_fail frames_kept_loop frames_kept_exit frames_kept_exitif)

lemma triple_get_bind: "(\<And>x. triple P (k x) Q E) \<Longrightarrow> triple P (bindS (getS f) k) Q E"
  by (rule triple_bind [OF triple_get [where Q = "\<lambda>_. P"]])

lemma frames_kept_statement:
  assumes "nested_pairs (script_pairs sc)"
  shows "frames_kept sc pc (execStatement host sc tokens pc inl)"
proof (induction "length tokens" arbitrary: tokens inl rule: less_induct)
  case less
  show ?case
  proof (cases "parseStatement tokens = CIf \<and> parseIfParts tokens \<noteq> None")
    case True
    then obtain parts where parts: "parseIfParts tokens = Some parts" by auto
    have adv: "frames_kept sc pc (advance pc inl :: 'a statement)" by (simp add: frames_kept_same frames_basic)
    have "frames_kept sc pc (execStatement host sc (thenTokens parts) pc True)" "frames_kept sc pc (execStatement host sc (elseTokens parts) pc True)"
      using branch_shorter [OF parts] less by blast+
    then have "frames_kept sc pc (bindS (execStatement host sc (if b then thenTokens parts else elseTokens parts) pc True)
        (\<lambda>next. retS (map_option (\<lambda>branchPc. if \<not> inl \<and> branchPc = pc then Suc pc else branchPc) next)))" for b
      by (intro triple_bind [OF _ triple_ret]) auto
    with adv have "frames_kept sc pc (let branch = if b then thenTokens parts else elseTokens parts
         in if branch = [] then advance pc inl
            else bindS (execStatement host sc branch pc True) (\<lambda>next.
              retS (map_option (\<lambda>branchPc. if \<not> inl \<and> branchPc = pc then Suc pc else branchPc) next)))" for b
      by (simp only: Let_def) simp
    then have "frames_kept sc pc (bindS (getS (\<lambda>s. evalValue host s (lhsTokens parts) = evalValue host s (rhsTokens parts)))
        (\<lambda>truthy. let branch = if truthy then thenTokens parts else elseTokens parts
         in if branch = [] then advance pc inl
            else bindS (execStatement host sc branch pc True) (\<lambda>next.
              retS (map_option (\<lambda>branchPc. if \<not> inl \<and> branchPc = pc then Suc pc else branchPc) next))))"
      by (rule triple_get_bind)
    then show ?thesis using True parts by (simp only: execStatement.simps [of host sc tokens] option.case simp_thms if_True)
  next
    case False
    then show ?thesis
      unfolding execStatement.simps [of host sc tokens] using frames_kept_plain [OF assms] by (auto simp: frames_kept_same frames_fail)
  qed
qed

inductive proc_reaches :: "'w ProcHost \<Rightarrow> ProcScript \<Rightarrow> 'w ProcState \<Rightarrow> nat \<Rightarrow> 'w ProcState \<Rightarrow> bool" for host sc s0 where
  reach_start: "proc_reaches host sc s0 0 s0"
| reach_step: "proc_reaches host sc s0 pc s \<Longrightarrow> proc_step host sc pc s = Inr (pc', s') \<Longrightarrow> proc_reaches host sc s0 pc' s'"

lemma proc_step_frames:
  assumes "nested_pairs (script_pairs sc)" "frames_ok sc (proc_frames s)" "proc_step host sc pc s = Inr (pc', s')"
  shows "frames_ok sc (proc_frames s')"
proof -
  let ?s = "s\<lparr>proc_frames := syncLoopFramesForPc pc (proc_frames s)\<rparr>"
  have "frames_ok sc (proc_frames ?s) \<and> around pc (proc_frames ?s)" using assms(2) by (simp add: frames_ok_filter around_sync)
  then have kept: "frames_ok sc (proc_frames t)" if "execStatement host sc tokens pc False ?s = (Inr x, t)" for tokens x t
    using frames_kept_statement [OF assms(1), of pc host tokens False] that unfolding triple_def by fastforce
  let ?tokens = "words_of (trim_proc (script_lines sc ! pc))"
  from assms(3) consider "s' = s" | "s' = ?s" | "execStatement host sc ?tokens pc False ?s = (Inr (Some pc'), s')"
    by (auto simp: proc_step_def Let_def split: if_splits prod.splits sum.splits option.splits)
  then show ?thesis using assms(2) frames_ok_filter [OF assms(2), of pc] kept by cases auto
qed

lemma reached_frames:
  "proc_reaches host sc s0 pc s \<Longrightarrow> nested_pairs (script_pairs sc) \<Longrightarrow> frames_ok sc (proc_frames s0) \<Longrightarrow> frames_ok sc (proc_frames s)"
  by (induction rule: proc_reaches.induct) (auto intro: proc_step_frames)

lemma last_innermost:
  "sorted_wrt (\<lambda>f g. loopPc f < loopPc g \<and> repeatPc g < repeatPc f) frames \<Longrightarrow> f \<in> set frames \<Longrightarrow>
    loopPc f \<le> loopPc (last frames) \<and> repeatPc (last frames) \<le> repeatPc f"
  by (cases frames rule: rev_cases) (auto simp: sorted_wrt_append)


definition exit_script :: "string list" where
  "exit_script = [''LOOP'', ''EXIT'', ''REPEAT'']"

definition exit_prepared :: ProcScript where
  "exit_prepared = \<lparr>script_lines = exit_script, script_labels = [], script_pairs = [(0, 2)]\<rparr>"

definition empty_state :: "unit ProcState" where
  "empty_state = \<lparr>proc_vars = [], proc_frames = [], proc_in = [], proc_out = [], proc_world = ()\<rparr>"

definition mute_host :: "unit ProcHost" where
  "mute_host = \<lparr>tclBridgeFn = \<lambda>_. retS (), sessionAtFn = None, selectFn = None, readNextFn = None, readUFn = None, writeUFn = None, releaseFn = None\<rparr>"


section \<open>Walking through a select list\<close>

text \<open>The usual loop over the records of a list.\<close>

definition walk_script :: "string list" where
  "walk_script = [''LOOP'', ''READNEXT ID'', ''EXITIF ID ='', ''DISPLAY ID'', ''REPEAT'']"

definition walk :: ProcScript where
  "walk = \<lparr>script_lines = walk_script, script_labels = [], script_pairs = [(0, 4)]\<rparr>"

definition walk_frame :: LoopFrame where
  "walk_frame = \<lparr>loopPc = 0, repeatPc = 4\<rparr>"

lemma walk_prepared: "prepare walk_script = Inr walk"
  by code_simp

lemma walk_lines:
  "length (script_lines walk) = 5"
  "script_lines walk ! 0 = ''LOOP''" "script_lines walk ! Suc 0 = ''READNEXT ID''" "script_lines walk ! 2 = ''EXITIF ID =''"
  "script_lines walk ! 3 = ''DISPLAY ID''" "script_lines walk ! 4 = ''REPEAT''"
  by (simp_all add: walk_def walk_script_def)

lemma walk_words:
  "words_of (trim_proc ''LOOP'') = [''LOOP'']" "words_of (trim_proc ''READNEXT ID'') = [''READNEXT'', ''ID'']"
  "words_of (trim_proc ''EXITIF ID ='') = [''EXITIF'', ''ID'', ''='']" "words_of (trim_proc ''DISPLAY ID'') = [''DISPLAY'', ''ID'']"
  "words_of (trim_proc ''REPEAT'') = [''REPEAT'']"
  by code_simp+

lemma walk_not_skipped:
  "\<not> skipped_line ''LOOP''" "\<not> skipped_line ''READNEXT ID''" "\<not> skipped_line ''EXITIF ID =''" "\<not> skipped_line ''DISPLAY ID''"
  "\<not> skipped_line ''REPEAT''"
  by code_simp+

lemma walk_commands:
  "parseStatement [''LOOP''] = CLoop" "parseStatement [''READNEXT'', ''ID''] = CReadNext" "parseStatement [''EXITIF'', ''ID'', ''=''] = CExitIf"
  "parseStatement [''DISPLAY'', ''ID''] = CDisplay" "parseStatement [''REPEAT''] = CRepeat"
  "parseExitIfCondition [''EXITIF'', ''ID'', ''=''] = Some ([''ID''], [])" "\<not> isReadonlySessionAtTarget ''ID''"
  by code_simp+

lemmas walk_facts = walk_lines walk_words walk_not_skipped walk_commands

definition walk_state :: "(string \<times> string) list \<Rightarrow> string list \<Rightarrow> string \<Rightarrow> GeminiSession \<Rightarrow> nat \<Rightarrow> (GeminiSession \<times> nat) ProcState" where
  "walk_state vars input out g n =
     \<lparr>proc_vars = vars, proc_frames = [walk_frame], proc_in = input, proc_out = out, proc_world = (g, n)\<rparr>"

lemma walk_sync: "1 \<le> pc \<Longrightarrow> pc \<le> 4 \<Longrightarrow> syncLoopFramesForPc pc [walk_frame] = [walk_frame]"
  by (simp add: syncLoopFramesForPc_def walk_frame_def)

lemmas walk_exec = proc_step_def execStatement.simps exec_plain_def bindS_def advance_def walk_state_def

lemma walk_enter:
  "proc_step host walk 0 \<lparr>proc_vars = vars, proc_frames = [], proc_in = input, proc_out = out, proc_world = (g, n)\<rparr> =
    Inr (1, walk_state vars input out g n)"
  by (simp add: walk_facts walk_exec exec_loop_def syncLoopFramesForPc_def) (simp add: loopToRepeat_def walk_def walk_frame_def bindS_def advance_def)

lemma walk_readnext:
  assumes "activeListSourceFile g \<noteq> None"
  shows "proc_step (proc_host h clock tcl) walk (Suc 0) (walk_state vars input out g n) =
    Inr (2, walk_state (map_put ''ID'' (if n < length (activeList g) then activeList g ! n else []) vars) input out g
      (if n < length (activeList g) then Suc n else n))"
  using assms walk_sync [of "Suc 0"]
  by (auto simp: walk_facts walk_exec exec_readnext_def proc_host_def on_world_def procReadNext_def set_var_def)

lemma walk_exitif:
  assumes "map_of vars ''ID'' = Some x"
  shows "proc_step host walk 2 (walk_state vars input out g n) =
    (if x = [] then Inr (5, \<lparr>proc_vars = vars, proc_frames = [], proc_in = input, proc_out = out, proc_world = (g, n)\<rparr>)
     else Inr (3, walk_state vars input out g n))"
  using assms walk_sync [of 2]
  by (simp add: walk_facts walk_exec exec_exitif_def evalValue_def substituteTokens_def substituteToken_def joinTokens_def exec_exit_eq)
    (simp add: walk_frame_def)

lemma walk_display:
  assumes "map_of vars ''ID'' = Some x"
  shows "proc_step host walk 3 (walk_state vars input out g n) = Inr (4, walk_state vars input (out @ x @ [LF]) g n)"
  using assms walk_sync [of 3]
  by (simp add: walk_facts walk_exec exec_display_def evalValue_def substituteTokens_def substituteToken_def joinTokens_def proc_say_def)

lemma walk_repeat: "proc_step host walk 4 (walk_state vars input out g n) = Inr (Suc 0, walk_state vars input out g n)"
  using walk_sync [of 4] by (simp add: walk_facts walk_exec exec_repeat_def) (simp add: repeatToLoop_def walk_def)

lemma walk_ends: "proc_step host walk 5 s = Inl (Inr True, s)"
  by (simp add: proc_step_def walk_facts)

lemma walk_rounds:
  assumes src: "activeListSourceFile g \<noteq> None" and ids: "\<forall>i \<in> set (activeList g). i \<noteq> []"
  shows "n \<le> length (activeList g) \<Longrightarrow>
    \<exists>vars'. proc_loop (proc_host h clock tcl) walk (Suc 0) (walk_state vars input out g n) =
      Some (Inr True, \<lparr>proc_vars = vars', proc_frames = [], proc_in = input,
        proc_out = out @ concat (map (\<lambda>i. i @ [LF]) (drop n (activeList g))), proc_world = (g, length (activeList g))\<rparr>)"
proof (induction "length (activeList g) - n" arbitrary: n vars out)
  case 0
  let ?v = "map_put ''ID'' [] vars"
  have "map_of ?v ''ID'' = Some []" by simp
  then show ?case
    using 0 walk_readnext [OF src, of h clock tcl vars input out n] walk_exitif [of ?v "[]"]
    by (simp add: walk_ends proc_loop.simps [of _ _ "Suc 0"] proc_loop.simps [of _ _ 2] proc_loop.simps [of _ _ 5])
next
  case (Suc k)
  let ?i = "activeList g ! n"
  let ?v = "map_put ''ID'' ?i vars"
  have n: "n < length (activeList g)" and ne: "?i \<noteq> []" and k: "k = length (activeList g) - Suc n" using Suc ids by auto
  obtain vars' where "proc_loop (proc_host h clock tcl) walk (Suc 0) (walk_state ?v input (out @ ?i @ [LF]) g (Suc n)) =
      Some (Inr True, \<lparr>proc_vars = vars', proc_frames = [], proc_in = input,
        proc_out = (out @ ?i @ [LF]) @ concat (map (\<lambda>i. i @ [LF]) (drop (Suc n) (activeList g))), proc_world = (g, length (activeList g))\<rparr>)"
    using Suc.hyps(1) [OF k, of ?v "out @ ?i @ [LF]"] n by auto
  moreover have "drop n (activeList g) = ?i # drop (Suc n) (activeList g)" using n by (simp add: Cons_nth_drop_Suc)
  moreover have "map_of ?v ''ID'' = Some ?i" by simp
  ultimately show ?case
    using n ne walk_readnext [OF src, of h clock tcl vars input out n] walk_exitif [of ?v ?i] walk_display [of ?v ?i]
    by (simp add: walk_repeat proc_loop.simps [of _ _ "Suc 0" "walk_state vars input out g n"] proc_loop.simps [of _ _ 2] proc_loop.simps [of _ _ 3]
        proc_loop.simps [of _ _ 4])
qed

text \<open>
  C29.  The loop over a select list ends and visits every record: with an active list of record ids in the session, the script
  \<open>LOOP\<close> / \<open>READNEXT ID\<close> / \<open>EXITIF ID =\<close> / \<open>DISPLAY ID\<close> / \<open>REPEAT\<close> displays each id once, in the order of
  the list, and ends without error.
\<close>

theorem select_list_walk_ends:
  assumes "activeListSourceFile g \<noteq> None" "\<forall>i \<in> set (activeList g). i \<noteq> []"
  shows "\<exists>t. runScript (proc_host h clock tcl) walk_script params input (g, 0) out = Some (Inr True, t) \<and>
    proc_out t = out @ concat (map (\<lambda>i. i @ [LF]) (activeList g)) \<and> proc_world t = (g, length (activeList g)) \<and> proc_in t = input"
proof -
  obtain vars' where "proc_loop (proc_host h clock tcl) walk (Suc 0) (walk_state (param_vars params) input out g 0) =
      Some (Inr True, \<lparr>proc_vars = vars', proc_frames = [], proc_in = input,
        proc_out = out @ concat (map (\<lambda>i. i @ [LF]) (activeList g)), proc_world = (g, length (activeList g))\<rparr>)"
    using walk_rounds [OF assms, of 0 h clock tcl "param_vars params" input out] by auto
  then show ?thesis
    using walk_enter [of "proc_host h clock tcl" "param_vars params" input out g 0]
    by (simp add: runScript_def walk_prepared proc_loop.simps [of _ _ 0])
qed

theorem select_list_walk_ends_witness:
  "\<exists>t. runScript (proc_host good_host (0, 0) (\<lambda>_. retS ())) walk_script [] [] (setActiveList [''A1'', ''A2''] ''BP'' fresh_session, 0) [] = Some (Inr True, t) \<and>
    proc_out t = ''A1'' @ [LF] @ ''A2'' @ [LF]"
  using select_list_walk_ends [of "setActiveList [''A1'', ''A2''] ''BP'' fresh_session"] by (fastforce simp: setActiveList_def)

section \<open>Records held elsewhere\<close>

lemma readU_held: "held_elsewhere fs w f i \<Longrightarrow> \<exists>c. readU h fs f i w = (Inl (FileSystemError (describeLockConflict c)), w)"
  using acquire_refused [of fs w f i ReadU] by (auto simp: readU_def)

lemma writeU_held: "held_elsewhere fs w f (recName rc) \<Longrightarrow> \<exists>c. writeU h fs f rc w = (Inl (FileSystemError (describeLockConflict c)), w)"
  using acquire_refused [of fs w f "recName rc" WriteU] by (auto simp: writeU_def)

lemma set_world_same [simp]: "set_world (gs_world s) s = s"
  by (cases s) (simp add: set_world_def gs_world_def)

text \<open>
  C30.  A record another session holds: \<open>READU\<close> and \<open>WRITEU\<close> in a script set \<open>PROCERR\<close> to \<open>?LOCKED?\<close>
  and the script goes on; no other variable, no record and no lock changes.
\<close>

theorem locked_record_sets_procerr:
  assumes held: "held_elsewhere (gs_fileSystem g) (gs_world g) f i" and v: "v \<noteq> []"
    and lits: "\<forall>t \<in> {f, i, v}. substituteToken (proc_host h clock tcl) s t = t"
    and s: "proc_world s = (g, n)" and x: "\<not> isReadonlySessionAtTarget x"
  shows "exec_readu (proc_host h clock tcl) [''READU'', x, f, i] pc False s =
      (Inr (Some (Suc pc)), s\<lparr>proc_vars := map_put ''PROCERR'' ''?LOCKED?'' (proc_vars s)\<rparr>) \<and>
    exec_writeu (proc_host h clock tcl) [''WRITEU'', f, i, v] pc False s =
      (Inr (Some (Suc pc)), s\<lparr>proc_vars := map_put ''PROCERR'' ''?LOCKED?'' (proc_vars s)\<rparr>)"
proof -
  obtain c where c: "readU h (gs_fileSystem g) f i (gs_world g) = (Inl (FileSystemError (describeLockConflict c)), gs_world g)"
    using readU_held [OF held] by blast
  obtain d where d: "writeU h (gs_fileSystem g) f (mkRecord i v) (gs_world g) = (Inl (FileSystemError (describeLockConflict d)), gs_world g)"
    using writeU_held [of "gs_fileSystem g" "gs_world g" f "mkRecord i v"] held by auto
  show ?thesis
    using c d lits s x v
    by (cases s) (simp add: exec_readu_def exec_writeu_def bindS_def substituteTokens_def parseFileRecordPair_def writeu_target_def
        on_world_def setProcLocked_def set_var_def advance_def proc_host_def procReadU_def procWriteU_def lock_failure_def describe_is_conflict
        joinTokens_def)
qed

definition contended_session :: GeminiSession where
  "contended_session = fresh_session\<lparr>gs_runtime := contended_runtime, gs_fileSystem := sample_fs ''s1''\<rparr>"

definition contended_state :: "(GeminiSession \<times> nat) ProcState" where
  "contended_state = \<lparr>proc_vars = [], proc_frames = [], proc_in = [], proc_out = [], proc_world = (contended_session, 0)\<rparr>"

theorem locked_record_sets_procerr_witness:
  "exec_readu (proc_host good_host (0, 0) (\<lambda>_. retS ())) [''READU'', ''X'', ''BP'', ''HELLO''] 7 False contended_state =
    (Inr (Some 8), contended_state\<lparr>proc_vars := [(''PROCERR'', ''?LOCKED?'')]\<rparr>)"
proof -
  have held: "held_elsewhere (gs_fileSystem contended_session) (gs_world contended_session) ''BP'' ''HELLO''"
    using contended_held by (simp add: contended_session_def gs_world_def)
  have w: "''v'' \<noteq> []" "\<not> isReadonlySessionAtTarget ''X''" by code_simp+
  have lits: "\<forall>t \<in> {''BP'', ''HELLO'', ''v''}. substituteToken (proc_host good_host (0, 0) (\<lambda>_. retS ())) contended_state t = t"
    by (simp add: substituteToken_def contended_state_def session_at_def proc_host_def resolveSystemVariable_def upperCopy_def toupper_def code_of_def)
  have "proc_world contended_state = (contended_session, 0)" by (simp add: contended_state_def)
  from locked_record_sets_procerr [OF held w(1) lits this w(2), of 7] show ?thesis by (simp add: contended_state_def)
qed

end
