(* ===== verification/Daemon_Protocol.thy ===== *)
theory Daemon_Protocol
  imports Prelude "HOL-Library.Word"
begin

text \<open>
  The wire protocol between the service daemon and its clients (\<open>DaemonIpcProtocol.cpp\<close>): frames with a big-endian header, the
  payloads of the messages, and the reader that collects frames from a non-blocking socket.  A \<open>std::string\<close> of a payload is its
  bytes.  What \<open>read\<close> answers is a list of events.
\<close>

unbundle bit_operations_syntax

section \<open>Numbers on the wire\<close>

type_synonym byte = "8 word"

definition readU16 :: "byte list \<Rightarrow> 16 word" where
  "readU16 bs = push_bit 8 (ucast (bs ! 0)) OR ucast (bs ! 1)"

definition readU32 :: "byte list \<Rightarrow> 32 word" where
  "readU32 bs = push_bit 24 (ucast (bs ! 0)) OR push_bit 16 (ucast (bs ! 1)) OR push_bit 8 (ucast (bs ! 2)) OR ucast (bs ! 3)"

definition writeU16 :: "16 word \<Rightarrow> byte list" where
  "writeU16 v = [ucast (drop_bit 8 v AND 0xFF), ucast (v AND 0xFF)]"

definition writeU32 :: "32 word \<Rightarrow> byte list" where
  "writeU32 v = [ucast (drop_bit 24 v AND 0xFF), ucast (drop_bit 16 v AND 0xFF), ucast (drop_bit 8 v AND 0xFF), ucast (v AND 0xFF)]"

lemma write_length [simp]: "length (writeU16 v) = 2" "length (writeU32 w) = 4"
  by (simp_all add: writeU16_def writeU32_def)

lemma low_byte: "ucast (v AND 0xFF) = (ucast v :: byte)"
proof -
  have m: "(0xFF :: 'a word) = mask 8" by (simp add: mask_eq_exp_minus_1)
  show ?thesis unfolding m by (rule bit_word_eqI) (auto simp: bit_simps dest: bit_imp_le_length)
qed

lemma read_write_U16 [simp]: "readU16 (writeU16 v @ rest) = v"
proof (rule bit_word_eqI)
  fix n assume "n < LENGTH(16)"
  then show "bit (readU16 (writeU16 v @ rest)) n = bit v n"
    by (cases "n < 8") (auto simp: readU16_def writeU16_def low_byte bit_simps)
qed

lemma read_write_U32 [simp]: "readU32 (writeU32 v @ rest) = v"
proof (rule bit_word_eqI)
  fix n assume "n < LENGTH(32)"
  then consider "n < 8" | "8 \<le> n" "n < 16" | "16 \<le> n" "n < 24" | "24 \<le> n" "n < 32" by fastforce
  then show "bit (readU32 (writeU32 v @ rest)) n = bit v n"
    by cases (auto simp: readU32_def writeU32_def low_byte bit_simps)
qed

section \<open>Frames\<close>

record DaemonIpcFrame =
  frame_version :: "16 word"
  frame_type :: "16 word"
  payload :: "byte list"

definition kDaemonIpcProtocolVersion :: "16 word" where "kDaemonIpcProtocolVersion = 1"
definition kDaemonIpcMaxPayloadSize :: nat where "kDaemonIpcMaxPayloadSize = 65536"
definition kDaemonIpcMaxSessionDataSize :: nat where "kDaemonIpcMaxSessionDataSize = kDaemonIpcMaxPayloadSize - 4"
definition kDaemonIpcMagic :: "byte list" where "kDaemonIpcMagic = [71, 69, 77, 73]"

definition magicMatchesBuffer :: "byte list \<Rightarrow> bool" where
  "magicMatchesBuffer bytes \<longleftrightarrow> 4 \<le> length bytes \<and> take 4 bytes = kDaemonIpcMagic"

definition completeFrameLength :: "byte list \<Rightarrow> nat option" where
  "completeFrameLength bytes =
     (if length bytes < 12 then None
      else if \<not> magicMatchesBuffer bytes then Some 0
      else let payloadLen = unat (readU32 (drop 8 bytes)) in
        if kDaemonIpcMaxPayloadSize < payloadLen then Some 0
        else if length bytes < 12 + payloadLen then None
        else Some (12 + payloadLen))"

definition encodeDaemonIpcFrame :: "DaemonIpcFrame \<Rightarrow> byte list" where
  "encodeDaemonIpcFrame f =
     kDaemonIpcMagic @ writeU16 (frame_version f) @ writeU16 (frame_type f) @ writeU32 (of_nat (length (payload f))) @ payload f"

definition decodeDaemonIpcFrame :: "byte list \<Rightarrow> DaemonIpcFrame option" where
  "decodeDaemonIpcFrame bytes =
     (if length bytes < 12 then None
      else if take 4 bytes \<noteq> kDaemonIpcMagic then None
      else let payloadLen = unat (readU32 (drop 8 bytes)) in
        if kDaemonIpcMaxPayloadSize < payloadLen \<or> length bytes < 12 + payloadLen then None
        else Some \<lparr>frame_version = readU16 (drop 4 bytes), frame_type = readU16 (drop 6 bytes), payload = take payloadLen (drop 12 bytes)\<rparr>)"

text \<open>A frame either side may send: its payload is within the limit both readers enforce.\<close>

definition ipc_frame_ok :: "DaemonIpcFrame \<Rightarrow> bool" where
  "ipc_frame_ok f \<longleftrightarrow> length (payload f) \<le> kDaemonIpcMaxPayloadSize"

lemmas size_defs = kDaemonIpcMaxPayloadSize_def kDaemonIpcMaxSessionDataSize_def

lemma magic_length [simp]: "length kDaemonIpcMagic = 4"
  by (simp add: kDaemonIpcMagic_def)

lemma unat_size [simp]: "n \<le> 65536 \<Longrightarrow> unat (of_nat n :: 32 word) = n"
  by (simp add: unat_of_nat take_bit_nat_eq_self)

lemma drop_write [simp]:
  "drop 2 (writeU16 v @ r) = r" "drop 4 (writeU32 w @ r) = r" "drop 4 (kDaemonIpcMagic @ r) = r" "take 4 (kDaemonIpcMagic @ r) = kDaemonIpcMagic"
  by simp_all

lemma drop_encoded:
  shows "drop 4 (encodeDaemonIpcFrame f @ r) = writeU16 (frame_version f) @ writeU16 (frame_type f) @ writeU32 (of_nat (length (payload f))) @ payload f @ r"
    and "drop 6 (encodeDaemonIpcFrame f @ r) = writeU16 (frame_type f) @ writeU32 (of_nat (length (payload f))) @ payload f @ r"
    and "drop 8 (encodeDaemonIpcFrame f @ r) = writeU32 (of_nat (length (payload f))) @ payload f @ r"
    and "drop 12 (encodeDaemonIpcFrame f @ r) = payload f @ r"
    and "take 4 (encodeDaemonIpcFrame f @ r) = kDaemonIpcMagic"
  by (simp_all add: encodeDaemonIpcFrame_def)

lemma encoded_length [simp]: "length (encodeDaemonIpcFrame f) = 12 + length (payload f)"
  by (simp add: encodeDaemonIpcFrame_def)

lemma decode_encoded:
  assumes "ipc_frame_ok f"
  shows "decodeDaemonIpcFrame (encodeDaemonIpcFrame f @ r) = Some f"
  using assms by (simp add: decodeDaemonIpcFrame_def drop_encoded ipc_frame_ok_def size_defs Let_def del: drop_append take_append) simp

lemma complete_encoded:
  assumes "ipc_frame_ok f"
  shows "completeFrameLength (encodeDaemonIpcFrame f @ r) = Some (length (encodeDaemonIpcFrame f))"
  using assms by (simp add: completeFrameLength_def magicMatchesBuffer_def drop_encoded ipc_frame_ok_def size_defs Let_def del: drop_append take_append)

interpretation frame_wire: codec encodeDaemonIpcFrame decodeDaemonIpcFrame ipc_frame_ok
  by unfold_locales (use decode_encoded[where r = "[]"] in simp)

text \<open>What a decoder accepts it has read to the byte: the frame encodes back to the bytes it was decoded from.\<close>

lemma no_high_bit [simp]: "8 \<le> n \<Longrightarrow> \<not> bit (b :: byte) n"
  by (auto dest: bit_imp_le_length)

lemma write_read_U16: "2 \<le> length bs \<Longrightarrow> writeU16 (readU16 bs) = take 2 bs"
  by (cases bs; cases "tl bs")
     (auto simp: writeU16_def readU16_def low_byte bit_simps dest: bit_imp_le_length intro!: bit_word_eqI)

lemma write_read_U32: "4 \<le> length bs \<Longrightarrow> writeU32 (readU32 bs) = take 4 bs"
  by (cases bs; cases "tl bs"; cases "tl (tl bs)"; cases "tl (tl (tl bs))")
     (auto simp: writeU32_def readU32_def low_byte bit_simps dest: bit_imp_le_length intro!: bit_word_eqI)

lemma encode_decoded:
  assumes "decodeDaemonIpcFrame bytes = Some f"
  shows "ipc_frame_ok f" "take (12 + length (payload f)) bytes = encodeDaemonIpcFrame f"
proof -
  define n where "n = unat (readU32 (drop 8 bytes))"
  have f: "f = \<lparr>frame_version = readU16 (drop 4 bytes), frame_type = readU16 (drop 6 bytes), payload = take n (drop 12 bytes)\<rparr>"
    and n: "n \<le> 65536" "12 + n \<le> length bytes" and magic: "take 4 bytes = kDaemonIpcMagic"
    using assms by (auto simp: decodeDaemonIpcFrame_def n_def size_defs Let_def split: if_splits)
  have len: "length (payload f) = n" using f n by simp
  then show "ipc_frame_ok f" using n by (simp add: ipc_frame_ok_def size_defs)
  have "writeU32 (of_nat n) = take 4 (drop 8 bytes)" using n by (simp add: n_def write_read_U32)
  moreover have "take (12 + n) bytes = take 4 bytes @ take 2 (drop 4 bytes) @ take 2 (drop 6 bytes) @ take 4 (drop 8 bytes) @ take n (drop 12 bytes)"
    using take_add[of 4 "8 + n" bytes] take_add[of 2 "6 + n" "drop 4 bytes"] take_add[of 2 "4 + n" "drop 6 bytes"] take_add[of 4 n "drop 8 bytes"]
    by simp
  ultimately show "take (12 + length (payload f)) bytes = encodeDaemonIpcFrame f"
    using n by (simp add: len encodeDaemonIpcFrame_def magic) (simp add: f write_read_U16)
qed

section \<open>Reading frames\<close>

text \<open>
  What arrives at a socket: bytes the peer has written, moments with nothing to read, failures of the connection; after the last event
  the peer has closed its end.
\<close>

datatype read_event = Got "byte list" | WouldBlock | Broken

datatype read_answer = Chunk "byte list" | Again | ReadError

fun sys_read :: "nat \<Rightarrow> read_event list \<Rightarrow> read_answer \<times> read_event list" where
  "sys_read n [] = (Chunk [], [])" |
  "sys_read n (Got c # es) = (Chunk (take n c), if length c \<le> n then es else Got (drop n c) # es)" |
  "sys_read n (WouldBlock # es) = (Again, es)" |
  "sys_read n (Broken # es) = (ReadError, es)"

function readExact :: "nat \<Rightarrow> read_event list \<Rightarrow> (byte list option) \<times> read_event list" where
  "readExact remaining es =
     (if remaining = 0 then (Some [], es)
      else case sys_read remaining es of
        (Chunk (b # bs), es') \<Rightarrow>
          (case readExact (remaining - length (b # bs)) es' of
             (Some rest, es'') \<Rightarrow> (Some (b # bs @ rest), es'')
           | (None, es'') \<Rightarrow> (None, es''))
      | (_, es') \<Rightarrow> (None, es'))"
  by auto
termination by (relation "measure fst") auto

declare readExact.simps [simp del]

definition readDaemonIpcFrame :: "read_event list \<Rightarrow> DaemonIpcFrame option \<times> read_event list" where
  "readDaemonIpcFrame es =
     (case readExact 4 es of
        (None, es1) \<Rightarrow> (None, es1)
      | (Some magic, es1) \<Rightarrow>
          if magic \<noteq> kDaemonIpcMagic then (None, es1)
          else (case readExact 8 es1 of
              (None, es2) \<Rightarrow> (None, es2)
            | (Some header, es2) \<Rightarrow>
                let payloadLen = unat (readU32 (drop 4 header)) in
                if kDaemonIpcMaxPayloadSize < payloadLen then (None, es2)
                else (case readExact payloadLen es2 of
                    (None, es3) \<Rightarrow> (None, es3)
                  | (Some p, es3) \<Rightarrow> (Some \<lparr>frame_version = readU16 header, frame_type = readU16 (drop 2 header), payload = p\<rparr>, es3))))"

datatype DaemonIpcTryReadStatus = Incomplete | FrameReady | ConnectionClosed | ProtocolError

fun event_size :: "read_event \<Rightarrow> nat" where
  "event_size (Got c) = length c" |
  "event_size _ = 0"

lemma sys_read_shrinks:
  "sys_read n es = (Chunk (b # bs), es') \<Longrightarrow> sum_list (map event_size es') < sum_list (map event_size es)"
  by (cases es; cases "hd es") (auto split: if_splits simp: take_Cons' intro!: diff_less dest: arg_cong[of _ _ length])

function fill_buffer :: "byte list \<Rightarrow> read_event list \<Rightarrow> DaemonIpcTryReadStatus option \<times> byte list \<times> read_event list" where
  "fill_buffer buffer es =
     (case sys_read 4096 es of
        (Chunk [], es') \<Rightarrow> (Some (if buffer = [] then ConnectionClosed else ProtocolError), buffer, es')
      | (Again, es') \<Rightarrow> (None, buffer, es')
      | (ReadError, es') \<Rightarrow> (Some ConnectionClosed, buffer, es')
      | (Chunk (b # bs), es') \<Rightarrow> fill_buffer (buffer @ b # bs) es')"
  by auto
termination
  by (relation "measure (\<lambda>(_, es). sum_list (map event_size es))") (auto dest!: sys_read_shrinks[OF sym])

declare fill_buffer.simps [simp del]

definition tryReadDaemonIpcFrame ::
  "byte list \<Rightarrow> read_event list \<Rightarrow> DaemonIpcTryReadStatus \<times> DaemonIpcFrame option \<times> byte list \<times> read_event list" where
  "tryReadDaemonIpcFrame buffer es =
     (case fill_buffer buffer es of
        (Some status, buffer', es') \<Rightarrow> (status, None, buffer', es')
      | (None, buffer', es') \<Rightarrow>
          (case completeFrameLength buffer' of
             None \<Rightarrow> (Incomplete, None, buffer', es')
           | Some frameLen \<Rightarrow>
               if frameLen = 0 then (ProtocolError, None, buffer', es')
               else (case decodeDaemonIpcFrame (take frameLen buffer') of
                   None \<Rightarrow> (ProtocolError, None, drop frameLen buffer', es')
                 | Some f \<Rightarrow> (FrameReady, Some f, drop frameLen buffer', es'))))"

text \<open>\<open>n\<close> polls of a connection: the frames they deliver, and the state the reader is left in.\<close>

fun poll_frames :: "nat \<Rightarrow> byte list \<Rightarrow> read_event list \<Rightarrow> DaemonIpcFrame list \<times> DaemonIpcTryReadStatus \<times> byte list" where
  "poll_frames 0 buffer es = ([], Incomplete, buffer)" |
  "poll_frames (Suc n) buffer es =
     (case tryReadDaemonIpcFrame buffer es of
        (FrameReady, f, buffer', es') \<Rightarrow>
          (case poll_frames n buffer' es' of (fs, status, b) \<Rightarrow> (case f of Some x \<Rightarrow> x # fs | None \<Rightarrow> fs, status, b))
      | (Incomplete, _, buffer', es') \<Rightarrow> poll_frames n buffer' es'
      | (status, _, buffer', es') \<Rightarrow> ([], status, buffer'))"

definition arrivals :: "byte list list list \<Rightarrow> read_event list" where
  "arrivals polls = concat (map (\<lambda>cs. map Got cs @ [WouldBlock]) polls)"

definition wire :: "DaemonIpcFrame list \<Rightarrow> byte list" where
  "wire fs = concat (map encodeDaemonIpcFrame fs)"

lemma wire_simps [simp]: "wire [] = []" "wire (f # fs) = encodeDaemonIpcFrame f @ wire fs"
  by (simp_all add: wire_def)

lemma arrivals_simps [simp]: "arrivals [] = []" "arrivals (cs # polls) = map Got cs @ WouldBlock # arrivals polls"
  by (simp_all add: arrivals_def)

lemma fill_chunks:
  assumes "[] \<notin> set cs"
  shows "fill_buffer buffer (map Got cs @ WouldBlock # es) = (None, buffer @ concat cs, es)"
  using assms
proof (induction "length (concat cs)" arbitrary: buffer cs rule: less_induct)
  case less
  show ?case
  proof (cases cs)
    case Nil
    then show ?thesis by (simp add: fill_buffer.simps[of buffer])
  next
    case (Cons c ds)
    show ?thesis
    proof (cases "length c \<le> 4096")
      case True
      with less.prems Cons less.hyps[of ds "buffer @ c"] show ?thesis
        by (cases c) (simp_all add: fill_buffer.simps[of buffer])
    next
      case False
      with less.prems Cons less.hyps[of "drop 4096 c # ds" "buffer @ take 4096 c"] show ?thesis
        using append_take_drop_id[of 4096 c] by (cases "take 4096 c") (simp_all add: fill_buffer.simps[of buffer])
    qed
  qed
qed

lemma readU32_append: "4 \<le> length xs \<Longrightarrow> readU32 (xs @ ys) = readU32 xs"
  by (auto simp: readU32_def nth_append)

lemma incomplete_prefix:
  assumes "ipc_frame_ok f" "b @ rest = encodeDaemonIpcFrame f @ r" "length b < length (encodeDaemonIpcFrame f)"
  shows "completeFrameLength b = None"
proof (cases "length b < 12")
  case False
  have "take 4 (b @ rest) = kDaemonIpcMagic" "readU32 (drop 8 (b @ rest)) = of_nat (length (payload f))"
    using assms(2) drop_encoded(3,5)[of f r] by simp_all
  with False assms(1,3) show ?thesis
    by (simp add: completeFrameLength_def magicMatchesBuffer_def readU32_append ipc_frame_ok_def size_defs)
qed (simp add: completeFrameLength_def)

lemma try_read_arrival:
  assumes "[] \<notin> set cs" "list_all ipc_frame_ok fs" "buffer @ concat cs @ rest = wire fs"
  shows "(tryReadDaemonIpcFrame buffer (map Got cs @ WouldBlock # es) = (Incomplete, None, buffer @ concat cs, es) \<and> (rest = [] \<longrightarrow> fs = [])) \<or>
    (\<exists>f fs' b. fs = f # fs' \<and> tryReadDaemonIpcFrame buffer (map Got cs @ WouldBlock # es) = (FrameReady, Some f, b, es) \<and> b @ rest = wire fs')"
proof (cases fs)
  case Nil
  with assms have "buffer = []" "cs = []" "rest = []" by (cases cs; auto)+
  with Nil show ?thesis by (simp add: tryReadDaemonIpcFrame_def fill_chunks[of "[]", simplified] completeFrameLength_def)
next
  case (Cons f gs)
  define b where "b = buffer @ concat cs"
  have b: "b @ rest = encodeDaemonIpcFrame f @ wire gs" and f: "ipc_frame_ok f" using assms(2,3) Cons by (simp_all add: b_def)
  show ?thesis
  proof (cases "length b < length (encodeDaemonIpcFrame f)")
    case True
    with b have "rest \<noteq> []" by auto
    then show ?thesis
      using incomplete_prefix[OF f b True] by (simp add: tryReadDaemonIpcFrame_def fill_chunks[OF assms(1)] b_def)
  next
    case False
    then have "take (length (encodeDaemonIpcFrame f)) b = encodeDaemonIpcFrame f"
      using arg_cong[OF b, of "take (length (encodeDaemonIpcFrame f))"] by simp
    then obtain b' where b': "b = encodeDaemonIpcFrame f @ b'" "b' @ rest = wire gs"
      using b by (metis append_assoc append_take_drop_id same_append_eq)
    have "tryReadDaemonIpcFrame buffer (map Got cs @ WouldBlock # es) = (FrameReady, Some f, b', es)"
      using complete_encoded[OF f, of b'] decode_encoded[OF f, of "[]"] b'(1)
      by (simp add: tryReadDaemonIpcFrame_def fill_chunks[OF assms(1)] flip: b_def)
    with Cons b'(2) show ?thesis by blast
  qed
qed

lemma polls_deliver_prefix:
  assumes "list_all (\<lambda>cs. [] \<notin> set cs) polls" "list_all ipc_frame_ok fs" "buffer @ concat (concat polls) @ rest = wire fs"
  shows "\<exists>sent fs' b. poll_frames (length polls) buffer (arrivals polls) = (sent, Incomplete, b) \<and> fs = sent @ fs' \<and> b @ rest = wire fs' \<and>
    (rest = [] \<longrightarrow> concat (concat polls) = [] \<longrightarrow> length fs \<le> length polls \<longrightarrow> fs' = [])"
  using assms
proof (induction polls arbitrary: buffer fs)
  case Nil
  then show ?case by (auto simp: )
next
  case (Cons cs polls)
  have cs: "[] \<notin> set cs" and eq: "buffer @ concat cs @ (concat (concat polls) @ rest) = wire fs" using Cons.prems by simp_all
  from try_read_arrival[OF cs Cons.prems(2) eq, of "arrivals polls"] show ?case
  proof (elim disjE exE conjE)
    assume *: "tryReadDaemonIpcFrame buffer (map Got cs @ WouldBlock # arrivals polls) = (Incomplete, None, buffer @ concat cs, arrivals polls)"
      "concat (concat polls) @ rest = [] \<longrightarrow> fs = []"
    from Cons.IH[of fs "buffer @ concat cs"] Cons.prems * show ?case by fastforce
  next
    fix f fs' b
    assume *: "fs = f # fs'" "tryReadDaemonIpcFrame buffer (map Got cs @ WouldBlock # arrivals polls) = (FrameReady, Some f, b, arrivals polls)"
      "b @ (concat (concat polls) @ rest) = wire fs'"
    from Cons.IH[of fs' b] Cons.prems * show ?case by fastforce
  qed
qed

lemma polls_deliver_all:
  assumes "list_all (\<lambda>cs. [] \<notin> set cs) polls" "list_all ipc_frame_ok fs" "buffer @ concat (concat polls) = wire fs" "length fs \<le> k"
  shows "poll_frames (length polls + k) buffer (arrivals (polls @ replicate k [])) = (fs, Incomplete, [])"
  using assms
proof (induction polls arbitrary: buffer fs)
  case Nil
  then show ?case using polls_deliver_prefix[of "replicate k []" fs buffer "[]"] by (fastforce simp: list_all_iff)
next
  case (Cons cs polls)
  have cs: "[] \<notin> set cs" and eq: "buffer @ concat cs @ concat (concat polls) = wire fs" using Cons.prems by simp_all
  from try_read_arrival[OF cs Cons.prems(2) eq, of "arrivals (polls @ replicate k [])"] show ?case
    using Cons.prems Cons.IH by fastforce
qed

lemma read_exact_chunks:
  assumes "[] \<notin> set cs" "n \<le> length (concat cs)"
  obtains cs' where "readExact n (map Got cs @ es) = (Some (take n (concat cs)), map Got cs' @ es)"
    "concat cs' = drop n (concat cs)" "[] \<notin> set cs'"
  using assms
proof (induction cs arbitrary: n thesis)
  case Nil
  then show ?case by (simp add: readExact.simps[of n])
next
  case (Cons c cs)
  consider "n = 0" | "0 < n" "length c \<le> n" | "n < length c" "0 < n" by linarith
  then show ?case
  proof cases
    case 1
    with Cons.prems(1)[of "c # cs"] Cons.prems(2) show ?thesis by (simp add: readExact.simps[of 0])
  next
    case 2
    obtain cs' where "readExact (n - length c) (map Got cs @ es) = (Some (take (n - length c) (concat cs)), map Got cs' @ es)"
      "concat cs' = drop (n - length c) (concat cs)" "[] \<notin> set cs'"
    proof (rule Cons.IH[of "n - length c"])
      show "[] \<notin> set cs" "n - length c \<le> length (concat cs)" using Cons.prems(2,3) by auto
    qed
    with 2 Cons.prems(2) show ?thesis by (intro Cons.prems(1)[of cs']) (cases c; auto simp: readExact.simps[of n] take_Cons' drop_Cons')+
  next
    case 3
    have "readExact n (map Got (c # cs) @ es) = (Some (take n (concat (c # cs))), map Got (drop n c # cs) @ es)"
      using 3 by (cases "take n c") (auto simp: readExact.simps[of n] readExact.simps[of 0] dest: arg_cong[of _ _ length])
    with 3 Cons.prems(1)[of "drop n c # cs"] Cons.prems(2) show ?thesis by simp
  qed
qed

lemma blocking_read_frame:
  assumes "[] \<notin> set cs" "ipc_frame_ok f" "concat cs = encodeDaemonIpcFrame f @ r"
  shows "\<exists>cs'. readDaemonIpcFrame (map Got cs @ es) = (Some f, map Got cs' @ es) \<and> concat cs' = r"
proof -
  have len: "length (concat cs) = 12 + length (payload f) + length r" using assms(3) by simp
  obtain c1 where c1: "readExact 4 (map Got cs @ es) = (Some kDaemonIpcMagic, map Got c1 @ es)"
    "concat c1 = drop 4 (concat cs)" "[] \<notin> set c1"
    using read_exact_chunks[OF assms(1), of 4] len drop_encoded(5)[of f r] by (auto simp: assms(3))
  define h where "h = writeU16 (frame_version f) @ writeU16 (frame_type f) @ writeU32 (of_nat (length (payload f)))"
  have d: "drop 4 (concat cs) = h @ payload f @ r" by (simp add: assms(3) drop_encoded h_def del: drop_append)
  obtain c2 where c2: "readExact 8 (map Got c1 @ es) = (Some h, map Got c2 @ es)" "concat c2 = payload f @ r" "[] \<notin> set c2"
    using read_exact_chunks[OF c1(3), of 8] c1(2) d by (auto simp: h_def)
  obtain c3 where c3: "readExact (length (payload f)) (map Got c2 @ es) = (Some (payload f), map Got c3 @ es)" "concat c3 = r"
    using read_exact_chunks[OF c2(3), of "length (payload f)"] c2(2) by auto
  have "unat (readU32 (drop 4 h)) = length (payload f)" "readU16 h = frame_version f" "readU16 (drop 2 h) = frame_type f"
    using assms(2) read_write_U32[of _ "[]"] by (simp_all add: h_def ipc_frame_ok_def size_defs)
  with assms(2) c1(1) c2(1) c3 show ?thesis
    by (auto simp: readDaemonIpcFrame_def Let_def ipc_frame_ok_def size_defs)
qed

section \<open>Payloads\<close>

text \<open>The payloads of one number and the payloads of a counted text; the message records of \<open>DaemonIpcProtocol.h\<close>.\<close>

record DaemonIpcHandshakeAckPayload =
  serverProtocolVersion :: "16 word"
  maxSessions :: "16 word"
  buildVersion :: "byte list"

record DaemonIpcErrorPayload =
  error_code :: "32 word"
  error_message :: "byte list"

definition encodeHandshakePayload :: "16 word \<Rightarrow> byte list" where
  "encodeHandshakePayload v = writeU16 v"

definition decodeHandshakePayload :: "byte list \<Rightarrow> 16 word option" where
  "decodeHandshakePayload p = (if length p \<noteq> 2 then None else Some (readU16 p))"

definition encodeHandshakeAckPayload :: "DaemonIpcHandshakeAckPayload \<Rightarrow> byte list" where
  "encodeHandshakeAckPayload p =
     writeU16 (serverProtocolVersion p) @ writeU16 (maxSessions p) @ writeU32 (of_nat (length (buildVersion p))) @ buildVersion p"

definition decodeHandshakeAckPayload :: "byte list \<Rightarrow> DaemonIpcHandshakeAckPayload option" where
  "decodeHandshakeAckPayload p =
     (if length p < 8 then None
      else let versionLen = unat (readU32 (drop 4 p)) in
        if kDaemonIpcMaxPayloadSize < versionLen \<or> length p \<noteq> 8 + versionLen then None
        else Some \<lparr>serverProtocolVersion = readU16 p, maxSessions = readU16 (drop 2 p), buildVersion = take versionLen (drop 8 p)\<rparr>)"

definition encodeReserveSessionAckPayload :: "32 word \<Rightarrow> byte list" where
  "encodeReserveSessionAckPayload port = writeU32 port"

definition decodeReserveSessionAckPayload :: "byte list \<Rightarrow> 32 word option" where
  "decodeReserveSessionAckPayload p = (if length p \<noteq> 4 then None else Some (readU32 p))"

definition encodeErrorPayload :: "DaemonIpcErrorPayload \<Rightarrow> byte list" where
  "encodeErrorPayload p = writeU32 (error_code p) @ writeU32 (of_nat (length (error_message p))) @ error_message p"

definition decodeErrorPayload :: "byte list \<Rightarrow> DaemonIpcErrorPayload option" where
  "decodeErrorPayload p =
     (if length p < 8 then None
      else let messageLen = unat (readU32 (drop 4 p)) in
        if kDaemonIpcMaxPayloadSize < messageLen \<or> length p \<noteq> 8 + messageLen then None
        else Some \<lparr>error_code = readU32 p, error_message = take messageLen (drop 8 p)\<rparr>)"

definition encodeAttachSessionPayload :: "32 word \<Rightarrow> byte list" where
  "encodeAttachSessionPayload port = writeU32 port"

definition decodeAttachSessionPayload :: "byte list \<Rightarrow> 32 word option" where
  "decodeAttachSessionPayload p = (if length p \<noteq> 4 then None else Some (readU32 p))"

definition encodeAttachSessionAckPayload :: "32 word \<Rightarrow> byte list" where
  "encodeAttachSessionAckPayload port = writeU32 port"

definition decodeAttachSessionAckPayload :: "byte list \<Rightarrow> 32 word option" where
  "decodeAttachSessionAckPayload p = (if length p \<noteq> 4 then None else Some (readU32 p))"

definition encodeSessionDataPayload :: "byte list \<Rightarrow> byte list" where
  "encodeSessionDataPayload d = writeU32 (of_nat (length d)) @ d"

definition decodeSessionDataPayload :: "byte list \<Rightarrow> byte list option" where
  "decodeSessionDataPayload p =
     (if length p < 4 then None
      else let dataLen = unat (readU32 p) in
        if kDaemonIpcMaxSessionDataSize < dataLen \<or> length p \<noteq> 4 + dataLen then None
        else Some (take dataLen (drop 4 p)))"

lemma payload_in_frame:
  "length d \<le> kDaemonIpcMaxSessionDataSize \<longleftrightarrow> ipc_frame_ok \<lparr>frame_version = v, frame_type = t, payload = encodeSessionDataPayload d\<rparr>"
  by (simp add: ipc_frame_ok_def encodeSessionDataPayload_def size_defs)

lemmas payload_defs =
  encodeHandshakePayload_def decodeHandshakePayload_def encodeHandshakeAckPayload_def decodeHandshakeAckPayload_def
  encodeReserveSessionAckPayload_def decodeReserveSessionAckPayload_def encodeErrorPayload_def decodeErrorPayload_def
  encodeAttachSessionPayload_def decodeAttachSessionPayload_def encodeAttachSessionAckPayload_def decodeAttachSessionAckPayload_def
  encodeSessionDataPayload_def decodeSessionDataPayload_def

lemma read_write_alone [simp]: "readU16 (writeU16 v) = v" "readU32 (writeU32 w) = w"
  using read_write_U16[of v "[]"] read_write_U32[of w "[]"] by simp_all

interpretation handshake_wire: codec encodeHandshakePayload decodeHandshakePayload "\<lambda>_. True"
  by unfold_locales (simp add: payload_defs)

interpretation handshake_ack_wire: codec encodeHandshakeAckPayload decodeHandshakeAckPayload "\<lambda>p. length (buildVersion p) \<le> kDaemonIpcMaxPayloadSize"
  by unfold_locales (simp add: payload_defs size_defs)

interpretation reserve_ack_wire: codec encodeReserveSessionAckPayload decodeReserveSessionAckPayload "\<lambda>_. True"
  by unfold_locales (simp add: payload_defs)

interpretation error_wire: codec encodeErrorPayload decodeErrorPayload "\<lambda>p. length (error_message p) \<le> kDaemonIpcMaxPayloadSize"
  by unfold_locales (simp add: payload_defs size_defs)

interpretation attach_wire: codec encodeAttachSessionPayload decodeAttachSessionPayload "\<lambda>_. True"
  by unfold_locales (simp add: payload_defs)

interpretation attach_ack_wire: codec encodeAttachSessionAckPayload decodeAttachSessionAckPayload "\<lambda>_. True"
  by unfold_locales (simp add: payload_defs)

interpretation session_data_wire: codec encodeSessionDataPayload decodeSessionDataPayload "\<lambda>d. length d \<le> kDaemonIpcMaxSessionDataSize"
  by unfold_locales (simp add: payload_defs size_defs)

section \<open>What the protocol promises\<close>

text \<open>
  C38. The decoder accepts exactly what the encoder writes: bytes decode to a frame if and only if they begin with the encoding of that
  frame and its payload is within the limit.  So no two frames share an encoding and no encoding is a prefix of another.
\<close>

theorem frame_decoding_exact:
  "decodeDaemonIpcFrame bytes = Some f \<longleftrightarrow> ipc_frame_ok f \<and> (\<exists>rest. bytes = encodeDaemonIpcFrame f @ rest)"
proof
  assume "decodeDaemonIpcFrame bytes = Some f"
  from encode_decoded[OF this] show "ipc_frame_ok f \<and> (\<exists>rest. bytes = encodeDaemonIpcFrame f @ rest)"
    by (metis append_take_drop_id)
qed (auto intro: decode_encoded)

text \<open>
  C37. Frames survive any segmentation of the byte stream.  However the bytes of a sequence of frames are cut into chunks and spread over
  the polls of the non-blocking reader, the polls deliver the frames in order and without a protocol error, those bytes that have
  arrived and are not yet delivered staying in the buffer; and once all the bytes have arrived, one further poll for each frame
  delivers all of them.
\<close>

theorem frames_survive_segmentation:
  assumes "list_all (\<lambda>cs. [] \<notin> set cs) polls" "list_all ipc_frame_ok fs" "concat (concat polls) @ later = wire fs"
  shows "(\<exists>sent fs' b. poll_frames (length polls) [] (arrivals polls) = (sent, Incomplete, b) \<and> fs = sent @ fs' \<and> b @ later = wire fs') \<and>
    (later = [] \<longrightarrow> poll_frames (length polls + length fs) [] (arrivals (polls @ replicate (length fs) [])) = (fs, Incomplete, []))"
  using polls_deliver_prefix[of polls fs "[]" later] polls_deliver_all[of polls fs "[]" "length fs"] assms by auto

theorem frames_survive_segmentation_witness:
  "poll_frames 4 [] (arrivals [[[71], [69, 77]], [[73, 0, 1, 0, 3, 0, 0, 0, 1, 42, 71, 69, 77, 73, 0, 1, 0, 4, 0, 0, 0, 0]], [], []]) =
     ([\<lparr>frame_version = 1, frame_type = 3, payload = [42]\<rparr>, \<lparr>frame_version = 1, frame_type = 4, payload = []\<rparr>], Incomplete, [])"
proof -
  have "wire [\<lparr>frame_version = 1, frame_type = 3, payload = [42]\<rparr>, \<lparr>frame_version = 1, frame_type = 4, payload = []\<rparr>] =
      [71, 69, 77, 73, 0, 1, 0, 3, 0, 0, 0, 1, 42, 71, 69, 77, 73, 0, 1, 0, 4, 0, 0, 0, 0]"
    by (simp add: encodeDaemonIpcFrame_def kDaemonIpcMagic_def writeU16_def writeU32_def)
  moreover have "ipc_frame_ok \<lparr>frame_version = 1, frame_type = 3, payload = [42]\<rparr>" "ipc_frame_ok \<lparr>frame_version = 1, frame_type = 4, payload = []\<rparr>"
    by (simp_all add: ipc_frame_ok_def size_defs)
  moreover have n4: "4 = Suc (Suc (Suc (Suc 0)))" by simp
  ultimately show ?thesis
    unfolding n4 using frames_survive_segmentation[of "[[[71], [69, 77]], [[73, 0, 1, 0, 3, 0, 0, 0, 1, 42, 71, 69, 77, 73, 0, 1, 0, 4, 0, 0, 0, 0]]]"
        "[\<lparr>frame_version = 1, frame_type = 3, payload = [42]\<rparr>, \<lparr>frame_version = 1, frame_type = 4, payload = []\<rparr>]" "[]"]
    by (simp del: poll_frames.simps arrivals_simps wire_simps)
qed

text \<open>
  A peer that sends a frame and closes at once: the reader finds the end of the stream before it looks at what it has collected, and
  reports a protocol error; the frame is not delivered.
\<close>

lemma frame_before_close_lost:
  assumes "c \<noteq> []" "length c \<le> 4096"
  shows "tryReadDaemonIpcFrame [] [Got c] = (ProtocolError, None, c, [])"
  using assms by (cases c) (simp_all add: tryReadDaemonIpcFrame_def fill_buffer.simps[of "[]"] fill_buffer.simps[of "_ # _"])

end
