(* ===== verification/Scheduler.thy ===== *)
theory Scheduler
  imports Prelude "HOL-Library.Word"
begin

text \<open>
  The execution token of the service daemon (\<open>CooperativeSessionRunner.cpp\<close>): one session runs at a time, gives the token up when it
  waits for input, and gets it back in round-robin order.  A method that waits on the condition variable is a step that is enabled when
  its predicate holds; every other method is one step under the mutex.  An exception is a value of \<open>run_error\<close>.
\<close>

section \<open>The runner\<close>

type_synonym SessionId = "32 word"

datatype SessionRunState = Runnable | Running | WaitingForInput

record runner =
  active_session :: "SessionId option"
  run_depth :: nat
  lastServed :: SessionId
  sessionStates :: "(SessionId \<times> SessionRunState) list"

datatype run_error = AcquireFailed | ReleaseByNonHolder | ReleaseAtZero | YieldByNonHolder

definition stateLocked :: "runner \<Rightarrow> SessionId \<Rightarrow> SessionRunState" where
  "stateLocked r i = (case map_of (sessionStates r) i of None \<Rightarrow> Runnable | Some s \<Rightarrow> s)"

definition runnable_ids :: "runner \<Rightarrow> SessionId option \<Rightarrow> SessionId list" where
  "runnable_ids r requester =
     (let runnable = map fst (filter (\<lambda>(_, s). s = Runnable) (sessionStates r)) in
      case requester of
        Some q \<Rightarrow> if stateLocked r q = Runnable \<and> q \<notin> set runnable then runnable @ [q] else runnable
      | None \<Rightarrow> runnable)"

definition nextRunnableSessionLocked :: "runner \<Rightarrow> SessionId option \<Rightarrow> SessionId option" where
  "nextRunnableSessionLocked r requester =
     (let runnable = runnable_ids r requester in
      if runnable = [] then None
      else let sorted_ids = sort runnable in
        case find (\<lambda>i. lastServed r < i) sorted_ids of Some i \<Rightarrow> Some i | None \<Rightarrow> Some (hd sorted_ids))"

definition canAcquireLocked :: "runner \<Rightarrow> SessionId \<Rightarrow> bool" where
  "canAcquireLocked r i =
     (if active_session r = Some i then True
      else if active_session r \<noteq> None \<or> stateLocked r i = WaitingForInput then False
      else case nextRunnableSessionLocked r (Some i) of None \<Rightarrow> True | Some n \<Rightarrow> n = i)"

definition canAcquireAfterInputWakeLocked :: "runner \<Rightarrow> SessionId \<Rightarrow> bool" where
  "canAcquireAfterInputWakeLocked r i =
     (if active_session r = Some i then True else active_session r = None \<and> stateLocked r i \<noteq> WaitingForInput)"

definition grantAcquireLocked :: "runner \<Rightarrow> SessionId \<Rightarrow> run_error + runner" where
  "grantAcquireLocked r i =
     (let r1 = (if active_session r = None then r\<lparr>active_session := Some i, run_depth := 0\<rparr> else r) in
      if active_session r1 \<noteq> Some i then Inl AcquireFailed
      else Inr (r1\<lparr>run_depth := run_depth r1 + 1, sessionStates := map_put i Running (sessionStates r1)\<rparr>))"

text \<open>\<open>None\<close> while the wait on the condition variable has not ended.\<close>

definition acquire_token :: "runner \<Rightarrow> SessionId \<Rightarrow> (run_error + runner) option" where
  "acquire_token r i = (if canAcquireLocked r i then Some (grantAcquireLocked r i) else None)"

definition acquireAfterInputWake :: "runner \<Rightarrow> SessionId \<Rightarrow> (run_error + runner) option" where
  "acquireAfterInputWake r i = (if canAcquireAfterInputWakeLocked r i then Some (grantAcquireLocked r i) else None)"

definition release_token :: "runner \<Rightarrow> SessionId \<Rightarrow> run_error + runner" where
  "release_token r i =
     (if active_session r \<noteq> Some i then Inl ReleaseByNonHolder
      else if run_depth r = 0 then Inl ReleaseAtZero
      else let r1 = r\<lparr>run_depth := run_depth r - 1\<rparr> in
        Inr (if run_depth r1 = 0
             then r1\<lparr>lastServed := i, active_session := None, sessionStates := map_put i Runnable (sessionStates r1)\<rparr>
             else r1))"

definition yieldWaitingForInput :: "runner \<Rightarrow> SessionId \<Rightarrow> run_error + runner" where
  "yieldWaitingForInput r i =
     (if active_session r \<noteq> Some i \<or> run_depth r = 0 then Inl YieldByNonHolder
      else Inr (r\<lparr>lastServed := i, sessionStates := map_put i WaitingForInput (sessionStates r), run_depth := 0, active_session := None\<rparr>))"

definition resume_session :: "runner \<Rightarrow> SessionId \<Rightarrow> runner" where
  "resume_session r i = r\<lparr>sessionStates := map_put i Runnable (sessionStates r)\<rparr>"

definition retireSession :: "runner \<Rightarrow> SessionId \<Rightarrow> runner" where
  "retireSession r i =
     (let r1 = r\<lparr>sessionStates := map_erase i (sessionStates r)\<rparr> in
      if active_session r1 = Some i then r1\<lparr>lastServed := i, active_session := None, run_depth := 0\<rparr> else r1)"

text \<open>What \<open>runExclusive\<close> does after its function has returned; before it, it acquires.\<close>

definition runExclusive_end :: "runner \<Rightarrow> SessionId \<Rightarrow> runner" where
  "runExclusive_end r i =
     (if active_session r = Some i \<and> 0 < run_depth r
      then let r1 = r\<lparr>run_depth := run_depth r - 1\<rparr> in
        if run_depth r1 = 0
        then r1\<lparr>lastServed := i, active_session := None, sessionStates := map_put i Runnable (sessionStates r1)\<rparr>
        else r1
      else if active_session r = None \<and> stateLocked r i = WaitingForInput
      then r\<lparr>sessionStates := map_put i Runnable (sessionStates r)\<rparr>
      else r)"

definition initial_runner :: runner where
  "initial_runner = \<lparr>active_session = None, run_depth = 0, lastServed = 0, sessionStates = []\<rparr>"

section \<open>The runner as a machine\<close>

text \<open>
  What the threads of the daemon do to the runner, in the order the mutex gives.  A wait that has not ended and a call that throws leave
  it as it is.
\<close>

datatype token_op =
  Acquire SessionId | AcquireWake SessionId | ReleaseOp SessionId | YieldOp SessionId | ResumeOp SessionId | Retire SessionId
  | ExclusiveEnd SessionId

fun run_step :: "runner \<Rightarrow> token_op \<Rightarrow> runner" where
  "run_step r (Acquire i) = (case acquire_token r i of Some (Inr r') \<Rightarrow> r' | _ \<Rightarrow> r)" |
  "run_step r (AcquireWake i) = (case acquireAfterInputWake r i of Some (Inr r') \<Rightarrow> r' | _ \<Rightarrow> r)" |
  "run_step r (ReleaseOp i) = (case release_token r i of Inr r' \<Rightarrow> r' | Inl _ \<Rightarrow> r)" |
  "run_step r (YieldOp i) = (case yieldWaitingForInput r i of Inr r' \<Rightarrow> r' | Inl _ \<Rightarrow> r)" |
  "run_step r (ResumeOp i) = resume_session r i" |
  "run_step r (Retire i) = retireSession r i" |
  "run_step r (ExclusiveEnd i) = runExclusive_end r i"

definition runner_ok :: "runner \<Rightarrow> bool" where
  "runner_ok r \<longleftrightarrow>
     map_wf (sessionStates r) \<and>
     (active_session r = None \<longleftrightarrow> run_depth r = 0) \<and>
     (\<forall>i. active_session r = Some i \<longrightarrow> stateLocked r i \<noteq> WaitingForInput) \<and>
     (\<forall>i. stateLocked r i = Running \<longrightarrow> active_session r = Some i)"

lemmas runner_defs =
  acquire_token_def acquireAfterInputWake_def grantAcquireLocked_def release_token_def yieldWaitingForInput_def resume_session_def
  retireSession_def runExclusive_end_def stateLocked_def Let_def

lemma initial_runner_ok: "runner_ok initial_runner"
  by (simp add: runner_ok_def initial_runner_def map_wf_def stateLocked_def)

lemma run_step_ok: "runner_ok r \<Longrightarrow> runner_ok (run_step r x)"
  by (cases x)
     (auto simp: runner_ok_def runner_defs canAcquireLocked_def canAcquireAfterInputWakeLocked_def
       split: if_splits option.splits sum.splits)

interpretation token: invariant_machine run_step runner_ok
  by unfold_locales (rule run_step_ok)

lemmas reachable_runner_ok = token.run_inv[OF initial_runner_ok]

section \<open>One session at a time\<close>

definition gives_up :: "SessionId \<Rightarrow> token_op \<Rightarrow> bool" where
  "gives_up i x \<longleftrightarrow> x \<in> {ReleaseOp i, YieldOp i, Retire i, ExclusiveEnd i}"

lemma token_kept:
  assumes "active_session r = Some i" "\<not> gives_up i x"
  shows "active_session (run_step r x) = Some i"
  using assms
  by (cases x)
     (auto simp: gives_up_def runner_defs canAcquireLocked_def canAcquireAfterInputWakeLocked_def split: option.splits sum.splits)

lemma token_not_taken: "active_session r = Some i \<Longrightarrow> active_session (run_step r x) \<in> {Some i, None}"
  by (cases x)
     (auto simp: runner_defs canAcquireLocked_def canAcquireAfterInputWakeLocked_def split: option.splits sum.splits)

lemma token_denied:
  assumes "active_session r = Some i" "j \<noteq> i"
  shows "acquire_token r j = None" "acquireAfterInputWake r j = None"
  using assms by (simp_all add: acquire_token_def acquireAfterInputWake_def canAcquireLocked_def canAcquireAfterInputWakeLocked_def)

section \<open>Round robin\<close>

text \<open>How many places after the session \<open>l\<close> the session \<open>i\<close> has its turn, in the cyclic order of the session numbers.\<close>

definition turns :: "SessionId \<Rightarrow> SessionId \<Rightarrow> nat" where
  "turns l i = (if l < i then unat i - unat l else 2 ^ 32 + unat i - unat l)"

text \<open>The session that has, or has last had, the token.\<close>

definition holder :: "runner \<Rightarrow> SessionId" where
  "holder r = (case active_session r of Some a \<Rightarrow> a | None \<Rightarrow> lastServed r)"

text \<open>The sessions that take the free token along a run.\<close>

definition taken :: "runner \<Rightarrow> token_op \<Rightarrow> SessionId list" where
  "taken r x =
     (if active_session r = None then (case active_session (run_step r x) of Some i \<Rightarrow> [i] | None \<Rightarrow> []) else [])"

fun grants :: "runner \<Rightarrow> token_op list \<Rightarrow> SessionId list" where
  "grants r [] = []" |
  "grants r (x # xs) = taken r x @ grants (run_step r x) xs"

lemma find_least: "sorted xs \<Longrightarrow> find P xs = Some i \<Longrightarrow> w \<in> set xs \<Longrightarrow> P w \<Longrightarrow> i \<le> w"
  by (induction xs) (auto split: if_splits)

lemma registered_runnable:
  "map_of (sessionStates r) w = Some Runnable \<Longrightarrow> w \<in> set (runnable_ids r q)"
  by (force simp: runnable_ids_def Let_def image_iff dest: map_of_SomeD split: option.splits)

lemma word_bound: "unat (l :: SessionId) < 2 ^ 32"
  using unsigned_less[of l] by simp

lemma next_has_fewest_turns:
  assumes "nextRunnableSessionLocked r q = Some i" "w \<in> set (runnable_ids r q)"
  shows "turns (lastServed r) i \<le> turns (lastServed r) w"
proof -
  define s where "s = sort (runnable_ids r q)"
  have s: "sorted s" "w \<in> set s" using assms(2) by (simp_all add: s_def)
  then have "s \<noteq> []" by auto
  have bound: "unat j < 2 ^ 32" for j :: SessionId by (rule word_bound)
  show ?thesis
  proof (cases "find (\<lambda>j. lastServed r < j) s")
    case None
    then have "i = hd s"
      using assms(1) by (simp add: nextRunnableSessionLocked_def Let_def s_def split: if_splits)
    moreover have "\<not> lastServed r < w" "\<not> lastServed r < hd s"
      using None s(2) \<open>s \<noteq> []\<close> by (simp_all add: find_None_iff)
    moreover have "hd s \<le> w" using s by (cases s) auto
    ultimately show ?thesis by (simp add: turns_def word_le_nat_alt)
  next
    case (Some j)
    then have "i = j" using assms by (auto simp: nextRunnableSessionLocked_def s_def Let_def split: if_splits)
    moreover have "lastServed r < j" using Some by (auto simp: find_Some_iff)
    moreover have "lastServed r < w \<Longrightarrow> j \<le> w" by (rule find_least[OF s(1) Some s(2)])
    ultimately show ?thesis
      using bound[of j] bound[of "lastServed r"] by (auto simp: turns_def word_le_nat_alt word_less_nat_alt)
  qed
qed

lemma turns_step: "turns l i \<le> turns l w \<Longrightarrow> i \<noteq> w \<Longrightarrow> turns i w < turns l w"
  using word_bound[of l] word_bound[of i] word_bound[of w] word_unat_eq_iff[of i w]
  by (auto simp: turns_def word_less_nat_alt split: if_splits)

text \<open>A session that waits for its turn: it is registered as runnable and does not have the token.\<close>

definition waits :: "runner \<Rightarrow> SessionId \<Rightarrow> bool" where
  "waits r w \<longleftrightarrow> map_of (sessionStates r) w = Some Runnable \<and> active_session r \<noteq> Some w"

definition orderly :: "SessionId \<Rightarrow> token_op \<Rightarrow> bool" where
  "orderly w x \<longleftrightarrow> x \<noteq> Retire w \<and> (\<forall>i. x \<noteq> AcquireWake i)"

lemma waits_step:
  assumes "waits r w" "orderly w x" "active_session (run_step r x) \<noteq> Some w"
  shows "waits (run_step r x) w"
  using assms
  by (cases x)
     (auto simp: waits_def orderly_def runner_defs canAcquireLocked_def split: option.splits sum.splits if_splits)

lemma grant_next:
  assumes "waits r w" "orderly w x" "active_session r = None" "active_session (run_step r x) = Some i" "i \<noteq> w"
  shows "turns i w < turns (holder r) w"
proof -
  have "x = Acquire i" "canAcquireLocked r i"
    using assms(2-4) by (cases x; auto simp: orderly_def runner_defs split: if_splits option.splits sum.splits)+
  moreover have w: "w \<in> set (runnable_ids r (Some i))" using assms(1) by (simp add: waits_def registered_runnable)
  ultimately have "nextRunnableSessionLocked r (Some i) = Some i"
    using assms(3) by (auto simp: canAcquireLocked_def nextRunnableSessionLocked_def Let_def split: option.splits if_splits)
  from next_has_fewest_turns[OF this w] show ?thesis
    using assms(3,5) by (simp add: holder_def turns_step)
qed

lemma holder_kept:
  assumes "active_session r \<noteq> None \<or> active_session (run_step r x) = None" "runner_ok r"
  shows "holder (run_step r x) = holder r"
  using assms
  by (cases x)
     (auto simp: holder_def runner_ok_def runner_defs canAcquireLocked_def canAcquireAfterInputWakeLocked_def
       split: option.splits sum.splits if_splits)

lemma grants_approach:
  assumes "runner_ok r" "waits r w" "\<forall>x \<in> set xs. orderly w x" "w \<notin> set (grants r xs)"
  shows "sorted_wrt (\<lambda>i j. turns j w < turns i w) (grants r xs) \<and> (\<forall>i \<in> set (grants r xs). turns i w < turns (holder r) w)"
  using assms
proof (induction xs arbitrary: r)
  case (Cons x xs)
  let ?r = "run_step r x"
  have ok: "runner_ok ?r" using Cons.prems(1) by (rule run_step_ok)
  have x: "orderly w x" using Cons.prems(3) by simp
  have act: "active_session ?r \<noteq> Some w"
    using Cons.prems(2,4) token_not_taken[of r _ x] by (cases "active_session r") (auto simp: waits_def taken_def)
  have "\<forall>x \<in> set xs. orderly w x" using Cons.prems(3) by simp
  moreover have "w \<notin> set (grants ?r xs)" using Cons.prems(4) by simp
  ultimately have IH: "sorted_wrt (\<lambda>i j. turns j w < turns i w) (grants ?r xs)" "\<forall>i \<in> set (grants ?r xs). turns i w < turns (holder ?r) w"
    using Cons.IH[OF ok waits_step[OF Cons.prems(2) x act]] by blast+
  show ?case
  proof (cases "active_session r = None \<and> active_session ?r \<noteq> None")
    case True
    then obtain i where i: "active_session r = None" "active_session ?r = Some i" by auto
    then have "turns i w < turns (holder r) w" using grant_next[OF Cons.prems(2) x i] act by auto
    moreover have "taken r x = [i]" "holder ?r = i" using i by (simp_all add: taken_def holder_def)
    ultimately show ?thesis using IH by (auto simp del: run_step.simps)
  next
    case False
    then have "taken r x = []" "holder ?r = holder r" using holder_kept[OF _ Cons.prems(1), of x] by (auto simp: taken_def)
    then show ?thesis using IH by simp
  qed
qed simp

lemma sorted_wrt_less_distinct: "sorted_wrt (\<lambda>i j. f j < (f i :: nat)) xs \<Longrightarrow> distinct xs"
  by (induction xs) auto

lemma next_in_runnable: "nextRunnableSessionLocked r q = Some i \<Longrightarrow> i \<in> set (runnable_ids r q)"
  by (auto simp: nextRunnableSessionLocked_def Let_def find_Some_iff split: if_splits option.splits)
     (metis list.set_sel(1) set_empty set_sort nth_mem length_sort)+

lemma next_exists: "runnable_ids r q \<noteq> [] \<Longrightarrow> \<exists>i. nextRunnableSessionLocked r q = Some i"
  by (cases "find (\<lambda>i. lastServed r < i) (sort (runnable_ids r q))") (auto simp: nextRunnableSessionLocked_def Let_def)

lemma next_can_acquire:
  assumes "runner_ok r" "active_session r = None" "map_of (sessionStates r) w = Some Runnable"
  shows "\<exists>i r'. nextRunnableSessionLocked r None = Some i \<and> acquire_token r i = Some (Inr r') \<and> active_session r' = Some i"
proof -
  have "runnable_ids r None \<noteq> []" using registered_runnable[OF assms(3), of None] by auto
  then obtain i where i: "nextRunnableSessionLocked r None = Some i" using next_exists by blast
  have mem: "i \<in> set (runnable_ids r None)" using i by (rule next_in_runnable)
  then have "map_of (sessionStates r) i = Some Runnable"
    using assms(1) by (auto simp: runner_ok_def map_wf_def runnable_ids_def)
  with mem have "runnable_ids r (Some i) = runnable_ids r None" by (simp add: runnable_ids_def Let_def)
  with i have "nextRunnableSessionLocked r (Some i) = Some i" by (simp add: nextRunnableSessionLocked_def)
  moreover have "stateLocked r i = Runnable" using \<open>map_of (sessionStates r) i = Some Runnable\<close> by (simp add: stateLocked_def)
  ultimately show ?thesis using assms(2) i by (simp add: acquire_token_def canAcquireLocked_def grantAcquireLocked_def)
qed

section \<open>What the runner promises\<close>

text \<open>
  C34. One session runs at a time.  Whatever the threads of the daemon have done to the runner since it was created, a session that has
  the token keeps it until it releases it, yields, ends its exclusive run or is retired; until then no other session can acquire it,
  neither in turn nor after input has woken it.
\<close>

theorem one_session_runs:
  assumes "active_session (foldl run_step initial_runner before) = Some i" "\<forall>x \<in> set ops. \<not> gives_up i x" "j \<noteq> i"
  shows "active_session (foldl run_step initial_runner (before @ ops)) = Some i \<and>
    acquire_token (foldl run_step initial_runner (before @ ops)) j = None \<and>
    acquireAfterInputWake (foldl run_step initial_runner (before @ ops)) j = None"
proof -
  let ?r = "foldl run_step initial_runner before"
  have "active_session (foldl run_step ?r ops) = Some i"
    by (rule token.run_keeps[OF reachable_runner_ok]) (use assms(1,2) token_kept in auto)
  then show ?thesis using token_denied[OF _ assms(3)] by simp
qed

theorem one_session_runs_witness:
  "acquire_token (foldl run_step initial_runner ([Acquire 1] @ [Acquire 2, ResumeOp 2, Acquire 1, ReleaseOp 2])) 2 = None"
proof -
  have "active_session (foldl run_step initial_runner [Acquire 1]) = Some 1" by code_simp
  then show ?thesis using one_session_runs[of "[Acquire 1]" 1 "[Acquire 2, ResumeOp 2, Acquire 1, ReleaseOp 2]" 2] by (simp add: gives_up_def)
qed



section \<open>A session without a thread\<close>

text \<open>
  Input for a session whose thread has ended registers it again as runnable: nothing will ever acquire for it, and the other sessions
  wait for its turn.
\<close>

lemma resume_after_retire_blocks:
  "acquire_token (foldl run_step initial_runner [Acquire 1, ExclusiveEnd 1, Retire 1, ResumeOp 1, Acquire 2, ExclusiveEnd 2]) 2 = None"
  by code_simp

end
