(* ===== verification/Session_Channel.thy ===== *)
theory Session_Channel
  imports Daemon_Protocol Scheduler
begin

text \<open>
  The channel between a session and the client of the service daemon (\<open>IpcSessionChannel.cpp\<close>): the queues the session's streams read
  and write, the flush of the output queues to a non-blocking socket, and the reader that gives the execution token up while it waits
  for input.  What \<open>write\<close> answers is a list: \<open>Some n\<close> when it takes up to \<open>n\<close> bytes, \<open>None\<close> when it fails or would block; a list
  that has run out would block.
\<close>

section \<open>The channel\<close>

record channel =
  inputQueue :: "byte list"
  outputQueue :: "byte list"
  diagnosticQueue :: "byte list"
  pendingOutputWire :: "byte list"
  pendingDiagnosticWire :: "byte list"
  pendingOutputChunkSize :: nat
  pendingDiagnosticChunkSize :: nat
  channel_closed :: bool
  hasPendingOutput_flag :: bool
  scheduling :: "SessionId option"

text \<open>The scheduling of a channel is the session whose three callbacks \<open>bindIpcChannelScheduling\<close> has set.\<close>

definition new_channel :: channel where
  "new_channel = \<lparr>inputQueue = [], outputQueue = [], diagnosticQueue = [], pendingOutputWire = [], pendingDiagnosticWire = [],
     pendingOutputChunkSize = 0, pendingDiagnosticChunkSize = 0, channel_closed = False, hasPendingOutput_flag = False, scheduling = None\<rparr>"

definition setSessionScheduling :: "SessionId \<Rightarrow> channel \<Rightarrow> channel" where
  "setSessionScheduling i ch = ch\<lparr>scheduling := Some i\<rparr>"

definition clearSessionScheduling :: "channel \<Rightarrow> channel" where
  "clearSessionScheduling ch = ch\<lparr>scheduling := None\<rparr>"

definition close_channel :: "channel \<Rightarrow> channel" where
  "close_channel ch = ch\<lparr>channel_closed := True\<rparr>"

definition hasPendingOutput :: "channel \<Rightarrow> bool" where
  "hasPendingOutput ch \<longleftrightarrow>
     outputQueue ch \<noteq> [] \<or> diagnosticQueue ch \<noteq> [] \<or> pendingOutputWire ch \<noteq> [] \<or> pendingDiagnosticWire ch \<noteq> []"

definition writeOutputBytes :: "byte list \<Rightarrow> bool \<Rightarrow> channel \<Rightarrow> channel" where
  "writeOutputBytes d diagnostic ch =
     (if diagnostic then ch\<lparr>diagnosticQueue := diagnosticQueue ch @ d, hasPendingOutput_flag := True\<rparr>
      else ch\<lparr>outputQueue := outputQueue ch @ d, hasPendingOutput_flag := True\<rparr>)"

definition writeOutputChar :: "byte \<Rightarrow> bool \<Rightarrow> channel \<Rightarrow> channel" where
  "writeOutputChar c diagnostic ch = writeOutputBytes [c] diagnostic ch"

text \<open>The input reaches the queue and wakes the session, unless the channel is closed.\<close>

definition pushInput :: "byte list \<Rightarrow> channel \<times> runner \<Rightarrow> channel \<times> runner" where
  "pushInput d = (\<lambda>(ch, r).
     if d = [] then (ch, r)
     else if channel_closed ch then (ch, r)
     else (ch\<lparr>inputQueue := inputQueue ch @ d\<rparr>, case scheduling ch of Some i \<Rightarrow> resume_session r i | None \<Rightarrow> r))"

section \<open>Flushing\<close>

type_synonym write_answers = "nat option list"

fun flushWireBuffer :: "write_answers \<Rightarrow> byte list \<Rightarrow> bool \<times> byte list \<times> byte list \<times> write_answers" where
  "flushWireBuffer ans [] = (True, [], [], ans)" |
  "flushWireBuffer [] (b # bs) = (False, b # bs, [], [])" |
  "flushWireBuffer (None # ans) (b # bs) = (False, b # bs, [], ans)" |
  "flushWireBuffer (Some n # ans) (b # bs) =
     (case flushWireBuffer ans (drop n (b # bs)) of (ok, w, sent, ans') \<Rightarrow> (ok, w, take n (b # bs) @ sent, ans'))"

definition session_frame :: "16 word \<Rightarrow> byte list \<Rightarrow> byte list" where
  "session_frame t d =
     encodeDaemonIpcFrame \<lparr>frame_version = kDaemonIpcProtocolVersion, frame_type = t, payload = encodeSessionDataPayload d\<rparr>"

function flush_chunks ::
  "16 word \<Rightarrow> byte list \<Rightarrow> byte list \<Rightarrow> nat \<Rightarrow> write_answers \<Rightarrow> bool \<times> byte list \<times> byte list \<times> nat \<times> byte list \<times> write_answers" where
  "flush_chunks t queue pendingWire pendingChunkSize ans =
     (if queue = [] then (True, queue, pendingWire, pendingChunkSize, [], ans)
      else
        let chunkSize = (if pendingWire = [] then min (length queue) kDaemonIpcMaxSessionDataSize else pendingChunkSize);
            w = (if pendingWire = [] then session_frame t (take chunkSize queue) else pendingWire)
        in case flushWireBuffer ans w of
            (False, w', sent, ans') \<Rightarrow> (False, queue, w', chunkSize, sent, ans')
          | (True, w', sent, ans') \<Rightarrow>
              (case flush_chunks t (drop chunkSize queue) [] 0 ans' of
                 (ok, q, pw, cs, sent', ans'') \<Rightarrow> (ok, q, pw, cs, sent @ sent', ans'')))"
  by auto
termination
  by (relation "measure (\<lambda>(_, queue, pw, _, _). length queue + length pw)") (auto simp: size_defs split: if_splits intro: less_imp_diff_less)

declare flush_chunks.simps [simp del]

definition flushQueue ::
  "16 word \<Rightarrow> byte list \<Rightarrow> byte list \<Rightarrow> nat \<Rightarrow> write_answers \<Rightarrow> bool \<times> byte list \<times> byte list \<times> nat \<times> byte list \<times> write_answers" where
  "flushQueue t queue pendingWire pendingChunkSize ans =
     (case flushWireBuffer ans pendingWire of
        (False, w, sent, ans') \<Rightarrow> (False, queue, w, pendingChunkSize, sent, ans')
      | (True, w, sent, ans') \<Rightarrow>
          (case flush_chunks t (drop pendingChunkSize queue) w 0 ans' of
             (ok, q, pw, cs, sent', ans'') \<Rightarrow> (ok, q, pw, cs, sent @ sent', ans'')))"

text \<open>
  The flush takes the queues out under the mutex and writes with the mutex released, so that the session may write more meanwhile:
  \<open>others\<close> holds, for each time the mutex is released, what the session adds to its output and its diagnostics.
\<close>

type_synonym other_writes = "(byte list \<times> byte list) list"

definition others_write :: "other_writes \<Rightarrow> channel \<Rightarrow> channel" where
  "others_write ws ch = (case ws of [] \<Rightarrow> ch | (out, diag) # _ \<Rightarrow> writeOutputBytes diag True (writeOutputBytes out False ch))"

definition flush_output :: "other_writes \<Rightarrow> channel \<Rightarrow> write_answers \<Rightarrow> bool \<times> channel \<times> byte list \<times> other_writes \<times> write_answers" where
  "flush_output ws ch ans =
     (let ch0 = ch\<lparr>outputQueue := [], pendingOutputWire := [], pendingOutputChunkSize := 0\<rparr> in
      if outputQueue ch = [] \<and> pendingOutputWire ch = [] then (True, ch0, [], ws, ans)
      else case flushQueue 15 (outputQueue ch) (pendingOutputWire ch) (pendingOutputChunkSize ch) ans of
          (ok, q, pw, cs, sent, ans') \<Rightarrow>
            let ch1 = others_write ws ch0 in
            (ok, if ok then ch1
                 else ch1\<lparr>outputQueue := q @ outputQueue ch1, pendingOutputWire := pw, pendingOutputChunkSize := cs, hasPendingOutput_flag := True\<rparr>,
             sent, tl ws, ans'))"

definition flush_diagnostic :: "other_writes \<Rightarrow> channel \<Rightarrow> write_answers \<Rightarrow> bool \<times> channel \<times> byte list \<times> other_writes \<times> write_answers" where
  "flush_diagnostic ws ch ans =
     (let ch0 = ch\<lparr>diagnosticQueue := [], pendingDiagnosticWire := [], pendingDiagnosticChunkSize := 0\<rparr> in
      if diagnosticQueue ch = [] \<and> pendingDiagnosticWire ch = [] then (True, ch0, [], ws, ans)
      else case flushQueue 16 (diagnosticQueue ch) (pendingDiagnosticWire ch) (pendingDiagnosticChunkSize ch) ans of
          (ok, q, pw, cs, sent, ans') \<Rightarrow>
            let ch1 = others_write ws ch0 in
            (ok, if ok then ch1
                 else ch1\<lparr>diagnosticQueue := q @ diagnosticQueue ch1, pendingDiagnosticWire := pw, pendingDiagnosticChunkSize := cs,
                          hasPendingOutput_flag := True\<rparr>,
             sent, tl ws, ans'))"

lemmas flush_defs = flush_output_def flush_diagnostic_def others_write_def writeOutputBytes_def Let_def

definition pending_total :: "channel \<Rightarrow> nat" where
  "pending_total ch =
     length (outputQueue ch) + length (diagnosticQueue ch) + length (pendingOutputWire ch) + length (pendingDiagnosticWire ch)"

lemma flush_output_measure:
  assumes "flush_output ws ch ans = (True, ch', sent, ws', ans')"
  shows "length ws' \<le> length ws" "length ws' = length ws \<Longrightarrow> pending_total ch' \<le> pending_total ch"
    "length ws' = length ws \<Longrightarrow> outputQueue ch \<noteq> [] \<or> pendingOutputWire ch \<noteq> [] \<Longrightarrow> pending_total ch' < pending_total ch"
    "diagnosticQueue ch' = [] \<and> pendingDiagnosticWire ch' = [] \<Longrightarrow> diagnosticQueue ch = [] \<and> pendingDiagnosticWire ch = []"
  using assms by (cases ws; auto simp: flush_defs pending_total_def split: if_splits prod.splits)+

lemma flush_diagnostic_measure:
  assumes "flush_diagnostic ws ch ans = (True, ch', sent, ws', ans')"
  shows "length ws' \<le> length ws" "length ws' = length ws \<Longrightarrow> pending_total ch' \<le> pending_total ch"
    "length ws' = length ws \<Longrightarrow> diagnosticQueue ch \<noteq> [] \<or> pendingDiagnosticWire ch \<noteq> [] \<Longrightarrow> pending_total ch' < pending_total ch"
  using assms by (cases ws; auto simp: flush_defs pending_total_def split: if_splits prod.splits)+

lemma round_shrinks:
  assumes "hasPendingOutput ch" "flush_output ws ch ans = (True, ch1, s1, ws1, ans1)" "flush_diagnostic ws1 ch1 ans1 = (True, ch2, s2, ws2, ans2)"
  shows "((ws2, ch2, ans2), (ws, ch, ans)) \<in> measures [\<lambda>(ws, _, _). length ws, \<lambda>(_, ch, _). pending_total ch]"
proof (cases "length ws2 = length ws")
  case True
  then have len: "length ws1 = length ws" "length ws2 = length ws1"
    using flush_output_measure(1)[OF assms(2)] flush_diagnostic_measure(1)[OF assms(3)] by simp_all
  have "pending_total ch2 < pending_total ch"
    using assms(1) flush_output_measure(2-4)[OF assms(2)] flush_diagnostic_measure(2,3)[OF assms(3)] len
    by (auto simp: hasPendingOutput_def intro: le_less_trans less_le_trans)
  with True show ?thesis by simp
next
  case False
  then show ?thesis
    using flush_output_measure(1)[OF assms(2)] flush_diagnostic_measure(1)[OF assms(3)] by simp
qed

function flushPendingOutput :: "other_writes \<Rightarrow> channel \<Rightarrow> write_answers \<Rightarrow> channel \<times> byte list \<times> other_writes" where
  "flushPendingOutput ws ch ans =
     (if \<not> hasPendingOutput ch then (ch\<lparr>hasPendingOutput_flag := False\<rparr>, [], ws)
      else case flush_output ws ch ans of
          (False, ch1, sent1, ws1, ans1) \<Rightarrow> (ch1, sent1, ws1)
        | (True, ch1, sent1, ws1, ans1) \<Rightarrow>
            (case flush_diagnostic ws1 ch1 ans1 of
               (False, ch2, sent2, ws2, ans2) \<Rightarrow> (ch2, sent1 @ sent2, ws2)
             | (True, ch2, sent2, ws2, ans2) \<Rightarrow>
                 (case flushPendingOutput ws2 ch2 ans2 of (ch3, sent3, ws3) \<Rightarrow> (ch3, sent1 @ sent2 @ sent3, ws3))))"
  by auto
termination
proof (relation "measures [\<lambda>(ws, _, _). length ws, \<lambda>(_, ch, _). pending_total ch]", simp, goal_cases)
  case (1 ws ch ans)
  then show ?case by (intro round_shrinks) (auto dest: sym)
qed

declare flushPendingOutput.simps [simp del]

section \<open>What is on the wire\<close>

text \<open>
  One stream of the channel: \<open>sent\<close> is what the socket has taken and \<open>written\<close> what the session has written.  The socket has taken
  whole frames and the front of the frame whose rest is pending; their data and what is still queued make up what was written.
\<close>

definition stream_inv :: "16 word \<Rightarrow> byte list \<Rightarrow> byte list \<Rightarrow> byte list \<Rightarrow> byte list \<Rightarrow> nat \<Rightarrow> bool" where
  "stream_inv t sent written queue pw cs \<longleftrightarrow>
     (\<exists>ds. sent @ pw = concat (map (session_frame t) ds) \<and> concat ds @ drop cs queue = written \<and>
        list_all (\<lambda>d. length d \<le> kDaemonIpcMaxSessionDataSize) ds \<and> cs \<le> length queue \<and> (pw = [] \<longrightarrow> cs = 0))"

lemma flushWireBuffer_sent:
  "flushWireBuffer ans w = (ok, w', sent, ans') \<Longrightarrow> sent @ w' = w \<and> (ok \<longleftrightarrow> w' = [])"
proof (induction ans w arbitrary: ok w' sent ans' rule: flushWireBuffer.induct)
  case (4 n ans b bs)
  obtain ok1 w1 s1 a1 where r: "flushWireBuffer ans (drop n (b # bs)) = (ok1, w1, s1, a1)" by (metis prod_cases4)
  from "4.IH"[OF this] "4.prems" r show ?case using append_take_drop_id[of n "b # bs"] by (auto simp del: append_take_drop_id)
qed auto

lemma flush_chunks_inv:
  assumes "stream_inv t sent written queue [] 0" "flush_chunks t queue [] 0 ans = (ok, q, pw, cs, sent', ans')"
  shows "stream_inv t (sent @ sent') written q pw cs \<and> (ok \<longrightarrow> q = [] \<and> pw = [] \<and> cs = 0)"
  using assms
proof (induction "length queue" arbitrary: queue sent ans ok q pw cs sent' ans' rule: less_induct)
  case less
  show ?case
  proof (cases "queue = []")
    case True
    with less.prems show ?thesis by (auto simp: flush_chunks.simps[of t "[]"])
  next
    case False
    define c where "c = min (length queue) kDaemonIpcMaxSessionDataSize"
    have c: "0 < c" "c \<le> length queue" "length (take c queue) \<le> kDaemonIpcMaxSessionDataSize" using False by (auto simp: c_def size_defs)
    obtain ok1 w1 s1 a1 where w: "flushWireBuffer ans (session_frame t (take c queue)) = (ok1, w1, s1, a1)" by (metis prod_cases4)
    from flushWireBuffer_sent[OF w] have w': "s1 @ w1 = session_frame t (take c queue)" "ok1 \<longleftrightarrow> w1 = []" by auto
    from less.prems(1) obtain ds where ds: "sent = concat (map (session_frame t) ds)" "concat ds @ queue = written"
        "list_all (\<lambda>d. length d \<le> kDaemonIpcMaxSessionDataSize) ds" by (auto simp: stream_inv_def)
    have frames: "sent @ s1 @ w1 = concat (map (session_frame t) (ds @ [take c queue]))" "concat (ds @ [take c queue]) @ drop c queue = written"
        "list_all (\<lambda>d. length d \<le> kDaemonIpcMaxSessionDataSize) (ds @ [take c queue])"
      using ds c(3) w'(1) by simp_all
    show ?thesis
    proof (cases ok1)
      case False
      with less.prems(2) w c_def \<open>queue \<noteq> []\<close> have "ok = False" "q = queue" "pw = w1" "cs = c" "sent' = s1"
        by (auto simp: flush_chunks.simps[of t queue])
      moreover have "stream_inv t (sent @ s1) written queue w1 c"
        unfolding stream_inv_def using frames c(2) False w'(2) by (intro exI[of _ "ds @ [take c queue]"]) simp
      ultimately show ?thesis by simp
    next
      case True
      obtain ok2 q2 pw2 cs2 s2 a2 where r: "flush_chunks t (drop c queue) [] 0 a1 = (ok2, q2, pw2, cs2, s2, a2)" by (metis prod_cases6)
      have "stream_inv t (sent @ s1) written (drop c queue) [] 0"
        unfolding stream_inv_def using frames True w'(2) by (intro exI[of _ "ds @ [take c queue]"]) simp
      from less.hyps[OF _ this r] c have "stream_inv t ((sent @ s1) @ s2) written q2 pw2 cs2 \<and> (ok2 \<longrightarrow> q2 = [] \<and> pw2 = [] \<and> cs2 = 0)" by simp
      moreover have "ok = ok2" "q = q2" "pw = pw2" "cs = cs2" "sent' = s1 @ s2"
        using less.prems(2) w c_def True \<open>queue \<noteq> []\<close> r by (auto simp: flush_chunks.simps[of t queue])
      ultimately show ?thesis by simp
    qed
  qed
qed

lemma flushQueue_inv:
  assumes "stream_inv t sent written queue pw cs" "flushQueue t queue pw cs ans = (ok, q, pw', cs', sent', ans')"
  shows "stream_inv t (sent @ sent') written q pw' cs' \<and> (ok \<longrightarrow> q = [] \<and> pw' = [] \<and> cs' = 0)"
proof -
  obtain ok1 w1 s1 a1 where w: "flushWireBuffer ans pw = (ok1, w1, s1, a1)" by (metis prod_cases4)
  from flushWireBuffer_sent[OF w] have w': "s1 @ w1 = pw" "ok1 \<longleftrightarrow> w1 = []" by auto
  show ?thesis
  proof (cases ok1)
    case False
    with assms(2) w have "ok = False" "q = queue" "pw' = w1" "cs' = cs" "sent' = s1" by (auto simp: flushQueue_def)
    with assms(1) w' False show ?thesis by (auto simp: stream_inv_def)
  next
    case True
    obtain ok2 q2 pw2 cs2 s2 a2 where r: "flush_chunks t (drop cs queue) [] 0 a1 = (ok2, q2, pw2, cs2, s2, a2)" by (metis prod_cases6)
    have "stream_inv t (sent @ s1) written (drop cs queue) [] 0" using assms(1) w' True by (auto simp: stream_inv_def)
    from flush_chunks_inv[OF this r] show ?thesis using assms(2) w w'(2) True r by (auto simp: flushQueue_def)
  qed
qed

text \<open>A session that writes output only; what it writes while the mutex is released is part of what it has written.\<close>

definition output_inv :: "channel \<Rightarrow> byte list \<Rightarrow> byte list \<Rightarrow> bool" where
  "output_inv ch sent written \<longleftrightarrow>
     stream_inv 15 sent written (outputQueue ch) (pendingOutputWire ch) (pendingOutputChunkSize ch) \<and>
     diagnosticQueue ch = [] \<and> pendingDiagnosticWire ch = []"

definition output_only :: "byte list list \<Rightarrow> other_writes" where
  "output_only os = map (\<lambda>d. (d, [])) os"

lemma stream_inv_more:
  "stream_inv t sent written queue pw cs \<Longrightarrow> stream_inv t sent (written @ d) (queue @ d) pw cs"
  by (auto simp: stream_inv_def)

lemma flush_output_inv:
  assumes "output_inv ch sent written" "flush_output (output_only os) ch ans = (ok, ch', sent', ws', ans')"
  shows "\<exists>os'. ws' = output_only (drop os' os) \<and> output_inv ch' (sent @ sent') (written @ concat (take os' os))"
proof (cases "outputQueue ch = [] \<and> pendingOutputWire ch = []")
  case True
  with assms show ?thesis by (intro exI[of _ 0]) (auto simp: flush_output_def output_inv_def stream_inv_def)
next
  case False
  obtain ok1 q pw cs s1 a1 where q: "flushQueue 15 (outputQueue ch) (pendingOutputWire ch) (pendingOutputChunkSize ch) ans = (ok1, q, pw, cs, s1, a1)"
    by (metis prod_cases6)
  from flushQueue_inv[OF _ q] assms(1)
  have inv: "stream_inv 15 (sent @ s1) written q pw cs" "ok1 \<longrightarrow> q = [] \<and> pw = [] \<and> cs = 0" by (auto simp: output_inv_def)
  have "output_inv ch' (sent @ sent') (written @ concat (take 1 os)) \<and> ws' = output_only (drop 1 os)"
    using assms False q stream_inv_more[OF inv(1)] inv
    by (cases os; cases ok1) (auto simp: flush_output_def output_inv_def output_only_def others_write_def writeOutputBytes_def)
  then show ?thesis by blast
qed

lemma flushPendingOutput_inv:
  assumes "output_inv ch sent written" "flushPendingOutput (output_only os) ch ans = (ch', sent', ws')"
  shows "\<exists>os'. ws' = output_only (drop os' os) \<and> output_inv ch' (sent @ sent') (written @ concat (take os' os))"
  using assms
proof (induction "output_only os" ch ans arbitrary: os sent written ch' sent' ws' rule: flushPendingOutput.induct)
  case (1 ch ans)
  show ?case
  proof (cases "hasPendingOutput ch")
    case False
    with "1.prems" show ?thesis by (intro exI[of _ 0]) (auto simp: flushPendingOutput.simps[of _ ch] output_inv_def)
  next
    case True
    obtain ok1 ch1 s1 ws1 a1 where f1: "flush_output (output_only os) ch ans = (ok1, ch1, s1, ws1, a1)" by (metis prod_cases5)
    from flush_output_inv[OF "1.prems"(1) this] obtain k where k: "ws1 = output_only (drop k os)" "output_inv ch1 (sent @ s1) (written @ concat (take k os))" by blast
    show ?thesis
    proof (cases ok1)
      case False
      with True f1 k "1.prems"(2) show ?thesis by (auto simp: flushPendingOutput.simps[of _ ch])
    next
      case ok1: True
      have f2: "flush_diagnostic ws1 ch1 a1 = (True, ch1\<lparr>pendingDiagnosticChunkSize := 0\<rparr>, [], ws1, a1)"
        using k(2) by (simp add: flush_diagnostic_def output_inv_def)
      obtain ch3 s3 ws3 where r: "flushPendingOutput ws1 (ch1\<lparr>pendingDiagnosticChunkSize := 0\<rparr>) a1 = (ch3, s3, ws3)" by (metis prod_cases3)
      have "output_inv (ch1\<lparr>pendingDiagnosticChunkSize := 0\<rparr>) (sent @ s1) (written @ concat (take k os))" using k(2) by (simp add: output_inv_def)
      with "1.hyps"[of ok1 "(ch1, s1, ws1, a1)" ch1 "(s1, ws1, a1)" s1 "(ws1, a1)" ws1 a1] True ok1 f1 f2 r k(1)
      obtain k' where k': "ws3 = output_only (drop k' (drop k os))"
          "output_inv ch3 ((sent @ s1) @ s3) ((written @ concat (take k os)) @ concat (take k' (drop k os)))"
        by fastforce
      then have "ws3 = output_only (drop (k + k') os)" "output_inv ch3 (sent @ s1 @ s3) (written @ concat (take (k + k') os))"
        by (simp add: add.commute, simp add: take_add)
      moreover have "ch' = ch3" "sent' = s1 @ s3" "ws' = ws3"
        using "1.prems"(2) True f1 ok1 f2 r by (simp_all add: flushPendingOutput.simps[of _ ch])
      ultimately show ?thesis by blast
    qed
  qed
qed

text \<open>What happens to such a channel, and what has come of it: the channel, what the socket has taken and what was written.\<close>

datatype channel_op = Write "byte list" | WriteChar byte | Flush "byte list list" write_answers

fun channel_step :: "channel \<times> byte list \<times> byte list \<Rightarrow> channel_op \<Rightarrow> channel \<times> byte list \<times> byte list" where
  "channel_step (ch, sent, written) (Write d) = (writeOutputBytes d False ch, sent, written @ d)" |
  "channel_step (ch, sent, written) (WriteChar c) = (writeOutputChar c False ch, sent, written @ [c])" |
  "channel_step (ch, sent, written) (Flush os ans) =
     (case flushPendingOutput (output_only os) ch ans of
        (ch', sent', ws') \<Rightarrow> (ch', sent @ sent', written @ concat (take (length os - length ws') os)))"

definition channel_inv :: "channel \<times> byte list \<times> byte list \<Rightarrow> bool" where
  "channel_inv = (\<lambda>(ch, sent, written). output_inv ch sent written)"

lemma channel_step_inv: "channel_inv s \<Longrightarrow> channel_inv (channel_step s x)"
proof (cases s; cases x)
  fix ch sent written os ans
  assume s: "channel_inv s" "s = (ch, sent, written)" "x = Flush os ans"
  obtain ch' sent' ws' where f: "flushPendingOutput (output_only os) ch ans = (ch', sent', ws')" by (metis prod_cases3)
  from flushPendingOutput_inv[OF _ f] s obtain k
    where "ws' = output_only (drop k os)" "output_inv ch' (sent @ sent') (written @ concat (take k os))" by (auto simp: channel_inv_def)
  then have "output_inv ch' (sent @ sent') (written @ concat (take (length os - length ws') os))"
    by (cases "k \<le> length os") (simp_all add: output_only_def)
  with s f show ?thesis by (simp add: channel_inv_def)
qed (auto simp: channel_inv_def output_inv_def writeOutputBytes_def writeOutputChar_def intro: stream_inv_more)

interpretation channel_machine: invariant_machine channel_step channel_inv
  by unfold_locales (rule channel_step_inv)

lemma new_channel_inv: "channel_inv (new_channel, [], [])"
  by (auto simp: channel_inv_def output_inv_def stream_inv_def new_channel_def intro: exI[of _ "[]"])

lemma session_frames_wire: "concat (map (session_frame t) ds) =
    wire (map (\<lambda>d. \<lparr>frame_version = kDaemonIpcProtocolVersion, frame_type = t, payload = encodeSessionDataPayload d\<rparr>) ds)"
  by (simp add: wire_def comp_def flip: session_frame_def)

section \<open>Reading input\<close>

text \<open>
  The session's thread in \<open>readInputChar\<close>, between two places where it holds the channel's mutex: before it looks at the queue, before it
  yields, waiting for input, waiting for the token, before it takes the byte; then it has read a byte or the end of the input, or the
  runner has thrown.
\<close>

datatype read_point = ReadStart | ReadYield SessionId | ReadWait SessionId | ReadAcquire SessionId | ReadTake | ReadDone "byte option" | ReadThrows run_error

text \<open>\<open>None\<close> while a wait has not ended; a thread that has returned makes no step.\<close>

fun readInputChar_step :: "channel \<times> runner \<times> read_point \<Rightarrow> (channel \<times> runner \<times> read_point) option" where
  "readInputChar_step (ch, r, ReadStart) =
     (case inputQueue ch of
        c # cs \<Rightarrow> Some (ch\<lparr>inputQueue := cs\<rparr>, r, ReadDone (Some c))
      | [] \<Rightarrow>
          if channel_closed ch then Some (ch, r, ReadDone None)
          else (case scheduling ch of None \<Rightarrow> None | Some i \<Rightarrow> Some (ch, r, ReadYield i)))" |
  "readInputChar_step (ch, r, ReadYield i) =
     (case yieldWaitingForInput r i of Inl e \<Rightarrow> Some (ch, r, ReadThrows e) | Inr r' \<Rightarrow> Some (ch, r', ReadWait i))" |
  "readInputChar_step (ch, r, ReadWait i) =
     (if inputQueue ch \<noteq> [] then Some (ch, r, ReadAcquire i)
      else if channel_closed ch then Some (ch, r, ReadDone None)
      else None)" |
  "readInputChar_step (ch, r, ReadAcquire i) =
     (case acquireAfterInputWake r i of
        None \<Rightarrow> None
      | Some (Inl e) \<Rightarrow> Some (ch, r, ReadThrows e)
      | Some (Inr r') \<Rightarrow> Some (ch, r', ReadTake))" |
  "readInputChar_step (ch, r, ReadTake) =
     (case inputQueue ch of c # cs \<Rightarrow> Some (ch\<lparr>inputQueue := cs\<rparr>, r, ReadDone (Some c)) | [] \<Rightarrow> None)" |
  "readInputChar_step (ch, r, ReadDone c) = None" |
  "readInputChar_step (ch, r, ReadThrows e) = None"

lemma yielded_state:
  assumes "stateLocked r i = WaitingForInput" "active_session r \<noteq> Some i" "x \<notin> {ResumeOp i, Retire i, ExclusiveEnd i}"
  shows "stateLocked (run_step r x) i = WaitingForInput \<and> active_session (run_step r x) \<noteq> Some i"
  using assms
  by (cases x)
     (auto simp: runner_defs canAcquireLocked_def canAcquireAfterInputWakeLocked_def split: option.splits sum.splits if_splits)

lemma yielded_run:
  assumes "stateLocked r i = WaitingForInput" "active_session r \<noteq> Some i" "\<forall>x \<in> set xs. x \<notin> {ResumeOp i, Retire i, ExclusiveEnd i}"
  shows "acquireAfterInputWake (foldl run_step r xs) i = None"
  using assms
proof (induction xs arbitrary: r)
  case (Cons x xs)
  have "x \<notin> {ResumeOp i, Retire i, ExclusiveEnd i}" using Cons.prems(3) by simp
  then show ?case using Cons.IH[of "run_step r x"] yielded_state[OF Cons.prems(1,2), of x] Cons.prems(3) by simp
qed (simp add: acquireAfterInputWake_def canAcquireAfterInputWakeLocked_def)

lemma awake_run:
  assumes "stateLocked r i \<noteq> WaitingForInput" "YieldOp i \<notin> set xs"
  shows "stateLocked (foldl run_step r xs) i \<noteq> WaitingForInput"
  using assms
proof (induction xs arbitrary: r)
  case (Cons x xs)
  have "stateLocked (run_step r x) i \<noteq> WaitingForInput"
    using Cons.prems
    by (cases x)
       (auto simp: runner_defs canAcquireLocked_def canAcquireAfterInputWakeLocked_def split: option.splits sum.splits if_splits)
  then show ?case using Cons.IH[of "run_step r x"] Cons.prems(2) by simp
qed simp

section \<open>What the channel promises\<close>



text \<open>
  Input wakes a waiting session.  When a session has yielded the token and waits for input, input that arrives makes it eligible
  again: whatever the other sessions do, as soon as the token is free the session's thread gets through, holds the token and returns
  the first byte.
\<close>

theorem input_wakes_reader:
  assumes "scheduling ch = Some i" "inputQueue ch = []" "\<not> channel_closed ch" "d \<noteq> []"
    and "pushInput d (ch, r) = (ch', r')" "YieldOp i \<notin> set ops" "active_session (foldl run_step r' ops) = None"
  shows "\<exists>r''. readInputChar_step (ch', foldl run_step r' ops, ReadWait i) = Some (ch', foldl run_step r' ops, ReadAcquire i) \<and>
    readInputChar_step (ch', foldl run_step r' ops, ReadAcquire i) = Some (ch', r'', ReadTake) \<and>
    readInputChar_step (ch', r'', ReadTake) = Some (ch'\<lparr>inputQueue := tl d\<rparr>, r'', ReadDone (Some (hd d))) \<and> active_session r'' = Some i"
proof -
  have ch': "inputQueue ch' = d" "r' = resume_session r i" using assms(1-5) by (auto simp: pushInput_def)
  then have "stateLocked r' i \<noteq> WaitingForInput" by (simp add: resume_session_def stateLocked_def)
  from awake_run[OF this assms(6)] obtain r'' where "acquireAfterInputWake (foldl run_step r' ops) i = Some (Inr r'')" "active_session r'' = Some i"
    using assms(7) by (simp add: acquireAfterInputWake_def canAcquireAfterInputWakeLocked_def grantAcquireLocked_def)
  with ch'(1) assms(4) show ?thesis by (cases d) auto
qed

theorem input_wakes_reader_witness:
  "\<exists>r''. readInputChar_step (new_channel\<lparr>scheduling := Some 1, inputQueue := [65]\<rparr>,
      foldl run_step (resume_session (foldl run_step initial_runner [Acquire 1, YieldOp 1]) 1) [Acquire 2, ReleaseOp 2], ReadAcquire 1) =
    Some (new_channel\<lparr>scheduling := Some 1, inputQueue := [65]\<rparr>, r'', ReadTake) \<and> active_session r'' = Some 1"
proof -
  have "active_session (foldl run_step (resume_session (foldl run_step initial_runner [Acquire 1, YieldOp 1]) 1) [Acquire 2, ReleaseOp 2]) = None"
    by code_simp
  moreover have "pushInput [65] (new_channel\<lparr>scheduling := Some 1\<rparr>, foldl run_step initial_runner [Acquire 1, YieldOp 1]) =
      (new_channel\<lparr>scheduling := Some 1, inputQueue := [65]\<rparr>, resume_session (foldl run_step initial_runner [Acquire 1, YieldOp 1]) 1)"
    by (simp add: pushInput_def new_channel_def)
  ultimately show ?thesis
    using input_wakes_reader[of "new_channel\<lparr>scheduling := Some 1\<rparr>" 1 "[65]" "foldl run_step initial_runner [Acquire 1, YieldOp 1]"
        "new_channel\<lparr>scheduling := Some 1, inputQueue := [65]\<rparr>"
        "resume_session (foldl run_step initial_runner [Acquire 1, YieldOp 1]) 1" "[Acquire 2, ReleaseOp 2]"]
    by (auto simp: new_channel_def simp del: run_step.simps)
qed

text \<open>
  Input that arrives after the session has found the queue empty and before it yields does not wake it: the thread finds the input, and
  waits for the token until more input comes, or its session ends, though the token may be free.
\<close>

lemma early_input_does_not_wake:
  assumes "scheduling ch = Some i" "inputQueue ch = []" "\<not> channel_closed ch" "d \<noteq> []" "active_session r = Some i" "0 < run_depth r"
    and "pushInput d (ch, r) = (ch', r')" "\<forall>x \<in> set ops. x \<notin> {ResumeOp i, Retire i, ExclusiveEnd i}"
  shows "readInputChar_step (ch, r, ReadStart) = Some (ch, r, ReadYield i)"
    and "\<exists>r''. readInputChar_step (ch', r', ReadYield i) = Some (ch', r'', ReadWait i) \<and>
      readInputChar_step (ch', r'', ReadWait i) = Some (ch', r'', ReadAcquire i) \<and>
      readInputChar_step (ch', foldl run_step r'' ops, ReadAcquire i) = None"
proof -
  show "readInputChar_step (ch, r, ReadStart) = Some (ch, r, ReadYield i)" using assms by simp
  have ch': "inputQueue ch' = d" "r' = resume_session r i" using assms(1-4,7) by (auto simp: pushInput_def)
  obtain r'' where y: "yieldWaitingForInput r' i = Inr r''" using assms(5,6) ch' by (simp add: yieldWaitingForInput_def resume_session_def)
  then have "stateLocked r'' i = WaitingForInput" "active_session r'' \<noteq> Some i"
    by (auto simp: yieldWaitingForInput_def stateLocked_def split: if_splits)
  from yielded_run[OF this assms(8)] y ch' assms(4)
  show "\<exists>r''. readInputChar_step (ch', r', ReadYield i) = Some (ch', r'', ReadWait i) \<and>
      readInputChar_step (ch', r'', ReadWait i) = Some (ch', r'', ReadAcquire i) \<and>
      readInputChar_step (ch', foldl run_step r'' ops, ReadAcquire i) = None"
    by auto
qed

text \<open>
  A diagnostic frame that the socket has taken in part is not finished first: output written meanwhile is sent into the middle of it,
  and the client's reader reports a protocol error.
\<close>

lemmas frame_eval =
  session_frame_def encodeDaemonIpcFrame_def encodeSessionDataPayload_def kDaemonIpcMagic_def kDaemonIpcProtocolVersion_def writeU16_def writeU32_def
  size_defs

lemma half_sent_diagnostic:
  "flushPendingOutput [] (writeOutputBytes [65] True new_channel) [Some 5] =
     (new_channel\<lparr>diagnosticQueue := [65], pendingDiagnosticWire := [1, 0, 16, 0, 0, 0, 5, 0, 0, 0, 1, 65], pendingDiagnosticChunkSize := 1,
        hasPendingOutput_flag := True\<rparr>, [71, 69, 77, 73, 0], [])"
  by (subst flushPendingOutput.simps)
     (simp add: flush_defs flushQueue_def flush_chunks.simps[of 16] new_channel_def hasPendingOutput_def frame_eval)

lemma output_into_diagnostic:
  "flushPendingOutput [] (writeOutputBytes [66] False (new_channel\<lparr>diagnosticQueue := [65],
       pendingDiagnosticWire := [1, 0, 16, 0, 0, 0, 5, 0, 0, 0, 1, 65], pendingDiagnosticChunkSize := 1, hasPendingOutput_flag := True\<rparr>))
       [Some 90, Some 90] =
     (new_channel, [71, 69, 77, 73, 0, 1, 0, 15, 0, 0, 0, 5, 0, 0, 0, 1, 66, 1, 0, 16, 0, 0, 0, 5, 0, 0, 0, 1, 65], [])"
  by (subst flushPendingOutput.simps, subst flushPendingOutput.simps)
     (simp add: flush_defs flushQueue_def flush_chunks.simps[of _ "[]"] flush_chunks.simps[of _ "[66]"] new_channel_def hasPendingOutput_def frame_eval)

lemma new_channel_idle: "\<not> hasPendingOutput new_channel"
  by (simp add: hasPendingOutput_def new_channel_def)

lemma output_splits_diagnostic:
  "case flushPendingOutput [] (writeOutputBytes [65] True new_channel) [Some 5] of (ch1, sent1, _) \<Rightarrow>
     (case flushPendingOutput [] (writeOutputBytes [66] False ch1) [Some 90, Some 90] of (ch2, sent2, _) \<Rightarrow>
        \<not> hasPendingOutput ch2 \<and> fst (tryReadDaemonIpcFrame [] [Got (sent1 @ sent2), WouldBlock]) = ProtocolError)"
  using fill_chunks[of "[[71, 69, 77, 73, 0, 71, 69, 77, 73, 0, 1, 0, 15, 0, 0, 0, 5, 0, 0, 0, 1, 66, 1, 0, 16, 0, 0, 0, 5, 0, 0, 0, 1, 65]]" "[]" "[]"]
  by (simp add: half_sent_diagnostic output_into_diagnostic[unfolded One_nat_def] new_channel_idle tryReadDaemonIpcFrame_def completeFrameLength_def
      magicMatchesBuffer_def kDaemonIpcMagic_def readU32_def size_defs)

end
