(* ===== verification/Daemon.thy ===== *)
theory Daemon
  imports Session Session_Channel
begin

text \<open>
  The service daemon: the ports (\<open>PortManager.cpp\<close>), the table of sessions (\<open>SessionTable.cpp\<close>, \<open>GeminiSessionHost.cpp\<close>), the
  server that dispatches the frames of its connections (\<open>DaemonIpcServer.cpp\<close>) and the handlers that bind connections to sessions
  (\<open>GeminiDaemonRunner.cpp\<close>).  The sessions share one lock table, which is the daemon's; a session's own world carries it while the
  session acts.  The threads that run the sessions' shells are known by the ports they serve.
\<close>

section \<open>Ports\<close>

record PortManager =
  maxPorts :: nat
  inUse :: "SessionId list"
  nextCandidate :: SessionId

definition new_PortManager :: "nat \<Rightarrow> PortManager" where
  "new_PortManager n = \<lparr>maxPorts = (if n < 1 then 1 else n), inUse = [], nextCandidate = 1\<rparr>"

text \<open>The search for a free port; one more candidate than there are ports in use is enough.\<close>

fun free_port :: "nat \<Rightarrow> SessionId list \<Rightarrow> SessionId \<Rightarrow> SessionId" where
  "free_port 0 used candidate = candidate" |
  "free_port (Suc n) used candidate = (if candidate \<in> set used then free_port n used (candidate + 1) else candidate)"

definition allocate :: "PortManager \<Rightarrow> (SessionId \<times> PortManager) option" where
  "allocate pm =
     (if maxPorts pm \<le> length (inUse pm) then None
      else let candidate = free_port (length (inUse pm)) (inUse pm) (nextCandidate pm) in
        Some (candidate, pm\<lparr>inUse := List.insert candidate (inUse pm), nextCandidate := candidate + 1\<rparr>))"

definition release_port :: "PortManager \<Rightarrow> SessionId \<Rightarrow> PortManager" where
  "release_port pm port =
     pm\<lparr>inUse := filter (\<lambda>p. p \<noteq> port) (inUse pm), nextCandidate := (if port < nextCandidate pm then port else nextCandidate pm)\<rparr>"

text \<open>The ports below the next candidate are all in use; there is no port 0.\<close>

definition ports_ok :: "PortManager \<Rightarrow> bool" where
  "ports_ok pm \<longleftrightarrow>
     distinct (inUse pm) \<and> 0 \<notin> set (inUse pm) \<and> 1 \<le> nextCandidate pm \<and>
     (\<forall>p. 1 \<le> p \<and> p < nextCandidate pm \<longrightarrow> p \<in> set (inUse pm)) \<and>
     (\<forall>p \<in> set (inUse pm). unat p \<le> maxPorts pm) \<and> maxPorts pm < 2 ^ 32 - 1"

lemma free_port_scan:
  assumes "free_port n used c = p"
  shows "\<exists>k \<le> n. p = c + of_nat k \<and> (\<forall>j < k. c + of_nat j \<in> set used) \<and> (k < n \<longrightarrow> p \<notin> set used)"
  using assms
proof (induction n arbitrary: c)
  case (Suc n)
  show ?case
  proof (cases "c \<in> set used")
    case True
    with Suc.prems have "free_port n used (c + 1) = p" by simp
    from Suc.IH[OF this] obtain k where k: "k \<le> n" "p = c + 1 + of_nat k" "\<forall>j < k. c + 1 + of_nat j \<in> set used" "k < n \<longrightarrow> p \<notin> set used"
      by blast
    have "c + of_nat j \<in> set used" if "j < Suc k" for j
      using that True k(3) by (cases j) (auto simp: add.assoc)
    with k show ?thesis by (intro exI[of _ "Suc k"]) (simp add: add.assoc)
  next
    case False
    with Suc.prems show ?thesis by (intro exI[of _ 0]) simp
  qed
qed simp

lemma low_ports_card:
  assumes "distinct xs" "\<forall>p :: SessionId. 1 \<le> p \<and> unat p \<le> n \<longrightarrow> p \<in> set xs" "n < 2 ^ 32"
  shows "n \<le> length xs"
proof -
  have "inj_on (of_nat :: nat \<Rightarrow> SessionId) {1..n}"
    using assms(3) by (auto intro!: inj_onI simp: word_unat_eq_iff unat_of_nat take_bit_nat_eq_self)
  then have "card ((of_nat :: nat \<Rightarrow> SessionId) ` {1..n}) = n" by (simp add: card_image)
  moreover have "(of_nat :: nat \<Rightarrow> SessionId) ` {1..n} \<subseteq> set xs"
  proof (rule image_subsetI)
    fix i assume i: "i \<in> {1..n}"
    then have "unat (of_nat i :: SessionId) = i" using assms(3) by (simp add: unat_of_nat take_bit_nat_eq_self)
    with i assms(2) show "of_nat i \<in> set xs" by (simp add: word_le_nat_alt)
  qed
  ultimately show ?thesis using card_mono[of "set xs" "(of_nat :: nat \<Rightarrow> SessionId) ` {1..n}"] distinct_card[OF assms(1)] by simp
qed

lemma allocate_smallest:
  assumes "ports_ok pm" "allocate pm = Some (p, pm')"
  shows "p \<notin> set (inUse pm)" "1 \<le> p" "unat p \<le> maxPorts pm" "\<forall>q. 1 \<le> q \<and> q < p \<longrightarrow> q \<in> set (inUse pm)"
    "pm' = pm\<lparr>inUse := p # inUse pm, nextCandidate := p + 1\<rparr>"
proof -
  define c where "c = nextCandidate pm"
  define n where "n = length (inUse pm)"
  have ok: "distinct (inUse pm)" "1 \<le> c" "\<forall>q. 1 \<le> q \<and> q < c \<longrightarrow> q \<in> set (inUse pm)" "maxPorts pm < 2 ^ 32 - 1"
    using assms(1) by (simp_all add: ports_ok_def c_def)
  have n: "n < maxPorts pm" and p: "free_port n (inUse pm) c = p"
    and pm': "pm' = pm\<lparr>inUse := List.insert p (inUse pm), nextCandidate := p + 1\<rparr>"
    using assms(2) by (auto simp: allocate_def n_def c_def Let_def split: if_splits)
  from free_port_scan[OF p] obtain k
    where k: "k \<le> n" "p = c + of_nat k" "\<forall>j < k. c + of_nat j \<in> set (inUse pm)" "k < n \<longrightarrow> p \<notin> set (inUse pm)" by blast
  have scanned: "q \<in> set (inUse pm)" if "1 \<le> q" "unat q < unat c + k" for q
  proof (cases "q < c")
    case False
    then have "q = c + of_nat (unat q - unat c)" by (simp add: word_le_nat_alt not_less of_nat_diff)
    moreover have "unat q - unat c < k" using that(2) False by (simp add: word_le_nat_alt not_less)
    ultimately show ?thesis using k(3) by metis
  qed (use ok(3) that in simp)
  have c1: "1 \<le> unat c" using ok(2) by (simp add: word_le_nat_alt)
  have "min (unat c + k - 1) (2 ^ 32 - 1) \<le> n"
    unfolding n_def by (rule low_ports_card[OF ok(1)]) (use scanned c1 in auto)
  then have m: "unat c + k \<le> n + 1" using n ok(4) by linarith
  then have unat_p: "unat p = unat c + k" using n ok(4) k(2) by (simp add: unat_word_ariths unat_of_nat take_bit_nat_eq_self)
  show "1 \<le> p" "unat p \<le> maxPorts pm" using c1 m n unat_p by (simp_all add: word_le_nat_alt)
  show low: "\<forall>q. 1 \<le> q \<and> q < p \<longrightarrow> q \<in> set (inUse pm)" using scanned unat_p by (simp add: word_less_nat_alt)
  show fresh: "p \<notin> set (inUse pm)"
  proof
    assume used: "p \<in> set (inUse pm)"
    with k(1,4) have "k = n" by linarith
    have "unat p \<le> n"
      unfolding n_def
    proof (rule low_ports_card[OF ok(1)])
      show "\<forall>q. 1 \<le> q \<and> unat q \<le> unat p \<longrightarrow> q \<in> set (inUse pm)"
        using low used by (metis word_le_nat_alt order_le_less)
    qed (rule word_bound)
    with unat_p \<open>k = n\<close> c1 show False by simp
  qed
  show "pm' = pm\<lparr>inUse := p # inUse pm, nextCandidate := p + 1\<rparr>" using pm' fresh by (simp add: List.insert_def)
qed

lemma allocate_ok:
  assumes "ports_ok pm" "allocate pm = Some (p, pm')"
  shows "ports_ok pm'"
proof -
  note a = allocate_smallest[OF assms]
  have "unat p < 2 ^ 32 - 1" using a(3) assms(1) by (simp add: ports_ok_def)
  then have p1: "unat (p + 1) = unat p + 1" by (simp add: unat_word_ariths)
  have "q = p" if "q < p + 1" "\<not> q < p" for q
    using that p1 by (simp add: word_less_nat_alt word_unat_eq_iff)
  then show ?thesis
    using assms(1) a p1 by (auto simp: ports_ok_def word_le_nat_alt)
qed

lemma release_ok: "ports_ok pm \<Longrightarrow> 1 \<le> p \<Longrightarrow> ports_ok (release_port pm p)"
  by (auto simp: ports_ok_def release_port_def)

section \<open>The table of sessions\<close>

record daemon =
  portManager :: PortManager
  table_maxSessions :: nat
  sessions :: "(SessionId \<times> GeminiSession) list"
  shared_locks :: LockTable
  token_runner :: runner
  boundSessionPorts :: "SessionId list"
  boundChannels :: "SessionId list"
  sessionWorkers :: "SessionId list"
  pendingDestroyPorts :: "SessionId list"
  shutdown_flag :: bool

definition new_daemon :: "nat \<Rightarrow> daemon" where
  "new_daemon n = \<lparr>portManager = new_PortManager n, table_maxSessions = (if n < 1 then 1 else n), sessions = [], shared_locks = [],
     token_runner = initial_runner, boundSessionPorts = [], boundChannels = [], sessionWorkers = [], pendingDestroyPorts = [],
     shutdown_flag = False\<rparr>"

text \<open>\<open>GeminiSession::create\<close>: a session as its members are initialised, over a fresh runtime and file system.\<close>

definition created_session :: "Runtime \<Rightarrow> FileSystem \<Rightarrow> GeminiSession" where
  "created_session rt fs =
     \<lparr>gs_runtime = rt, gs_env = [], gs_fileSystem = clearLockContext fs, gs_voc = \<lparr>voc_table = [], voc_loaded = False\<rparr>,
      geminiCatalogRoot = None, loggedIn = False, whoPort = 0, daemonPortAssigned = False, sessionUsername = [], sessionAccount = [],
      userNo = ''0'', md_defaultDataFile = None, activeList = [], activeListSourceFile = None, lastLoaded = None, reportPageLength = 24,
      traceOn = False, breakpoints = [], suspended = False, resumePastBreakpointIp = None, hasSharedLockTable = False, sessionLockId = []\<rparr>"

definition table_createSession :: "Runtime \<Rightarrow> FileSystem \<Rightarrow> daemon \<Rightarrow> (SessionId \<times> daemon) option" where
  "table_createSession rt fs d =
     (if table_maxSessions d \<le> length (sessions d) then None
      else case allocate (portManager d) of
          None \<Rightarrow> None
        | Some (port, pm) \<Rightarrow>
            let session = setDaemonPort (sint port) (setSharedLockTable True (created_session rt fs));
                d1 = d\<lparr>portManager := pm\<rparr>
            in Some (port, if map_of (sessions d) port = None then d1\<lparr>sessions := sessions d @ [(port, session)]\<rparr> else d1))"

text \<open>A session destroys itself under the daemon's lock table.\<close>

definition table_destroySession :: "SessionId \<Rightarrow> daemon \<Rightarrow> daemon" where
  "table_destroySession i d =
     (case map_of (sessions d) i of
        None \<Rightarrow> d
      | Some s \<Rightarrow>
          let s' = destroySession (set_world ((gs_world s)\<lparr>lock_table := shared_locks d\<rparr>) s)
          in d\<lparr>shared_locks := lock_table (gs_world s'), sessions := map_erase i (sessions d), portManager := release_port (portManager d) i\<rparr>)"

definition sessionIds :: "daemon \<Rightarrow> SessionId list" where
  "sessionIds d = sort (map fst (sessions d))"

definition destroyAllSessions :: "daemon \<Rightarrow> daemon" where
  "destroyAllSessions d = fold table_destroySession (sessionIds d) d"

section \<open>Binding sessions to connections\<close>

datatype AttachSessionStatus = AttachOk | AttachTableFull | AttachNotFound | AttachAlreadyBound

definition retire :: "SessionId \<Rightarrow> daemon \<Rightarrow> daemon" where
  "retire port d = d\<lparr>token_runner := retireSession (token_runner d) port\<rparr>"

text \<open>The thread of a session ends: its guard retires the session.\<close>

definition worker_ends :: "SessionId \<Rightarrow> daemon \<Rightarrow> daemon" where
  "worker_ends port d = retire port d"

text \<open>Joining waits until the thread has ended and forgets it.\<close>

definition joinSessionWorker :: "SessionId \<Rightarrow> daemon \<Rightarrow> daemon" where
  "joinSessionWorker port d =
     (if port \<in> set (sessionWorkers d) then (worker_ends port d)\<lparr>sessionWorkers := filter (\<lambda>p. p \<noteq> port) (sessionWorkers d)\<rparr> else d)"

definition startSessionWorker :: "SessionId \<Rightarrow> daemon \<Rightarrow> daemon" where
  "startSessionWorker port d =
     (case map_of (sessions d) port of
        None \<Rightarrow> d
      | Some _ \<Rightarrow> let d1 = joinSessionWorker port d in d1\<lparr>sessionWorkers := List.insert port (sessionWorkers d1)\<rparr>)"

definition bind_session :: "SessionId \<Rightarrow> channel \<Rightarrow> daemon \<Rightarrow> AttachSessionStatus \<times> SessionId \<times> channel \<times> daemon" where
  "bind_session port ch d =
     (if port \<in> set (boundSessionPorts d) then (AttachAlreadyBound, 0, ch, d)
      else case map_of (sessions d) port of
          None \<Rightarrow> (AttachNotFound, 0, ch, d)
        | Some _ \<Rightarrow>
            (AttachOk, port, setSessionScheduling port ch,
             startSessionWorker port (d\<lparr>boundSessionPorts := List.insert port (boundSessionPorts d), boundChannels := List.insert port (boundChannels d)\<rparr>)))"

definition attachSession :: "Runtime \<Rightarrow> FileSystem \<Rightarrow> SessionId \<Rightarrow> channel \<Rightarrow> daemon \<Rightarrow> AttachSessionStatus \<times> SessionId \<times> channel \<times> daemon" where
  "attachSession rt fs requestedPort ch d =
     (if requestedPort = 0
      then case table_createSession rt fs d of
          None \<Rightarrow> (AttachTableFull, 0, ch, d)
        | Some (port, d') \<Rightarrow> bind_session port ch d'
      else if map_of (sessions d) requestedPort = None then (AttachNotFound, 0, ch, d)
      else bind_session requestedPort ch d)"

text \<open>The channel the daemon remembers for a port is the one its connection has just closed.\<close>

definition detachSession :: "SessionId \<Rightarrow> daemon \<Rightarrow> daemon" where
  "detachSession port d =
     (let d1 = d\<lparr>boundChannels := filter (\<lambda>p. p \<noteq> port) (boundChannels d)\<rparr>;
          d2 = retire port (joinSessionWorker port d1)
      in d2\<lparr>boundSessionPorts := filter (\<lambda>p. p \<noteq> port) (boundSessionPorts d2)\<rparr>)"

definition unbindConsoleWithoutJoin :: "SessionId \<Rightarrow> daemon \<Rightarrow> daemon" where
  "unbindConsoleWithoutJoin port d =
     d\<lparr>boundChannels := filter (\<lambda>p. p \<noteq> port) (boundChannels d), boundSessionPorts := filter (\<lambda>p. p \<noteq> port) (boundSessionPorts d)\<rparr>"

definition killSession :: "SessionId \<Rightarrow> daemon \<Rightarrow> bool \<times> daemon" where
  "killSession port d =
     (if map_of (sessions d) port = None then (False, d)
      else let hadWorker = port \<in> set (boundSessionPorts d) \<or> port \<in> set (sessionWorkers d) in
        if port \<in> set (boundSessionPorts d)
        then let d1 = retire port (unbindConsoleWithoutJoin port d) in (True, d1\<lparr>pendingDestroyPorts := pendingDestroyPorts d1 @ [port]\<rparr>)
        else let d1 = retire port d in
          if hadWorker then (True, d1\<lparr>pendingDestroyPorts := pendingDestroyPorts d1 @ [port]\<rparr>)
          else (True, table_destroySession port (retire port d1)))"

fun drain_ports :: "SessionId list \<Rightarrow> daemon \<Rightarrow> SessionId list \<times> daemon" where
  "drain_ports [] d = ([], d)" |
  "drain_ports (port # ports) d =
     (if active_session (token_runner d) \<notin> {None, Some port}
      then (case drain_ports ports d of (deferred, d') \<Rightarrow> (port # deferred, d'))
      else drain_ports ports (table_destroySession port (retire port (joinSessionWorker port d))))"

definition drainPendingSessionDestroys :: "daemon \<Rightarrow> daemon" where
  "drainPendingSessionDestroys d =
     (case drain_ports (pendingDestroyPorts d) (d\<lparr>pendingDestroyPorts := []\<rparr>) of
        (deferred, d') \<Rightarrow> d'\<lparr>pendingDestroyPorts := pendingDestroyPorts d' @ deferred\<rparr>)"

section \<open>The server\<close>

record Connection =
  conn_fd :: int
  handshaken :: bool
  readBuffer :: "byte list"
  attachedPort :: "SessionId option"
  conn_channel :: "channel option"

record DaemonIpcServerConfig =
  cfg_maxSessions :: nat
  cfg_buildVersion :: "byte list"

record DispatchOutcome =
  closeConnection :: bool
  shutdownRequested :: bool

definition stays_open :: DispatchOutcome where
  "stays_open = \<lparr>closeConnection = False, shutdownRequested = False\<rparr>"

definition closes :: DispatchOutcome where
  "closes = \<lparr>closeConnection = True, shutdownRequested = False\<rparr>"

definition message_frame :: "16 word \<Rightarrow> byte list \<Rightarrow> DaemonIpcFrame" where
  "message_frame t p = \<lparr>frame_version = kDaemonIpcProtocolVersion, frame_type = t, payload = p\<rparr>"

definition text_bytes :: "string \<Rightarrow> byte list" where
  "text_bytes t = map (\<lambda>c. of_nat (of_char c)) t"

definition error_frame :: "32 word \<Rightarrow> string \<Rightarrow> DaemonIpcFrame" where
  "error_frame ecode message = message_frame 9 (encodeErrorPayload \<lparr>error_code = ecode, error_message = text_bytes message\<rparr>)"

fun attachStatusToErrorCode :: "AttachSessionStatus \<Rightarrow> 32 word" where
  "attachStatusToErrorCode AttachNotFound = 5" |
  "attachStatusToErrorCode AttachAlreadyBound = 6" |
  "attachStatusToErrorCode AttachTableFull = 3" |
  "attachStatusToErrorCode AttachOk = 2"

fun attachStatusMessage :: "AttachSessionStatus \<Rightarrow> string" where
  "attachStatusMessage AttachNotFound = ''session not found''" |
  "attachStatusMessage AttachAlreadyBound = ''session already bound''" |
  "attachStatusMessage AttachTableFull = ''session table full''" |
  "attachStatusMessage AttachOk = ''attach failed''"

definition detachConnection :: "Connection \<times> daemon \<Rightarrow> Connection \<times> daemon" where
  "detachConnection = (\<lambda>(c, d).
     case attachedPort c of
       None \<Rightarrow> (c, d)
     | Some port \<Rightarrow> (c\<lparr>attachedPort := None, conn_channel := None\<rparr>, detachSession port d))"

text \<open>
  One frame of a connection, all handlers installed.  \<open>written\<close> says whether the socket takes the answer; what is sent is the list of
  frames handed to \<open>writeDaemonIpcFrame\<close>.
\<close>

type_synonym dispatch_result = "Connection \<times> daemon \<times> DaemonIpcFrame list \<times> DispatchOutcome"

definition refuse :: "32 word \<Rightarrow> string \<Rightarrow> DispatchOutcome \<Rightarrow> Connection \<times> daemon \<Rightarrow> dispatch_result" where
  "refuse ecode message outcome = (\<lambda>(c, d). (c, d, [error_frame ecode message], outcome))"

definition answer :: "bool \<Rightarrow> DaemonIpcFrame \<Rightarrow> Connection \<times> daemon \<Rightarrow> dispatch_result" where
  "answer written f = (\<lambda>(c, d). (c, d, [f], if written then stays_open else closes))"

definition dispatch_handshake :: "DaemonIpcServerConfig \<Rightarrow> bool \<Rightarrow> DaemonIpcFrame \<Rightarrow> Connection \<times> daemon \<Rightarrow> dispatch_result" where
  "dispatch_handshake cfg written f = (\<lambda>(c, d).
     if frame_type f \<noteq> 1 then refuse 4 ''handshake required'' closes (c, d)
     else if decodeHandshakePayload (payload f) \<noteq> Some kDaemonIpcProtocolVersion
     then refuse 1 ''unsupported client protocol version'' closes (c, d)
     else let ack = message_frame 2 (encodeHandshakeAckPayload
              \<lparr>serverProtocolVersion = kDaemonIpcProtocolVersion, maxSessions = of_nat (cfg_maxSessions cfg), buildVersion = cfg_buildVersion cfg\<rparr>)
       in answer written ack (if written then c\<lparr>handshaken := True\<rparr> else c, d))"

definition dispatch_reserve :: "Runtime \<Rightarrow> FileSystem \<Rightarrow> bool \<Rightarrow> Connection \<times> daemon \<Rightarrow> dispatch_result" where
  "dispatch_reserve rt fs written = (\<lambda>(c, d).
     case table_createSession rt fs d of
       None \<Rightarrow> refuse 3 ''session table full'' closes (c, d)
     | Some (port, d') \<Rightarrow> answer written (message_frame 8 (encodeReserveSessionAckPayload port)) (c, d'))"

definition dispatch_attach :: "Runtime \<Rightarrow> FileSystem \<Rightarrow> bool \<Rightarrow> DaemonIpcFrame \<Rightarrow> Connection \<times> daemon \<Rightarrow> dispatch_result" where
  "dispatch_attach rt fs written f = (\<lambda>(c, d).
     if attachedPort c \<noteq> None then refuse 2 ''already attached'' stays_open (c, d)
     else case decodeAttachSessionPayload (payload f) of
         None \<Rightarrow> refuse 2 ''invalid attach payload'' stays_open (c, d)
       | Some requestedPort \<Rightarrow>
           (case attachSession rt fs requestedPort new_channel d of
              (AttachOk, port, ch, d') \<Rightarrow>
                let cd = (c\<lparr>attachedPort := Some port, conn_channel := Some ch\<rparr>, d')
                in answer written (message_frame 11 (encodeAttachSessionAckPayload port)) (if written then cd else detachConnection cd)
            | (status, _, _, d') \<Rightarrow> refuse (attachStatusToErrorCode status) (attachStatusMessage status) stays_open (c, d')))"

definition dispatch_input :: "DaemonIpcFrame \<Rightarrow> Connection \<times> daemon \<Rightarrow> dispatch_result" where
  "dispatch_input f = (\<lambda>(c, d).
     case (attachedPort c, conn_channel c) of
       (Some _, Some ch) \<Rightarrow>
         (case decodeSessionDataPayload (payload f) of
            None \<Rightarrow> refuse 2 ''invalid session input'' stays_open (c, d)
          | Some bytes \<Rightarrow>
              (case pushInput bytes (ch, token_runner d) of
                 (ch', r') \<Rightarrow> (c\<lparr>conn_channel := Some ch'\<rparr>, d\<lparr>token_runner := r'\<rparr>, [], stays_open)))
     | _ \<Rightarrow> refuse 7 ''session not attached'' stays_open (c, d))"

definition dispatchFrame :: "Runtime \<Rightarrow> FileSystem \<Rightarrow> DaemonIpcServerConfig \<Rightarrow> bool \<Rightarrow> DaemonIpcFrame \<Rightarrow> Connection \<times> daemon \<Rightarrow> dispatch_result" where
  "dispatchFrame rt fs cfg written f = (\<lambda>(c, d).
     if frame_version f \<noteq> kDaemonIpcProtocolVersion then refuse 1 ''unsupported protocol version'' closes (c, d)
     else if \<not> handshaken c then dispatch_handshake cfg written f (c, d)
     else if frame_type f = 3 then answer written (message_frame 4 []) (c, d)
     else if frame_type f = 5
     then (if written then (c, d\<lparr>shutdown_flag := True\<rparr>, [message_frame 6 []], \<lparr>closeConnection = True, shutdownRequested = True\<rparr>)
           else answer False (message_frame 6 []) (c, d))
     else if frame_type f = 7 then dispatch_reserve rt fs written (c, d)
     else if frame_type f = 10 then dispatch_attach rt fs written f (c, d)
     else if frame_type f = 12
     then (if attachedPort c = None then refuse 7 ''session not attached'' stays_open (c, d)
           else answer written (message_frame 13 []) (detachConnection (c, d)))
     else if frame_type f = 14 then dispatch_input f (c, d)
     else if frame_type f = 15 \<or> frame_type f = 16
     then (if attachedPort c \<noteq> None then refuse 2 ''invalid message direction'' stays_open (c, d)
           else refuse 7 ''session not attached'' stays_open (c, d))
     else refuse 2 ''invalid message type'' closes (c, d))"

lemma dispatch_keeps_buffer: "dispatchFrame rt fs cfg ok f (c, d) = (c', d', sent, outcome) \<Longrightarrow> readBuffer c' = readBuffer c"
  by (auto simp: dispatchFrame_def refuse_def answer_def dispatch_handshake_def dispatch_reserve_def dispatch_attach_def dispatch_input_def
      detachConnection_def Let_def split: if_splits option.splits prod.splits AttachSessionStatus.splits)

lemma sys_read_size:
  "sys_read n es = (a, es') \<Longrightarrow> (case a of Chunk c \<Rightarrow> length c | _ \<Rightarrow> 0) + sum_list (map event_size es') \<le> sum_list (map event_size es)"
  by (cases "(n, es)" rule: sys_read.cases) auto

lemma fill_buffer_size:
  "fill_buffer b es = (st, b', es') \<Longrightarrow>
    length b' + sum_list (map event_size es') \<le> length b + sum_list (map event_size es) \<and> st \<noteq> Some FrameReady"
proof (induction b es arbitrary: st b' es' rule: fill_buffer.induct)
  case (1 b es)
  obtain a es1 where r: "sys_read 4096 es = (a, es1)" by (cases "sys_read 4096 es")
  note size = sys_read_size[OF r]
  show ?case
  proof (cases a)
    case (Chunk c)
    show ?thesis
    proof (cases c)
      case Nil
      with "1.prems" r Chunk size show ?thesis by (auto simp: fill_buffer.simps[of b] split: if_splits)
    next
      case (Cons x xs)
      with "1.prems" r Chunk have "fill_buffer (b @ x # xs) es1 = (st, b', es')" by (simp add: fill_buffer.simps[of b])
      with "1.IH"[OF r[symmetric] Chunk Cons] size Chunk Cons show ?thesis by fastforce
    qed
  qed (use "1.prems" r size in \<open>auto simp: fill_buffer.simps[of b]\<close>)
qed

lemma try_read_consumes:
  assumes "tryReadDaemonIpcFrame b es = (FrameReady, f, b', es')"
  shows "length b' + sum_list (map event_size es') < length b + sum_list (map event_size es)"
proof -
  obtain b1 where fb: "fill_buffer b es = (None, b1, es')" and b1: "12 \<le> length b1" "length b' < length b1"
    using assms fill_buffer_size[of b es]
    by (auto simp: tryReadDaemonIpcFrame_def completeFrameLength_def Let_def split: prod.splits option.splits if_splits)
  from fill_buffer_size[OF fb] b1 show ?thesis by linarith
qed

section \<open>The poll loop\<close>

definition acceptConnection :: "int \<Rightarrow> Connection list \<Rightarrow> Connection list" where
  "acceptConnection fd cs = cs @ [\<lparr>conn_fd = fd, handshaken = False, readBuffer = [], attachedPort = None, conn_channel = None\<rparr>]"

text \<open>
  What one connection sends: its frames are dispatched until the reader finds none, or the connection ends.  \<open>oks\<close> are the answers of
  the socket to what is written back.
\<close>

function serve_input ::
  "Runtime \<Rightarrow> FileSystem \<Rightarrow> DaemonIpcServerConfig \<Rightarrow> bool list \<Rightarrow> read_event list \<Rightarrow> Connection \<times> daemon \<Rightarrow>
     Connection \<times> daemon \<times> DaemonIpcFrame list \<times> DispatchOutcome \<times> read_event list" where
  "serve_input rt fs cfg oks es cd =
     (case tryReadDaemonIpcFrame (readBuffer (fst cd)) es of
        (FrameReady, Some f, b, es') \<Rightarrow>
          (case dispatchFrame rt fs cfg (case oks of [] \<Rightarrow> True | ok # _ \<Rightarrow> ok) f ((fst cd)\<lparr>readBuffer := b\<rparr>, snd cd) of
             (c', d', sent, outcome) \<Rightarrow>
               if closeConnection outcome then (c', d', sent, outcome, es')
               else (case serve_input rt fs cfg (tl oks) es' (c', d') of
                   (c'', d'', sent', outcome', es'') \<Rightarrow>
                     (c'', d'', sent @ sent', outcome'\<lparr>shutdownRequested := shutdownRequested outcome \<or> shutdownRequested outcome'\<rparr>, es'')))
      | (Incomplete, _, b, es') \<Rightarrow> ((fst cd)\<lparr>readBuffer := b\<rparr>, snd cd, [], stays_open, es')
      | (_, _, b, es') \<Rightarrow> ((fst cd)\<lparr>readBuffer := b\<rparr>, snd cd, [], closes, es'))"
  by pat_completeness auto
termination
proof (relation "measure (\<lambda>(_, _, _, _, es, c, _). length (readBuffer c) + sum_list (map event_size es))", simp, goal_cases)
  case 1
  then show ?case by (auto dest!: try_read_consumes[OF sym] dispatch_keeps_buffer[OF sym] split: prod.splits)
qed

declare serve_input.simps [simp del]

text \<open>What \<open>poll\<close> and the socket of one connection answer in one round.\<close>

record poll_answer =
  has_error :: bool
  can_write :: bool
  can_read :: bool
  arriving :: "read_event list"
  replies_taken :: "bool list"
  first_flush :: write_answers
  last_flush :: write_answers
  meanwhile :: other_writes

definition flush_connection :: "other_writes \<Rightarrow> write_answers \<Rightarrow> Connection \<Rightarrow> Connection" where
  "flush_connection ws ans c =
     (case (conn_channel c, attachedPort c) of
        (Some ch, Some _) \<Rightarrow> c\<lparr>conn_channel := Some (fst (flushPendingOutput ws ch ans))\<rparr>
      | _ \<Rightarrow> c)"

text \<open>A connection that ends is detached and left out; the others follow in order.\<close>

fun serve_connections ::
  "Runtime \<Rightarrow> FileSystem \<Rightarrow> DaemonIpcServerConfig \<Rightarrow> (Connection \<times> poll_answer) list \<Rightarrow> daemon \<Rightarrow> Connection list \<times> daemon \<times> bool" where
  "serve_connections rt fs cfg [] d = ([], d, False)" |
  "serve_connections rt fs cfg ((c, a) # rest) d =
     (if has_error a then serve_connections rt fs cfg rest (snd (detachConnection (c, d)))
      else let c1 = (if can_write a then flush_connection (meanwhile a) (first_flush a) c else c) in
        case (if can_read a then serve_input rt fs cfg (replies_taken a) (arriving a) (c1, d) else (c1, d, [], stays_open, arriving a)) of
          (c2, d2, _, outcome, _) \<Rightarrow>
            (if closeConnection outcome
             then (case serve_connections rt fs cfg rest (snd (detachConnection (c2, d2))) of
                 (cs, d3, shut) \<Rightarrow> (cs, d3, shutdownRequested outcome \<or> shut))
             else (case serve_connections rt fs cfg rest d2 of
                 (cs, d3, shut) \<Rightarrow> (flush_connection (meanwhile a) (last_flush a) c2 # cs, d3, shutdownRequested outcome \<or> shut))))"

fun flush_all :: "(other_writes \<times> write_answers) list \<Rightarrow> Connection list \<Rightarrow> Connection list" where
  "flush_all fls [] = []" |
  "flush_all [] (c # cs) = flush_connection [] [] c # flush_all [] cs" |
  "flush_all ((ws, ans) # fls) (c # cs) = flush_connection ws ans c # flush_all fls cs"

text \<open>
  A round of the server.  When \<open>poll\<close> times out or fails, every channel is flushed; otherwise the connections it accepts come last and
  have nothing to read yet.
\<close>

definition idle_answer :: poll_answer where
  "idle_answer = \<lparr>has_error = False, can_write = False, can_read = False, arriving = [], replies_taken = [], first_flush = [], last_flush = [], meanwhile = []\<rparr>"

definition pollAndDispatch ::
  "Runtime \<Rightarrow> FileSystem \<Rightarrow> DaemonIpcServerConfig \<Rightarrow> (other_writes \<times> write_answers) list + (poll_answer list \<times> int list) \<Rightarrow> Connection list \<times> daemon \<Rightarrow> (Connection list \<times> daemon) \<times> bool" where
  "pollAndDispatch rt fs cfg polled = (\<lambda>(cs, d).
     case polled of
       Inl fls \<Rightarrow> ((flush_all fls cs, d), False)
     | Inr (polls, accepted) \<Rightarrow>
         let cs1 = fold acceptConnection accepted cs;
             polls1 = map (\<lambda>k. if k < length cs \<and> k < length polls then polls ! k else idle_answer) [0..<length cs1]
         in case serve_connections rt fs cfg (zip cs1 polls1) d of (cs', d', shut) \<Rightarrow> ((cs', d'), shut))"

definition shutdown_daemon :: "Connection list \<times> daemon \<Rightarrow> Connection list \<times> daemon" where
  "shutdown_daemon = (\<lambda>(cs, d).
     let d1 = drainPendingSessionDestroys d;
         d2 = fold detachSession (boundSessionPorts d1) d1;
         d3 = fold joinSessionWorker (sessionWorkers d2) (d2\<lparr>boundSessionPorts := []\<rparr>)
     in ([], destroyAllSessions d3))"

section \<open>The daemon's invariant\<close>

definition live :: "daemon \<Rightarrow> SessionId set" where
  "live d = dom (map_of (sessions d))"

definition daemon_ok :: "daemon \<Rightarrow> bool" where
  "daemon_ok d \<longleftrightarrow>
     ports_ok (portManager d) \<and> maxPorts (portManager d) = table_maxSessions d \<and> map_wf (sessions d) \<and>
     live d = set (inUse (portManager d)) \<and> length (sessions d) \<le> table_maxSessions d \<and>
     set (boundSessionPorts d) \<subseteq> live d \<and> pendingDestroyPorts d = []"

text \<open>One connection among others that are attached to the ports \<open>A\<close>.\<close>

definition conn_inv :: "SessionId set \<Rightarrow> Connection \<Rightarrow> daemon \<Rightarrow> bool" where
  "conn_inv A c d \<longleftrightarrow>
     daemon_ok d \<and> (attachedPort c = None \<longleftrightarrow> conn_channel c = None) \<and> (attachedPort c \<noteq> None \<longrightarrow> handshaken c) \<and>
     set_option (attachedPort c) \<inter> A = {} \<and> set (boundSessionPorts d) = A \<union> set_option (attachedPort c)"

lemma live_iff: "p \<in> live d \<longleftrightarrow> map_of (sessions d) p \<noteq> None"
  by (auto simp: live_def)

lemma live_upd [simp]:
  "live (d\<lparr>token_runner := r\<rparr>) = live d" "live (d\<lparr>shutdown_flag := b\<rparr>) = live d" "live (d\<lparr>boundChannels := ps\<rparr>) = live d"
  "live (d\<lparr>sessionWorkers := ps\<rparr>) = live d" "live (d\<lparr>boundSessionPorts := ps\<rparr>) = live d"
  by (simp_all add: live_def)

lemma new_daemon_ok: "n < 2 ^ 32 - 1 \<Longrightarrow> daemon_ok (new_daemon n)"
  by (auto simp: daemon_ok_def live_def new_daemon_def new_PortManager_def ports_ok_def word_le_nat_alt word_less_nat_alt)

lemma join_fields [simp]:
  "portManager (joinSessionWorker p d) = portManager d" "sessions (joinSessionWorker p d) = sessions d"
  "table_maxSessions (joinSessionWorker p d) = table_maxSessions d" "boundSessionPorts (joinSessionWorker p d) = boundSessionPorts d"
  "pendingDestroyPorts (joinSessionWorker p d) = pendingDestroyPorts d" "live (joinSessionWorker p d) = live d" "shared_locks (joinSessionWorker p d) = shared_locks d"
  by (simp_all add: joinSessionWorker_def worker_ends_def retire_def)

lemma retire_fields [simp]:
  "live (retire p d) = live d" "portManager (retire p d) = portManager d" "sessions (retire p d) = sessions d" "table_maxSessions (retire p d) = table_maxSessions d"
  "boundSessionPorts (retire p d) = boundSessionPorts d" "pendingDestroyPorts (retire p d) = pendingDestroyPorts d"
  "shared_locks (retire p d) = shared_locks d" "sessionWorkers (retire p d) = sessionWorkers d"
  by (simp_all add: retire_def)

lemma start_fields [simp]:
  "portManager (startSessionWorker p d) = portManager d" "sessions (startSessionWorker p d) = sessions d"
  "table_maxSessions (startSessionWorker p d) = table_maxSessions d" "boundSessionPorts (startSessionWorker p d) = boundSessionPorts d"
  "pendingDestroyPorts (startSessionWorker p d) = pendingDestroyPorts d" "live (startSessionWorker p d) = live d"
  by (simp_all add: startSessionWorker_def Let_def split: option.split)

lemma create_ok:
  assumes "daemon_ok d" "table_createSession rt fs d = Some (p, d')"
  shows "daemon_ok d'" "p \<notin> live d" "p \<in> live d'" "boundSessionPorts d' = boundSessionPorts d"
proof -
  obtain pm where a: "allocate (portManager d) = Some (p, pm)" and room: "\<not> table_maxSessions d \<le> length (sessions d)"
    using assms(2) by (auto simp: table_createSession_def Let_def split: if_splits option.splits)
  have ok: "ports_ok (portManager d)" using assms(1) by (simp add: daemon_ok_def)
  note p = allocate_smallest[OF ok a] allocate_ok[OF ok a]
  have fresh: "map_of (sessions d) p = None" using p(1) assms(1) by (auto simp: daemon_ok_def live_iff)
  then show "p \<notin> live d" by (simp add: live_iff)
  obtain s where d': "d' = d\<lparr>portManager := pm, sessions := sessions d @ [(p, s)]\<rparr>"
    using assms(2) a room fresh by (auto simp: table_createSession_def Let_def)
  have "map_wf (sessions d @ [(p, s)])" using assms(1) fresh by (simp add: daemon_ok_def map_wf_def map_of_eq_None_iff)
  moreover have live': "live d' = insert p (live d)" by (auto simp: d' live_def)
  ultimately show "daemon_ok d'" "p \<in> live d'" "boundSessionPorts d' = boundSessionPorts d"
    using assms(1) room p(5,6) by (auto simp: daemon_ok_def live') (auto simp: d')
qed

lemma bind_ok:
  assumes "conn_inv A c d" "attachedPort c = None" "handshaken c" "p \<in> live d" "bind_session p ch d = (st, q, ch', d')"
  shows "if st = AttachOk then conn_inv A (c\<lparr>attachedPort := Some q, conn_channel := Some ch'\<rparr>) d' else d' = d"
proof -
  have "map_of (sessions d) p \<noteq> None" using assms(4) by (simp add: live_iff)
  then show ?thesis
    using assms by (auto simp: bind_session_def conn_inv_def daemon_ok_def split: if_splits option.splits)
qed

lemma attach_ok:
  assumes "conn_inv A c d" "attachedPort c = None" "handshaken c" "attachSession rt fs p ch d = (st, q, ch', d')"
  shows "if st = AttachOk then conn_inv A (c\<lparr>attachedPort := Some q, conn_channel := Some ch'\<rparr>) d' else conn_inv A c d'"
proof (cases "p = 0")
  case True
  show ?thesis
  proof (cases "table_createSession rt fs d")
    case None
    with True assms show ?thesis by (auto simp: attachSession_def)
  next
    case (Some r)
    then obtain n d1 where c1: "table_createSession rt fs d = Some (n, d1)" by (cases r) simp
    have "daemon_ok d" using assms(1) by (simp add: conn_inv_def)
    from create_ok[OF this c1] have i: "conn_inv A c d1" "n \<in> live d1" using assms(1-3) by (auto simp: conn_inv_def)
    have "bind_session n ch d1 = (st, q, ch', d')" using assms(4) True c1 by (simp add: attachSession_def)
    from bind_ok[OF i(1) assms(2,3) i(2) this] i(1) show ?thesis by (auto split: if_splits)
  qed
next
  case False
  show ?thesis
  proof (cases "map_of (sessions d) p")
    case None
    with False assms show ?thesis by (auto simp: attachSession_def)
  next
    case (Some s)
    then have "p \<in> live d" by (simp add: live_iff)
    moreover have "bind_session p ch d = (st, q, ch', d')" using assms(4) False Some by (simp add: attachSession_def)
    ultimately show ?thesis using bind_ok[OF assms(1-3), of p ch st q ch' d'] assms(1) by (auto split: if_splits)
  qed
qed

lemma detach_daemon_ok:
  assumes "daemon_ok d"
  shows "daemon_ok (detachSession p d)" "set (boundSessionPorts (detachSession p d)) = set (boundSessionPorts d) - {p}"
  using assms by (auto simp: detachSession_def Let_def daemon_ok_def)

lemma detach_ok:
  assumes "conn_inv A c d" "detachConnection (c, d) = (c', d')"
  shows "conn_inv A c' d'" "attachedPort c' = None" "daemon_ok d'" "set (boundSessionPorts d') = A"
proof -
  have "daemon_ok d" using assms(1) by (simp add: conn_inv_def)
  then show "conn_inv A c' d'" "attachedPort c' = None" "daemon_ok d'" "set (boundSessionPorts d') = A"
    using assms detach_daemon_ok[of d] by (auto simp: detachConnection_def conn_inv_def split: option.splits)
qed

lemma dispatch_handshake_ok:
  assumes "conn_inv A c d" "\<not> handshaken c" "dispatch_handshake cfg written f (c, d) = (c', d', sent, outcome)"
  shows "conn_inv A c' d'" "d' = d"
  using assms by (auto simp: dispatch_handshake_def refuse_def answer_def conn_inv_def Let_def split: if_splits)

lemma dispatch_attach_ok:
  assumes "conn_inv A c d" "handshaken c" "dispatch_attach rt fs written f (c, d) = (c', d', sent, outcome)"
  shows "conn_inv A c' d'"
proof (cases "attachedPort c")
  case None
  show ?thesis
  proof (cases "decodeAttachSessionPayload (payload f)")
    case (Some p)
    obtain st q ch d1 where a: "attachSession rt fs p new_channel d = (st, q, ch, d1)" by (metis prod_cases4)
    note ok = attach_ok[OF assms(1) None assms(2) a]
    show ?thesis
    proof (cases "st = AttachOk \<and> \<not> written")
      case True
      obtain c2 d2 where det: "detachConnection (c\<lparr>attachedPort := Some q, conn_channel := Some ch\<rparr>, d1) = (c2, d2)" by (cases "detachConnection (c\<lparr>attachedPort := Some q, conn_channel := Some ch\<rparr>, d1)")
      with assms(3) None Some a True have "c' = c2" "d' = d2" by (auto simp: dispatch_attach_def answer_def Let_def)
      with detach_ok[OF _ det] ok True show ?thesis by simp
    next
      case False
      with assms(3) None Some a ok show ?thesis
        by (cases st) (auto simp: dispatch_attach_def answer_def refuse_def Let_def)
    qed
  qed (use assms None in \<open>auto simp: dispatch_attach_def refuse_def\<close>)
qed (use assms in \<open>auto simp: dispatch_attach_def refuse_def\<close>)

lemma dispatch_input_ok:
  assumes "conn_inv A c d" "dispatch_input f (c, d) = (c', d', sent, outcome)"
  shows "conn_inv A c' d'"
  using assms by (auto simp: dispatch_input_def refuse_def conn_inv_def daemon_ok_def split: option.splits prod.splits)

lemma dispatch_ok:
  assumes "conn_inv A c d" "dispatchFrame rt fs cfg written f (c, d) = (c', d', sent, outcome)"
  shows "conn_inv A c' d'"
proof (cases "frame_version f = kDaemonIpcProtocolVersion \<and> handshaken c")
  case False
  with assms show ?thesis by (auto simp: dispatchFrame_def refuse_def dest: dispatch_handshake_ok split: if_splits)
next
  case True
  consider "frame_type f = 7" | "frame_type f = 10" | "frame_type f = 12" | "frame_type f = 14"
    | "frame_type f \<notin> {7, 10, 12, 14}" by blast
  then show ?thesis
  proof cases
    case 1
    with True assms show ?thesis
      using create_ok[of d rt fs] by (auto simp: dispatchFrame_def dispatch_reserve_def refuse_def answer_def conn_inv_def split: option.splits)
  next
    case 2
    with True assms show ?thesis by (auto simp: dispatchFrame_def intro: dispatch_attach_ok)
  next
    case 3
    with True assms show ?thesis
      by (cases "detachConnection (c, d)") (auto simp: dispatchFrame_def refuse_def answer_def dest: detach_ok(1) split: if_splits)
  next
    case 4
    with True assms show ?thesis by (auto simp: dispatchFrame_def intro: dispatch_input_ok)
  next
    case 5
    with True assms show ?thesis
      by (auto simp: dispatchFrame_def refuse_def answer_def conn_inv_def daemon_ok_def split: if_splits)
  qed
qed

lemma conn_inv_buffer [simp]: "conn_inv A (c\<lparr>readBuffer := b\<rparr>) d = conn_inv A c d"
  by (simp add: conn_inv_def)

lemma serve_input_ok:
  assumes "conn_inv A (fst cd) (snd cd)" "serve_input rt fs cfg oks es cd = (c', d', sent, outcome, es')"
  shows "conn_inv A c' d'"
  using assms
proof (induction rt fs cfg oks es cd arbitrary: c' d' sent outcome es' rule: serve_input.induct)
  case (1 rt fs cfg oks es cd)
  obtain st f b es1 where t: "tryReadDaemonIpcFrame (readBuffer (fst cd)) es = (st, f, b, es1)" by (metis prod_cases4)
  show ?case
  proof (cases "st = FrameReady \<and> f \<noteq> None")
    case False
    with "1.prems" t show ?thesis
      by (auto simp: serve_input.simps[of _ _ _ _ _ cd] split: DaemonIpcTryReadStatus.splits option.splits)
  next
    case True
    then obtain g where g: "st = FrameReady" "f = Some g" by auto
    let ?c = "(fst cd)\<lparr>readBuffer := b\<rparr>"
    let ?ok = "case oks of [] \<Rightarrow> True | ok # _ \<Rightarrow> ok"
    obtain c1 d1 s1 o1 where dsp: "dispatchFrame rt fs cfg ?ok g (?c, snd cd) = (c1, d1, s1, o1)" by (metis prod_cases4)
    have inv: "conn_inv A c1 d1" by (rule dispatch_ok[OF _ dsp]) (use "1.prems"(1) in simp)
    show ?thesis
    proof (cases "closeConnection o1")
      case True
      with "1.prems"(2) t g dsp inv show ?thesis by (simp add: serve_input.simps[of _ _ _ _ _ cd])
    next
      case False
      obtain c2 d2 s2 o2 e2 where r: "serve_input rt fs cfg (tl oks) es1 (c1, d1) = (c2, d2, s2, o2, e2)" by (metis prod_cases5)
      have "conn_inv A c2 d2"
        by (rule "1.IH"[OF t[symmetric] g(1) refl g(2) refl dsp[symmetric] refl refl False _ r]) (use inv in simp)
      with "1.prems"(2) t g dsp False r show ?thesis by (simp add: serve_input.simps[of _ _ _ _ _ cd])
    qed
  qed
qed

definition attached_ports :: "Connection list \<Rightarrow> SessionId list" where
  "attached_ports cs = concat (map (\<lambda>c. case attachedPort c of Some p \<Rightarrow> [p] | None \<Rightarrow> []) cs)"

definition list_inv :: "SessionId set \<Rightarrow> Connection list \<Rightarrow> daemon \<Rightarrow> bool" where
  "list_inv A cs d \<longleftrightarrow>
     daemon_ok d \<and> (\<forall>c \<in> set cs. (attachedPort c = None \<longleftrightarrow> conn_channel c = None) \<and> (attachedPort c \<noteq> None \<longrightarrow> handshaken c)) \<and>
     distinct (attached_ports cs) \<and> set (attached_ports cs) \<inter> A = {} \<and> set (boundSessionPorts d) = A \<union> set (attached_ports cs)"

lemma attached_simps [simp]:
  "attached_ports [] = []" "attached_ports (c # cs) = (case attachedPort c of Some p \<Rightarrow> [p] | None \<Rightarrow> []) @ attached_ports cs" "attached_ports (cs @ es) = attached_ports cs @ attached_ports es"
  by (simp_all add: attached_ports_def)

lemma list_inv_Cons:
  "list_inv A (c # cs) d \<longleftrightarrow> conn_inv (A \<union> set (attached_ports cs)) c d \<and> list_inv (A \<union> set_option (attachedPort c)) cs d"
  by (auto simp: list_inv_def conn_inv_def split: option.splits)

lemma conn_inv_flush [simp]: "conn_inv A (flush_connection ws ans c) d = conn_inv A c d" "attachedPort (flush_connection ws ans c) = attachedPort c"
  by (auto simp: flush_connection_def conn_inv_def split: option.splits)

lemma list_inv_after:
  assumes "list_inv (A \<union> set_option (attachedPort c)) cs d" "conn_inv (A \<union> set (attached_ports cs)) c' d'" "attachedPort c' = p"
  shows "list_inv (A \<union> set_option p) cs d'"
  using assms by (auto simp: list_inv_def conn_inv_def)

lemma serve_connections_ok:
  assumes "list_inv A (map fst cas) d" "serve_connections rt fs cfg cas d = (cs', d', shut)"
  shows "list_inv A cs' d'"
  using assms
proof (induction cas arbitrary: A d cs' d' shut)
  case (Cons ca cas)
  obtain c a where ca: "ca = (c, a)" by (cases ca)
  have c: "conn_inv (A \<union> set (attached_ports (map fst cas))) c d" and cs: "list_inv (A \<union> set_option (attachedPort c)) (map fst cas) d"
    using Cons.prems(1) by (simp_all add: ca list_inv_Cons)
  have gone: "list_inv A (map fst cas) (snd (detachConnection (c2, d2)))" if "conn_inv (A \<union> set (attached_ports (map fst cas))) c2 d2" for c2 d2
    using detach_ok[OF that, of "fst (detachConnection (c2, d2))" "snd (detachConnection (c2, d2))"] cs
      list_inv_after[OF cs, of "fst (detachConnection (c2, d2))" "snd (detachConnection (c2, d2))" None] by simp
  show ?case
  proof (cases "has_error a")
    case True
    with Cons.prems(2) ca have "serve_connections rt fs cfg cas (snd (detachConnection (c, d))) = (cs', d', shut)" by simp
    then show ?thesis by (rule Cons.IH[OF gone[OF c]])
  next
    case False
    define c1 where "c1 = (if can_write a then flush_connection (meanwhile a) (first_flush a) c else c)"
    obtain c2 d2 s2 o2 e2
      where r: "(if can_read a then serve_input rt fs cfg (replies_taken a) (arriving a) (c1, d) else (c1, d, [], stays_open, arriving a)) = (c2, d2, s2, o2, e2)"
      by (metis prod_cases5)
    have "conn_inv (A \<union> set (attached_ports (map fst cas))) c1 d" using c by (simp add: c1_def)
    then have c2: "conn_inv (A \<union> set (attached_ports (map fst cas))) c2 d2"
      using r serve_input_ok[of _ "(c1, d)"] by (auto split: if_splits)
    show ?thesis
    proof (cases "closeConnection o2")
      case True
      obtain cs3 d3 sh where q: "serve_connections rt fs cfg cas (snd (detachConnection (c2, d2))) = (cs3, d3, sh)" by (metis prod_cases3)
      then have "list_inv A cs3 d3" by (rule Cons.IH[OF gone[OF c2]])
      moreover have "serve_connections rt fs cfg (ca # cas) d = (cs3, d3, shutdownRequested o2 \<or> sh)"
        unfolding ca serve_connections.simps Let_def c1_def[symmetric] r by (simp add: False True q)
      ultimately show ?thesis using Cons.prems(2) by simp
    next
      case open2: False
      obtain cs3 d3 sh where q: "serve_connections rt fs cfg cas d2 = (cs3, d3, sh)" by (metis prod_cases3)
      have "list_inv (A \<union> set_option (attachedPort c2)) (map fst cas) d2" by (rule list_inv_after[OF cs c2 refl])
      then have rest: "list_inv (A \<union> set_option (attachedPort c2)) cs3 d3" using q by (rule Cons.IH)
      have "conn_inv (A \<union> set (attached_ports cs3)) c2 d3" using rest c2 by (auto simp: list_inv_def conn_inv_def)
      with rest have "list_inv A (flush_connection (meanwhile a) (last_flush a) c2 # cs3) d3" by (simp add: list_inv_Cons)
      moreover have "serve_connections rt fs cfg (ca # cas) d =
          (flush_connection (meanwhile a) (last_flush a) c2 # cs3, d3, shutdownRequested o2 \<or> sh)"
        unfolding ca serve_connections.simps Let_def c1_def[symmetric] r by (simp add: False open2 q)
      ultimately show ?thesis using Cons.prems(2) by simp
    qed
  qed
qed simp

lemma accept_one: "list_inv A cs d \<Longrightarrow> list_inv A (acceptConnection fd cs) d"
  by (simp add: acceptConnection_def list_inv_def)

lemma accept_ok: "list_inv A cs d \<Longrightarrow> list_inv A (fold acceptConnection fds cs) d"
  by (induction fds arbitrary: cs) (simp_all add: accept_one)

lemma drain_idle: "pendingDestroyPorts d = [] \<Longrightarrow> drainPendingSessionDestroys d = d"
  by (cases d) (simp add: drainPendingSessionDestroys_def)

lemma attached_flush [simp]: "attached_ports (flush_all fls cs) = attached_ports cs"
  by (induction fls cs rule: flush_all.induct) simp_all

lemma list_inv_flush: "list_inv A cs d \<Longrightarrow> list_inv A (flush_all fls cs) d"
  by (induction fls cs arbitrary: A rule: flush_all.induct) (simp_all add: list_inv_Cons)

lemma poll_ok:
  assumes "list_inv {} cs d" "pollAndDispatch rt fs cfg polled (cs, d) = ((cs', d'), shut)"
  shows "list_inv {} cs' d'"
proof (cases polled)
  case (Inl fls)
  with assms show ?thesis by (auto simp: pollAndDispatch_def intro: list_inv_flush)
next
  case (Inr pa)
  obtain polls fds where pa: "pa = (polls, fds)" by (cases pa)
  define cs1 where "cs1 = fold acceptConnection fds cs"
  define polls1 where "polls1 = map (\<lambda>k. if k < length cs \<and> k < length polls then polls ! k else idle_answer) [0..<length cs1]"
  have "map fst (zip cs1 polls1) = cs1" by (simp add: polls1_def)
  moreover have "list_inv {} cs1 d" unfolding cs1_def by (rule accept_ok[OF assms(1)])
  moreover have "serve_connections rt fs cfg (zip cs1 polls1) d = (cs', d', shut)"
    using assms(2) by (auto simp: pollAndDispatch_def Inr pa Let_def cs1_def polls1_def split: prod.splits)
  ultimately show ?thesis using serve_connections_ok[of "{}" "zip cs1 polls1" d] by simp
qed

text \<open>
  What happens to the daemon: rounds of the server, the drain of the sessions to be destroyed, the end of a session's thread, and whatever
  a session's shell does to the session itself and to the locks.
\<close>

datatype daemon_op =
  Poll Runtime FileSystem DaemonIpcServerConfig "(other_writes \<times> write_answers) list + (poll_answer list \<times> int list)" | Drain | ThreadEnds SessionId
  | SessionActs SessionId GeminiSession LockTable

fun daemon_step :: "Connection list \<times> daemon \<Rightarrow> daemon_op \<Rightarrow> Connection list \<times> daemon" where
  "daemon_step (cs, d) (Poll rt fs cfg polled) = fst (pollAndDispatch rt fs cfg polled (cs, d))" |
  "daemon_step (cs, d) Drain = (cs, drainPendingSessionDestroys d)" |
  "daemon_step (cs, d) (ThreadEnds p) = (cs, worker_ends p d)" |
  "daemon_step (cs, d) (SessionActs p s locks) =
     (cs, if map_of (sessions d) p = None then d else d\<lparr>sessions := map_put p s (sessions d), shared_locks := locks\<rparr>)"

definition server_ok :: "Connection list \<times> daemon \<Rightarrow> bool" where
  "server_ok = (\<lambda>(cs, d). list_inv {} cs d)"

lemma map_put_length: "map_of m k \<noteq> None \<Longrightarrow> length (map_put k v m) = length m"
  by (induction m) (auto split: if_splits)

lemma acts_ok:
  assumes "daemon_ok d" "map_of (sessions d) p \<noteq> None"
  shows "daemon_ok (d\<lparr>sessions := map_put p s (sessions d), shared_locks := locks\<rparr>)"
proof -
  have "live (d\<lparr>sessions := map_put p s (sessions d), shared_locks := locks\<rparr>) = live d" using assms(2) by (auto simp: live_def)
  then show ?thesis using assms by (auto simp: daemon_ok_def map_put_length)
qed

lemma daemon_step_ok: "server_ok s \<Longrightarrow> server_ok (daemon_step s x)"
proof (cases s; cases x)
  fix cs d rt fs cfg polled
  assume "server_ok s" "s = (cs, d)" "x = Poll rt fs cfg polled"
  then show "server_ok (daemon_step s x)"
    by (cases "pollAndDispatch rt fs cfg polled (cs, d)") (auto simp: server_ok_def dest: poll_ok)
next
  fix cs d
  assume "server_ok s" "s = (cs, d)" "x = Drain"
  then show "server_ok (daemon_step s x)"
    by (auto simp: server_ok_def list_inv_def daemon_ok_def drain_idle)
next
  fix cs d p
  assume "server_ok s" "s = (cs, d)" "x = ThreadEnds p"
  then show "server_ok (daemon_step s x)" by (auto simp: server_ok_def worker_ends_def list_inv_def daemon_ok_def)
next
  fix cs d p t locks
  assume "server_ok s" "s = (cs, d)" "x = SessionActs p t locks"
  then show "server_ok (daemon_step s x)" using acts_ok[of d p, where s = t and locks = locks] by (auto simp: server_ok_def list_inv_def)
qed

interpretation daemon_machine: invariant_machine daemon_step server_ok
  by unfold_locales (rule daemon_step_ok)

lemma new_server_ok: "n < 2 ^ 32 - 1 \<Longrightarrow> server_ok ([], new_daemon n)"
  using new_daemon_ok[of n] by (simp add: server_ok_def list_inv_def) (simp add: new_daemon_def)

section \<open>What the daemon promises\<close>


text \<open>
  Nothing happens before the handshake.  A frame on a connection that has not shaken hands leaves the daemon as it is and attaches
  nothing: it is answered with an error and the connection is closed, unless it is a handshake for this protocol version.  A frame of
  another protocol version is refused in the same way at any time.
\<close>

theorem nothing_before_handshake:
  assumes "\<not> handshaken c \<or> frame_version f \<noteq> 1" "dispatchFrame rt fs cfg written f (c, d) = (c', d', sent, outcome)"
  shows "d' = d \<and> attachedPort c' = attachedPort c \<and> \<not> shutdownRequested outcome \<and>
    (if frame_version f = 1 \<and> frame_type f = 1 \<and> decodeHandshakePayload (payload f) = Some 1
     then handshaken c' = written \<and> closeConnection outcome = (\<not> written)
     else c' = c \<and> closeConnection outcome \<and> (\<exists>ecode msg. sent = [error_frame ecode msg]))"
  using assms
  by (auto simp: dispatchFrame_def dispatch_handshake_def refuse_def answer_def closes_def stays_open_def kDaemonIpcProtocolVersion_def Let_def
      split: if_splits)

definition sample_answer :: "byte list \<Rightarrow> poll_answer" where
  "sample_answer bs = idle_answer\<lparr>can_read := True, arriving := [Got bs, WouldBlock, WouldBlock], replies_taken := [True, True]\<rparr>"

definition sample_daemon_ops :: "daemon_op list" where
  "sample_daemon_ops =
     (let cfg = \<lparr>cfg_maxSessions = 2, cfg_buildVersion = []\<rparr>;
          hello = wire [message_frame 1 (encodeHandshakePayload 1), message_frame 10 (encodeAttachSessionPayload 0)]
      in [Poll sample_runtime (sample_fs []) cfg (Inr ([], [5, 6])),
          Poll sample_runtime (sample_fs []) cfg (Inr ([sample_answer hello, sample_answer hello], []))])"


theorem nothing_before_handshake_witness:
  "case dispatchFrame sample_runtime (sample_fs []) \<lparr>cfg_maxSessions = 2, cfg_buildVersion = []\<rparr> True (message_frame 10 [])
      (\<lparr>conn_fd = 5, handshaken = False, readBuffer = [], attachedPort = None, conn_channel = None\<rparr>, new_daemon 2) of
     (c', d', sent, outcome) \<Rightarrow> d' = new_daemon 2 \<and> closeConnection outcome"
proof -
  let ?c = "\<lparr>conn_fd = 5, handshaken = False, readBuffer = [], attachedPort = None, conn_channel = None\<rparr>"
  obtain c' d' sent outcome
    where r: "dispatchFrame sample_runtime (sample_fs []) \<lparr>cfg_maxSessions = 2, cfg_buildVersion = []\<rparr> True (message_frame 10 []) (?c, new_daemon 2) =
      (c', d', sent, outcome)" by (metis prod_cases4)
  from nothing_before_handshake[OF _ r] show ?thesis unfolding r by (simp add: message_frame_def)
qed

section \<open>Ending\<close>

definition no_locks :: "string \<Rightarrow> LockTable \<Rightarrow> bool" where
  "no_locks owner t \<longleftrightarrow> (\<forall>f r e. lookup t f r = Some e \<longrightarrow> ownerSessionId e \<noteq> owner)"

definition locks_after :: "GeminiSession \<Rightarrow> LockTable \<Rightarrow> LockTable" where
  "locks_after s t = lock_table (gs_world (releaseSessionLocks (set_world ((gs_world s)\<lparr>lock_table := t\<rparr>) s)))"

lemma destroy_effect:
  "table_destroySession i d =
     (case map_of (sessions d) i of
        None \<Rightarrow> d
      | Some s \<Rightarrow> d\<lparr>shared_locks := locks_after s (shared_locks d), sessions := map_erase i (sessions d), portManager := release_port (portManager d) i\<rparr>)"
  by (simp add: table_destroySession_def Let_def gs_world_destroy locks_after_def split: option.split)

lemma set_world_fields [simp]:
  "sessionLockId (set_world w s) = sessionLockId s" "hasSharedLockTable (set_world w s) = hasSharedLockTable s"
  by (simp_all add: set_world_def)

lemma locks_after_eq:
  "locks_after s t = (if hasSharedLockTable s \<and> sessionLockId s \<noteq> [] then snd (releaseAllForSession t (sessionLockId s)) else t)"
  by (simp add: locks_after_def releaseSessionLocks_def)

lemma locks_after_wf: "locks_wf t \<Longrightarrow> locks_wf (locks_after s t)"
  using lock_step_wf[of t "ReleaseAllForSession (sessionLockId s)"] by (simp add: locks_after_eq)

lemma locks_after_lookup:
  assumes "locks_wf t" "hasSharedLockTable s" "sessionLockId s \<noteq> []"
  shows "lookup (locks_after s t) f r = (case lookup t f r of Some e \<Rightarrow> if ownerSessionId e = sessionLockId s then None else Some e | None \<Rightarrow> None)"
  using releaseSessionLocks_released[of "set_world ((gs_world s)\<lparr>lock_table := t\<rparr>) s"] assms
  by (simp add: released_def locks_after_def split: option.split)

lemma locks_after_no_locks:
  assumes "locks_wf t"
  shows "hasSharedLockTable s \<Longrightarrow> sessionLockId s \<noteq> [] \<Longrightarrow> no_locks (sessionLockId s) (locks_after s t)"
    and "no_locks owner t \<Longrightarrow> no_locks owner (locks_after s t)"
proof -
  show "hasSharedLockTable s \<Longrightarrow> sessionLockId s \<noteq> [] \<Longrightarrow> no_locks (sessionLockId s) (locks_after s t)"
    by (auto simp: no_locks_def locks_after_lookup[OF assms] split: option.splits if_splits)
  show "no_locks owner t \<Longrightarrow> no_locks owner (locks_after s t)"
  proof (cases "hasSharedLockTable s \<and> sessionLockId s \<noteq> []")
    case True
    then show "no_locks owner t \<Longrightarrow> no_locks owner (locks_after s t)"
      by (auto simp: no_locks_def locks_after_lookup[OF assms] split: option.splits if_splits)
  qed (auto simp: locks_after_eq)
qed

lemma destroy_ok:
  assumes "daemon_ok d" "i \<notin> set (boundSessionPorts d)"
  shows "daemon_ok (table_destroySession i d)" "live (table_destroySession i d) = live d - {i}"
    "boundSessionPorts (table_destroySession i d) = boundSessionPorts d"
proof -
  show "boundSessionPorts (table_destroySession i d) = boundSessionPorts d" by (simp add: destroy_effect split: option.split)
  show l: "live (table_destroySession i d) = live d - {i}" by (auto simp: destroy_effect live_def split: option.split)
  show "daemon_ok (table_destroySession i d)"
  proof (cases "map_of (sessions d) i")
    case None
    with assms(1) show ?thesis by (simp add: destroy_effect)
  next
    case (Some s)
    then have "i \<in> live d" by (simp add: live_iff)
    then have "1 \<le> i" using assms(1) by (auto simp: daemon_ok_def ports_ok_def word_le_nat_alt) (metis Suc_leI not_gr_zero unat_eq_zero)
    then have "ports_ok (release_port (portManager d) i)" using assms(1) by (intro release_ok) (simp_all add: daemon_ok_def)
    moreover have "length (map_erase i (sessions d)) \<le> length (sessions d)" by (simp add: map_erase_def)
    ultimately show ?thesis using assms l Some by (auto simp: daemon_ok_def destroy_effect release_port_def)
  qed
qed

lemma destroy_many:
  assumes "daemon_ok d" "boundSessionPorts d = []" "locks_wf (shared_locks d)" "distinct is"
  shows "daemon_ok (fold table_destroySession is d) \<and> live (fold table_destroySession is d) = live d - set is \<and>
    (\<forall>i \<in> set is. \<forall>s. map_of (sessions d) i = Some s \<and> hasSharedLockTable s \<and> sessionLockId s \<noteq> [] \<longrightarrow>
      no_locks (sessionLockId s) (shared_locks (fold table_destroySession is d))) \<and>
    (\<forall>owner. no_locks owner (shared_locks d) \<longrightarrow> no_locks owner (shared_locks (fold table_destroySession is d)))"
  using assms
proof (induction "is" arbitrary: d)
  case (Cons j js)
  let ?d = "table_destroySession j d"
  have ok: "daemon_ok ?d" "live ?d = live d - {j}" "boundSessionPorts ?d = []" using destroy_ok[OF Cons.prems(1), of j] Cons.prems(2) by simp_all
  have wf: "locks_wf (shared_locks ?d)" using Cons.prems(3) by (simp add: destroy_effect locks_after_wf split: option.split)
  have js: "distinct js" "j \<notin> set js" using Cons.prems(4) by simp_all
  note IH = Cons.IH[OF ok(1,3) wf js(1)]
  have keep: "no_locks owner (shared_locks d) \<Longrightarrow> no_locks owner (shared_locks ?d)" for owner
    using Cons.prems(3) by (simp add: destroy_effect locks_after_no_locks(2) split: option.split)
  have "no_locks (sessionLockId s) (shared_locks (fold table_destroySession js ?d))"
    if i: "i \<in> set (j # js)" "map_of (sessions d) i = Some s" "hasSharedLockTable s" "sessionLockId s \<noteq> []" for i s
  proof (cases "i = j")
    case True
    then have "no_locks (sessionLockId s) (shared_locks ?d)" using i Cons.prems(3) by (simp add: destroy_effect locks_after_no_locks(1))
    then show ?thesis using IH by simp
  next
    case False
    then have "map_of (sessions ?d) i = Some s" using i(2) by (simp add: destroy_effect split: option.split)
    then show ?thesis using IH i False by auto
  qed
  then show ?case using IH ok(2) keep by auto
qed simp

lemmas destroy_many_laws = destroy_many[THEN conjunct1] destroy_many[THEN conjunct2, THEN conjunct1]
  destroy_many[THEN conjunct2, THEN conjunct2, THEN conjunct1]

lemma detach_all: "daemon_ok d \<Longrightarrow> daemon_ok (fold detachSession ps d) \<and> sessions (fold detachSession ps d) = sessions d \<and>
    shared_locks (fold detachSession ps d) = shared_locks d"
proof (induction ps arbitrary: d)
  case (Cons p ps)
  have "sessions (detachSession p d) = sessions d" "shared_locks (detachSession p d) = shared_locks d" by (simp_all add: detachSession_def Let_def)
  with Cons.IH[OF detach_daemon_ok(1)[OF Cons.prems, of p]] show ?case by simp
qed simp

lemma join_all:
  "daemon_ok (fold joinSessionWorker ps d) = daemon_ok d \<and> sessions (fold joinSessionWorker ps d) = sessions d \<and>
    shared_locks (fold joinSessionWorker ps d) = shared_locks d \<and> boundSessionPorts (fold joinSessionWorker ps d) = boundSessionPorts d"
proof (induction ps arbitrary: d)
  case (Cons p ps)
  have "daemon_ok (joinSessionWorker p d) = daemon_ok d" by (simp add: daemon_ok_def)
  with Cons.IH[of "joinSessionWorker p d"] show ?case by simp
qed simp



text \<open>
  A session that is killed leaves its connection attached to the port.  When the port has been given to another session, the old
  connection's end takes that session's connection and thread away.
\<close>

lemma stale_connection_unbinds:
  "case attachSession sample_runtime (sample_fs []) 0 new_channel (new_daemon 4) of
     (st1, p1, _, d1) \<Rightarrow>
       (case attachSession sample_runtime (sample_fs []) 0 new_channel (drainPendingSessionDestroys (snd (killSession p1 d1))) of
          (st2, p2, _, d2) \<Rightarrow>
            st1 = AttachOk \<and> st2 = AttachOk \<and> p2 = p1 \<and> p2 \<in> set (boundSessionPorts d2) \<and> p2 \<in> set (sessionWorkers d2) \<and>
            p2 \<notin> set (boundSessionPorts (detachSession p1 d2)) \<and> p2 \<notin> set (sessionWorkers (detachSession p1 d2)))"
  by code_simp

end
