(* ===== verification/Login.thy ===== *)
theory Login
  imports Basic_Shell_Laws Session
begin

text \<open>
  Logging on (\<open>LoginService.cpp\<close>) against the catalogue of accounts (\<open>GeminiCatalog.cpp\<close>): an account is named on a line, a password
  on the next where the account has one, and the session gets the account's directory.  The text of \<open>ACCOUNTS.json\<close> is read by the library
  \<open>nlohmann::json\<close>, whose parser is a parameter here; the environment variables for the automatic logon are arguments.
\<close>

section \<open>The catalogue\<close>

datatype json = JNull | JBool bool | JNumber int | JString string | JArray "json list" | JObject "(string \<times> json) list"

record GeminiAccountRow =
  acct_name :: string
  acct_root :: string
  passwordHash :: "string option"

text \<open>\<open>row.value(key, "")\<close>: the default when the key is missing; another type than a string throws, which \<open>loadAccounts\<close> catches.\<close>

definition json_value :: "json \<Rightarrow> string \<Rightarrow> string option" where
  "json_value row key =
     (case row of
        JObject kvs \<Rightarrow> (case map_of kvs key of None \<Rightarrow> Some [] | Some (JString s) \<Rightarrow> Some s | Some _ \<Rightarrow> None)
      | _ \<Rightarrow> None)"

definition json_hash :: "json \<Rightarrow> string option" where
  "json_hash row =
     (case row of
        JObject kvs \<Rightarrow> (case map_of kvs ''passwordHash'' of Some (JString ph) \<Rightarrow> if ph = [] then None else Some ph | _ \<Rightarrow> None)
      | _ \<Rightarrow> None)"

definition account_row :: "json \<Rightarrow> GeminiAccountRow option" where
  "account_row row =
     (case (json_value row ''name'', json_value row ''root'') of
        (Some n, Some r) \<Rightarrow> Some \<lparr>acct_name = n, acct_root = r, passwordHash = json_hash row\<rparr>
      | _ \<Rightarrow> None)"

definition loadAccounts :: "(string \<Rightarrow> json option) \<Rightarrow> host \<Rightarrow> disk \<Rightarrow> path \<Rightarrow> GeminiAccountRow list option" where
  "loadAccounts parse_json h d p =
     (if host_fails h OpenRead p then None
      else case map_of d p of
             Some (File t) \<Rightarrow>
               (case parse_json t of
                  Some (JObject kvs) \<Rightarrow>
                    (case map_of kvs ''accounts'' of Some (JArray rows) \<Rightarrow> those (map account_row rows) | _ \<Rightarrow> None)
                | _ \<Rightarrow> None)
           | _ \<Rightarrow> None)"

section \<open>Names and passwords\<close>

definition iequalsAscii :: "string \<Rightarrow> string \<Rightarrow> bool" where
  "iequalsAscii a b \<longleftrightarrow> lowerCopy a = lowerCopy b"

definition passwordPlaceholderSkipsVerify :: "string \<Rightarrow> bool" where
  "passwordPlaceholderSkipsVerify hash \<longleftrightarrow> prefix ''dev-'' hash"

definition kReservedLoginNames :: "string list" where
  "kReservedLoginNames =
     [''LOGIN'', ''QUIT'', ''VERSION'', ''HELP'', ''TCL'', ''EDIT'', ''RUN'', ''BASIC'', ''PROC'', ''ASM'', ''ECHO'', ''SET'', ''GET'', ''UNSET'',
      ''WHO'', ''LOGTO'', ''LOGOFF'', ''CREATE-FILE'', ''DELETE-FILE'', ''LIST-FILES'', ''LIST'', ''READ'', ''WRITE'', ''LIST-PROGRAMS'', ''LIST-VARS'',
      ''DUMP-STACK'', ''SYSTEM'', ''ABOUT'', ''HELP-LIST'', ''HELP-EDIT'']"

definition trimTrailingAsciiWs :: "string \<Rightarrow> string" where
  "trimTrailingAsciiWs s = rev (dropWhile (\<lambda>c. c \<in> {CR, LF, SP, TAB}) (rev s))"

definition firstLineFromRecordBody :: "string \<Rightarrow> string" where
  "firstLineFromRecordBody body = trimTrailingAsciiWs (takeWhile (\<lambda>c. c \<noteq> LF) body)"

definition findAccountRow :: "GeminiAccountRow list \<Rightarrow> string \<Rightarrow> GeminiAccountRow option" where
  "findAccountRow accounts accountName = find (\<lambda>a. iequalsAscii (acct_name a) accountName) accounts"

fun invalid_row :: "nat \<Rightarrow> GeminiAccountRow list \<Rightarrow> string option" where
  "invalid_row i [] = None"
| "invalid_row i (a # as) =
     (if acct_name a = [] then Some (''Invalid ACCOUNTS.json: account row missing name (index '' @ show_nat i @ '').'')
      else if acct_root a = [] then Some (''Invalid ACCOUNTS.json: account row missing root (index '' @ show_nat i @ '').'')
      else invalid_row (Suc i) as)"

definition firstInvalidAccountRowReason :: "GeminiAccountRow list \<Rightarrow> string option" where
  "firstInvalidAccountRowReason accounts = invalid_row 0 accounts"

definition reservedLogonToken :: "string \<Rightarrow> bool" where
  "reservedLogonToken token \<longleftrightarrow> upperCopy token \<in> set kReservedLoginNames"

definition logon_name :: "string \<Rightarrow> string option" where
  "logon_name token = (if \<not> isValidName token \<or> reservedLogonToken token then None else Some token)"

definition private_fs :: "path \<Rightarrow> FileSystem" where
  "private_fs p = \<lparr>root = p, hasLockTable = False, lockSessionId = []\<rparr>"

definition readAutoLogonAccountIdFromMd :: "host \<Rightarrow> world \<Rightarrow> path \<Rightarrow> string option result" where
  "readAutoLogonAccountIdFromMd h w pickRoot =
     (case readFS h (private_fs pickRoot) w ''MD'' ''AUTO-LOGON'' of
        Inr None \<Rightarrow> Inr None
      | Inr (Some rec) \<Rightarrow>
          (let accountToken = firstLineFromRecordBody (recValue rec) in Inr (if accountToken = [] then None else logon_name accountToken))
      | Inl (FileSystemError _) \<Rightarrow> Inr None
      | Inl e \<Rightarrow> Inl e)"

text \<open>The values of \<open>GEMINI_AUTO_LOGON\<close> and \<open>GEMINI_AUTO_LOGIN\<close>.\<close>

definition readAutoLogonAccountIdFromEnv :: "string option \<Rightarrow> string option \<Rightarrow> string option" where
  "readAutoLogonAccountIdFromEnv auto_logon auto_login =
     (let acc = (if auto_logon = None \<or> auto_logon = Some [] then auto_login else auto_logon)
      in case acc of None \<Rightarrow> None | Some tok \<Rightarrow> if tok = [] then None else logon_name tok)"

definition parseSingleUsernameLine :: "string \<Rightarrow> string option" where
  "parseSingleUsernameLine line = (case words_of line of [tok] \<Rightarrow> logon_name tok | _ \<Rightarrow> None)"

section \<open>Authentication\<close>

text \<open>\<open>catalogRoot / root\<close> and \<open>lexically_normal\<close> on paths of components.\<close>

fun normalize :: "path \<Rightarrow> path \<Rightarrow> path" where
  "normalize acc [] = rev acc"
| "normalize acc (c # cs) =
     (if c = [] \<or> c = ''.'' then normalize acc cs
      else if c = ''..'' \<and> acc \<noteq> [] \<and> hd acc \<noteq> ''..'' then normalize (tl acc) cs
      else normalize (c # acc) cs)"

definition account_path :: "path \<Rightarrow> string \<Rightarrow> path" where
  "account_path catalogRoot rel =
     (let cs = split_on CHR ''/'' rel in normalize [] (if rel \<noteq> [] \<and> hd rel = CHR ''/'' then cs else catalogRoot @ cs))"

text \<open>A password is asked for and compared unless the account has none or a placeholder.\<close>

definition needs_password :: "GeminiAccountRow \<Rightarrow> bool" where
  "needs_password acct \<longleftrightarrow> (case passwordHash acct of None \<Rightarrow> False | Some hash \<Rightarrow> \<not> passwordPlaceholderSkipsVerify hash)"

text \<open>The user, or the text for the error stream.  \<open>exists\<close> of the standard library throws when it cannot tell.\<close>

definition authenticateAccount :: "(string \<Rightarrow> json option) \<Rightarrow> host \<Rightarrow> disk \<Rightarrow> path \<Rightarrow> string \<Rightarrow> string \<Rightarrow> (string + UserSession) result" where
  "authenticateAccount parse_json h d catalogRoot accountName password =
     (let accountsPath = catalogRoot @ [''ACCOUNTS.json'']; failed = (\<lambda>t. Inr (Inl (t @ [LF])))
      in if host_fails h Exists accountsPath then Inl (RuntimeError ''filesystem error: cannot get status'')
         else if \<not> fs_exists h d accountsPath then failed ''ACCOUNTS.json not found.''
         else case loadAccounts parse_json h d accountsPath of
                None \<Rightarrow> failed ''Invalid ACCOUNTS.json.''
              | Some accounts \<Rightarrow>
                  (case firstInvalidAccountRowReason accounts of
                     Some rowError \<Rightarrow> failed rowError
                   | None \<Rightarrow>
                       (case findAccountRow accounts accountName of
                          None \<Rightarrow> failed ''Unknown account.''
                        | Some acct \<Rightarrow>
                            if needs_password acct \<and> password = [] then failed ''Password required.''
                            else if needs_password acct \<and> Some password \<noteq> passwordHash acct then failed ''Login failed.''
                            else let pickRoot = account_path catalogRoot (acct_root acct)
                                 in if \<not> fs_is_directory h d pickRoot then failed (''Account path not found: '' @ path_string pickRoot)
                                    else if \<not> fs_is_directory h d (pickRoot @ [''VOC''])
                                    then failed (''Account path has no VOC: '' @ path_string pickRoot)
                                    else Inr (Inr \<lparr>user_catalogRoot = catalogRoot, user_pickRoot = pickRoot, user_name = acct_name acct,
                                           user_account = acct_name acct, user_whoPort = 0, user_no = ''0''\<rparr>))))"

text \<open>The line after the name, where the account needs one: \<open>None\<close> at the end of the input.\<close>

definition readPasswordLineIfAccountRequires :: "GeminiAccountRow option \<Rightarrow> (GeminiSession, string option) action" where
  "readPasswordLineIfAccountRequires acctRow =
     (case acctRow of
        None \<Rightarrow> retS (Some [])
      | Some acct \<Rightarrow>
          if \<not> needs_password acct then retS (Some [])
          else bindS (in_runtime readInputLine) (\<lambda>line. retS (map_option trimTrailingAsciiWs line)))"

definition login_incorrect :: session_action where
  "login_incorrect = gs_say (''Login incorrect'' @ [LF])"

text \<open>The user if the account and password are right, with the end of the line on the output.\<close>

definition authenticateAccountAndSealStdout ::
    "(string \<Rightarrow> json option) \<Rightarrow> host \<Rightarrow> path \<Rightarrow> string \<Rightarrow> string \<Rightarrow> (GeminiSession, UserSession option) action" where
  "authenticateAccountAndSealStdout parse_json h catalogRoot accountName password =
     bindS (from_files (\<lambda>fs w. authenticateAccount parse_json h (disk w) catalogRoot accountName password)) (\<lambda>r.
       case r of
         Inl _ \<Rightarrow> retS None
       | Inr u \<Rightarrow> bindS (gs_say [LF]) (\<lambda>_. retS (Some u)))"

section \<open>The dialogue\<close>

definition accounts_of :: "(string \<Rightarrow> json option) \<Rightarrow> host \<Rightarrow> path \<Rightarrow> (GeminiSession, GeminiAccountRow list option) action" where
  "accounts_of parse_json h catalogRoot =
     from_files (\<lambda>fs w. Inr (loadAccounts parse_json h (disk w) (catalogRoot @ [''ACCOUNTS.json''])))"

text \<open>
  One round of \<open>runConsoleLogin\<close> after the line with the name: \<open>None\<close> asks again, \<open>Some None\<close> is the end of the input.
\<close>

definition login_round :: "(string \<Rightarrow> json option) \<Rightarrow> host \<Rightarrow> path \<Rightarrow> string \<Rightarrow> (GeminiSession, UserSession option option) action" where
  "login_round parse_json h catalogRoot line =
     (let again = bindS login_incorrect (\<lambda>_. retS None)
      in case parseSingleUsernameLine (trimTrailingAsciiWs line) of
           None \<Rightarrow> again
         | Some accountName \<Rightarrow>
             bindS (accounts_of parse_json h catalogRoot) (\<lambda>accounts.
               case accounts of
                 None \<Rightarrow> again
               | Some as \<Rightarrow>
                   (case findAccountRow as accountName of
                      None \<Rightarrow> again
                    | Some acct \<Rightarrow>
                        bindS (readPasswordLineIfAccountRequires (Some acct)) (\<lambda>password.
                          case password of
                            None \<Rightarrow> retS (Some None)
                          | Some pw \<Rightarrow>
                              bindS (authenticateAccountAndSealStdout parse_json h catalogRoot accountName pw) (\<lambda>u.
                                case u of None \<Rightarrow> again | Some x \<Rightarrow> retS (Some (Some x)))))))"

lemma consumes_round [consumes_rules]: "consumes gs_input (login_round parse_json h catalogRoot line)"
  unfolding login_round_def Let_def login_incorrect_def accounts_of_def authenticateAccountAndSealStdout_def readPasswordLineIfAccountRequires_def
  by (auto intro!: consumes_rules split: option.split sum.split)

function runConsoleLogin :: "(string \<Rightarrow> json option) \<Rightarrow> host \<Rightarrow> path \<Rightarrow> (GeminiSession, UserSession option) action" where
  "runConsoleLogin parse_json h catalogRoot s =
     (case in_runtime readInputLine (snd (gs_say ''LOGON PLEASE: '' s)) of
        (Inl e, t) \<Rightarrow> (Inl e, t)
      | (Inr None, t) \<Rightarrow> (Inr None, t)
      | (Inr (Some line), t) \<Rightarrow>
          (case login_round parse_json h catalogRoot line t of
             (Inl e, u) \<Rightarrow> (Inl e, u)
           | (Inr (Some r), u) \<Rightarrow> (Inr r, u)
           | (Inr None, u) \<Rightarrow> runConsoleLogin parse_json h catalogRoot u))"
  by auto

termination
proof (relation "measure (length \<circ> gs_input \<circ> snd \<circ> snd \<circ> snd)", goal_cases)
  case (2 parse_json h catalogRoot s p t q line v u)
  then have "in_runtime readInputLine (snd (gs_say ''LOGON PLEASE: '' s)) = (Inr (Some line), t)"
    "login_round parse_json h catalogRoot line t = (Inr None, u)" by simp_all
  from line_shorter [OF this(1)] consumesD [OF consumes_round this(2)] show ?case by (simp add: gs_say_def gs_input_def)
qed simp

declare runConsoleLogin.simps [simp del]

datatype CatalogLoginPhase = ColdStartPortInit | InteractiveOnly

definition auto_login :: "(string \<Rightarrow> json option) \<Rightarrow> host \<Rightarrow> path \<Rightarrow> string \<Rightarrow> (GeminiSession, UserSession option option) action" where
  "auto_login parse_json h catalogRoot autoName =
     bindS (gs_say (''LOGON PLEASE: '' @ autoName @ [LF])) (\<lambda>_.
     bindS (accounts_of parse_json h catalogRoot) (\<lambda>accountsList.
     bindS (readPasswordLineIfAccountRequires (case accountsList of None \<Rightarrow> None | Some as \<Rightarrow> findAccountRow as autoName)) (\<lambda>password.
       case password of
         None \<Rightarrow> retS (Some None)
       | Some pw \<Rightarrow>
           bindS (authenticateAccountAndSealStdout parse_json h catalogRoot autoName pw) (\<lambda>u.
             case u of
               Some x \<Rightarrow> retS (Some (Some x))
             | None \<Rightarrow> bindS login_incorrect (\<lambda>_. retS None)))))"

definition runCatalogLogin :: "(string \<Rightarrow> json option) \<Rightarrow> host \<Rightarrow> string option \<Rightarrow> string option \<Rightarrow> path \<Rightarrow> path \<Rightarrow> CatalogLoginPhase \<Rightarrow>
    (GeminiSession, UserSession option) action" where
  "runCatalogLogin parse_json h auto_logon auto_login_var catalogRoot pickRoot phase =
     bindS (if phase \<noteq> ColdStartPortInit then retS None
            else bindS (from_files (\<lambda>fs w. readAutoLogonAccountIdFromMd h w pickRoot)) (\<lambda>md.
                 case (case md of Some n \<Rightarrow> Some n | None \<Rightarrow> readAutoLogonAccountIdFromEnv auto_logon auto_login_var) of
                   None \<Rightarrow> retS None
                 | Some autoName \<Rightarrow> auto_login parse_json h catalogRoot autoName)) (\<lambda>r.
       case r of Some u \<Rightarrow> retS u | None \<Rightarrow> runConsoleLogin parse_json h catalogRoot)"

section \<open>Who gets in\<close>

text \<open>The user of an account whose directory is there, with a vocabulary.\<close>

definition account_user :: "host \<Rightarrow> disk \<Rightarrow> path \<Rightarrow> GeminiAccountRow \<Rightarrow> UserSession \<Rightarrow> bool" where
  "account_user h d catalogRoot acct u \<longleftrightarrow>
     (let p = account_path catalogRoot (acct_root acct)
      in fs_is_directory h d p \<and> fs_is_directory h d (p @ [''VOC'']) \<and>
         u = \<lparr>user_catalogRoot = catalogRoot, user_pickRoot = p, user_name = acct_name acct, user_account = acct_name acct, user_whoPort = 0, user_no = ''0''\<rparr>)"

definition lines_left :: "GeminiSession \<Rightarrow> string list" where
  "lines_left s = getlines LF (gs_input s)"

lemma getlines_step:
  assumes "s \<noteq> []"
  shows "getlines LF s = takeWhile (\<lambda>c. c \<noteq> LF) s # getlines LF (drop 1 (dropWhile (\<lambda>c. c \<noteq> LF) s))"
proof (cases "LF \<in> set s")
  case True
  then obtain a b where "s = a @ LF # b" "LF \<notin> set a" by (meson split_list_first)
  then show ?thesis by (simp add: getlines_cons takeWhile_append dropWhile_append)
next
  case False
  then have tw: "takeWhile (\<lambda>c. c \<noteq> LF) s = s" and dw: "dropWhile (\<lambda>c. c \<noteq> LF) s = []" by (auto simp: takeWhile_eq_all_conv)
  show ?thesis unfolding tw dw using assms False by (simp add: getlines_no_delim)
qed

text \<open>Reading a line takes the first of the lines left and changes nothing else.\<close>

lemma line_read:
  "in_runtime readInputLine s = (Inr (Some l), t) \<Longrightarrow> lines_left s = l # lines_left t \<and> gs_world t = gs_world s"
  using getlines_step [of "inStream (gs_runtime s)"]
  by (auto simp: in_runtime_def readInputLine_def lines_left_def gs_input_def gs_world_def split: if_splits)

lemma lines_left_simps [simp]:
  "lines_left (snd (gs_say t s)) = lines_left s" "gs_world (snd (gs_say t s)) = gs_world s" "gs_input (snd (gs_say t s)) = gs_input s"
  by (simp_all add: gs_say_def lines_left_def gs_input_def gs_world_def)

lemma again_eq: "bindS login_incorrect (\<lambda>_. retS None) s = (Inr None, snd (gs_say (''Login incorrect'' @ [LF]) s))"
  by (simp add: login_incorrect_def bindS_def gs_say_def)

lemma loaded_hash: "loadAccounts pj h d p = Some as \<Longrightarrow> a \<in> set as \<Longrightarrow> passwordHash a \<noteq> Some []"
proof -
  assume l: "loadAccounts pj h d p = Some as" and a: "a \<in> set as"
  have "those xs = Some ys \<Longrightarrow> y \<in> set ys \<Longrightarrow> Some y \<in> set xs" for xs and ys :: "GeminiAccountRow list" and y
    by (induction xs arbitrary: ys) (auto split: option.splits)
  then obtain row where "account_row row = Some a"
    using l a by (fastforce simp: loadAccounts_def split: if_splits option.splits node.splits json.splits)
  then show ?thesis by (auto simp: account_row_def json_hash_def split: option.splits json.splits if_splits)
qed

lemma authenticate_user:
  assumes "authenticateAccount pj h d cat name pw = Inr (Inr u)"
  shows "\<exists>as acct. loadAccounts pj h d (cat @ [''ACCOUNTS.json'']) = Some as \<and> findAccountRow as name = Some acct \<and>
    account_user h d cat acct u \<and> (needs_password acct \<longrightarrow> passwordHash acct = Some pw)"
  using assms by (auto simp: authenticateAccount_def account_user_def Let_def split: if_splits option.splits)

lemma authenticate_world:
  "authenticateAccountAndSealStdout pj h cat name pw s = (Inr (Some u), t) \<Longrightarrow>
    authenticateAccount pj h (disk (gs_world s)) cat name pw = Inr (Inr u) \<and> gs_world t = gs_world s \<and> lines_left t = lines_left s"
  "authenticateAccountAndSealStdout pj h cat name pw s = (Inr None, t) \<Longrightarrow> gs_world t = gs_world s \<and> lines_left t = lines_left s"
  by (auto simp: authenticateAccountAndSealStdout_def bindS_def from_files_def gs_say_def gs_world_def lines_left_def gs_input_def
      split: sum.splits)

text \<open>What a logon says about the input: a line with the name, and the password on the next where there is one.\<close>

definition logon :: "(string \<Rightarrow> json option) \<Rightarrow> host \<Rightarrow> disk \<Rightarrow> path \<Rightarrow> string list \<Rightarrow> UserSession \<Rightarrow> string list \<Rightarrow> bool" where
  "logon pj h d cat ls u rest \<longleftrightarrow>
     (\<exists>line name as acct. parseSingleUsernameLine (trimTrailingAsciiWs line) = Some name \<and>
        loadAccounts pj h d (cat @ [''ACCOUNTS.json'']) = Some as \<and> findAccountRow as name = Some acct \<and> account_user h d cat acct u \<and>
        (if needs_password acct then \<exists>pw. ls = line # pw # rest \<and> passwordHash acct = Some (trimTrailingAsciiWs pw) else ls = line # rest))"

lemma password_line:
  assumes "readPasswordLineIfAccountRequires (Some acct) s = (Inr (Some pw), t)"
  shows "gs_world t = gs_world s" "if needs_password acct then \<exists>l. lines_left s = l # lines_left t \<and> pw = trimTrailingAsciiWs l else lines_left t = lines_left s"
  using assms by (auto simp: readPasswordLineIfAccountRequires_def bindS_def dest!: line_read split: if_splits prod.splits sum.splits)

lemma bind_from_files: "bindS (from_files q) k s = (case q (gs_fileSystem s) (gs_world s) of Inl e \<Rightarrow> (Inl e, s) | Inr x \<Rightarrow> k x s)"
  by (simp add: bindS_def from_files_def split: sum.split)

text \<open>The round, case by case.\<close>

lemma login_round_eq:
  "login_round pj h cat line s =
    (case parseSingleUsernameLine (trimTrailingAsciiWs line) of
       None \<Rightarrow> (Inr None, snd (gs_say (''Login incorrect'' @ [LF]) s))
     | Some name \<Rightarrow>
         (case loadAccounts pj h (disk (gs_world s)) (cat @ [''ACCOUNTS.json'']) of
            None \<Rightarrow> (Inr None, snd (gs_say (''Login incorrect'' @ [LF]) s))
          | Some as \<Rightarrow>
              (case findAccountRow as name of
                 None \<Rightarrow> (Inr None, snd (gs_say (''Login incorrect'' @ [LF]) s))
               | Some acct \<Rightarrow>
                   (case readPasswordLineIfAccountRequires (Some acct) s of
                      (Inl e, s1) \<Rightarrow> (Inl e, s1)
                    | (Inr None, s1) \<Rightarrow> (Inr (Some None), s1)
                    | (Inr (Some pw), s1) \<Rightarrow>
                        (case authenticateAccountAndSealStdout pj h cat name pw s1 of
                           (Inl e, s2) \<Rightarrow> (Inl e, s2)
                         | (Inr None, s2) \<Rightarrow> (Inr None, snd (gs_say (''Login incorrect'' @ [LF]) s2))
                         | (Inr (Some u), s2) \<Rightarrow> (Inr (Some (Some u)), s2))))))"
  by (auto simp: login_round_def Let_def accounts_of_def again_eq bind_from_files bindS_def [of "readPasswordLineIfAccountRequires _"]
      bindS_def [of "authenticateAccountAndSealStdout _ _ _ _ _"] split: option.split prod.split sum.split)

lemma login_round_user:
  assumes "login_round pj h cat line s = (Inr (Some (Some u)), t)"
  shows "logon pj h (disk (gs_world s)) cat (line # lines_left s) u (lines_left t) \<and> gs_world t = gs_world s"
proof -
  obtain name as acct pw s1 where n: "parseSingleUsernameLine (trimTrailingAsciiWs line) = Some name"
    "loadAccounts pj h (disk (gs_world s)) (cat @ [''ACCOUNTS.json'']) = Some as" "findAccountRow as name = Some acct"
    and pw: "readPasswordLineIfAccountRequires (Some acct) s = (Inr (Some pw), s1)"
    and au: "authenticateAccountAndSealStdout pj h cat name pw s1 = (Inr (Some u), t)"
    using assms by (auto simp: login_round_eq split: option.splits prod.splits sum.splits)
  have w: "gs_world s1 = gs_world s" by (rule password_line(1) [OF pw])
  from authenticate_user [OF authenticate_world(1) [OF au, THEN conjunct1]] n(2,3)
  have "account_user h (disk (gs_world s)) cat acct u" "needs_password acct \<longrightarrow> passwordHash acct = Some pw" by (auto simp: w)
  then show ?thesis using n password_line(2) [OF pw] authenticate_world(1) [OF au] w unfolding logon_def by (auto split: if_splits)
qed

lemma login_round_again:
  assumes "login_round pj h cat line s = (Inr None, t)"
  shows "gs_world t = gs_world s \<and> (\<exists>pre. lines_left s = pre @ lines_left t)"
proof -
  consider (told) "t = snd (gs_say (''Login incorrect'' @ [LF]) s)"
    | (wrong) name acct pw s1 s2 where "readPasswordLineIfAccountRequires (Some acct) s = (Inr (Some pw), s1)"
        "authenticateAccountAndSealStdout pj h cat name pw s1 = (Inr None, s2)" "t = snd (gs_say (''Login incorrect'' @ [LF]) s2)"
    using assms by (auto simp: login_round_eq simp del: append.simps split: option.splits prod.splits sum.splits)
  then show ?thesis
  proof cases
    case wrong
    then show ?thesis using password_line [OF wrong(1)] authenticate_world(2) [OF wrong(2)] by (auto split: if_splits intro: exI [of _ "[_]"])
  qed (auto simp del: append.simps)
qed

lemma console_login_user:
  assumes "runConsoleLogin pj h cat s = (Inr (Some u), t)"
  shows "gs_world t = gs_world s \<and> (\<exists>pre ls. lines_left s = pre @ ls \<and> logon pj h (disk (gs_world s)) cat ls u (lines_left t))"
  using assms
proof (induction pj h cat s rule: runConsoleLogin.induct)
  case (1 pj h cat s)
  let ?s = "snd (gs_say ''LOGON PLEASE: '' s)"
  obtain line s1 where l: "in_runtime readInputLine ?s = (Inr (Some line), s1)"
    using 1(2) by (subst (asm) runConsoleLogin.simps) (auto split: prod.splits sum.splits option.splits)
  have s1: "lines_left s = line # lines_left s1" "gs_world s1 = gs_world s" using line_read [OF l] by simp_all
  obtain r s2 where r: "login_round pj h cat line s1 = (r, s2)" by (cases "login_round pj h cat line s1")
  show ?case
  proof (cases "r = Inr None")
    case True
    then have "runConsoleLogin pj h cat s2 = (Inr (Some u), t)" using 1(2) l r by (subst (asm) runConsoleLogin.simps) simp
    then have "gs_world t = gs_world s2 \<and> (\<exists>pre ls. lines_left s2 = pre @ ls \<and> logon pj h (disk (gs_world s2)) cat ls u (lines_left t))"
      using 1(1) l r True by (metis old.prod.inject)
    then show ?thesis using login_round_again [of pj h cat line s1 s2] r True s1 by (metis append_Cons append_assoc)
  next
    case False
    then have "r = Inr (Some (Some u)) \<and> s2 = t"
      using 1(2) l r by (subst (asm) runConsoleLogin.simps) (auto split: sum.splits option.splits)
    then show ?thesis using login_round_user [of pj h cat line s1 u t] r s1 by (metis append_Nil)
  qed
qed

lemma next_line:
  assumes "lines_left s = l # r"
  shows "\<exists>t. in_runtime readInputLine s = (Inr (Some l), t) \<and> lines_left t = r \<and> gs_world t = gs_world s"
proof -
  have "inStream (gs_runtime s) \<noteq> []" using assms by (auto simp: lines_left_def gs_input_def)
  then obtain l' t where t: "in_runtime readInputLine s = (Inr (Some l'), t)" by (simp add: in_runtime_def readInputLine_def)
  with line_read [OF t] assms show ?thesis by auto
qed

lemma authenticate_succeeds:
  assumes "loadAccounts pj h d (cat @ [''ACCOUNTS.json'']) = Some as" "firstInvalidAccountRowReason as = None" "findAccountRow as name = Some acct"
    and "account_user h d cat acct u" "needs_password acct \<longrightarrow> passwordHash acct = Some pw" "\<forall>x p. \<not> host_fails h x p"
  shows "authenticateAccount pj h d cat name pw = Inr (Inr u)"
proof -
  have "acct \<in> set as" using assms(3) by (auto simp: findAccountRow_def find_Some_iff)
  then have "needs_password acct \<longrightarrow> pw \<noteq> []" using loaded_hash [OF assms(1)] assms(5) by auto
  moreover have "fs_exists h d (cat @ [''ACCOUNTS.json''])"
    using assms(1,6) by (auto simp: loadAccounts_def fs_exists_def split: option.splits)
  ultimately show ?thesis using assms by (auto simp: authenticateAccount_def account_user_def Let_def)
qed

lemma logon_at_once:
  assumes "logon pj h (disk (gs_world s)) cat (lines_left s) u rest" and ok: "\<forall>x p. \<not> host_fails h x p"
    and rows: "\<forall>as. loadAccounts pj h (disk (gs_world s)) (cat @ [''ACCOUNTS.json'']) = Some as \<longrightarrow> firstInvalidAccountRowReason as = None"
  shows "\<exists>t. runConsoleLogin pj h cat s = (Inr (Some u), t) \<and> lines_left t = rest"
proof -
  let ?s = "snd (gs_say ''LOGON PLEASE: '' s)"
  obtain line name as acct where n: "parseSingleUsernameLine (trimTrailingAsciiWs line) = Some name"
    "loadAccounts pj h (disk (gs_world s)) (cat @ [''ACCOUNTS.json'']) = Some as" "findAccountRow as name = Some acct"
    "account_user h (disk (gs_world s)) cat acct u"
    and ls: "if needs_password acct then \<exists>pw. lines_left s = line # pw # rest \<and> passwordHash acct = Some (trimTrailingAsciiWs pw) else lines_left s = line # rest"
    using assms(1) by (auto simp: logon_def)
  then obtain more where "lines_left ?s = line # more"
    and m: "if needs_password acct then \<exists>pw. more = pw # rest \<and> passwordHash acct = Some (trimTrailingAsciiWs pw) else more = rest"
    by (auto split: if_splits)
  from next_line [OF this(1)] obtain s1 where s1: "in_runtime readInputLine ?s = (Inr (Some line), s1)" "lines_left s1 = more" "gs_world s1 = gs_world s"
    by auto
  obtain pw s2 where s2: "readPasswordLineIfAccountRequires (Some acct) s1 = (Inr (Some pw), s2)" "lines_left s2 = rest" "gs_world s2 = gs_world s"
    "needs_password acct \<longrightarrow> passwordHash acct = Some pw"
  proof (cases "needs_password acct")
    case True
    then obtain l where "lines_left s1 = l # rest" "passwordHash acct = Some (trimTrailingAsciiWs l)" using m s1(2) by auto
    with next_line [OF this(1)] s1(3) show thesis using True that [of "trimTrailingAsciiWs l"]
      by (auto simp: readPasswordLineIfAccountRequires_def bindS_def)
  next
    case False
    then show thesis using m s1 that [of "[]" s1] by (simp add: readPasswordLineIfAccountRequires_def)
  qed
  have "authenticateAccount pj h (disk (gs_world s)) cat name pw = Inr (Inr u)"
    using authenticate_succeeds [OF n(2) _ n(3,4) s2(4) ok] rows n(2) by simp
  then obtain t where t: "authenticateAccountAndSealStdout pj h cat name pw s2 = (Inr (Some u), t)"
    by (simp add: authenticateAccountAndSealStdout_def bindS_def from_files_def s2(3) gs_say_def)
  then have "login_round pj h cat line s1 = (Inr (Some (Some u)), t)" using n s1(3) s2(1) by (simp add: login_round_eq)
  then have "runConsoleLogin pj h cat s = (Inr (Some u), t)" using s1(1) by (subst runConsoleLogin.simps) simp
  then show ?thesis using authenticate_world(1) [OF t] s2(2) by simp
qed

text \<open>
  C31.  Nobody gets in without the password.  If the logon dialogue delivers a user, then among the lines it read stands one with the name of an account
  of the catalogue and, unless the account has no password or a placeholder for one, the next line is that password; the user is the
  one of this account, whose directory exists and has a vocabulary.  Exactly the lines behind these are left for the shell, and the
  records and locks are as before.  Conversely a name with its password on the first lines logs on at once.
\<close>

theorem logon_needs_password:
  "(runConsoleLogin pj h cat s = (Inr (Some u), t) \<longrightarrow>
      gs_world t = gs_world s \<and> (\<exists>pre ls. lines_left s = pre @ ls \<and> logon pj h (disk (gs_world s)) cat ls u (lines_left t))) \<and>
   (logon pj h (disk (gs_world s)) cat (lines_left s) u rest \<and> (\<forall>x p. \<not> host_fails h x p) \<and>
      (\<forall>as. loadAccounts pj h (disk (gs_world s)) (cat @ [''ACCOUNTS.json'']) = Some as \<longrightarrow> firstInvalidAccountRowReason as = None) \<longrightarrow>
      (\<exists>t. runConsoleLogin pj h cat s = (Inr (Some u), t) \<and> lines_left t = rest))"
  using console_login_user logon_at_once by blast

text \<open>A catalogue with one account; the parser knows its text.\<close>

definition demo_catalogue :: string where
  "demo_catalogue = ''demo''"

definition demo_json :: "string \<Rightarrow> json option" where
  "demo_json t =
     (if t = demo_catalogue
      then Some (JObject [(''accounts'', JArray [JObject [(''name'', JString ''SALES''), (''root'', JString ''accounts/SALES''), (''passwordHash'', JString ''secret'')]])])
      else None)"

definition logon_session :: GeminiSession where
  "logon_session =
     fresh_session\<lparr>gs_runtime := (gs_runtime fresh_session)\<lparr>
       vmWorld := \<lparr>disk = [([''cat'', ''ACCOUNTS.json''], File demo_catalogue), ([''cat'', ''accounts'', ''SALES''], Dir), ([''cat'', ''accounts'', ''SALES'', ''VOC''], Dir)],
         lock_table = [], now = 0\<rparr>,
       inStream := ''sales'' @ [LF] @ ''secret '' @ [LF] @ ''WHO'' @ [LF]\<rparr>\<rparr>"

theorem logon_needs_password_witness:
  "\<exists>t u. runConsoleLogin demo_json good_host [''cat''] logon_session = (Inr (Some u), t) \<and> user_account u = ''SALES'' \<and> lines_left t = [''WHO''] \<and>
    gs_world t = gs_world logon_session"
proof -
  let ?u = "\<lparr>user_catalogRoot = [''cat''], user_pickRoot = [''cat'', ''accounts'', ''SALES''], user_name = ''SALES'', user_account = ''SALES'',
    user_whoPort = 0, user_no = ''0''\<rparr>"
  let ?a = "\<lparr>acct_name = ''SALES'', acct_root = ''accounts/SALES'', passwordHash = Some ''secret''\<rparr>"
  have l: "loadAccounts demo_json good_host (disk (gs_world logon_session)) ([''cat''] @ [''ACCOUNTS.json'']) = Some [?a]" by code_simp
  have "parseSingleUsernameLine (trimTrailingAsciiWs ''sales'') = Some ''sales''" "findAccountRow [?a] ''sales'' = Some ?a"
    "account_user good_host (disk (gs_world logon_session)) [''cat''] ?a ?u" "needs_password ?a"
    "lines_left logon_session = [''sales'', ''secret '', ''WHO'']" "trimTrailingAsciiWs ''secret '' = ''secret''" by code_simp+
  then have "logon demo_json good_host (disk (gs_world logon_session)) [''cat''] (lines_left logon_session) ?u [''WHO'']"
    unfolding logon_def using l by fastforce
  moreover have "firstInvalidAccountRowReason [?a] = None" by code_simp
  ultimately obtain t where t: "runConsoleLogin demo_json good_host [''cat''] logon_session = (Inr (Some ?u), t)" "lines_left t = [''WHO'']"
    using logon_needs_password [of demo_json good_host "[''cat'']" logon_session ?u logon_session "[''WHO'']"] l by auto
  then have "gs_world t = gs_world logon_session"
    using logon_needs_password [of demo_json good_host "[''cat'']" logon_session ?u t "[''WHO'']"] by blast
  with t show ?thesis by fastforce
qed

end
