(* ===== verification/Help.thy ===== *)
theory Help
  imports Login
begin

text \<open>
  The help topics (\<open>HelpTopics.cpp\<close>): a topic is a record of the file \<open>HELP\<close> of the account, else of the system account, else one of the built-in
  texts.  A topic of several words is stored under the words joined with underscores.
\<close>

definition dash :: string where
  "dash = [CHR 0xE2, CHR 0x80, CHR 0x94]"

definition kBuiltinHelpTopicHelp :: string where
  "kBuiltinHelpTopicHelp = ''HELP [topic...]  Type HELP-LIST for topics.  See docs/tcl-shell.md.'' @ [LF]"

definition kEnglishFormattingClausesHelp :: string where
  "kEnglishFormattingClausesHelp =
     ''  Formatting clauses (any position after verb/file):'' @ [LF] @
     ''    HEADING '' @ [DQ] @ ''text'' @ [DQ] @ ''  FOOTING '' @ [DQ] @ ''text'' @ [DQ, SP] @ dash @ '' @DATE @TIME @PAGE @<n>'' @ [LF] @
     ''    BREAK-ON <field>  TOTAL <field>  ID-SUPP'' @ [LF] @
     ''  FOOTING once at end without HEADING; per-page with HEADING + PAGE-LENGTH'' @ [LF] @
     ''  Pagination: SET PAGE-LENGTH n | GET PAGE-LENGTH (when HEADING present)'' @ [LF] @
     ''  See docs/english-formatting.md'' @ [LF]"

text \<open>Words with one blank between them, none in front and none behind.\<close>

fun collapse :: "bool \<Rightarrow> string \<Rightarrow> string \<Rightarrow> string" where
  "collapse inSpace written [] = written"
| "collapse inSpace written (c # cs) =
     (if isspace c then collapse True written cs
      else collapse False (written @ (if inSpace \<and> written \<noteq> [] then [SP] else []) @ [c]) cs)"

definition trimCollapseAsciiSpace :: "string \<Rightarrow> string" where
  "trimCollapseAsciiSpace s = collapse False [] s"

definition tryReadHelpRecordBody :: "host \<Rightarrow> FileSystem \<Rightarrow> world \<Rightarrow> string \<Rightarrow> string option result" where
  "tryReadHelpRecordBody h fs w storageId =
     (case readFS h fs w ''HELP'' storageId of
        Inr r \<Rightarrow> Inr (map_option recValue r)
      | Inl (FileSystemError _) \<Rightarrow> Inr None
      | Inl e \<Rightarrow> Inl e)"

text \<open>\<open>canonical\<close> stands for \<open>weakly_canonical\<close>, which follows links of the host and may fail.\<close>

definition filesystemRootsAreEquivalent :: "(path \<Rightarrow> path option) \<Rightarrow> path \<Rightarrow> path \<Rightarrow> bool" where
  "filesystemRootsAreEquivalent canonical a b =
     (case (canonical a, canonical b) of (Some ca, Some cb) \<Rightarrow> ca = cb | _ \<Rightarrow> a = b)"

definition joinOperandsDisplay :: "string list \<Rightarrow> nat \<Rightarrow> string" where
  "joinOperandsDisplay tokens operandStart = joinTokens (drop operandStart tokens)"

definition canonicalTopicKey :: "host \<Rightarrow> string list \<Rightarrow> nat \<Rightarrow> (GeminiSession, string) action" where
  "canonicalTopicKey h tokens operandStart =
     (if length tokens \<le> operandStart then retS []
      else if length tokens - operandStart = 1
      then bindS (in_voc (\<lambda>fs w. resolveVerbName h fs w (tokens ! operandStart))) (\<lambda>resolved. retS (upperCopy resolved))
      else retS (upperCopy (trimCollapseAsciiSpace (joinOperandsDisplay tokens operandStart))))"

definition storageRecordIdFromCanonical :: "string \<Rightarrow> string" where
  "storageRecordIdFromCanonical key = map (\<lambda>c. if c = SP then CHR ''_'' else c) key"

definition canonicalTopicFromStorageRecordId :: "string \<Rightarrow> string" where
  "canonicalTopicFromStorageRecordId storageId = map (\<lambda>c. if c = CHR ''_'' then SP else c) storageId"

definition builtinHelpBodies :: "(string \<times> string) list" where
  "builtinHelpBodies =
     [(''HELP'', kBuiltinHelpTopicHelp), (''VERSION'', ''VERSION'' @ [LF]), (''SYSTEM'', ''SYSTEM'' @ [LF]), (''ABOUT'', ''ABOUT'' @ [LF]),
      (''WHO'', ''WHO'' @ [LF]), (''ECHO'', ''ECHO <text...>'' @ [LF]), (''SET'', ''SET <name> <words...>'' @ [LF]),
      (''GET'', ''GET <name>'' @ [LF]), (''LIST-VARS'', ''LIST-VARS'' @ [LF]), (''UNSET'', ''UNSET <name>'' @ [LF]),
      (''LOGTO'', ''LOGTO <account>'' @ [LF]), (''LOGOFF'', ''LOGOFF'' @ [LF]), (''BASIC'', ''BASIC [name]'' @ [LF]),
      (''ASM'', ''ASM [name]'' @ [LF]), (''RUN'', ''RUN <name>'' @ [LF]),
      (''PROC'', ''HELP PROC'' @ [LF] @ ''  PROC <name> [args...]'' @ [LF] @
         ''  Host PROC interpreter with R83 aliases and long-form command support.'' @ [LF] @
         ''  See docs/proc.md for full statement and substitution semantics.'' @ [LF]),
      (''LIST-PROGRAMS'', ''LIST-PROGRAMS'' @ [LF]), (''CREATE-FILE'', ''CREATE-FILE <name>'' @ [LF]),
      (''DELETE-FILE'', ''DELETE-FILE <name>'' @ [LF]), (''LIST-FILES'', ''LIST-FILES'' @ [LF]),
      (''LIST'', ''HELP LIST'' @ [LF] @ ''  LIST <file> [fields... | WITH ...]'' @ [LF] @ kEnglishFormattingClausesHelp),
      (''COUNT'', ''COUNT <file> [fields...] | COUNT'' @ [LF]),
      (''SELECT'', ''HELP SELECT'' @ [LF] @ ''  SELECT <file> [fields...]'' @ [LF] @ kEnglishFormattingClausesHelp),
      (''SORT'', ''HELP SORT'' @ [LF] @ ''  SORT <file> [fields...] BY <field> [BY-DSND ...]'' @ [LF] @ kEnglishFormattingClausesHelp),
      (''LIST-LIST'', ''LIST-LIST'' @ [LF]), (''CLEAR-LIST'', ''CLEAR-LIST'' @ [LF]),
      (''RESOLVE-FIELD'', ''RESOLVE-FIELD <data-file> <field-token>'' @ [LF] @
         ''  Resolves A-, F-, and I-type DICT items; invalid F/I rows show Validity INVALID.'' @ [LF]),
      (''DEFINE-FIELD'', ''DEFINE-FIELD <dict-file> <field-name> <attribute-number>'' @ [LF]),
      (''LIST-DICT'', ''LIST-DICT <dict-file>'' @ [LF] @ ''  Lists DICT items sorted by id: <id> <type> VALID|INVALID.'' @ [LF]),
      (''CREATE-VOC'', ''CREATE-VOC <item-id> <type> <target...>'' @ [LF]), (''DELETE-VOC'', ''DELETE-VOC <item-id>'' @ [LF]),
      (''LIST-VOC'', ''LIST-VOC'' @ [LF]), (''READ'', ''READ <file> <record-name>'' @ [LF]),
      (''READU'', ''READU <file> <record-name>'' @ [LF] @ ''  Acquire a READU lock then read (same output as READ).'' @ [LF]),
      (''WRITE'', ''WRITE <file> <record-name> <value...>'' @ [LF]),
      (''WRITEU'', ''WRITEU <file> <record-name> <value...>'' @ [LF] @ ''  Acquire a WRITEU lock then write (same behaviour as WRITE).'' @ [LF]),
      (''RELEASE'', ''RELEASE <file> <record-name>'' @ [LF] @ ''  Release a record lock held by this session.'' @ [LF]),
      (''EDIT'', ''EDIT <file> <record> | EDIT <programName>'' @ [LF]), (''DUMP-STACK'', ''DUMP-STACK'' @ [LF]), (''QUIT'', ''QUIT'' @ [LF]),
      (''TCL'', ''HELP TCL'' @ [LF] @ ''  Tcl host shell command surface and tokenization behavior.'' @ [LF] @
         ''  Use HELP <command> for specific command usage.'' @ [LF] @ ''  See docs/tcl-shell.md for full shell semantics.'' @ [LF]),
      (''VOC'', ''HELP VOC'' @ [LF] @ ''  CREATE-VOC <item-id> <type> <target...>'' @ [LF] @ ''  DELETE-VOC <item-id>'' @ [LF] @ ''  LIST-VOC'' @ [LF]),
      (''HELP-LIST'', ''HELP-LIST'' @ [LF]), (''HELP-EDIT'', ''HELP-EDIT <topic...>'' @ [LF])]"

definition resolveHelpBody :: "host \<Rightarrow> (path \<Rightarrow> path option) \<Rightarrow> GeminiSession \<Rightarrow> string \<Rightarrow> string option result" where
  "resolveHelpBody h canonical s key =
     (let storageId = storageRecordIdFromCanonical key; w = gs_world s; pickRoot = root (gs_fileSystem s)
      in bindE (tryReadHelpRecordBody h (gs_fileSystem s) w storageId) (\<lambda>local.
           if local \<noteq> None then Inr local
           else bindE (case geminiCatalogRoot s of
                         None \<Rightarrow> Inr None
                       | Some cat \<Rightarrow>
                           (let systemPickRoot = cat @ [''accounts'', ''SYSPROG'']
                            in if filesystemRootsAreEquivalent canonical pickRoot systemPickRoot then Inr None
                               else tryReadHelpRecordBody h (private_fs systemPickRoot) w storageId)) (\<lambda>sys.
                  Inr (if sys \<noteq> None then sys else map_of builtinHelpBodies key))))"

definition listCanonicalHelpTopicsSorted :: "host \<Rightarrow> FileSystem \<Rightarrow> world \<Rightarrow> string list" where
  "listCanonicalHelpTopicsSorted h fs w =
     (case listRecordNames h fs w ''HELP'' of
        Inl _ \<Rightarrow> []
      | Inr storageIds \<Rightarrow> remdups_adj (sort (map canonicalTopicFromStorageRecordId storageIds)))"

section \<open>Laws\<close>

lemma words_of_Nil: "words_of [] = []"
  by (simp add: words_of_def)

lemma words_of_Cons:
  "words_of (c # cs) =
    (if isspace c then words_of cs
     else if cs = [] \<or> isspace (hd cs) then [c] # words_of cs
     else (c # hd (words_of cs)) # tl (words_of cs))"
proof (cases "isspace c")
  case True
  then show ?thesis by (simp add: words_of_def)
next
  case False
  then have c: "c \<noteq> SP" using isspace_blank by auto
  obtain p ps where ps: "split_on SP (map (\<lambda>c. if isspace c then SP else c) cs) = p # ps" by (metis list.exhaust split_on_not_Nil)
  have "p = [] \<longleftrightarrow> cs = [] \<or> isspace (hd cs)"
    using ps by (cases cs) (auto split: list.splits if_splits)
  then show ?thesis using False c ps by (auto simp: words_of_def)
qed

text \<open>The pass that moves the characters down computes the words of the text, one blank apart.\<close>

lemma collapse_words:
  "collapse b written s =
    (if words_of s = [] then written
     else written @ (if written \<noteq> [] \<and> (b \<or> isspace (hd s)) then [SP] else []) @ joinTokens (words_of s))"
proof (induction b written s rule: collapse.induct)
  case (1 inSpace written)
  then show ?case by (simp add: words_of_def)
next
  case (2 inSpace written c cs)
  show ?case
  proof (cases "isspace c")
    case True
    then show ?thesis using 2 by (simp add: words_of_Cons)
  next
    case False
    show ?thesis
    proof (cases "cs = [] \<or> isspace (hd cs)")
      case True
      then show ?thesis using False 2 by (cases "words_of cs") (auto simp: words_of_Cons joinTokens_def words_of_Nil)
    next
      case f: False
      then obtain d ds where cs: "cs = d # ds" "\<not> isspace d" by (cases cs) auto
      then obtain w ws where w: "words_of cs = w # ws" by (cases "words_of cs") (simp_all add: words_of_Cons split: if_splits)
      then show ?thesis using False f 2 cs by (cases ws) (auto simp: words_of_Cons [of c] joinTokens_def)
    qed
  qed
qed

text \<open>
  A help topic is found however it is typed: the key of a topic of several words does not depend on case or on the blanks between the words,
  and the record id it is stored under gives the topic back in the list of topics, as long as the words contain no underscore.
\<close>

theorem help_topic_key:
  "trimCollapseAsciiSpace s = joinTokens (words_of s) \<and>
   (words_of s = words_of t \<longrightarrow> trimCollapseAsciiSpace s = trimCollapseAsciiSpace t) \<and>
   (CHR ''_'' \<notin> set key \<longrightarrow> canonicalTopicFromStorageRecordId (storageRecordIdFromCanonical key) = key)"
proof -
  have eq: "trimCollapseAsciiSpace x = joinTokens (words_of x)" for x
    by (auto simp: trimCollapseAsciiSpace_def collapse_words joinTokens_def)
  have "canonicalTopicFromStorageRecordId (storageRecordIdFromCanonical key) = key" if "CHR ''_'' \<notin> set key"
    using that by (auto simp: canonicalTopicFromStorageRecordId_def storageRecordIdFromCanonical_def intro!: map_idI)
  with eq show ?thesis by simp
qed

theorem help_topic_key_witness:
  "trimCollapseAsciiSpace ''  PAGE   LENGTH '' = ''PAGE LENGTH'' \<and>
   canonicalTopicFromStorageRecordId (storageRecordIdFromCanonical ''PAGE LENGTH'') = ''PAGE LENGTH''"
proof -
  have "words_of ''  PAGE   LENGTH '' = [''PAGE'', ''LENGTH'']" "words_of ''PAGE LENGTH'' = [''PAGE'', ''LENGTH'']"
    "joinTokens [''PAGE'', ''LENGTH''] = ''PAGE LENGTH''" "CHR ''_'' \<notin> set ''PAGE LENGTH''" by code_simp+
  then show ?thesis
    using help_topic_key [of "''  PAGE   LENGTH ''" "''PAGE LENGTH''" "''PAGE LENGTH''"] by simp
qed

end
