(* ===== verification/Editor.thy ===== *)
theory Editor
  imports Proc_Host Basic_Shell_Laws
begin

text \<open>
  The line editor for records (\<open>LineRecordEditor.cpp\<close>): a buffer of lines that commands list, insert into, replace in and delete from, and
  that \<open>SAVE\<close> writes to the record.  The commands and the lines to insert come from one input stream, that of the session.
\<close>

record LineRecordEditor =
  ed_fileName :: string
  ed_recordKey :: string
  ed_lines :: "string list"
  ed_session :: GeminiSession

type_synonym editor_action = "(LineRecordEditor, unit) action"

definition ed_say :: "string \<Rightarrow> editor_action" where
  "ed_say t ed = (Inr (), ed\<lparr>ed_session := snd (gs_say t (ed_session ed))\<rparr>)"

definition ed_input :: "LineRecordEditor \<Rightarrow> string" where
  "ed_input ed = inStream (gs_runtime (ed_session ed))"

definition set_input :: "string \<Rightarrow> LineRecordEditor \<Rightarrow> LineRecordEditor" where
  "set_input t ed = ed\<lparr>ed_session := (ed_session ed)\<lparr>gs_runtime := (gs_runtime (ed_session ed))\<lparr>inStream := t\<rparr>\<rparr>\<rparr>"

definition ed_in_session :: "(GeminiSession, 'a) action \<Rightarrow> (LineRecordEditor, 'a) action" where
  "ed_in_session a ed = (case a (ed_session ed) of (r, s) \<Rightarrow> (r, ed\<lparr>ed_session := s\<rparr>))"

section \<open>Words and numbers\<close>

definition joinLines :: "string list \<Rightarrow> string" where
  "joinLines ls = join_with LF ls"

definition tokenizeWs :: "string \<Rightarrow> string list" where
  "tokenizeWs line = words_of line"

definition trimAscii :: "string \<Rightarrow> string" where
  "trimAscii t = strip isspace t"

definition canonicalCommand :: "string \<Rightarrow> string" where
  "canonicalCommand token =
     (let u = upperCopy token
      in if u = ''L'' then ''LIST''
         else if u = ''I'' then ''INSERT''
         else if u = ''R'' then ''REPLACE''
         else if u = ''D'' then ''DELETE''
         else if u = ''FI'' then ''SAVE''
         else if u = ''Q'' then ''QUIT''
         else u)"

definition positiveInt :: "string \<Rightarrow> int option" where
  "positiveInt token = (case stoi token of Inr (value, _) \<Rightarrow> if 0 < value then Some value else None | Inl _ \<Rightarrow> None)"

text \<open>The first and the last line of the range, if the words are right.\<close>

definition parseListRangeTokens :: "string list \<Rightarrow> (int \<times> int) option" where
  "parseListRangeTokens tokens =
     (if length tokens = 1 then Some (1, int_max)
      else if length tokens \<noteq> 2 then None
      else let arg = tokens ! 1
           in if CHR ''-'' \<notin> set arg then map_option (\<lambda>n. (n, n)) (positiveInt arg)
              else case (positiveInt (takeWhile (\<lambda>c. c \<noteq> CHR ''-'') arg), positiveInt (tl (dropWhile (\<lambda>c. c \<noteq> CHR ''-'') arg))) of
                     (Some a, Some b) \<Rightarrow> if a \<le> b then Some (a, b) else None
                   | _ \<Rightarrow> None)"

section \<open>Commands\<close>

fun list_from :: "int \<Rightarrow> int \<Rightarrow> int \<Rightarrow> string list \<Rightarrow> string" where
  "list_from i a b [] = []"
| "list_from i a b (l # ls) =
     (if i < a \<or> b < i then [] else show_int i @ (if l = [] then [] else SP # l) @ [LF]) @ list_from (i + 1) a b ls"

definition ed_list :: "string list \<Rightarrow> editor_action" where
  "ed_list tokens =
     (case parseListRangeTokens tokens of
        None \<Rightarrow> ed_say (''LIST takes no args, LIST <line>, or LIST <start-end>'' @ [LF])
      | Some (a, b) \<Rightarrow> bindS (getS ed_lines) (\<lambda>ls. ed_say (list_from 1 a b ls)))"

text \<open>The lines up to one that is a period, whether there is one, and the rest of the input.\<close>

function read_block :: "string \<Rightarrow> string list \<times> bool \<times> string" where
  "read_block s =
     (if s = [] then ([], False, [])
      else let line = takeWhile (\<lambda>c. c \<noteq> LF) s; rest = drop 1 (dropWhile (\<lambda>c. c \<noteq> LF) s)
           in if trimAscii line = ''.'' then ([], True, rest)
              else case read_block rest of (block, found, r) \<Rightarrow> (line # block, found, r))"
  by auto

termination
  by (relation "measure length") (auto intro: rest_shorter [simplified])

declare read_block.simps [simp del]

definition readPeriodTerminatedBlock :: "(LineRecordEditor, string list option) action" where
  "readPeriodTerminatedBlock =
     bindS (getS (read_block \<circ> ed_input)) (\<lambda>(block, found, rest).
     bindS (updS (set_input rest)) (\<lambda>_.
       if found then retS (Some block)
       else bindS (ed_say (''Unexpected end of input during INSERT/REPLACE'' @ [LF])) (\<lambda>_. retS None)))"

text \<open>Puts the block in front of the line with the index.\<close>

definition insert_block :: "nat \<Rightarrow> string list \<Rightarrow> string list \<Rightarrow> string list" where
  "insert_block i block ls = take i ls @ block @ drop i ls"

definition ed_insert :: "string list \<Rightarrow> editor_action" where
  "ed_insert tokens =
     bindS (getS (length \<circ> ed_lines)) (\<lambda>size.
       let insert_at = (\<lambda>i. bindS readPeriodTerminatedBlock (\<lambda>b.
             case b of None \<Rightarrow> retS () | Some block \<Rightarrow> updS (\<lambda>ed. ed\<lparr>ed_lines := insert_block i block (ed_lines ed)\<rparr>)))
       in if 2 < length tokens then ed_say (''INSERT takes no line number or one line number'' @ [LF])
          else if length tokens \<noteq> 2 then insert_at size
          else case positiveInt (tokens ! 1) of
                 None \<Rightarrow> ed_say (''INSERT requires a positive line number'' @ [LF])
               | Some afterLine \<Rightarrow>
                   if afterLine < 1 \<or> int size < afterLine then ed_say (''No such line'' @ [LF])
                   else insert_at (nat afterLine))"

definition ed_replace :: "string list \<Rightarrow> editor_action" where
  "ed_replace tokens =
     bindS (getS (length \<circ> ed_lines)) (\<lambda>size.
       if length tokens \<noteq> 2 then ed_say (''REPLACE requires a line number'' @ [LF])
       else case positiveInt (tokens ! 1) of
              None \<Rightarrow> ed_say (''REPLACE requires a line number'' @ [LF])
            | Some lineNo \<Rightarrow>
                if lineNo < 1 \<or> int size < lineNo then ed_say (''No such line'' @ [LF])
                else bindS readPeriodTerminatedBlock (\<lambda>b.
                  case b of
                    None \<Rightarrow> retS ()
                  | Some block \<Rightarrow>
                      if block = [] then ed_say (''REPLACE requires at least one line before '' @ [CHR 0x27, CHR ''.'', CHR 0x27, LF])
                      else updS (\<lambda>ed. ed\<lparr>ed_lines :=
                             (let idx = nat (lineNo - 1); erased = take idx (ed_lines ed) @ drop (Suc idx) (ed_lines ed)
                              in insert_block idx block erased)\<rparr>)))"

definition ed_delete :: "string list \<Rightarrow> editor_action" where
  "ed_delete tokens =
     bindS (getS (length \<circ> ed_lines)) (\<lambda>size.
       if length tokens \<noteq> 2 then ed_say (''DELETE requires a line number'' @ [LF])
       else case positiveInt (tokens ! 1) of
              None \<Rightarrow> ed_say (''DELETE requires a line number'' @ [LF])
            | Some lineNo \<Rightarrow>
                if lineNo < 1 \<or> int size < lineNo then ed_say (''No such line'' @ [LF])
                else updS (\<lambda>ed. ed\<lparr>ed_lines := take (nat (lineNo - 1)) (ed_lines ed) @ drop (nat lineNo) (ed_lines ed)\<rparr>))"

text \<open>Whether the file is there now, having been created where it was not.\<close>

definition ensureFileExistsForWrite :: "host \<Rightarrow> (LineRecordEditor, bool) action" where
  "ensureFileExistsForWrite h =
     (let failed = (\<lambda>e. bindS (ed_say (''Error: '' @ error_what e @ [LF])) (\<lambda>_. retS False))
      in bindS (getS ed_fileName) (\<lambda>f.
         catching (bindS (ed_in_session (from_files (\<lambda>fs w. openFile h fs w f))) (\<lambda>_. retS True))
           (\<lambda>openError. case openError of
              FileSystemError t \<Rightarrow>
                Some (if \<not> prefix ''File not found: '' t then failed openError
                      else catching (bindS (ed_in_session (in_files (\<lambda>fs. createFile h fs f))) (\<lambda>_. retS True))
                             (\<lambda>e. if is_std_exception e then Some (failed e) else None))
            | _ \<Rightarrow> None)))"

text \<open>The hook after a write is a change of the vocabulary, which is what the shell passes.\<close>

definition ed_save :: "host \<Rightarrow> (string \<Rightarrow> VocResolver \<Rightarrow> VocResolver) option \<Rightarrow> editor_action" where
  "ed_save h postWrite =
     bindS (ensureFileExistsForWrite h) (\<lambda>ok.
       if \<not> ok then retS ()
       else bindS (getS (\<lambda>ed. (ed_fileName ed, ed_recordKey ed, joinLines (ed_lines ed)))) (\<lambda>(f, k, payload).
            ed_in_session (reporting
              (bindS (in_files (\<lambda>fs. writeFS h fs f (mkRecord k payload))) (\<lambda>_.
                 case postWrite of None \<Rightarrow> retS () | Some hook \<Rightarrow> updS (\<lambda>s. s\<lparr>gs_voc := hook f (gs_voc s)\<rparr>))))))"

definition em_dash :: string where
  "em_dash = [SP, CHR 0xE2, CHR 0x80, CHR 0x94, SP]"

definition quoted_period :: string where
  "quoted_period = [CHR 0x27, CHR ''.'', CHR 0x27]"

definition ed_help_text :: string where
  "ed_help_text =
     ''LIST (L)'' @ em_dash @ ''list lines; optional LIST <line> or LIST <start-end>'' @ [LF] @
     ''INSERT (I)'' @ em_dash @ ''optional line number, then lines until '' @ quoted_period @ '' alone'' @ [LF] @
     ''REPLACE (R)'' @ em_dash @ ''line number, then lines until '' @ quoted_period @ '' alone'' @ [LF] @
     ''DELETE (D)'' @ em_dash @ ''line number'' @ [LF] @
     ''SAVE (FI)'' @ em_dash @ ''write buffer to record'' @ [LF] @
     ''QUIT (Q)'' @ em_dash @ ''exit without saving'' @ [LF]"

section \<open>The command loop\<close>

definition ed_command :: "host \<Rightarrow> (string \<Rightarrow> VocResolver \<Rightarrow> VocResolver) option \<Rightarrow> string list \<Rightarrow> editor_action" where
  "ed_command h postWrite tokens =
     (let cmd = canonicalCommand (tokens ! 0)
      in if cmd = ''SAVE'' then ed_save h postWrite
         else if cmd = ''HELP'' then ed_say ed_help_text
         else if cmd = ''LIST'' then ed_list tokens
         else if cmd = ''INSERT'' then ed_insert tokens
         else if cmd = ''REPLACE'' then ed_replace tokens
         else if cmd = ''DELETE'' then ed_delete tokens
         else ed_say (''Unknown command: '' @ tokens ! 0 @ [LF]))"

lemma consumes_editor [consumes_rules]: "consumes ed_input (ed_say t)" "consumes ed_input (updS (\<lambda>ed. ed\<lparr>ed_lines := g ed\<rparr>))"
  by (simp_all add: consumes_def ed_say_def ed_input_def gs_say_def)

lemma consumes_in_session [consumes_rules]: "consumes gs_input a \<Longrightarrow> consumes ed_input (ed_in_session a)"
  unfolding consumes_def [of ed_input] ed_in_session_def ed_input_def
  by (auto split: prod.split dest: consumesD simp: gs_input_def [symmetric])

lemma read_block_shorter: "length (snd (snd (read_block s))) \<le> length s"
proof (induction s rule: read_block.induct)
  case (1 s)
  show ?case
  proof (cases "s = []")
    case False
    then show ?thesis using 1 rest_shorter [of s "\<lambda>c. c \<noteq> LF"]
      by (subst read_block.simps) (fastforce simp: Let_def split: prod.split)
  qed (simp add: read_block.simps)
qed

lemma ed_input_set [simp]: "ed_input (set_input t ed) = t"
  by (simp add: ed_input_def set_input_def)

lemma consumes_block [consumes_rules]: "consumes ed_input readPeriodTerminatedBlock"
  unfolding consumes_def readPeriodTerminatedBlock_def
  using read_block_shorter by (auto simp: bindS_def ed_say_def gs_say_def ed_input_def set_input_def split: prod.split) (metis snd_conv)+

lemma consumes_command [consumes_rules]: "consumes ed_input (ed_command h post tokens)"
proof -
  have "consumes ed_input (ed_save h post)"
    unfolding ed_save_def ensureFileExistsForWrite_def Let_def
    by (intro consumes_rules | auto intro!: consumes_rules split: if_splits error.splits option.split prod.split)+
  moreover have "consumes ed_input (ed_insert tokens)" "consumes ed_input (ed_replace tokens)" "consumes ed_input (ed_delete tokens)" "consumes ed_input (ed_list tokens)"
    unfolding ed_insert_def ed_replace_def ed_delete_def ed_list_def Let_def
    by (auto intro!: consumes_rules split: if_split option.split prod.split)
  ultimately show ?thesis by (simp add: ed_command_def Let_def consumes_rules)
qed

lemma ed_input_say [simp]: "ed_input (snd (ed_say t ed)) = ed_input ed"
  by (simp add: ed_say_def ed_input_def gs_say_def)

function ed_loop :: "host \<Rightarrow> (string \<Rightarrow> VocResolver \<Rightarrow> VocResolver) option \<Rightarrow> editor_action" where
  "ed_loop h postWrite ed0 =
     (let ed = snd (ed_say ''ED> '' ed0); s = ed_input ed
      in if s = [] then (Inr (), ed)
         else let tokens = tokenizeWs (takeWhile (\<lambda>c. c \<noteq> LF) s);
                  ed' = set_input (drop 1 (dropWhile (\<lambda>c. c \<noteq> LF) s)) ed
              in if tokens = [] then ed_loop h postWrite ed'
                 else if canonicalCommand (tokens ! 0) = ''QUIT'' then (Inr (), ed')
                 else case ed_command h postWrite tokens ed' of
                        (Inl e, t) \<Rightarrow> (Inl e, t)
                      | (Inr _, t) \<Rightarrow> ed_loop h postWrite t)"
  by auto

termination
proof (relation "measure (length \<circ> ed_input \<circ> snd \<circ> snd)", goal_cases)
  case (3 h post ed0 ed s tokens ed' r t u)
  then have "length (ed_input t) \<le> length (ed_input ed')"
    using consumes_command [of h post tokens] unfolding consumes_def by (metis snd_conv)
  then show ?case using 3 rest_shorter [of s "\<lambda>c. c \<noteq> LF"] by simp
qed (use rest_shorter in auto)

declare ed_loop.simps [simp del]

definition runEditor :: "host \<Rightarrow> (string \<Rightarrow> VocResolver \<Rightarrow> VocResolver) option \<Rightarrow> int option \<Rightarrow> editor_action" where
  "runEditor h postWrite highlight =
     bindS (getS (length \<circ> ed_lines)) (\<lambda>size.
     bindS (case highlight of
              Some row \<Rightarrow> if 1 \<le> row \<and> row \<le> int size then ed_list [''LIST'', show_int row] else retS ()
            | None \<Rightarrow> retS ()) (\<lambda>_. ed_loop h postWrite))"

text \<open>Where the shell starts the editor: the lines of the record, or none, and the reload of the vocabulary after a write to it.\<close>

definition voc_hook :: "string \<Rightarrow> VocResolver \<Rightarrow> VocResolver" where
  "voc_hook f v = (if f = ''VOC'' then invalidate v else v)"

definition runLineRecordEditorForLocation :: "host \<Rightarrow> string \<Rightarrow> string \<Rightarrow> int option \<Rightarrow> session_action" where
  "runLineRecordEditorForLocation h f k highlight s =
     (case readFS h (gs_fileSystem s) (gs_world s) f k of
        Inl e \<Rightarrow> if is_std_exception e then gs_say (''Error: '' @ error_what e @ [LF]) s else (Inl e, s)
      | Inr rec \<Rightarrow>
          (case runEditor h (Some voc_hook) highlight
                  \<lparr>ed_fileName = f, ed_recordKey = k,
                   ed_lines = (case rec of None \<Rightarrow> [] | Some r \<Rightarrow> getlines LF (recValue r)), ed_session = s\<rparr> of
             (r, ed) \<Rightarrow> (r, ed_session ed)))"

section \<open>What an editing session does\<close>

text \<open>The edits a user can make, the lines that make them, and what they do to the buffer.\<close>

datatype edit = InsertEnd "string list" | InsertAfter int "string list" | ReplaceLine int "string list" | DeleteLine int

fun edit_text :: "edit \<Rightarrow> string list" where
  "edit_text (InsertEnd block) = ''I'' # block @ [''.'']"
| "edit_text (InsertAfter n block) = joinTokens [''I'', show_int n] # block @ [''.'']"
| "edit_text (ReplaceLine n block) = joinTokens [''R'', show_int n] # block @ [''.'']"
| "edit_text (DeleteLine n) = [joinTokens [''D'', show_int n]]"

fun apply_edit :: "edit \<Rightarrow> string list \<Rightarrow> string list" where
  "apply_edit (InsertEnd block) ls = ls @ block"
| "apply_edit (InsertAfter n block) ls = take (nat n) ls @ block @ drop (nat n) ls"
| "apply_edit (ReplaceLine n block) ls = take (nat (n - 1)) ls @ block @ drop (nat n) ls"
| "apply_edit (DeleteLine n) ls = take (nat (n - 1)) ls @ drop (nat n) ls"

definition block_ok :: "string list \<Rightarrow> bool" where
  "block_ok block \<longleftrightarrow> list_all (\<lambda>l. LF \<notin> set l \<and> trimAscii l \<noteq> ''.'') block"

definition line_of :: "int \<Rightarrow> string list \<Rightarrow> bool" where
  "line_of n ls \<longleftrightarrow> 1 \<le> n \<and> n \<le> int (length ls) \<and> n \<le> int_max"

fun edit_ok :: "edit \<Rightarrow> string list \<Rightarrow> bool" where
  "edit_ok (InsertEnd block) ls = block_ok block"
| "edit_ok (InsertAfter n block) ls = (line_of n ls \<and> block_ok block)"
| "edit_ok (ReplaceLine n block) ls = (line_of n ls \<and> block_ok block \<and> block \<noteq> [])"
| "edit_ok (DeleteLine n) ls = line_of n ls"

fun edits_ok :: "edit list \<Rightarrow> string list \<Rightarrow> bool" where
  "edits_ok [] ls = True"
| "edits_ok (e # es) ls = (edit_ok e ls \<and> edits_ok es (apply_edit e ls))"

definition text_of :: "string list \<Rightarrow> string" where
  "text_of ls = concat (map (\<lambda>l. l @ [LF]) ls)"

lemma text_of_simps [simp]: "text_of [] = []" "text_of (l # ls) = l @ LF # text_of ls" "text_of (ls @ ms) = text_of ls @ text_of ms"
  by (simp_all add: text_of_def)

lemma line_split [simp]:
  "LF \<notin> set l \<Longrightarrow> takeWhile (\<lambda>c. c \<noteq> LF) (l @ LF # r) = l" "LF \<notin> set l \<Longrightarrow> dropWhile (\<lambda>c. c \<noteq> LF) (l @ LF # r) = LF # r"
  by (induction l) auto

lemma read_block_text: "block_ok block \<Longrightarrow> read_block (text_of block @ CHR ''.'' # LF # rest) = (block, True, rest)"
proof (induction block)
  case Nil
  have "trimAscii ''.'' = ''.''" by code_simp
  then show ?case by (simp add: read_block.simps)
next
  case (Cons l ls)
  then show ?case by (subst read_block.simps) (simp add: block_ok_def)
qed

lemma positiveInt_show: "line_of n ls \<Longrightarrow> positiveInt (show_int n) = Some n"
  using stoi_show_int [of n "[]"] by (simp add: positiveInt_def line_of_def range_simps)

definition at_prompt :: "LineRecordEditor \<Rightarrow> LineRecordEditor" where
  "at_prompt ed = snd (ed_say ''ED> '' ed)"

lemma at_prompt_simps [simp]: "ed_input (at_prompt ed) = ed_input ed" "ed_lines (at_prompt ed) = ed_lines ed"
  by (simp_all add: at_prompt_def) (simp add: ed_say_def)

lemma set_input_simps [simp]: "ed_lines (set_input t ed) = ed_lines ed" "set_input t (set_input u ed) = set_input t ed"
  "(set_input t ed)\<lparr>ed_lines := ls\<rparr> = set_input t (ed\<lparr>ed_lines := ls\<rparr>)"
  by (simp_all add: set_input_def)

text \<open>One line of input at the prompt.\<close>

lemma ed_loop_line:
  assumes "ed_input ed = joinTokens ws @ LF # rest" "\<forall>w \<in> set ws. word_ok w" "ws \<noteq> []" "canonicalCommand (ws ! 0) \<noteq> ''QUIT''"
  shows "ed_loop h post ed =
    (case ed_command h post ws (set_input rest (at_prompt ed)) of (Inl e, t) \<Rightarrow> (Inl e, t) | (Inr _, t) \<Rightarrow> ed_loop h post t)"
proof -
  have "LF \<notin> set (joinTokens ws)" using joined_chars [OF assms(2), of LF] by auto
  then show ?thesis using assms words_of_join [OF assms(2)]
    by (subst ed_loop.simps) (simp add: at_prompt_def [symmetric] Let_def tokenizeWs_def)
qed

lemma ed_loop_quit:
  assumes "ed_input ed = CHR ''Q'' # LF # rest"
  shows "ed_loop h post ed = (Inr (), set_input rest (at_prompt ed))"
proof -
  have "tokenizeWs ''Q'' = [''Q'']" "canonicalCommand ''Q'' = ''QUIT''" by code_simp+
  then show ?thesis using assms by (subst ed_loop.simps) (simp add: at_prompt_def [symmetric] Let_def)
qed

lemma block_read:
  "block_ok block \<Longrightarrow> ed_input ed = text_of block @ CHR ''.'' # LF # rest \<Longrightarrow>
    readPeriodTerminatedBlock ed = (Inr (Some block), set_input rest ed)"
  by (simp add: readPeriodTerminatedBlock_def bindS_def read_block_text)

lemmas word_oks = word_ok_def isspace_def code_of_def

lemma edit_command:
  assumes ok: "edit_ok e (ed_lines ed)" and inp: "ed_input ed = text_of (edit_text e) @ rest"
  shows "ed_loop h post ed = ed_loop h post (set_input rest ((at_prompt ed)\<lparr>ed_lines := apply_edit e (ed_lines ed)\<rparr>))"
proof (cases e)
  case (InsertEnd block)
  let ?ed = "set_input (text_of block @ CHR ''.'' # LF # rest) (at_prompt ed)"
  have "ed_command h post [''I''] ?ed = (Inr (), set_input rest ((at_prompt ed)\<lparr>ed_lines := ed_lines ed @ block\<rparr>))"
    using ok InsertEnd block_read [of block ?ed rest]
    by (simp add: ed_command_def ed_insert_def canonicalCommand_def upperCopy_def toupper_def code_of_def bindS_def insert_block_def)
  then show ?thesis using inp InsertEnd ed_loop_line [of ed "[''I'']" "text_of block @ CHR ''.'' # LF # rest" h post]
    by (simp add: joinTokens_def word_oks canonicalCommand_def upperCopy_def toupper_def)
next
  case (InsertAfter n block)
  let ?ed = "set_input (text_of block @ CHR ''.'' # LF # rest) (at_prompt ed)"
  have "ed_command h post [''I'', show_int n] ?ed =
      (Inr (), set_input rest ((at_prompt ed)\<lparr>ed_lines := apply_edit e (ed_lines ed)\<rparr>))"
    using ok InsertAfter block_read [of block ?ed rest] positiveInt_show [of n "ed_lines ed"]
    by (simp add: ed_command_def ed_insert_def canonicalCommand_def upperCopy_def toupper_def code_of_def bindS_def insert_block_def line_of_def)
  then show ?thesis using inp ok InsertAfter ed_loop_line [of ed "[''I'', show_int n]" "text_of block @ CHR ''.'' # LF # rest" h post] show_int_word [of n]
    by (simp add: line_of_def) (simp add: word_oks canonicalCommand_def upperCopy_def toupper_def)
next
  case (ReplaceLine n block)
  let ?ed = "set_input (text_of block @ CHR ''.'' # LF # rest) (at_prompt ed)"
  have "min (length (ed_lines ed)) (nat (n - 1)) = nat (n - 1)" "Suc (nat (n - 1)) = nat n" using ok ReplaceLine by (auto simp: line_of_def)
  then have "ed_command h post [''R'', show_int n] ?ed =
      (Inr (), set_input rest ((at_prompt ed)\<lparr>ed_lines := apply_edit e (ed_lines ed)\<rparr>))"
    using ok ReplaceLine block_read [of block ?ed rest] positiveInt_show [of n "ed_lines ed"]
    by (simp add: ed_command_def ed_replace_def canonicalCommand_def upperCopy_def toupper_def code_of_def bindS_def insert_block_def line_of_def Let_def)
  then show ?thesis using inp ok ReplaceLine ed_loop_line [of ed "[''R'', show_int n]" "text_of block @ CHR ''.'' # LF # rest" h post] show_int_word [of n]
    by (simp add: line_of_def) (simp add: word_oks canonicalCommand_def upperCopy_def toupper_def)
next
  case (DeleteLine n)
  have "ed_command h post [''D'', show_int n] (set_input rest (at_prompt ed)) =
      (Inr (), set_input rest ((at_prompt ed)\<lparr>ed_lines := apply_edit e (ed_lines ed)\<rparr>))"
    using ok DeleteLine positiveInt_show [of n "ed_lines ed"]
    by (simp add: ed_command_def ed_delete_def canonicalCommand_def upperCopy_def toupper_def code_of_def bindS_def line_of_def)
  then show ?thesis using inp ok DeleteLine ed_loop_line [of ed "[''D'', show_int n]" rest h post] show_int_word [of n]
    by (simp add: line_of_def) (simp add: word_oks canonicalCommand_def upperCopy_def toupper_def)
qed

lemma at_prompt_commutes:
  "at_prompt (set_input t ed) = set_input t (at_prompt ed)" "at_prompt (ed\<lparr>ed_lines := ls\<rparr>) = (at_prompt ed)\<lparr>ed_lines := ls\<rparr>"
  by (simp_all add: at_prompt_def ed_say_def gs_say_def set_input_def)

lemma prompts_commute:
  "(at_prompt ^^ n) (set_input t ed) = set_input t ((at_prompt ^^ n) ed)"
  "(at_prompt ^^ n) (ed\<lparr>ed_lines := ls\<rparr>) = ((at_prompt ^^ n) ed)\<lparr>ed_lines := ls\<rparr>"
  by (induction n) (simp_all add: at_prompt_commutes)

lemma at_prompts:
  "(at_prompt ^^ n) ed = ed\<lparr>ed_session := snd (gs_say (concat (replicate n ''ED> '')) (ed_session ed))\<rparr>"
proof (induction n)
  case 0
  show ?case by (cases ed) (simp add: gs_say_def)
next
  case (Suc n)
  have "concat (replicate n s) @ s = s @ concat (replicate n s)" for s :: string by (induction n) simp_all
  then show ?case using Suc by (simp add: at_prompt_def ed_say_def gs_say_def del: append.simps)
qed

lemma edits_run:
  assumes "edits_ok es (ed_lines ed)" "ed_input ed = text_of (concat (map edit_text es)) @ rest"
  shows "ed_loop h post ed =
    ed_loop h post (set_input rest (((at_prompt ^^ length es) ed)\<lparr>ed_lines := fold apply_edit es (ed_lines ed)\<rparr>))"
  using assms
proof (induction es arbitrary: ed)
  case Nil
  then have "set_input rest (ed\<lparr>ed_lines := ed_lines ed\<rparr>) = ed" by (cases ed) (simp add: set_input_def ed_input_def)
  then show ?case by simp
next
  case (Cons e es)
  let ?rest = "text_of (concat (map edit_text es)) @ rest"
  let ?ed = "set_input ?rest ((at_prompt ed)\<lparr>ed_lines := apply_edit e (ed_lines ed)\<rparr>)"
  have "ed_loop h post ed = ed_loop h post ?ed" using Cons.prems by (intro edit_command) simp_all
  also have "\<dots> = ed_loop h post (set_input rest (((at_prompt ^^ length es) ?ed)\<lparr>ed_lines := fold apply_edit es (ed_lines ?ed)\<rparr>))"
    using Cons.prems by (intro Cons.IH) simp_all
  also have "(at_prompt ^^ length es) ?ed = set_input ?rest (((at_prompt ^^ Suc (length es)) ed)\<lparr>ed_lines := apply_edit e (ed_lines ed)\<rparr>)"
    by (simp add: prompts_commute funpow_swap1)
  finally show ?case by (simp add: funpow_swap1)
qed

lemma store_readable:
  assumes inv: "store_inv h fs w" and adm: "store_adm fs w f r"
  shows "readFS h fs w f r = Inr (map_option (mkRecord r) (store_get h fs w f r))"
proof -
  have o: "openFile h fs w f = Inr (file_handle fs f)" using assms by (rule store_adm_open)
  show ?thesis
  proof (cases "selectRecordPath h w (file_handle fs f) r")
    case None
    then have "readFS h fs w f r = Inr None" using adm o by (simp add: readFS_def readRecord_def store_adm_def)
    then show ?thesis by (simp add: store_get_def)
  next
    case (Some p)
    then obtain e where e: "record_ext e" "p = record_path (file_handle fs f) r e" "fs_exists h (disk w) p"
      using selectRecordPath_Some by blast
    then have "map_of (disk w) p \<noteq> Some Dir" "map_of (disk w) p \<noteq> None"
      using inv adm by (auto simp: store_inv_def store_adm_def record_shape_def record_path_def fs_exists_def)
    then obtain c where "map_of (disk w) p = Some (File c)" by (metis node.exhaust option.exhaust)
    then have "readFS h fs w f r = Inr (Some (mkRecord r c))"
      using readRecord_selected [of r fs w "file_handle fs f" h p c] Some adm inv o by (simp add: readFS_def store_adm_def store_inv_def)
    then show ?thesis by (simp add: store_get_def)
  qed
qed

lemma save_stores:
  assumes "store_inv h (gs_fileSystem (ed_session ed)) (gs_world (ed_session ed))"
    and "store_adm (gs_fileSystem (ed_session ed)) (gs_world (ed_session ed)) (ed_fileName ed) (ed_recordKey ed)"
  shows "ed_save h (Some voc_hook) ed =
    (Inr (), ed\<lparr>ed_session := (set_world (store_put h (gs_fileSystem (ed_session ed)) (gs_world (ed_session ed)) (ed_fileName ed) (ed_recordKey ed)
        (joinLines (ed_lines ed))) (ed_session ed))\<lparr>gs_voc := voc_hook (ed_fileName ed) (gs_voc (ed_session ed))\<rparr>\<rparr>)"
  using store_adm_open [OF assms] store_put_effect [OF assms, of "joinLines (ed_lines ed)"]
  by (cases ed) (simp add: ed_save_def ensureFileExistsForWrite_def bindS_def catching_def ed_in_session_def from_files_def in_files_def reporting_def
      set_world_def gs_world_def)

definition record_lines :: "host \<Rightarrow> GeminiSession \<Rightarrow> string \<Rightarrow> string \<Rightarrow> string list" where
  "record_lines h s f k = (case store_get h (gs_fileSystem s) (gs_world s) f k of None \<Rightarrow> [] | Some v \<Rightarrow> getlines LF v)"

text \<open>
  C32.  An editing session does what its edits say: started on a record, and fed with the commands for any sequence of insertions, replacements and
  deletions of existing lines, then \<open>FI\<close> and \<open>Q\<close>, the editor stores the edited lines of the record, leaves every other record as it
  was, has read exactly these lines of its input, prompts once for each command, and has the vocabulary read again when it was edited.
\<close>

theorem editing_stores_edits:
  fixes s :: GeminiSession
  defines "fs \<equiv> gs_fileSystem s" and "w \<equiv> gs_world s"
  assumes inv: "store_inv h fs w" and adm: "store_adm fs w f k"
    and ok: "edits_ok es (record_lines h s f k)"
    and inp: "inStream (gs_runtime s) = text_of (concat (map edit_text es) @ [''FI'', ''Q'']) @ rest"
  shows "\<exists>s'. runLineRecordEditorForLocation h f k None s = (Inr (), s') \<and>
    store_get h fs (gs_world s') f' k' =
      (if (f', k') = (f, k) then Some (joinLines (fold apply_edit es (record_lines h s f k))) else store_get h fs w f' k') \<and>
    inStream (gs_runtime s') = rest \<and>
    outStream (gs_runtime s') = outStream (gs_runtime s) @ concat (replicate (length es + 2) ''ED> '') \<and>
    gs_voc s' = voc_hook f (gs_voc s)"
proof -
  let ?ls = "record_lines h s f k"
  let ?ed = "\<lparr>ed_fileName = f, ed_recordKey = k, ed_lines = ?ls, ed_session = s\<rparr>"
  let ?v = "joinLines (fold apply_edit es ?ls)"
  let ?ed1 = "set_input (''FI'' @ LF # ''Q'' @ LF # rest) (((at_prompt ^^ length es) ?ed)\<lparr>ed_lines := fold apply_edit es ?ls\<rparr>)"
  let ?ed2 = "set_input (''Q'' @ LF # rest) (at_prompt ?ed1)"
  let ?ed3 = "?ed2\<lparr>ed_session := (set_world (store_put h fs w f k ?v) (ed_session ?ed2))\<lparr>gs_voc := voc_hook f (gs_voc s)\<rparr>\<rparr>"
  have save: "ed_save h (Some voc_hook) ?ed2 = (Inr (), ?ed3)"
    using inv adm by (subst save_stores) (simp_all add: set_input_def at_prompts at_prompt_def ed_say_def gs_say_def gs_world_def fs_def w_def)
  have lines: "(case map_option (mkRecord k) (store_get h fs w f k) of None \<Rightarrow> [] | Some r \<Rightarrow> getlines LF (recValue r)) = ?ls"
    by (simp add: record_lines_def fs_def w_def split: option.split)
  have start: "runLineRecordEditorForLocation h f k None s = (case ed_loop h (Some voc_hook) ?ed of (r, ed) \<Rightarrow> (r, ed_session ed))"
    using store_readable [OF inv adm] lines
    by (simp add: runLineRecordEditorForLocation_def runEditor_def fs_def w_def) (simp add: bindS_def)
  have "ed_loop h (Some voc_hook) ?ed = ed_loop h (Some voc_hook) ?ed1"
    using edits_run [of es ?ed "''FI'' @ LF # ''Q'' @ LF # rest" h "Some voc_hook"] ok inp by (simp add: ed_input_def)
  also have "\<dots> = ed_loop h (Some voc_hook) ?ed3"
    using ed_loop_line [of ?ed1 "[''FI'']" "''Q'' @ LF # rest" h "Some voc_hook"] save
    by (simp add: joinTokens_def word_oks canonicalCommand_def upperCopy_def toupper_def ed_command_def)
  also have "\<dots> = (Inr (), set_input rest (at_prompt ?ed3))" by (rule ed_loop_quit) (simp add: ed_input_def set_input_def set_world_def)
  finally have run: "runLineRecordEditorForLocation h f k None s = (Inr (), ed_session (set_input rest (at_prompt ?ed3)))"
    using start by simp
  have out: "concat (replicate n t) @ t = t @ concat (replicate n t)" for n and t :: string by (induction n) simp_all
  show ?thesis unfolding run using store_get_put [OF inv adm, of ?v f' k']
    by (auto simp: set_input_def at_prompts at_prompt_def ed_say_def gs_say_def set_world_def gs_world_def fs_def w_def out simp del: append.simps)
qed

text \<open>A line is added to the program \<open>HELLO\<close> and the first one deleted.\<close>

definition edit_session :: GeminiSession where
  "edit_session =
     fresh_session\<lparr>gs_runtime := (gs_runtime fresh_session)\<lparr>inStream :=
       ''I'' @ [LF] @ ''STOP'' @ [LF] @ ''.'' @ [LF] @ ''D 1'' @ [LF] @ ''FI'' @ [LF] @ ''Q'' @ [LF] @ ''WHO'' @ [LF]\<rparr>\<rparr>"

lemma fresh_store: "store_inv good_host (gs_fileSystem fresh_session) sample_world"
  using sample_store_inv [of "[]"] by (simp add: store_inv_def record_shape_def fresh_session_def clearLockContext_def)

theorem editing_stores_edits_witness:
  "\<exists>s'. runLineRecordEditorForLocation good_host ''BP'' ''HELLO'' None edit_session = (Inr (), s') \<and>
    store_get good_host (gs_fileSystem edit_session) (gs_world s') ''BP'' ''HELLO'' = Some ''STOP'' \<and>
    inStream (gs_runtime s') = ''WHO'' @ [LF]"
proof -
  have e: "gs_fileSystem edit_session = gs_fileSystem fresh_session" "gs_world edit_session = sample_world"
    by (simp_all add: edit_session_def fresh_session_def gs_world_def)
  have "store_adm (gs_fileSystem edit_session) (gs_world edit_session) ''BP'' ''HELLO''" by code_simp
  moreover have "record_lines good_host edit_session ''BP'' ''HELLO'' = [''PRINT 1'']" by code_simp
  moreover have "edits_ok [InsertEnd [''STOP''], DeleteLine 1] [''PRINT 1'']" by code_simp
  moreover have "inStream (gs_runtime edit_session) =
      text_of (concat (map edit_text [InsertEnd [''STOP''], DeleteLine 1]) @ [''FI'', ''Q'']) @ ''WHO'' @ [LF]" by code_simp
  moreover have "joinLines (fold apply_edit [InsertEnd [''STOP''], DeleteLine 1] [''PRINT 1'']) = ''STOP''" by code_simp
  ultimately show ?thesis
    using editing_stores_edits [of good_host edit_session "''BP''" "''HELLO''" "[InsertEnd [''STOP''], DeleteLine 1]" "''WHO'' @ [LF]" "''BP''" "''HELLO''"]
      fresh_store e by fastforce
qed

end
