(* ===== verification/Debugger.thy ===== *)
theory Debugger
  imports Editor
begin

text \<open>
  Running programs under the eyes of a user: single steps (\<open>VmDebugService.cpp\<close>), the debugger that a BASIC program falls into when it fails or is
  interrupted, with \<open>CHAIN\<close> to the next program (\<open>executeCompiledBasicProgram\<close> and its helpers in \<open>Shell.cpp\<close>), the command \<open>RUN\<close>
  of the TCL shell (\<open>cmdRun\<close>) and the assembler mode (\<open>AssemblerShell.cpp\<close>).  The signal handler is not modelled: the flag it sets is a field
  of the machine.
\<close>

text \<open>The state of the shell.\<close>

record Shell =
  sh_session :: GeminiSession
  asmActive :: bool
  basicActive :: bool
  basicProgram :: BasicProgram
  sessionEndRequested :: bool
  basicBreakpoints :: "int list"
  basicResumePastLine :: "int option"
  basicTrace :: bool
  procReadNextIndex :: nat

type_synonym shell_action = "(Shell, unit) action"

definition on_session :: "(GeminiSession, 'a) action \<Rightarrow> (Shell, 'a) action" where
  "on_session a s = (case a (sh_session s) of (r, g) \<Rightarrow> (r, s\<lparr>sh_session := g\<rparr>))"

definition sh_say :: "string \<Rightarrow> shell_action" where
  "sh_say t = on_session (gs_say t)"

abbreviation sh_runtime :: "Shell \<Rightarrow> Runtime" where
  "sh_runtime s \<equiv> gs_runtime (sh_session s)"

text \<open>Answers that may not come: the program runs forever.\<close>

definition bindD :: "('a result \<times> 's) option \<Rightarrow> ('a \<Rightarrow> 's \<Rightarrow> ('b result \<times> 's) option) \<Rightarrow> ('b result \<times> 's) option" where
  "bindD m k = Option.bind m (\<lambda>(r, s). case r of Inl e \<Rightarrow> Some (Inl e, s) | Inr x \<Rightarrow> k x s)"

section \<open>Single steps\<close>

datatype StepOutcome = NoProgramLoaded | Advanced | Halted | Interrupted | RuntimeErrorOutcome

fun is_runtime_error :: "error \<Rightarrow> bool" where
  "is_runtime_error (RuntimeError _) = True"
| "is_runtime_error (FileSystemError _) = True"
| "is_runtime_error _ = False"

definition stepRuntime :: "Env \<Rightarrow> bool \<Rightarrow> (Instruction list \<times> int list) option \<Rightarrow> (GeminiSession, StepOutcome \<times> string) action" where
  "stepRuntime env traceEnabled loadedView =
     bindS (getS (ip \<circ> gs_runtime)) (\<lambda>i.
     bindS (case loadedView of
              Some (prog, lines) \<Rightarrow>
                if traceEnabled \<and> i < length prog
                then bindS (liftS (formatInstructionLine i (prog ! i) (Some lines))) (\<lambda>t. gs_say (t @ [LF])) else retS ()
            | None \<Rightarrow> retS ()) (\<lambda>_.
     bindS (getS (session_env env)) (\<lambda>env'.
       catching (bindS (in_runtime (step env')) (\<lambda>goes_on. retS (if goes_on then Advanced else Halted, [])))
         (\<lambda>e. if e = UserInterrupt then Some (retS (Interrupted, []))
              else if is_runtime_error e then Some (retS (RuntimeErrorOutcome, error_what e)) else None))))"

definition stepVm :: "Env \<Rightarrow> (GeminiSession, StepOutcome \<times> string) action" where
  "stepVm env s =
     (case lastLoaded s of
        None \<Rightarrow> (Inr (NoProgramLoaded, []), s)
      | Some l \<Rightarrow>
          if length (program l) \<le> ip (gs_runtime s) then (Inr (Halted, []), s)
          else bindS (updS (\<lambda>s. s\<lparr>suspended := False, resumePastBreakpointIp := None\<rparr>)) (\<lambda>_.
               bindS (liftS (formatInstructionLine (ip (gs_runtime s)) (program l ! ip (gs_runtime s)) (Some (sourceLinePerInstr l)))) (\<lambda>t.
               bindS (gs_say (t @ [LF])) (\<lambda>_.
                 stepRuntime env False (Some (program l, sourceLinePerInstr l))))) s)"

definition addBreakpoint :: "nat \<Rightarrow> GeminiSession \<Rightarrow> GeminiSession" where
  "addBreakpoint i s = s\<lparr>breakpoints := List.insert i (breakpoints s)\<rparr>"

definition removeBreakpoint :: "nat \<Rightarrow> (GeminiSession, bool) action" where
  "removeBreakpoint i s = (Inr (i \<in> set (breakpoints s)), s\<lparr>breakpoints := removeAll i (breakpoints s)\<rparr>)"

definition endProgramContext :: "GeminiSession \<Rightarrow> GeminiSession" where
  "endProgramContext s =
     s\<lparr>lastLoaded := None, suspended := False, resumePastBreakpointIp := None, gs_runtime := loadProgram [] [] (gs_runtime s)\<rparr>"

definition dumpProgram :: session_action where
  "dumpProgram =
     bindS (getS lastLoaded) (\<lambda>l.
       case l of
         None \<Rightarrow> gs_say (''No program loaded'' @ [LF])
       | Some l \<Rightarrow>
           (\<lambda>s. fold (\<lambda>i (r, t). case r of Inl e \<Rightarrow> (Inl e, t)
                   | Inr _ \<Rightarrow> bindS (liftS (formatInstructionLine i (program l ! i) (Some (sourceLinePerInstr l)))) (\<lambda>x. gs_say (x @ [LF])) t)
                 [0..<length (program l)] (Inr (), s)))"

definition dumpLabels :: session_action where
  "dumpLabels =
     bindS (getS lastLoaded) (\<lambda>l.
       case l of
         None \<Rightarrow> gs_say (''No program loaded'' @ [LF])
       | Some l \<Rightarrow>
           if labels l = [] then gs_say (''No labels'' @ [LF])
           else gs_say (concat (map (\<lambda>p. fst p @ '' -> '' @ show_int (snd p) @ [LF]) (sort_key fst (labels l)))))"

section \<open>The debugger of BASIC programs\<close>

text \<open>One round of \<open>runBasicUntilStop\<close>: \<open>Some finished\<close> ends the loop.\<close>

definition until_round :: "Env \<Rightarrow> Instruction list \<Rightarrow> int list \<Rightarrow> bool \<Rightarrow> int \<Rightarrow> (Shell, bool option) action" where
  "until_round env prog lines stopAtNextBasicLine initialLine =
     bindS (getS (\<lambda>s. let i = ip (sh_runtime s) in if i < length lines then lines ! i else 0)) (\<lambda>sourceLine.
     bindS (getS (\<lambda>s. 0 < sourceLine \<and> basicResumePastLine s = Some sourceLine)) (\<lambda>skipLineBreakpointOnce.
     bindS (getS (\<lambda>s. \<not> skipLineBreakpointOnce \<and> 0 < sourceLine \<and> sourceLine \<in> set (basicBreakpoints s))) (\<lambda>hit.
       if hit then bindS (sh_say (''Breakpoint hit at line '' @ show_int sourceLine @ [LF])) (\<lambda>_. retS (Some False))
       else bindS (updS (\<lambda>s. if skipLineBreakpointOnce then s\<lparr>basicResumePastLine := None\<rparr> else s)) (\<lambda>_.
            bindS (getS basicTrace) (\<lambda>tr.
            bindS (on_session (stepRuntime env tr (Some (prog, lines)))) (\<lambda>(outcome, message).
              if outcome = Halted then retS (Some True)
              else if outcome = Interrupted then
                bindS (sh_say ([LF] @ ''Break'' @ [LF])) (\<lambda>_.
                bindS (updS (\<lambda>s. s\<lparr>sh_session := (sh_session s)\<lparr>gs_runtime := clearInterrupt (sh_runtime s)\<rparr>\<rparr>)) (\<lambda>_. retS (Some False)))
              else if outcome = RuntimeErrorOutcome then
                bindS (sh_say ([LF] @ ''Runtime error: '' @ message @ [LF])) (\<lambda>_. retS (Some False))
              else bindS (getS (currentSourceLine \<circ> sh_runtime)) (\<lambda>currentLine.
                     retS (if stopAtNextBasicLine \<and> 0 < currentLine \<and> currentLine \<noteq> initialLine then Some False else None))))))))"

partial_function (option) until_rounds ::
    "Env \<Rightarrow> Instruction list \<Rightarrow> int list \<Rightarrow> bool \<Rightarrow> int \<Rightarrow> Shell \<Rightarrow> (bool result \<times> Shell) option" where
  "until_rounds env prog lines stopAtNextBasicLine initialLine s =
     (if length prog \<le> ip (sh_runtime s) then Some (Inr True, s)
      else case until_round env prog lines stopAtNextBasicLine initialLine s of
             (Inl e, t) \<Rightarrow> Some (Inl e, t)
           | (Inr (Some finished), t) \<Rightarrow> Some (Inr finished, t)
           | (Inr None, t) \<Rightarrow> until_rounds env prog lines stopAtNextBasicLine initialLine t)"

definition runBasicUntilStop :: "Env \<Rightarrow> Instruction list \<Rightarrow> int list \<Rightarrow> bool \<Rightarrow> Shell \<Rightarrow> (bool result \<times> Shell) option" where
  "runBasicUntilStop env prog lines stopAtNextBasicLine s =
     until_rounds env prog lines stopAtNextBasicLine (currentSourceLine (sh_runtime s)) s"

definition sourceLinesFromMetadata :: "int list \<Rightarrow> int list" where
  "sourceLinesFromMetadata lines = filter (\<lambda>l. 0 < l) lines"

definition listBasicSourceRange :: "BasicProgram \<Rightarrow> int \<Rightarrow> int \<Rightarrow> string" where
  "listBasicSourceRange p a b = concat (map line_text (filter (\<lambda>l. a \<le> fst l \<and> fst l \<le> b) (prog_lines p)))"

fun first_index :: "'a \<Rightarrow> 'a list \<Rightarrow> nat option" where
  "first_index x [] = None"
| "first_index x (y # ys) = (if y = x then Some 0 else map_option Suc (first_index x ys))"

definition firstInstructionForSourceLine :: "int list \<Rightarrow> int \<Rightarrow> nat option" where
  "firstInstructionForSourceLine lines sourceLine = first_index sourceLine lines"

definition debugger_help :: string where
  "debugger_help =
     ''Debugger commands:'' @ [LF] @ ''  CONT'' @ [LF] @ ''  STEP'' @ [LF] @ ''  BREAKPOINT <line>'' @ [LF] @ ''  BREAKPOINTS'' @ [LF] @
     ''  CLEAR-BREAKPOINT <line>'' @ [LF] @ ''  CLEAR-BREAKPOINTS'' @ [LF] @ ''  TRACE ON|OFF'' @ [LF] @
     ''  LIST [line|start-end]'' @ [LF] @ ''  GOTO <line>'' @ [LF] @ ''  QUIT'' @ [LF]"

text \<open>The commands that always return; the answer is whether the debugger is left.\<close>

definition debugger_command :: "string list \<Rightarrow> Instruction list \<Rightarrow> int list \<Rightarrow> BasicProgram \<Rightarrow> (Shell, bool) action" where
  "debugger_command tokens prog lines src =
     (let cmd = tokens ! 0; stay = (\<lambda>a. bindS a (\<lambda>_. retS False)); told = (\<lambda>t. stay (sh_say (t @ [LF])));
          line = (if length tokens = 2 then positiveInt (tokens ! 1) else None)
      in if cmd = ''BREAKPOINT'' then
           (case line of
              None \<Rightarrow> told ''BREAKPOINT requires a BASIC line number''
            | Some n \<Rightarrow> if n \<notin> set (sourceLinesFromMetadata lines) then told ''No such BASIC line in compiled program''
                        else stay (updS (\<lambda>s. s\<lparr>basicBreakpoints := List.insert n (basicBreakpoints s)\<rparr>)))
         else if cmd = ''BREAKPOINTS'' then
           bindS (getS basicBreakpoints) (\<lambda>bs.
             if bs = [] then told ''No breakpoints''
             else told (''Breakpoints:'' @ concat (map (\<lambda>l. SP # show_int l) (sort bs))))
         else if cmd = ''CLEAR-BREAKPOINT'' then
           (case line of
              None \<Rightarrow> told ''CLEAR-BREAKPOINT requires a BASIC line number''
            | Some n \<Rightarrow> bindS (getS (\<lambda>s. n \<in> set (basicBreakpoints s))) (\<lambda>there.
                        bindS (updS (\<lambda>s. s\<lparr>basicBreakpoints := removeAll n (basicBreakpoints s)\<rparr>)) (\<lambda>_.
                          if there then retS False else told ''No such breakpoint'')))
         else if cmd = ''CLEAR-BREAKPOINTS'' then stay (updS (\<lambda>s. s\<lparr>basicBreakpoints := []\<rparr>))
         else if cmd = ''TRACE'' then
           (if length tokens \<noteq> 2 \<or> (tokens ! 1 \<noteq> ''ON'' \<and> tokens ! 1 \<noteq> ''OFF'') then told ''TRACE requires ON or OFF''
            else stay (updS (\<lambda>s. s\<lparr>basicTrace := (tokens ! 1 = ''ON'')\<rparr>)))
         else if cmd = ''LIST'' then
           (case parseListRangeTokens tokens of
              None \<Rightarrow> told ''LIST takes no args, LIST <line>, or LIST <start-end>''
            | Some (a, b) \<Rightarrow> stay (sh_say (listBasicSourceRange src a b)))
         else if cmd = ''GOTO'' then
           (case line of
              None \<Rightarrow> told ''GOTO requires a BASIC line number''
            | Some n \<Rightarrow> (case firstInstructionForSourceLine lines n of
                          None \<Rightarrow> told ''No such BASIC line in compiled program''
                        | Some i \<Rightarrow> stay (on_session (in_runtime (setInstructionPointer i)))))
         else if cmd = ''QUIT'' \<or> cmd = ''END'' then
           bindS (on_session (in_runtime (setInstructionPointer (length prog)))) (\<lambda>_. retS True)
         else if cmd = ''HELP'' then stay (sh_say debugger_help)
         else told (''Unknown debugger command: '' @ cmd))"

definition handleBasicDebuggerCommand ::
    "Env \<Rightarrow> string list \<Rightarrow> Instruction list \<Rightarrow> int list \<Rightarrow> BasicProgram \<Rightarrow> Shell \<Rightarrow> (bool result \<times> Shell) option" where
  "handleBasicDebuggerCommand env tokens prog lines src s =
     (if tokens = [] then Some (Inr False, s)
      else if tokens ! 0 = ''CONT'' then runBasicUntilStop env prog lines False s
      else if tokens ! 0 = ''STEP'' then runBasicUntilStop env prog lines True s
      else Some (debugger_command tokens prog lines src s))"

definition readPromptedInputLine :: "string \<Rightarrow> (GeminiSession, string option) action" where
  "readPromptedInputLine promptText = bindS (gs_say promptText) (\<lambda>_. in_runtime readInputLine)"

text \<open>The prompt \<open>*\<close> after a failure or an interrupt.\<close>

partial_function (option) debugger_loop ::
    "Env \<Rightarrow> Instruction list \<Rightarrow> int list \<Rightarrow> BasicProgram \<Rightarrow> Shell \<Rightarrow> (unit result \<times> Shell) option" where
  "debugger_loop env prog lines src s =
     (if length prog \<le> ip (sh_runtime s) then Some (Inr (), s)
      else case on_session (readPromptedInputLine ''* '') s of
             (Inl e, t) \<Rightarrow> Some (Inl e, t)
           | (Inr None, t) \<Rightarrow> Some (on_session (in_runtime (setInstructionPointer (length prog))) t)
           | (Inr (Some line), t) \<Rightarrow>
               Option.bind (handleBasicDebuggerCommand env (words_of line) prog lines src t) (\<lambda>(r, u).
                 case r of
                   Inl e \<Rightarrow> Some (Inl e, u)
                 | Inr is_done \<Rightarrow> if is_done then Some (Inr (), u) else debugger_loop env prog lines src u))"

section \<open>Programs and their successors\<close>

definition in_shell_session :: "(ShellSession, 'a) action \<Rightarrow> (GeminiSession, 'a) action" where
  "in_shell_session a s =
     (case a \<lparr>sess_world = gs_world s, sess_voc = gs_voc s\<rparr> of
        (r, t) \<Rightarrow> (r, (set_world (sess_world t) s)\<lparr>gs_voc := sess_voc t\<rparr>))"

definition ensureObject :: "host \<Rightarrow> string \<Rightarrow> (GeminiSession, bool) action" where
  "ensureObject h name s =
     (case ensureProgramObjectExistsForRun h (gs_fileSystem s) name (\<lparr>sess_world = gs_world s, sess_voc = gs_voc s\<rparr>, outStream (gs_runtime s)) of
        (r, t, out) \<Rightarrow>
          (r, (set_world (sess_world t) s)\<lparr>gs_voc := sess_voc t, gs_runtime := (gs_runtime s)\<lparr>vmWorld := sess_world t, outStream := out\<rparr>\<rparr>))"

text \<open>The object and the source records of a program, the object parsed.\<close>

definition program_object :: "host \<Rightarrow> string \<Rightarrow> (GeminiSession, ProgramLocation \<times> string option) action" where
  "program_object h name =
     bindS (getS gs_fileSystem) (\<lambda>fs.
     bindS (in_shell_session (session_location h fs name)) (\<lambda>location.
     bindS (in_shell_session (readProgramRecord h fs location True)) (\<lambda>object. retS (location, object))))"

definition chain_target :: "host \<Rightarrow> string \<Rightarrow> (GeminiSession, (LoadedBytecode \<times> BasicProgram) option) action" where
  "chain_target h name =
     bindS (getS gs_fileSystem) (\<lambda>fs.
     bindS (program_object h name) (\<lambda>(location, object).
       case object of
         None \<Rightarrow> bindS (gs_say ([LF] @ ''Runtime error: CHAIN target has no object code: '' @ name @ [LF])) (\<lambda>_. retS None)
       | Some t \<Rightarrow>
           bindS (liftS (parse t)) (\<lambda>loaded.
           bindS (in_shell_session (readProgramRecord h fs location False)) (\<lambda>source.
             retS (Some (loaded,
               case source of None \<Rightarrow> \<lparr>prog_name = Some name, prog_lines = []\<rparr> | Some x \<Rightarrow> source_program name x))))))"

definition chain_failed :: "error \<Rightarrow> (GeminiSession, 'a option) action option" where
  "chain_failed e =
     (if is_std_exception e
      then Some (bindS (gs_say ([LF] @ ''Runtime error: CHAIN failed: '' @ error_what e @ [LF])) (\<lambda>_. retS None)) else None)"

text \<open>The next program of a \<open>CHAIN\<close>, or none after a message.\<close>

definition chain_next :: "host \<Rightarrow> string \<Rightarrow> (GeminiSession, (LoadedBytecode \<times> BasicProgram) option) action" where
  "chain_next h name =
     (if name = [] then bindS (gs_say ([LF] @ ''Runtime error: CHAIN requires a program name'' @ [LF])) (\<lambda>_. retS None)
      else if CHR ''.'' \<in> set name
      then bindS (gs_say ([LF] @ ''Runtime error: CHAIN expects a program name without extension'' @ [LF])) (\<lambda>_. retS None)
      else bindS (ensureObject h name) (\<lambda>ok. if \<not> ok then retS None else catching (chain_target h name) chain_failed))"

definition started :: "Instruction list \<Rightarrow> int list \<Rightarrow> Shell \<Rightarrow> Shell" where
  "started prog lines s =
     s\<lparr>basicBreakpoints := [], basicResumePastLine := None, basicTrace := False,
       sh_session := (sh_session s)\<lparr>gs_runtime := loadProgram prog lines (sh_runtime s)\<rparr>\<rparr>"

text \<open>
  Running a compiled program until it ends, however often it chains.  An exception that is not a \<open>std::runtime_error\<close> leaves the function, and
  so does a chain request of a program that the debugger continued.
\<close>

partial_function (option) executeCompiledBasicProgram ::
    "host \<Rightarrow> Env \<Rightarrow> Instruction list \<Rightarrow> int list \<Rightarrow> BasicProgram \<Rightarrow> Shell \<Rightarrow> (unit result \<times> Shell) option" where
  "executeCompiledBasicProgram h env prog lines src s0 =
     (let s = started prog lines s0
      in Option.bind (run (session_env env (sh_session s)) (sh_runtime s)) (\<lambda>(r, rt).
           let t = s\<lparr>sh_session := (sh_session s)\<lparr>gs_runtime := rt\<rparr>\<rparr>
           in case r of
                Inr _ \<Rightarrow> Some (Inr (), t)
              | Inl (ChainRequest name) \<Rightarrow>
                  (case on_session (chain_next h name) t of
                     (Inl e, u) \<Rightarrow> Some (Inl e, u)
                   | (Inr None, u) \<Rightarrow> Some (Inr (), u)
                   | (Inr (Some (loaded, src')), u) \<Rightarrow>
                       Option.bind (executeCompiledBasicProgram h env (program loaded) (sourceLinePerInstr loaded) src' u) (\<lambda>(r', v).
                         Some (case r' of
                                 Inr _ \<Rightarrow> (Inr (), v)
                               | Inl e \<Rightarrow> if is_std_exception e then sh_say ([LF] @ ''Runtime error: CHAIN failed: '' @ error_what e @ [LF]) v
                                          else (Inl e, v))))
              | Inl e \<Rightarrow>
                  if e = UserInterrupt then
                    debugger_loop env prog lines src
                      (snd (sh_say ([LF] @ ''Break'' @ [LF]) (t\<lparr>sh_session := (sh_session t)\<lparr>gs_runtime := clearInterrupt rt\<rparr>\<rparr>)))
                  else if is_runtime_error e then
                    debugger_loop env prog lines src (snd (sh_say ([LF] @ ''Runtime error: '' @ error_what e @ [LF]) t))
                  else Some (Inl e, t)))"

section \<open>\<open>RUN\<close>\<close>

definition load_for_run :: "host \<Rightarrow> string \<Rightarrow> (GeminiSession, bool) action" where
  "load_for_run h name =
     bindS (program_object h name) (\<lambda>(_, object).
       case object of
         None \<Rightarrow> bindS (gs_say (''Error: Cannot open bytecode file for program: '' @ name @ [LF])) (\<lambda>_. retS False)
       | Some t \<Rightarrow>
           bindS (liftS (parse t)) (\<lambda>loaded.
           bindS (getS (pruneBreakpointsForProgram (length (program loaded)))) (\<lambda>(message, _).
           bindS (gs_say message) (\<lambda>_.
           bindS (updS (\<lambda>s. (snd (pruneBreakpointsForProgram (length (program loaded)) s))
                   \<lparr>lastLoaded := Some loaded, gs_runtime := loadProgram (program loaded) (sourceLinePerInstr loaded) (gs_runtime s),
                    suspended := False, resumePastBreakpointIp := None\<rparr>)) (\<lambda>_. retS True)))))"

definition run_failed :: "error \<Rightarrow> (GeminiSession, unit) action option" where
  "run_failed e = (if is_std_exception e then Some (gs_say (''Error: '' @ error_what e @ [LF])) else None)"

definition caught :: "(unit result \<times> GeminiSession) option \<Rightarrow> (unit result \<times> GeminiSession) option" where
  "caught m = map_option (\<lambda>(r, s). case r of Inr _ \<Rightarrow> (Inr (), s)
     | Inl e \<Rightarrow> (case run_failed e of Some a \<Rightarrow> a s | None \<Rightarrow> (Inl e, s))) m"

definition cmdRun :: "host \<Rightarrow> Env \<Rightarrow> string list \<Rightarrow> GeminiSession \<Rightarrow> (unit result \<times> GeminiSession) option" where
  "cmdRun h env tokens s =
     (let name = tokens ! 1
      in if length tokens = 1 then
           (if \<not> suspended s then Some (gs_say (''RUN requires a filename'' @ [LF]) s)
            else if lastLoaded s = None then Some (gs_say (''RUN requires a filename'' @ [LF]) (s\<lparr>suspended := False\<rparr>))
            else executeVmLoop env (s\<lparr>resumePastBreakpointIp := Some (ip (gs_runtime s))\<rparr>))
         else if length tokens \<noteq> 2 then Some (gs_say (''RUN takes exactly one program name'' @ [LF]) s)
         else if name = [] then Some (gs_say (''RUN requires a program name'' @ [LF]) s)
         else if CHR ''.'' \<in> set name then Some (gs_say (''RUN expects a program name without extension'' @ [LF]) s)
         else case ensureObject h name s of
                (Inl e, t) \<Rightarrow> Some (Inl e, t)
              | (Inr ok, t) \<Rightarrow>
                  if \<not> ok then Some (Inr (), t)
                  else caught (bindD (Some (load_for_run h name t)) (\<lambda>loaded u. if loaded then executeVmLoop env u else Some (Inr (), u))))"

section \<open>The assembler mode\<close>

definition asm_help :: string where
  "asm_help =
     ''ASM commands:'' @ [LF] @ ''  RUN [name]'' @ [LF] @ ''  CONT'' @ [LF] @ ''  STEP'' @ [LF] @ ''  TRACE ON|OFF'' @ [LF] @
     ''  BREAKPOINT <n>'' @ [LF] @ ''  BREAKPOINTS'' @ [LF] @ ''  CLEAR-BREAKPOINT <n>'' @ [LF] @ ''  CLEAR-BREAKPOINTS'' @ [LF] @
     ''  DUMP-STACK'' @ [LF] @ ''  DUMP-PROGRAM'' @ [LF] @ ''  DUMP-LABELS'' @ [LF] @ ''  END            exit VM debugger context'' @ [LF] @
     ''  QUIT'' @ [LF]"

definition asm_enter :: shell_action where
  "asm_enter = bindS (getS asmActive) (\<lambda>active.
     if active then sh_say (''Already in ASM mode'' @ [LF]) else updS (\<lambda>s. s\<lparr>asmActive := True\<rparr>))"

definition asm_step :: "Env \<Rightarrow> session_action" where
  "asm_step env = bindS (stepVm env) (\<lambda>(outcome, message).
     if outcome = NoProgramLoaded then gs_say (''No program loaded'' @ [LF])
     else if outcome = Halted then gs_say (''Program finished'' @ [LF])
     else if outcome = RuntimeErrorOutcome then gs_say (''Runtime error: '' @ message @ [LF])
     else retS ())"

text \<open>The commands of the table that return.\<close>

definition asm_session_command :: "Env \<Rightarrow> string list \<Rightarrow> session_action" where
  "asm_session_command env tokens =
     (let cmd = tokens ! 0; told = (\<lambda>t. gs_say (t @ [LF]))
      in if cmd = ''HELP'' then gs_say asm_help
         else if cmd = ''END'' then
           bindS (getS lastLoaded) (\<lambda>l. if l = None then told ''No program loaded'' else updS endProgramContext)
         else if cmd = ''TRACE'' then
           (if length tokens \<noteq> 2 \<or> (tokens ! 1 \<noteq> ''ON'' \<and> tokens ! 1 \<noteq> ''OFF'') then told ''TRACE requires ON or OFF''
            else updS (\<lambda>s. s\<lparr>traceOn := (tokens ! 1 = ''ON'')\<rparr>))
         else if cmd = ''STEP'' then (if length tokens \<noteq> 1 then told ''STEP takes no arguments'' else asm_step env)
         else if cmd = ''BREAKPOINT'' then
           (if length tokens \<noteq> 2 then told ''BREAKPOINT requires an index''
            else case stoull (tokens ! 1) of
                   Inl _ \<Rightarrow> told ''BREAKPOINT requires a non-negative integer index''
                 | Inr (i, _) \<Rightarrow> updS (addBreakpoint i))
         else if cmd = ''BREAKPOINTS'' then
           bindS (getS (sort \<circ> breakpoints)) (\<lambda>bs.
             if bs = [] then told ''No breakpoints'' else told (''Breakpoints:'' @ concat (map (\<lambda>b. SP # show_nat b) bs)))
         else if cmd = ''CLEAR-BREAKPOINT'' then
           (if length tokens \<noteq> 2 then told ''CLEAR-BREAKPOINT requires an index''
            else case stoull (tokens ! 1) of
                   Inl _ \<Rightarrow> told ''CLEAR-BREAKPOINT requires a non-negative integer index''
                 | Inr (i, _) \<Rightarrow> bindS (removeBreakpoint i) (\<lambda>there. if there then retS () else told ''No such breakpoint''))
         else if cmd = ''CLEAR-BREAKPOINTS'' then updS (\<lambda>s. s\<lparr>breakpoints := []\<rparr>)
         else if cmd = ''DUMP-PROGRAM'' then dumpProgram
         else if cmd = ''DUMP-LABELS'' then dumpLabels
         else if cmd = ''DUMP-STACK'' then in_runtime dumpStack
         else told (''Unknown command: '' @ cmd))"

definition in_option :: "(unit result \<times> GeminiSession) option \<Rightarrow> Shell \<Rightarrow> (unit result \<times> Shell) option" where
  "in_option m s = map_option (\<lambda>(r, g). (r, s\<lparr>sh_session := g\<rparr>)) m"

definition asm_command :: "host \<Rightarrow> Env \<Rightarrow> string list \<Rightarrow> Shell \<Rightarrow> (unit result \<times> Shell) option" where
  "asm_command h env tokens s =
     (if tokens = [] \<or> \<not> asmActive s then Some (Inr (), s)
      else if tokens ! 0 = ''QUIT'' then Some (Inr (), s\<lparr>asmActive := False\<rparr>)
      else if tokens ! 0 = ''RUN'' then in_option (cmdRun h env tokens (sh_session s)) s
      else if tokens ! 0 = ''CONT'' then
        (if length tokens \<noteq> 1 then Some (sh_say (''CONT takes no arguments'' @ [LF]) s)
         else in_option (cmdRun h env [''RUN''] (sh_session s)) s)
      else Some (on_session (asm_session_command env tokens) s))"

section \<open>Breakpoints\<close>

text \<open>
  The steps of the machine that pass no breakpoint.  The flag says whether the breakpoint at the current instruction is to be passed over,
  as it is when a suspended program is resumed.
\<close>

inductive walks :: "Env \<Rightarrow> nat set \<Rightarrow> bool \<Rightarrow> Runtime \<Rightarrow> bool \<Rightarrow> Runtime \<Rightarrow> bool" for env B where
  here: "walks env B skip a skip a"
| go: "skip \<or> ip a \<notin> B \<Longrightarrow> step env a = (Inr True, b) \<Longrightarrow> walks env B False b skip' c \<Longrightarrow> walks env B skip a skip' c"

code_pred walks .

inductive_cases walks_start: "walks env B False a True c"

definition resumed :: "bool \<Rightarrow> Runtime \<Rightarrow> GeminiSession \<Rightarrow> GeminiSession" where
  "resumed skip rt s = s\<lparr>gs_runtime := rt, resumePastBreakpointIp := (if skip then Some (ip rt) else None)\<rparr>"

lemma session_env_simps [simp]:
  "session_env env (s\<lparr>gs_runtime := rt\<rparr>) = session_env env s" "session_env env (s\<lparr>resumePastBreakpointIp := x\<rparr>) = session_env env s"
  by (simp_all add: session_env_def resolveSystemVariable_def Let_def cong: if_cong)

lemma resumed_simps [simp]:
  "gs_runtime (resumed k rt s) = rt" "breakpoints (resumed k rt s) = breakpoints s" "traceOn (resumed k rt s) = traceOn s"
  "session_env env (resumed k rt s) = session_env env s" "resumed k rt (resumed k' rt' s) = resumed k rt s"
  by (simp_all add: resumed_def)

lemma session_env_ok: "env_ok env \<Longrightarrow> env_ok (session_env env s)"
  by (auto simp: env_ok_def session_env_def)

lemma vm_round_hit:
  assumes "\<not> traceOn s" "ip rt \<in> set (breakpoints s)"
  shows "vm_round env prog lines (resumed False rt s) =
    (Inr False, (resumed False (rt\<lparr>outStream := outStream rt @ ''Breakpoint hit at '' @ show_nat (ip rt) @ [LF]\<rparr>) s)\<lparr>suspended := True\<rparr>)"
  using assms by (simp add: vm_round_def bindS_def gs_say_def) (simp add: resumed_def)

lemma vm_round_step:
  assumes "\<not> traceOn s" "skip \<or> ip rt \<notin> set (breakpoints s)"
  shows "vm_round env prog lines (resumed skip rt s) =
    (case step (session_env env s) rt of
       (Inl e, rt') \<Rightarrow> (Inl e, resumed False rt' s)
     | (Inr goes_on, rt') \<Rightarrow> (Inr goes_on, if goes_on then resumed False rt' s else (resumed False rt' s)\<lparr>suspended := False\<rparr>))"
proof -
  have u: "(resumed k rt s)\<lparr>resumePastBreakpointIp := None\<rparr> = resumed False rt s"
    "(resumed False rt s)\<lparr>gs_runtime := rt'\<rparr> = resumed False rt' s" for k rt'
    by (simp_all add: resumed_def)
  have w: "resumePastBreakpointIp (resumed k rt s) = (if k then Some (ip rt) else None)" for k by (simp add: resumed_def)
  obtain r rt' where st: "step (session_env env s) rt = (r, rt')" by (cases "step (session_env env s) rt")
  show ?thesis
  proof (cases skip)
    case True
    then show ?thesis using assms st u by (cases r) (simp_all add: vm_round_def bindS_def in_runtime_def w del: resumed_simps(5))
  next
    case False
    then show ?thesis using assms st u by (cases r) (simp_all add: vm_round_def bindS_def in_runtime_def w)
  qed
qed

lemma walks_rounds:
  assumes "walks (session_env env s) (set (breakpoints s)) skip rt skip' rt'"
    and "\<not> traceOn s" "env_ok env" "program_ok prog" "vm_inv prog rt"
  shows "vm_rounds env prog lines (resumed skip rt s) = vm_rounds env prog lines (resumed skip' rt' s) \<and> vm_inv prog rt'"
  using assms(1,5)
proof (induction rule: walks.induct)
  case (go skip a b skip' c)
  have b: "vm_inv prog b" using step_keeps(1) [OF session_env_ok [OF assms(3)] assms(4) go.prems go.hyps(2)] .
  have "ip a < length prog" using go.hyps(2) go.prems by (auto simp: step_def vm_inv_def split: if_splits)
  then have "vm_rounds env prog lines (resumed skip a s) = vm_rounds env prog lines (resumed False b s)"
    using vm_round_step [OF assms(2) go.hyps(1), of env prog lines] go.hyps(2) by (subst vm_rounds.simps) simp
  then show ?case using go.IH [OF b] by simp
qed simp

text \<open>
  C33.  Breakpoints only stop a program, they never change it.  When \<open>RUN\<close> starts or resumes a loaded program without trace, it takes the steps
  the machine itself takes.  It stops at the first breakpoint on the way, other than the one it is resumed at, and is suspended there with nothing
  but the message added to the output; if the machine ends or fails before one, so does \<open>RUN\<close>, with the same state and the same error.
\<close>

theorem breakpoints_only_stop:
  fixes s :: GeminiSession and env :: Env
  defines "E \<equiv> session_env env s"
  assumes loaded: "lastLoaded s = Some l" "program_ok (program l)" "vm_inv (program l) (gs_runtime s)" "env_ok env" "\<not> traceOn s"
    and start: "resumePastBreakpointIp s = (if skip then Some (ip (gs_runtime s)) else None)"
    and way: "walks E (set (breakpoints s)) skip (gs_runtime s) skip' rt"
  shows "(ip rt \<in> set (breakpoints s) \<and> \<not> skip' \<and> ip rt < length (program l) \<longrightarrow>
      executeVmLoop env s = Some (Inr (), s\<lparr>gs_runtime := rt\<lparr>outStream := outStream rt @ ''Breakpoint hit at '' @ show_nat (ip rt) @ [LF]\<rparr>,
        resumePastBreakpointIp := None, suspended := True\<rparr>)) \<and>
    ((skip' \<or> ip rt \<notin> set (breakpoints s)) \<and> ip rt < length (program l) \<longrightarrow>
      (\<forall>rt'. step E rt = (Inr False, rt') \<longrightarrow>
         executeVmLoop env s = Some (Inr (), s\<lparr>gs_runtime := rt', resumePastBreakpointIp := None, suspended := False\<rparr>)) \<and>
      (\<forall>e rt'. step E rt = (Inl e, rt') \<longrightarrow>
         executeVmLoop env s = Some (Inl e, s\<lparr>gs_runtime := rt', resumePastBreakpointIp := None\<rparr>)))"
proof -
  have s: "resumed skip (gs_runtime s) s = s" by (simp add: resumed_def flip: start)
  have run: "executeVmLoop env s = vm_rounds env (program l) (sourceLinePerInstr l) (resumed skip' rt s)"
    using walks_rounds [OF way [unfolded E_def] loaded(5,4,2,3), of "sourceLinePerInstr l"] loaded(1) s by (simp add: executeVmLoop_def)
  show ?thesis
  proof (intro conjI impI allI, goal_cases)
    case 1
    then show ?case using vm_round_hit [OF loaded(5), of rt env "program l" "sourceLinePerInstr l"] unfolding run
      by (subst vm_rounds.simps) (simp add: resumed_def)
  next
    case (2 rt')
    then show ?case using vm_round_step [OF loaded(5), of skip' rt env "program l" "sourceLinePerInstr l"] unfolding run E_def
      by (subst vm_rounds.simps) (simp add: resumed_def)
  next
    case (3 e rt')
    then show ?case using vm_round_step [OF loaded(5), of skip' rt env "program l" "sourceLinePerInstr l"] unfolding run E_def
      by (subst vm_rounds.simps) (simp add: resumed_def)
  qed
qed

text \<open>A program of three instructions with a breakpoint at the second.\<close>

definition stop_program :: "Instruction list" where
  "stop_program = [mkInstr PushInt (IntV 1), mkInstr PushInt (IntV 2), makeNoOperandInstruction Halt]"

definition stop_session :: GeminiSession where
  "stop_session =
     fresh_session\<lparr>gs_runtime := loadProgram stop_program [] (gs_runtime fresh_session), breakpoints := [1],
       lastLoaded := Some \<lparr>program = stop_program, labels = [], sourceLinePerInstr = []\<rparr>\<rparr>"

theorem breakpoints_only_stop_witness:
  "\<exists>t. executeVmLoop sample_env stop_session = Some (Inr (), t) \<and> suspended t \<and> ip (gs_runtime t) = 1 \<and>
    stack (gs_runtime t) = [IntV 1] \<and> outStream (gs_runtime t) = ''Breakpoint hit at 1'' @ [LF]"
proof -
  let ?E = "session_env sample_env stop_session"
  let ?rt = "(gs_runtime stop_session)\<lparr>stack := [IntV 1], ip := 1\<rparr>"
  have "step ?E (gs_runtime stop_session) = (Inr True, ?rt)"
    by (simp add: step_def stop_session_def stop_program_def loadProgram_def exec_def mkInstr_def makeNoOperandInstruction_def bindS_def
        intOperand_def push_break_def intOperandAtIp_def break_after_def pushV_def fresh_session_def sample_runtime_def)
  then have "walks ?E (set (breakpoints stop_session)) False (gs_runtime stop_session) False ?rt"
    by (intro walks.go [OF _ _ walks.here]) (simp_all add: stop_session_def loadProgram_def)
  moreover have "program_ok stop_program"
    by (simp add: program_ok_def handlers_ok_def targets_ok_def stop_program_def mkInstr_def makeNoOperandInstruction_def instr_typed_def Let_def
        int_ops_def name_ops_def range_simps)
  moreover have "vm_inv stop_program (gs_runtime stop_session)" by (simp add: vm_inv_def stop_session_def loadProgram_def)
  moreover have f: "lastLoaded stop_session = Some \<lparr>program = stop_program, labels = [], sourceLinePerInstr = []\<rparr>" "\<not> traceOn stop_session"
    "resumePastBreakpointIp stop_session = None" "breakpoints stop_session = [1]" "length stop_program = 3"
    by (simp_all add: stop_session_def fresh_session_def stop_program_def)
  moreover have "outStream (gs_runtime stop_session) = []" "show_nat 1 = ''1''"
    by (simp add: stop_session_def fresh_session_def loadProgram_def sample_runtime_def) code_simp
  ultimately show ?thesis
    using breakpoints_only_stop [of stop_session "\<lparr>program = stop_program, labels = [], sourceLinePerInstr = []\<rparr>" sample_env False False ?rt]
      sample_env_ok by simp
qed

end
