(* ===== verification/Spec2Isabelle.thy ===== *)
theory Spec2Isabelle
  imports Locking Records File_System Bytecode Bytecode_Parser Conversion Languages Runtime Machine_Execution Correlative_Laws English_Laws Basic_Execution Basic_Shell_Laws Proc_Laws Daemon Help Debugger
begin

text \<open>
  Gemini System: a Pick-style multi-user system in C++.

  \<^bold>\<open>The program.\<close>  A service daemon accepts consoles on a socket and gives each a session on a port.  A session runs the
  command language TCL, from which a user edits and runs BASIC programs, runs PROC scripts and asks ENGLISH queries.  BASIC is
  compiled to bytecode that a virtual machine interprets; programs, scripts and queries read and write records of files, which are
  directories of the host, and lock records against the other sessions.  One session runs at a time: a token goes from session to
  session whenever the running one waits for input or gives way.

  \<^bold>\<open>Theories and sources\<close> (paths below \<open>src/src\<close>).  A C++ function has a definition of its name; a class is a record with the
  fields of the class, an enumeration or variant a datatype, an exception a value of type \<open>error\<close>.

  \<^item> \<open>Prelude\<close>: the exceptions (\<open>error\<close>, \<open>result\<close>), strings as lists of characters with the library functions the code uses
    (\<open>trim\<close>, \<open>split\<close>, \<open>stoi\<close>, \<open>to_string\<close>, streams of lines), 32-bit arithmetic, and two interfaces used throughout:
    \<open>invariant_machine\<close> (steps that keep an invariant, with the induction over reachable states) and \<open>codec\<close> (an encoding with its
    partial inverse).
  \<^item> \<open>Locking\<close>: \<open>core/locking/LockTable.cpp\<close>.  Mutual exclusion for every history of calls, and refinement to a flat map.
  \<^item> \<open>Records\<close>: \<open>RecordAttribute.cpp\<close>, \<open>StructuredRecord.cpp\<close>, \<open>Record.cpp\<close>.  The raw form is a codec on records without gaps.
  \<^item> \<open>File_System\<close>: \<open>core/filesystem/FileSystem.cpp\<close>, \<open>Catalog.cpp\<close> over a directory tree whose host calls may fail.  A write is
    all or nothing, the store refines a map (locale \<open>record_store\<close>), \<open>readU\<close> serialises sessions.
  \<^item> \<open>Doubles\<close>, \<open>Values\<close>: IEEE 754 binary64 as integers with exponents, and the value variant of the machine with its coercions
    and printing.
  \<^item> \<open>Bytecode\<close>, \<open>Bytecode_Parser\<close>: \<open>InstructionPrint.cpp\<close>, \<open>BytecodeText.cpp\<close>, \<open>Parser.cpp\<close>.  Text and instructions are a round
    trip; what the parser accepts is well formed.
  \<^item> \<open>Conversion\<close>: \<open>PickOconv.cpp\<close>, \<open>PickIconv.cpp\<close>.  Round trips of the conversion codes, and the exact bound below which
    parsing is defined.
  \<^item> \<open>Languages\<close>: \<open>LanguageRegistry.cpp\<close> and the BASIC builtins (\<open>core/languages/basic\<close>).  The contract of a call holds for every
    function of a namespace (locale \<open>language_namespace\<close>), and the BASIC namespace is an instance.
  \<^item> \<open>Runtime\<close>, \<open>Machine_Invariant\<close>, \<open>Machine_Execution\<close>: \<open>core/vm/Runtime.cpp\<close>, every opcode.  An invariant of all reachable
    states; counted loops, subroutines and the error paths of locked records.
  \<^item> \<open>Correlatives\<close>, \<open>Correlative_Laws\<close>: dictionary items and their expressions (\<open>DictionaryResolver.cpp\<close>, \<open>correlatives/\<close>).
    Printing and parsing of expressions, exact integer evaluation, chains of synonyms.
  \<^item> \<open>English\<close>, \<open>English_Laws\<close>: \<open>EnglishParser.cpp\<close>, \<open>Executor.cpp\<close>, \<open>Formatter.cpp\<close>, \<open>EnglishService.cpp\<close>.  Queries parse back, \<open>SORT\<close>
    is a stable sorted permutation (locales \<open>three_way\<close>, \<open>weak_order\<close>), the paginating renderer equals its reference layout.
  \<^item> \<open>Basic_Syntax\<close>, \<open>Basic_Statements\<close>, \<open>Basic_Compiler\<close>, \<open>Basic_Typing\<close>, \<open>Basic_Code\<close>, \<open>Basic_Execution\<close>: \<open>userland/basic\<close>, the
    parsers of expressions and statements, the semantic analyzer and the emitter.  Compiled programs are well formed, lines lie
    where the fixups say, and the machine running the code of expressions, assignments, \<open>PRINT\<close>, \<open>GOTO\<close> and \<open>IF\<close> does what
    a reference evaluation of the trees says.
  \<^item> \<open>Voc\<close>, \<open>Basic_Shell\<close>, \<open>Basic_Shell_Laws\<close>: \<open>VocResolver.cpp\<close>, \<open>BasicProgram.cpp\<close>, \<open>BasicShell.cpp\<close> and the record access of
    programs in \<open>Shell.cpp\<close>.  The buffer keeps its shape under every typed line; \<open>SAVE\<close> and loading are a round trip.
  \<^item> \<open>Session\<close>: \<open>GeminiSession.cpp\<close>, \<open>TclEnvironment.cpp\<close>, \<open>MdDefaultDataFile.cpp\<close>.  However a session ends, exactly its locks go.
  \<^item> \<open>Proc\<close>, \<open>Proc_Host\<close>, \<open>Proc_Laws\<close>: \<open>ProcInterpreter.cpp\<close> and the callbacks the shell gives it.  Loop frames are nested loops
    around the running line, a walk through a select list ends, and a locked record is reported in \<open>PROCERR\<close>.
  \<^item> \<open>Login\<close>: \<open>LoginService.cpp\<close>, \<open>GeminiCatalog.cpp\<close>.  A user is delivered only for an account of the catalogue with its password.
  \<^item> \<open>Help\<close>: \<open>HelpTopics.cpp\<close>.  The keys of topics are the words one blank apart.
  \<^item> \<open>Editor\<close>: \<open>LineRecordEditor.cpp\<close>.  An editing session stores what its edits say.
  \<^item> \<open>Debugger\<close>: \<open>VmDebugService.cpp\<close>, \<open>AssemblerShell.cpp\<close> and, of \<open>Shell.cpp\<close>, \<open>executeCompiledBasicProgram\<close>, the debugger's commands
    and \<open>cmdRun\<close>.  Breakpoints stop a program at the first one on its way and change nothing else.
  \<^item> \<open>Scheduler\<close>: \<open>CooperativeSessionRunner.cpp\<close>.  At most one session runs, and no waiting session is passed over twice.
  \<^item> \<open>Session_Channel\<close>: \<open>IpcSessionChannel.cpp\<close>.  Whatever the socket takes at a time, the wire carries whole frames whose
    payloads are the written bytes in order; input wakes the reader.
  \<^item> \<open>Daemon_Protocol\<close>: \<open>DaemonIpcProtocol.cpp\<close>.  Every payload is a codec; frames survive any segmentation.
  \<^item> \<open>Daemon\<close>: \<open>PortManager.cpp\<close>, \<open>SessionTable.cpp\<close>, \<open>GeminiSessionHost.cpp\<close>, \<open>DaemonIpcServer.cpp\<close>, \<open>GeminiDaemonRunner.cpp\<close>.  One
    connection per session, and nothing is left after the shutdown.

  \<^bold>\<open>How the parts meet.\<close>  The machine calls the file system and, through the registry, the builtins; the file system calls the
  lock table under the lock context of the session; the BASIC shell calls the compiler, the machine and the vocabulary; PROC calls
  whatever the shell's callbacks do; the daemon creates sessions over one shared lock table and moves bytes between channels
  and connections.  The theorems that cross components are those on compiled programs (parser, emitter, text format, machine), on
  locks (table, file system, machine, session, PROC, daemon) and on the wire (protocol, channel, runner, server).

  \<^bold>\<open>Parameters.\<close>  What is outside of the sources is an argument: the host's file operations (record \<open>Host\<close>, each may
  fail), the clock and the transcendental functions (\<open>Env\<close>), the callbacks of the BASIC and PROC interpreters where they
  are generic in a world of any type, the JSON parser and the canonical paths of the host, and the answers of sockets (how many bytes a call
  takes or gives).

  \<^bold>\<open>Bounds and fuel.\<close>  Integers are 32-bit where the code's overflow is a branch of the model; counters of the daemon are
  unbounded, with ports below \<open>2 ^ 32 - 1\<close>.  The recursive-descent parsers get as fuel a bound computed from the length of the
  input (\<open>expr_fuel\<close>, \<open>parse_fuel\<close>), and lemmas show that more fuel gives the same result, so it never decides an outcome.  Loops
  of the code with their own limit keep it: 16 synonyms, 64 verbs in a chain of the vocabulary.  The search for a free port has as many
  steps as there are ports in use, plus one.  Loops that may run forever (the machine, a session's run with
  breakpoints, the debugger, PROC) are partial functions into an option, and what terminates is proved to return.  Threads are sequences
  of atomic sections of the code's mutexes; a wait on a condition variable is a step that is enabled when its predicate holds.

  \<^bold>\<open>What the modelling found.\<close>  Among others: attributes of a record with gaps move when it is written; \<open>END\<close> inside a program can
  leave a jump without a target; handler line 1 of \<open>ON ERROR\<close> switches the handler off; \<open>RENUM\<close> misses most jumps; a partly sent
  diagnostic frame can be cut by an output frame; a killed session's connection keeps its port number; \<open>CHAIN\<close> in a program started with
  \<open>RUN\<close> is an exception that nothing catches.  The theorems are
  stated for what the code does, with these cases excluded by a hypothesis or described by the statement.

  \<^bold>\<open>Not modelled.\<close>  The commands of the TCL shell beyond the program records, the BASIC mode, \<open>RUN\<close>, \<open>PROC\<close> and the editor are argument
  checks and messages around modelled operations.  The client console, boot, configuration and the loading of shared libraries are
  terminal, process or host I/O.  \<open>SerialSessionRunner\<close> is not used by the program.  The signal handler that interrupts a program is
  only the flag it sets.  The locale and the rounding mode of C++ streams are the default ones; memory exhaustion is left out.
\<close>

end
